(* ===== verification/BTree.thy ===== *)
theory BTree
  imports Prelude
begin

text \<open>
  Rust's \<open>BTreeMap\<close> and \<open>BTreeSet\<close>: a finite map whose iteration order is the key
  order. The model is a list of entries with strictly increasing keys, so two maps with the same
  bindings are equal and iteration is the list itself. The locale \<open>ordered_map\<close> states what
  the clients of the maps rely on; it is interpreted on the model below.
\<close>

section \<open>Sorted entry lists\<close>

fun ins_entry :: "'k::linorder \<Rightarrow> 'v \<Rightarrow> ('k \<times> 'v) list \<Rightarrow> ('k \<times> 'v) list" where
  "ins_entry k v [] = [(k, v)]"
| "ins_entry k v ((a, b) # xs) =
     (if k < a then (k, v) # (a, b) # xs
      else if k = a then (k, v) # xs
      else (a, b) # ins_entry k v xs)"

definition del_entry :: "'k::linorder \<Rightarrow> ('k \<times> 'v) list \<Rightarrow> ('k \<times> 'v) list" where
  "del_entry k xs = filter (\<lambda>e. fst e \<noteq> k) xs"

abbreviation key_sorted :: "('k::linorder \<times> 'v) list \<Rightarrow> bool" where
  "key_sorted xs \<equiv> sorted_wrt (<) (map fst xs)"

lemma keys_ins_entry: "fst ` set (ins_entry k v xs) = insert k (fst ` set xs)"
  by (induction k v xs rule: ins_entry.induct) auto

lemma key_sorted_ins: "key_sorted xs \<Longrightarrow> key_sorted (ins_entry k v xs)"
proof (induction k v xs rule: ins_entry.induct)
  case (2 k v a b xs)
  show ?case
  proof (cases "k < a \<or> k = a")
    case True
    with "2.prems" show ?thesis by force
  next
    case False
    with 2 have "key_sorted (ins_entry k v xs)" by simp
    moreover have "\<forall>x \<in> fst ` set (ins_entry k v xs). a < x"
      using "2.prems" False by (auto simp: keys_ins_entry)
    ultimately show ?thesis
      using False by auto
  qed
qed simp

lemma key_sorted_del: "key_sorted xs \<Longrightarrow> key_sorted (del_entry k xs)"
  by (simp add: del_entry_def sorted_wrt_map_filter)

lemma map_of_ins_entry: "key_sorted xs \<Longrightarrow> map_of (ins_entry k v xs) = (map_of xs)(k \<mapsto> v)"
  by (induction k v xs rule: ins_entry.induct) (auto simp: fun_eq_iff)

lemma map_of_del_entry: "map_of (del_entry k xs) = (map_of xs)(k := None)"
  by (induction xs) (auto simp: del_entry_def fun_eq_iff)

lemma key_sorted_distinct: "key_sorted xs \<Longrightarrow> distinct (map fst xs)"
  by (simp add: strict_sorted_iff)

lemma key_sorted_unique:
  assumes "key_sorted xs" "key_sorted ys" "map_of xs = map_of ys"
  shows "xs = ys"
proof -
  have d: "distinct (map fst xs)" "distinct (map fst ys)"
    using assms by (auto dest: key_sorted_distinct)
  then have "set xs = set ys"
    using assms(3) by (simp add: map_of_inject_set)
  moreover have "inj_on fst (set xs \<union> set ys)"
    using d \<open>set xs = set ys\<close> by (auto simp: distinct_map)
  ultimately show ?thesis
    using assms(1,2) d
    by (metis distinct_map image_set map_inj_on strict_sorted_equal)
qed

section \<open>Maps\<close>

typedef (overloaded) ('k::linorder, 'v) btree_map = "{xs :: ('k \<times> 'v) list. key_sorted xs}"
  morphisms entries BMap
  by (rule exI [of _ "[]"]) simp

setup_lifting type_definition_btree_map

lift_definition bm_empty :: "('k::linorder, 'v) btree_map" is "[]"
  by simp

lift_definition bm_insert :: "'k::linorder \<Rightarrow> 'v \<Rightarrow> ('k, 'v) btree_map \<Rightarrow> ('k, 'v) btree_map"
  is ins_entry
  by (rule key_sorted_ins)

lift_definition bm_remove :: "'k::linorder \<Rightarrow> ('k, 'v) btree_map \<Rightarrow> ('k, 'v) btree_map"
  is del_entry
  by (rule key_sorted_del)

definition bm_get :: "('k::linorder, 'v) btree_map \<Rightarrow> 'k \<Rightarrow> 'v option" where
  "bm_get m = map_of (entries m)"

definition bm_keys :: "('k::linorder, 'v) btree_map \<Rightarrow> 'k list" where
  "bm_keys m = map fst (entries m)"

definition bm_contains :: "('k::linorder, 'v) btree_map \<Rightarrow> 'k \<Rightarrow> bool" where
  "bm_contains m k \<longleftrightarrow> bm_get m k \<noteq> None"

text \<open>\<open>retain\<close>: the entries that satisfy the predicate.\<close>

lift_definition bm_retain :: "('k \<times> 'v \<Rightarrow> bool) \<Rightarrow> ('k::linorder, 'v) btree_map \<Rightarrow> ('k, 'v) btree_map"
  is filter
  by (simp add: sorted_wrt_map_filter)

definition bm_len :: "('k::linorder, 'v) btree_map \<Rightarrow> nat" where
  "bm_len m = length (entries m)"

text \<open>\<open>entry(k).or_insert(v)\<close> with the reference dropped.\<close>

definition bm_or_insert :: "'k::linorder \<Rightarrow> 'v \<Rightarrow> ('k, 'v) btree_map \<Rightarrow> ('k, 'v) btree_map" where
  "bm_or_insert k v m = (if bm_contains m k then m else bm_insert k v m)"

instantiation btree_map :: (linorder, equal) equal
begin

definition equal_btree_map :: "('a, 'b) btree_map \<Rightarrow> ('a, 'b) btree_map \<Rightarrow> bool" where
  "equal_btree_map a b \<longleftrightarrow> entries a = entries b"

instance
  by standard (simp add: equal_btree_map_def entries_inject)

end

lemma key_sorted_entries [simp]: "key_sorted (entries m)"
  using entries [of m] by simp

lemma distinct_keys [simp]: "distinct (bm_keys m)"
  unfolding bm_keys_def by (rule key_sorted_distinct) simp

lemma bm_get_empty [simp]: "bm_get bm_empty k = None"
  by (simp add: bm_get_def bm_empty.rep_eq)

lemma bm_get_insert [simp]: "bm_get (bm_insert k v m) = (bm_get m)(k \<mapsto> v)"
  by (simp add: bm_get_def bm_insert.rep_eq map_of_ins_entry)

lemma bm_get_remove [simp]: "bm_get (bm_remove k m) = (bm_get m)(k := None)"
  by (simp add: bm_get_def bm_remove.rep_eq map_of_del_entry)

lemma bm_get_or_insert:
  "bm_get (bm_or_insert k v m) = (if bm_get m k = None then (bm_get m)(k \<mapsto> v) else bm_get m)"
  by (auto simp: bm_or_insert_def bm_contains_def)

lemma bm_eqI: "(\<And>k. bm_get a k = bm_get b k) \<Longrightarrow> a = b"
proof -
  assume "\<And>k. bm_get a k = bm_get b k"
  then have "map_of (entries a) = map_of (entries b)"
    by (auto simp: bm_get_def fun_eq_iff)
  then have "entries a = entries b"
    by (rule key_sorted_unique [OF key_sorted_entries key_sorted_entries])
  then show "a = b" by (simp add: entries_inject)
qed

lemma bm_eq_iff: "a = b \<longleftrightarrow> bm_get a = bm_get b"
  by (auto intro: bm_eqI)

lemma entries_iff: "(k, v) \<in> set (entries m) \<longleftrightarrow> bm_get m k = Some v"
  by (simp add: bm_get_def key_sorted_distinct)

lemma bex_entries: "(\<exists>e \<in> set (entries m). P e) \<longleftrightarrow> (\<exists>k v. bm_get m k = Some v \<and> P (k, v))"
proof -
  have "(\<exists>e \<in> set (entries m). P e) \<longleftrightarrow> (\<exists>k v. (k, v) \<in> set (entries m) \<and> P (k, v))"
    by auto
  then show ?thesis by (simp only: entries_iff)
qed

lemma set_bm_keys: "k \<in> set (bm_keys m) \<longleftrightarrow> bm_get m k \<noteq> None"
  by (auto simp: bm_keys_def bm_get_def map_of_eq_None_iff)

lemma entries_empty [simp]: "entries bm_empty = []"
  by (simp add: bm_empty.rep_eq)

lemma distinct_entries [simp]: "distinct (entries m)"
proof -
  have "distinct (map fst (entries m))"
    by (rule key_sorted_distinct) simp
  then show ?thesis by (simp add: distinct_map)
qed

lemma filter_key_entries:
  "filter (\<lambda>e. fst e = k) (entries m) = (case bm_get m k of None \<Rightarrow> [] | Some v \<Rightarrow> [(k, v)])"
proof -
  have f: "filter (\<lambda>e. fst e = k) xs = (case map_of xs k of None \<Rightarrow> [] | Some v \<Rightarrow> [(k, v)])"
    if "distinct (map fst xs)" for xs
    using that
    by (induction xs) (auto simp: filter_empty_conv image_iff split: option.splits)
  show ?thesis unfolding bm_get_def by (rule f [OF key_sorted_distinct [OF key_sorted_entries]])
qed

lemma bm_get_retain [simp]:
  "bm_get (bm_retain P m) k =
     (case bm_get m k of None \<Rightarrow> None | Some v \<Rightarrow> if P (k, v) then Some v else None)"
proof -
  have f: "map_of (filter P xs) k = (case map_of xs k of None \<Rightarrow> None | Some v \<Rightarrow> if P (k, v) then Some v else None)"
    if "distinct (map fst xs)" for xs
    using that by (induction xs) (auto simp: map_of_eq_None_iff split: option.splits)
  show ?thesis
    unfolding bm_get_def bm_retain.rep_eq by (rule f [OF key_sorted_distinct [OF key_sorted_entries]])
qed

lemma bm_insert_commute:
  "k \<noteq> k' \<Longrightarrow> bm_insert k v (bm_insert k' v' m) = bm_insert k' v' (bm_insert k v m)"
  by (simp add: bm_eq_iff fun_upd_twist)

lemma bm_insert_same: "bm_insert k v (bm_insert k v' m) = bm_insert k v m"
  by (simp add: bm_eq_iff)

lemma bm_remove_absent: "bm_get m k = None \<Longrightarrow> bm_remove k m = m"
  by (simp add: bm_eq_iff fun_upd_idem)

section \<open>Sets\<close>

text \<open>\<open>BTreeSet<K>\<close> is \<open>BTreeMap<K, ()>\<close>, as in the standard library.\<close>

type_synonym 'k btree_set = "('k, unit) btree_map"

definition bs_empty :: "'k::linorder btree_set" where
  "bs_empty = bm_empty"

definition bs_insert :: "'k::linorder \<Rightarrow> 'k btree_set \<Rightarrow> 'k btree_set" where
  "bs_insert k s = bm_insert k () s"

definition bs_remove :: "'k::linorder \<Rightarrow> 'k btree_set \<Rightarrow> 'k btree_set" where
  "bs_remove k s = bm_remove k s"

definition bs_member :: "'k::linorder btree_set \<Rightarrow> 'k \<Rightarrow> bool" where
  "bs_member s k = bm_contains s k"

definition bs_list :: "'k::linorder btree_set \<Rightarrow> 'k list" where
  "bs_list s = bm_keys s"

definition bs_set :: "'k::linorder btree_set \<Rightarrow> 'k set" where
  "bs_set s = {k. bs_member s k}"

definition bs_extend :: "'k list \<Rightarrow> 'k::linorder btree_set \<Rightarrow> 'k btree_set" where
  "bs_extend ks s = fold bs_insert ks s"

lemma bs_member_simps [simp]:
  "bs_member bs_empty k = False"
  "bs_member (bs_insert a s) k = (k = a \<or> bs_member s k)"
  "bs_member (bs_remove a s) k = (k \<noteq> a \<and> bs_member s k)"
  by (auto simp: bs_member_def bs_empty_def bs_insert_def bs_remove_def bm_contains_def)

lemma bs_eqI: "(\<And>k. bs_member a k = bs_member b k) \<Longrightarrow> a = b"
proof (rule bm_eqI)
  fix k
  assume "\<And>k. bs_member a k = bs_member b k"
  from this [of k] have "(bm_get a k = None) = (bm_get b k = None)"
    unfolding bs_member_def bm_contains_def by blast
  then show "bm_get a k = bm_get b k"
    by (cases "bm_get a k"; cases "bm_get b k") auto
qed

lemma bs_member_extend [simp]: "bs_member (bs_extend ks s) k = (k \<in> set ks \<or> bs_member s k)"
  by (induction ks arbitrary: s) (auto simp: bs_extend_def)

lemma set_bs_list [simp]: "set (bs_list s) = bs_set s"
  by (auto simp: bs_list_def bs_set_def bs_member_def bm_contains_def set_bm_keys)

lemma in_bs_list: "k \<in> set (bs_list s) \<longleftrightarrow> bs_member s k"
  by (simp add: bs_set_def)

lemma distinct_bs_list [simp]: "distinct (bs_list s)"
  by (simp add: bs_list_def)

lemma bs_set_simps [simp]:
  "bs_set bs_empty = {}"
  "bs_set (bs_insert a s) = insert a (bs_set s)"
  "bs_set (bs_remove a s) = bs_set s - {a}"
  "bs_set (bs_extend ks s) = set ks \<union> bs_set s"
  by (auto simp: bs_set_def)

lemma bs_member_retain [simp]: "bs_member (bm_retain P s) k = (bs_member s k \<and> P (k, ()))"
  by (simp add: bs_member_def bm_contains_def split: option.split)

lemma sorted_bs_list: "sorted_wrt (<) (bs_list s)"
  by (simp add: bs_list_def bm_keys_def)

text \<open>The first element of the iteration is the least one.\<close>

lemma bs_list_Cons: "bs_list s = i # is \<Longrightarrow> bs_member s i \<and> (\<forall>j. bs_member s j \<longrightarrow> i \<le> j)"
proof -
  assume l: "bs_list s = i # is"
  have "j \<in> set (i # is)" if "bs_member s j" for j
    using that unfolding l [symmetric] in_bs_list .
  moreover have "\<forall>j \<in> set is. i < j" using sorted_bs_list [of s] l by simp
  moreover have "bs_member s i" unfolding in_bs_list [symmetric] l by simp
  ultimately show ?thesis by fastforce
qed

lemma bs_list_Nil: "bs_list s = [] \<Longrightarrow> \<not> bs_member s j"
  unfolding in_bs_list [symmetric] by simp

section \<open>The interface clients use\<close>

locale ordered_map =
  fixes empty :: "'m"
    and ins :: "'k::linorder \<Rightarrow> 'v \<Rightarrow> 'm \<Rightarrow> 'm"
    and del :: "'k \<Rightarrow> 'm \<Rightarrow> 'm"
    and get :: "'m \<Rightarrow> 'k \<Rightarrow> 'v option"
    and iter :: "'m \<Rightarrow> ('k \<times> 'v) list"
  assumes get_empty: "get empty k = None"
    and get_ins: "get (ins k v m) k' = (if k' = k then Some v else get m k')"
    and get_del: "get (del k m) k' = (if k' = k then None else get m k')"
    and iter_get: "(k, v) \<in> set (iter m) \<longleftrightarrow> get m k = Some v"
    and iter_sorted: "sorted_wrt (<) (map fst (iter m))"
    and extensional: "(\<And>k. get m k = get m' k) \<Longrightarrow> m = m'"
begin

lemma ins_absorb: "get m k = Some v \<Longrightarrow> ins k v m = m"
  by (rule extensional) (simp add: get_ins)

lemma ins_ins_swap: "k \<noteq> k' \<Longrightarrow> ins k v (ins k' v' m) = ins k' v' (ins k v m)"
  by (rule extensional) (auto simp: get_ins)

lemma iter_no_dup: "distinct (map fst (iter m))"
  using iter_sorted by (rule key_sorted_distinct)

lemma iter_empty_iff: "iter m = [] \<longleftrightarrow> (\<forall>k. get m k = None)"
proof
  assume "iter m = []"
  show "\<forall>k. get m k = None"
  proof
    fix k
    show "get m k = None"
      using iter_get [of k "the (get m k)" m] \<open>iter m = []\<close> by (cases "get m k") auto
  qed
next
  assume none: "\<forall>k. get m k = None"
  have "(k, v) \<notin> set (iter m)" for k v
    using none by (simp add: iter_get)
  then show "iter m = []"
    by (metis list.set_intros(1) neq_Nil_conv surj_pair)
qed

end

interpretation btm: ordered_map bm_empty bm_insert bm_remove bm_get entries
  by unfold_locales (auto simp: entries_iff bm_eq_iff)

interpretation bts: ordered_map bs_empty "\<lambda>k (_::unit). bs_insert k" bs_remove bm_get entries
  by unfold_locales (auto simp: entries_iff bm_eq_iff bs_empty_def bs_insert_def bs_remove_def)

end
