(* ===== verification/Semver.thy ===== *)
theory Semver
  imports Prelude "HOL-Library.Product_Lexorder"
begin

text \<open>
  \<open>crates/er-semver/src/lib.rs\<close>: parsing versions and ranges, their precedence, and the
  node-semver \<open>satisfies\<close> check the connect gate runs. A panic of the source (the
  \<open>unwrap\<close> on an over-long numeric pre-release id) is the value \<open>None\<close>; a
  \<open>ParseError\<close> is an \<open>Inl\<close>.
\<close>

section \<open>Versions\<close>

record semver =
  major :: nat
  minor :: nat
  patch :: nat
  fixpack :: nat
  prerelease :: "string list"

type_synonym parse_error = string

definition has_pre :: "semver \<Rightarrow> bool" where
  "has_pre v \<longleftrightarrow> prerelease v \<noteq> []"

definition same_core :: "semver \<Rightarrow> semver \<Rightarrow> bool" where
  "same_core v w \<longleftrightarrow> major v = major w \<and> minor v = minor w \<and> patch v = patch w"

definition release_form :: "semver \<Rightarrow> string" where
  "release_form v =
     (if fixpack v = 0
      then show_nat (major v) @ ''.'' @ show_nat (minor v) @ ''.'' @ show_nat (patch v)
      else show_nat (major v) @ ''.'' @ show_nat (minor v) @ ''.'' @ show_nat (patch v)
             @ ''.'' @ show_nat (fixpack v))"

definition cargo_form :: "semver \<Rightarrow> string" where
  "cargo_form v =
     (if fixpack v = 0
      then show_nat (major v) @ ''.'' @ show_nat (minor v) @ ''.'' @ show_nat (patch v)
      else show_nat (major v) @ ''.'' @ show_nat (minor v) @ ''.'' @ show_nat (patch v)
             @ ''+f'' @ show_nat (fixpack v))"

definition split_dots :: "string \<Rightarrow> string list" where
  "split_dots s = split_char CHR ''.'' s"

definition is_numeric_id :: "string \<Rightarrow> bool" where
  "is_numeric_id s \<longleftrightarrow> s \<noteq> [] \<and> list_all is_ascii_digit s"

section \<open>Parsing\<close>

definition parse_num :: "string \<Rightarrow> string \<Rightarrow> parse_error + nat" where
  "parse_num input p =
     (case parse_u64 p of None \<Rightarrow> Inl (''bad semver core: '' @ input) | Some n \<Rightarrow> Inr n)"

definition meta_fixpack :: "string option \<Rightarrow> nat option" where
  "meta_fixpack meta =
     (case Option.bind meta (strip_prefix ''f'') of
        None \<Rightarrow> None
      | Some n \<Rightarrow> if is_numeric_id n
                  then Some (case parse_u64 n of None \<Rightarrow> 0 | Some k \<Rightarrow> k) else None)"

definition build_semver ::
  "string \<Rightarrow> string list \<Rightarrow> nat option \<Rightarrow> string option \<Rightarrow> parse_error + semver" where
  "build_semver input parts fix pre =
     (case parse_num input (parts ! 0) of Inl e \<Rightarrow> Inl e | Inr ma \<Rightarrow>
      (case parse_num input (parts ! 1) of Inl e \<Rightarrow> Inl e | Inr mi \<Rightarrow>
       (case parse_num input (parts ! 2) of Inl e \<Rightarrow> Inl e | Inr pa \<Rightarrow>
        Inr \<lparr>major = ma, minor = mi, patch = pa,
             fixpack = (case fix of None \<Rightarrow> 0 | Some f \<Rightarrow> f),
             prerelease = (case pre of None \<Rightarrow> [] | Some p \<Rightarrow> split_dots p)\<rparr>)))"

definition parse_semver :: "string \<Rightarrow> parse_error + semver" where
  "parse_semver input =
     (let (s, meta) = (case split_once CHR ''+'' input of
                         Some (s, m) \<Rightarrow> (s, Some m) | None \<Rightarrow> (input, None));
          mfix = meta_fixpack meta;
          (core, pre) = (case split_once CHR ''-'' s of
                           Some (c, p) \<Rightarrow> (c, Some p) | None \<Rightarrow> (s, None));
          parts = split_char CHR ''.'' core
      in if length parts \<noteq> 3 \<and> length parts \<noteq> 4
         then Inl (''bad semver core: '' @ input)
         else (case (if length parts = 4 then map_sum id Some (parse_num input (parts ! 3))
                     else Inr None) of
                 Inl e \<Rightarrow> Inl e
               | Inr dotted \<Rightarrow>
                   (case (dotted, mfix) of
                      (Some a, Some b) \<Rightarrow>
                        if a \<noteq> b
                        then Inl (''fixpack spelled twice and differently: '' @ input)
                        else build_semver input parts (Some a) pre
                    | (Some a, None) \<Rightarrow> build_semver input parts (Some a) pre
                    | (None, _) \<Rightarrow> build_semver input parts mfix pre)))"

definition release_form_of :: "string \<Rightarrow> parse_error + string" where
  "release_form_of version =
     (case parse_semver version of Inl e \<Rightarrow> Inl e | Inr v \<Rightarrow> Inr (release_form v))"

section \<open>Precedence\<close>

text \<open>
  The loop over the common prefix of the identifier lists, then the comparison of the lengths:
  when one list is used up, what remains of the other decides. \<open>None\<close> is the panic of
  \<open>x.parse().unwrap()\<close> on a numeric id outside \<open>u64\<close>.
\<close>

fun compare_ids :: "string list \<Rightarrow> string list \<Rightarrow> ordering option" where
  "compare_ids [] [] = Some Equal"
| "compare_ids [] (y # ys) = Some Less"
| "compare_ids (x # xs) [] = Some Greater"
| "compare_ids (x # xs) (y # ys) =
     (let xn = is_numeric_id x; yn = is_numeric_id y
      in if xn \<and> yn
         then (case parse_u64 x of None \<Rightarrow> None | Some xv \<Rightarrow>
               (case parse_u64 y of None \<Rightarrow> None | Some yv \<Rightarrow>
                if xv \<noteq> yv then Some (cmp xv yv) else compare_ids xs ys))
         else if xn \<noteq> yn then Some (if xn then Less else Greater)
         else if x \<noteq> y then Some (cmp x y)
         else compare_ids xs ys)"

definition compare_pre :: "string list \<Rightarrow> string list \<Rightarrow> ordering option" where
  "compare_pre a b =
     (if a = [] \<and> b = [] then Some Equal
      else if a = [] then Some Greater
      else if b = [] then Some Less
      else compare_ids a b)"

definition compare_semver :: "semver \<Rightarrow> semver \<Rightarrow> ordering option" where
  "compare_semver a b =
     (let core = then_with (cmp (major a) (major b))
                  (then_with (cmp (minor a) (minor b))
                    (then_with (cmp (patch a) (patch b)) (cmp (fixpack a) (fixpack b))))
      in if core = Equal then compare_pre (prerelease a) (prerelease b) else Some core)"

section \<open>Ranges\<close>

datatype op = Gte | Gt | Lte | Lt | Eq

record comparator =
  cop :: op
  ver :: semver

definition split_op :: "string \<Rightarrow> op \<times> string" where
  "split_op tok =
     (case strip_prefix ''>='' tok of Some r \<Rightarrow> (Gte, r) | None \<Rightarrow>
      (case strip_prefix ''<='' tok of Some r \<Rightarrow> (Lte, r) | None \<Rightarrow>
       (case strip_prefix ''>'' tok of Some r \<Rightarrow> (Gt, r) | None \<Rightarrow>
        (case strip_prefix ''<'' tok of Some r \<Rightarrow> (Lt, r) | None \<Rightarrow>
         (case strip_prefix ''='' tok of Some r \<Rightarrow> (Eq, r) | None \<Rightarrow> (Eq, tok))))))"

fun parse_comparators :: "string list \<Rightarrow> parse_error + comparator list" where
  "parse_comparators [] = Inr []"
| "parse_comparators (tok # toks) =
     (let (o', v) = split_op tok
      in case parse_semver v of
           Inl e \<Rightarrow> Inl e
         | Inr sv \<Rightarrow> map_sum id (\<lambda>cs. \<lparr>cop = o', ver = sv\<rparr> # cs) (parse_comparators toks))"

definition parse_range :: "string \<Rightarrow> parse_error + comparator list" where
  "parse_range r = parse_comparators (split_whitespace r)"

primrec apply_op :: "ordering \<Rightarrow> op \<Rightarrow> bool" where
  "apply_op c Gte = (c \<noteq> Less)"
| "apply_op c Gt = (c = Greater)"
| "apply_op c Lte = (c \<noteq> Greater)"
| "apply_op c Lt = (c = Less)"
| "apply_op c Eq = (c = Equal)"

fun check_comparators :: "semver \<Rightarrow> comparator list \<Rightarrow> bool option" where
  "check_comparators v [] = Some True"
| "check_comparators v (c # cs) =
     (case compare_semver v (ver c) of
        None \<Rightarrow> None
      | Some r \<Rightarrow> if apply_op r (cop c) then check_comparators v cs else Some False)"

definition pre_allowed :: "semver \<Rightarrow> comparator list \<Rightarrow> bool" where
  "pre_allowed v cs \<longleftrightarrow> list_ex (\<lambda>c. has_pre (ver c) \<and> same_core (ver c) v) cs"

definition version_satisfies :: "string \<Rightarrow> string \<Rightarrow> (parse_error + bool) option" where
  "version_satisfies version_str range_str =
     (case parse_semver version_str of
        Inl e \<Rightarrow> Some (Inl e)
      | Inr v \<Rightarrow>
          (case parse_range range_str of
             Inl e \<Rightarrow> Some (Inl e)
           | Inr comps \<Rightarrow>
               (case check_comparators v comps of
                  None \<Rightarrow> None
                | Some False \<Rightarrow> Some (Inr False)
                | Some True \<Rightarrow> Some (Inr (has_pre v \<longrightarrow> pre_allowed v comps)))))"

section \<open>Precedence is a linear order\<close>

text \<open>
  The abstract order: a version is a tuple of numbers followed by its pre-release, where a release
  sorts above every pre-release and an identifier is a number (below every word) or a word.
\<close>

definition id_key :: "string \<Rightarrow> nat \<times> nat \<times> string" where
  "id_key s = (if is_numeric_id s then (0, digits_value s, []) else (1, 0, s))"

definition sem_key ::
  "semver \<Rightarrow> nat \<times> nat \<times> nat \<times> nat \<times> nat \<times> (nat \<times> nat \<times> string) list" where
  "sem_key v = (major v, minor v, patch v, fixpack v,
                (if prerelease v = [] then 1 else 0), map id_key (prerelease v))"

text \<open>Every numeric identifier fits \<open>u64\<close>.\<close>

definition ids_fit :: "semver \<Rightarrow> bool" where
  "ids_fit v \<longleftrightarrow> list_all (\<lambda>s. is_numeric_id s \<longrightarrow> digits_value s < 2 ^ 64) (prerelease v)"

lemma numeric_id_parse:
  assumes "is_numeric_id s" "digits_value s < 2 ^ 64"
  shows "parse_u64 s = Some (digits_value s)"
proof -
  obtain c r where s: "s = c # r" and "is_ascii_digit c"
    using assms(1) by (cases s) (auto simp: is_numeric_id_def)
  then have "c \<noteq> CHR ''+''"
    by (auto dest: digit_not_special)
  with s assms show ?thesis
    by (simp add: parse_unsigned_def is_numeric_id_def Let_def)
qed

lemma id_key_numeric: "is_numeric_id s \<Longrightarrow> id_key s = (0, digits_value s, [])"
  by (simp add: id_key_def)

lemma id_key_word: "\<not> is_numeric_id s \<Longrightarrow> id_key s = (1, 0, s)"
  by (simp add: id_key_def)

lemma cmp_pair: "cmp (a, b) (c, d) = then_with (cmp a c) (cmp b d)"
  by (auto simp: cmp_def less_prod_def' then_with_def)

lemma cmp_Cons: "cmp (x # xs) (y # ys) = then_with (cmp x y) (cmp xs ys)"
  by (auto simp: cmp_def then_with_def)

lemma cmp_Nil [simp]: "cmp [] (y # ys) = Less" "cmp (x # xs) [] = Greater"
  by (simp_all add: cmp_def)

lemma compare_ids_key:
  assumes "list_all (\<lambda>s. is_numeric_id s \<longrightarrow> digits_value s < 2 ^ 64) a"
    and "list_all (\<lambda>s. is_numeric_id s \<longrightarrow> digits_value s < 2 ^ 64) b"
  shows "compare_ids a b = Some (cmp (map id_key a) (map id_key b))"
  using assms
proof (induction a arbitrary: b)
  case Nil
  then show ?case by (cases b) simp_all
next
  case (Cons x xs)
  show ?case
  proof (cases b)
    case Nil
    then show ?thesis by simp
  next
    case b: (Cons y ys)
    have IH: "compare_ids xs ys = Some (cmp (map id_key xs) (map id_key ys))"
      using Cons.IH [of ys] Cons.prems b by simp
    consider "is_numeric_id x" "is_numeric_id y" | "is_numeric_id x" "\<not> is_numeric_id y"
      | "\<not> is_numeric_id x" "is_numeric_id y" | "\<not> is_numeric_id x" "\<not> is_numeric_id y"
      by blast
    then show ?thesis
    proof cases
      case 1
      with Cons.prems b have "parse_u64 x = Some (digits_value x)" "parse_u64 y = Some (digits_value y)"
        by (auto simp: numeric_id_parse)
      with 1 b IH show ?thesis
        by (simp add: id_key_numeric cmp_Cons cmp_pair then_with_def split: ordering.split)
    next
      case 2
      with b show ?thesis by (simp add: id_key_numeric id_key_word cmp_Cons cmp_pair cmp_lt)
    next
      case 3
      with b show ?thesis by (simp add: id_key_numeric id_key_word cmp_Cons cmp_pair cmp_gt)
    next
      case 4
      with b IH show ?thesis
        by (simp add: id_key_word cmp_Cons cmp_pair then_with_def split: ordering.split)
    qed
  qed
qed

lemma compare_pre_key:
  assumes "list_all (\<lambda>s. is_numeric_id s \<longrightarrow> digits_value s < 2 ^ 64) a"
    and "list_all (\<lambda>s. is_numeric_id s \<longrightarrow> digits_value s < 2 ^ 64) b"
  shows "compare_pre a b =
           Some (cmp ((if a = [] then 1 else 0 :: nat), map id_key a)
                     ((if b = [] then 1 else 0), map id_key b))"
  using compare_ids_key [OF assms] by (auto simp: compare_pre_def cmp_pair cmp_lt cmp_gt)

text \<open>
  \<open>compare_semver\<close> is the linear order of the version tuples: on versions whose numeric
  pre-release identifiers fit \<open>u64\<close> it never panics and returns the comparison of the keys
  (core, then fixpack, then release above pre-release, then identifiers numerically or as words).
  Totality, antisymmetry and transitivity of the precedence follow from the order of the keys.
\<close>

theorem compare_semver_refines_key_order:
  assumes "ids_fit a" and "ids_fit b"
  shows "compare_semver a b = Some (cmp (sem_key a) (sem_key b))"
  using compare_pre_key [of "prerelease a" "prerelease b"] assms
  by (auto simp: compare_semver_def sem_key_def cmp_pair then_with_def ids_fit_def Let_def
           split: ordering.splits)

theorem compare_semver_refines_key_order_witness:
  "compare_semver \<lparr>major = 0, minor = 6, patch = 0, fixpack = 1, prerelease = [''beta'', ''2'']\<rparr>
                  \<lparr>major = 0, minor = 6, patch = 0, fixpack = 1, prerelease = [''beta'', ''10'']\<rparr>
     = Some Less"
proof -
  let ?a = "\<lparr>major = 0, minor = 6, patch = 0, fixpack = 1, prerelease = [''beta'', ''2'']\<rparr>"
  let ?b = "\<lparr>major = 0, minor = 6, patch = 0, fixpack = 1, prerelease = [''beta'', ''10'']\<rparr>"
  have "ids_fit ?a" "ids_fit ?b" by code_simp+
  from compare_semver_refines_key_order [OF this]
  have "compare_semver ?a ?b = Some (cmp (sem_key ?a) (sem_key ?b))" .
  moreover have "cmp (sem_key ?a) (sem_key ?b) = Less" by code_simp
  ultimately show ?thesis by simp
qed

section \<open>Spelling a version and reading it back\<close>

lemma parse_num_show: "n < 2 ^ 64 \<Longrightarrow> parse_num input (show_nat n) = Inr n"
  by (simp add: parse_num_def parse_unsigned_show)

lemma release_no_plus:
  "CHR ''+'' \<notin> set (release_form v)" "CHR ''-'' \<notin> set (release_form v)"
  using show_nat_no_special by (auto simp: release_form_def)

lemma dots3: "split_char CHR ''.'' (show_nat a @ CHR ''.'' # show_nat b @ CHR ''.'' # show_nat c)
    = [show_nat a, show_nat b, show_nat c]"
  using show_nat_no_special(3) by (simp add: split_char_append split_char_no_sep)

lemma dots4: "split_char CHR ''.''
      (show_nat a @ CHR ''.'' # show_nat b @ CHR ''.'' # show_nat c @ CHR ''.'' # show_nat d)
    = [show_nat a, show_nat b, show_nat c, show_nat d]"
  using show_nat_no_special(3) by (simp add: split_char_append split_char_no_sep)

definition release_fits :: "semver \<Rightarrow> bool" where
  "release_fits v \<longleftrightarrow> major v < 2 ^ 64 \<and> minor v < 2 ^ 64 \<and> patch v < 2 ^ 64 \<and>
     fixpack v < 2 ^ 64 \<and> prerelease v = []"

lemma parse_release_form:
  assumes "release_fits v"
  shows "parse_semver (release_form v) = Inr v"
proof (cases "fixpack v = 0")
  case True
  with assms show ?thesis
    unfolding parse_semver_def
    by (simp add: split_once_no_sep release_no_plus)
       (simp add: release_form_def dots3 build_semver_def parse_num_show release_fits_def
                  meta_fixpack_def)
next
  case False
  with assms show ?thesis
    unfolding parse_semver_def
    by (simp add: split_once_no_sep release_no_plus)
       (simp add: release_form_def dots4 build_semver_def parse_num_show release_fits_def
                  meta_fixpack_def)
qed

lemma parse_cargo_form:
  assumes "release_fits v"
  shows "parse_semver (cargo_form v) = Inr v"
proof (cases "fixpack v = 0")
  case True
  then have "cargo_form v = release_form v"
    by (simp add: cargo_form_def release_form_def)
  with parse_release_form [OF assms] show ?thesis by simp
next
  case False
  let ?core = "show_nat (major v) @ CHR ''.'' # show_nat (minor v) @ CHR ''.'' # show_nat (patch v)"
  have core: "CHR ''+'' \<notin> set ?core" "CHR ''-'' \<notin> set ?core"
    using show_nat_no_special by auto
  have form: "cargo_form v = ?core @ CHR ''+'' # CHR ''f'' # show_nat (fixpack v)"
    using False by (simp add: cargo_form_def)
  have split: "split_once CHR ''+'' (cargo_form v) = Some (?core, CHR ''f'' # show_nat (fixpack v))"
    unfolding form by (rule split_once_append [OF core(1)])
  have "is_numeric_id (show_nat (fixpack v))"
    by (simp add: is_numeric_id_def show_nat_digits)
  then have "meta_fixpack (Some (CHR ''f'' # show_nat (fixpack v))) = Some (fixpack v)"
    using assms by (simp add: meta_fixpack_def parse_unsigned_show release_fits_def)
  then show ?thesis
    unfolding parse_semver_def split using assms
    by (simp add: split_once_no_sep [OF core(2)] dots3 build_semver_def parse_num_show
                  release_fits_def)
qed

text \<open>
  both spellings of a release (the apworld's \<open>0.6.0.1\<close> and Cargo's \<open>0.6.0+f1\<close>) parse
  back to the version they spell, and \<open>release_form\<close> applied to the Cargo spelling gives the
  apworld's.
\<close>

theorem version_spellings_round_trip:
  assumes "release_fits v"
  shows "parse_semver (release_form v) = Inr v \<and> parse_semver (cargo_form v) = Inr v \<and>
         release_form_of (cargo_form v) = Inr (release_form v)"
  using parse_release_form [OF assms] parse_cargo_form [OF assms]
  by (simp add: release_form_of_def)

theorem version_spellings_round_trip_witness:
  "parse_semver ''0.6.0+f1'' = Inr \<lparr>major = 0, minor = 6, patch = 0, fixpack = 1, prerelease = []\<rparr>"
proof -
  let ?v = "\<lparr>major = 0, minor = 6, patch = 0, fixpack = 1, prerelease = []\<rparr>"
  have "release_fits ?v" by code_simp
  from version_spellings_round_trip [OF this] have "parse_semver (cargo_form ?v) = Inr ?v" by blast
  moreover have "cargo_form ?v = ''0.6.0+f1''" by code_simp
  ultimately show ?thesis by simp
qed

section \<open>The satisfies check\<close>

lemma check_comparators_key:
  assumes "ids_fit v" and "list_all (\<lambda>c. ids_fit (ver c)) cs"
  shows "check_comparators v cs =
    Some (\<forall>c \<in> set cs. apply_op (cmp (sem_key v) (sem_key (ver c))) (cop c))"
proof -
  have cmp: "compare_semver v (ver c) = Some (cmp (sem_key v) (sem_key (ver c)))"
    if "c \<in> set cs" for c
    using assms that compare_pre_key [of "prerelease v" "prerelease (ver c)"]
    by (auto simp: list_all_iff compare_semver_def sem_key_def cmp_pair then_with_def
                   ids_fit_def Let_def split: ordering.splits)
  then show ?thesis by (induction cs) auto
qed

text \<open>
  C39: acceptance is node-semver's rule with \<open>includePrerelease = false\<close>. With parsable
  inputs whose numeric ids fit \<open>u64\<close>, \<open>version_satisfies\<close> returns (never panics), and it
  returns true exactly when every comparator holds in the key order and, for a pre-release version,
  some comparator has the same core and is a pre-release itself.
\<close>

theorem version_satisfies_iff:
  assumes "parse_semver vs = Inr v" and "parse_range rs = Inr cs"
    and "ids_fit v" and "list_all (\<lambda>c. ids_fit (ver c)) cs"
  shows "version_satisfies vs rs =
    Some (Inr ((\<forall>c \<in> set cs. apply_op (cmp (sem_key v) (sem_key (ver c))) (cop c)) \<and>
               (prerelease v \<noteq> [] \<longrightarrow>
                 (\<exists>c \<in> set cs. prerelease (ver c) \<noteq> [] \<and> same_core (ver c) v))))"
  using assms check_comparators_key [OF assms(3,4)]
  by (auto simp: version_satisfies_def has_pre_def pre_allowed_def list_ex_iff split: bool.splits)

theorem version_satisfies_iff_witness:
  "version_satisfies ''0.1.0-beta.1'' ''>=0.1.0-alpha <0.2.0'' = Some (Inr True) \<and>
   version_satisfies ''0.2.0-beta.1'' ''>=0.1.0 <0.3.0'' = Some (Inr False)"
proof -
  have p1: "parse_semver ''0.1.0-beta.1'' =
      Inr \<lparr>major = 0, minor = 1, patch = 0, fixpack = 0, prerelease = [''beta'', ''1'']\<rparr>"
    (is "_ = Inr ?v1") by code_simp
  have r1: "parse_range ''>=0.1.0-alpha <0.2.0'' =
      Inr [\<lparr>cop = Gte, ver = \<lparr>major = 0, minor = 1, patch = 0, fixpack = 0, prerelease = [''alpha'']\<rparr>\<rparr>,
           \<lparr>cop = Lt, ver = \<lparr>major = 0, minor = 2, patch = 0, fixpack = 0, prerelease = []\<rparr>\<rparr>]"
    (is "_ = Inr ?c1") by code_simp
  have p2: "parse_semver ''0.2.0-beta.1'' =
      Inr \<lparr>major = 0, minor = 2, patch = 0, fixpack = 0, prerelease = [''beta'', ''1'']\<rparr>"
    (is "_ = Inr ?v2") by code_simp
  have r2: "parse_range ''>=0.1.0 <0.3.0'' =
      Inr [\<lparr>cop = Gte, ver = \<lparr>major = 0, minor = 1, patch = 0, fixpack = 0, prerelease = []\<rparr>\<rparr>,
           \<lparr>cop = Lt, ver = \<lparr>major = 0, minor = 3, patch = 0, fixpack = 0, prerelease = []\<rparr>\<rparr>]"
    (is "_ = Inr ?c2") by code_simp
  have f: "ids_fit ?v1" "list_all (\<lambda>c. ids_fit (ver c)) ?c1"
    "ids_fit ?v2" "list_all (\<lambda>c. ids_fit (ver c)) ?c2" by code_simp+
  have g1: "\<forall>c \<in> set ?c1. apply_op (cmp (sem_key ?v1) (sem_key (ver c))) (cop c)" by code_simp
  show ?thesis
    using version_satisfies_iff [OF p1 r1 f(1,2)] version_satisfies_iff [OF p2 r2 f(3,4)] g1
    by (simp add: same_core_def)
qed

text \<open>
  the connect gate can panic. A numeric pre-release identifier past \<open>u64\<close> parses (the
  parser keeps it as a string) and then \<open>compare_pre\<close> unwraps a failed parse, so
  \<open>version_satisfies\<close> does not return although its contract is an \<open>Err\<close>.
\<close>

theorem version_satisfies_panics_on_long_id:
  "version_satisfies ''1.0.0-18446744073709551616'' ''>=1.0.0-1'' = None"
  by code_simp

end
