(* ===== verification/Codec.thy ===== *)
theory Codec
  imports Prelude
begin

unbundle bit_operations_syntax

text \<open>
  \<open>crates/er-codec/src/lib.rs\<close>: the decode contract of the synthetic placeholder goods. An
  \<open>i32\<close> and a \<open>u32\<close> are both a 32-bit word (the casts between them keep the bits);
  a signed comparison reads the word with \<open>sint\<close>. A parameter row is a list of bytes.
\<close>

type_synonym u8 = "8 word"
type_synonym w32 = "32 word"
type_synonym w64 = "64 word"

section \<open>Item ids\<close>

definition CATEGORY_WEAPON :: w32 where "CATEGORY_WEAPON = 0x00000000"
definition CATEGORY_PROTECTOR :: w32 where "CATEGORY_PROTECTOR = 0x10000000"
definition CATEGORY_ACCESSORY :: w32 where "CATEGORY_ACCESSORY = 0x20000000"
definition CATEGORY_GOODS :: w32 where "CATEGORY_GOODS = 0x40000000"
definition CATEGORY_GEM :: w32 where "CATEGORY_GEM = 0x80000000"
definition CATEGORY_MASK :: w32 where "CATEGORY_MASK = 0xF0000000"
definition ROW_ID_MASK :: w32 where "ROW_ID_MASK = 0x0FFFFFFF"
definition SYNTHETIC_GOODS_MIN_ID :: w32 where "SYNTHETIC_GOODS_MIN_ID = 3780000"

lemmas category_consts = CATEGORY_WEAPON_def CATEGORY_PROTECTOR_def CATEGORY_ACCESSORY_def
  CATEGORY_GOODS_def CATEGORY_GEM_def CATEGORY_MASK_def ROW_ID_MASK_def

definition item_category_of :: "w32 \<Rightarrow> w32" where
  "item_category_of q = q AND CATEGORY_MASK"

definition row_id_of :: "w32 \<Rightarrow> w32" where
  "row_id_of q = q AND ROW_ID_MASK"

definition is_synthetic_goods :: "w32 \<Rightarrow> bool" where
  "is_synthetic_goods q \<longleftrightarrow>
     item_category_of q = CATEGORY_GOODS \<and> row_id_of q > SYNTHETIC_GOODS_MIN_ID"

definition full_id_from_equip_type :: "u8 \<Rightarrow> w32 \<Rightarrow> w32 option" where
  "full_id_from_equip_type equip_type equip_id =
     (if sint equip_id \<le> 0 then None
      else map_option (\<lambda>cat. cat OR equip_id)
             (if equip_type = 0 then Some CATEGORY_WEAPON
              else if equip_type = 1 then Some CATEGORY_PROTECTOR
              else if equip_type = 2 then Some CATEGORY_ACCESSORY
              else if equip_type = 3 then Some CATEGORY_GOODS
              else None))"

section \<open>Decoding a synthetic row\<close>

definition recombine_location_id :: "w32 \<Rightarrow> w32 \<Rightarrow> w64" where
  "recombine_location_id vagrant_low vagrant_high =
     ucast vagrant_low OR push_bit 32 (ucast vagrant_high)"

record goods_row_fields =
  vagrant_item_lot_id :: w32
  vagrant_bonus_ene_drop_item_lot_id :: w32
  basic_price :: w32
  sell_value :: w32
  disable_use_at_out_of_coliseum :: bool

record synthetic_item =
  ap_location_id :: w64
  local_item_id :: w32
  local_quantity :: w32
  foreign_remove :: bool

definition decode_synthetic :: "goods_row_fields \<Rightarrow> synthetic_item" where
  "decode_synthetic f =
     \<lparr>ap_location_id = recombine_location_id (vagrant_item_lot_id f)
                         (vagrant_bonus_ene_drop_item_lot_id f),
      local_item_id = basic_price f,
      local_quantity = sell_value f,
      foreign_remove = disable_use_at_out_of_coliseum f\<rparr>"

datatype pickup_action = Suppress | SuppressAndGrant

definition decide_pickup :: "synthetic_item \<Rightarrow> pickup_action" where
  "decide_pickup s =
     (if \<not> foreign_remove s \<and> local_item_id s \<noteq> 0 then SuppressAndGrant else Suppress)"

definition EQG_OFF_BASIC_PRICE :: nat where "EQG_OFF_BASIC_PRICE = 0x10"
definition EQG_OFF_SELL_VALUE :: nat where "EQG_OFF_SELL_VALUE = 0x14"
definition EQG_OFF_DISABLE_USE :: nat where "EQG_OFF_DISABLE_USE = 0x4A"
definition EQG_BIT_DISABLE_USE :: u8 where "EQG_BIT_DISABLE_USE = 0x20"
definition EQG_OFF_VAGRANT_ITEM_LOT_ID :: nat where "EQG_OFF_VAGRANT_ITEM_LOT_ID = 0x54"
definition EQG_OFF_VAGRANT_BONUS :: nat where "EQG_OFF_VAGRANT_BONUS = 0x58"

lemmas eqg_consts = EQG_OFF_BASIC_PRICE_def EQG_OFF_SELL_VALUE_def EQG_OFF_DISABLE_USE_def
  EQG_BIT_DISABLE_USE_def EQG_OFF_VAGRANT_ITEM_LOT_ID_def EQG_OFF_VAGRANT_BONUS_def

text \<open>\<open>i32::from_le_bytes\<close> and its inverse.\<close>

definition from_le_bytes :: "u8 \<Rightarrow> u8 \<Rightarrow> u8 \<Rightarrow> u8 \<Rightarrow> w32" where
  "from_le_bytes b0 b1 b2 b3 =
     ucast b0 OR push_bit 8 (ucast b1) OR push_bit 16 (ucast b2) OR push_bit 24 (ucast b3)"

definition to_le_bytes :: "w32 \<Rightarrow> u8 list" where
  "to_le_bytes w = [ucast w, ucast (drop_bit 8 w), ucast (drop_bit 16 w), ucast (drop_bit 24 w)]"

definition read_i32 :: "u8 list \<Rightarrow> nat \<Rightarrow> w32 option" where
  "read_i32 row off =
     (if off + 4 \<le> length row
      then Some (from_le_bytes (row ! off) (row ! (off + 1)) (row ! (off + 2)) (row ! (off + 3)))
      else None)"

definition read_goods_row :: "u8 list \<Rightarrow> goods_row_fields option" where
  "read_goods_row row =
     Option.bind (read_i32 row EQG_OFF_VAGRANT_ITEM_LOT_ID) (\<lambda>v.
     Option.bind (read_i32 row EQG_OFF_VAGRANT_BONUS) (\<lambda>b.
     Option.bind (read_i32 row EQG_OFF_BASIC_PRICE) (\<lambda>p.
     Option.bind (read_i32 row EQG_OFF_SELL_VALUE) (\<lambda>q.
     if EQG_OFF_DISABLE_USE < length row
     then Some \<lparr>vagrant_item_lot_id = v, vagrant_bonus_ene_drop_item_lot_id = b,
                basic_price = p, sell_value = q,
                disable_use_at_out_of_coliseum =
                  (row ! EQG_OFF_DISABLE_USE) AND EQG_BIT_DISABLE_USE \<noteq> 0\<rparr>
     else None))))"

definition decode_synthetic_row :: "u8 list \<Rightarrow> synthetic_item option" where
  "decode_synthetic_row row = map_option decode_synthetic (read_goods_row row)"

section \<open>Correctness\<close>

lemma le_bytes_round_trip:
  "from_le_bytes (ucast w) (ucast (drop_bit 8 w)) (ucast (drop_bit 16 w)) (ucast (drop_bit 24 w)) = w"
proof (rule bit_word_eqI)
  fix n
  assume "n < LENGTH(32)"
  then consider "n < 8" | "8 \<le> n" "n < 16" | "16 \<le> n" "n < 24" | "24 \<le> n" "n < 32"
    by force
  then show "bit (from_le_bytes (ucast w) (ucast (drop_bit 8 w)) (ucast (drop_bit 16 w))
      (ucast (drop_bit 24 w))) n = bit w n"
    unfolding from_le_bytes_def by cases (auto simp: bit_simps)
qed

lemma nth_append_at: "i < length ys \<Longrightarrow> (xs @ ys @ zs) ! (length xs + i) = ys ! i"
  by (simp add: nth_append)

lemma nth_append_block:
  "(pre @ [a, b, c, d] @ post) ! length pre = a"
  "(pre @ [a, b, c, d] @ post) ! (length pre + 1) = b"
  "(pre @ [a, b, c, d] @ post) ! (length pre + 2) = c"
  "(pre @ [a, b, c, d] @ post) ! (length pre + 3) = d"
  by (simp_all add: nth_append)

lemma read_i32_written:
  "length pre = off \<Longrightarrow> read_i32 (pre @ to_le_bytes w @ post) off = Some w"
  unfolding read_i32_def to_le_bytes_def
  by (clarsimp simp only: nth_append_block le_bytes_round_trip) simp

lemma recombine_low: "ucast (recombine_location_id l h) = l"
  unfolding recombine_location_id_def by (rule bit_word_eqI) (auto simp: bit_simps)

lemma recombine_high: "ucast (drop_bit 32 (recombine_location_id l h)) = h"
  unfolding recombine_location_id_def
  by (rule bit_word_eqI) (auto simp: bit_simps dest: bit_imp_le_length)

text \<open>
  the location id keeps both carrier halves whatever their sign bits. The low 32 bits are
  the first field and the high 32 bits the second, so the recombination is injective; the
  sign-extending recombination it replaces loses the high half as soon as the low one is negative.
\<close>

theorem recombine_keeps_both_halves:
  "ucast (recombine_location_id l h) = l \<and>
   ucast (drop_bit 32 (recombine_location_id l h)) = h \<and>
   (recombine_location_id l h = recombine_location_id l' h' \<longleftrightarrow> l = l' \<and> h = h') \<and>
   recombine_location_id (- 1) 5 \<noteq> scast (- 1 :: w32) OR push_bit 32 (scast (5 :: w32))"
proof -
  have "recombine_location_id (- 1) 5 \<noteq> scast (- 1 :: w32) OR push_bit 32 (scast (5 :: w32))"
    by (rule notI, drule arg_cong [where f = "\<lambda>w. bit w 40"]) (simp add: recombine_location_id_def bit_simps)
  then show ?thesis
    using recombine_low recombine_high by metis
qed

lemma low_id_masks:
  fixes eid :: w32
  assumes "eid \<le> 0x0FFFFFFF"
  shows "eid AND 0x0FFFFFFF = eid" "eid AND 0xF0000000 = 0"
proof -
  have m: "(mask 28 :: w32) = 0x0FFFFFFF" by (simp add: mask_eq_exp_minus_1)
  have "unat eid < 2 ^ 28"
    using assms by (simp add: word_le_nat_alt)
  then have t: "take_bit 28 eid = eid"
    by (simp add: word_unat_eq_iff unsigned_take_bit_eq take_bit_nat_eq_self)
  then show "eid AND 0x0FFFFFFF = eid"
    by (simp add: take_bit_eq_mask m)
  have "eid AND 0xF0000000 = (eid AND mask 28) AND 0xF0000000"
    by (simp only: t [unfolded take_bit_eq_mask])
  also have "\<dots> = 0" by (simp add: m and.assoc)
  finally show "eid AND 0xF0000000 = 0" .
qed

lemma full_id_fields:
  fixes eid cat :: w32
  assumes "eid \<le> 0x0FFFFFFF" and "cat AND 0x0FFFFFFF = 0" and "cat AND 0xF0000000 = cat"
  shows "row_id_of (cat OR eid) = eid" "item_category_of (cat OR eid) = cat"
  using assms(2,3) low_id_masks [OF assms(1)]
  by (simp_all add: row_id_of_def item_category_of_def category_consts
                    bit.conj_disj_distrib2)

text \<open>
  \<open>full_id_from_equip_type\<close> is the inverse of the category and row readers. It fails
  closed exactly on a non-positive id or an unknown equip type; for a row id within the 28-bit row
  field its result has that row id and the category of the equip type.
\<close>

theorem full_id_inverse:
  "(full_id_from_equip_type t eid = None \<longleftrightarrow> sint eid \<le> 0 \<or> t > 3) \<and>
   (eid \<le> ROW_ID_MASK \<longrightarrow> full_id_from_equip_type t eid = Some f \<longrightarrow>
     row_id_of f = eid \<and>
     item_category_of f = (if t = 0 then CATEGORY_WEAPON else if t = 1 then CATEGORY_PROTECTOR
                           else if t = 2 then CATEGORY_ACCESSORY else CATEGORY_GOODS))"
proof -
  have t: "t > 3 \<longleftrightarrow> t \<noteq> 0 \<and> t \<noteq> 1 \<and> t \<noteq> 2 \<and> t \<noteq> 3"
    by unat_arith
  have none: "full_id_from_equip_type t eid = None \<longleftrightarrow> sint eid \<le> 0 \<or> t > 3"
    unfolding t by (auto simp: full_id_from_equip_type_def)
  have fields: "row_id_of f = eid \<and>
     item_category_of f = (if t = 0 then CATEGORY_WEAPON else if t = 1 then CATEGORY_PROTECTOR
                           else if t = 2 then CATEGORY_ACCESSORY else CATEGORY_GOODS)"
    if "eid \<le> ROW_ID_MASK" "full_id_from_equip_type t eid = Some f"
  proof -
    from that(1) have "eid \<le> 0x0FFFFFFF" by (simp add: ROW_ID_MASK_def)
    note ff = full_id_fields [OF this]
    have plain: "row_id_of eid = eid" "item_category_of eid = 0"
      using ff [of 0] by simp_all
    have zero: "CATEGORY_WEAPON OR eid = eid" by (simp add: CATEGORY_WEAPON_def)
    from that(2) show ?thesis
      unfolding full_id_from_equip_type_def
      using plain by (auto simp: zero category_consts ff split: if_splits)
  qed
  from none fields show ?thesis by blast
qed

theorem full_id_inverse_witness:
  "full_id_from_equip_type 3 8000 = Some 0x40001F40 \<and> row_id_of 0x40001F40 = 8000 \<and>
   item_category_of 0x40001F40 = CATEGORY_GOODS \<and> full_id_from_equip_type 4 8000 = None"
proof -
  have v: "full_id_from_equip_type 3 8000 = Some 0x40001F40"
    by (simp add: full_id_from_equip_type_def category_consts)
  have b: "(8000 :: w32) \<le> ROW_ID_MASK" by (simp add: ROW_ID_MASK_def)
  from full_id_inverse [of 3 8000 "0x40001F40"] v b
  have "row_id_of 0x40001F40 = 8000 \<and> item_category_of 0x40001F40 = CATEGORY_GOODS" by simp
  moreover from full_id_inverse [of 4 8000] have "full_id_from_equip_type 4 8000 = None" by simp
  ultimately show ?thesis using v by simp
qed

text \<open>
  decoding a raw row. The reader succeeds exactly on rows that reach the last carrier field
  (92 bytes), and a row whose fields were written little-endian at the paramdef offsets decodes to
  them: nothing is read from a wrong offset.
\<close>

theorem decode_row_round_trip:
  "(decode_synthetic_row row \<noteq> None \<longleftrightarrow> 92 \<le> length row) \<and>
   (length a = 16 \<longrightarrow> length m = 50 \<longrightarrow> length n = 9 \<longrightarrow>
    decode_synthetic_row (a @ to_le_bytes price @ to_le_bytes sell @ m @ [fl] @ n @
                          to_le_bytes low @ to_le_bytes high @ rest) =
    Some \<lparr>ap_location_id = recombine_location_id low high, local_item_id = price,
          local_quantity = sell, foreign_remove = (fl AND 0x20 \<noteq> 0)\<rparr>)"
proof -
  have total: "decode_synthetic_row row \<noteq> None \<longleftrightarrow> 92 \<le> length row"
    by (auto simp: decode_synthetic_row_def read_goods_row_def read_i32_def eqg_consts)
  have len: "length (to_le_bytes w) = 4" for w by (simp add: to_le_bytes_def)
  have fields: "decode_synthetic_row (a @ to_le_bytes price @ to_le_bytes sell @ m @ [fl] @ n @
                          to_le_bytes low @ to_le_bytes high @ rest) =
    Some \<lparr>ap_location_id = recombine_location_id low high, local_item_id = price,
          local_quantity = sell, foreign_remove = (fl AND 0x20 \<noteq> 0)\<rparr>"
    (is "decode_synthetic_row ?row = _")
    if l: "length a = 16" "length m = 50" "length n = 9"
  proof -
    have "read_i32 ?row 0x10 = Some price"
      using read_i32_written [of a 16 price] l by simp
    moreover have "read_i32 ?row 0x14 = Some sell"
      using read_i32_written [of "a @ to_le_bytes price" 20 sell] l by (simp add: len)
    moreover have "read_i32 ?row 0x54 = Some low"
      using read_i32_written [of "a @ to_le_bytes price @ to_le_bytes sell @ m @ [fl] @ n" 84 low] l
      by (simp add: len)
    moreover have "read_i32 ?row 0x58 = Some high"
      using read_i32_written
        [of "a @ to_le_bytes price @ to_le_bytes sell @ m @ [fl] @ n @ to_le_bytes low" 88 high] l
      by (simp add: len)
    moreover have "?row ! 0x4A = fl" "0x4A < length ?row"
      using nth_append_at [of 0 "[fl]" "a @ to_le_bytes price @ to_le_bytes sell @ m"] l
      by (simp_all add: len)
    ultimately show ?thesis
      by (simp add: decode_synthetic_row_def read_goods_row_def eqg_consts decode_synthetic_def)
  qed
  from total fields show ?thesis by blast
qed

theorem decode_row_round_trip_witness:
  "decode_synthetic_row (replicate 16 0 @ to_le_bytes 1001 @ to_le_bytes 3 @ replicate 50 0 @ [0x20]
      @ replicate 9 0 @ to_le_bytes 7000001 @ to_le_bytes 0 @ []) =
   Some \<lparr>ap_location_id = recombine_location_id 7000001 0, local_item_id = 1001,
         local_quantity = 3, foreign_remove = True\<rparr>"
  using decode_row_round_trip [of "[]" "replicate 16 0" "replicate 50 0" "replicate 9 0" 1001 3 "0x20"
    7000001 0 "[]"]
  by simp

text \<open>A placeholder is granted locally exactly when it names a local item and is not foreign.\<close>

lemma decide_pickup_grant:
  "decide_pickup s = SuppressAndGrant \<longleftrightarrow> \<not> foreign_remove s \<and> local_item_id s \<noteq> 0"
  by (simp add: decide_pickup_def)

end
