(* ===== verification/ReconDesired.thy ===== *)
theory ReconDesired
  imports BTree
begin

text \<open>
  \<open>crates/er-logic/src/reconcile.rs\<close>, first half: the server-authoritative inputs, the
  per-character ledger trust rules and \<open>DesiredState::build\<close>. Flag ids (\<open>u32\<close>) are
  \<open>nat\<close>, goods ids (\<open>i32\<close>) and stream indices (\<open>i64\<close>) are \<open>int\<close>: the code
  only compares, stores and orders them, apart from \<open>START_ITEM_INDEX_BASE + i\<close> and
  \<open>index + 1\<close>, which stay far inside \<open>i64\<close> for any server stream.
\<close>

type_synonym flag_id = nat
type_synonym goods_id = int
type_synonym item_index = int

section \<open>Per-character ledger entries\<close>

record char_ledger =
  cl_watermark :: item_index
  cl_play_time_ms :: nat

text \<open>The source widens both times to \<open>u64\<close> before doubling, so nothing overflows.\<close>

definition seed_trust :: "char_ledger option \<Rightarrow> nat \<Rightarrow> bool \<times> item_index option" where
  "seed_trust entry live_play_time_ms =
     (case entry of
        Some e \<Rightarrow> if live_play_time_ms * 2 \<ge> cl_play_time_ms e
                  then (False, Some (cl_watermark e)) else (True, None)
      | None \<Rightarrow> (True, None))"

definition legacy_adopt :: "item_index \<Rightarrow> nat \<Rightarrow> char_ledger" where
  "legacy_adopt legacy_watermark live_play_time_ms =
     \<lparr>cl_watermark = legacy_watermark, cl_play_time_ms = live_play_time_ms\<rparr>"

definition stamp_playtime :: "nat option \<Rightarrow> nat \<Rightarrow> bool \<Rightarrow> nat" where
  "stamp_playtime stored live fresh_character =
     (if fresh_character then live else max (case stored of None \<Rightarrow> 0 | Some s \<Rightarrow> s) live)"

section \<open>Inputs\<close>

record prog_tier =
  pt_goods :: "goods_id list"
  pt_flags :: "flag_id list"
  pt_consumed :: bool

datatype item_semantics =
    RegionFlags "flag_id list"
  | MapReveal "flag_id list"
  | KeyItem goods_id "flag_id list"
  | FlagOnlyKeyItem "flag_id list"
  | GreatRune goods_id flag_id
  | Consumable goods_id int bool
  | ArmorBundle "goods_id list"
  | Progressive "prog_tier list" goods_id
  | GoalFlag flag_id
  | Inert

record received_item =
  ri_index :: item_index
  ri_name :: string
  ri_semantics :: item_semantics

record start_item =
  si_full_id :: goods_id
  si_qty :: int

definition START_ITEM_INDEX_BASE :: item_index where
  "START_ITEM_INDEX_BASE = -1000000"

record slot_data =
  seal_flags :: "flag_id list"
  start_graces :: "flag_id list"
  always_map_flags :: "flag_id list"
  reveal_all_maps :: bool
  map_reveal_flags :: "flag_id list"
  start_item_flags :: "flag_id list"
  start_items :: "start_item list"
  goal_flag :: "flag_id option"
  goal_met :: bool
  prereq_set_flags :: "flag_id list"

record desired_inputs =
  di_seed :: string
  di_save :: string
  di_received :: "received_item list"
  di_slot_data :: slot_data

section \<open>The desired state\<close>

record ledgered_grant =
  lg_index :: item_index
  lg_full_id :: goods_id
  lg_qty :: int
  lg_apply :: bool

record desired_state =
  ds_flags :: "(flag_id, bool) btree_map"
  ds_unique_goods :: "(goods_id, flag_id list) btree_map"
  ds_unique_protectors :: "goods_id btree_set"
  ds_ledgered :: "ledgered_grant list"
  ds_owned_flags :: "flag_id btree_set"

definition empty_desired :: desired_state where
  "empty_desired = \<lparr>ds_flags = bm_empty, ds_unique_goods = bm_empty,
     ds_unique_protectors = bs_empty, ds_ledgered = [], ds_owned_flags = bs_empty\<rparr>"

definition seal_flag :: "flag_id \<Rightarrow> desired_state \<Rightarrow> desired_state" where
  "seal_flag f d = d\<lparr>ds_flags := bm_or_insert f False (ds_flags d),
                    ds_owned_flags := bs_insert f (ds_owned_flags d)\<rparr>"

definition want_flag :: "flag_id \<Rightarrow> desired_state \<Rightarrow> desired_state" where
  "want_flag f d = d\<lparr>ds_flags := bm_insert f True (ds_flags d)\<rparr>"

definition want_owned_flag :: "flag_id \<Rightarrow> desired_state \<Rightarrow> desired_state" where
  "want_owned_flag f d = d\<lparr>ds_flags := bm_insert f True (ds_flags d),
                           ds_owned_flags := bs_insert f (ds_owned_flags d)\<rparr>"

definition want_good :: "goods_id \<Rightarrow> flag_id list \<Rightarrow> desired_state \<Rightarrow> desired_state" where
  "want_good g companions d = d\<lparr>ds_unique_goods := bm_insert g companions (ds_unique_goods d)\<rparr>"

definition or_want_good :: "goods_id \<Rightarrow> desired_state \<Rightarrow> desired_state" where
  "or_want_good g d = d\<lparr>ds_unique_goods := bm_or_insert g [] (ds_unique_goods d)\<rparr>"

definition owe :: "item_index \<Rightarrow> goods_id \<Rightarrow> int \<Rightarrow> bool \<Rightarrow> desired_state \<Rightarrow> desired_state" where
  "owe idx g q ap d =
     d\<lparr>ds_ledgered := ds_ledgered d @ [\<lparr>lg_index = idx, lg_full_id = g, lg_qty = q, lg_apply = ap\<rparr>]\<rparr>"

text \<open>Steps 1 and 1b of \<open>build\<close>: the seals, then the slot-data bulk flags.\<close>

definition slot_flags :: "slot_data \<Rightarrow> flag_id list" where
  "slot_flags sd =
     start_graces sd @ prereq_set_flags sd @ always_map_flags sd @
     (if reveal_all_maps sd then map_reveal_flags sd else []) @
     start_item_flags sd @
     (if goal_met sd then (case goal_flag sd of None \<Rightarrow> [] | Some f \<Rightarrow> [f]) else [])"

definition build_slot :: "slot_data \<Rightarrow> desired_state \<Rightarrow> desired_state" where
  "build_slot sd d = fold want_flag (slot_flags sd) (fold seal_flag (seal_flags sd) d)"

text \<open>Step 1c: start items at the reserved negative band.\<close>

definition owe_start_item :: "nat \<times> start_item \<Rightarrow> desired_state \<Rightarrow> desired_state" where
  "owe_start_item p d =
     owe (START_ITEM_INDEX_BASE + int (fst p)) (si_full_id (snd p)) (si_qty (snd p)) True d"

definition build_start_items :: "start_item list \<Rightarrow> desired_state \<Rightarrow> desired_state" where
  "build_start_items sis d = fold owe_start_item (List.enumerate 0 sis) d"

text \<open>Step 2: one received item into its observability class.\<close>

definition fold_received :: "received_item \<Rightarrow> desired_state \<Rightarrow> desired_state" where
  "fold_received it d =
     (case ri_semantics it of
        RegionFlags fs \<Rightarrow> fold want_owned_flag fs d
      | MapReveal fs \<Rightarrow> fold want_owned_flag fs d
      | KeyItem g obtained \<Rightarrow> fold want_flag obtained (want_good g obtained d)
      | FlagOnlyKeyItem fs \<Rightarrow> fold want_flag fs d
      | GreatRune g restored \<Rightarrow> want_flag restored (want_good g [restored] d)
      | Consumable g q skip \<Rightarrow> owe (ri_index it) g q (\<not> skip) d
      | ArmorBundle members \<Rightarrow>
          d\<lparr>ds_unique_protectors := bs_extend members (ds_unique_protectors d)\<rparr>
      | GoalFlag f \<Rightarrow> want_flag f d
      | Progressive _ _ \<Rightarrow> d
      | Inert \<Rightarrow> d)"

text \<open>Step 3: the copies of each progressive name, grouped and folded into tiers.\<close>

type_synonym prog_group = "prog_tier list \<times> goods_id \<times> item_index list"

definition group_one ::
  "received_item \<Rightarrow> (string, prog_group) btree_map \<Rightarrow> (string, prog_group) btree_map" where
  "group_one it m =
     (case ri_semantics it of
        Progressive tiers overflow \<Rightarrow>
          (let (t, ov, idxs) = (case bm_get m (ri_name it) of
                                  None \<Rightarrow> (tiers, overflow, []) | Some e \<Rightarrow> e)
           in bm_insert (ri_name it) (t, ov, idxs @ [ri_index it]) m)
      | _ \<Rightarrow> m)"

definition prog_groups :: "received_item list \<Rightarrow> (string, prog_group) btree_map" where
  "prog_groups rs = fold group_one rs bm_empty"

definition land_copy ::
  "prog_tier list \<Rightarrow> goods_id \<Rightarrow> nat \<times> item_index \<Rightarrow> desired_state \<Rightarrow> desired_state" where
  "land_copy tiers overflow p d =
     (let (pos, idx) = p in
      if pos < length tiers
      then (let t = tiers ! pos;
                d' = (if pt_consumed t then fold (\<lambda>g. owe idx g 1 True) (pt_goods t) d
                      else fold or_want_good (pt_goods t) d)
            in fold want_flag (pt_flags t) d')
      else owe idx overflow 1 True d)"

definition land_group :: "string \<times> prog_group \<Rightarrow> desired_state \<Rightarrow> desired_state" where
  "land_group e d =
     (let (_, tiers, overflow, idxs) = e
      in fold (land_copy tiers overflow) (List.enumerate 0 (sort idxs)) d)"

definition build_progressive :: "received_item list \<Rightarrow> desired_state \<Rightarrow> desired_state" where
  "build_progressive rs d = fold land_group (entries (prog_groups rs)) d"

definition build :: "desired_inputs \<Rightarrow> desired_state" where
  "build inputs =
     (let d0 = build_slot (di_slot_data inputs) empty_desired;
          d1 = build_start_items (start_items (di_slot_data inputs)) d0;
          d2 = fold fold_received (di_received inputs) d1;
          d3 = build_progressive (di_received inputs) d2
      in d3\<lparr>ds_ledgered := sort_key lg_index (ds_ledgered d3)\<rparr>)"

definition ledger_floor :: "desired_state \<Rightarrow> item_index" where
  "ledger_floor d =
     min (case map lg_index (ds_ledgered d) of [] \<Rightarrow> 0 | i # is \<Rightarrow> fold min is i) 0"

section \<open>What each step contributes\<close>

definition sem_flags :: "item_semantics \<Rightarrow> flag_id list" where
  "sem_flags s = (case s of
      RegionFlags fs \<Rightarrow> fs | MapReveal fs \<Rightarrow> fs | KeyItem _ fs \<Rightarrow> fs | FlagOnlyKeyItem fs \<Rightarrow> fs
    | GreatRune _ f \<Rightarrow> [f] | GoalFlag f \<Rightarrow> [f] | _ \<Rightarrow> [])"

definition sem_owned :: "item_semantics \<Rightarrow> flag_id list" where
  "sem_owned s = (case s of RegionFlags fs \<Rightarrow> fs | MapReveal fs \<Rightarrow> fs | _ \<Rightarrow> [])"

definition sem_goods :: "item_semantics \<Rightarrow> (goods_id \<times> flag_id list) list" where
  "sem_goods s = (case s of KeyItem g fs \<Rightarrow> [(g, fs)] | GreatRune g f \<Rightarrow> [(g, [f])] | _ \<Rightarrow> [])"

definition sem_protectors :: "item_semantics \<Rightarrow> goods_id list" where
  "sem_protectors s = (case s of ArmorBundle ms \<Rightarrow> ms | _ \<Rightarrow> [])"

definition item_ledger :: "received_item \<Rightarrow> ledgered_grant list" where
  "item_ledger it = (case ri_semantics it of
      Consumable g q skip \<Rightarrow> [\<lparr>lg_index = ri_index it, lg_full_id = g, lg_qty = q, lg_apply = \<not> skip\<rparr>]
    | _ \<Rightarrow> [])"

lemma want_flag_fold [simp]:
  "ds_flags (fold want_flag fs d) = fold (\<lambda>f. bm_insert f True) fs (ds_flags d)"
  "ds_unique_goods (fold want_flag fs d) = ds_unique_goods d"
  "ds_unique_protectors (fold want_flag fs d) = ds_unique_protectors d"
  "ds_ledgered (fold want_flag fs d) = ds_ledgered d"
  "ds_owned_flags (fold want_flag fs d) = ds_owned_flags d"
  by (induction fs arbitrary: d) (auto simp: want_flag_def)

lemma want_owned_flag_fold [simp]:
  "ds_flags (fold want_owned_flag fs d) = fold (\<lambda>f. bm_insert f True) fs (ds_flags d)"
  "ds_unique_goods (fold want_owned_flag fs d) = ds_unique_goods d"
  "ds_unique_protectors (fold want_owned_flag fs d) = ds_unique_protectors d"
  "ds_ledgered (fold want_owned_flag fs d) = ds_ledgered d"
  "ds_owned_flags (fold want_owned_flag fs d) = bs_extend fs (ds_owned_flags d)"
  by (induction fs arbitrary: d) (auto simp: want_owned_flag_def bs_extend_def)

lemma want_flag_fields [simp]:
  "ds_flags (want_flag f d) = bm_insert f True (ds_flags d)"
  "ds_unique_goods (want_flag f d) = ds_unique_goods d"
  "ds_unique_protectors (want_flag f d) = ds_unique_protectors d"
  "ds_ledgered (want_flag f d) = ds_ledgered d"
  "ds_owned_flags (want_flag f d) = ds_owned_flags d"
  by (simp_all add: want_flag_def)

lemma want_good_fields [simp]:
  "ds_flags (want_good g c d) = ds_flags d"
  "ds_unique_goods (want_good g c d) = bm_insert g c (ds_unique_goods d)"
  "ds_unique_protectors (want_good g c d) = ds_unique_protectors d"
  "ds_ledgered (want_good g c d) = ds_ledgered d"
  "ds_owned_flags (want_good g c d) = ds_owned_flags d"
  by (simp_all add: want_good_def)

lemma owe_fields [simp]:
  "ds_flags (owe i g q a d) = ds_flags d"
  "ds_unique_goods (owe i g q a d) = ds_unique_goods d"
  "ds_unique_protectors (owe i g q a d) = ds_unique_protectors d"
  "ds_ledgered (owe i g q a d) =
     ds_ledgered d @ [\<lparr>lg_index = i, lg_full_id = g, lg_qty = q, lg_apply = a\<rparr>]"
  "ds_owned_flags (owe i g q a d) = ds_owned_flags d"
  by (simp_all add: owe_def)

lemma fold_received_fields [simp]:
  "ds_flags (fold_received it d) = fold (\<lambda>f. bm_insert f True) (sem_flags (ri_semantics it)) (ds_flags d)"
  "ds_unique_goods (fold_received it d) =
     fold (\<lambda>(g, c). bm_insert g c) (sem_goods (ri_semantics it)) (ds_unique_goods d)"
  "ds_unique_protectors (fold_received it d) =
     bs_extend (sem_protectors (ri_semantics it)) (ds_unique_protectors d)"
  "ds_ledgered (fold_received it d) = ds_ledgered d @ item_ledger it"
  "ds_owned_flags (fold_received it d) = bs_extend (sem_owned (ri_semantics it)) (ds_owned_flags d)"
  by (cases "ri_semantics it";
      simp add: fold_received_def sem_flags_def sem_goods_def sem_protectors_def item_ledger_def
                sem_owned_def bs_extend_def)+

lemma bm_get_fold_true:
  "bm_get (fold (\<lambda>f. bm_insert f True) fs m) f = (if f \<in> set fs then Some True else bm_get m f)"
  by (induction fs arbitrary: m) auto

lemma bm_get_received_flags:
  "bm_get (ds_flags (fold fold_received rs d)) f =
     (if \<exists>it \<in> set rs. f \<in> set (sem_flags (ri_semantics it)) then Some True
      else bm_get (ds_flags d) f)"
  by (induction rs arbitrary: d) (auto simp: bm_get_fold_true)

lemma received_ledgered:
  "ds_ledgered (fold fold_received rs d) = ds_ledgered d @ concat (map item_ledger rs)"
  by (induction rs arbitrary: d) auto

lemma received_protectors:
  "bs_set (ds_unique_protectors (fold fold_received rs d)) =
     bs_set (ds_unique_protectors d) \<union> (\<Union>it \<in> set rs. set (sem_protectors (ri_semantics it)))"
  by (induction rs arbitrary: d) auto

lemma received_owned:
  "bs_set (ds_owned_flags (fold fold_received rs d)) =
     bs_set (ds_owned_flags d) \<union> (\<Union>it \<in> set rs. set (sem_owned (ri_semantics it)))"
  by (induction rs arbitrary: d) auto

lemma received_goods:
  "ds_unique_goods (fold fold_received rs d) =
     fold (\<lambda>(g, c). bm_insert g c) (concat (map (\<lambda>it. sem_goods (ri_semantics it)) rs))
       (ds_unique_goods d)"
  by (induction rs arbitrary: d) auto

definition copy_flags :: "prog_tier list \<Rightarrow> nat \<times> item_index \<Rightarrow> flag_id list" where
  "copy_flags tiers p = (if fst p < length tiers then pt_flags (tiers ! fst p) else [])"

definition copy_goods :: "prog_tier list \<Rightarrow> nat \<times> item_index \<Rightarrow> goods_id list" where
  "copy_goods tiers p =
     (if fst p < length tiers \<and> \<not> pt_consumed (tiers ! fst p) then pt_goods (tiers ! fst p) else [])"

definition copy_ledger ::
  "prog_tier list \<Rightarrow> goods_id \<Rightarrow> nat \<times> item_index \<Rightarrow> ledgered_grant list" where
  "copy_ledger tiers overflow p =
     map (\<lambda>g. \<lparr>lg_index = snd p, lg_full_id = g, lg_qty = 1, lg_apply = True\<rparr>)
       (if fst p < length tiers
        then (if pt_consumed (tiers ! fst p) then pt_goods (tiers ! fst p) else [])
        else [overflow])"

lemma owe_fold [simp]:
  "ds_flags (fold (\<lambda>g. owe i g q a) gs d) = ds_flags d"
  "ds_unique_goods (fold (\<lambda>g. owe i g q a) gs d) = ds_unique_goods d"
  "ds_unique_protectors (fold (\<lambda>g. owe i g q a) gs d) = ds_unique_protectors d"
  "ds_ledgered (fold (\<lambda>g. owe i g q a) gs d) =
     ds_ledgered d @ map (\<lambda>g. \<lparr>lg_index = i, lg_full_id = g, lg_qty = q, lg_apply = a\<rparr>) gs"
  "ds_owned_flags (fold (\<lambda>g. owe i g q a) gs d) = ds_owned_flags d"
  by (induction gs arbitrary: d) auto

lemma or_want_good_fold [simp]:
  "ds_flags (fold or_want_good gs d) = ds_flags d"
  "ds_unique_goods (fold or_want_good gs d) = fold (\<lambda>g. bm_or_insert g []) gs (ds_unique_goods d)"
  "ds_unique_protectors (fold or_want_good gs d) = ds_unique_protectors d"
  "ds_ledgered (fold or_want_good gs d) = ds_ledgered d"
  "ds_owned_flags (fold or_want_good gs d) = ds_owned_flags d"
  by (induction gs arbitrary: d) (auto simp: or_want_good_def)

lemma land_copy_fields [simp]:
  "ds_flags (land_copy tiers ov p d) = fold (\<lambda>f. bm_insert f True) (copy_flags tiers p) (ds_flags d)"
  "ds_unique_goods (land_copy tiers ov p d) =
     fold (\<lambda>g. bm_or_insert g []) (copy_goods tiers p) (ds_unique_goods d)"
  "ds_unique_protectors (land_copy tiers ov p d) = ds_unique_protectors d"
  "ds_ledgered (land_copy tiers ov p d) = ds_ledgered d @ copy_ledger tiers ov p"
  "ds_owned_flags (land_copy tiers ov p d) = ds_owned_flags d"
  by (simp_all add: land_copy_def copy_flags_def copy_goods_def copy_ledger_def Let_def split: prod.split)

lemma land_copies_fields:
  "ds_flags (fold (land_copy tiers ov) ps d) =
     fold (\<lambda>f. bm_insert f True) (concat (map (copy_flags tiers) ps)) (ds_flags d)"
  "ds_unique_goods (fold (land_copy tiers ov) ps d) =
     fold (\<lambda>g. bm_or_insert g []) (concat (map (copy_goods tiers) ps)) (ds_unique_goods d)"
  "ds_unique_protectors (fold (land_copy tiers ov) ps d) = ds_unique_protectors d"
  "ds_ledgered (fold (land_copy tiers ov) ps d) =
     ds_ledgered d @ concat (map (copy_ledger tiers ov) ps)"
  "ds_owned_flags (fold (land_copy tiers ov) ps d) = ds_owned_flags d"
  by (induction ps arbitrary: d) auto

definition group_copies :: "string \<times> prog_group \<Rightarrow> (nat \<times> item_index) list" where
  "group_copies e = List.enumerate 0 (sort (snd (snd (snd e))))"

definition group_flags :: "string \<times> prog_group \<Rightarrow> flag_id list" where
  "group_flags e = concat (map (copy_flags (fst (snd e))) (group_copies e))"

definition group_goods :: "string \<times> prog_group \<Rightarrow> goods_id list" where
  "group_goods e = concat (map (copy_goods (fst (snd e))) (group_copies e))"

definition group_ledger :: "string \<times> prog_group \<Rightarrow> ledgered_grant list" where
  "group_ledger e = concat (map (copy_ledger (fst (snd e)) (fst (snd (snd e)))) (group_copies e))"

lemma land_group_fields [simp]:
  "ds_flags (land_group e d) = fold (\<lambda>f. bm_insert f True) (group_flags e) (ds_flags d)"
  "ds_unique_goods (land_group e d) = fold (\<lambda>g. bm_or_insert g []) (group_goods e) (ds_unique_goods d)"
  "ds_unique_protectors (land_group e d) = ds_unique_protectors d"
  "ds_ledgered (land_group e d) = ds_ledgered d @ group_ledger e"
  "ds_owned_flags (land_group e d) = ds_owned_flags d"
  by (simp_all add: land_group_def group_flags_def group_goods_def group_ledger_def group_copies_def
                    land_copies_fields split: prod.split)

lemma land_groups_fields:
  "ds_flags (fold land_group es d) =
     fold (\<lambda>f. bm_insert f True) (concat (map group_flags es)) (ds_flags d)"
  "ds_unique_goods (fold land_group es d) =
     fold (\<lambda>g. bm_or_insert g []) (concat (map group_goods es)) (ds_unique_goods d)"
  "ds_unique_protectors (fold land_group es d) = ds_unique_protectors d"
  "ds_ledgered (fold land_group es d) = ds_ledgered d @ concat (map group_ledger es)"
  "ds_owned_flags (fold land_group es d) = ds_owned_flags d"
  by (induction es arbitrary: d) auto

section \<open>Progressive groups\<close>

definition is_progressive :: "string \<Rightarrow> received_item \<Rightarrow> bool" where
  "is_progressive n it \<longleftrightarrow>
     ri_name it = n \<and> (case ri_semantics it of Progressive _ _ \<Rightarrow> True | _ \<Rightarrow> False)"

definition prog_copies :: "string \<Rightarrow> received_item list \<Rightarrow> received_item list" where
  "prog_copies n rs = filter (is_progressive n) rs"

definition prog_table :: "received_item \<Rightarrow> prog_tier list \<times> goods_id" where
  "prog_table it = (case ri_semantics it of Progressive t ov \<Rightarrow> (t, ov) | _ \<Rightarrow> ([], 0))"

definition group_of :: "received_item list \<Rightarrow> prog_group option" where
  "group_of cs = (case cs of [] \<Rightarrow> None
     | c # _ \<Rightarrow> Some (fst (prog_table c), snd (prog_table c), map ri_index cs))"

lemma group_of_snoc:
  "group_of (cs @ [c]) =
     (case group_of cs of None \<Rightarrow> Some (fst (prog_table c), snd (prog_table c), [ri_index c])
      | Some (t, ov, is) \<Rightarrow> Some (t, ov, is @ [ri_index c]))"
  by (cases cs) (auto simp: group_of_def)

lemma prog_groups_get: "bm_get (prog_groups rs) n = group_of (prog_copies n rs)"
proof (induction rs rule: rev_induct)
  case Nil
  then show ?case by (simp add: prog_groups_def prog_copies_def group_of_def)
next
  case (snoc it rs)
  have step: "prog_groups (rs @ [it]) = group_one it (prog_groups rs)"
    by (simp add: prog_groups_def)
  show ?case
  proof (cases "ri_semantics it")
    case (Progressive t ov)
    then show ?thesis
      using snoc unfolding step
      by (auto simp: group_one_def prog_copies_def is_progressive_def group_of_snoc prog_table_def
               split: option.splits)
  qed (use snoc step in \<open>simp_all add: group_one_def prog_copies_def is_progressive_def\<close>)
qed

text \<open>The flags a stream of progressive copies wants: those of the tiers its copy counts reach.\<close>

definition prog_wants :: "received_item list \<Rightarrow> flag_id \<Rightarrow> bool" where
  "prog_wants rs f \<longleftrightarrow>
     (\<exists>n c cs. prog_copies n rs = c # cs \<and>
        (\<exists>pos < min (Suc (length cs)) (length (fst (prog_table c))).
           f \<in> set (pt_flags (fst (prog_table c) ! pos))))"

lemma set_group_flags:
  "f \<in> set (group_flags (n, t, ov, is)) \<longleftrightarrow> (\<exists>pos < min (length is) (length t). f \<in> set (pt_flags (t ! pos)))"
proof
  assume "f \<in> set (group_flags (n, t, ov, is))"
  then obtain p where "p \<in> set (List.enumerate 0 (sort is))" "f \<in> set (copy_flags t p)"
    by (auto simp: group_flags_def group_copies_def)
  moreover from this(1) have "fst p < length is"
    using in_set_enumerate_eq [of p 0 "sort is"] by simp
  ultimately show "\<exists>pos < min (length is) (length t). f \<in> set (pt_flags (t ! pos))"
    by (auto simp: copy_flags_def split: if_splits)
next
  assume "\<exists>pos < min (length is) (length t). f \<in> set (pt_flags (t ! pos))"
  then obtain pos where p: "pos < length is" "pos < length t" "f \<in> set (pt_flags (t ! pos))"
    by auto
  then have "(pos, sort is ! pos) \<in> set (List.enumerate 0 (sort is))"
    by (simp add: in_set_enumerate_eq)
  with p show "f \<in> set (group_flags (n, t, ov, is))"
    by (force simp: group_flags_def group_copies_def copy_flags_def)
qed

lemma prog_wants_iff:
  "prog_wants rs f \<longleftrightarrow> (\<exists>e \<in> set (entries (prog_groups rs)). f \<in> set (group_flags e))"
proof -
  have "(\<exists>v. group_of cs = Some v \<and> f \<in> set (group_flags (n, v))) \<longleftrightarrow>
        (\<exists>c cs'. cs = c # cs' \<and> (\<exists>pos < min (Suc (length cs')) (length (fst (prog_table c))).
           f \<in> set (pt_flags (fst (prog_table c) ! pos))))" for n cs
    by (cases cs) (simp_all add: group_of_def set_group_flags)
  then show ?thesis
    by (simp add: bex_entries prog_groups_get prog_wants_def)
qed

section \<open>Functional specification of the fold\<close>

text \<open>Every flag the inputs want set, whichever class it comes from.\<close>

definition wanted_flag :: "desired_inputs \<Rightarrow> flag_id \<Rightarrow> bool" where
  "wanted_flag i f \<longleftrightarrow>
     f \<in> set (slot_flags (di_slot_data i)) \<or>
     (\<exists>it \<in> set (di_received i). f \<in> set (sem_flags (ri_semantics it))) \<or>
     prog_wants (di_received i) f"

lemma seal_fold:
  "bm_get (ds_flags (fold seal_flag fs d)) f =
     (if bm_get (ds_flags d) f = None \<and> f \<in> set fs then Some False else bm_get (ds_flags d) f)"
  "ds_unique_goods (fold seal_flag fs d) = ds_unique_goods d"
  "ds_unique_protectors (fold seal_flag fs d) = ds_unique_protectors d"
  "ds_ledgered (fold seal_flag fs d) = ds_ledgered d"
  "bs_set (ds_owned_flags (fold seal_flag fs d)) = set fs \<union> bs_set (ds_owned_flags d)"
  by (induction fs arbitrary: d) (auto simp: seal_flag_def bm_get_or_insert)

definition start_ledger :: "start_item list \<Rightarrow> ledgered_grant list" where
  "start_ledger sis =
     map (\<lambda>p. \<lparr>lg_index = START_ITEM_INDEX_BASE + int (fst p), lg_full_id = si_full_id (snd p),
               lg_qty = si_qty (snd p), lg_apply = True\<rparr>) (List.enumerate 0 sis)"

lemma owe_start_fold:
  "ds_flags (fold owe_start_item es d) = ds_flags d"
  "ds_unique_goods (fold owe_start_item es d) = ds_unique_goods d"
  "ds_unique_protectors (fold owe_start_item es d) = ds_unique_protectors d"
  "ds_ledgered (fold owe_start_item es d) = ds_ledgered d @
     map (\<lambda>p. \<lparr>lg_index = START_ITEM_INDEX_BASE + int (fst p), lg_full_id = si_full_id (snd p),
               lg_qty = si_qty (snd p), lg_apply = True\<rparr>) es"
  "ds_owned_flags (fold owe_start_item es d) = ds_owned_flags d"
  by (induction es arbitrary: d) (auto simp: owe_start_item_def)

lemma start_items_fields [simp]:
  "ds_flags (build_start_items sis d) = ds_flags d"
  "ds_unique_goods (build_start_items sis d) = ds_unique_goods d"
  "ds_unique_protectors (build_start_items sis d) = ds_unique_protectors d"
  "ds_ledgered (build_start_items sis d) = ds_ledgered d @ start_ledger sis"
  "ds_owned_flags (build_start_items sis d) = ds_owned_flags d"
  by (simp_all add: build_start_items_def owe_start_fold start_ledger_def)

lemma build_flags_get:
  "bm_get (ds_flags (build i)) f =
     (if wanted_flag i f then Some True
      else if f \<in> set (seal_flags (di_slot_data i)) then Some False else None)"
  by (auto simp: build_def Let_def build_progressive_def land_groups_fields bm_get_fold_true
        bm_get_received_flags build_slot_def seal_fold wanted_flag_def prog_wants_iff empty_desired_def)

lemma build_owned_set:
  "bs_set (ds_owned_flags (build i)) =
     set (seal_flags (di_slot_data i)) \<union>
     (\<Union>it \<in> set (di_received i). set (sem_owned (ri_semantics it)))"
  by (auto simp: build_def Let_def build_progressive_def land_groups_fields received_owned
        build_slot_def seal_fold empty_desired_def)

text \<open>
  C17: what \<open>DesiredState::build\<close> wants of the flags. A flag is desired set exactly when the
  slot data, a received item or a reached progressive tier names it; otherwise it is desired clear
  exactly when it is a seal (so a received lock overrides the seal), and otherwise not mentioned.
  The clear-allowlist is the seals and the flags of region locks and map reveals.
\<close>

theorem build_flags_spec:
  "bm_get (ds_flags (build i)) f =
     (if wanted_flag i f then Some True
      else if f \<in> set (seal_flags (di_slot_data i)) then Some False else None) \<and>
   bs_set (ds_owned_flags (build i)) =
     set (seal_flags (di_slot_data i)) \<union>
     (\<Union>it \<in> set (di_received i). set (sem_owned (ri_semantics it)))"
  by (simp add: build_flags_get build_owned_set)

end
