(* ===== verification/ReconOrder.thy ===== *)
theory ReconOrder
  imports ReconDesired
begin

text \<open>
  Order independence of \<open>DesiredState::build\<close>: the received stream is folded into keyed
  sets and a ledger keyed by stream index, so two deliveries of the same items in different orders
  give the same desired state. What the client must guarantee for that is written out: the copies
  of a progressive name carry one tier table and no two ledger entries share an index; what remains
  order-dependent is the companion list of a good that two items name with different companions.
\<close>

section \<open>Consistent streams\<close>

definition one_table :: "received_item list \<Rightarrow> bool" where
  "one_table rs \<longleftrightarrow>
     (\<forall>a \<in> set rs. \<forall>b \<in> set rs. is_progressive (ri_name b) a \<and> is_progressive (ri_name b) b
        \<longrightarrow> prog_table a = prog_table b)"

definition one_companion_list :: "received_item list \<Rightarrow> bool" where
  "one_companion_list rs \<longleftrightarrow>
     (\<forall>a \<in> set (concat (map (\<lambda>it. sem_goods (ri_semantics it)) rs)).
      \<forall>b \<in> set (concat (map (\<lambda>it. sem_goods (ri_semantics it)) rs)).
        fst a = fst b \<longrightarrow> snd a = snd b)"

section \<open>Progressive groups up to the order of the copies\<close>

definition norm_group :: "prog_group \<Rightarrow> prog_group" where
  "norm_group v = (fst v, fst (snd v), sort (snd (snd v)))"

lemma group_norm:
  "group_flags (n, norm_group v) = group_flags (n, v)"
  "group_goods (n, norm_group v) = group_goods (n, v)"
  "group_ledger (n, norm_group v) = group_ledger (n, v)"
  by (simp_all add: group_flags_def group_goods_def group_ledger_def group_copies_def norm_group_def
                    sorted_sort_id)

lemma entries_map_eq:
  assumes "\<And>k. map_option h (bm_get a k) = map_option h (bm_get b k)"
  shows "map (\<lambda>(k, v). (k, h v)) (entries a) = map (\<lambda>(k, v). (k, h v)) (entries b)"
proof (rule key_sorted_unique)
  have fst_h: "map fst (map (\<lambda>(k, v). (k, h v)) xs) = map fst xs" for xs
    by (induction xs) auto
  show "key_sorted (map (\<lambda>(k, v). (k, h v)) (entries a))"
    "key_sorted (map (\<lambda>(k, v). (k, h v)) (entries b))"
    unfolding fst_h by simp_all
  have hm: "map_of (map (\<lambda>(k, v). (k, h v)) xs) k = map_option h (map_of xs k)" for xs k
    by (induction xs) auto
  show "map_of (map (\<lambda>(k, v). (k, h v)) (entries a)) = map_of (map (\<lambda>(k, v). (k, h v)) (entries b))"
    using assms by (simp add: fun_eq_iff hm bm_get_def [symmetric])
qed

lemma group_of_perm:
  assumes "mset cs = mset cs'" "\<forall>a \<in> set cs. \<forall>b \<in> set cs. prog_table a = prog_table b"
  shows "map_option norm_group (group_of cs) = map_option norm_group (group_of cs')"
proof (cases cs)
  case Nil
  with assms show ?thesis by simp
next
  case (Cons c ds)
  then obtain c' ds' where c': "cs' = c' # ds'"
    using assms(1) by (cases cs') auto
  have "c' \<in> set cs" using assms(1) c' by (metis list.set_intros(1) mset_eq_setD)
  then have "prog_table c = prog_table c'" using assms(2) Cons by auto
  moreover have "sort (map ri_index cs) = sort (map ri_index cs')"
    using assms(1) by (intro properties_for_sort) simp_all
  ultimately show ?thesis
    using Cons c' by (simp add: group_of_def norm_group_def)
qed

lemma prog_groups_perm:
  assumes "mset rs = mset rs'" "one_table rs"
  shows "map (\<lambda>(n, v). (n, norm_group v)) (entries (prog_groups rs)) =
         map (\<lambda>(n, v). (n, norm_group v)) (entries (prog_groups rs'))"
proof (rule entries_map_eq)
  fix n
  have "mset (prog_copies n rs) = mset (prog_copies n rs')"
    using assms(1) by (simp add: prog_copies_def mset_filter)
  moreover have "\<forall>a \<in> set (prog_copies n rs). \<forall>b \<in> set (prog_copies n rs). prog_table a = prog_table b"
    using assms(2) by (fastforce simp: prog_copies_def one_table_def is_progressive_def)
  ultimately show "map_option norm_group (bm_get (prog_groups rs) n) =
      map_option norm_group (bm_get (prog_groups rs') n)"
    unfolding prog_groups_get by (rule group_of_perm)
qed

lemma concat_groups_perm:
  assumes "mset rs = mset rs'" "one_table rs"
    and "\<And>n v. F (n, norm_group v) = F (n, v)"
  shows "concat (map F (entries (prog_groups rs))) = concat (map F (entries (prog_groups rs')))"
proof -
  have "map F (entries m) = map F (map (\<lambda>(n, v). (n, norm_group v)) (entries m))" for m
    unfolding map_map
  proof (rule map_cong [OF refl])
    fix e
    show "F e = (F \<circ> (\<lambda>(n, v). (n, norm_group v))) e"
      by (cases e) (simp add: assms(3))
  qed
  then show ?thesis
    by (simp only: prog_groups_perm [OF assms(1,2)])
qed

section \<open>The fold\<close>

text \<open>The companion list of a good is that of the last arrival that names it.\<close>

definition companions :: "received_item list \<Rightarrow> goods_id \<Rightarrow> flag_id list list" where
  "companions rs g =
     map snd (filter (\<lambda>p. fst p = g) (concat (map (\<lambda>it. sem_goods (ri_semantics it)) rs)))"

lemma bm_get_fold_goods:
  "bm_get (fold (\<lambda>(g, c). bm_insert g c) ps m) g =
     (let cs = map snd (filter (\<lambda>p. fst p = g) ps) in if cs = [] then bm_get m g else Some (last cs))"
  by (induction ps arbitrary: m) (auto simp: Let_def)

lemma bm_get_fold_or_insert:
  "bm_get (fold (\<lambda>g. bm_or_insert g []) gs m) g =
     (case bm_get m g of Some c \<Rightarrow> Some c | None \<Rightarrow> if g \<in> set gs then Some [] else None)"
  by (induction gs arbitrary: m) (auto simp: bm_get_or_insert split: option.splits)

lemma companions_perm: "mset rs = mset rs' \<Longrightarrow> mset (companions rs g) = mset (companions rs' g)"
  using mset_concat_perm [of rs rs' "\<lambda>it. sem_goods (ri_semantics it)"]
  by (simp add: companions_def mset_filter)

lemma one_companion_list_companions:
  "one_companion_list rs \<Longrightarrow> c \<in> set (companions rs g) \<Longrightarrow> c' \<in> set (companions rs g) \<Longrightarrow> c = c'"
  by (force simp: one_companion_list_def companions_def)

lemma last_same:
  "mset xs = mset ys \<Longrightarrow> xs \<noteq> [] \<Longrightarrow> (\<And>a b. a \<in> set xs \<Longrightarrow> b \<in> set xs \<Longrightarrow> a = b) \<Longrightarrow> last xs = last ys"
  by (metis last_in_set mset.simps(1) mset_zero_iff mset_eq_setD)

text \<open>What the build does with the received items, before the ledger is sorted.\<close>

definition built :: "desired_inputs \<Rightarrow> received_item list \<Rightarrow> desired_state" where
  "built i rs = build_progressive rs (fold fold_received rs
     (build_start_items (start_items (di_slot_data i)) (build_slot (di_slot_data i) empty_desired)))"

lemma build_built:
  "build (i\<lparr>di_received := rs\<rparr>) = (built i rs)\<lparr>ds_ledgered := sort_key lg_index (ds_ledgered (built i rs))\<rparr>"
  by (simp add: build_def built_def Let_def)

lemma built_goods:
  "bm_get (ds_unique_goods (built i rs)) g =
     (if companions rs g \<noteq> [] then Some (last (companions rs g))
      else case bm_get (ds_unique_goods (build_slot (di_slot_data i) empty_desired)) g of
        Some c \<Rightarrow> Some c
      | None \<Rightarrow> if g \<in> set (concat (map group_goods (entries (prog_groups rs)))) then Some [] else None)"
  by (auto simp: built_def build_progressive_def land_groups_fields received_goods bm_get_fold_or_insert
      bm_get_fold_goods companions_def Let_def split: option.splits)

lemma built_perm:
  assumes perm: "mset rs = mset rs'" and ot: "one_table rs"
  shows "ds_flags (built i rs) = ds_flags (built i rs')"
    and "ds_unique_protectors (built i rs) = ds_unique_protectors (built i rs')"
    and "ds_owned_flags (built i rs) = ds_owned_flags (built i rs')"
    and "mset (ds_ledgered (built i rs)) = mset (ds_ledgered (built i rs'))"
    and "(bm_get (ds_unique_goods (built i rs)) g = None) = (bm_get (ds_unique_goods (built i rs')) g = None)"
    and "(\<And>c c'. c \<in> set (companions rs g) \<Longrightarrow> c' \<in> set (companions rs g) \<Longrightarrow> c = c') \<Longrightarrow>
      bm_get (ds_unique_goods (built i rs)) g = bm_get (ds_unique_goods (built i rs')) g"
proof -
  have s: "set rs' = set rs" using perm by (metis mset_eq_setD)
  have gf: "concat (map group_flags (entries (prog_groups rs))) =
            concat (map group_flags (entries (prog_groups rs')))"
    and gg: "concat (map group_goods (entries (prog_groups rs))) =
             concat (map group_goods (entries (prog_groups rs')))"
    and gl: "concat (map group_ledger (entries (prog_groups rs))) =
             concat (map group_ledger (entries (prog_groups rs')))"
    by (rule concat_groups_perm [OF perm ot], simp add: group_norm)+
  show "mset (ds_ledgered (built i rs)) = mset (ds_ledgered (built i rs'))"
    using mset_concat_perm [OF perm, of item_ledger]
    by (simp add: built_def build_progressive_def land_groups_fields received_ledgered gl)
  show "ds_flags (built i rs) = ds_flags (built i rs')"
    by (rule bm_eqI)
       (simp add: built_def build_progressive_def land_groups_fields bm_get_fold_true bm_get_received_flags s gf)
  have "bs_set (ds_unique_protectors (built i rs)) = bs_set (ds_unique_protectors (built i rs'))"
    "bs_set (ds_owned_flags (built i rs)) = bs_set (ds_owned_flags (built i rs'))"
    by (simp_all add: built_def build_progressive_def land_groups_fields received_protectors received_owned s)
  then show "ds_unique_protectors (built i rs) = ds_unique_protectors (built i rs')"
    "ds_owned_flags (built i rs) = ds_owned_flags (built i rs')"
    by (auto intro!: bs_eqI simp: bs_set_def)
  have c: "mset (companions rs g) = mset (companions rs' g)" by (rule companions_perm [OF perm])
  then have e: "companions rs g = [] \<longleftrightarrow> companions rs' g = []" by (metis mset_zero_iff)
  then show "(bm_get (ds_unique_goods (built i rs)) g = None) = (bm_get (ds_unique_goods (built i rs')) g = None)"
    unfolding built_goods gg by (simp split: option.split)
  show "bm_get (ds_unique_goods (built i rs)) g = bm_get (ds_unique_goods (built i rs')) g"
    if "\<And>c c'. c \<in> set (companions rs g) \<Longrightarrow> c' \<in> set (companions rs g) \<Longrightarrow> c = c'"
    unfolding built_goods gg using last_same [OF c _ that] e by simp
qed

text \<open>
  C38: What of the desired state depends on the order of arrival. Let the copies of one progressive
  name carry one tier table and the ledger entries distinct stream indices. Then every reordering of
  the received items builds the same flags, protectors, owned flags and ledger, and wants the same
  unique goods. The companion flags of a good are the same too, unless two received items name that
  good with different companions; if no two do, the whole desired state is the same.
\<close>

theorem build_order_independent:
  assumes "mset rs' = mset (di_received i)" and "one_table (di_received i)"
    and "distinct (map lg_index (ds_ledgered (build i)))"
  shows "(let d = build i; d' = build (i\<lparr>di_received := rs'\<rparr>)
    in d'\<lparr>ds_unique_goods := ds_unique_goods d\<rparr> = d \<and>
       (\<forall>g. bm_get (ds_unique_goods d') g = None \<longleftrightarrow> bm_get (ds_unique_goods d) g = None) \<and>
       (\<forall>g. (\<exists>c \<in> set (companions (di_received i) g). \<exists>c' \<in> set (companions (di_received i) g). c \<noteq> c') \<or>
          bm_get (ds_unique_goods d') g = bm_get (ds_unique_goods d) g) \<and>
       (one_companion_list (di_received i) \<longrightarrow> d' = d))"
proof -
  let ?rs = "di_received i"
  have b: "build i = (built i ?rs)\<lparr>ds_ledgered := sort_key lg_index (ds_ledgered (built i ?rs))\<rparr>"
    using build_built [where i = i and rs = ?rs] by simp
  note p = built_perm [OF assms(1) [symmetric] assms(2), where i = i]
  have l: "sort_key lg_index (ds_ledgered (built i ?rs)) = sort_key lg_index (ds_ledgered (built i rs'))"
    using assms(3) unfolding b by (intro sort_key_perm [OF p(4)]) simp
  have same: "(build (i\<lparr>di_received := rs'\<rparr>))\<lparr>ds_unique_goods := ds_unique_goods (build i)\<rparr> = build i"
    using p(1-3) l unfolding b build_built by simp
  have one: "one_companion_list ?rs \<Longrightarrow> ds_unique_goods (built i rs') = ds_unique_goods (built i ?rs)"
    by (rule bm_eqI, rule p(6) [symmetric]) (rule one_companion_list_companions)
  show ?thesis
    unfolding Let_def
  proof (intro conjI allI impI)
    fix g
    show "bm_get (ds_unique_goods (build (i\<lparr>di_received := rs'\<rparr>))) g = None \<longleftrightarrow>
        bm_get (ds_unique_goods (build i)) g = None"
      using p(5) [of g] unfolding b build_built by simp
    show "(\<exists>c \<in> set (companions ?rs g). \<exists>c' \<in> set (companions ?rs g). c \<noteq> c') \<or>
        bm_get (ds_unique_goods (build (i\<lparr>di_received := rs'\<rparr>))) g = bm_get (ds_unique_goods (build i)) g"
      using p(6) [of g] unfolding b build_built by simp metis
  next
    assume "one_companion_list ?rs"
    from one [OF this] have "ds_unique_goods (build (i\<lparr>di_received := rs'\<rparr>)) = ds_unique_goods (build i)"
      unfolding b build_built by simp
    with same show "build (i\<lparr>di_received := rs'\<rparr>) = build i" by (metis desired_state.update_convs(2) desired_state.surjective desired_state.select_convs(2))
  qed (rule same)
qed

definition demo_slot :: slot_data where
  "demo_slot = \<lparr>seal_flags = [100], start_graces = [71190], always_map_flags = [82001],
     reveal_all_maps = False, map_reveal_flags = [62010], start_item_flags = [],
     start_items = [\<lparr>si_full_id = 1001, si_qty = 3\<rparr>], goal_flag = Some 9000, goal_met = False,
     prereq_set_flags = []\<rparr>"

definition demo_inputs :: "received_item list \<Rightarrow> desired_inputs" where
  "demo_inputs rs = \<lparr>di_seed = ''seed'', di_save = ''slot0'', di_received = rs, di_slot_data = demo_slot\<rparr>"

definition demo_tiers :: "prog_tier list" where
  "demo_tiers = [\<lparr>pt_goods = [8951], pt_flags = [280010], pt_consumed = False\<rparr>,
                 \<lparr>pt_goods = [10020], pt_flags = [], pt_consumed = True\<rparr>]"

definition demo_stream :: "received_item list" where
  "demo_stream =
     [\<lparr>ri_index = 0, ri_name = ''Limgrave Lock'', ri_semantics = RegionFlags [100, 101]\<rparr>,
      \<lparr>ri_index = 1, ri_name = ''Golden Rune'', ri_semantics = Consumable 2900 1 False\<rparr>,
      \<lparr>ri_index = 2, ri_name = ''Progressive Bell'', ri_semantics = Progressive demo_tiers 2950\<rparr>,
      \<lparr>ri_index = 3, ri_name = ''Rune'', ri_semantics = GreatRune 191 171\<rparr>,
      \<lparr>ri_index = 4, ri_name = ''Progressive Bell'', ri_semantics = Progressive demo_tiers 2950\<rparr>,
      \<lparr>ri_index = 5, ri_name = ''Progressive Bell'', ri_semantics = Progressive demo_tiers 2950\<rparr>]"

theorem build_order_independent_witness:
  "build (demo_inputs (rev demo_stream)) = build (demo_inputs demo_stream)"
proof -
  let ?i = "demo_inputs demo_stream"
  have "mset (rev demo_stream) = mset (di_received ?i)"
    by (simp add: demo_inputs_def)
  moreover have "one_table (di_received ?i)" "one_companion_list (di_received ?i)"
    by code_simp+
  moreover have "distinct (map lg_index (ds_ledgered (build ?i)))"
    by code_simp
  ultimately have "build (?i\<lparr>di_received := rev demo_stream\<rparr>) = build ?i"
    using build_order_independent [of "rev demo_stream" ?i] by (simp add: Let_def)
  then show ?thesis by (simp add: demo_inputs_def)
qed

text \<open>
  without one companion list per good the order does matter. Two key items for the same
  good with different obtained flags leave the companion list of whichever arrived last, although
  the comment on \<open>build\<close> calls the unique class order-independent.
\<close>

theorem build_companions_depend_on_order:
  "bm_get (ds_unique_goods (build (demo_inputs
      [\<lparr>ri_index = 0, ri_name = ''A'', ri_semantics = KeyItem 8000 [400001]\<rparr>,
       \<lparr>ri_index = 1, ri_name = ''B'', ri_semantics = KeyItem 8000 [400002]\<rparr>]))) 8000 = Some [400002] \<and>
   bm_get (ds_unique_goods (build (demo_inputs
      [\<lparr>ri_index = 1, ri_name = ''B'', ri_semantics = KeyItem 8000 [400002]\<rparr>,
       \<lparr>ri_index = 0, ri_name = ''A'', ri_semantics = KeyItem 8000 [400001]\<rparr>]))) 8000 = Some [400001]"
  by code_simp

end
