(* ===== verification/ReconTick.thy ===== *)
theory ReconTick
  imports ReconDesired
begin

text \<open>
  \<open>crates/er-logic/src/reconcile.rs\<close>, second half: the diff, the stability gate, the game
  seam and the reconciler's state and operations. The trait \<open>GameIo\<close> is a record of
  operations over an abstract game state \<open>'g\<close>; an operation that writes returns whether the
  game accepted it and the new game state. The locals of the two apply passes of \<open>tick\<close>
  are the record \<open>pass_state\<close>.
\<close>

section \<open>Observed state and diff\<close>

record observed_state =
  os_flags :: "(flag_id, bool) btree_map"
  os_unique_goods :: "goods_id btree_set"
  os_unique_protectors :: "goods_id btree_set"
  os_applied_watermark :: item_index

datatype action =
    SetFlag flag_id
  | ClearFlag flag_id
  | GrantUnique goods_id "flag_id list"
  | GrantUniqueProtector goods_id
  | GrantLedgered item_index goods_id int
  | SkipLedgered item_index

fun action_label :: "action \<Rightarrow> string" where
  "action_label (SetFlag f) = ''SetFlag '' @ show_nat f"
| "action_label (ClearFlag f) = ''ClearFlag '' @ show_nat f"
| "action_label (GrantUnique g _) = ''GrantUnique '' @ show_hex0x (as_u32 g)"
| "action_label (GrantUniqueProtector p) = ''GrantProtector '' @ show_hex0x (as_u32 p)"
| "action_label (GrantLedgered i g q) =
     ''Ledger#'' @ show_int i @ '' '' @ show_hex0x (as_u32 g) @ '' x'' @ show_int q"
| "action_label (SkipLedgered i) = ''Skip#'' @ show_int i"

definition action_labels :: "action list \<Rightarrow> nat \<Rightarrow> string" where
  "action_labels actions cap =
     (if actions = [] then ''-''
      else (let shown = map action_label (take cap actions);
                extra = length actions - cap
            in if extra > 0 then str_join '', '' shown @ '' +'' @ show_nat extra @ '' more''
               else str_join '', '' shown))"

definition flag_actions :: "desired_state \<Rightarrow> observed_state \<Rightarrow> flag_id \<times> bool \<Rightarrow> action list" where
  "flag_actions desired observed e =
     (let (f, want) = e;
          have' = (case bm_get (os_flags observed) f of None \<Rightarrow> False | Some b \<Rightarrow> b)
      in if want \<and> \<not> have' then [SetFlag f]
         else if \<not> want \<and> have' \<and> bs_member (ds_owned_flags desired) f then [ClearFlag f]
         else [])"

definition ledger_action :: "ledgered_grant \<Rightarrow> action" where
  "ledger_action l =
     (if lg_apply l then GrantLedgered (lg_index l) (lg_full_id l) (lg_qty l)
      else SkipLedgered (lg_index l))"

definition diff :: "desired_state \<Rightarrow> observed_state \<Rightarrow> action list" where
  "diff desired observed =
     concat (map (flag_actions desired observed) (entries (ds_flags desired)))
     @ map (\<lambda>(g, companions). GrantUnique g companions)
         (filter (\<lambda>(g, _). \<not> bs_member (os_unique_goods observed) g)
           (entries (ds_unique_goods desired)))
     @ map GrantUniqueProtector
         (filter (\<lambda>p. \<not> bs_member (os_unique_protectors observed) p)
           (bs_list (ds_unique_protectors desired)))
     @ map ledger_action
         (filter (\<lambda>l. lg_index l \<ge> os_applied_watermark observed) (ds_ledgered desired))"

section \<open>Stability gate\<close>

record world_stability =
  in_game :: bool
  player_valid :: bool
  inventory_safe :: bool
  dwell_ms :: nat
  real_pickup_seen :: bool
  now_ms :: nat
  world_epoch :: nat

definition SETTLE_MS :: nat where "SETTLE_MS = 8000"

definition stable :: "world_stability \<Rightarrow> bool" where
  "stable s \<longleftrightarrow> in_game s \<and> player_valid s \<and> inventory_safe s \<and>
     (real_pickup_seen s \<or> dwell_ms s \<ge> SETTLE_MS)"

definition flags_ready :: "world_stability \<Rightarrow> bool" where
  "flags_ready s \<longleftrightarrow> in_game s \<and> player_valid s"

section \<open>The game seam\<close>

record 'g game_io =
  io_stability :: "'g \<Rightarrow> world_stability"
  io_get_flag :: "'g \<Rightarrow> flag_id \<Rightarrow> bool"
  io_set_flag :: "flag_id \<Rightarrow> bool \<Rightarrow> 'g \<Rightarrow> bool \<times> 'g"
  io_has_good :: "'g \<Rightarrow> goods_id \<Rightarrow> bool"
  io_grant_good :: "goods_id \<Rightarrow> flag_id list \<Rightarrow> 'g \<Rightarrow> bool \<times> 'g"
  io_has_protector :: "'g \<Rightarrow> goods_id \<Rightarrow> bool"
  io_grant_protector :: "goods_id \<Rightarrow> 'g \<Rightarrow> bool \<times> 'g"
  io_grant_ledgered :: "goods_id \<Rightarrow> int \<Rightarrow> 'g \<Rightarrow> bool \<times> 'g"

section \<open>Classes, budget, outcome\<close>

record apply_classes =
  ac_flags :: bool
  ac_goods :: bool
  ac_ledger :: bool

definition ALL_CLASSES :: apply_classes where
  "ALL_CLASSES = \<lparr>ac_flags = True, ac_goods = True, ac_ledger = True\<rparr>"

definition NO_CLASSES :: apply_classes where
  "NO_CLASSES = \<lparr>ac_flags = False, ac_goods = False, ac_ledger = False\<rparr>"

fun allows :: "apply_classes \<Rightarrow> action \<Rightarrow> bool" where
  "allows c (SetFlag _) = ac_flags c"
| "allows c (ClearFlag _) = ac_flags c"
| "allows c (GrantUnique _ _) = ac_goods c"
| "allows c (GrantUniqueProtector _) = ac_goods c"
| "allows c (GrantLedgered _ _ _) = ac_ledger c"
| "allows c (SkipLedgered _) = ac_ledger c"

record tick_budget =
  tb_goods :: nat
  tb_flags :: nat
  tb_min_grant_interval_ms :: nat

definition default_budget :: tick_budget where
  "default_budget = \<lparr>tb_goods = 4, tb_flags = 32, tb_min_grant_interval_ms = 0\<rparr>"

record tick_outcome =
  to_applied :: "action list"
  to_skipped_unstable :: bool
  to_converged :: bool
  to_newly_stalled :: "goods_id list"
  to_newly_stalled_protectors :: "goods_id list"
  to_observed_unique_goods :: "goods_id list"
  to_observed_unique_protectors :: "goods_id list"
  to_newly_stalled_flags :: "flag_id list"

section \<open>The reconciler\<close>

record reconciler =
  rc_inputs :: desired_inputs
  rc_desired :: desired_state
  rc_session_seed :: string
  rc_applied_watermark :: item_index
  rc_durable_unique_goods :: "goods_id btree_set"
  rc_durable_unique_protectors :: "goods_id btree_set"
  rc_last_grant_ms :: "nat option"
  rc_grant_attempts :: "(goods_id, nat) btree_map"
  rc_stalled_goods :: "goods_id btree_set"
  rc_flag_attempts :: "(flag_id, nat) btree_map"
  rc_stalled_flags :: "flag_id btree_set"
  rc_armed_epoch :: "nat option"

definition MAX_GRANT_ATTEMPTS :: nat where "MAX_GRANT_ATTEMPTS = 3"
definition MAX_FLAG_ATTEMPTS :: nat where "MAX_FLAG_ATTEMPTS = 3"

definition from_persisted :: "desired_inputs \<Rightarrow> item_index \<Rightarrow> reconciler" where
  "from_persisted inputs watermark =
     \<lparr>rc_inputs = inputs, rc_desired = build inputs, rc_session_seed = di_seed inputs,
      rc_applied_watermark = watermark,
      rc_durable_unique_goods = bs_empty, rc_durable_unique_protectors = bs_empty,
      rc_last_grant_ms = None,
      rc_grant_attempts = bm_empty, rc_stalled_goods = bs_empty,
      rc_flag_attempts = bm_empty, rc_stalled_flags = bs_empty, rc_armed_epoch = None\<rparr>"

definition new_reconciler :: "desired_inputs \<Rightarrow> reconciler" where
  "new_reconciler inputs =
     \<lparr>rc_inputs = inputs, rc_desired = build inputs, rc_session_seed = di_seed inputs,
      rc_applied_watermark = ledger_floor (build inputs),
      rc_durable_unique_goods = bs_empty, rc_durable_unique_protectors = bs_empty,
      rc_last_grant_ms = None,
      rc_grant_attempts = bm_empty, rc_stalled_goods = bs_empty,
      rc_flag_attempts = bm_empty, rc_stalled_flags = bs_empty, rc_armed_epoch = None\<rparr>"

definition seeded :: "desired_inputs \<Rightarrow> item_index option \<Rightarrow> item_index \<Rightarrow> bool \<Rightarrow> reconciler" where
  "seeded inputs persisted received_through fresh_character =
     (if fresh_character then new_reconciler inputs
      else (case Option.bind persisted (\<lambda>wm. if wm \<le> received_through then Some wm else None) of
              Some wm \<Rightarrow> from_persisted inputs wm
            | None \<Rightarrow> if received_through > 0 then from_persisted inputs received_through
                      else new_reconciler inputs))"

definition start_item_ledger_drained :: "reconciler \<Rightarrow> bool" where
  "start_item_ledger_drained r \<longleftrightarrow>
     rc_applied_watermark r \<ge>
       START_ITEM_INDEX_BASE + int (length (start_items (di_slot_data (rc_inputs r))))"

text \<open>\<open>crates/er-logic/src/seed_change.rs\<close>.\<close>

definition is_seed_change :: "string option \<Rightarrow> string \<Rightarrow> bool" where
  "is_seed_change parsed room \<longleftrightarrow>
     room \<noteq> [] \<and> (case parsed of None \<Rightarrow> False | Some p \<Rightarrow> p \<noteq> room)"

definition set_inputs :: "desired_inputs \<Rightarrow> reconciler \<Rightarrow> reconciler" where
  "set_inputs inputs r =
     (if inputs = rc_inputs r then r
      else (let desired = build inputs;
                r' = (if is_seed_change (Some (rc_session_seed r)) (di_seed inputs)
                      then r\<lparr>rc_applied_watermark := ledger_floor desired,
                             rc_durable_unique_goods := bs_empty,
                             rc_durable_unique_protectors := bs_empty,
                             rc_desired := desired\<rparr>
                      else r\<lparr>rc_desired :=
                               (let d = fold or_want_good (bs_list (rc_durable_unique_goods r)) desired
                                in d\<lparr>ds_unique_protectors :=
                                       bs_extend (bs_list (rc_durable_unique_protectors r))
                                         (ds_unique_protectors d)\<rparr>)\<rparr>)
            in r'\<lparr>rc_session_seed := di_seed inputs, rc_inputs := inputs\<rparr>))"

definition snapshot :: "'g game_io \<Rightarrow> reconciler \<Rightarrow> 'g \<Rightarrow> bool \<Rightarrow> observed_state" where
  "snapshot io r g read_goods =
     \<lparr>os_flags = fold (\<lambda>f. bm_insert f (io_get_flag io g f)) (bm_keys (ds_flags (rc_desired r))) bm_empty,
      os_unique_goods =
        (if read_goods
         then bs_extend (filter (io_has_good io g) (bm_keys (ds_unique_goods (rc_desired r)))) bs_empty
         else bs_empty),
      os_unique_protectors =
        (if read_goods
         then bs_extend (filter (io_has_protector io g) (bs_list (ds_unique_protectors (rc_desired r)))) bs_empty
         else bs_empty),
      os_applied_watermark = rc_applied_watermark r\<rparr>"

definition dry_run_actions :: "'g game_io \<Rightarrow> reconciler \<Rightarrow> 'g \<Rightarrow> action list" where
  "dry_run_actions io r g =
     (if \<not> stable (io_stability io g) then [] else diff (rc_desired r) (snapshot io r g True))"

definition restore_unique_debt :: "goods_id list \<Rightarrow> goods_id list \<Rightarrow> reconciler \<Rightarrow> reconciler" where
  "restore_unique_debt goods protectors r =
     (let r1 = fold (\<lambda>g r. r\<lparr>rc_durable_unique_goods := bs_insert g (rc_durable_unique_goods r),
                              rc_desired := or_want_good g (rc_desired r)\<rparr>) goods r
      in fold (\<lambda>p r. r\<lparr>rc_durable_unique_protectors := bs_insert p (rc_durable_unique_protectors r),
                       rc_desired := (rc_desired r)\<lparr>ds_unique_protectors :=
                          bs_insert p (ds_unique_protectors (rc_desired r))\<rparr>\<rparr>) protectors r1)"

definition rearm_grant_stalls :: "reconciler \<Rightarrow> reconciler" where
  "rearm_grant_stalls r = r\<lparr>rc_grant_attempts := bm_empty, rc_stalled_goods := bs_empty,
                           rc_flag_attempts := bm_empty, rc_stalled_flags := bs_empty\<rparr>"

definition rearm_on_world_edge :: "nat \<Rightarrow> reconciler \<Rightarrow> bool \<times> reconciler" where
  "rearm_on_world_edge epoch r =
     (if rc_armed_epoch r = Some epoch then (False, r)
      else (True, rearm_grant_stalls (r\<lparr>rc_armed_epoch := Some epoch\<rparr>)))"

section \<open>One tick\<close>

text \<open>What was observed is forgotten by the stall guard: a held good, a flag at its desired value.\<close>

definition forget_goods :: "goods_id list \<Rightarrow> reconciler \<Rightarrow> reconciler" where
  "forget_goods gs r = fold (\<lambda>g r. r\<lparr>rc_grant_attempts := bm_remove g (rc_grant_attempts r),
      rc_stalled_goods := bs_remove g (rc_stalled_goods r),
      rc_durable_unique_goods := bs_remove g (rc_durable_unique_goods r)\<rparr>) gs r"

definition forget_protectors :: "goods_id list \<Rightarrow> reconciler \<Rightarrow> reconciler" where
  "forget_protectors ps r = fold (\<lambda>p r. r\<lparr>rc_grant_attempts := bm_remove p (rc_grant_attempts r),
      rc_stalled_goods := bs_remove p (rc_stalled_goods r),
      rc_durable_unique_protectors := bs_remove p (rc_durable_unique_protectors r)\<rparr>) ps r"

definition forget_flags :: "(flag_id \<times> bool) list \<Rightarrow> reconciler \<Rightarrow> reconciler" where
  "forget_flags es r = fold (\<lambda>(f, have') r.
      if bm_get (ds_flags (rc_desired r)) f = Some have'
      then r\<lparr>rc_flag_attempts := bm_remove f (rc_flag_attempts r),
             rc_stalled_flags := bs_remove f (rc_stalled_flags r)\<rparr>
      else r) es r"

fun parked :: "reconciler \<Rightarrow> action \<Rightarrow> bool" where
  "parked r (GrantUnique g _) = bs_member (rc_stalled_goods r) g"
| "parked r (GrantUniqueProtector p) = bs_member (rc_stalled_goods r) p"
| "parked r (SetFlag f) = bs_member (rc_stalled_flags r) f"
| "parked r (ClearFlag f) = bs_member (rc_stalled_flags r) f"
| "parked r _ = False"

text \<open>Backpressure and read-back: an accepted write that is not observed is an attempt.\<close>

definition score_flag :: "bool \<Rightarrow> flag_id \<Rightarrow> reconciler \<Rightarrow> reconciler \<times> bool" where
  "score_flag landed f r =
     (if landed then (r\<lparr>rc_flag_attempts := bm_remove f (rc_flag_attempts r)\<rparr>, False)
      else (let n = (case bm_get (rc_flag_attempts r) f of None \<Rightarrow> 0 | Some k \<Rightarrow> k) + 1;
                r' = r\<lparr>rc_flag_attempts := bm_insert f n (rc_flag_attempts r)\<rparr>
            in if n \<ge> MAX_FLAG_ATTEMPTS
               then (r'\<lparr>rc_stalled_flags := bs_insert f (rc_stalled_flags r')\<rparr>, True)
               else (r', False)))"

definition score_good :: "bool \<Rightarrow> goods_id \<Rightarrow> reconciler \<Rightarrow> reconciler \<times> bool" where
  "score_good landed g r =
     (if landed then (r\<lparr>rc_grant_attempts := bm_remove g (rc_grant_attempts r)\<rparr>, False)
      else (let n = (case bm_get (rc_grant_attempts r) g of None \<Rightarrow> 0 | Some k \<Rightarrow> k) + 1;
                r' = r\<lparr>rc_grant_attempts := bm_insert g n (rc_grant_attempts r)\<rparr>
            in if n \<ge> MAX_GRANT_ATTEMPTS
               then (r'\<lparr>rc_stalled_goods := bs_insert g (rc_stalled_goods r')\<rparr>, True)
               else (r', False)))"

record 'g pass_state =
  ps_rec :: reconciler
  ps_game :: 'g
  ps_applied :: "action list"
  ps_flags_used :: nat
  ps_goods_used :: nat
  ps_deferred :: bool
  ps_granted :: bool
  ps_new_goods :: "goods_id list"
  ps_new_protectors :: "goods_id list"
  ps_new_flags :: "flag_id list"

text \<open>The \<open>SetFlag\<close> and \<open>ClearFlag\<close> branches, which differ in the written value only.\<close>

definition apply_flag ::
  "'g game_io \<Rightarrow> tick_budget \<Rightarrow> action \<Rightarrow> flag_id \<Rightarrow> bool \<Rightarrow> 'g pass_state \<Rightarrow> 'g pass_state" where
  "apply_flag io budget a f on ps =
     (if ps_flags_used ps \<ge> tb_flags budget then ps\<lparr>ps_deferred := True\<rparr>
      else (let (ok, g) = io_set_flag io f on (ps_game ps)
            in if ok
               then (let (r, stalled) = score_flag (io_get_flag io g f = on) f (ps_rec ps)
                     in ps\<lparr>ps_rec := r, ps_game := g, ps_applied := ps_applied ps @ [a],
                           ps_flags_used := ps_flags_used ps + 1,
                           ps_new_flags := ps_new_flags ps @ (if stalled then [f] else [])\<rparr>)
               else ps\<lparr>ps_game := g, ps_deferred := True\<rparr>))"

definition apply_grant_unique ::
  "'g game_io \<Rightarrow> tick_budget \<Rightarrow> bool \<Rightarrow> goods_id \<Rightarrow> flag_id list \<Rightarrow> 'g pass_state \<Rightarrow> 'g pass_state" where
  "apply_grant_unique io budget grants_allowed gd companions ps =
     (if \<not> grants_allowed then ps\<lparr>ps_deferred := True\<rparr>
      else if ps_goods_used ps \<ge> tb_goods budget then ps\<lparr>ps_deferred := True\<rparr>
      else (let (ok, g) = io_grant_good io gd companions (ps_game ps)
            in if ok
               then (let (r, stalled) = score_good (io_has_good io g gd) gd (ps_rec ps)
                     in ps\<lparr>ps_rec := r, ps_game := g,
                           ps_applied := ps_applied ps @ [GrantUnique gd companions],
                           ps_goods_used := ps_goods_used ps + 1, ps_granted := True,
                           ps_new_goods := ps_new_goods ps @ (if stalled then [gd] else [])\<rparr>)
               else ps\<lparr>ps_game := g, ps_deferred := True\<rparr>))"

definition apply_grant_protector ::
  "'g game_io \<Rightarrow> tick_budget \<Rightarrow> bool \<Rightarrow> goods_id \<Rightarrow> 'g pass_state \<Rightarrow> 'g pass_state" where
  "apply_grant_protector io budget grants_allowed p ps =
     (if \<not> grants_allowed \<or> ps_goods_used ps \<ge> tb_goods budget then ps\<lparr>ps_deferred := True\<rparr>
      else (let (ok, g) = io_grant_protector io p (ps_game ps)
            in if ok
               then (let (r, stalled) = score_good (io_has_protector io g p) p (ps_rec ps)
                     in ps\<lparr>ps_rec := r, ps_game := g,
                           ps_applied := ps_applied ps @ [GrantUniqueProtector p],
                           ps_goods_used := ps_goods_used ps + 1, ps_granted := True,
                           ps_new_goods := ps_new_goods ps @ (if stalled then [p] else []),
                           ps_new_protectors := ps_new_protectors ps @ (if stalled then [p] else [])\<rparr>)
               else ps\<lparr>ps_game := g, ps_deferred := True\<rparr>))"

fun pass1_step ::
  "'g game_io \<Rightarrow> tick_budget \<Rightarrow> bool \<Rightarrow> action \<Rightarrow> 'g pass_state \<Rightarrow> 'g pass_state" where
  "pass1_step io b ga (SetFlag f) ps = apply_flag io b (SetFlag f) f True ps"
| "pass1_step io b ga (ClearFlag f) ps = apply_flag io b (ClearFlag f) f False ps"
| "pass1_step io b ga (GrantUnique g c) ps = apply_grant_unique io b ga g c ps"
| "pass1_step io b ga (GrantUniqueProtector p) ps = apply_grant_protector io b ga p ps"
| "pass1_step io b ga (GrantLedgered _ _ _) ps = ps"
| "pass1_step io b ga (SkipLedgered _) ps = ps"

definition pass1 ::
  "'g game_io \<Rightarrow> tick_budget \<Rightarrow> bool \<Rightarrow> action list \<Rightarrow> 'g pass_state \<Rightarrow> 'g pass_state" where
  "pass1 io b ga actions ps = fold (pass1_step io b ga) actions ps"

text \<open>Pass 2 stops (\<open>break\<close>) at the first ledger grant it cannot place.\<close>

fun pass2 ::
  "'g game_io \<Rightarrow> tick_budget \<Rightarrow> bool \<Rightarrow> action list \<Rightarrow> 'g pass_state \<Rightarrow> 'g pass_state" where
  "pass2 io b ga [] ps = ps"
| "pass2 io b ga (GrantLedgered i gd q # as) ps =
     (if \<not> ga then ps\<lparr>ps_deferred := True\<rparr>
      else if ps_goods_used ps \<ge> tb_goods b then ps\<lparr>ps_deferred := True\<rparr>
      else (let (ok, g) = io_grant_ledgered io gd q (ps_game ps)
            in if ok
               then pass2 io b ga as
                      (ps\<lparr>ps_game := g, ps_goods_used := ps_goods_used ps + 1, ps_granted := True,
                         ps_rec := (ps_rec ps)\<lparr>rc_applied_watermark := i + 1\<rparr>,
                         ps_applied := ps_applied ps @ [GrantLedgered i gd q]\<rparr>)
               else ps\<lparr>ps_game := g, ps_deferred := True\<rparr>))"
| "pass2 io b ga (SkipLedgered i # as) ps =
     pass2 io b ga as (ps\<lparr>ps_rec := (ps_rec ps)\<lparr>rc_applied_watermark := i + 1\<rparr>,
                          ps_applied := ps_applied ps @ [SkipLedgered i]\<rparr>)"
| "pass2 io b ga (_ # as) ps = pass2 io b ga as ps"

definition unstable_outcome :: tick_outcome where
  "unstable_outcome = \<lparr>to_applied = [], to_skipped_unstable = True, to_converged = False,
     to_newly_stalled = [], to_newly_stalled_protectors = [], to_observed_unique_goods = [],
     to_observed_unique_protectors = [], to_newly_stalled_flags = []\<rparr>"

definition grants_allowed :: "tick_budget \<Rightarrow> reconciler \<Rightarrow> nat \<Rightarrow> bool" where
  "grants_allowed budget r now \<longleftrightarrow>
     tb_min_grant_interval_ms budget = 0 \<or>
     (case rc_last_grant_ms r of None \<Rightarrow> True
      | Some t \<Rightarrow> now - t \<ge> tb_min_grant_interval_ms budget)"

text \<open>The classes of this tick, what it observes, and the reconciler after the forgetting.\<close>

definition tick_classes :: "apply_classes \<Rightarrow> world_stability \<Rightarrow> apply_classes" where
  "tick_classes classes stab =
     (if stable stab then classes
      else \<lparr>ac_flags = ac_flags classes, ac_goods = False, ac_ledger = False\<rparr>)"

definition observe :: "observed_state \<Rightarrow> reconciler \<Rightarrow> reconciler" where
  "observe observed r =
     forget_flags (entries (os_flags observed))
       (forget_protectors (bs_list (os_unique_protectors observed))
         (forget_goods (bs_list (os_unique_goods observed)) r))"

definition plan :: "apply_classes \<Rightarrow> observed_state \<Rightarrow> reconciler \<Rightarrow> action list" where
  "plan classes observed r =
     filter (\<lambda>a. allows classes a \<and> \<not> parked r a) (diff (rc_desired r) observed)"

definition start_pass :: "reconciler \<Rightarrow> 'g \<Rightarrow> 'g pass_state" where
  "start_pass r g = \<lparr>ps_rec = r, ps_game = g, ps_applied = [], ps_flags_used = 0, ps_goods_used = 0,
     ps_deferred = False, ps_granted = False, ps_new_goods = [], ps_new_protectors = [],
     ps_new_flags = []\<rparr>"

definition apply_plan ::
  "'g game_io \<Rightarrow> tick_budget \<Rightarrow> nat \<Rightarrow> action list \<Rightarrow> reconciler \<Rightarrow> 'g \<Rightarrow> 'g pass_state" where
  "apply_plan io budget now actions r g =
     (let ga = grants_allowed budget r now;
          ps = pass2 io budget ga actions (pass1 io budget ga actions (start_pass r g))
      in if ps_granted ps then ps\<lparr>ps_rec := (ps_rec ps)\<lparr>rc_last_grant_ms := Some now\<rparr>\<rparr> else ps)"

text \<open>
  The first half of \<open>tick_with_classes\<close>: re-arm on a world edge, snapshot (the inventory only
  once settled), forget what was observed, and plan.
\<close>

definition rearmed :: "'g game_io \<Rightarrow> reconciler \<Rightarrow> 'g \<Rightarrow> reconciler" where
  "rearmed io r g = snd (rearm_on_world_edge (world_epoch (io_stability io g)) r)"

definition tick_observed :: "'g game_io \<Rightarrow> reconciler \<Rightarrow> 'g \<Rightarrow> observed_state" where
  "tick_observed io r g = snapshot io (rearmed io r g) g (stable (io_stability io g))"

definition tick_rec :: "'g game_io \<Rightarrow> reconciler \<Rightarrow> 'g \<Rightarrow> reconciler" where
  "tick_rec io r g = observe (tick_observed io r g) (rearmed io r g)"

definition tick_plan :: "'g game_io \<Rightarrow> apply_classes \<Rightarrow> reconciler \<Rightarrow> 'g \<Rightarrow> action list" where
  "tick_plan io classes r g =
     plan (tick_classes classes (io_stability io g)) (tick_observed io r g) (tick_rec io r g)"

definition outcome_of ::
  "'g game_io \<Rightarrow> reconciler \<Rightarrow> 'g \<Rightarrow> 'g pass_state \<Rightarrow> bool \<Rightarrow> tick_outcome" where
  "outcome_of io r g ps converged =
     \<lparr>to_applied = ps_applied ps, to_skipped_unstable = False, to_converged = converged,
      to_newly_stalled = ps_new_goods ps, to_newly_stalled_protectors = ps_new_protectors ps,
      to_observed_unique_goods = bs_list (os_unique_goods (tick_observed io r g)),
      to_observed_unique_protectors = bs_list (os_unique_protectors (tick_observed io r g)),
      to_newly_stalled_flags = ps_new_flags ps\<rparr>"

definition tick_with_classes ::
  "'g game_io \<Rightarrow> tick_budget \<Rightarrow> apply_classes \<Rightarrow> reconciler \<Rightarrow> 'g \<Rightarrow> tick_outcome \<times> reconciler \<times> 'g" where
  "tick_with_classes io budget classes r g =
     (if \<not> flags_ready (io_stability io g) then (unstable_outcome, rearmed io r g, g)
      else (let actions = tick_plan io classes r g
            in if actions = []
               then (outcome_of io r g (start_pass (tick_rec io r g) g) (stable (io_stability io g)),
                     tick_rec io r g, g)
               else (let ps = apply_plan io budget (now_ms (io_stability io g)) actions
                                (tick_rec io r g) g
                     in (outcome_of io r g ps
                           (\<not> ps_deferred ps \<and> length (ps_applied ps) = length actions),
                         ps_rec ps, ps_game ps))))"

definition tick :: "'g game_io \<Rightarrow> tick_budget \<Rightarrow> reconciler \<Rightarrow> 'g \<Rightarrow> tick_outcome \<times> reconciler \<times> 'g" where
  "tick io budget r g = tick_with_classes io budget ALL_CLASSES r g"

text \<open>The loop runs at most \<open>max_ticks\<close> times; the bound is the code's own argument.\<close>

fun run_to_fixpoint ::
  "'g game_io \<Rightarrow> tick_budget \<Rightarrow> nat \<Rightarrow> reconciler \<Rightarrow> 'g \<Rightarrow> nat \<times> reconciler \<times> 'g" where
  "run_to_fixpoint io budget 0 r g = (0, r, g)"
| "run_to_fixpoint io budget (Suc n) r g =
     (let (out, r', g') = tick io budget r g
      in if to_converged out then (1, r', g')
         else (let (k, r'', g'') = run_to_fixpoint io budget n r' g' in (Suc k, r'', g'')))"

end
