(* ===== verification/ReconMock.thy ===== *)
theory ReconMock
  imports ReconTick
begin

text \<open>
  The in-memory \<open>MockGame\<close> of \<open>crates/er-logic/src/reconcile.rs\<close> and its
  implementation of the game seam. It is the instance every interface of the reconciler proofs is
  interpreted on; the live Windows implementation is not part of the pure crate.
\<close>

record mock_game =
  mg_flags :: "(flag_id, bool) btree_map"
  mg_goods :: "goods_id btree_set"
  mg_protectors :: "goods_id btree_set"
  mg_ledger_log :: "(goods_id \<times> int) list"
  mg_flag_ready :: bool
  mg_inventory_ready :: bool
  mg_refuse_unique_adds :: bool
  mg_unique_grant_calls :: "goods_id list"
  mg_hidden_goods :: "goods_id btree_set"
  mg_walk_by_capacity :: bool
  mg_discard_flag_writes :: bool
  mg_flag_set_calls :: "(flag_id \<times> bool) list"
  mg_stability :: world_stability

definition mock_default :: mock_game where
  "mock_default = \<lparr>mg_flags = bm_empty, mg_goods = bs_empty, mg_protectors = bs_empty,
     mg_ledger_log = [], mg_flag_ready = True, mg_inventory_ready = True,
     mg_refuse_unique_adds = False, mg_unique_grant_calls = [], mg_hidden_goods = bs_empty,
     mg_walk_by_capacity = True, mg_discard_flag_writes = False, mg_flag_set_calls = [],
     mg_stability = \<lparr>in_game = True, player_valid = True, inventory_safe = True,
       dwell_ms = SETTLE_MS, real_pickup_seen = True, now_ms = 0, world_epoch = 0\<rparr>\<rparr>"

definition mock_loading :: mock_game where
  "mock_loading = mock_default\<lparr>mg_stability := \<lparr>in_game = False, player_valid = False,
     inventory_safe = False, dwell_ms = 0, real_pickup_seen = False, now_ms = 0, world_epoch = 0\<rparr>\<rparr>"

definition mock_in_world_presettle :: mock_game where
  "mock_in_world_presettle = mock_default\<lparr>mg_stability := \<lparr>in_game = True, player_valid = True,
     inventory_safe = True, dwell_ms = 0, real_pickup_seen = False, now_ms = 0, world_epoch = 0\<rparr>\<rparr>"

definition set_stable :: "bool \<Rightarrow> mock_game \<Rightarrow> mock_game" where
  "set_stable v m =
     (let s = mg_stability m;
          epoch = (if in_game s \<noteq> v then world_epoch s + 1 else world_epoch s)
      in m\<lparr>mg_stability :=
             (if v then \<lparr>in_game = True, player_valid = True, inventory_safe = True,
                         dwell_ms = SETTLE_MS, real_pickup_seen = True, now_ms = now_ms s,
                         world_epoch = epoch\<rparr>
              else \<lparr>in_game = False, player_valid = False, inventory_safe = False,
                    dwell_ms = 0, real_pickup_seen = False, now_ms = now_ms s,
                    world_epoch = epoch\<rparr>)\<rparr>)"

definition set_inventory_safe :: "bool \<Rightarrow> mock_game \<Rightarrow> mock_game" where
  "set_inventory_safe v m = m\<lparr>mg_stability := (mg_stability m)\<lparr>inventory_safe := v\<rparr>\<rparr>"

definition set_settled :: "bool \<Rightarrow> mock_game \<Rightarrow> mock_game" where
  "set_settled v m = m\<lparr>mg_stability :=
     (if v then (mg_stability m)\<lparr>dwell_ms := SETTLE_MS, real_pickup_seen := True\<rparr>
      else (mg_stability m)\<lparr>dwell_ms := 0, real_pickup_seen := False\<rparr>)\<rparr>"

definition bump_world_epoch :: "mock_game \<Rightarrow> mock_game" where
  "bump_world_epoch m =
     m\<lparr>mg_stability := (mg_stability m)\<lparr>world_epoch := world_epoch (mg_stability m) + 1\<rparr>\<rparr>"

text \<open>\<open>saturating_add\<close> on \<open>u64\<close>.\<close>

definition advance_ms :: "nat \<Rightarrow> mock_game \<Rightarrow> mock_game" where
  "advance_ms dt m =
     m\<lparr>mg_stability := (mg_stability m)\<lparr>now_ms := min (2 ^ 64 - 1) (now_ms (mg_stability m) + dt)\<rparr>\<rparr>"

definition ledger_count :: "goods_id \<Rightarrow> mock_game \<Rightarrow> nat" where
  "ledger_count full_id m = length (filter (\<lambda>e. fst e = full_id) (mg_ledger_log m))"

definition drop_good :: "goods_id \<Rightarrow> mock_game \<Rightarrow> mock_game" where
  "drop_good g m = m\<lparr>mg_goods := bs_remove g (mg_goods m)\<rparr>"

definition hide_good :: "goods_id \<Rightarrow> mock_game \<Rightarrow> mock_game" where
  "hide_good g m =
     (if bs_member (mg_goods m) g
      then m\<lparr>mg_goods := bs_remove g (mg_goods m), mg_hidden_goods := bs_insert g (mg_hidden_goods m)\<rparr>
      else m)"

definition reveal_good :: "goods_id \<Rightarrow> mock_game \<Rightarrow> mock_game" where
  "reveal_good g m =
     (if bs_member (mg_hidden_goods m) g
      then m\<lparr>mg_hidden_goods := bs_remove g (mg_hidden_goods m), mg_goods := bs_insert g (mg_goods m)\<rparr>
      else m)"

definition game_holds :: "goods_id \<Rightarrow> mock_game \<Rightarrow> bool" where
  "game_holds g m \<longleftrightarrow> bs_member (mg_goods m) g \<or> bs_member (mg_hidden_goods m) g"

section \<open>The seam\<close>

definition mock_get_flag :: "mock_game \<Rightarrow> flag_id \<Rightarrow> bool" where
  "mock_get_flag m f = (case bm_get (mg_flags m) f of None \<Rightarrow> False | Some b \<Rightarrow> b)"

definition mock_set_flag :: "flag_id \<Rightarrow> bool \<Rightarrow> mock_game \<Rightarrow> bool \<times> mock_game" where
  "mock_set_flag f on m =
     (if \<not> mg_flag_ready m then (False, m)
      else (let m' = m\<lparr>mg_flag_set_calls := mg_flag_set_calls m @ [(f, on)]\<rparr>
            in if mg_discard_flag_writes m then (True, m')
               else (True, m'\<lparr>mg_flags := bm_insert f on (mg_flags m)\<rparr>)))"

definition mock_has_good :: "mock_game \<Rightarrow> goods_id \<Rightarrow> bool" where
  "mock_has_good m g \<longleftrightarrow>
     bs_member (mg_goods m) g \<or> (mg_walk_by_capacity m \<and> bs_member (mg_hidden_goods m) g)"

definition mock_grant_good :: "goods_id \<Rightarrow> flag_id list \<Rightarrow> mock_game \<Rightarrow> bool \<times> mock_game" where
  "mock_grant_good g companions m =
     (if \<not> mg_inventory_ready m then (False, m)
      else (let m' = m\<lparr>mg_unique_grant_calls := mg_unique_grant_calls m @ [g]\<rparr>
            in if mg_refuse_unique_adds m then (True, m')
               else if bs_member (mg_hidden_goods m) g then (True, m')
               else (True, m'\<lparr>mg_goods := bs_insert g (mg_goods m),
                              mg_flags := fold (\<lambda>f. bm_insert f True) companions (mg_flags m)\<rparr>)))"

definition mock_has_protector :: "mock_game \<Rightarrow> goods_id \<Rightarrow> bool" where
  "mock_has_protector m p = bs_member (mg_protectors m) p"

definition mock_grant_protector :: "goods_id \<Rightarrow> mock_game \<Rightarrow> bool \<times> mock_game" where
  "mock_grant_protector p m =
     (if \<not> mg_inventory_ready m then (False, m)
      else (True, m\<lparr>mg_unique_grant_calls := mg_unique_grant_calls m @ [p],
                    mg_protectors := bs_insert p (mg_protectors m)\<rparr>))"

definition mock_grant_ledgered :: "goods_id \<Rightarrow> int \<Rightarrow> mock_game \<Rightarrow> bool \<times> mock_game" where
  "mock_grant_ledgered g q m =
     (if \<not> mg_inventory_ready m then (False, m)
      else (True, m\<lparr>mg_ledger_log := mg_ledger_log m @ [(g, q)]\<rparr>))"

definition mock_io :: "mock_game game_io" where
  "mock_io = \<lparr>io_stability = mg_stability, io_get_flag = mock_get_flag, io_set_flag = mock_set_flag,
     io_has_good = mock_has_good, io_grant_good = mock_grant_good,
     io_has_protector = mock_has_protector, io_grant_protector = mock_grant_protector,
     io_grant_ledgered = mock_grant_ledgered\<rparr>"

lemma mock_io_simps [simp]:
  "io_stability mock_io = mg_stability" "io_get_flag mock_io = mock_get_flag"
  "io_set_flag mock_io = mock_set_flag" "io_has_good mock_io = mock_has_good"
  "io_grant_good mock_io = mock_grant_good" "io_has_protector mock_io = mock_has_protector"
  "io_grant_protector mock_io = mock_grant_protector" "io_grant_ledgered mock_io = mock_grant_ledgered"
  by (simp_all add: mock_io_def)

text \<open>A change of inventory safety or of the settle terms is not a world edge.\<close>

lemma epoch_moves [frame_simps]:
  "world_epoch (mg_stability (set_inventory_safe v m)) = world_epoch (mg_stability m)"
  "world_epoch (mg_stability (set_settled v m)) = world_epoch (mg_stability m)"
  "world_epoch (mg_stability (advance_ms dt m)) = world_epoch (mg_stability m)"
  "world_epoch (mg_stability (bump_world_epoch m)) = Suc (world_epoch (mg_stability m))"
  by (simp_all add: set_inventory_safe_def set_settled_def advance_ms_def bump_world_epoch_def)

end
