(* ===== verification/ReconSafety.thy ===== *)
theory ReconSafety
  imports ReconMock
begin

text \<open>
  What every tick guarantees whatever the game does: the goals behind a diff, the clear-allowlist,
  the instability gate, the ledger watermark protocol and the stall guard.
\<close>

section \<open>The goals behind a diff\<close>

text \<open>Every action the desired state can ever ask for, in the order of \<open>diff\<close>.\<close>

definition flag_goal :: "desired_state \<Rightarrow> flag_id \<times> bool \<Rightarrow> action list" where
  "flag_goal d e =
     (if snd e then [SetFlag (fst e)]
      else if bs_member (ds_owned_flags d) (fst e) then [ClearFlag (fst e)] else [])"

definition goals :: "desired_state \<Rightarrow> action list" where
  "goals d = concat (map (flag_goal d) (entries (ds_flags d)))
     @ map (\<lambda>e. GrantUnique (fst e) (snd e)) (entries (ds_unique_goods d))
     @ map GrantUniqueProtector (bs_list (ds_unique_protectors d))
     @ map ledger_action (ds_ledgered d)"

fun achieved :: "'g game_io \<Rightarrow> 'g \<Rightarrow> item_index \<Rightarrow> action \<Rightarrow> bool" where
  "achieved io g wm (SetFlag f) = io_get_flag io g f"
| "achieved io g wm (ClearFlag f) = (\<not> io_get_flag io g f)"
| "achieved io g wm (GrantUnique gd _) = io_has_good io g gd"
| "achieved io g wm (GrantUniqueProtector p) = io_has_protector io g p"
| "achieved io g wm (GrantLedgered i _ _) = (i < wm)"
| "achieved io g wm (SkipLedgered i) = (i < wm)"

lemma snapshot_flags:
  "bm_get (os_flags (snapshot io r g b)) f =
     (if bm_get (ds_flags (rc_desired r)) f = None then None else Some (io_get_flag io g f))"
proof -
  have "bm_get (fold (\<lambda>f. bm_insert f (io_get_flag io g f)) ks m) f =
        (if f \<in> set ks then Some (io_get_flag io g f) else bm_get m f)" for ks m
    by (induction ks arbitrary: m) auto
  then show ?thesis by (simp add: snapshot_def set_bm_keys)
qed

lemma snapshot_goods:
  "bs_member (os_unique_goods (snapshot io r g b)) x \<longleftrightarrow>
     b \<and> bm_get (ds_unique_goods (rc_desired r)) x \<noteq> None \<and> io_has_good io g x"
  "bs_member (os_unique_protectors (snapshot io r g b)) x \<longleftrightarrow>
     b \<and> bs_member (ds_unique_protectors (rc_desired r)) x \<and> io_has_protector io g x"
  "os_applied_watermark (snapshot io r g b) = rc_applied_watermark r"
  by (auto simp: snapshot_def set_bm_keys bs_set_def)

lemma filter_concat_map: "filter P (concat (map f xs)) = concat (map (\<lambda>x. filter P (f x)) xs)"
  by (induction xs) auto

lemma diff_snapshot:
  "diff (rc_desired r) (snapshot io r g True) =
     filter (\<lambda>a. \<not> achieved io g (rc_applied_watermark r) a) (goals (rc_desired r))"
proof -
  let ?d = "rc_desired r" and ?o = "snapshot io r g True"
  have f: "flag_actions ?d ?o e = filter (\<lambda>a. \<not> achieved io g (rc_applied_watermark r) a) (flag_goal ?d e)"
    if "e \<in> set (entries (ds_flags ?d))" for e
  proof (cases e)
    case (Pair k v)
    with that have "bm_get (ds_flags ?d) k = Some v" by (simp add: entries_iff)
    then show ?thesis
      using Pair by (simp add: flag_actions_def flag_goal_def snapshot_flags)
  qed
  have u: "filter (\<lambda>(x, _). \<not> bs_member (os_unique_goods ?o) x) (entries (ds_unique_goods ?d)) =
      filter (\<lambda>e. \<not> io_has_good io g (fst e)) (entries (ds_unique_goods ?d))"
    by (rule filter_cong) (auto simp: snapshot_goods entries_iff)
  have p: "filter (\<lambda>x. \<not> bs_member (os_unique_protectors ?o) x) (bs_list (ds_unique_protectors ?d)) =
      filter (\<lambda>x. \<not> io_has_protector io g x) (bs_list (ds_unique_protectors ?d))"
    by (rule filter_cong) (auto simp: snapshot_goods bs_set_def)
  have l: "achieved io g wm (ledger_action x) \<longleftrightarrow> lg_index x < wm" for wm x
    by (simp add: ledger_action_def)
  show ?thesis
    unfolding diff_def goals_def u p
    by (simp add: filter_concat_map f filter_map o_def l snapshot_goods not_less case_prod_beta
             cong: map_cong)
qed

section \<open>What a tick applies\<close>

lemma apply_flag_applied:
  "set (ps_applied (apply_flag io b a f on ps)) \<subseteq> insert a (set (ps_applied ps))"
  by (auto simp: apply_flag_def Let_def split: prod.split)

lemma pass1_step_applied:
  "set (ps_applied (pass1_step io b ga a ps)) \<subseteq> insert a (set (ps_applied ps))"
  using apply_flag_applied [of io b]
  by (cases a) (auto simp: apply_grant_unique_def apply_grant_protector_def Let_def split: prod.split)

lemma pass1_applied: "set (ps_applied (pass1 io b ga as ps)) \<subseteq> set as \<union> set (ps_applied ps)"
proof (induction as arbitrary: ps)
  case (Cons a as)
  show ?case
    using Cons [of "pass1_step io b ga a ps"] pass1_step_applied [of io b ga a ps]
    by (auto simp: pass1_def)
qed (simp add: pass1_def)

lemma pass2_applied: "set (ps_applied (pass2 io b ga as ps)) \<subseteq> set as \<union> set (ps_applied ps)"
  by (induction io b ga as ps rule: pass2.induct) (auto simp: Let_def split: prod.split)

lemma apply_plan_applied: "set (ps_applied (apply_plan io b now as r g)) \<subseteq> set as"
proof -
  let ?ga = "grants_allowed b r now"
  have "set (ps_applied (pass1 io b ?ga as (start_pass r g))) \<subseteq> set as"
    using pass1_applied [of io b ?ga as "start_pass r g"] by (simp add: start_pass_def)
  then have "set (ps_applied (pass2 io b ?ga as (pass1 io b ?ga as (start_pass r g)))) \<subseteq> set as"
    using pass2_applied [of io b ?ga as "pass1 io b ?ga as (start_pass r g)"] by blast
  then show ?thesis by (simp add: apply_plan_def Let_def)
qed

text \<open>The operations of a tick before the passes never touch the desired state or the watermark.\<close>

lemma forget_goods_frame [frame_simps]:
  "rc_desired (forget_goods gs r) = rc_desired r"
  "rc_applied_watermark (forget_goods gs r) = rc_applied_watermark r"
  "rc_inputs (forget_goods gs r) = rc_inputs r"
  "rc_armed_epoch (forget_goods gs r) = rc_armed_epoch r"
  "rc_last_grant_ms (forget_goods gs r) = rc_last_grant_ms r"
  "rc_stalled_flags (forget_goods gs r) = rc_stalled_flags r"
  unfolding forget_goods_def by (induction gs arbitrary: r) auto

lemma forget_protectors_frame [frame_simps]:
  "rc_desired (forget_protectors gs r) = rc_desired r"
  "rc_applied_watermark (forget_protectors gs r) = rc_applied_watermark r"
  "rc_inputs (forget_protectors gs r) = rc_inputs r"
  "rc_armed_epoch (forget_protectors gs r) = rc_armed_epoch r"
  "rc_last_grant_ms (forget_protectors gs r) = rc_last_grant_ms r"
  "rc_stalled_flags (forget_protectors gs r) = rc_stalled_flags r"
  unfolding forget_protectors_def by (induction gs arbitrary: r) auto

lemma forget_flags_frame [frame_simps]:
  "rc_desired (forget_flags es r) = rc_desired r"
  "rc_applied_watermark (forget_flags es r) = rc_applied_watermark r"
  "rc_inputs (forget_flags es r) = rc_inputs r"
  "rc_armed_epoch (forget_flags es r) = rc_armed_epoch r"
  "rc_last_grant_ms (forget_flags es r) = rc_last_grant_ms r"
  "rc_stalled_goods (forget_flags es r) = rc_stalled_goods r"
  "rc_grant_attempts (forget_flags es r) = rc_grant_attempts r"
  unfolding forget_flags_def by (induction es arbitrary: r) (auto split: prod.split)

lemma observe_frame [frame_simps]:
  "rc_desired (observe ob r) = rc_desired r"
  "rc_applied_watermark (observe ob r) = rc_applied_watermark r"
  "rc_inputs (observe ob r) = rc_inputs r"
  "rc_armed_epoch (observe ob r) = rc_armed_epoch r"
  "rc_last_grant_ms (observe ob r) = rc_last_grant_ms r"
  by (simp_all add: observe_def frame_simps)

lemma rearm_frame [frame_simps]:
  "rc_desired (snd (rearm_on_world_edge e r)) = rc_desired r"
  "rc_applied_watermark (snd (rearm_on_world_edge e r)) = rc_applied_watermark r"
  "rc_inputs (snd (rearm_on_world_edge e r)) = rc_inputs r"
  "rc_last_grant_ms (snd (rearm_on_world_edge e r)) = rc_last_grant_ms r"
  "rc_armed_epoch (snd (rearm_on_world_edge e r)) = Some e"
  by (simp_all add: rearm_on_world_edge_def rearm_grant_stalls_def)

lemma score_frame [frame_simps]:
  "rc_desired (fst (score_flag l f r)) = rc_desired r"
  "rc_applied_watermark (fst (score_flag l f r)) = rc_applied_watermark r"
  "rc_inputs (fst (score_flag l f r)) = rc_inputs r"
  "rc_armed_epoch (fst (score_flag l f r)) = rc_armed_epoch r"
  "rc_desired (fst (score_good l x r)) = rc_desired r"
  "rc_applied_watermark (fst (score_good l x r)) = rc_applied_watermark r"
  "rc_inputs (fst (score_good l x r)) = rc_inputs r"
  "rc_armed_epoch (fst (score_good l x r)) = rc_armed_epoch r"
  by (simp_all add: score_flag_def score_good_def Let_def)

lemma pass1_step_frame [frame_simps]:
  "rc_desired (ps_rec (pass1_step io b ga a ps)) = rc_desired (ps_rec ps)"
  "rc_applied_watermark (ps_rec (pass1_step io b ga a ps)) = rc_applied_watermark (ps_rec ps)"
  "rc_inputs (ps_rec (pass1_step io b ga a ps)) = rc_inputs (ps_rec ps)"
  "rc_armed_epoch (ps_rec (pass1_step io b ga a ps)) = rc_armed_epoch (ps_rec ps)"
  by (cases a; simp add: apply_flag_def apply_grant_unique_def apply_grant_protector_def Let_def
        case_prod_beta frame_simps)+

lemma pass1_frame [frame_simps]:
  "rc_desired (ps_rec (pass1 io b ga as ps)) = rc_desired (ps_rec ps)"
  "rc_applied_watermark (ps_rec (pass1 io b ga as ps)) = rc_applied_watermark (ps_rec ps)"
  "rc_inputs (ps_rec (pass1 io b ga as ps)) = rc_inputs (ps_rec ps)"
  "rc_armed_epoch (ps_rec (pass1 io b ga as ps)) = rc_armed_epoch (ps_rec ps)"
  unfolding pass1_def by (induction as arbitrary: ps) (simp_all add: frame_simps)

lemma pass2_frame [frame_simps]:
  "rc_desired (ps_rec (pass2 io b ga as ps)) = rc_desired (ps_rec ps)"
  "rc_inputs (ps_rec (pass2 io b ga as ps)) = rc_inputs (ps_rec ps)"
  "rc_armed_epoch (ps_rec (pass2 io b ga as ps)) = rc_armed_epoch (ps_rec ps)"
  by (induction io b ga as ps rule: pass2.induct) (auto simp: Let_def split: prod.split)

lemma apply_plan_frame [frame_simps]:
  "rc_desired (ps_rec (apply_plan io b now as r g)) = rc_desired r"
  "rc_inputs (ps_rec (apply_plan io b now as r g)) = rc_inputs r"
  "rc_armed_epoch (ps_rec (apply_plan io b now as r g)) = rc_armed_epoch r"
  by (simp_all add: apply_plan_def Let_def frame_simps start_pass_def)

lemma rearmed_frame [frame_simps]:
  "rc_desired (rearmed io r g) = rc_desired r"
  "rc_applied_watermark (rearmed io r g) = rc_applied_watermark r"
  "rc_inputs (rearmed io r g) = rc_inputs r"
  "rc_last_grant_ms (rearmed io r g) = rc_last_grant_ms r"
  "rc_armed_epoch (rearmed io r g) = Some (world_epoch (io_stability io g))"
  by (simp_all add: rearmed_def frame_simps)

lemma tick_rec_frame [frame_simps]:
  "rc_desired (tick_rec io r g) = rc_desired r"
  "rc_applied_watermark (tick_rec io r g) = rc_applied_watermark r"
  "rc_inputs (tick_rec io r g) = rc_inputs r"
  "rc_armed_epoch (tick_rec io r g) = Some (world_epoch (io_stability io g))"
  by (simp_all add: tick_rec_def Let_def frame_simps)

lemma tick_cases [consumes 1, case_names unstable idle work]:
  assumes "tick_with_classes io b c r g = (out, r', g')"
  obtains "\<not> flags_ready (io_stability io g)" "out = unstable_outcome"
      "r' = rearmed io r g" "g' = g"
  | "flags_ready (io_stability io g)" "tick_plan io c r g = []" "to_applied out = []"
      "to_converged out = stable (io_stability io g)" "r' = tick_rec io r g" "g' = g"
  | ps where "flags_ready (io_stability io g)" "tick_plan io c r g \<noteq> []"
      "ps = apply_plan io b (now_ms (io_stability io g)) (tick_plan io c r g) (tick_rec io r g) g"
      "to_applied out = ps_applied ps"
      "to_converged out \<longleftrightarrow> \<not> ps_deferred ps \<and> length (ps_applied ps) = length (tick_plan io c r g)"
      "r' = ps_rec ps" "g' = ps_game ps"
proof (cases "flags_ready (io_stability io g)")
  case False
  then have "tick_with_classes io b c r g = (unstable_outcome, rearmed io r g, g)"
    by (simp add: tick_with_classes_def)
  note e = trans [OF assms [symmetric] this]
  from e False show ?thesis by (intro that(1)) blast+
next
  case ready: True
  show ?thesis
  proof (cases "tick_plan io c r g = []")
    case True
    with ready have "tick_with_classes io b c r g =
        (outcome_of io r g (start_pass (tick_rec io r g) g) (stable (io_stability io g)),
         tick_rec io r g, g)"
      by (simp add: tick_with_classes_def)
    note e = trans [OF assms [symmetric] this]
    then have "to_applied out = []" "to_converged out = stable (io_stability io g)"
      by (simp_all add: outcome_of_def start_pass_def)
    with ready True e show ?thesis by (intro that(2)) blast+
  next
    case False
    let ?ps = "apply_plan io b (now_ms (io_stability io g)) (tick_plan io c r g) (tick_rec io r g) g"
    from ready False have "tick_with_classes io b c r g =
        (outcome_of io r g ?ps
           (\<not> ps_deferred ?ps \<and> length (ps_applied ?ps) = length (tick_plan io c r g)),
         ps_rec ?ps, ps_game ?ps)"
      by (simp add: tick_with_classes_def Let_def)
    note e = trans [OF assms [symmetric] this]
    then have "to_applied out = ps_applied ?ps"
      "to_converged out \<longleftrightarrow> \<not> ps_deferred ?ps \<and> length (ps_applied ?ps) = length (tick_plan io c r g)"
      by (simp_all add: outcome_of_def)
    with e show ?thesis by (intro that(3) [OF ready False refl]) blast+
  qed
qed

lemma tick_desired [frame_simps]:
  assumes "tick_with_classes io b c r g = (out, r', g')"
  shows "rc_desired r' = rc_desired r" "rc_inputs r' = rc_inputs r"
  using assms by (cases rule: tick_cases; simp add: frame_simps)+

end
