(* ===== verification/ReconLedger.thy ===== *)
theory ReconLedger
  imports ReconSafety
begin

text \<open>
  Safety of the tick against every game: what it may apply, what instability stops, and the
  watermark protocol of the consumable ledger. The game is any \<open>game_io\<close>; nothing is assumed
  of it. Sessions interleave ticks with arbitrary moves of the game, reconnects and restored debt.
\<close>

section \<open>What may be applied\<close>

lemma mem_concat_entries:
  "a \<in> set (concat (map f (entries m))) \<longleftrightarrow> (\<exists>k v. bm_get m k = Some v \<and> a \<in> set (f (k, v)))"
  using bex_entries [of m "\<lambda>e. a \<in> set (f e)"] by simp

lemma mem_map_entries:
  "a \<in> set (map f (filter P (entries m))) \<longleftrightarrow> (\<exists>k v. bm_get m k = Some v \<and> P (k, v) \<and> a = f (k, v))"
  using bex_entries [of m "\<lambda>e. P e \<and> a = f e"] by auto

lemma mem_goals:
  "a \<in> set (goals d) \<longleftrightarrow>
     (\<exists>f v. bm_get (ds_flags d) f = Some v \<and> a \<in> set (flag_goal d (f, v))) \<or>
     (\<exists>x cs. bm_get (ds_unique_goods d) x = Some cs \<and> a = GrantUnique x cs) \<or>
     (\<exists>p. bs_member (ds_unique_protectors d) p \<and> a = GrantUniqueProtector p) \<or>
     (\<exists>l \<in> set (ds_ledgered d). a = ledger_action l)"
proof -
  have "a \<in> set (map (\<lambda>e. GrantUnique (fst e) (snd e)) (entries m)) \<longleftrightarrow>
      (\<exists>x cs. bm_get m x = Some cs \<and> a = GrantUnique x cs)" for m
    using mem_map_entries [of a "\<lambda>e. GrantUnique (fst e) (snd e)" "\<lambda>_. True" m] by simp
  moreover have "a \<in> set (map GrantUniqueProtector (bs_list s)) \<longleftrightarrow>
      (\<exists>p. bs_member s p \<and> a = GrantUniqueProtector p)" for s
    by (auto simp: bs_set_def)
  moreover have "a \<in> set (map ledger_action ls) \<longleftrightarrow> (\<exists>l \<in> set ls. a = ledger_action l)" for ls
    by auto
  ultimately show ?thesis
    by (simp only: goals_def set_append Un_iff mem_concat_entries)
qed

lemma mem_diff:
  "a \<in> set (diff d ob) \<longleftrightarrow>
     (\<exists>f v. bm_get (ds_flags d) f = Some v \<and> a \<in> set (flag_actions d ob (f, v))) \<or>
     (\<exists>x cs. bm_get (ds_unique_goods d) x = Some cs \<and> \<not> bs_member (os_unique_goods ob) x \<and>
        a = GrantUnique x cs) \<or>
     (\<exists>p. bs_member (ds_unique_protectors d) p \<and> \<not> bs_member (os_unique_protectors ob) p \<and>
        a = GrantUniqueProtector p) \<or>
     (\<exists>l \<in> set (ds_ledgered d). os_applied_watermark ob \<le> lg_index l \<and> a = ledger_action l)"
proof -
  have "a \<in> set (map (\<lambda>(x, cs). GrantUnique x cs) (filter (\<lambda>(x, _). \<not> bs_member s x) (entries m))) \<longleftrightarrow>
      (\<exists>x cs. bm_get m x = Some cs \<and> \<not> bs_member s x \<and> a = GrantUnique x cs)" for m s
    using mem_map_entries [of a "\<lambda>(x, cs). GrantUnique x cs" "\<lambda>(x, _). \<not> bs_member s x" m] by simp
  moreover have "a \<in> set (map GrantUniqueProtector (filter (\<lambda>p. \<not> bs_member t p) (bs_list s))) \<longleftrightarrow>
      (\<exists>p. bs_member s p \<and> \<not> bs_member t p \<and> a = GrantUniqueProtector p)" for s t
    by (auto simp: bs_set_def)
  moreover have "a \<in> set (map ledger_action (filter (\<lambda>l. wm \<le> lg_index l) ls)) \<longleftrightarrow>
      (\<exists>l \<in> set ls. wm \<le> lg_index l \<and> a = ledger_action l)" for ls wm
    by auto
  ultimately show ?thesis
    by (simp only: diff_def set_append Un_iff mem_concat_entries)
qed

lemma set_goals:
  "SetFlag f \<in> set (goals d) \<longleftrightarrow> bm_get (ds_flags d) f = Some True"
  "ClearFlag f \<in> set (goals d) \<longleftrightarrow> bm_get (ds_flags d) f = Some False \<and> bs_member (ds_owned_flags d) f"
  "GrantUnique x cs \<in> set (goals d) \<longleftrightarrow> bm_get (ds_unique_goods d) x = Some cs"
  "GrantUniqueProtector x \<in> set (goals d) \<longleftrightarrow> bs_member (ds_unique_protectors d) x"
  unfolding mem_goals by (auto simp: flag_goal_def ledger_action_def split: if_splits)

fun inventory_read :: "action \<Rightarrow> bool" where
  "inventory_read (GrantUnique _ _) = True"
| "inventory_read (GrantUniqueProtector _) = True"
| "inventory_read _ = False"

lemma flag_actions_snapshot:
  assumes "bm_get (ds_flags (rc_desired r)) f = Some v"
    and "a \<in> set (flag_actions (rc_desired r) (snapshot io r g b) (f, v))"
  shows "a \<in> set (flag_goal (rc_desired r) (f, v))" "\<not> achieved io g wm a"
  using assms
  by (cases v; auto simp: flag_actions_def flag_goal_def snapshot_flags Let_def split: if_splits)+

lemma diff_snapshot_mem:
  assumes a: "a \<in> set (diff (rc_desired r) (snapshot io r g b))"
    and b: "inventory_read a \<longrightarrow> b"
  shows "a \<in> set (goals (rc_desired r))" "\<not> achieved io g (rc_applied_watermark r) a"
proof -
  from a consider (fl) f v where "bm_get (ds_flags (rc_desired r)) f = Some v"
      "a \<in> set (flag_actions (rc_desired r) (snapshot io r g b) (f, v))"
    | (good) x cs where "bm_get (ds_unique_goods (rc_desired r)) x = Some cs"
      "\<not> bs_member (os_unique_goods (snapshot io r g b)) x" "a = GrantUnique x cs"
    | (prot) p where "bs_member (ds_unique_protectors (rc_desired r)) p"
      "\<not> bs_member (os_unique_protectors (snapshot io r g b)) p" "a = GrantUniqueProtector p"
    | (ledg) l where "l \<in> set (ds_ledgered (rc_desired r))"
      "os_applied_watermark (snapshot io r g b) \<le> lg_index l" "a = ledger_action l"
    unfolding mem_diff by blast
  then have "a \<in> set (goals (rc_desired r)) \<and> \<not> achieved io g (rc_applied_watermark r) a"
  proof cases
    case fl
    with flag_actions_snapshot [OF fl] show ?thesis unfolding mem_goals by blast
  next
    case good
    with b show ?thesis by (simp add: set_goals snapshot_goods)
  next
    case prot
    with b show ?thesis by (simp add: set_goals snapshot_goods)
  next
    case ledg
    then have "\<not> achieved io g (rc_applied_watermark r) a"
      by (simp add: ledger_action_def snapshot_goods)
    with ledg show ?thesis unfolding mem_goals by blast
  qed
  then show "a \<in> set (goals (rc_desired r))" "\<not> achieved io g (rc_applied_watermark r) a"
    by simp_all
qed

lemma tick_plan_mem:
  assumes "a \<in> set (tick_plan io c r g)"
  shows "allows (tick_classes c (io_stability io g)) a" "\<not> parked (tick_rec io r g) a"
    "a \<in> set (goals (rc_desired r))"
    "\<not> achieved io g (rc_applied_watermark r) a"
proof -
  let ?b = "stable (io_stability io g)"
  have a: "allows (tick_classes c (io_stability io g)) a" "\<not> parked (tick_rec io r g) a"
    "a \<in> set (diff (rc_desired (rearmed io r g)) (snapshot io (rearmed io r g) g ?b))"
    using assms by (simp_all add: tick_plan_def plan_def tick_observed_def frame_simps)
  then show "allows (tick_classes c (io_stability io g)) a" "\<not> parked (tick_rec io r g) a" by simp_all
  have "inventory_read a \<longrightarrow> ?b"
    using a(1) by (cases a) (auto simp: tick_classes_def split: if_splits)
  note d = diff_snapshot_mem [OF a(3) this]
  show "a \<in> set (goals (rc_desired r))" "\<not> achieved io g (rc_applied_watermark r) a"
    using d by (simp_all add: frame_simps)
qed

lemma tick_applied_mem:
  assumes t: "tick_with_classes io b c r g = (out, r', g')" and a: "a \<in> set (to_applied out)"
  shows "flags_ready (io_stability io g) \<and> a \<in> set (tick_plan io c r g)"
  using t
proof (cases rule: tick_cases)
  case unstable
  with a show ?thesis by (simp add: unstable_outcome_def)
next
  case idle
  with a show ?thesis by simp
next
  case (work ps)
  with a have "a \<in> set (ps_applied ps)" by simp
  with work(1,3) apply_plan_applied show ?thesis by (metis subsetD)
qed

text \<open>
  C16: a tick only ever applies what the desired state asks for and the world lacks. Every applied
  action is a goal of the desired state in an enabled class, not parked by the stall guard, and not
  already achieved in the observed game. So a flag is cleared only if it is on the clear-allowlist,
  desired clear and observed set; a good is granted only if it is desired and observed absent; and
  nothing but flags is applied before the inventory has settled.
\<close>

theorem tick_applies_only_missing_goals:
  assumes "tick_with_classes io b c r g = (out, r', g')" and "a \<in> set (to_applied out)"
  shows "a \<in> set (goals (rc_desired r)) \<and> allows c a \<and> \<not> parked (tick_rec io r g) a \<and>
    \<not> achieved io g (rc_applied_watermark r) a \<and> flags_ready (io_stability io g) \<and>
    (case a of
       SetFlag f \<Rightarrow> bm_get (ds_flags (rc_desired r)) f = Some True \<and> \<not> io_get_flag io g f
     | ClearFlag f \<Rightarrow> bs_member (ds_owned_flags (rc_desired r)) f \<and>
         bm_get (ds_flags (rc_desired r)) f = Some False \<and> io_get_flag io g f
     | GrantUnique gd cs \<Rightarrow> stable (io_stability io g) \<and>
         bm_get (ds_unique_goods (rc_desired r)) gd = Some cs \<and> \<not> io_has_good io g gd
     | _ \<Rightarrow> stable (io_stability io g))"
proof -
  note m = tick_applied_mem [OF assms]
  note p = tick_plan_mem [OF m [THEN conjunct2]]
  have "allows c a"
    using p(1) by (cases a) (simp_all add: tick_classes_def split: if_splits)
  moreover have "case a of SetFlag _ \<Rightarrow> True | ClearFlag _ \<Rightarrow> True | _ \<Rightarrow> stable (io_stability io g)"
    using p(1) by (cases a) (simp_all add: tick_classes_def split: if_splits)
  ultimately show ?thesis
    using p m by (cases a) (simp_all add: set_goals)
qed

definition demo_rec :: reconciler where
  "demo_rec = new_reconciler \<lparr>di_seed = ''seed'', di_save = ''slot0'',
     di_received = [\<lparr>ri_index = 0, ri_name = ''Rune'', ri_semantics = GreatRune 191 171\<rparr>,
                    \<lparr>ri_index = 1, ri_name = ''Stone'', ri_semantics = Consumable 10100 2 False\<rparr>],
     di_slot_data = \<lparr>seal_flags = [100], start_graces = [71190], always_map_flags = [],
       reveal_all_maps = False, map_reveal_flags = [], start_item_flags = [],
       start_items = [\<lparr>si_full_id = 1001, si_qty = 3\<rparr>], goal_flag = None, goal_met = False,
       prereq_set_flags = []\<rparr>\<rparr>"

theorem tick_applies_only_missing_goals_witness:
  "ClearFlag 100 \<in> set (to_applied (fst (tick_with_classes mock_io default_budget ALL_CLASSES demo_rec
      (mock_default\<lparr>mg_flags := bm_insert 100 True bm_empty\<rparr>)))) \<and>
   bs_member (ds_owned_flags (rc_desired demo_rec)) 100"
proof -
  let ?m = "mock_default\<lparr>mg_flags := bm_insert 100 True bm_empty\<rparr>"
  let ?t = "tick_with_classes mock_io default_budget ALL_CLASSES demo_rec ?m"
  have a: "ClearFlag 100 \<in> set (to_applied (fst ?t))" by code_simp
  have t: "?t = (fst ?t, fst (snd ?t), snd (snd ?t))" by simp
  from tick_applies_only_missing_goals [OF t a] a show ?thesis by simp
qed

section \<open>The ledger\<close>

fun is_ledger :: "action \<Rightarrow> bool" where
  "is_ledger (GrantLedgered _ _ _) = True"
| "is_ledger (SkipLedgered _) = True"
| "is_ledger _ = False"

fun ledger_index :: "action \<Rightarrow> item_index" where
  "ledger_index (GrantLedgered i _ _) = i"
| "ledger_index (SkipLedgered i) = i"
| "ledger_index _ = 0"

lemma ledger_action_simps [simp]:
  "is_ledger (ledger_action l)" "ledger_index (ledger_action l) = lg_index l"
  by (simp_all add: ledger_action_def)

text \<open>The frontier after a run of ledger actions.\<close>

definition advance :: "item_index \<Rightarrow> action list \<Rightarrow> item_index" where
  "advance wm as = (if as = [] then wm else ledger_index (last as) + 1)"

lemma advance_Cons: "advance wm (a # as) = advance (ledger_index a + 1) as"
  by (simp add: advance_def)

lemma pass2_ledger:
  "\<exists>k. ps_applied (pass2 io b ga as ps) = ps_applied ps @ take k (filter is_ledger as) \<and>
       rc_applied_watermark (ps_rec (pass2 io b ga as ps)) =
         advance (rc_applied_watermark (ps_rec ps)) (take k (filter is_ledger as))"
proof (induction io b ga as ps rule: pass2.induct)
  case (1 io b ga ps)
  then show ?case by (simp add: advance_def)
next
  case (2 io b ga i gd q as ps)
  let ?a = "GrantLedgered i gd q"
  have stop: "\<exists>k. xs = xs @ take k (filter is_ledger (?a # as)) \<and>
      wm = advance wm (take k (filter is_ledger (?a # as)))" for xs wm
    by (rule exI [of _ 0]) (simp add: advance_def)
  show ?case
  proof (cases "ga \<and> ps_goods_used ps < tb_goods b \<and> fst (io_grant_ledgered io gd q (ps_game ps))")
    case False
    then show ?thesis using stop by (auto simp: Let_def split: prod.split)
  next
    case True
    obtain g where g: "io_grant_ledgered io gd q (ps_game ps) = (True, g)"
      using True by (cases "io_grant_ledgered io gd q (ps_game ps)") auto
    let ?ps = "ps\<lparr>ps_game := g, ps_goods_used := ps_goods_used ps + 1, ps_granted := True,
                 ps_rec := (ps_rec ps)\<lparr>rc_applied_watermark := i + 1\<rparr>,
                 ps_applied := ps_applied ps @ [?a]\<rparr>"
    have s: "pass2 io b ga (?a # as) ps = pass2 io b ga as ?ps"
      using True g by (simp add: Let_def)
    obtain k where "ps_applied (pass2 io b ga as ?ps) = ps_applied ?ps @ take k (filter is_ledger as)"
      "rc_applied_watermark (ps_rec (pass2 io b ga as ?ps)) =
         advance (rc_applied_watermark (ps_rec ?ps)) (take k (filter is_ledger as))"
      using "2.IH" [of "(True, g)" True g] True g by auto
    then show ?thesis
      unfolding s by (intro exI [of _ "Suc k"]) (simp add: advance_Cons)
  qed
next
  case (3 io b ga i as ps)
  then obtain k where "ps_applied (pass2 io b ga (SkipLedgered i # as) ps) =
      ps_applied ps @ [SkipLedgered i] @ take k (filter is_ledger as)"
    "rc_applied_watermark (ps_rec (pass2 io b ga (SkipLedgered i # as) ps)) =
      advance (i + 1) (take k (filter is_ledger as))"
    by auto
  then show ?case by (intro exI [of _ "Suc k"]) (simp add: advance_Cons)
qed auto

lemma pass1_no_ledger: "filter is_ledger (ps_applied (pass1 io b ga as ps)) = filter is_ledger (ps_applied ps)"
proof -
  have "filter is_ledger (ps_applied (pass1_step io b ga a ps)) = filter is_ledger (ps_applied ps)" for a ps
    by (cases a) (simp_all add: apply_flag_def apply_grant_unique_def apply_grant_protector_def Let_def
          split: prod.split)
  then show ?thesis
    unfolding pass1_def by (induction as arbitrary: ps) auto
qed

lemma apply_plan_ledger:
  obtains k where
    "filter is_ledger (ps_applied (apply_plan io b now as r g)) = take k (filter is_ledger as)"
    "rc_applied_watermark (ps_rec (apply_plan io b now as r g)) =
       advance (rc_applied_watermark r) (take k (filter is_ledger as))"
proof -
  let ?ga = "grants_allowed b r now"
  let ?p1 = "pass1 io b ?ga as (start_pass r g)"
  obtain k where k: "ps_applied (pass2 io b ?ga as ?p1) = ps_applied ?p1 @ take k (filter is_ledger as)"
    "rc_applied_watermark (ps_rec (pass2 io b ?ga as ?p1)) =
       advance (rc_applied_watermark (ps_rec ?p1)) (take k (filter is_ledger as))"
    using pass2_ledger [of io b ?ga as ?p1] by blast
  have "filter is_ledger (take k (filter is_ledger as)) = take k (filter is_ledger as)"
    by (rule filter_True) (auto dest: in_set_takeD)
  moreover have "filter is_ledger (ps_applied ?p1) = []"
    by (simp add: pass1_no_ledger start_pass_def)
  ultimately show ?thesis
    using k by (intro that [of k]) (simp_all add: apply_plan_def Let_def frame_simps start_pass_def)
qed

lemma take_below_frontier:
  assumes "sorted_wrt (<) (map f xs)" "\<forall>x \<in> set xs. wm \<le> (f x :: int)"
  shows "take k xs = filter (\<lambda>x. f x < (if take k xs = [] then wm else f (last (take k xs)) + 1)) xs"
  using assms
proof (induction xs arbitrary: wm k)
  case (Cons x xs)
  show ?case
  proof (cases k)
    case 0
    have "filter (\<lambda>y. f y < wm) (x # xs) = []"
      using Cons.prems(2) unfolding filter_empty_conv not_less .
    then show ?thesis using 0 by simp
  next
    case (Suc j)
    have s: "sorted_wrt (<) (map f xs)" "\<forall>y \<in> set xs. f x + 1 \<le> f y" using Cons.prems(1) by auto
    note IH = Cons.IH [OF s, of j]
    show ?thesis
    proof (cases "take j xs = []")
      case True
      with Suc IH show ?thesis by simp
    next
      case False
      then have "last (take j xs) \<in> set xs" by (metis in_set_takeD last_in_set)
      with s(2) have "f x < f (last (take j xs)) + 1" by force
      with False Suc IH show ?thesis by simp
    qed
  qed
qed simp

text \<open>Ledger entries in strictly increasing index order: at most one per stream index.\<close>

definition ledger_ok :: "desired_state \<Rightarrow> bool" where
  "ledger_ok d \<longleftrightarrow> sorted_wrt (<) (map lg_index (ds_ledgered d))"

definition owed_between :: "desired_state \<Rightarrow> item_index \<Rightarrow> item_index \<Rightarrow> ledgered_grant list" where
  "owed_between d lo hi = filter (\<lambda>l. lo \<le> lg_index l \<and> lg_index l < hi) (ds_ledgered d)"

lemma owed_between_append:
  assumes "ledger_ok d" "lo \<le> mid" "mid \<le> hi"
  shows "owed_between d lo mid @ owed_between d mid hi = owed_between d lo hi"
proof -
  have "filter (\<lambda>l. lo \<le> lg_index l \<and> lg_index l < mid) xs @
        filter (\<lambda>l. mid \<le> lg_index l \<and> lg_index l < hi) xs =
        filter (\<lambda>l. lo \<le> lg_index l \<and> lg_index l < hi) xs"
    if "sorted_wrt (<) (map lg_index xs)" for xs
    using that assms(2,3)
  proof (induction xs)
    case (Cons x xs)
    show ?case
    proof (cases "mid \<le> lg_index x")
      case True
      with Cons.prems(1) have "\<forall>y \<in> set xs. mid < lg_index y" by auto
      then have "filter (\<lambda>l. lo \<le> lg_index l \<and> lg_index l < mid) xs = []"
        by (auto simp: filter_empty_conv)
      with Cons True assms(2) show ?thesis by simp
    next
      case False
      with Cons assms(3) show ?thesis by simp
    qed
  qed simp
  with assms(1) show ?thesis by (simp add: owed_between_def ledger_ok_def)
qed

lemma plan_ledger:
  "filter is_ledger (plan c (snapshot io r1 g b) r) =
     (if ac_ledger c
      then map ledger_action (filter (\<lambda>l. rc_applied_watermark r1 \<le> lg_index l) (ds_ledgered (rc_desired r)))
      else [])"
proof -
  have np: "\<not> parked r (ledger_action l)" "allows c (ledger_action l) = ac_ledger c" for l
    by (simp_all add: ledger_action_def)
  have n: "filter is_ledger (concat (map (flag_actions d ob) es)) = []"
    "filter is_ledger (map (\<lambda>(x, cs). GrantUnique x cs) us) = []"
    "filter is_ledger (map GrantUniqueProtector ps) = []" for d ob es us ps
    by (simp_all add: filter_concat_map filter_map o_def case_prod_beta)
       (simp add: flag_actions_def Let_def case_prod_beta)
  have "filter is_ledger (plan c ob r) = filter (\<lambda>a. allows c a \<and> \<not> parked r a)
      (filter is_ledger (diff (rc_desired r) ob))" for ob
    by (simp add: plan_def conj_commute)
  then show ?thesis
    unfolding diff_def filter_append n by (simp add: snapshot_goods filter_map o_def np)
qed

lemma tick_ledger:
  assumes t: "tick_with_classes io b c r g = (out, r', g')" and ok: "ledger_ok (rc_desired r)"
  shows "rc_applied_watermark r \<le> rc_applied_watermark r' \<and>
    filter is_ledger (to_applied out) =
      map ledger_action (owed_between (rc_desired r) (rc_applied_watermark r) (rc_applied_watermark r'))"
proof -
  have same: "owed_between d wm wm = []" for d wm
    by (auto simp: owed_between_def filter_empty_conv)
  show ?thesis using t
  proof (cases rule: tick_cases)
    case unstable
    then show ?thesis by (simp add: unstable_outcome_def frame_simps same)
  next
    case idle
    then show ?thesis by (simp add: frame_simps same)
  next
    case (work ps)
    let ?wm = "rc_applied_watermark r"
    let ?plan = "tick_plan io c r g"
    let ?owed = "filter (\<lambda>l. ?wm \<le> lg_index l) (ds_ledgered (rc_desired r))"
    obtain k where k: "filter is_ledger (ps_applied ps) = take k (filter is_ledger ?plan)"
      "rc_applied_watermark (ps_rec ps) = advance ?wm (take k (filter is_ledger ?plan))"
      using apply_plan_ledger [of io b "now_ms (io_stability io g)" ?plan "tick_rec io r g" g]
      unfolding work(3) by (metis tick_rec_frame(2))
    have pl: "filter is_ledger ?plan =
        (if ac_ledger (tick_classes c (io_stability io g)) then map ledger_action ?owed else [])"
      by (simp add: tick_plan_def tick_observed_def plan_ledger frame_simps)
    define j where "j = (if ac_ledger (tick_classes c (io_stability io g)) then k else 0)"
    have kj: "take k (filter is_ledger ?plan) = map ledger_action (take j ?owed)"
      by (simp add: pl j_def take_map)
    let ?wm' = "if take j ?owed = [] then ?wm else lg_index (last (take j ?owed)) + 1"
    have wm': "rc_applied_watermark (ps_rec ps) = ?wm'"
      using k(2) unfolding kj by (auto simp: advance_def last_map)
    have "take j ?owed = filter (\<lambda>l. lg_index l < ?wm') ?owed"
      by (rule take_below_frontier)
         (use ok in \<open>auto simp: ledger_ok_def sorted_wrt_map_filter\<close>)
    then have o: "take j ?owed = owed_between (rc_desired r) ?wm ?wm'"
      by (simp add: owed_between_def conj_commute)
    have "last (take j ?owed) \<in> set ?owed" if "take j ?owed \<noteq> []"
      using that by (metis in_set_takeD last_in_set)
    then have "?wm \<le> ?wm'" by force
    with k(1) kj o wm' work show ?thesis by simp
  qed
qed

end
