(* ===== verification/ReconStall.thy ===== *)
theory ReconStall
  imports ReconSession
begin

text \<open>
  The stall guard: a grant the game accepts but never shows is retried a bounded number of times
  per world epoch. The locale \<open>blind_game\<close> states what makes a good invisible; its lemmas give
  the bound for every such game, and the mock that refuses unique adds is an instance.
\<close>

section \<open>Counting the grants of one good\<close>

fun grants_of :: "goods_id \<Rightarrow> action \<Rightarrow> bool" where
  "grants_of gd (GrantUnique x _) = (x = gd)"
| "grants_of gd _ = False"

definition grant_count :: "goods_id \<Rightarrow> action list \<Rightarrow> nat" where
  "grant_count gd as = length (filter (grants_of gd) as)"

definition attempts :: "goods_id \<Rightarrow> reconciler \<Rightarrow> nat" where
  "attempts gd r = (case bm_get (rc_grant_attempts r) gd of None \<Rightarrow> 0 | Some k \<Rightarrow> k)"

text \<open>The guard's own invariant: the count never passes the cap, and at the cap the good is parked.\<close>

definition stall_ok :: "goods_id \<Rightarrow> reconciler \<Rightarrow> bool" where
  "stall_ok gd r \<longleftrightarrow> attempts gd r \<le> MAX_GRANT_ATTEMPTS \<and>
     (attempts gd r = MAX_GRANT_ATTEMPTS \<longrightarrow> bs_member (rc_stalled_goods r) gd)"

text \<open>Runs of ticks and game moves during which every game state satisfies \<open>P\<close>.\<close>

inductive run_within :: "'g game_io \<Rightarrow> ('g \<Rightarrow> bool) \<Rightarrow> 'g session \<Rightarrow> 'g session \<Rightarrow> bool" for io P where
  within_start: "P (s_game s) \<Longrightarrow> run_within io P s s"
| within_move: "run_within io P s t \<Longrightarrow> P g \<Longrightarrow> run_within io P s (t\<lparr>s_game := g\<rparr>)"
| within_tick: "run_within io P s t \<Longrightarrow> tick_with_classes io b c (s_rec t) (s_game t) = (out, r, g) \<Longrightarrow>
    run_within io P s (t\<lparr>s_rec := r, s_game := g, s_log := s_log t @ to_applied out\<rparr>)"

lemma grant_count_append [simp]: "grant_count gd (as @ bs) = grant_count gd as + grant_count gd bs"
  by (simp add: grant_count_def)

lemma score_good_other:
  "x \<noteq> gd \<Longrightarrow> attempts gd (fst (score_good l x r)) = attempts gd r"
  "x \<noteq> gd \<Longrightarrow> bs_member (rc_stalled_goods (fst (score_good l x r))) gd = bs_member (rc_stalled_goods r) gd"
  by (simp_all add: score_good_def attempts_def Let_def)

lemma score_flag_goods:
  "rc_grant_attempts (fst (score_flag l f r)) = rc_grant_attempts r"
  "rc_stalled_goods (fst (score_flag l f r)) = rc_stalled_goods r"
  by (simp_all add: score_flag_def Let_def)

lemma score_good_miss:
  assumes "attempts gd r < MAX_GRANT_ATTEMPTS"
  shows "attempts gd (fst (score_good False gd r)) = Suc (attempts gd r)"
    "stall_ok gd (fst (score_good False gd r))"
  using assms by (auto simp: score_good_def attempts_def stall_ok_def Let_def)

lemma pass2_goods:
  "rc_grant_attempts (ps_rec (pass2 io b ga as ps)) = rc_grant_attempts (ps_rec ps)"
  "rc_stalled_goods (ps_rec (pass2 io b ga as ps)) = rc_stalled_goods (ps_rec ps)"
  by (induction io b ga as ps rule: pass2.induct) (auto simp: Let_def split: prod.split)

lemma pass2_grant_count: "grant_count gd (ps_applied (pass2 io b ga as ps)) = grant_count gd (ps_applied ps)"
  by (induction io b ga as ps rule: pass2.induct) (auto simp: Let_def grant_count_def split: prod.split)

lemma forget_goods_absent:
  "gd \<notin> set gs \<Longrightarrow> attempts gd (forget_goods gs r) = attempts gd r"
  "gd \<notin> set gs \<Longrightarrow> bs_member (rc_stalled_goods (forget_goods gs r)) gd = bs_member (rc_stalled_goods r) gd"
  unfolding forget_goods_def by (induction gs arbitrary: r) (auto simp: attempts_def)

lemma forget_protectors_absent:
  "gd \<notin> set gs \<Longrightarrow> attempts gd (forget_protectors gs r) = attempts gd r"
  "gd \<notin> set gs \<Longrightarrow> bs_member (rc_stalled_goods (forget_protectors gs r)) gd = bs_member (rc_stalled_goods r) gd"
  unfolding forget_protectors_def by (induction gs arbitrary: r) (auto simp: attempts_def)

lemma observe_blind:
  assumes "\<not> io_has_good io g gd" "\<not> bs_member (ds_unique_protectors (rc_desired r)) gd"
  shows "attempts gd (observe (snapshot io r g b) r) = attempts gd r"
    "bs_member (rc_stalled_goods (observe (snapshot io r g b) r)) gd = bs_member (rc_stalled_goods r) gd"
proof -
  have "gd \<notin> set (bs_list (os_unique_goods (snapshot io r g b)))"
    "gd \<notin> set (bs_list (os_unique_protectors (snapshot io r g b)))"
    using assms by (simp_all add: bs_set_def snapshot_goods)
  then show "attempts gd (observe (snapshot io r g b) r) = attempts gd r"
    "bs_member (rc_stalled_goods (observe (snapshot io r g b) r)) gd = bs_member (rc_stalled_goods r) gd"
    by (simp_all add: observe_def attempts_def [of _ "forget_flags _ _"] frame_simps)
       (simp_all add: attempts_def [symmetric] forget_goods_absent forget_protectors_absent)
qed

fun touches :: "goods_id \<Rightarrow> action \<Rightarrow> bool" where
  "touches gd (GrantUnique x _) = (x = gd)"
| "touches gd (GrantUniqueProtector x) = (x = gd)"
| "touches gd _ = False"

text \<open>The plan holds at most one grant of a good that is no protector, and none if it is parked.\<close>

lemma plan_touches:
  assumes "\<not> bs_member (ds_unique_protectors (rc_desired r)) gd"
  shows "length (filter (touches gd) (plan c ob r)) \<le> (if bs_member (rc_stalled_goods r) gd then 0 else 1)"
proof -
  let ?d = "rc_desired r"
  have n: "filter (touches gd) (concat (map (flag_actions d ob) es)) = []"
    "filter (touches gd) (map ledger_action ls) = []" for d es ls
    by (simp_all add: filter_concat_map filter_map o_def ledger_action_def)
       (simp add: flag_actions_def Let_def case_prod_beta)
  have p: "filter (touches gd) (map GrantUniqueProtector (filter P (bs_list (ds_unique_protectors ?d)))) = []" for P
    using assms by (auto simp: filter_empty_conv bs_set_def)
  have u: "filter (touches gd) (map (\<lambda>(x, cs). GrantUnique x cs) (filter P (entries m))) =
      map (\<lambda>(x, cs). GrantUnique x cs) (filter P (filter (\<lambda>e. fst e = gd) (entries m)))" for P m
    by (simp add: filter_map o_def case_prod_beta conj_commute)
  have one: "length (filter (touches gd) (diff ?d ob)) \<le> 1"
    unfolding diff_def filter_append n p u filter_key_entries by (simp split: option.split)
  have pl: "filter (touches gd) (plan c ob r) =
      filter (\<lambda>a. allows c a \<and> \<not> parked r a) (filter (touches gd) (diff ?d ob))"
    by (simp add: plan_def conj_commute)
  have "parked r a" if "bs_member (rc_stalled_goods r) gd" "touches gd a" for a
    using that by (cases a) auto
  then show ?thesis
    unfolding pl using order_trans [OF length_filter_le one] by (auto simp: filter_empty_conv)
qed

section \<open>Blind games\<close>

locale blind_game =
  fixes io :: "'g game_io"
    and gd :: goods_id
    and ep :: nat
    and blind :: "'g \<Rightarrow> bool"
  assumes unseen: "blind g \<Longrightarrow> \<not> io_has_good io g gd"
    and same_epoch: "blind g \<Longrightarrow> world_epoch (io_stability io g) = ep"
    and set_flag_blind: "blind g \<Longrightarrow> blind (snd (io_set_flag io f on g))"
    and grant_good_blind: "blind g \<Longrightarrow> blind (snd (io_grant_good io x cs g))"
    and grant_protector_blind: "blind g \<Longrightarrow> blind (snd (io_grant_protector io x g))"
    and grant_ledgered_blind: "blind g \<Longrightarrow> blind (snd (io_grant_ledgered io x q g))"
begin

lemma pass1_step_blind: "blind (ps_game ps) \<Longrightarrow> blind (ps_game (pass1_step io b ga a ps))"
  using set_flag_blind grant_good_blind grant_protector_blind
  by (cases a) (auto simp: apply_flag_def apply_grant_unique_def apply_grant_protector_def Let_def
        case_prod_beta)

lemma pass2_blind: "blind (ps_game ps) \<Longrightarrow> blind (ps_game (pass2 io b ga as ps))"
proof (induction as arbitrary: ps ga)
  case (Cons a as)
  show ?case
    using Cons.prems grant_ledgered_blind
    by (cases a) (auto simp: Let_def case_prod_beta intro!: Cons.IH)
qed simp

lemma step_untouched:
  assumes "\<not> touches gd a"
  shows "attempts gd (ps_rec (pass1_step io b ga a ps)) = attempts gd (ps_rec ps)"
    "bs_member (rc_stalled_goods (ps_rec (pass1_step io b ga a ps))) gd =
       bs_member (rc_stalled_goods (ps_rec ps)) gd"
    "grant_count gd (ps_applied (pass1_step io b ga a ps)) = grant_count gd (ps_applied ps)"
  using assms
  by (cases a; auto simp: apply_flag_def apply_grant_unique_def apply_grant_protector_def Let_def
        case_prod_beta score_good_other score_flag_goods attempts_def [of _ "fst (score_flag _ _ _)"]
        attempts_def [symmetric] grant_count_def)+

lemma step_touching:
  assumes "blind (ps_game ps)" "attempts gd (ps_rec ps) < MAX_GRANT_ATTEMPTS"
    "stall_ok gd (ps_rec ps)"
  shows "stall_ok gd (ps_rec (pass1_step io b ga (GrantUnique gd cs) ps)) \<and>
    attempts gd (ps_rec (pass1_step io b ga (GrantUnique gd cs) ps)) + grant_count gd (ps_applied ps) =
      attempts gd (ps_rec ps) + grant_count gd (ps_applied (pass1_step io b ga (GrantUnique gd cs) ps))"
proof -
  have "\<not> io_has_good io (snd (io_grant_good io gd cs (ps_game ps))) gd"
    by (intro unseen grant_good_blind assms(1))
  then show ?thesis
    using assms(2,3) score_good_miss [OF assms(2)]
    by (auto simp: apply_grant_unique_def Let_def case_prod_beta grant_count_def)
qed

lemma pass1_count:
  assumes "blind (ps_game ps)" "stall_ok gd (ps_rec ps)"
    "length (filter (touches gd) as) \<le> (if bs_member (rc_stalled_goods (ps_rec ps)) gd then 0 else 1)"
    "\<forall>a \<in> set as. a \<noteq> GrantUniqueProtector gd"
  shows "blind (ps_game (pass1 io b ga as ps)) \<and> stall_ok gd (ps_rec (pass1 io b ga as ps)) \<and>
    attempts gd (ps_rec (pass1 io b ga as ps)) + grant_count gd (ps_applied ps) =
      attempts gd (ps_rec ps) + grant_count gd (ps_applied (pass1 io b ga as ps))"
  using assms
proof (induction as arbitrary: ps)
  case Nil
  then show ?case by (simp add: pass1_def)
next
  case (Cons a as)
  let ?ps = "pass1_step io b ga a ps"
  have p: "pass1 io b ga (a # as) ps = pass1 io b ga as ?ps" by (simp add: pass1_def)
  have bl: "blind (ps_game ?ps)" using Cons.prems(1) by (rule pass1_step_blind)
  show ?case
  proof (cases "touches gd a")
    case False
    note u = step_untouched [OF False, of b ga ps]
    have "stall_ok gd (ps_rec ?ps)" using Cons.prems(2) by (simp add: stall_ok_def u)
    from Cons.IH [OF bl this] Cons.prems(3,4) False show ?thesis
      unfolding p by (simp add: u)
  next
    case True
    then obtain cs where a: "a = GrantUnique gd cs"
      using Cons.prems(4) by (cases a) auto
    have ns: "\<not> bs_member (rc_stalled_goods (ps_rec ps)) gd" and none: "filter (touches gd) as = []"
      using Cons.prems(3) True by (auto split: if_splits)
    then have "attempts gd (ps_rec ps) < MAX_GRANT_ATTEMPTS"
      using Cons.prems(2) by (auto simp: stall_ok_def order_le_less)
    note st = step_touching [OF Cons.prems(1) this Cons.prems(2), of b ga cs]
    have "stall_ok gd (ps_rec ?ps)" using st by (simp add: a)
    from Cons.IH [OF bl this] Cons.prems(4) none st show ?thesis
      unfolding p unfolding a by simp
  qed
qed

definition guard_inv :: "reconciler \<Rightarrow> action list \<Rightarrow> bool" where
  "guard_inv r log \<longleftrightarrow>
     \<not> bs_member (ds_unique_protectors (rc_desired r)) gd \<and>
     (if rc_armed_epoch r = Some ep then stall_ok gd r \<and> grant_count gd log \<le> attempts gd r
      else grant_count gd log = 0)"

lemma rearmed_guard:
  assumes "blind g" "guard_inv r log"
  shows "stall_ok gd (rearmed io r g) \<and> grant_count gd log \<le> attempts gd (rearmed io r g)"
  using assms same_epoch [OF assms(1)]
  by (auto simp: guard_inv_def rearmed_def rearm_on_world_edge_def rearm_grant_stalls_def stall_ok_def
        attempts_def MAX_GRANT_ATTEMPTS_def split: if_splits)

lemma tick_guard:
  assumes t: "tick_with_classes io b c r g = (out, r', g')" and bl: "blind g" and inv: "guard_inv r log"
  shows "blind g' \<and> guard_inv r' (log @ to_applied out)"
proof -
  have np: "\<not> bs_member (ds_unique_protectors (rc_desired r)) gd" using inv by (simp add: guard_inv_def)
  note ra = rearmed_guard [OF bl inv]
  have ob: "attempts gd (tick_rec io r g) = attempts gd (rearmed io r g)"
    "bs_member (rc_stalled_goods (tick_rec io r g)) gd = bs_member (rc_stalled_goods (rearmed io r g)) gd"
    using observe_blind [of io g gd "rearmed io r g"] unseen [OF bl] np
    by (simp_all add: tick_rec_def tick_observed_def frame_simps)
  then have so: "stall_ok gd (tick_rec io r g)" using ra by (simp add: stall_ok_def)
  show ?thesis using t
  proof (cases rule: tick_cases)
    case unstable
    with ra np bl same_epoch [OF bl] show ?thesis
      by (simp add: guard_inv_def frame_simps unstable_outcome_def)
  next
    case idle
    with ra ob so np bl same_epoch [OF bl] show ?thesis
      by (simp add: guard_inv_def frame_simps)
  next
    case (work ps)
    let ?as = "tick_plan io c r g"
    let ?r = "tick_rec io r g"
    let ?ga = "grants_allowed b ?r (now_ms (io_stability io g))"
    let ?p1 = "pass1 io b ?ga ?as (start_pass ?r g)"
    have "length (filter (touches gd) ?as) \<le> (if bs_member (rc_stalled_goods ?r) gd then 0 else 1)"
      unfolding tick_plan_def by (rule plan_touches) (simp add: frame_simps np)
    moreover have "\<forall>a \<in> set ?as. a \<noteq> GrantUniqueProtector gd"
      using np tick_plan_mem(3) [of "GrantUniqueProtector gd" io c r g] by (auto simp: set_goals(4))
    ultimately have p1: "blind (ps_game ?p1) \<and> stall_ok gd (ps_rec ?p1) \<and>
        attempts gd (ps_rec ?p1) = attempts gd ?r + grant_count gd (ps_applied ?p1)"
      using pass1_count [of "start_pass ?r g" ?as b ?ga] bl so
      by (simp add: start_pass_def grant_count_def)
    let ?p2 = "pass2 io b ?ga ?as ?p1"
    have p2: "blind (ps_game ?p2) \<and> stall_ok gd (ps_rec ?p2) \<and>
        attempts gd (ps_rec ?p2) = attempts gd ?r + grant_count gd (ps_applied ?p2)"
      using p1 pass2_blind by (simp add: stall_ok_def attempts_def pass2_goods pass2_grant_count)
    have fields: "blind (ps_game ps) \<and> stall_ok gd (ps_rec ps) \<and>
        attempts gd (ps_rec ps) = attempts gd ?r + grant_count gd (ps_applied ps)"
      using p2 unfolding work(3) apply_plan_def Let_def
      by (simp add: stall_ok_def attempts_def)
    have "rc_desired (ps_rec ps) = rc_desired r"
      "rc_armed_epoch (ps_rec ps) = Some ep"
      unfolding work(3) by (simp_all add: frame_simps same_epoch [OF bl])
    with fields work ra ob np show ?thesis by (simp add: guard_inv_def)
  qed
qed

lemma run_guard:
  assumes "run_within io blind s t" "guard_inv (s_rec s) (s_log s)"
  shows "blind (s_game t) \<and> guard_inv (s_rec t) (s_log t)"
  using assms
proof (induction rule: run_within.induct)
  case (within_tick s t b c out r g)
  with tick_guard [OF within_tick.hyps(2), of "s_log t"] show ?case by simp
qed simp_all

lemma grants_bounded:
  assumes "run_within io blind s t" "s_log s = []" "stall_ok gd (s_rec s)"
    "\<not> bs_member (ds_unique_protectors (rc_desired (s_rec s))) gd"
  shows "grant_count gd (s_log t) \<le> MAX_GRANT_ATTEMPTS"
proof -
  have "guard_inv (s_rec s) (s_log s)"
    using assms(2-4) by (simp add: guard_inv_def grant_count_def)
  with run_guard [OF assms(1)] show ?thesis
    by (auto simp: guard_inv_def stall_ok_def split: if_splits)
qed

end

section \<open>The refusing mock\<close>

definition mock_blind :: "goods_id \<Rightarrow> nat \<Rightarrow> mock_game \<Rightarrow> bool" where
  "mock_blind gd ep m \<longleftrightarrow>
     mg_refuse_unique_adds m \<and> \<not> mock_has_good m gd \<and> world_epoch (mg_stability m) = ep"

interpretation mock_blind: blind_game mock_io gd ep "mock_blind gd ep" for gd ep
  by unfold_locales
     (auto simp: mock_blind_def mock_has_good_def mock_set_flag_def mock_grant_good_def
        mock_grant_protector_def mock_grant_ledgered_def Let_def)

text \<open>
  C20: the refused-grant loop is bounded. While the game keeps accepting and dropping the grants of
  a good within one world epoch, over any number of ticks, unstable ticks, talk windows and settle
  resets, the reconciler issues at most three grants of it.
\<close>

theorem refused_grants_bounded:
  assumes "run_within mock_io (mock_blind gd ep) s t" and "s_log s = []"
    and "stall_ok gd (s_rec s)"
    and "\<not> bs_member (ds_unique_protectors (rc_desired (s_rec s))) gd"
  shows "grant_count gd (s_log t) \<le> MAX_GRANT_ATTEMPTS"
  using assms by (rule mock_blind.grants_bounded)

fun tick_times :: "nat \<Rightarrow> mock_game session \<Rightarrow> mock_game session" where
  "tick_times 0 s = s"
| "tick_times (Suc n) s =
     (let s' = tick_times n s; t = tick mock_io default_budget (s_rec s') (s_game s')
      in s'\<lparr>s_rec := fst (snd t), s_game := snd (snd t), s_log := s_log s' @ to_applied (fst t)\<rparr>)"

lemma tick_times_run: "P (s_game s) \<Longrightarrow> run_within mock_io P s (tick_times n s)"
proof (induction n)
  case 0
  then show ?case by (simp add: within_start)
next
  case (Suc n)
  let ?s = "tick_times n s"
  let ?t = "tick mock_io default_budget (s_rec ?s) (s_game ?s)"
  have "tick_with_classes mock_io default_budget ALL_CLASSES (s_rec ?s) (s_game ?s) =
      (fst ?t, fst (snd ?t), snd (snd ?t))" by (simp add: tick_def)
  from within_tick [OF Suc.IH [OF Suc.prems] this] show ?case by (simp add: Let_def)
qed

definition refusing_mock :: mock_game where
  "refusing_mock = mock_default\<lparr>mg_refuse_unique_adds := True\<rparr>"

theorem refused_grants_bounded_witness:
  "grant_count 191 (s_log (tick_times 5 \<lparr>s_rec = demo_rec, s_game = refusing_mock, s_log = []\<rparr>)) \<le> 3 \<and>
   grant_count 191 (s_log (tick_times 5 \<lparr>s_rec = demo_rec, s_game = refusing_mock, s_log = []\<rparr>)) = 3"
proof -
  let ?s = "\<lparr>s_rec = demo_rec, s_game = refusing_mock, s_log = []\<rparr>"
  have "mock_blind 191 0 (s_game ?s)" by code_simp
  then have run: "run_within mock_io (mock_blind 191 0) ?s (tick_times 5 ?s)"
    by (rule tick_times_run)
  have h: "stall_ok 191 (s_rec ?s)" "\<not> bs_member (ds_unique_protectors (rc_desired (s_rec ?s))) 191"
    by code_simp+
  have "grant_count 191 (s_log (tick_times 5 ?s)) = 3" by code_simp
  with refused_grants_bounded [OF run _ h] show ?thesis by (simp add: MAX_GRANT_ATTEMPTS_def)
qed

end
