(* ===== verification/ReconConverge.thy ===== *)
theory ReconConverge
  imports ReconLedger
begin

text \<open>
  Convergence: against a game whose accepted writes land, the reconciler reaches its desired state
  in a bounded number of ticks and then reports it. The locale \<open>lawful_game\<close> states the laws of
  such a game; the ready mock is an instance.
\<close>

section \<open>Desired states without conflicts\<close>

lemma bm_get_or_insert_at:
  "bm_get (bm_or_insert k v m) x = (if x = k \<and> bm_get m k = None then Some v else bm_get m x)"
  by (simp add: bm_get_or_insert)

text \<open>Ledger entries in index order, and no flag that a grant sets as a companion is wanted clear.\<close>

definition coherent :: "desired_state \<Rightarrow> bool" where
  "coherent d \<longleftrightarrow> sorted (map lg_index (ds_ledgered d)) \<and>
     (\<forall>e \<in> set (entries (ds_unique_goods d)). \<forall>f \<in> set (snd e). bm_get (ds_flags d) f = Some True)"

lemma coherent_companion:
  "coherent d \<Longrightarrow> bm_get (ds_unique_goods d) x = Some cs \<Longrightarrow> f \<in> set cs \<Longrightarrow> bm_get (ds_flags d) f = Some True"
  unfolding coherent_def entries_iff [symmetric] by (metis snd_conv)

text \<open>\<open>build\<close> never makes a conflict, whatever the stream and the slot data hold.\<close>

definition companions_wanted :: "desired_state \<Rightarrow> bool" where
  "companions_wanted d \<longleftrightarrow>
     (\<forall>x cs f. bm_get (ds_unique_goods d) x = Some cs \<longrightarrow> f \<in> set cs \<longrightarrow> bm_get (ds_flags d) f = Some True)"

lemma companions_wanted_received: "companions_wanted d \<Longrightarrow> companions_wanted (fold_received it d)"
  by (cases "ri_semantics it")
     (auto simp: companions_wanted_def bm_get_fold_true sem_goods_def sem_flags_def split: if_splits)

lemma companions_wanted_land: "companions_wanted d \<Longrightarrow> companions_wanted (land_copy t ov p d)"
proof -
  have flag: "companions_wanted (fold want_flag fs d)" if "companions_wanted d" for fs d
    using that by (auto simp: companions_wanted_def bm_get_fold_true)
  have "companions_wanted (or_want_good g d)" if "companions_wanted d" for g d
    using that by (auto simp: companions_wanted_def or_want_good_def bm_get_or_insert_at split: if_splits)
  then have good: "companions_wanted (fold or_want_good gs d)" if "companions_wanted d" for gs d
    using that by (induction gs arbitrary: d) auto
  have "companions_wanted (owe i g q a d)" if "companions_wanted d" for i g q a d
    using that by (auto simp: companions_wanted_def)
  moreover from this have "companions_wanted (fold (\<lambda>g. owe i g 1 True) gs d)"
    if "companions_wanted d" for i gs d
    using that by (induction gs arbitrary: d) auto
  ultimately show "companions_wanted d \<Longrightarrow> companions_wanted (land_copy t ov p d)"
    using flag good by (auto simp: land_copy_def Let_def split: prod.split)
qed

lemma fold_keeps: "(\<And>x d. P d \<Longrightarrow> P (f x d)) \<Longrightarrow> P d \<Longrightarrow> P (fold f xs d)"
  by (induction xs arbitrary: d) auto

lemma build_coherent: "coherent (build inputs)"
proof -
  have "companions_wanted (fold seal_flag fs empty_desired)" for fs
    by (rule fold_keeps) (auto simp: companions_wanted_def seal_flag_def empty_desired_def bm_get_or_insert_at)
  then have "companions_wanted (build_slot sd empty_desired)" for sd
    unfolding build_slot_def
    by (rule fold_keeps [rotated]) (auto simp: companions_wanted_def)
  then have "companions_wanted (build_start_items sis (build_slot sd empty_desired))" for sis sd
    unfolding build_start_items_def
    by (rule fold_keeps [rotated]) (auto simp: companions_wanted_def owe_start_item_def)
  then have "companions_wanted (fold fold_received rs (build_start_items sis (build_slot sd empty_desired)))"
    for rs sis sd
    by (rule fold_keeps [rotated]) (rule companions_wanted_received)
  then have "companions_wanted
      (build_progressive rs' (fold fold_received rs (build_start_items sis (build_slot sd empty_desired))))"
    for rs' rs sis sd
    unfolding build_progressive_def land_group_def case_prod_beta Let_def
    by (rule fold_keeps [rotated]) (auto intro: fold_keeps companions_wanted_land)
  then have "companions_wanted (build inputs)"
    by (simp add: build_def Let_def companions_wanted_def)
  then show ?thesis
    by (auto simp: coherent_def companions_wanted_def entries_iff build_def Let_def)
qed

section \<open>Lawful games\<close>

definition calm :: "reconciler \<Rightarrow> bool" where
  "calm r \<longleftrightarrow> rc_stalled_goods r = bs_empty \<and> rc_stalled_flags r = bs_empty"

lemma calm_score: "calm r \<Longrightarrow> calm (fst (score_good True x r))" "calm r \<Longrightarrow> calm (fst (score_flag True f r))"
  by (simp_all add: calm_def score_good_def score_flag_def)

lemma calm_parked: "calm r \<Longrightarrow> \<not> parked r a"
  by (cases a) (simp_all add: calm_def)

lemma bs_remove_empty: "bs_remove x bs_empty = bs_empty"
  by (simp add: bs_remove_def bs_empty_def bm_remove_absent)

lemma calm_rearmed: "calm r \<Longrightarrow> calm (rearmed io r g)"
  by (simp add: calm_def rearmed_def rearm_on_world_edge_def rearm_grant_stalls_def)

lemma calm_observe: "calm r \<Longrightarrow> calm (observe ob r)"
proof -
  have "calm (forget_goods gs r)" if "calm r" for gs r
    unfolding forget_goods_def by (rule fold_keeps [where P = calm, OF _ that]) (simp add: calm_def bs_remove_empty)
  moreover have "calm (forget_protectors gs r)" if "calm r" for gs r
    unfolding forget_protectors_def by (rule fold_keeps [where P = calm, OF _ that]) (simp add: calm_def bs_remove_empty)
  moreover have "calm (forget_flags es r)" if "calm r" for es r
    unfolding forget_flags_def
    by (rule fold_keeps [where P = calm, OF _ that]) (auto simp: calm_def bs_remove_empty split: prod.split)
  ultimately show "calm r \<Longrightarrow> calm (observe ob r)" by (simp add: observe_def)
qed

lemma calm_tick_rec: "calm r \<Longrightarrow> calm (tick_rec io r g)"
  by (simp add: tick_rec_def calm_observe calm_rearmed)

text \<open>What is still to do, and the plan of a settled tick with nothing parked.\<close>

definition pending :: "'g game_io \<Rightarrow> reconciler \<Rightarrow> 'g \<Rightarrow> action list" where
  "pending io r g = filter (\<lambda>a. \<not> achieved io g (rc_applied_watermark r) a) (goals (rc_desired r))"

lemma tick_plan_pending:
  assumes "stable (io_stability io g)" "calm r"
  shows "tick_plan io ALL_CLASSES r g = pending io r g"
proof -
  have "allows ALL_CLASSES a" for a by (cases a) (simp_all add: ALL_CLASSES_def)
  then have "tick_plan io ALL_CLASSES r g = diff (rc_desired r) (snapshot io (rearmed io r g) g True)"
    using assms
    by (simp add: tick_plan_def plan_def tick_classes_def calm_parked calm_tick_rec tick_observed_def
          frame_simps)
  also have "\<dots> = pending io r g"
    using diff_snapshot [of "rearmed io r g" io g] by (simp add: pending_def frame_simps)
  finally show ?thesis .
qed

locale lawful_game =
  fixes io :: "'g game_io"
    and ready :: "'g \<Rightarrow> bool"
  assumes ready_stable: "ready g \<Longrightarrow> stable (io_stability io g)"
    and set_flag_ok: "ready g \<Longrightarrow> fst (io_set_flag io f on g) \<and> ready (snd (io_set_flag io f on g))"
    and set_flag_get: "ready g \<Longrightarrow>
      io_get_flag io (snd (io_set_flag io f on g)) f' = (if f' = f then on else io_get_flag io g f')"
    and set_flag_good: "ready g \<Longrightarrow> io_has_good io g y \<Longrightarrow> io_has_good io (snd (io_set_flag io f on g)) y"
    and set_flag_prot: "ready g \<Longrightarrow> io_has_protector io g p \<Longrightarrow>
      io_has_protector io (snd (io_set_flag io f on g)) p"
    and grant_good_ok: "ready g \<Longrightarrow> fst (io_grant_good io x cs g) \<and> ready (snd (io_grant_good io x cs g))"
    and grant_good_good: "ready g \<Longrightarrow> y = x \<or> io_has_good io g y \<Longrightarrow>
      io_has_good io (snd (io_grant_good io x cs g)) y"
    and grant_good_prot: "ready g \<Longrightarrow> io_has_protector io g p \<Longrightarrow>
      io_has_protector io (snd (io_grant_good io x cs g)) p"
    and grant_good_flag: "ready g \<Longrightarrow>
      io_get_flag io (snd (io_grant_good io x cs g)) f = io_get_flag io g f \<or>
      f \<in> set cs \<and> io_get_flag io (snd (io_grant_good io x cs g)) f"
    and grant_prot_ok: "ready g \<Longrightarrow>
      fst (io_grant_protector io q g) \<and> ready (snd (io_grant_protector io q g))"
    and grant_prot_good: "ready g \<Longrightarrow> io_has_good io g y \<Longrightarrow>
      io_has_good io (snd (io_grant_protector io q g)) y"
    and grant_prot_prot: "ready g \<Longrightarrow> p = q \<or> io_has_protector io g p \<Longrightarrow>
      io_has_protector io (snd (io_grant_protector io q g)) p"
    and grant_prot_flag: "ready g \<Longrightarrow>
      io_get_flag io (snd (io_grant_protector io q g)) f = io_get_flag io g f"
    and grant_ledgered_ok: "ready g \<Longrightarrow>
      fst (io_grant_ledgered io x n g) \<and> ready (snd (io_grant_ledgered io x n g))"
    and grant_ledgered_good: "ready g \<Longrightarrow> io_has_good io g y \<Longrightarrow>
      io_has_good io (snd (io_grant_ledgered io x n g)) y"
    and grant_ledgered_prot: "ready g \<Longrightarrow> io_has_protector io g p \<Longrightarrow>
      io_has_protector io (snd (io_grant_ledgered io x n g)) p"
    and grant_ledgered_flag: "ready g \<Longrightarrow>
      io_get_flag io (snd (io_grant_ledgered io x n g)) f = io_get_flag io g f"
begin

text \<open>A step keeps what is achieved; the watermark may move up.\<close>

definition progress :: "desired_state \<Rightarrow> 'g \<Rightarrow> item_index \<Rightarrow> 'g \<Rightarrow> item_index \<Rightarrow> bool" where
  "progress d g wm g' wm' \<longleftrightarrow>
     (\<forall>a \<in> set (goals d). achieved io g wm a \<longrightarrow> achieved io g' wm' a)"

lemma progress_trans: "progress d g wm g1 wm1 \<Longrightarrow> progress d g1 wm1 g2 wm2 \<Longrightarrow> progress d g wm g2 wm2"
  by (simp add: progress_def)

lemma progressI:
  assumes "\<And>f. bm_get (ds_flags d) f = Some True \<Longrightarrow> io_get_flag io g f \<Longrightarrow> io_get_flag io g' f"
    "\<And>f. bm_get (ds_flags d) f = Some False \<Longrightarrow> \<not> io_get_flag io g f \<Longrightarrow> \<not> io_get_flag io g' f"
    "\<And>x. io_has_good io g x \<Longrightarrow> io_has_good io g' x"
    "\<And>p. io_has_protector io g p \<Longrightarrow> io_has_protector io g' p"
    "wm \<le> wm'"
  shows "progress d g wm g' wm'"
  unfolding progress_def
proof (intro ballI impI)
  fix a assume "a \<in> set (goals d)" "achieved io g wm a"
  then show "achieved io g' wm' a"
    using assms by - (cases a; auto simp: set_goals)
qed

lemma set_flag_progress:
  assumes "ready g" "bm_get (ds_flags d) f = Some on"
  shows "progress d g wm (snd (io_set_flag io f on g)) wm"
  using assms by (intro progressI) (auto simp: set_flag_get set_flag_good set_flag_prot split: if_splits)

lemma grant_good_progress:
  assumes "ready g" "coherent d" "bm_get (ds_unique_goods d) x = Some cs"
  shows "progress d g wm (snd (io_grant_good io x cs g)) wm"
proof (rule progressI)
  fix f assume "bm_get (ds_flags d) f = Some False" "\<not> io_get_flag io g f"
  then show "\<not> io_get_flag io (snd (io_grant_good io x cs g)) f"
    using grant_good_flag [OF assms(1), of x cs f] coherent_companion [OF assms(2,3), of f] by auto
next
  fix f assume "io_get_flag io g f"
  then show "io_get_flag io (snd (io_grant_good io x cs g)) f"
    using grant_good_flag [OF assms(1), of x cs f] by auto
qed (simp_all add: grant_good_good grant_good_prot assms(1))

text \<open>One action of pass 1: it is applied and achieved, or deferred.\<close>

definition settled :: "desired_state \<Rightarrow> 'g pass_state \<Rightarrow> 'g pass_state \<Rightarrow> bool" where
  "settled d ps ps' \<longleftrightarrow> ready (ps_game ps') \<and> calm (ps_rec ps') \<and>
     progress d (ps_game ps) (rc_applied_watermark (ps_rec ps)) (ps_game ps') (rc_applied_watermark (ps_rec ps')) \<and>
     set (ps_applied ps) \<subseteq> set (ps_applied ps') \<and> (ps_deferred ps \<longrightarrow> ps_deferred ps')"

definition wm_of :: "'g pass_state \<Rightarrow> item_index" where
  "wm_of ps = rc_applied_watermark (ps_rec ps)"

definition landed :: "'g pass_state \<Rightarrow> action \<Rightarrow> bool" where
  "landed ps a \<longleftrightarrow> a \<in> set (ps_applied ps) \<and> achieved io (ps_game ps) (wm_of ps) a"

lemma settled_refl: "ready (ps_game ps) \<Longrightarrow> calm (ps_rec ps) \<Longrightarrow> settled d ps ps"
  by (simp add: settled_def progress_def)

lemma settled_trans: "settled d a b \<Longrightarrow> settled d b c \<Longrightarrow> settled d a c"
  unfolding settled_def using progress_trans by blast

lemma settled_landed: "settled d a b \<Longrightarrow> x \<in> set (goals d) \<Longrightarrow> landed a x \<Longrightarrow> landed b x"
  by (auto simp: settled_def landed_def progress_def wm_of_def)

definition room :: "tick_budget \<Rightarrow> bool \<Rightarrow> 'g pass_state \<Rightarrow> bool" where
  "room b ga ps \<longleftrightarrow> ga \<and> ps_flags_used ps < tb_flags b \<and> ps_goods_used ps < tb_goods b"

lemma apply_flag_lawful:
  assumes "ready (ps_game ps)" "calm (ps_rec ps)" "bm_get (ds_flags d) f = Some on"
    "a = (if on then SetFlag f else ClearFlag f)"
  shows "settled d ps (apply_flag io b a f on ps) \<and>
    (if ps_flags_used ps < tb_flags b then landed (apply_flag io b a f on ps) a
     else ps_deferred (apply_flag io b a f on ps))"
  using assms set_flag_ok [OF assms(1), of f on] set_flag_progress [OF assms(1,3)]
    set_flag_get [OF assms(1), of f on]
  by (auto simp: apply_flag_def Let_def case_prod_beta settled_refl settled_def landed_def
        score_frame calm_score progress_def wm_of_def)

lemma apply_grant_unique_lawful:
  assumes "ready (ps_game ps)" "calm (ps_rec ps)" "coherent d" "bm_get (ds_unique_goods d) x = Some cs"
  shows "settled d ps (apply_grant_unique io b ga x cs ps) \<and>
    (if ga \<and> ps_goods_used ps < tb_goods b then landed (apply_grant_unique io b ga x cs ps) (GrantUnique x cs)
     else ps_deferred (apply_grant_unique io b ga x cs ps))"
  using assms grant_good_ok [OF assms(1), of x cs] grant_good_progress [OF assms(1,3,4)]
    grant_good_good [OF assms(1), of x x cs]
  by (auto simp: apply_grant_unique_def Let_def case_prod_beta settled_refl settled_def landed_def
        score_frame calm_score progress_def wm_of_def)

lemma apply_grant_protector_lawful:
  assumes "ready (ps_game ps)" "calm (ps_rec ps)"
  shows "settled d ps (apply_grant_protector io b ga p ps) \<and>
    (if ga \<and> ps_goods_used ps < tb_goods b then landed (apply_grant_protector io b ga p ps) (GrantUniqueProtector p)
     else ps_deferred (apply_grant_protector io b ga p ps))"
proof -
  have "progress d (ps_game ps) wm (snd (io_grant_protector io p (ps_game ps))) wm" for wm
    by (rule progressI) (simp_all add: grant_prot_flag grant_prot_good grant_prot_prot assms(1))
  then show ?thesis
    using assms grant_prot_ok [OF assms(1), of p] grant_prot_prot [OF assms(1), of p p]
    by (auto simp: apply_grant_protector_def Let_def case_prod_beta settled_refl settled_def landed_def
          score_frame calm_score progress_def wm_of_def)
qed

lemma pass1_step_lawful:
  assumes "ready (ps_game ps)" "calm (ps_rec ps)" "coherent d" "a \<in> set (goals d)"
  shows "settled d ps (pass1_step io b ga a ps) \<and> (\<not> is_ledger a \<longrightarrow>
    (landed (pass1_step io b ga a ps) a \<or> ps_deferred (pass1_step io b ga a ps)) \<and>
    (room b ga ps \<longrightarrow> landed (pass1_step io b ga a ps) a))"
proof (cases a)
  case (SetFlag f)
  with assms(4) have "bm_get (ds_flags d) f = Some True" by (simp add: set_goals)
  from apply_flag_lawful [OF assms(1,2) this, of a b] SetFlag show ?thesis by (auto simp: room_def split: if_splits)
next
  case (ClearFlag f)
  with assms(4) have "bm_get (ds_flags d) f = Some False" by (simp add: set_goals)
  from apply_flag_lawful [OF assms(1,2) this, of a b] ClearFlag show ?thesis by (auto simp: room_def split: if_splits)
next
  case (GrantUnique x cs)
  with assms(4) have "bm_get (ds_unique_goods d) x = Some cs" by (simp add: set_goals)
  from apply_grant_unique_lawful [OF assms(1-3) this, of b ga] GrantUnique show ?thesis
    by (auto simp: room_def split: if_splits)
next
  case (GrantUniqueProtector p)
  with apply_grant_protector_lawful [OF assms(1,2), of d b ga p] show ?thesis
    by (auto simp: room_def split: if_splits)
qed (simp_all add: settled_refl assms(1,2))

lemma pass1_lawful:
  assumes "ready (ps_game ps)" "calm (ps_rec ps)" "coherent d" "set as \<subseteq> set (goals d)"
  shows "settled d ps (pass1 io b ga as ps)"
    "a \<in> set as \<Longrightarrow> \<not> is_ledger a \<Longrightarrow> landed (pass1 io b ga as ps) a \<or> ps_deferred (pass1 io b ga as ps)"
    "room b ga ps \<Longrightarrow> \<exists>a \<in> set as. \<not> is_ledger a \<Longrightarrow> \<exists>a \<in> set as. landed (pass1 io b ga as ps) a"
proof -
  have "settled d ps (pass1 io b ga as ps) \<and>
    (\<forall>a \<in> set as. \<not> is_ledger a \<longrightarrow> landed (pass1 io b ga as ps) a \<or> ps_deferred (pass1 io b ga as ps)) \<and>
    (room b ga ps \<longrightarrow> (\<exists>a \<in> set as. \<not> is_ledger a) \<longrightarrow> (\<exists>a \<in> set as. landed (pass1 io b ga as ps) a))"
    using assms(1,2,4)
  proof (induction as arbitrary: ps)
    case Nil
    then show ?case by (simp add: pass1_def settled_refl)
  next
    case (Cons a as)
    let ?ps = "pass1_step io b ga a ps"
    have g: "a \<in> set (goals d)" using Cons.prems by simp
    note st = pass1_step_lawful [OF Cons.prems(1,2) assms(3) g, of b ga, THEN conjunct1]
      pass1_step_lawful [OF Cons.prems(1,2) assms(3) g, of b ga, THEN conjunct2, rule_format]
    have p: "pass1 io b ga (a # as) ps = pass1 io b ga as ?ps" by (simp add: pass1_def)
    have "ready (ps_game ?ps)" "calm (ps_rec ?ps)" using st(1) by (simp_all add: settled_def)
    note IH = Cons.IH [OF this]
    then have s: "settled d ?ps (pass1 io b ga as ?ps)" using Cons.prems(3) by simp
    have "room b ga ?ps" if "room b ga ps" "is_ledger a" using that by (cases a) simp_all
    moreover have "landed (pass1 io b ga as ?ps) a \<or> ps_deferred (pass1 io b ga as ?ps)" if "\<not> is_ledger a"
      using st(2) [OF that] settled_landed [OF s g] s unfolding settled_def by blast
    moreover have "landed (pass1 io b ga as ?ps) a" if "room b ga ps" "\<not> is_ledger a"
      using st(2) that settled_landed [OF s g] by blast
    ultimately show ?case
      unfolding p using IH Cons.prems(3) settled_trans [OF st(1) s] by auto
  qed
  then show "settled d ps (pass1 io b ga as ps)"
    "a \<in> set as \<Longrightarrow> \<not> is_ledger a \<Longrightarrow> landed (pass1 io b ga as ps) a \<or> ps_deferred (pass1 io b ga as ps)"
    "room b ga ps \<Longrightarrow> \<exists>a \<in> set as. \<not> is_ledger a \<Longrightarrow> \<exists>a \<in> set as. landed (pass1 io b ga as ps) a"
    by blast+
qed

definition in_order :: "item_index \<Rightarrow> action list \<Rightarrow> bool" where
  "in_order wm as \<longleftrightarrow> sorted (map ledger_index (filter is_ledger as)) \<and>
     (\<forall>a \<in> set as. is_ledger a \<longrightarrow> wm \<le> ledger_index a + 1)"

lemma in_order_Cons:
  "in_order wm (a # as) \<Longrightarrow> in_order (if is_ledger a then ledger_index a + 1 else wm) as"
  by (auto simp: in_order_def)

lemma pass2_lawful:
  assumes "ready (ps_game ps)" "calm (ps_rec ps)" "in_order (wm_of ps) as"
  shows "settled d ps (pass2 io b ga as ps) \<and>
    (\<forall>a \<in> set as. is_ledger a \<longrightarrow> a \<in> set (goals d) \<longrightarrow>
       landed (pass2 io b ga as ps) a \<or> ps_deferred (pass2 io b ga as ps)) \<and>
    (ga \<longrightarrow> ps_goods_used ps < tb_goods b \<longrightarrow> set as \<subseteq> set (goals d) \<longrightarrow>
       (\<exists>a \<in> set as. is_ledger a) \<longrightarrow> (\<exists>a \<in> set as. landed (pass2 io b ga as ps) a))"
  using assms
proof (induction as arbitrary: ps)
  case Nil
  then show ?case by (simp add: settled_refl)
next
  case (Cons a as)
  note o = in_order_Cons [OF Cons.prems(3)]
  have go: ?case
    if p: "pass2 io b ga (a # as) ps = pass2 io b ga as ps'" and r: "ready (ps_game ps')"
      and c: "calm (ps_rec ps')" and l: "is_ledger a" and la: "landed ps' a"
      and wm: "wm_of ps' = ledger_index a + 1" and st: "settled d ps ps'" for ps'
  proof -
    note IH = Cons.IH [OF r c] o [unfolded if_P [OF l], folded wm]
    have s: "settled d ps' (pass2 io b ga as ps')" using IH by blast
    have "landed (pass2 io b ga as ps') a" if "a \<in> set (goals d)"
      using settled_landed [OF s that la] .
    then show ?thesis unfolding p using IH settled_trans [OF st s] by auto
  qed
  have stop: ?case
    if "pass2 io b ga (a # as) ps = ps'" "settled d ps ps'" "ps_deferred ps'"
      "\<not> (ga \<and> ps_goods_used ps < tb_goods b)" for ps'
    using that by auto
  show ?case
  proof (cases a)
    case (GrantLedgered i x q)
    let ?g = "snd (io_grant_ledgered io x q (ps_game ps))"
    let ?ps = "ps\<lparr>ps_game := ?g, ps_goods_used := ps_goods_used ps + 1, ps_granted := True,
                 ps_rec := (ps_rec ps)\<lparr>rc_applied_watermark := i + 1\<rparr>,
                 ps_applied := ps_applied ps @ [a]\<rparr>"
    note ok = grant_ledgered_ok [OF Cons.prems(1), of x q]
    show ?thesis
    proof (cases "ga \<and> ps_goods_used ps < tb_goods b")
      case True
      have "wm_of ps \<le> i + 1" using Cons.prems(3) GrantLedgered by (simp add: in_order_def)
      then have "progress d (ps_game ps) (wm_of ps) ?g (i + 1)"
        by (intro progressI)
           (simp_all add: grant_ledgered_flag grant_ledgered_good grant_ledgered_prot Cons.prems(1))
      then have "settled d ps ?ps"
        using ok Cons.prems(2) by (auto simp: settled_def calm_def wm_of_def)
      moreover have "landed ?ps a" by (simp add: landed_def wm_of_def GrantLedgered)
      moreover have "pass2 io b ga (a # as) ps = pass2 io b ga as ?ps"
        using True ok GrantLedgered by (simp add: Let_def case_prod_beta)
      ultimately show ?thesis
        using ok Cons.prems(2) GrantLedgered by (intro go [of ?ps]) (simp_all add: calm_def wm_of_def)
    next
      case False
      then show ?thesis
        using GrantLedgered Cons.prems
        by (intro stop [of "ps\<lparr>ps_deferred := True\<rparr>"]) (auto simp: settled_def progress_def)
    qed
  next
    case (SkipLedgered i)
    let ?ps = "ps\<lparr>ps_rec := (ps_rec ps)\<lparr>rc_applied_watermark := i + 1\<rparr>,
                 ps_applied := ps_applied ps @ [a]\<rparr>"
    have "wm_of ps \<le> i + 1" using Cons.prems(3) SkipLedgered by (simp add: in_order_def)
    then have "progress d (ps_game ps) (wm_of ps) (ps_game ps) (i + 1)"
      by (intro progressI) simp_all
    then have "settled d ps ?ps"
      using Cons.prems(1,2) by (auto simp: settled_def calm_def wm_of_def)
    then show ?thesis
      using Cons.prems SkipLedgered
      by (intro go [of ?ps]) (simp_all add: calm_def wm_of_def landed_def)
  qed (use Cons.IH [OF Cons.prems(1,2)] o in auto)
qed

lemma pending_in_order:
  assumes "coherent (rc_desired r)"
  shows "in_order (rc_applied_watermark r) (pending io r g)"
proof -
  let ?d = "rc_desired r"
  have n: "filter is_ledger (concat (map (flag_goal d) es)) = []"
    "filter is_ledger (map (\<lambda>e. GrantUnique (fst e) (snd e)) us) = []"
    "filter is_ledger (map GrantUniqueProtector ps) = []" for d es us ps
    by (simp_all add: filter_concat_map filter_map o_def) (simp add: flag_goal_def)
  have "filter is_ledger (goals ?d) = map ledger_action (ds_ledgered ?d)"
    unfolding goals_def filter_append n by (simp add: filter_map o_def)
  moreover have "filter P (filter Q xs) = filter Q (filter P xs)" for P Q and xs :: "action list"
    by (simp add: conj_commute)
  ultimately have "filter is_ledger (pending io r g) =
      filter (\<lambda>a. \<not> achieved io g (rc_applied_watermark r) a) (map ledger_action (ds_ledgered ?d))"
    unfolding pending_def by metis
  moreover have "map ledger_index (filter P (map ledger_action ls)) =
      map lg_index (filter (\<lambda>l. P (ledger_action l)) ls)" for P ls
    by (simp add: filter_map o_def)
  ultimately have "sorted (map ledger_index (filter is_ledger (pending io r g)))"
    using assms by (simp add: coherent_def sorted_filter)
  moreover have "rc_applied_watermark r \<le> ledger_index a + 1" if "a \<in> set (pending io r g)" "is_ledger a" for a
    using that by - (cases a; auto simp: pending_def)
  ultimately show ?thesis by (simp add: in_order_def)
qed

lemma tick_lawful:
  assumes t: "tick io b r g = (out, r', g')" and rd: "ready g" and cl: "calm r"
    and co: "coherent (rc_desired r)" and b: "tb_min_grant_interval_ms b = 0" "0 < tb_flags b" "0 < tb_goods b"
  shows "ready g' \<and> calm r' \<and> rc_desired r' = rc_desired r \<and>
    (if to_converged out then pending io r' g' = [] else length (pending io r' g') < length (pending io r g))"
proof -
  let ?d = "rc_desired r"
  note st = ready_stable [OF rd]
  note pl = tick_plan_pending [OF st cl]
  show ?thesis using t unfolding tick_def
  proof (cases rule: tick_cases)
    case unstable
    with st show ?thesis by (simp add: stable_def flags_ready_def)
  next
    case idle
    with st pl rd cl show ?thesis by (simp add: calm_tick_rec pending_def frame_simps)
  next
    case (work ps)
    let ?as = "pending io r g" and ?r = "tick_rec io r g"
    let ?p0 = "start_pass ?r g"
    let ?p1 = "pass1 io b True ?as ?p0"
    let ?p2 = "pass2 io b True ?as ?p1"
    have ga: "grants_allowed b ?r n" for n by (simp add: grants_allowed_def b)
    have ps: "ps = (if ps_granted ?p2
        then ?p2\<lparr>ps_rec := (ps_rec ?p2)\<lparr>rc_last_grant_ms := Some (now_ms (io_stability io g))\<rparr>\<rparr> else ?p2)"
      unfolding work(3) pl by (simp add: apply_plan_def Let_def ga)
    have sub: "set ?as \<subseteq> set (goals ?d)" by (auto simp: pending_def)
    have p0: "ready (ps_game ?p0)" "calm (ps_rec ?p0)" "room b True ?p0" "wm_of ?p0 = rc_applied_watermark r"
      using rd cl b by (simp_all add: start_pass_def calm_tick_rec room_def wm_of_def frame_simps)
    note l1 = pass1_lawful [OF p0(1,2) co sub, where b = b and ga = True]
    have p1: "ready (ps_game ?p1)" "calm (ps_rec ?p1)" using l1(1) by (simp_all add: settled_def)
    have "wm_of ?p1 = rc_applied_watermark r" using p0(4) by (simp add: wm_of_def frame_simps)
    then have "in_order (wm_of ?p1) ?as" using pending_in_order [OF co] by simp
    note l2 = pass2_lawful [OF p1 this, of ?d b True]
    have s2: "settled ?d ?p1 ?p2" using l2 by blast
    note s = settled_trans [OF l1(1) s2]
    have some: "\<exists>a \<in> set ?as. landed ?p2 a"
    proof (cases "\<exists>a \<in> set ?as. \<not> is_ledger a")
      case True
      with l1(3) [OF p0(3)] settled_landed [OF s2] sub show ?thesis by blast
    next
      case False
      have "pass1 io b True as q = q" if "\<forall>a \<in> set as. is_ledger a" for as q
        using that
      proof (induction as)
        case (Cons a as)
        then show ?case by (cases a) (simp_all add: pass1_def)
      qed (simp add: pass1_def)
      with False have "?p1 = ?p0" by blast
      then have "ps_goods_used ?p1 < tb_goods b" using p0(3) by (simp add: room_def)
      moreover have "\<exists>a \<in> set ?as. is_ledger a"
        using False work(2) pl by (metis list.set_intros(1) neq_Nil_conv)
      ultimately show ?thesis using l2 sub by blast
    qed
    have all: "landed ?p2 a" if "a \<in> set ?as" "\<not> ps_deferred ?p2" for a
      using that l1(2) [of a] l2 settled_landed [OF s2] sub s2 unfolding settled_def by blast
    have f: "ps_game ps = ps_game ?p2" "rc_applied_watermark (ps_rec ps) = wm_of ?p2"
      "ps_deferred ps = ps_deferred ?p2" "calm (ps_rec ps) = calm (ps_rec ?p2)"
      unfolding ps by (simp_all add: wm_of_def calm_def)
    have d: "rc_desired (ps_rec ps) = ?d" unfolding work(3) by (simp add: frame_simps)
    have pr: "progress ?d g (rc_applied_watermark r) (ps_game ?p2) (wm_of ?p2)"
      using s p0(4) by (simp add: settled_def wm_of_def start_pass_def frame_simps)
    then have pend: "pending io (ps_rec ps) (ps_game ps) =
        filter (\<lambda>a. \<not> achieved io (ps_game ?p2) (wm_of ?p2) a) ?as"
      unfolding pending_def f d filter_filter by (intro filter_cong) (auto simp: progress_def)
    have "length (pending io (ps_rec ps) (ps_game ps)) < length ?as"
      using some unfolding pend landed_def by (metis length_filter_less)
    moreover have "pending io (ps_rec ps) (ps_game ps) = []" if "\<not> ps_deferred ps"
    proof -
      have "achieved io (ps_game ?p2) (wm_of ?p2) a" if "a \<in> set ?as" for a
        using all [OF that] \<open>\<not> ps_deferred ps\<close> unfolding f landed_def by blast
      then show ?thesis unfolding pend by (simp only: filter_empty_conv simp_thms) blast
    qed
    moreover have "ready (ps_game ps)" "calm (ps_rec ps)"
      using s by (simp_all add: settled_def f)
    ultimately show ?thesis
      using d by (simp add: work(5-7))
  qed
qed

lemma fixpoint_lawful:
  assumes "ready g" "calm r" "coherent (rc_desired r)" "length (pending io r g) < n"
    and b: "tb_min_grant_interval_ms b = 0" "0 < tb_flags b" "0 < tb_goods b"
  shows "\<exists>k r' g'. run_to_fixpoint io b n r g = (k, r', g') \<and> k \<le> Suc (length (pending io r g)) \<and>
    rc_desired r' = rc_desired r \<and> pending io r' g' = []"
  using assms(1-4)
proof (induction n arbitrary: r g)
  case (Suc n)
  obtain out r' g' where t: "tick io b r g = (out, r', g')" by (metis prod_cases3)
  note l = tick_lawful [OF t Suc.prems(1-3) b]
  show ?case
  proof (cases "to_converged out")
    case True
    with l t show ?thesis by simp
  next
    case False
    with l have s: "length (pending io r' g') < length (pending io r g)" by simp
    with l Suc.prems obtain k r2 g2 where f: "run_to_fixpoint io b n r' g' = (k, r2, g2)"
      "k \<le> Suc (length (pending io r' g'))" "rc_desired r2 = rc_desired r'" "pending io r2 g2 = []"
      using Suc.IH [of g' r'] by auto
    with s l t False show ?thesis by simp
  qed
qed simp

end

section \<open>The ready mock\<close>

definition mock_ready :: "mock_game \<Rightarrow> bool" where
  "mock_ready m \<longleftrightarrow> stable (mg_stability m) \<and> mg_flag_ready m \<and> mg_inventory_ready m \<and>
     \<not> mg_refuse_unique_adds m \<and> \<not> mg_discard_flag_writes m \<and>
     (mg_walk_by_capacity m \<or> mg_hidden_goods m = bs_empty)"

lemma mock_fold_true:
  "(case bm_get (fold (\<lambda>f. bm_insert f True) cs m) f of None \<Rightarrow> False | Some b \<Rightarrow> b) =
   (f \<in> set cs \<or> (case bm_get m f of None \<Rightarrow> False | Some b \<Rightarrow> b))"
  by (simp add: bm_get_fold_true)

interpretation mock_lawful: lawful_game mock_io mock_ready
  by unfold_locales
     (auto simp: mock_ready_def mock_set_flag_def mock_get_flag_def mock_has_good_def mock_grant_good_def
        mock_has_protector_def mock_grant_protector_def mock_grant_ledgered_def Let_def mock_fold_true)

lemma goals_bound: "length (pending io r g) \<le> length (goals (rc_desired r))"
  by (simp add: pending_def)

text \<open>
  C6: convergence. For every desired inputs, whatever the persisted watermark and whatever the
  game held before, with positive budgets and no pacing, \<open>run_to_fixpoint\<close> on a ready game makes
  every goal of \<open>build inputs\<close> true and keeps it true: every wanted flag is set, every owned seal
  is clear, every unique good and protector is held and the ledger is drained, in at most one tick
  more than there are goals.
\<close>

theorem run_to_fixpoint_converges:
  assumes "mock_ready m" and "tb_min_grant_interval_ms b = 0" and "0 < tb_flags b" and "0 < tb_goods b"
    and "length (goals (build inputs)) < n"
  shows "\<exists>k r m'. run_to_fixpoint mock_io b n (from_persisted inputs wm) m = (k, r, m') \<and>
    k \<le> Suc (length (goals (build inputs))) \<and>
    (\<forall>a \<in> set (goals (build inputs)). achieved mock_io m' (rc_applied_watermark r) a)"
proof -
  let ?r = "from_persisted inputs wm"
  have r: "rc_desired ?r = build inputs" "calm ?r" by (simp_all add: from_persisted_def calm_def)
  note l = goals_bound [of mock_io ?r m]
  have n: "length (pending mock_io ?r m) < n" using l assms(5) r by simp
  have c: "coherent (rc_desired ?r)" by (simp add: r build_coherent)
  obtain k r' m' where "run_to_fixpoint mock_io b n ?r m = (k, r', m')"
    "k \<le> Suc (length (pending mock_io ?r m))" "rc_desired r' = build inputs" "pending mock_io r' m' = []"
    using mock_lawful.fixpoint_lawful [OF assms(1) r(2) c n assms(2-4)] r by auto
  moreover from this l r have "k \<le> Suc (length (goals (build inputs)))" by simp
  ultimately show ?thesis by (auto simp: pending_def filter_empty_conv)
qed

theorem run_to_fixpoint_converges_witness:
  "\<exists>k r m'. run_to_fixpoint mock_io default_budget 9 (from_persisted (rc_inputs demo_rec) 0)
       (mock_default\<lparr>mg_flags := bm_insert 100 True bm_empty\<rparr>) = (k, r, m') \<and>
     k \<le> 9 \<and> \<not> mock_get_flag m' 100 \<and> mock_get_flag m' 71190 \<and> mock_has_good m' 191"
proof -
  let ?m = "mock_default\<lparr>mg_flags := bm_insert 100 True bm_empty\<rparr>"
  let ?i = "rc_inputs demo_rec"
  have m: "mock_ready ?m" by code_simp
  have b: "tb_min_grant_interval_ms default_budget = 0" "0 < tb_flags default_budget"
    "0 < tb_goods default_budget" by (simp_all add: default_budget_def)
  have n: "length (goals (build ?i)) < 9" by code_simp
  have g: "ClearFlag 100 \<in> set (goals (build ?i))" "SetFlag 71190 \<in> set (goals (build ?i))"
    "GrantUnique 191 [171] \<in> set (goals (build ?i))" by code_simp+
  obtain k r m' where k: "run_to_fixpoint mock_io default_budget 9 (from_persisted ?i 0) ?m = (k, r, m')"
    "k \<le> Suc (length (goals (build ?i)))"
    "\<forall>a \<in> set (goals (build ?i)). achieved mock_io m' (rc_applied_watermark r) a"
    using run_to_fixpoint_converges [OF m b n, of 0] by blast
  have "\<not> mock_get_flag m' 100 \<and> mock_get_flag m' 71190 \<and> mock_has_good m' 191"
    using bspec [OF k(3) g(1)] bspec [OF k(3) g(2)] bspec [OF k(3) g(3)] by simp
  with k(1,2) n show ?thesis by auto
qed

end
