(* ===== verification/ReconGates.thy ===== *)
theory ReconGates
  imports ReconConverge
begin

text \<open>
  The gates around a tick: the per-tick budgets and the pacing interval, the settle split between
  flags and goods, and the change of inputs (same seed, other seed, restored debt).
\<close>

section \<open>Budgets\<close>

fun is_flag :: "action \<Rightarrow> bool" where
  "is_flag (SetFlag _) = True"
| "is_flag (ClearFlag _) = True"
| "is_flag _ = False"

fun is_grant :: "action \<Rightarrow> bool" where
  "is_grant (GrantUnique _ _) = True"
| "is_grant (GrantUniqueProtector _) = True"
| "is_grant (GrantLedgered _ _ _) = True"
| "is_grant _ = False"

text \<open>The counters of a pass are the numbers of actions applied, and stay within the budget.\<close>

definition metered :: "tick_budget \<Rightarrow> bool \<Rightarrow> 'g pass_state \<Rightarrow> bool" where
  "metered b ga ps \<longleftrightarrow>
     length (filter is_flag (ps_applied ps)) = ps_flags_used ps \<and>
     length (filter is_grant (ps_applied ps)) = ps_goods_used ps \<and>
     ps_flags_used ps \<le> tb_flags b \<and> ps_goods_used ps \<le> (if ga then tb_goods b else 0)"

lemma metered_pass1_step: "metered b ga ps \<Longrightarrow> metered b ga (pass1_step io b ga a ps)"
  by (cases a)
     (auto simp: metered_def apply_flag_def apply_grant_unique_def apply_grant_protector_def Let_def
        case_prod_beta)

lemma metered_pass1: "metered b ga ps \<Longrightarrow> metered b ga (pass1 io b ga as ps)"
  unfolding pass1_def by (rule fold_keeps) (rule metered_pass1_step)

lemma metered_pass2: "metered b ga ps \<Longrightarrow> metered b ga (pass2 io b ga as ps)"
proof (induction io b ga as ps rule: pass2.induct)
  case (2 io b ga i gd q as ps)
  show ?case
  proof (cases "ga \<and> ps_goods_used ps < tb_goods b \<and> fst (io_grant_ledgered io gd q (ps_game ps))")
    case True
    obtain g where g: "io_grant_ledgered io gd q (ps_game ps) = (True, g)"
      using True by (cases "io_grant_ledgered io gd q (ps_game ps)") auto
    with True "2.prems" have "metered b ga (ps\<lparr>ps_game := g, ps_goods_used := ps_goods_used ps + 1,
        ps_granted := True, ps_rec := (ps_rec ps)\<lparr>rc_applied_watermark := i + 1\<rparr>,
        ps_applied := ps_applied ps @ [GrantLedgered i gd q]\<rparr>)"
      by (simp add: metered_def)
    with True g "2.IH" [of "(True, g)" True g] show ?thesis by (simp add: Let_def)
  next
    case False
    with "2.prems" show ?thesis by (auto simp: metered_def Let_def case_prod_beta)
  qed
qed (auto simp: metered_def)

text \<open>
  a tick stays within its budgets and its pacing. It applies at most \<open>flags\<close> flag writes and
  at most \<open>goods\<close> grants (unique goods, protectors and ledger entries together), and no grant at
  all while fewer than \<open>min_grant_interval_ms\<close> have passed since the last one.
\<close>

theorem tick_within_budget:
  assumes "tick_with_classes io b c r g = (out, r', g')"
  shows "length (filter is_flag (to_applied out)) \<le> tb_flags b \<and>
    length (filter is_grant (to_applied out)) \<le>
      (if grants_allowed b r (now_ms (io_stability io g)) then tb_goods b else 0)"
  using assms
proof (cases rule: tick_cases)
  case (work ps)
  let ?ga = "grants_allowed b (tick_rec io r g) (now_ms (io_stability io g))"
  let ?p0 = "start_pass (tick_rec io r g) g"
  have "metered b ?ga ?p0" by (simp add: metered_def start_pass_def)
  then have "metered b ?ga (pass2 io b ?ga (tick_plan io c r g) (pass1 io b ?ga (tick_plan io c r g) ?p0))"
    by (intro metered_pass2 metered_pass1)
  then have "metered b ?ga ps" unfolding work(3) by (simp add: apply_plan_def Let_def metered_def)
  moreover have "?ga = grants_allowed b r (now_ms (io_stability io g))"
    by (simp add: grants_allowed_def tick_rec_def frame_simps)
  ultimately show ?thesis using work(4) by (auto simp: metered_def)
qed (simp_all add: unstable_outcome_def)

theorem tick_within_budget_witness:
  "length (filter is_grant (to_applied (fst (tick_with_classes mock_io (default_budget\<lparr>tb_goods := 2\<rparr>)
      ALL_CLASSES demo_rec mock_default)))) \<le> 2 \<and>
   length (filter is_grant (to_applied (fst (tick_with_classes mock_io (default_budget\<lparr>tb_goods := 2\<rparr>)
      ALL_CLASSES demo_rec mock_default)))) = 2"
proof -
  let ?b = "default_budget\<lparr>tb_goods := 2\<rparr>"
  let ?t = "tick_with_classes mock_io ?b ALL_CLASSES demo_rec mock_default"
  have t: "?t = (fst ?t, fst (snd ?t), snd (snd ?t))" by simp
  have "length (filter is_grant (to_applied (fst ?t))) = 2" by code_simp
  moreover have "(if grants_allowed ?b demo_rec n then tb_goods ?b else 0) \<le> 2" for n by simp
  ultimately show ?thesis using tick_within_budget [OF t] by (meson order_trans)
qed

section \<open>Before the inventory has settled\<close>

text \<open>
  a tick before the settle can report \<open>converged\<close> while goods and ledger entries are owed:
  it applies its flag half, and the flag \<open>converged\<close> of that branch does not look at the settle.
  The next pre-settle tick, with an empty plan, reports the opposite.
\<close>

theorem presettle_tick_reports_converged:
  "let (out, r, m) = tick mock_io default_budget demo_rec mock_in_world_presettle;
       (out', _, _) = tick mock_io default_budget r m
   in to_converged out \<and> \<not> stable (mg_stability m) \<and>
      GrantUnique 191 [171] \<in> set (pending mock_io r m) \<and>
      GrantLedgered 1 10100 2 \<in> set (pending mock_io r m) \<and>
      to_applied out \<noteq> [] \<and> to_applied out' = [] \<and> \<not> to_converged out'"
  by code_simp

section \<open>New inputs\<close>

text \<open>
  what a change of inputs does to the ledger frontier and to the restored debt. Equal inputs
  change nothing. Another seed of the room starts over: the watermark drops to the floor of the new
  desired state and the durable debt is forgotten. The same seed, or an unnamed room, keeps the
  watermark and re-adds every durable good and protector to what is wanted.
\<close>

theorem set_inputs_spec:
  "rc_inputs (set_inputs i r) = i \<and>
   (if i = rc_inputs r then set_inputs i r = r
    else if di_seed i \<noteq> [] \<and> rc_session_seed r \<noteq> di_seed i
    then rc_applied_watermark (set_inputs i r) = ledger_floor (build i) \<and>
         rc_desired (set_inputs i r) = build i \<and>
         rc_durable_unique_goods (set_inputs i r) = bs_empty \<and>
         rc_durable_unique_protectors (set_inputs i r) = bs_empty
    else rc_applied_watermark (set_inputs i r) = rc_applied_watermark r \<and>
         ds_flags (rc_desired (set_inputs i r)) = ds_flags (build i) \<and>
         ds_ledgered (rc_desired (set_inputs i r)) = ds_ledgered (build i) \<and>
         dom (bm_get (ds_unique_goods (rc_desired (set_inputs i r)))) =
           dom (bm_get (ds_unique_goods (build i))) \<union> bs_set (rc_durable_unique_goods r) \<and>
         bs_set (ds_unique_protectors (rc_desired (set_inputs i r))) =
           bs_set (ds_unique_protectors (build i)) \<union> bs_set (rc_durable_unique_protectors r))"
proof -
  have "dom (bm_get (fold (\<lambda>g. bm_or_insert g []) gs m)) = dom (bm_get m) \<union> set gs"
    for gs and m :: "(goods_id, flag_id list) btree_map"
  proof (induction gs arbitrary: m)
    case (Cons g gs)
    have "dom (bm_get (bm_or_insert g [] m)) = insert g (dom (bm_get m))"
      by (auto simp: bm_get_or_insert)
    with Cons show ?case by auto
  qed simp
  then show ?thesis
    by (auto simp: set_inputs_def Let_def is_seed_change_def bs_set_def)
qed

lemma ledger_floor_le: "l \<in> set (ds_ledgered d) \<Longrightarrow> ledger_floor d \<le> lg_index l"
proof -
  have f: "(case xs of [] \<Rightarrow> 0 | i # is \<Rightarrow> fold min is i) \<le> x" if "x \<in> set xs" for x :: int and xs
  proof (cases xs)
    case (Cons i "is")
    have "fold min is i = Min (set xs)" unfolding Cons by (rule Min.set_eq_fold [symmetric])
    with Cons that show ?thesis using Min_le [OF finite_set that] by simp
  qed (use that in simp)
  assume "l \<in> set (ds_ledgered d)"
  then have "lg_index l \<in> set (map lg_index (ds_ledgered d))" by simp
  from f [OF this] show "ledger_floor d \<le> lg_index l" by (simp add: ledger_floor_def)
qed

text \<open>
  what a (re)start owes. A fresh character owes every ledger entry. An existing one continues
  from its persisted watermark when the server has received that far, and otherwise owes no entry
  the server already counts as received; only without any record does it start over.
\<close>

theorem seeded_owes:
  "filter (\<lambda>l. rc_applied_watermark (seeded i p rt fresh) \<le> lg_index l) (ds_ledgered (build i)) =
     (if fresh then ds_ledgered (build i)
      else case p of
        Some wm \<Rightarrow>
          if wm \<le> rt then filter (\<lambda>l. wm \<le> lg_index l) (ds_ledgered (build i))
          else if 0 < rt then filter (\<lambda>l. rt \<le> lg_index l) (ds_ledgered (build i))
          else ds_ledgered (build i)
      | None \<Rightarrow> if 0 < rt then filter (\<lambda>l. rt \<le> lg_index l) (ds_ledgered (build i))
                else ds_ledgered (build i))"
proof -
  have "filter (\<lambda>l. ledger_floor (build i) \<le> lg_index l) (ds_ledgered (build i)) = ds_ledgered (build i)"
    by (rule filter_True) (simp add: ledger_floor_le)
  then show ?thesis
    by (simp add: seeded_def new_reconciler_def from_persisted_def split: option.split)
qed

end
