(* ===== verification/BbLedger.thy ===== *)
theory BbLedger
  imports Prelude BTree
begin

text \<open>
  The receive ledger of the Bloodborne client (\<open>crates/bb-archipelago/src/ledger.rs\<close>): the
  per-slot record of what was delivered, what is planned, what is parked and what must be delivered
  again. Indices and quantities are natural numbers; the code's \<open>u64\<close> and \<open>u32\<close> enter where it
  saturates. An \<open>anyhow\<close> error is its message.
\<close>

section \<open>Data\<close>

datatype attire_slot = Head | Chest | Hands | Legs

datatype equip_target =
    RightHand nat
  | LeftHand nat
  | Attire attire_slot
  | CaryllRune nat
  | OathRune

record acknowledged_item =
  ai_ap_item_id :: int
  ai_raw_descriptor :: nat
  ai_normalized_item_id :: nat
  ai_item_category :: nat
  ai_quantity :: nat
  ai_reinforcement_level :: "nat option"
  ai_equip_target :: "equip_target option"
  ai_blocked :: "string option"

record pending_item =
  pi_index :: nat
  pi_ap_item_id :: int
  pi_raw_descriptor :: nat
  pi_normalized_item_id :: nat
  pi_item_category :: nat
  pi_quantity :: nat
  pi_upgrade_target_level :: "nat option"
  pi_reinforcement_level :: "nat option"
  pi_equip_target :: "equip_target option"
  pi_grant_complete :: bool
  pi_equip_complete :: bool
  pi_token_routed_to_storage :: bool
  pi_observed_before :: "nat option"

record victory_record =
  vr_goal_location :: int
  vr_goal_name :: string
  vr_completed_at_ms :: nat
  vr_elapsed_seconds :: "nat option"
  vr_checks_completed :: "nat option"
  vr_checks_total :: "nat option"
  vr_received_items :: "nat option"
  vr_sent_items :: "nat option"
  vr_deaths :: "nat option"
  vr_death_links :: "nat option"

record operator_action =
  oa_timestamp_ms :: nat
  oa_command :: string
  oa_argument :: int
  oa_resolved_name :: string

record slot_ledger =
  sl_bound_save_identity :: "string option"
  sl_highest_processed_index :: "nat option"
  sl_acknowledged :: "(nat, acknowledged_item) btree_map"
  sl_pending :: "pending_item option"
  sl_save_watermark :: "nat option"
  sl_redeliver :: "nat btree_set"
  sl_deferred_vial_ap :: "nat btree_set"
  sl_pending_sustain :: "(int, nat option) btree_map"
  sl_deferred_sustain_vials :: "int btree_set"
  sl_deferred_sustain_capacity :: "int btree_set"
  sl_blocked_sustain_storage :: "(int, string) btree_map"
  sl_recovered_historical_sustain_vials :: "int btree_set"
  sl_completed_sustain :: "int btree_set"
  sl_death_link_amnesty_used :: nat
  sl_death_link_first_death_graced :: bool
  sl_operator_grants :: "(int, pending_item) btree_map"
  sl_operator_grant_parks :: "(int, string) btree_map"
  sl_operator_actions :: "operator_action list"
  sl_victory :: "victory_record option"

definition default_slot :: slot_ledger where
  "default_slot = \<lparr>sl_bound_save_identity = None, sl_highest_processed_index = None,
     sl_acknowledged = bm_empty, sl_pending = None, sl_save_watermark = None,
     sl_redeliver = bs_empty, sl_deferred_vial_ap = bs_empty, sl_pending_sustain = bm_empty,
     sl_deferred_sustain_vials = bs_empty, sl_deferred_sustain_capacity = bs_empty,
     sl_blocked_sustain_storage = bm_empty, sl_recovered_historical_sustain_vials = bs_empty,
     sl_completed_sustain = bs_empty, sl_death_link_amnesty_used = 0,
     sl_death_link_first_death_graced = False, sl_operator_grants = bm_empty,
     sl_operator_grant_parks = bm_empty, sl_operator_actions = [], sl_victory = None\<rparr>"

datatype watermark_outcome = Resume | Reissue | AdoptSaveCursor | Hold

type_synonym receive_ledger = "(string, slot_ledger) btree_map"

section \<open>The ledger file's slots\<close>

text \<open>The seed and slot names around the unit separator U+001F.\<close>

definition slot_key :: "string \<Rightarrow> string \<Rightarrow> string" where
  "slot_key seed slot = seed @ CHR 0x1F # slot"

definition slot_of :: "receive_ledger \<Rightarrow> string \<Rightarrow> string \<Rightarrow> slot_ledger option" where
  "slot_of l seed slot = bm_get l (slot_key seed slot)"

definition slot_mut :: "(slot_ledger \<Rightarrow> slot_ledger) \<Rightarrow> string \<Rightarrow> string \<Rightarrow> receive_ledger \<Rightarrow> receive_ledger" where
  "slot_mut f seed slot l =
     (let l' = bm_or_insert (slot_key seed slot) default_slot l
      in case bm_get l' (slot_key seed slot) of
           None \<Rightarrow> l'
         | Some s \<Rightarrow> bm_insert (slot_key seed slot) (f s) l')"

section \<open>The receive cursor\<close>

definition next_index :: "slot_ledger \<Rightarrow> nat" where
  "next_index s =
     (case bs_list (sl_redeliver s) of
        i # _ \<Rightarrow> i
      | [] \<Rightarrow> (case sl_highest_processed_index s of None \<Rightarrow> 0 | Some i \<Rightarrow> i + 1))"

definition u32_max :: nat where "u32_max = 2 ^ 32 - 1"

definition saturating_add_u32 :: "nat \<Rightarrow> nat \<Rightarrow> nat" where
  "saturating_add_u32 a b = min u32_max (a + b)"

definition delivered_quantity :: "slot_ledger \<Rightarrow> nat \<Rightarrow> nat option \<Rightarrow> nat" where
  "delivered_quantity s item level =
     foldl saturating_add_u32 0
       (map ai_quantity (filter (\<lambda>it. ai_normalized_item_id it = item \<and> ai_reinforcement_level it = level)
         (map snd (entries (sl_acknowledged s)))))"

definition begin_item :: "pending_item \<Rightarrow> slot_ledger \<Rightarrow> string + slot_ledger" where
  "begin_item p s =
     (if pi_index p \<noteq> next_index s then Inl ''pending item is out of order''
      else (case sl_pending s of
              Some existing \<Rightarrow>
                if existing = p\<lparr>pi_observed_before := pi_observed_before existing\<rparr> then Inr s
                else Inl ''pending item plan changed before acknowledgement''
            | None \<Rightarrow> Inr (s\<lparr>sl_pending := Some p\<rparr>)))"

definition pending_for :: "nat \<Rightarrow> int \<Rightarrow> slot_ledger \<Rightarrow> string + pending_item option" where
  "pending_for index ap_item_id s =
     (case sl_pending s of
        None \<Rightarrow> Inr None
      | Some p \<Rightarrow>
          if pi_index p = index \<and> pi_ap_item_id p = ap_item_id then Inr (Some p)
          else Inl ''received item does not match the durable pending plan'')"

definition raise_pending_upgrade ::
  "nat option \<Rightarrow> nat \<Rightarrow> nat \<Rightarrow> nat \<Rightarrow> slot_ledger \<Rightarrow> string + slot_ledger" where
  "raise_pending_upgrade target raw item level s =
     (case sl_pending s of
        None \<Rightarrow> Inl ''no pending item to raise the upgrade level of''
      | Some p \<Rightarrow>
          if pi_grant_complete p
          then Inl (''pending item '' @ show_nat (pi_index p) @ '' is already granted'')
          else if \<not> (case pi_reinforcement_level p of None \<Rightarrow> True | Some current \<Rightarrow> level > current)
          then Inl (''pending item '' @ show_nat (pi_index p) @ '' cannot be re-planned downward'')
          else Inr (s\<lparr>sl_pending := Some (p\<lparr>pi_upgrade_target_level := target,
                 pi_raw_descriptor := raw, pi_normalized_item_id := item,
                 pi_reinforcement_level := Some level\<rparr>)\<rparr>))"

definition record_observed_before :: "nat \<Rightarrow> slot_ledger \<Rightarrow> string + slot_ledger" where
  "record_observed_before observed s =
     (case sl_pending s of
        None \<Rightarrow> Inl ''no pending item to record an observed baseline for''
      | Some p \<Rightarrow> Inr (s\<lparr>sl_pending := Some (p\<lparr>pi_observed_before := Some observed\<rparr>)\<rparr>))"

definition clear_observed_before :: "slot_ledger \<Rightarrow> bool \<times> slot_ledger" where
  "clear_observed_before s =
     (case sl_pending s of
        None \<Rightarrow> (False, s)
      | Some p \<Rightarrow> (pi_observed_before p \<noteq> None, s\<lparr>sl_pending := Some (p\<lparr>pi_observed_before := None\<rparr>)\<rparr>))"

definition mark_grant_complete :: "slot_ledger \<Rightarrow> string + slot_ledger" where
  "mark_grant_complete s =
     (case sl_pending s of
        None \<Rightarrow> Inl ''no pending item to mark granted''
      | Some p \<Rightarrow> Inr (s\<lparr>sl_pending := Some (p\<lparr>pi_grant_complete := True\<rparr>)\<rparr>))"

definition mark_token_routed_to_storage :: "slot_ledger \<Rightarrow> string + slot_ledger" where
  "mark_token_routed_to_storage s =
     (case sl_pending s of
        None \<Rightarrow> Inl ''no pending item to mark storage-routed''
      | Some p \<Rightarrow> Inr (s\<lparr>sl_pending := Some (p\<lparr>pi_token_routed_to_storage := True\<rparr>)\<rparr>))"

definition mark_equip_complete :: "slot_ledger \<Rightarrow> string + slot_ledger" where
  "mark_equip_complete s =
     (case sl_pending s of
        None \<Rightarrow> Inl ''no pending item to mark equipped''
      | Some p \<Rightarrow>
          if \<not> pi_grant_complete p then Inl ''cannot equip before grant completion''
          else Inr (s\<lparr>sl_pending := Some (p\<lparr>pi_equip_complete := True\<rparr>)\<rparr>))"

definition advance_cursor :: "nat \<Rightarrow> slot_ledger \<Rightarrow> slot_ledger" where
  "advance_cursor index s =
     s\<lparr>sl_redeliver := bs_remove index (sl_redeliver s),
       sl_highest_processed_index :=
         Some (case sl_highest_processed_index s of None \<Rightarrow> index | Some h \<Rightarrow> max h index)\<rparr>"

definition retire :: "nat \<Rightarrow> acknowledged_item \<Rightarrow> slot_ledger \<Rightarrow> slot_ledger" where
  "retire index it s =
     (advance_cursor index (s\<lparr>sl_acknowledged := bm_insert index it (sl_acknowledged s)\<rparr>))\<lparr>sl_pending := None\<rparr>"

definition acknowledge_blocked :: "nat \<Rightarrow> acknowledged_item \<Rightarrow> slot_ledger \<Rightarrow> string + slot_ledger" where
  "acknowledge_blocked index it s =
     (if ai_blocked it = None then Inl ''a parked acknowledgement must carry the failure detail''
      else if index \<noteq> next_index s then Inl ''blocked acknowledgement is out of order''
      else (case sl_pending s of
              None \<Rightarrow> Inl ''cannot park an item without a durable pending plan''
            | Some p \<Rightarrow> if pi_index p \<noteq> index then Inl ''pending item index changed''
                         else Inr (retire index it s)))"

definition acknowledge :: "nat \<Rightarrow> acknowledged_item \<Rightarrow> slot_ledger \<Rightarrow> string + slot_ledger" where
  "acknowledge index it s =
     (if index \<noteq> next_index s then Inl ''item acknowledgement is out of order''
      else (case sl_pending s of
              None \<Rightarrow> Inl ''cannot acknowledge an item without a durable pending plan''
            | Some p \<Rightarrow>
                if pi_index p \<noteq> index then Inl ''pending item index changed''
                else if \<not> pi_grant_complete p then Inl ''cannot acknowledge before grant completion''
                else if \<not> (pi_equip_target p = None \<or> pi_equip_complete p)
                then Inl ''cannot acknowledge before equip completion''
                else Inr (retire index it s)))"

section \<open>Parked entries\<close>

text \<open>A park reason is \<open>"{status} ({detail})"\<close>.\<close>

definition park_status :: "acknowledged_item \<Rightarrow> string option" where
  "park_status it = map_option (\<lambda>b. case split_char CHR '' '' b of [] \<Rightarrow> b | w # _ \<Rightarrow> w) (ai_blocked it)"

definition park_detail :: "acknowledged_item \<Rightarrow> string option" where
  "park_detail it =
     (case ai_blocked it of
        None \<Rightarrow> None
      | Some b \<Rightarrow> (case after_sub '' ('' b of None \<Rightarrow> None | Some d \<Rightarrow> strip_suffix '')'' d))"

definition detail_is :: "(string \<Rightarrow> bool) \<Rightarrow> acknowledged_item \<Rightarrow> bool" where
  "detail_is P it = (case park_detail it of None \<Rightarrow> False | Some d \<Rightarrow> P d)"

definition park_cause_is_fixed :: "acknowledged_item \<Rightarrow> bool" where
  "park_cause_is_fixed it =
     (case park_status it of
        None \<Rightarrow> False
      | Some st \<Rightarrow>
          if st = ''quantity_mismatch'' then True
          else if st = ''write_error'' then detail_is (\<lambda>d. ends_with d ''quantity write failed'') it
          else if st = ''failed''
          then detail_is (\<lambda>d. contains_sub d ''expected_after='' \<and>
                 contains_sub d ''native_result=4294967295'' \<and>
                 \<not> contains_sub d ''storage_retry_exhausted'') it
          else False)"

record fixed_cause_requeue =
  fc_requeued :: "nat list"
  fc_deferred :: "nat list"

text \<open>The two startup requeues differ in which entries they select.\<close>

definition requeue_one :: "nat \<Rightarrow> slot_ledger \<Rightarrow> slot_ledger" where
  "requeue_one i s = s\<lparr>sl_acknowledged := bm_remove i (sl_acknowledged s),
                      sl_redeliver := bs_insert i (sl_redeliver s)\<rparr>"

definition requeue_parks :: "(acknowledged_item \<Rightarrow> bool) \<Rightarrow> slot_ledger \<Rightarrow> fixed_cause_requeue \<times> slot_ledger" where
  "requeue_parks select s =
     (let indices = map fst (filter (\<lambda>e. select (snd e)) (entries (sl_acknowledged s)))
      in if sl_pending s \<noteq> None then (\<lparr>fc_requeued = [], fc_deferred = indices\<rparr>, s)
         else (\<lparr>fc_requeued = indices, fc_deferred = []\<rparr>, fold requeue_one indices s))"

definition requeue_fixed_cause_parks :: "slot_ledger \<Rightarrow> fixed_cause_requeue \<times> slot_ledger" where
  "requeue_fixed_cause_parks s = requeue_parks park_cause_is_fixed s"

definition requeue_now_compatible_parks ::
  "(int \<Rightarrow> bool) \<Rightarrow> slot_ledger \<Rightarrow> fixed_cause_requeue \<times> slot_ledger" where
  "requeue_now_compatible_parks compatible s =
     requeue_parks (\<lambda>it. (park_status it = Some ''unreviewed_attire'' \<or>
        park_status it = Some ''unknown_descriptor_evidence'') \<and> compatible (ai_ap_item_id it)) s"

definition blocked_entries :: "slot_ledger \<Rightarrow> (nat \<times> acknowledged_item) list" where
  "blocked_entries s = filter (\<lambda>e. ai_blocked (snd e) \<noteq> None) (entries (sl_acknowledged s))"

definition requeue_blocked :: "nat \<Rightarrow> slot_ledger \<Rightarrow> string + slot_ledger" where
  "requeue_blocked index s =
     (case bm_get (sl_acknowledged s) index of
        None \<Rightarrow> Inl (''no acknowledged entry at index '' @ show_nat index)
      | Some it \<Rightarrow>
          if ai_blocked it = None
          then Inl (''entry at index '' @ show_nat index @ '' is not a parked delivery'')
          else if sl_pending s \<noteq> None then Inl ''a delivery is already pending''
          else Inr ((requeue_one index s)\<lparr>sl_deferred_vial_ap := bs_remove index (sl_deferred_vial_ap s)\<rparr>))"

definition reissue_pending :: "nat \<Rightarrow> slot_ledger \<Rightarrow> string + slot_ledger" where
  "reissue_pending index s =
     (case sl_pending s of
        None \<Rightarrow> Inl ''no pending delivery to reissue''
      | Some p \<Rightarrow>
          if pi_index p \<noteq> index
          then Inl (''index '' @ show_nat index @
                 '' is not the pending delivery (the front of the queue is index '' @
                 show_nat (pi_index p) @ '')'')
          else if \<not> pi_grant_complete p
          then Inl (''entry at index '' @ show_nat index @
                 '' has not completed its grant yet; this is not the lost-token case '' @
                 ''(wait for the grant, or see 'retry' for a parked delivery)'')
          else Inr (s\<lparr>sl_pending := None, sl_redeliver := bs_insert index (sl_redeliver s)\<rparr>))"

text \<open>An operator's confirmation clears the park and returns its detail; the item stays delivered.\<close>

definition unblock :: "nat \<Rightarrow> slot_ledger \<Rightarrow> string + (string \<times> slot_ledger)" where
  "unblock index s =
     (case bm_get (sl_acknowledged s) index of
        None \<Rightarrow> Inl (''no acknowledged entry at index '' @ show_nat index)
      | Some it \<Rightarrow>
          (case ai_blocked it of
             None \<Rightarrow> Inl (''entry at index '' @ show_nat index @ '' is not blocked'')
           | Some d \<Rightarrow> Inr (d, s\<lparr>sl_acknowledged :=
               bm_insert index (it\<lparr>ai_blocked := None\<rparr>) (sl_acknowledged s)\<rparr>)))"

section \<open>Rewinding\<close>

definition rewind_to :: "nat \<Rightarrow> slot_ledger \<Rightarrow> nat \<times> slot_ledger" where
  "rewind_to first_missing s =
     (let acked = bm_retain (\<lambda>e. fst e < first_missing) (sl_acknowledged s)
      in (bm_len (sl_acknowledged s) - bm_len acked,
          s\<lparr>sl_acknowledged := acked,
            sl_redeliver := bm_retain (\<lambda>e. fst e < first_missing) (sl_redeliver s),
            sl_highest_processed_index := (if first_missing = 0 then None else Some (first_missing - 1)),
            sl_pending := None\<rparr>))"

definition attest_restore :: "nat \<Rightarrow> slot_ledger \<Rightarrow> nat \<times> slot_ledger" where
  "attest_restore first_missing s = rewind_to first_missing s"

definition reconcile_save_watermark :: "nat option \<Rightarrow> slot_ledger \<Rightarrow> watermark_outcome \<times> slot_ledger" where
  "reconcile_save_watermark observed s =
     (case observed of
        None \<Rightarrow> (if sl_save_watermark s \<noteq> None then Hold else Resume, s)
      | Some w \<Rightarrow>
          if sl_highest_processed_index s = Some w
          then (Resume, s\<lparr>sl_save_watermark := Some w\<rparr>)
          else if (case sl_highest_processed_index s of None \<Rightarrow> True | Some h \<Rightarrow> w > h)
          then (AdoptSaveCursor, s\<lparr>sl_highest_processed_index := Some w, sl_pending := None,
                                  sl_save_watermark := Some w\<rparr>)
          else (Reissue, (snd (rewind_to (w + 1) s))\<lparr>sl_save_watermark := Some w\<rparr>))"

end
