(* ===== verification/BbCursor.thy ===== *)
theory BbCursor
  imports BbLedger
begin

text \<open>
  The receive cursor of the Bloodborne ledger as a state machine: every operation of a slot is a
  step, and the reachable ledgers never deliver an index twice and never lose one.
\<close>

section \<open>Steps\<close>

inductive ledger_op :: "slot_ledger \<Rightarrow> slot_ledger \<Rightarrow> bool" where
  ls_begin: "begin_item p s = Inr s' \<Longrightarrow> ledger_op s s'"
| ls_raise: "raise_pending_upgrade t raw it lv s = Inr s' \<Longrightarrow> ledger_op s s'"
| ls_observed: "record_observed_before q s = Inr s' \<Longrightarrow> ledger_op s s'"
| ls_clear: "ledger_op s (snd (clear_observed_before s))"
| ls_granted: "mark_grant_complete s = Inr s' \<Longrightarrow> ledger_op s s'"
| ls_routed: "mark_token_routed_to_storage s = Inr s' \<Longrightarrow> ledger_op s s'"
| ls_equipped: "mark_equip_complete s = Inr s' \<Longrightarrow> ledger_op s s'"
| ls_ack: "acknowledge i it s = Inr s' \<Longrightarrow> ledger_op s s'"
| ls_park: "acknowledge_blocked i it s = Inr s' \<Longrightarrow> ledger_op s s'"
| ls_fixed: "ledger_op s (snd (requeue_fixed_cause_parks s))"
| ls_compatible: "ledger_op s (snd (requeue_now_compatible_parks c s))"
| ls_requeue: "requeue_blocked i s = Inr s' \<Longrightarrow> ledger_op s s'"
| ls_reissue: "reissue_pending i s = Inr s' \<Longrightarrow> ledger_op s s'"
| ls_unblock: "unblock i s = Inr (d, s') \<Longrightarrow> ledger_op s s'"

text \<open>The two operations that move the cursor without a delivery stand apart.\<close>

inductive ledger_step :: "slot_ledger \<Rightarrow> slot_ledger \<Rightarrow> bool" where
  ls_op: "ledger_op s s' \<Longrightarrow> ledger_step s s'"
| ls_rewind: "ledger_step s (snd (attest_restore k s))"
| ls_reconcile: "ledger_step s (snd (reconcile_save_watermark w s))"

inductive ledger_run :: "slot_ledger \<Rightarrow> bool" where
  lr_start: "ledger_run default_slot"
| lr_step: "ledger_run s \<Longrightarrow> ledger_step s s' \<Longrightarrow> ledger_run s'"

section \<open>The invariant\<close>

definition frontier :: "slot_ledger \<Rightarrow> nat" where
  "frontier s = (case sl_highest_processed_index s of None \<Rightarrow> 0 | Some h \<Rightarrow> h + 1)"

definition acked :: "slot_ledger \<Rightarrow> nat set" where
  "acked s = {i. bm_get (sl_acknowledged s) i \<noteq> None}"

definition ledger_wf :: "slot_ledger \<Rightarrow> bool" where
  "ledger_wf s \<longleftrightarrow>
     (\<forall>i \<in> acked s. i < frontier s \<and> \<not> bs_member (sl_redeliver s) i) \<and>
     (\<forall>i. bs_member (sl_redeliver s) i \<longrightarrow> i \<le> frontier s) \<and>
     (case sl_pending s of None \<Rightarrow> True | Some p \<Rightarrow> pi_index p = next_index s)"

lemma next_index_cases:
  obtains "bs_list (sl_redeliver s) = []" "next_index s = frontier s"
  | "bs_member (sl_redeliver s) (next_index s)"
    "\<forall>j. bs_member (sl_redeliver s) j \<longrightarrow> next_index s \<le> j"
proof (cases "bs_list (sl_redeliver s)")
  case Nil
  then show ?thesis using that(1) by (simp add: next_index_def frontier_def)
next
  case (Cons i "is")
  then show ?thesis using that(2) bs_list_Cons [OF Cons] by (simp add: next_index_def)
qed

lemma next_index_le: "ledger_wf s \<Longrightarrow> next_index s \<le> frontier s"
  by (rule next_index_cases [of s]) (auto simp: ledger_wf_def)

lemma next_index_fresh: "ledger_wf s \<Longrightarrow> next_index s \<notin> acked s"
  by (rule next_index_cases [of s]) (auto simp: ledger_wf_def)

text \<open>An operation that only rewrites the pending plan in place, or other bookkeeping.\<close>

lemma wf_cong:
  assumes "ledger_wf s" "sl_redeliver s' = sl_redeliver s"
    "sl_highest_processed_index s' = sl_highest_processed_index s" "acked s' = acked s"
    "case sl_pending s' of None \<Rightarrow> True | Some p \<Rightarrow> pi_index p = next_index s"
  shows "ledger_wf s'"
proof -
  have e: "frontier s' = frontier s" "next_index s' = next_index s"
    unfolding frontier_def next_index_def assms(2,3) by (rule refl)+
  show ?thesis using assms(1,5) unfolding ledger_wf_def e assms(2,4) by blast
qed

lemma wf_pending:
  assumes "ledger_wf s" "sl_pending s = Some p" "pi_index p' = pi_index p"
  shows "ledger_wf (s\<lparr>sl_pending := Some p'\<rparr>)"
  using assms by (intro wf_cong [OF assms(1)]) (simp_all add: acked_def ledger_wf_def)

lemma wf_default: "ledger_wf default_slot"
  by (simp add: ledger_wf_def default_slot_def acked_def)

lemma wf_retire:
  assumes wf: "ledger_wf s" and i: "i = next_index s"
  shows "ledger_wf (retire i it s)"
proof -
  let ?s = "retire i it s"
  have f: "frontier ?s = max (frontier s) (i + 1)"
    by (simp add: retire_def advance_cursor_def frontier_def split: option.split)
  have a: "acked ?s = insert i (acked s)" by (auto simp: retire_def advance_cursor_def acked_def)
  have r: "bs_member (sl_redeliver ?s) j = (j \<noteq> i \<and> bs_member (sl_redeliver s) j)" for j
    by (simp add: retire_def advance_cursor_def)
  have "sl_pending ?s = None" by (simp add: retire_def)
  moreover have "\<forall>j \<in> acked ?s. j < frontier ?s \<and> \<not> bs_member (sl_redeliver ?s) j"
    using wf unfolding f a r ledger_wf_def by (auto simp: less_max_iff_disj)
  moreover have "\<forall>j. bs_member (sl_redeliver ?s) j \<longrightarrow> j \<le> frontier ?s"
    using wf unfolding f r ledger_wf_def by (auto simp: le_max_iff_disj)
  ultimately show ?thesis unfolding ledger_wf_def by (simp only: option.case conj_absorb simp_thms)
qed

lemma requeue_fold:
  "sl_pending (fold requeue_one is s) = sl_pending s"
  "sl_highest_processed_index (fold requeue_one is s) = sl_highest_processed_index s"
  "acked (fold requeue_one is s) = acked s - set is"
  "bs_member (sl_redeliver (fold requeue_one is s)) j = (j \<in> set is \<or> bs_member (sl_redeliver s) j)"
  by (induction "is" arbitrary: s) (auto simp: requeue_one_def acked_def)

lemma wf_requeue:
  assumes "ledger_wf s" "sl_pending s = None" "set is \<subseteq> acked s"
  shows "ledger_wf (fold requeue_one is s)"
  using assms by (auto simp: ledger_wf_def requeue_fold frontier_def less_imp_le)

lemma wf_requeue_parks: "ledger_wf s \<Longrightarrow> ledger_wf (snd (requeue_parks P s))"
proof -
  have sub: "set (map fst (filter (\<lambda>e. P (snd e)) (entries (sl_acknowledged s)))) \<subseteq> acked s"
    by (auto simp: acked_def entries_iff)
  then show "ledger_wf s \<Longrightarrow> ledger_wf (snd (requeue_parks P s))"
    using wf_requeue [OF _ _ sub] by (simp add: requeue_parks_def Let_def)
qed

lemma wf_rewind: "ledger_wf s \<Longrightarrow> ledger_wf (snd (rewind_to k s))"
  by (auto simp: ledger_wf_def rewind_to_def Let_def frontier_def acked_def split: option.splits)

lemma wf_op:
  assumes "ledger_op s s'" "ledger_wf s"
  shows "ledger_wf s'"
  using assms
proof (induction rule: ledger_op.induct)
  case (ls_begin p s s')
  then show ?case
    by (auto simp: begin_item_def acked_def split: option.splits if_splits intro!: wf_cong [of s])
next
  case (ls_ack i it s s')
  then show ?case
    by (auto simp: acknowledge_def wf_retire split: option.splits if_splits)
next
  case (ls_park i it s s')
  then show ?case
    by (auto simp: acknowledge_blocked_def wf_retire split: option.splits if_splits)
next
  case (ls_requeue i s s')
  then obtain it where it: "bm_get (sl_acknowledged s) i = Some it" "sl_pending s = None"
    "s' = (requeue_one i s)\<lparr>sl_deferred_vial_ap := bs_remove i (sl_deferred_vial_ap s)\<rparr>"
    by (auto simp: requeue_blocked_def split: option.splits if_splits)
  have "ledger_wf (fold requeue_one [i] s)"
    using ls_requeue.prems it by (intro wf_requeue) (auto simp: acked_def)
  then have w: "ledger_wf (requeue_one i s)" by simp
  have "sl_pending s' = None" unfolding it(3) using it(2) by (simp add: requeue_one_def)
  with w show ?case unfolding it(3) by (intro wf_cong [OF w]) (simp_all add: acked_def)
next
  case (ls_reissue i s s')
  then obtain p where p: "sl_pending s = Some p" "pi_index p = i"
    "s' = s\<lparr>sl_pending := None, sl_redeliver := bs_insert i (sl_redeliver s)\<rparr>"
    by (auto simp: reissue_pending_def split: option.splits if_splits)
  then have "i = next_index s" using ls_reissue.prems by (simp add: ledger_wf_def)
  with ls_reissue.prems next_index_le [OF ls_reissue.prems] next_index_fresh [OF ls_reissue.prems]
  show ?case unfolding p(3) by (auto simp: ledger_wf_def frontier_def acked_def)
next
  case (ls_unblock i s d s')
  then obtain it where "bm_get (sl_acknowledged s) i = Some it"
    "s' = s\<lparr>sl_acknowledged := bm_insert i (it\<lparr>ai_blocked := None\<rparr>) (sl_acknowledged s)\<rparr>"
    by (auto simp: unblock_def split: option.splits)
  with ls_unblock.prems show ?case
    by (intro wf_cong [OF ls_unblock.prems]) (auto simp: acked_def ledger_wf_def)
next
  case (ls_raise t raw it lv s s')
  then show ?case
    by (auto simp: raise_pending_upgrade_def wf_pending split: option.splits if_splits)
next
  case (ls_observed q s s')
  then show ?case by (auto simp: record_observed_before_def wf_pending split: option.splits)
next
  case (ls_clear s)
  then show ?case by (auto simp: clear_observed_before_def wf_pending split: option.split)
next
  case (ls_granted s s')
  then show ?case by (auto simp: mark_grant_complete_def wf_pending split: option.splits)
next
  case (ls_routed s s')
  then show ?case by (auto simp: mark_token_routed_to_storage_def wf_pending split: option.splits)
next
  case (ls_equipped s s')
  then show ?case by (auto simp: mark_equip_complete_def wf_pending split: option.splits if_splits)
qed (simp_all add: wf_requeue_parks requeue_fixed_cause_parks_def requeue_now_compatible_parks_def)

lemma wf_step:
  assumes "ledger_step s s'" "ledger_wf s"
  shows "ledger_wf s'"
  using assms
proof (induction rule: ledger_step.induct)
  case (ls_reconcile s w)
  have ad: "ledger_wf (s\<lparr>sl_highest_processed_index := Some v, sl_pending := None, sl_save_watermark := x\<rparr>)"
    if "case sl_highest_processed_index s of None \<Rightarrow> True | Some h \<Rightarrow> h < v" for v x
    using that ls_reconcile by (auto simp: ledger_wf_def frontier_def acked_def split: option.splits)
  have wm: "ledger_wf (t\<lparr>sl_save_watermark := x\<rparr>)" if "ledger_wf t" for t x
    using that by (intro wf_cong [OF that]) (simp_all add: acked_def ledger_wf_def)
  show ?case
    using ls_reconcile wm [OF ls_reconcile] wm [OF wf_rewind [OF ls_reconcile]] ad
    by (auto simp: reconcile_save_watermark_def split: option.splits)
qed (simp_all add: wf_op attest_restore_def wf_rewind)

lemma wf_run: "ledger_run s \<Longrightarrow> ledger_wf s"
  by (induction rule: ledger_run.induct) (auto intro: wf_default wf_step)

text \<open>
  C8: no index is delivered twice. In every ledger reachable from an empty one, by any sequence of
  plans, grants, acknowledgements, parks, requeues, reissues, restores and watermark
  reconciliations, the next index to deliver is not an acknowledged one and lies at most one past
  the cursor, every acknowledged index is behind the cursor and not queued again, and a pending plan
  is for the next index.
\<close>

theorem next_delivery_is_fresh:
  assumes "ledger_run s"
  shows "bm_get (sl_acknowledged s) (next_index s) = None \<and> next_index s \<le> frontier s \<and>
    acked s \<subseteq> {..<frontier s} - bs_set (sl_redeliver s) \<and>
    (case sl_pending s of None \<Rightarrow> True | Some p \<Rightarrow> pi_index p = next_index s)"
proof -
  note wf = wf_run [OF assms]
  have "bm_get (sl_acknowledged s) (next_index s) = None"
    using next_index_fresh [OF wf] by (simp add: acked_def)
  moreover have "acked s \<subseteq> {..<frontier s} - bs_set (sl_redeliver s)"
    using wf by (auto simp: ledger_wf_def bs_set_def)
  ultimately show ?thesis
    using next_index_le [OF wf] wf by (simp add: ledger_wf_def)
qed

definition demo_ack :: acknowledged_item where
  "demo_ack = \<lparr>ai_ap_item_id = 7, ai_raw_descriptor = 0, ai_normalized_item_id = 1200,
     ai_item_category = 4, ai_quantity = 2, ai_reinforcement_level = None, ai_equip_target = None,
     ai_blocked = None\<rparr>"

definition demo_plan :: "nat \<Rightarrow> pending_item" where
  "demo_plan i = \<lparr>pi_index = i, pi_ap_item_id = 7, pi_raw_descriptor = 0, pi_normalized_item_id = 1200,
     pi_item_category = 4, pi_quantity = 2, pi_upgrade_target_level = None,
     pi_reinforcement_level = None, pi_equip_target = None, pi_grant_complete = False,
     pi_equip_complete = False, pi_token_routed_to_storage = False, pi_observed_before = None\<rparr>"

text \<open>One delivery cycle: plan, grant, acknowledge.\<close>

definition deliver :: "nat \<Rightarrow> slot_ledger \<Rightarrow> string + slot_ledger" where
  "deliver i s =
     (case begin_item (demo_plan i) s of Inl e \<Rightarrow> Inl e
      | Inr s1 \<Rightarrow> (case mark_grant_complete s1 of Inl e \<Rightarrow> Inl e
      | Inr s2 \<Rightarrow> acknowledge i demo_ack s2))"

lemma deliver_run: "ledger_run s \<Longrightarrow> deliver i s = Inr s' \<Longrightarrow> ledger_run s'"
  by (auto simp: deliver_def split: sum.splits dest!: ls_begin ls_granted ls_ack)
     (meson lr_step ls_op)

theorem next_delivery_is_fresh_witness:
  "\<exists>s. deliver 0 default_slot = Inr s \<and> next_index s = 1 \<and> bm_get (sl_acknowledged s) (next_index s) = None"
proof -
  obtain s where s: "deliver 0 default_slot = Inr s" "next_index s = 1"
    by (cases "deliver 0 default_slot") (auto simp: deliver_def begin_item_def mark_grant_complete_def
        acknowledge_def default_slot_def next_index_def demo_plan_def retire_def advance_cursor_def
        bs_list_def bm_keys_def bs_empty_def bm_empty.rep_eq bs_remove_def bm_remove_absent)
  from next_delivery_is_fresh [OF deliver_run [OF lr_start s(1)]] s show ?thesis by blast
qed

section \<open>No index is lost\<close>

text \<open>
  Runs whose restores do not point past the cursor and whose save watermark is never ahead of the
  ledger, so that the cursor advances by deliveries only.
\<close>

inductive delivery_run :: "slot_ledger \<Rightarrow> bool" where
  dr_start: "delivery_run default_slot"
| dr_op: "delivery_run s \<Longrightarrow> ledger_op s s' \<Longrightarrow> delivery_run s'"
| dr_rewind: "delivery_run s \<Longrightarrow> k \<le> frontier s \<Longrightarrow> delivery_run (snd (attest_restore k s))"
| dr_reconcile: "delivery_run s \<Longrightarrow> reconcile_save_watermark w s = (out, s') \<Longrightarrow>
    out \<noteq> AdoptSaveCursor \<Longrightarrow> delivery_run s'"

definition complete :: "slot_ledger \<Rightarrow> bool" where
  "complete s \<longleftrightarrow> (\<forall>i < frontier s. i \<in> acked s \<or> bs_member (sl_redeliver s) i)"

lemma delivery_run_wf: "delivery_run s \<Longrightarrow> ledger_wf s"
proof (induction rule: delivery_run.induct)
  case (dr_reconcile s w out s')
  then show ?case using wf_step [OF ls_reconcile [of s w]] by simp
qed (auto intro: wf_default wf_op wf_step ls_rewind)

lemma complete_retire:
  assumes "ledger_wf s" "complete s" "i = next_index s"
  shows "complete (retire i it s)"
  using assms next_index_le [OF assms(1)]
  by (auto simp: complete_def retire_def advance_cursor_def frontier_def acked_def less_Suc_eq_le
        split: option.splits)

lemma complete_rewind: "complete s \<Longrightarrow> k \<le> frontier s \<Longrightarrow> complete (snd (rewind_to k s))"
  by (auto simp: complete_def rewind_to_def Let_def frontier_def acked_def split: option.splits)
     (metis less_le_trans option.distinct(1))

lemma complete_requeue: "complete s \<Longrightarrow> complete (fold requeue_one is s)"
  by (auto simp: complete_def requeue_fold frontier_def)

lemma complete_cong:
  "complete s \<Longrightarrow> sl_highest_processed_index s' = sl_highest_processed_index s \<Longrightarrow>
   acked s' = acked s \<Longrightarrow> bs_set (sl_redeliver s) \<subseteq> bs_set (sl_redeliver s') \<Longrightarrow> complete s'"
  by (auto simp: complete_def frontier_def bs_set_def)

lemma complete_op:
  assumes "ledger_op s s'" "ledger_wf s" "complete s"
  shows "complete s'"
  using assms
proof (induction rule: ledger_op.induct)
  case (ls_ack i it s s')
  then show ?case
    by (auto simp: acknowledge_def complete_retire split: option.splits if_splits)
next
  case (ls_park i it s s')
  then show ?case
    by (auto simp: acknowledge_blocked_def complete_retire split: option.splits if_splits)
next
  case (ls_requeue i s s')
  have "complete (requeue_one i s)" using complete_requeue [OF ls_requeue.prems(2), of "[i]"] by simp
  with ls_requeue.hyps show ?case
    by (auto simp: requeue_blocked_def acked_def split: option.splits if_splits elim!: complete_cong)
next
  case (ls_begin p s s')
  then show ?case
    by (auto simp: begin_item_def acked_def split: option.splits if_splits elim!: complete_cong)
next
  case (ls_unblock i s d s')
  then show ?case
    by (auto simp: unblock_def acked_def split: option.splits if_splits elim!: complete_cong)
next
  case (ls_raise t raw it lv s s')
  then show ?case
    by (auto simp: raise_pending_upgrade_def acked_def split: option.splits if_splits elim!: complete_cong)
next
  case (ls_reissue i s s')
  then show ?case
    by (auto simp: reissue_pending_def acked_def split: option.splits if_splits elim!: complete_cong)
qed (auto simp: requeue_fixed_cause_parks_def requeue_now_compatible_parks_def requeue_parks_def Let_def
       complete_requeue record_observed_before_def clear_observed_before_def mark_grant_complete_def
       mark_token_routed_to_storage_def mark_equip_complete_def acked_def
       split: option.splits if_splits elim!: complete_cong)

text \<open>
  C18: no index is lost. As long as the cursor moves by deliveries and proven restores only, every
  index behind it has been acknowledged, as a delivery or as a park, or waits in the redelivery
  queue; nothing is skipped, whatever the order of requeues, reissues, parks and rewinds.
\<close>

theorem every_index_accounted_for:
  assumes "delivery_run s"
  shows "{..<frontier s} \<subseteq> acked s \<union> bs_set (sl_redeliver s)"
proof -
  have "complete s" using assms
  proof (induction rule: delivery_run.induct)
    case dr_start
    then show ?case by (simp add: complete_def frontier_def default_slot_def)
  next
    case (dr_op s s')
    then show ?case by (meson complete_op delivery_run_wf)
  next
    case (dr_rewind s k)
    then show ?case by (simp add: attest_restore_def complete_rewind)
  next
    case (dr_reconcile s w out s')
    have wm: "complete (t\<lparr>sl_save_watermark := x\<rparr>)" if "complete t" for t x
      using that by (rule complete_cong) (simp_all add: acked_def)
    have "complete (snd (rewind_to (Suc v) s))" if "sl_highest_processed_index s = Some h" "\<not> h < v" for v h
      using that dr_reconcile.IH by (intro complete_rewind) (simp_all add: frontier_def)
    then show ?case
      using dr_reconcile wm by (auto simp: reconcile_save_watermark_def split: option.splits if_splits)
  qed
  then show ?thesis by (auto simp: complete_def bs_set_def)
qed

theorem every_index_accounted_for_witness:
  "\<exists>s. deliver 0 default_slot = Inr s \<and> {..<frontier s} = {0} \<and> 0 \<in> acked s \<union> bs_set (sl_redeliver s)"
proof -
  obtain s where s: "deliver 0 default_slot = Inr s" "frontier s = 1"
    by (cases "deliver 0 default_slot") (auto simp: deliver_def begin_item_def mark_grant_complete_def
        acknowledge_def default_slot_def next_index_def demo_plan_def retire_def advance_cursor_def
        bs_list_def bm_keys_def bs_empty_def bm_empty.rep_eq frontier_def)
  then have "delivery_run s"
    by (auto simp: deliver_def split: sum.splits dest!: ls_begin ls_granted ls_ack)
       (meson dr_op dr_start)
  from every_index_accounted_for [OF this] s show ?thesis by (auto simp: lessThan_Suc)
qed

section \<open>Reconciliation with the save\<close>

text \<open>
  the one defined outcome of every comparison with the save's watermark. An unreadable
  watermark changes nothing and holds exactly when one was recorded. Otherwise the cursor and the
  recorded watermark are the save's afterwards, so that asking again resumes without a change; a
  restored save re-issues exactly the erased tail, and a save ahead of the ledger keeps every record.
\<close>

theorem reconcile_outcomes:
  "case observed of
     None \<Rightarrow> reconcile_save_watermark None s = (if sl_save_watermark s = None then Resume else Hold, s)
   | Some w \<Rightarrow>
       (let (out, s') = reconcile_save_watermark (Some w) s in
        out = (if frontier s = w + 1 then Resume else if frontier s \<le> w then AdoptSaveCursor else Reissue) \<and>
        sl_highest_processed_index s' = Some w \<and> sl_save_watermark s' = Some w \<and>
        reconcile_save_watermark (Some w) s' = (Resume, s') \<and>
        acked s' = (if frontier s \<le> w + 1 then acked s else acked s \<inter> {..w}) \<and>
        sl_pending s' = (if frontier s = w + 1 then sl_pending s else None))"
proof (cases observed)
  case None
  then show ?thesis by (simp add: reconcile_save_watermark_def)
next
  case (Some w)
  show ?thesis
  proof (cases "sl_highest_processed_index s")
    case None
    with Some show ?thesis by (auto simp: reconcile_save_watermark_def frontier_def acked_def)
  next
    case h: (Some h)
    consider "h = w" | "h < w" | "w < h" by linarith
    then show ?thesis
    proof cases
      case 3
      with Some h show ?thesis
        by (auto simp: reconcile_save_watermark_def frontier_def acked_def rewind_to_def Let_def
              less_Suc_eq_le split: option.splits if_splits)
    qed (use Some h in \<open>auto simp: reconcile_save_watermark_def frontier_def acked_def\<close>)
  qed
qed

text \<open>
  adopting the save's cursor does not empty the redelivery queue. A granted item that was
  reissued stays queued although the adopted cursor counts it as delivered, so it is granted again;
  the documentation of \<open>AdoptSaveCursor\<close> promises that nothing is.
\<close>

theorem adopted_cursor_redelivers:
  "\<exists>s. ledger_run s \<and>
     (let (out, s') = reconcile_save_watermark (Some 0) s
      in out = AdoptSaveCursor \<and> sl_highest_processed_index s' = Some 0 \<and> next_index s' = 0)"
proof -
  obtain s1 s2 s3 where r: "begin_item (demo_plan 0) default_slot = Inr s1" "mark_grant_complete s1 = Inr s2"
      "reissue_pending 0 s2 = Inr s3"
    and s: "s3 = default_slot\<lparr>sl_redeliver := bs_insert 0 bs_empty\<rparr>"
    by (simp add: begin_item_def default_slot_def demo_plan_def next_index_def mark_grant_complete_def
        reissue_pending_def bs_list_def bm_keys_def bs_empty_def bm_empty.rep_eq)
  have "ledger_run s3"
    using r by (meson lr_start lr_step ls_op ls_begin ls_granted ls_reissue)
  moreover have "reconcile_save_watermark (Some 0) s3 = (AdoptSaveCursor,
      s3\<lparr>sl_highest_processed_index := Some 0, sl_pending := None, sl_save_watermark := Some 0\<rparr>)"
    unfolding s by (simp add: reconcile_save_watermark_def default_slot_def)
  moreover have "bs_list (bs_insert (0 :: nat) bs_empty) = [0]" by code_simp
  ultimately show ?thesis
    unfolding s by (intro exI [of _ s3]) (simp add: s next_index_def)
qed

section \<open>Delivered quantities\<close>

lemma saturating_foldl: "foldl saturating_add_u32 (min u32_max a) qs = min u32_max (a + sum_list qs)"
proof (induction qs arbitrary: a)
  case (Cons q qs)
  have "saturating_add_u32 (min u32_max a) q = min u32_max (a + q)"
    by (simp add: saturating_add_u32_def)
  then show ?case by (simp add: Cons add.assoc)
qed simp

text \<open>
  The delivered quantity is the exact sum over the acknowledged entries of the item at that
  reinforcement, until it passes the \<open>u32\<close> range, where it stays at the maximum.
\<close>

lemma delivered_quantity_saturates:
  "delivered_quantity s item level = min (2 ^ 32 - 1)
     (\<Sum>it \<leftarrow> filter (\<lambda>it. ai_normalized_item_id it = item \<and> ai_reinforcement_level it = level)
        (map snd (entries (sl_acknowledged s))). ai_quantity it)"
  using saturating_foldl [of 0] by (simp add: delivered_quantity_def u32_max_def)

end
