(* ===== verification/BbStore.thy ===== *)
theory BbStore
  imports BbLedger
begin

text \<open>
  The ledger file: the bounded retry of a locked file operation, loading with the backup
  generation, and the steps of a save with a crash possible between and inside any two of them.
  File contents are of an arbitrary type \<open>'b\<close>; the JSON codec is a pair of parameters.
\<close>

section \<open>Retrying\<close>

definition LEDGER_LOCK_ATTEMPTS :: nat where "LEDGER_LOCK_ATTEMPTS = 6"

text \<open>
  The loop with the attempts left, the state of the operation and the number of sleeps so far.
  \<open>None\<close> is the \<open>unreachable!\<close> behind the loop.
\<close>

fun retry_loop ::
  "('s \<Rightarrow> ('e + 'a) \<times> 's) \<Rightarrow> ('e \<Rightarrow> bool) \<Rightarrow> nat \<Rightarrow> 's \<Rightarrow> nat \<Rightarrow> (('e + 'a) \<times> 's \<times> nat) option" where
  "retry_loop operation should 0 s sleeps = None"
| "retry_loop operation should (Suc left) s sleeps =
     (case operation s of
        (Inr v, s') \<Rightarrow> Some (Inr v, s', sleeps)
      | (Inl e, s') \<Rightarrow>
          if should e \<and> 0 < left then retry_loop operation should left s' (sleeps + 1)
          else Some (Inl e, s', sleeps))"

definition retry_io_with ::
  "('s \<Rightarrow> ('e + 'a) \<times> 's) \<Rightarrow> ('e \<Rightarrow> bool) \<Rightarrow> 's \<Rightarrow> (('e + 'a) \<times> 's \<times> nat) option" where
  "retry_io_with operation should s = retry_loop operation should LEDGER_LOCK_ATTEMPTS s 0"

text \<open>The state after \<open>n\<close> calls of the operation.\<close>

fun after_calls :: "('s \<Rightarrow> ('e + 'a) \<times> 's) \<Rightarrow> nat \<Rightarrow> 's \<Rightarrow> 's" where
  "after_calls operation 0 s = s"
| "after_calls operation (Suc n) s = after_calls operation n (snd (operation s))"

lemma retry_loop_spec:
  "0 < left \<Longrightarrow> \<exists>k < left. retry_loop operation should left s sleeps =
       Some (fst (operation (after_calls operation k s)), after_calls operation (Suc k) s, sleeps + k) \<and>
     (\<forall>j < k. \<exists>e. fst (operation (after_calls operation j s)) = Inl e \<and> should e) \<and>
     (k + 1 = left \<or> (\<forall>e. fst (operation (after_calls operation k s)) = Inl e \<longrightarrow> \<not> should e))"
proof (induction "left" arbitrary: s sleeps)
  case (Suc n)
  obtain res s' where o: "operation s = (res, s')" by (cases "operation s")
  show ?case
  proof (cases "\<exists>e. res = Inl e \<and> should e \<and> 0 < n")
    case True
    then obtain e where e: "res = Inl e" "should e" "0 < n" by blast
    from Suc.IH [OF e(3), of s' "sleeps + 1"] obtain k where k: "k < n"
      "retry_loop operation should n s' (sleeps + 1) =
        Some (fst (operation (after_calls operation k s')), after_calls operation (Suc k) s', sleeps + 1 + k)"
      "\<forall>j < k. \<exists>e. fst (operation (after_calls operation j s')) = Inl e \<and> should e"
      "k + 1 = n \<or> (\<forall>e. fst (operation (after_calls operation k s')) = Inl e \<longrightarrow> \<not> should e)"
      by blast
    have "\<forall>j < Suc k. \<exists>e. fst (operation (after_calls operation j s)) = Inl e \<and> should e"
      using k(3) e o by (auto simp: less_Suc_eq_0_disj)
    with k e o show ?thesis by (intro exI [of _ "Suc k"]) simp
  next
    case False
    with o show ?thesis by (intro exI [of _ 0]) (auto split: sum.split)
  qed
qed simp

text \<open>
  a locked file operation is tried at most six times. The loop never runs off its end; it
  sleeps once per retry, every retried failure was transient, the reported result is that of the
  last call, and a transient failure is reported only after the sixth call.
\<close>

theorem retry_is_bounded:
  "\<exists>k < 6. retry_io_with operation should s =
       Some (fst (operation (after_calls operation k s)), after_calls operation (Suc k) s, k) \<and>
     (\<forall>j \<in> {..<k}. \<exists>e. fst (operation (after_calls operation j s)) = Inl e \<and> should e) \<and>
     (k = 5 \<or> (\<forall>e. fst (operation (after_calls operation k s)) \<noteq> Inl e \<or> \<not> should e))"
  using retry_loop_spec [of LEDGER_LOCK_ATTEMPTS operation should s 0]
  by (auto simp: retry_io_with_def LEDGER_LOCK_ATTEMPTS_def)

theorem retry_is_bounded_witness:
  "retry_io_with (\<lambda>n :: nat. (if n < 3 then Inl True else Inr n, n + 1)) (\<lambda>e :: bool. e) 0 =
     Some (Inr 3, 4, 3) \<and>
   (\<exists>k < 6. retry_io_with (\<lambda>n :: nat. (Inl True :: bool + nat, n + 1)) (\<lambda>e. e) 0 = Some (Inl True, Suc k, k))"
proof -
  have c: "after_calls (\<lambda>n :: nat. (Inl True :: bool + nat, Suc n)) k s = k + s" for k s
    by (induction k arbitrary: s) simp_all
  have "retry_io_with (\<lambda>n :: nat. (if n < 3 then Inl True else Inr n, n + 1)) (\<lambda>e :: bool. e) 0 =
      Some (Inr 3, 4, 3)" by code_simp
  then show ?thesis
    using retry_is_bounded [of "\<lambda>n :: nat. (Inl True :: bool + nat, n + 1)" "\<lambda>e. e" 0] by (auto simp: c)
qed

section \<open>Loading\<close>

record 'b store =
  st_live :: "'b option"
  st_backup :: "'b option"
  st_temporary :: "'b option"

definition read_generation ::
  "('b \<Rightarrow> string + receive_ledger) \<Rightarrow> 'b option \<Rightarrow> string + receive_ledger option" where
  "read_generation parse file =
     (case file of
        None \<Rightarrow> Inr None
      | Some b \<Rightarrow> (case parse b of Inl e \<Rightarrow> Inl e | Inr l \<Rightarrow> Inr (Some l)))"

definition load :: "('b \<Rightarrow> string + receive_ledger) \<Rightarrow> 'b store \<Rightarrow> string + receive_ledger" where
  "load parse st =
     (case read_generation parse (st_live st) of
        Inr (Some l) \<Rightarrow> Inr l
      | live \<Rightarrow>
          (case read_generation parse (st_backup st) of
             Inr (Some l) \<Rightarrow> Inr l
           | _ \<Rightarrow> (case live of Inl e \<Rightarrow> Inl e | Inr _ \<Rightarrow> Inr bm_empty)))"

section \<open>Saving\<close>

text \<open>
  Where a save of the contents \<open>new\<close> can be. Writing and copying a file is not atomic, so an
  interrupted or failed write leaves any contents; the final rename is atomic. A failed operation
  returns with the files as they are, which is the state before its next step.
\<close>

datatype save_point = Writing | Written | Copying | Copied | Published

inductive saving :: "'b \<Rightarrow> 'b store \<Rightarrow> save_point \<Rightarrow> 'b store \<Rightarrow> bool" for new st0 where
  sv_start: "saving new st0 Writing st0"
| sv_torn: "saving new st0 Writing st \<Longrightarrow> saving new st0 Writing (st\<lparr>st_temporary := x\<rparr>)"
| sv_written: "saving new st0 Writing st \<Longrightarrow> saving new st0 Written (st\<lparr>st_temporary := Some new\<rparr>)"
| sv_copy: "saving new st0 Written st \<Longrightarrow> st_live st \<noteq> None \<Longrightarrow> saving new st0 Copying st"
| sv_torn_copy: "saving new st0 Copying st \<Longrightarrow> saving new st0 Copying (st\<lparr>st_backup := x\<rparr>)"
| sv_copied: "saving new st0 Copying st \<Longrightarrow> saving new st0 Copied (st\<lparr>st_backup := st_live st\<rparr>)"
| sv_no_live: "saving new st0 Written st \<Longrightarrow> st_live st = None \<Longrightarrow> saving new st0 Copied st"
| sv_publish: "saving new st0 Copied st \<Longrightarrow>
    saving new st0 Published (st\<lparr>st_live := st_temporary st, st_temporary := None\<rparr>)"

lemma saving_inv:
  assumes "saving new st0 pc st"
  shows "(if pc = Published then st_live st = Some new else st_live st = st_live st0) \<and>
    (st_live st0 = None \<longrightarrow> st_backup st = st_backup st0) \<and>
    (pc \<in> {Writing, Written} \<longrightarrow> st_backup st = st_backup st0) \<and>
    (pc = Copied \<and> st_live st0 \<noteq> None \<longrightarrow> st_backup st = st_live st0) \<and>
    (pc = Copying \<longrightarrow> st_live st0 \<noteq> None) \<and>
    (pc \<in> {Written, Copying, Copied} \<longrightarrow> st_temporary st = Some new)"
  using assms by (induction rule: saving.induct) auto

text \<open>
  C9: What the next load finds after a save was interrupted anywhere, in the middle of a write or of
  the backup copy included. A completed save is what is loaded. Before that, if the live file holds a
  readable generation or is missing, the load finds exactly what it would have found before the save:
  never an error and never a silently empty ledger. From a torn live file (the ledger in memory came
  from the backup) this holds only until the backup copy begins; during the copy the load finds what
  the copy left readable, and once the copy is done, until the save is published, both generations
  are torn and the load reports the error of the live file.
\<close>

theorem save_crash_safe:
  assumes "saving new st0 pc st" and "parse new = Inr l"
  shows "load parse st =
    (if pc = Published then Inr l
     else case read_generation parse (st_live st0) of
       Inr _ \<Rightarrow> load parse st0
     | Inl e \<Rightarrow>
         if pc \<in> {Writing, Written} then load parse st0
         else if pc = Copied then Inl e
         else case read_generation parse (st_backup st) of Inr (Some kept) \<Rightarrow> Inr kept | _ \<Rightarrow> Inl e)"
  using saving_inv [OF assms(1)] assms(2)
  by (cases pc; cases "st_live st0") (auto simp: load_def read_generation_def split: sum.splits option.splits)

definition demo_parse :: "nat \<Rightarrow> string + receive_ledger" where
  "demo_parse b = (if b = 0 then Inl ''torn'' else Inr (bm_insert (slot_key ''s'' (show_nat b)) default_slot bm_empty))"

theorem save_crash_safe_witness:
  "load demo_parse \<lparr>st_live = Some 1, st_backup = Some 0, st_temporary = Some 2\<rparr> =
     load demo_parse \<lparr>st_live = Some 1, st_backup = None, st_temporary = None\<rparr>"
proof -
  let ?old = "\<lparr>st_live = Some 1, st_backup = None, st_temporary = None\<rparr> :: nat store"
  have "saving 2 ?old Copying (?old\<lparr>st_temporary := Some 2, st_backup := Some 0\<rparr>)"
    using sv_torn_copy [OF sv_copy [OF sv_written [OF sv_start [of 2 ?old]]], of "Some 0"] by simp
  moreover have "demo_parse 2 = Inr (bm_insert (slot_key ''s'' (show_nat 2)) default_slot bm_empty)"
    by (simp add: demo_parse_def)
  moreover have "read_generation demo_parse (st_live ?old) =
      Inr (Some (bm_insert (slot_key ''s'' (show_nat 1)) default_slot bm_empty))"
    by (simp add: demo_parse_def read_generation_def)
  ultimately show ?thesis by (simp add: save_crash_safe)
qed

text \<open>
  the one window that is not safe. When the live file is torn and the ledger was recovered from
  the backup, the next save copies the torn file over that backup before it publishes, so a crash in
  between leaves no readable generation and the next load fails.
\<close>

theorem torn_live_save_loses_backup:
  "\<exists>pc st. saving (2 :: nat) \<lparr>st_live = Some 0, st_backup = Some 1, st_temporary = None\<rparr> pc st \<and>
     load demo_parse \<lparr>st_live = Some 0, st_backup = Some 1, st_temporary = None\<rparr> =
       Inr (bm_insert (slot_key ''s'' (show_nat 1)) default_slot bm_empty) \<and>
     load demo_parse st = Inl ''torn''"
proof -
  let ?old = "\<lparr>st_live = Some 0, st_backup = Some 1, st_temporary = None\<rparr> :: nat store"
  let ?torn = "\<lparr>st_live = Some 0, st_backup = Some 0, st_temporary = Some 2\<rparr> :: nat store"
  have "saving 2 ?old Copied ?torn"
    using sv_copied [OF sv_copy [OF sv_written [OF sv_start [of 2 ?old]]]] by simp
  moreover have "load demo_parse ?old = Inr (bm_insert (slot_key ''s'' (show_nat 1)) default_slot bm_empty)"
    by code_simp
  moreover have "load demo_parse ?torn = Inl ''torn''"
    by code_simp
  ultimately show ?thesis by blast
qed

end
