(* ===== verification/Receive.thy ===== *)
theory Receive
  imports ReconDesired "HOL-Library.Word"
begin

unbundle bit_operations_syntax

text \<open>
  The live receive path: \<open>receive.rs\<close> (the two-watermark split of one received item),
  \<open>receive_cursor.rs\<close> (which frontier a character resumes, a cursor ahead of the stream, the
  claim of a trap) and \<open>progressive.rs\<close> (tiers by receipt). Maps that are only looked up are
  functions to \<open>option\<close>.
\<close>

section \<open>\<open>progressive.rs\<close>\<close>

text \<open>The packed full ids are signed 32-bit words; bit 30 routes a goods row.\<close>

definition GOODS_FULLID :: "32 word" where "GOODS_FULLID = 0x40000000"
definition LORDS_RUNE_GOODS :: "32 word" where "LORDS_RUNE_GOODS = 2919"

record live_tier =
  lt_goods :: "32 word list"
  lt_flags :: "32 word list"
  lt_consumed :: bool

record prog_effects =
  pe_flags :: "32 word list"
  pe_grants :: "32 word list"
  pe_handled :: bool

record progressive_state =
  ps_config :: "string \<rightharpoonup> live_tier list"
  ps_counter :: "string \<rightharpoonup> int"
  ps_high_index :: int

definition new_progressive :: "(string \<rightharpoonup> live_tier list) \<Rightarrow> progressive_state" where
  "new_progressive config = \<lparr>ps_config = config, ps_counter = Map.empty, ps_high_index = - 1\<rparr>"

definition restore_progressive :: "(string \<rightharpoonup> int) \<Rightarrow> int \<Rightarrow> progressive_state \<Rightarrow> progressive_state" where
  "restore_progressive counter high s = s\<lparr>ps_counter := counter, ps_high_index := high\<rparr>"

definition snapshot_progressive :: "progressive_state \<Rightarrow> (string \<rightharpoonup> int) \<times> int" where
  "snapshot_progressive s = (ps_counter s, ps_high_index s)"

text \<open>The counter is signed; a negative one cast to \<open>usize\<close> is past every table.\<close>

definition tier_effects :: "live_tier list \<Rightarrow> int \<Rightarrow> prog_effects" where
  "tier_effects tiers k =
     (if 0 \<le> k \<and> k < int (length tiers)
      then \<lparr>pe_flags = lt_flags (tiers ! nat k),
             pe_grants = map (\<lambda>g. g OR GOODS_FULLID) (lt_goods (tiers ! nat k)), pe_handled = True\<rparr>
      else \<lparr>pe_flags = [], pe_grants = [LORDS_RUNE_GOODS OR GOODS_FULLID], pe_handled = True\<rparr>)"

definition on_progressive :: "string \<Rightarrow> int \<Rightarrow> progressive_state \<Rightarrow> prog_effects \<times> progressive_state" where
  "on_progressive name idx s =
     (case ps_config s name of
        None \<Rightarrow> (\<lparr>pe_flags = [], pe_grants = [], pe_handled = False\<rparr>, s)
      | Some tiers \<Rightarrow>
          if idx \<le> ps_high_index s
          then (\<lparr>pe_flags = [], pe_grants = [], pe_handled = True\<rparr>, s)
          else (let k = (case ps_counter s name of None \<Rightarrow> 0 | Some k \<Rightarrow> k)
                in (tier_effects tiers k,
                    s\<lparr>ps_counter := (ps_counter s)(name \<mapsto> k + 1), ps_high_index := idx\<rparr>)))"

section \<open>\<open>receive.rs\<close>\<close>

record recv_item =
  rv_index :: int
  rv_ap_item_id :: int
  rv_name :: string
  rv_echo_skip :: bool

datatype grant_action =
    Enqueue (ga_full_id: "32 word") (ga_qty: "32 word") (ga_index: int) (ga_name: string)
  | SkipProgressive
  | SkipUnmapped int
  | SkipNativelySold string "32 word option"
  | AlreadyPushed

text \<open>The hook: two name-keyed operations on the caller's state.\<close>

record 'h net_hook =
  nh_item :: "string \<Rightarrow> 'h \<Rightarrow> 'h"
  nh_progressive :: "string \<Rightarrow> int \<Rightarrow> 'h \<Rightarrow> bool \<times> 'h"

record 'h recv_state =
  rs_dispatched :: int
  rs_pushed :: int
  rs_hook :: 'h

text \<open>\<open>full_id as i32\<close> and \<open>qty as i32\<close> keep the low 32 bits of an \<open>i64\<close>.\<close>

definition grant_for ::
  "(int \<rightharpoonup> int) \<Rightarrow> (int \<rightharpoonup> int) \<Rightarrow> recv_item \<Rightarrow> bool \<Rightarrow> grant_action" where
  "grant_for item_map item_counts ri progressive =
     (if rv_echo_skip ri
      then SkipNativelySold (rv_name ri) (map_option of_int (item_map (rv_ap_item_id ri)))
      else if progressive then SkipProgressive
      else (case item_map (rv_ap_item_id ri) of
              Some full_id \<Rightarrow>
                (let qty = max 1 (case item_counts (rv_ap_item_id ri) of None \<Rightarrow> 1 | Some q \<Rightarrow> q)
                 in Enqueue (of_int full_id) (of_int qty) (rv_index ri) (rv_name ri))
            | None \<Rightarrow> SkipUnmapped (rv_ap_item_id ri)))"

definition process_received_item ::
  "'h net_hook \<Rightarrow> (int \<rightharpoonup> int) \<Rightarrow> (int \<rightharpoonup> int) \<Rightarrow> recv_item \<Rightarrow> 'h recv_state \<Rightarrow> grant_action \<times> 'h recv_state" where
  "process_received_item hk item_map item_counts ri s =
     (let idx = rv_index ri;
          (progressive, s1) =
            (if idx \<ge> rs_dispatched s
             then (let (p, h) = nh_progressive hk (rv_name ri) idx (nh_item hk (rv_name ri) (rs_hook s))
                   in (p, s\<lparr>rs_dispatched := idx + 1, rs_hook := h\<rparr>))
             else (False, s))
      in if idx \<ge> rs_pushed s1
         then (grant_for item_map item_counts ri progressive, s1\<lparr>rs_pushed := idx + 1\<rparr>)
         else (AlreadyPushed, s1))"

section \<open>\<open>receive_cursor.rs\<close>\<close>

record cursor_entry =
  ce_index :: int
  ce_play_time_ms :: nat

datatype binding = Wait | Fresh | ResumeAt int | Migrate int

definition loaded_coordinates :: "bool \<Rightarrow> bool \<Rightarrow> (int \<times> nat) option \<Rightarrow> (int \<times> nat) option" where
  "loaded_coordinates in_world inventory_ready coordinates =
     (case coordinates of
        None \<Rightarrow> None
      | Some (slot, t) \<Rightarrow> if in_world \<and> inventory_ready \<and> 0 \<le> slot \<and> slot < 10 then Some (slot, t) else None)"

definition bind_cursor :: "cursor_entry option \<Rightarrow> int \<Rightarrow> nat \<Rightarrow> bool option \<Rightarrow> binding" where
  "bind_cursor entry legacy live marker =
     (if marker = Some True then Fresh
      else (case entry of
              Some e \<Rightarrow>
                (let (fresh, persisted) =
                       seed_trust (Some \<lparr>cl_watermark = ce_index e, cl_play_time_ms = ce_play_time_ms e\<rparr>) live
                 in if fresh then Fresh
                    else ResumeAt (max 0 (case persisted of None \<Rightarrow> 0 | Some w \<Rightarrow> w)))
            | None \<Rightarrow>
                (if marker = Some False \<and> legacy > 0 then Migrate legacy
                 else if marker = None \<and> legacy > 0 then Wait
                 else Fresh)))"

definition AHEAD_SETTLE_MS :: nat where "AHEAD_SETTLE_MS = 5000"

text \<open>The guard is its candidate: a stream length and the time since when it was seen.\<close>

type_synonym ahead_guard = "(nat \<times> nat) option"

definition observe_ahead :: "nat \<Rightarrow> nat \<Rightarrow> nat \<Rightarrow> ahead_guard \<Rightarrow> nat option \<times> ahead_guard" where
  "observe_ahead cursor stream_len now g =
     (if cursor \<le> stream_len then (None, None)
      else (case g of
              Some (candidate, since) \<Rightarrow>
                if candidate = stream_len
                then (if now - since \<ge> AHEAD_SETTLE_MS then (Some stream_len, None) else (None, g))
                else (None, Some (stream_len, now))
            | None \<Rightarrow> (None, Some (stream_len, now))))"

text \<open>\<open>saturating_add\<close> on \<open>i64\<close>.\<close>

definition claim_trap :: "int \<Rightarrow> int \<Rightarrow> bool \<times> int" where
  "claim_trap frontier index =
     (if index < 0 \<or> index < frontier then (False, frontier)
      else (True, min (2 ^ 63 - 1) (index + 1)))"

section \<open>No item is granted twice\<close>

fun enqueued :: "grant_action \<Rightarrow> int list" where
  "enqueued (Enqueue _ _ i _) = [i]"
| "enqueued _ = []"

text \<open>Sessions: items in any order, and reconnects, which reset the name dispatch alone.\<close>

inductive recv_run ::
  "'h net_hook \<Rightarrow> (int \<rightharpoonup> int) \<Rightarrow> (int \<rightharpoonup> int) \<Rightarrow> 'h recv_state \<Rightarrow> grant_action list \<Rightarrow> 'h recv_state \<Rightarrow> bool"
  for hk im ic s0 where
  rr_start: "recv_run hk im ic s0 [] s0"
| rr_item: "recv_run hk im ic s0 log s \<Longrightarrow> process_received_item hk im ic ri s = (a, s') \<Longrightarrow>
    recv_run hk im ic s0 (log @ [a]) s'"
| rr_reconnect: "recv_run hk im ic s0 log s \<Longrightarrow> recv_run hk im ic s0 log (s\<lparr>rs_dispatched := 0\<rparr>)"

lemma process_pushed:
  assumes "process_received_item hk im ic ri s = (a, s')"
  shows "rs_pushed s \<le> rs_pushed s'"
    "enqueued a \<noteq> [] \<Longrightarrow> enqueued a = [rv_index ri] \<and> rs_pushed s \<le> rv_index ri \<and> rs_pushed s' = rv_index ri + 1"
  using assms
  by (auto simp: process_received_item_def Let_def grant_for_def split: if_splits prod.splits option.splits)

text \<open>
  C19: no item is granted twice. Over any number of reconnects and whatever part of the stream is
  replayed, in whatever order, the indices handed to the grant queue are strictly increasing and lie
  between the starting and the final frontier.
\<close>

theorem received_items_granted_once:
  assumes "recv_run hk im ic s0 log s"
  shows "sorted_wrt (<) (concat (map enqueued log)) \<and>
    set (concat (map enqueued log)) \<subseteq> {rs_pushed s0..<rs_pushed s} \<and> rs_pushed s0 \<le> rs_pushed s"
  using assms
proof (induction rule: recv_run.induct)
  case (rr_item log s ri a s')
  note p = process_pushed [OF rr_item.hyps(2)]
  show ?case
  proof (cases "enqueued a = []")
    case True
    with rr_item.IH p(1) show ?thesis by auto
  next
    case False
    with p(2) have e: "enqueued a = [rv_index ri]" "rs_pushed s \<le> rv_index ri" "rs_pushed s' = rv_index ri + 1"
      by auto
    have "\<forall>x \<in> set (concat (map enqueued log)). x < rv_index ri"
      using rr_item.IH e(2) by fastforce
    with rr_item.IH e show ?thesis by (auto simp: sorted_wrt_append)
  qed
qed simp_all

definition quiet_hook :: "unit net_hook" where
  "quiet_hook = \<lparr>nh_item = (\<lambda>_ h. h), nh_progressive = (\<lambda>_ _ h. (False, h))\<rparr>"

theorem received_items_granted_once_witness:
  "\<exists>log s. recv_run quiet_hook [5 \<mapsto> 77] Map.empty \<lparr>rs_dispatched = 0, rs_pushed = 0, rs_hook = ()\<rparr> log s \<and>
     log = [Enqueue 77 1 0 ''a'', AlreadyPushed] \<and> sorted_wrt (<) (concat (map enqueued log))"
proof -
  let ?ri = "\<lparr>rv_index = 0, rv_ap_item_id = 5, rv_name = ''a'', rv_echo_skip = False\<rparr>"
  let ?s = "\<lparr>rs_dispatched = 0, rs_pushed = 0, rs_hook = ()\<rparr>"
  let ?t = "\<lparr>rs_dispatched = 1, rs_pushed = 1, rs_hook = ()\<rparr>"
  have "process_received_item quiet_hook [5 \<mapsto> 77] Map.empty ?ri ?s = (Enqueue 77 1 0 ''a'', ?t)"
    by (simp add: process_received_item_def grant_for_def quiet_hook_def)
  moreover have "process_received_item quiet_hook [5 \<mapsto> 77] Map.empty ?ri (?t\<lparr>rs_dispatched := 0\<rparr>) =
      (AlreadyPushed, ?t)"
    by (simp add: process_received_item_def quiet_hook_def)
  ultimately have r: "recv_run quiet_hook [5 \<mapsto> 77] Map.empty ?s ([] @ [Enqueue 77 1 0 ''a''] @ [AlreadyPushed]) ?t"
    using rr_item [OF rr_reconnect [OF rr_item [OF rr_start]]] by fastforce
  from received_items_granted_once [OF r] r show ?thesis by fastforce
qed

section \<open>Progressive items keep out of the normal grants\<close>

text \<open>
  The contract of the progressive half of the hook: whether a name is claimed depends on the
  name alone and never changes.
\<close>

locale claiming_hook =
  fixes hk :: "'h net_hook"
    and claims :: "'h \<Rightarrow> string \<Rightarrow> bool"
  assumes progressive_claims: "fst (nh_progressive hk n i h) = claims h n"
    and progressive_keeps: "claims (snd (nh_progressive hk n i h)) = claims h"
    and item_keeps: "claims (nh_item hk n h) = claims h"
begin

lemma process_claims:
  assumes "process_received_item hk im ic ri s = (a, s')" "rs_dispatched s \<le> rs_pushed s"
  shows "rs_dispatched s' \<le> rs_pushed s' \<and> claims (rs_hook s') = claims (rs_hook s) \<and>
    (claims (rs_hook s) (rv_name ri) \<longrightarrow> enqueued a = [])"
proof -
  let ?h = "nh_item hk (rv_name ri) (rs_hook s)"
  obtain p h where p: "nh_progressive hk (rv_name ri) (rv_index ri) ?h = (p, h)"
    by (cases "nh_progressive hk (rv_name ri) (rv_index ri) ?h")
  have "p = claims (rs_hook s) (rv_name ri)" "claims h = claims (rs_hook s)"
    using progressive_claims [of "rv_name ri" "rv_index ri" ?h] item_keeps
      progressive_keeps [of "rv_name ri" "rv_index ri" ?h] by (simp_all add: p)
  with assms p show ?thesis
    by (auto simp: process_received_item_def Let_def grant_for_def split: if_splits prod.splits option.splits)
qed

definition clean :: "'h recv_state \<Rightarrow> grant_action list \<Rightarrow> bool" where
  "clean s0 log \<longleftrightarrow> (\<forall>a \<in> set log. enqueued a \<noteq> [] \<longrightarrow> \<not> claims (rs_hook s0) (ga_name a))"

lemma run_clean:
  assumes "recv_run hk im ic s0 log s" "rs_dispatched s0 \<le> rs_pushed s0" "0 \<le> rs_pushed s0"
  shows "rs_dispatched s \<le> rs_pushed s \<and> 0 \<le> rs_pushed s \<and> claims (rs_hook s) = claims (rs_hook s0) \<and> clean s0 log"
  using assms
proof (induction rule: recv_run.induct)
  case (rr_item log s ri a s')
  note p = process_claims [OF rr_item.hyps(2)] and q = process_pushed(1) [OF rr_item.hyps(2)]
  have "enqueued a \<noteq> [] \<Longrightarrow> ga_name a = rv_name ri"
    using rr_item.hyps(2)
    by (auto simp: process_received_item_def Let_def grant_for_def split: if_splits prod.splits option.splits)
  with rr_item p q show ?case by (auto simp: clean_def)
qed (simp_all add: clean_def)

end

definition progressive_hook :: "progressive_state net_hook" where
  "progressive_hook =
     \<lparr>nh_item = (\<lambda>_ s. s), nh_progressive = (\<lambda>n i s. (pe_handled (fst (on_progressive n i s)), snd (on_progressive n i s)))\<rparr>"

interpretation prog: claiming_hook progressive_hook "\<lambda>s n. ps_config s n \<noteq> None"
  by unfold_locales
     (auto simp: progressive_hook_def on_progressive_def tier_effects_def Let_def fun_eq_iff split: option.split)

text \<open>
  an item with a tier table is never also granted as a normal item. From any connect on, over
  all reconnects, every enqueued grant is of a name without a progressive table, because the grant
  frontier never falls behind the name dispatch.
\<close>

theorem progressive_items_not_enqueued:
  assumes "recv_run progressive_hook im ic s0 log s" and "rs_dispatched s0 = 0" and "0 \<le> rs_pushed s0"
  shows "\<forall>a \<in> set log. enqueued a \<noteq> [] \<longrightarrow> ps_config (rs_hook s0) (ga_name a) = None"
proof -
  have "rs_dispatched s0 \<le> rs_pushed s0" using assms(2,3) by simp
  from prog.run_clean [OF assms(1) this assms(3)] show ?thesis unfolding prog.clean_def by blast
qed

theorem progressive_items_not_enqueued_witness:
  "\<exists>log s. recv_run progressive_hook [5 \<mapsto> 77] Map.empty
       \<lparr>rs_dispatched = 0, rs_pushed = 0, rs_hook = new_progressive [''Bell'' \<mapsto> []]\<rparr> log s \<and>
     log = [SkipProgressive] \<and> (\<forall>a \<in> set log. enqueued a \<noteq> [] \<longrightarrow> [''Bell'' \<mapsto> []] (ga_name a) = None)"
proof -
  let ?ri = "\<lparr>rv_index = 0, rv_ap_item_id = 5, rv_name = ''Bell'', rv_echo_skip = False\<rparr>"
  let ?s = "\<lparr>rs_dispatched = 0, rs_pushed = 0, rs_hook = new_progressive [''Bell'' \<mapsto> []]\<rparr>"
  obtain t where t: "process_received_item progressive_hook [5 \<mapsto> 77] Map.empty ?ri ?s = (SkipProgressive, t)"
    by (simp add: process_received_item_def grant_for_def progressive_hook_def on_progressive_def
          new_progressive_def tier_effects_def)
  then have r: "recv_run progressive_hook [5 \<mapsto> 77] Map.empty ?s ([] @ [SkipProgressive]) t"
    by (rule rr_item [OF rr_start])
  from progressive_items_not_enqueued [OF r] r show ?thesis by (auto simp: new_progressive_def)
qed

section \<open>Tiers by receipt\<close>

text \<open>A stream of received progressive names with their indices.\<close>

fun run_progressive :: "(string \<times> int) list \<Rightarrow> progressive_state \<Rightarrow> prog_effects list \<times> progressive_state" where
  "run_progressive [] s = ([], s)"
| "run_progressive ((n, i) # es) s =
     (let (e, s') = on_progressive n i s; (effs, s'') = run_progressive es s' in (e # effs, s''))"

definition counter_of :: "progressive_state \<Rightarrow> string \<Rightarrow> int" where
  "counter_of s n = (case ps_counter s n of None \<Rightarrow> 0 | Some k \<Rightarrow> k)"

text \<open>The reference: the \<open>j\<close>-th copy of a name lands tier \<open>j\<close> of its table, later ones the overflow.\<close>

fun tiers_by_receipt :: "(string \<rightharpoonup> live_tier list) \<Rightarrow> (string \<Rightarrow> int) \<Rightarrow> string list \<Rightarrow> prog_effects list" where
  "tiers_by_receipt config counted [] = []"
| "tiers_by_receipt config counted (n # ns) =
     (case config n of
        None \<Rightarrow> \<lparr>pe_flags = [], pe_grants = [], pe_handled = False\<rparr>
      | Some tiers \<Rightarrow> tier_effects tiers (counted n)) # tiers_by_receipt config (counted(n := counted n + 1)) ns"

lemma tiers_by_receipt_cong:
  "(\<And>n. config n \<noteq> None \<Longrightarrow> c n = c' n) \<Longrightarrow> tiers_by_receipt config c ns = tiers_by_receipt config c' ns"
proof (induction ns arbitrary: c c')
  case (Cons n ns)
  have "tiers_by_receipt config (c(n := c n + 1)) ns = tiers_by_receipt config (c'(n := c' n + 1)) ns"
    by (rule Cons.IH) (auto simp: Cons.prems)
  with Cons.prems [of n] show ?case by (auto split: option.split)
qed simp

lemma run_progressive_spec:
  assumes "sorted_wrt (<) (map snd es)" "\<forall>e \<in> set es. ps_high_index s < snd e"
  shows "fst (run_progressive es s) = tiers_by_receipt (ps_config s) (counter_of s) (map fst es) \<and>
    ps_config (snd (run_progressive es s)) = ps_config s \<and>
    (\<forall>e \<in> set es. ps_config s (fst e) \<noteq> None \<longrightarrow> snd e \<le> ps_high_index (snd (run_progressive es s))) \<and>
    ps_high_index s \<le> ps_high_index (snd (run_progressive es s))"
  using assms
proof (induction es arbitrary: s)
  case (Cons e es)
  obtain n i where e: "e = (n, i)" by (cases e)
  let ?s = "snd (on_progressive n i s)"
  have r: "run_progressive (e # es) s =
      (fst (on_progressive n i s) # fst (run_progressive es ?s), snd (run_progressive es ?s))"
    by (simp add: e case_prod_beta Let_def)
  have up: "\<forall>e' \<in> set es. ps_high_index ?s < snd e'" "ps_config ?s = ps_config s"
    "ps_high_index s \<le> ps_high_index ?s" "ps_config s n \<noteq> None \<Longrightarrow> ps_high_index ?s = i"
    using Cons.prems by (auto simp: e on_progressive_def Let_def split: option.split)
  have c: "tiers_by_receipt (ps_config s) (counter_of ?s) ns =
      tiers_by_receipt (ps_config s) ((counter_of s)(n := counter_of s n + 1)) ns" for ns
    using Cons.prems
    by (intro tiers_by_receipt_cong) (auto simp: e on_progressive_def counter_of_def Let_def split: option.split)
  have f: "fst (on_progressive n i s) = (case ps_config s n of
        None \<Rightarrow> \<lparr>pe_flags = [], pe_grants = [], pe_handled = False\<rparr>
      | Some tiers \<Rightarrow> tier_effects tiers (counter_of s n))"
    using Cons.prems by (auto simp: e on_progressive_def counter_of_def Let_def split: option.split)
  have IH: "fst (run_progressive es ?s) = tiers_by_receipt (ps_config ?s) (counter_of ?s) (map fst es) \<and>
    ps_config (snd (run_progressive es ?s)) = ps_config ?s \<and>
    (\<forall>e \<in> set es. ps_config ?s (fst e) \<noteq> None \<longrightarrow> snd e \<le> ps_high_index (snd (run_progressive es ?s))) \<and>
    ps_high_index ?s \<le> ps_high_index (snd (run_progressive es ?s))"
    by (rule Cons.IH) (use Cons.prems(1) up(1) in auto)
  have "fst (run_progressive (e # es) s) = tiers_by_receipt (ps_config s) (counter_of s) (map fst (e # es))"
    using IH unfolding r by (simp add: e f up(2) c)
  moreover have "i \<le> ps_high_index (snd (run_progressive es ?s))" if "ps_config s n \<noteq> None"
    using up(4) [OF that] IH by simp
  moreover have "snd (run_progressive (e # es) s) = snd (run_progressive es ?s)" unfolding r by simp
  ultimately show ?case using IH up(2,3) by (auto simp: e simp del: run_progressive.simps)
qed simp

text \<open>
  progressive tiers are by receipt. In a stream with increasing indices the \<open>j\<close>-th copy of a
  name lands exactly tier \<open>j\<close> of its table, each copy past the table one Lord's Rune, whatever other
  names are interleaved; and any later replay of an item of the stream, in any order, is handled
  without an effect and without a change of state.
\<close>

theorem progressive_tiers_by_receipt:
  assumes "sorted_wrt (<) (map snd es)" and "\<forall>e \<in> set es. 0 \<le> snd e"
    and "set replay \<subseteq> {e \<in> set es. config (fst e) \<noteq> None}"
  shows "let (effs, s) = run_progressive es (new_progressive config);
             (again, s') = run_progressive replay s
         in effs = tiers_by_receipt config (\<lambda>_. 0) (map fst es) \<and> s' = s \<and>
            again = map (\<lambda>_. \<lparr>pe_flags = [], pe_grants = [], pe_handled = True\<rparr>) replay"
proof -
  let ?n = "new_progressive config"
  let ?s = "snd (run_progressive es ?n)"
  have z: "counter_of ?n = (\<lambda>_. 0)" by (simp add: counter_of_def new_progressive_def fun_eq_iff)
  have h: "\<forall>e \<in> set es. ps_high_index ?n < snd e"
    using assms(2) by (fastforce simp: new_progressive_def)
  note sp = run_progressive_spec [OF assms(1) h]
  have cfg: "ps_config ?n = config" by (simp add: new_progressive_def)
  have quiet: "on_progressive (fst e) (snd e) ?s = (\<lparr>pe_flags = [], pe_grants = [], pe_handled = True\<rparr>, ?s)"
    if "e \<in> set replay" for e
    using that assms(3) sp cfg by (auto simp: on_progressive_def split: option.split)
  have "set xs \<subseteq> set replay \<Longrightarrow> run_progressive xs ?s =
      (map (\<lambda>_. \<lparr>pe_flags = [], pe_grants = [], pe_handled = True\<rparr>) xs, ?s)" for xs
    using quiet by (induction xs) (auto simp: case_prod_beta Let_def)
  then show ?thesis using sp by (simp add: case_prod_beta z cfg)
qed

definition demo_ladder :: "string \<rightharpoonup> live_tier list" where
  "demo_ladder = [''Bell'' \<mapsto> [\<lparr>lt_goods = [8951], lt_flags = [60], lt_consumed = False\<rparr>]]"

theorem progressive_tiers_by_receipt_witness:
  "let (effs, s) = run_progressive [(''Bell'', 3), (''Bell'', 9)] (new_progressive demo_ladder);
       (again, s') = run_progressive [(''Bell'', 9)] s
   in map pe_flags effs = [[60], []] \<and> map pe_grants effs = [[8951 OR GOODS_FULLID], [LORDS_RUNE_GOODS OR GOODS_FULLID]] \<and>
      map pe_grants again = [[]] \<and> s' = s"
  using progressive_tiers_by_receipt [of "[(''Bell'', 3), (''Bell'', 9)]" "[(''Bell'', 9)]" demo_ladder]
  by (simp add: case_prod_beta demo_ladder_def tier_effects_def)

section \<open>Cursors\<close>

text \<open>A cursor ahead of the stream: the observations and the guard's answers.\<close>

record ahead_observation =
  ao_cursor :: nat
  ao_len :: nat
  ao_now :: nat

fun run_ahead :: "ahead_observation list \<Rightarrow> ahead_guard \<Rightarrow> nat option list \<times> ahead_guard" where
  "run_ahead [] g = ([], g)"
| "run_ahead (ob # obs) g =
     (let (r, g') = observe_ahead (ao_cursor ob) (ao_len ob) (ao_now ob) g; (rs, g'') = run_ahead obs g'
      in (r # rs, g''))"

lemma run_ahead_append:
  "run_ahead (xs @ ys) g =
     (fst (run_ahead xs g) @ fst (run_ahead ys (snd (run_ahead xs g))), snd (run_ahead ys (snd (run_ahead xs g))))"
  by (induction xs arbitrary: g) (auto simp: case_prod_beta Let_def)

text \<open>The candidate of the guard after a run: a block of equal short lengths since its time.\<close>

definition steady :: "ahead_observation list \<Rightarrow> nat \<Rightarrow> nat \<Rightarrow> bool" where
  "steady obs n since \<longleftrightarrow> (\<exists>pre blk. obs = pre @ blk \<and> blk \<noteq> [] \<and> ao_now (hd blk) = since \<and>
     (\<forall>ob \<in> set blk. ao_len ob = n \<and> n < ao_cursor ob))"

lemma run_ahead_candidate:
  "snd (run_ahead obs None) = Some (n, since) \<Longrightarrow> steady obs n since"
proof (induction obs arbitrary: n since rule: rev_induct)
  case (snoc ob obs)
  let ?g = "snd (run_ahead obs None)"
  have o: "snd (observe_ahead (ao_cursor ob) (ao_len ob) (ao_now ob) ?g) = Some (n, since)"
    using snoc.prems by (simp add: run_ahead_append case_prod_beta Let_def)
  show ?case
  proof (cases "?g = Some (n, since)")
    case True
    then obtain pre blk where b: "obs = pre @ blk" "blk \<noteq> []" "ao_now (hd blk) = since"
      "\<forall>ob \<in> set blk. ao_len ob = n \<and> n < ao_cursor ob"
      using snoc.IH by (auto simp: steady_def)
    show ?thesis
    proof (cases "ao_len ob = n")
      case True
      with o have "n < ao_cursor ob" by (auto simp: observe_ahead_def split: if_splits)
      with b True show ?thesis unfolding steady_def
        by (intro exI [of _ pre] exI [of _ "blk @ [ob]"]) auto
    next
      case False
      with o \<open>?g = Some (n, since)\<close> show ?thesis by (auto simp: observe_ahead_def split: if_splits)
    qed
  next
    case False
    with o have "ao_len ob = n" "ao_now ob = since" "n < ao_cursor ob"
      by (auto simp: observe_ahead_def split: if_splits option.splits)
    then show ?thesis unfolding steady_def
      by (intro exI [of _ obs] exI [of _ "[ob]"]) auto
  qed
qed simp

text \<open>
  a cursor ahead of the stream is clamped only to a settled stream. When an observation answers
  with a new cursor, it is the stream's length, and every observation of an unbroken block that
  began at least five seconds earlier saw this same length behind the cursor.
\<close>

theorem ahead_cursor_clamped_when_settled:
  assumes "fst (observe_ahead (ao_cursor ob) (ao_len ob) (ao_now ob) (snd (run_ahead obs None))) = Some n"
  shows "n = ao_len ob \<and> n < ao_cursor ob \<and>
    (\<exists>pre blk. obs = pre @ blk \<and> blk \<noteq> [] \<and> ao_now (hd blk) + 5000 \<le> ao_now ob \<and>
       (\<forall>o' \<in> set blk. ao_len o' = n \<and> n < ao_cursor o'))"
proof -
  obtain since where g: "snd (run_ahead obs None) = Some (n, since)" "ao_len ob = n" "n < ao_cursor ob"
    "5000 \<le> ao_now ob - since"
    using assms by (auto simp: observe_ahead_def AHEAD_SETTLE_MS_def split: if_splits option.splits)
  then have "since + 5000 \<le> ao_now ob" by simp
  with run_ahead_candidate [OF g(1)] g(2,3) show ?thesis unfolding steady_def by blast
qed

theorem ahead_cursor_clamped_when_settled_witness:
  "\<exists>blk :: ahead_observation list. blk \<noteq> [] \<and> ao_now (hd blk) + 5000 \<le> 6000 \<and> (\<forall>o' \<in> set blk. ao_len o' = 3)"
proof -
  let ?obs = "[\<lparr>ao_cursor = 9, ao_len = 2, ao_now = 500\<rparr>, \<lparr>ao_cursor = 9, ao_len = 3, ao_now = 1000\<rparr>]"
  let ?ob = "\<lparr>ao_cursor = 9, ao_len = 3, ao_now = 6000\<rparr>"
  have "fst (observe_ahead (ao_cursor ?ob) (ao_len ?ob) (ao_now ?ob) (snd (run_ahead ?obs None))) = Some 3"
    by (simp add: observe_ahead_def AHEAD_SETTLE_MS_def)
  from ahead_cursor_clamped_when_settled [OF this] show ?thesis by auto
qed

fun run_claims :: "int \<Rightarrow> int list \<Rightarrow> int list \<times> int" where
  "run_claims f [] = ([], f)"
| "run_claims f (i # is) =
     (let (ok, f') = claim_trap f i; (cs, f'') = run_claims f' is in ((if ok then [i] else []) @ cs, f''))"

text \<open>
  a trap is claimed at most once. Over any sequence of deliveries and replays of indices in
  range, the claimed indices are strictly increasing, never negative and at or past the frontier,
  so neither the effect nor the link is repeated.
\<close>

theorem traps_claimed_once:
  assumes "\<forall>i \<in> set is. i < 2 ^ 63 - 1"
  shows "sorted_wrt (<) (fst (run_claims f is)) \<and> set (fst (run_claims f is)) \<subseteq> {max 0 f..}"
  using assms
proof (induction "is" arbitrary: f)
  case (Cons i "is")
  from Cons.IH [of "snd (claim_trap f i)"] Cons.prems show ?case
    by (auto simp: claim_trap_def case_prod_beta Let_def split: if_splits)
qed simp

theorem traps_claimed_once_witness:
  "fst (run_claims 2 [1, 2, 5, 2, -1, 6]) = [2, 5, 6] \<and> sorted_wrt (<) (fst (run_claims 2 [1, 2, 5, 2, -1, 6]))"
proof -
  have "\<forall>i \<in> set [1, 2, 5, 2, -1, 6]. i < (2 ^ 63 - 1 :: int)" by simp
  from traps_claimed_once [OF this, of 2] show ?thesis by (simp add: claim_trap_def)
qed

end
