(* ===== verification/LockHints.thy ===== *)
theory LockHints
  imports Prelude "HOL-Library.Multiset"
begin

text \<open>
  The region-lock hint economy (\<open>crates/er-logic/src/lock_hint_economy.rs\<close>): the price of a hint,
  the balance derived from server state, where a lock is, and which lock is next. A \<open>HashMap\<close> is the
  list of its entries in an arbitrary iteration order with distinct keys; a \<open>HashSet\<close> is a set.
\<close>

section \<open>Prices\<close>

definition u64_max :: nat where "u64_max = 2 ^ 64 - 1"

definition saturating_mul :: "nat \<Rightarrow> nat \<Rightarrow> nat" where
  "saturating_mul a b = min u64_max (a * b)"

definition div_ceil :: "nat \<Rightarrow> nat \<Rightarrow> nat" where
  "div_ceil a b = a div b + (if a mod b = 0 then 0 else 1)"

definition price_per_hint :: "nat \<Rightarrow> nat \<Rightarrow> nat \<Rightarrow> nat option" where
  "price_per_hint surface_total points_per_hint total_locations =
     (if total_locations = 0 then None
      else if points_per_hint = 0 then Some 0
      else if surface_total = 0 then Some 1
      else Some (max 1 (div_ceil (saturating_mul surface_total points_per_hint) total_locations)))"

definition balance :: "nat \<Rightarrow> nat \<Rightarrow> nat \<Rightarrow> nat" where
  "balance surface_checked purchases price = surface_checked - saturating_mul purchases price"

definition surface_checked :: "int set \<Rightarrow> int set \<Rightarrow> nat" where
  "surface_checked checked surface = card (checked \<inter> surface)"

section \<open>Where a lock is\<close>

datatype lock_hint = Found int | InAnotherWorld | UnknownLock

datatype lock_hint_offer =
    Buyable nat int
  | Insufficient nat nat int
  | AlreadyHinted int
  | Spilled
  | UnknownOffer

definition conceal_region :: "bool \<Rightarrow> lock_hint_offer \<Rightarrow> bool" where
  "conceal_region accessible ofr =
     (if accessible then False
      else \<not> (case ofr of AlreadyHinted _ \<Rightarrow> True | Spilled \<Rightarrow> True | _ \<Rightarrow> False))"

text \<open>The scan keeps the lowest matching location.\<close>

definition keep_lower :: "string \<Rightarrow> int \<times> string \<Rightarrow> int option \<Rightarrow> int option" where
  "keep_lower name e hit =
     (if snd e = name
      then Some (case hit of Some prev \<Rightarrow> if prev \<le> fst e then prev else fst e | None \<Rightarrow> fst e)
      else hit)"

definition resolve_lock_location :: "string option \<Rightarrow> (int \<times> string) list \<Rightarrow> lock_hint" where
  "resolve_lock_location lock_item scout =
     (case lock_item of
        None \<Rightarrow> UnknownLock
      | Some name \<Rightarrow>
          if scout = [] then UnknownLock
          else (case fold (keep_lower name) scout None of
                  Some loc \<Rightarrow> Found loc
                | None \<Rightarrow> InAnotherWorld))"

definition offer_at_placement ::
  "string option \<Rightarrow> (int \<times> string) list \<Rightarrow> int option \<Rightarrow> int set \<Rightarrow> nat \<Rightarrow> nat \<Rightarrow> nat \<Rightarrow> nat \<Rightarrow> nat \<Rightarrow> lock_hint_offer" where
  "offer_at_placement lock_item scout placement hinted surf chk purchases points locations =
     (case (case placement of Some l \<Rightarrow> Found l | None \<Rightarrow> resolve_lock_location lock_item scout) of
        InAnotherWorld \<Rightarrow> Spilled
      | UnknownLock \<Rightarrow> UnknownOffer
      | Found location \<Rightarrow>
          if location \<in> hinted then AlreadyHinted location
          else (case price_per_hint surf points locations of
                  None \<Rightarrow> UnknownOffer
                | Some price \<Rightarrow>
                    (let have' = balance chk purchases price
                     in if have' \<ge> price then Buyable price location
                        else Insufficient price have' location)))"

definition offer ::
  "string option \<Rightarrow> (int \<times> string) list \<Rightarrow> int set \<Rightarrow> nat \<Rightarrow> nat \<Rightarrow> nat \<Rightarrow> nat \<Rightarrow> nat \<Rightarrow> lock_hint_offer" where
  "offer lock_item scout hinted surf chk purchases points locations =
     offer_at_placement lock_item scout None hinted surf chk purchases points locations"

section \<open>The next lock\<close>

record frontier_lock =
  fl_region :: string
  fl_lock_item :: string
  fl_location :: int

datatype next_lock =
    Reachable frontier_lock
  | AllFrontierHinted
  | SpilledIn "string list"
  | NoneReachable
  | NothingLocked
  | UnknownNext

text \<open>The loop over the locked regions in name order.\<close>

record frontier_scan =
  fs_frontier :: "frontier_lock list"
  fs_spilled :: "string list"
  fs_untabled :: bool

definition scan_one ::
  "(int \<times> string) list \<Rightarrow> (int \<times> string) list \<Rightarrow> string set \<Rightarrow> string \<times> string \<Rightarrow> frontier_scan \<Rightarrow> frontier_scan" where
  "scan_one scout coarse_of open_regions e st =
     (case resolve_lock_location (Some (snd e)) scout of
        InAnotherWorld \<Rightarrow> st\<lparr>fs_spilled := fs_spilled st @ [fst e]\<rparr>
      | UnknownLock \<Rightarrow> st\<lparr>fs_untabled := True\<rparr>
      | Found loc \<Rightarrow>
          (case map_of coarse_of loc of
             None \<Rightarrow> st\<lparr>fs_untabled := True\<rparr>
           | Some holder \<Rightarrow>
               if holder = [] \<or> holder \<in> open_regions
               then st\<lparr>fs_frontier := fs_frontier st @
                      [\<lparr>fl_region = fst e, fl_lock_item = snd e, fl_location = loc\<rparr>]\<rparr>
               else st))"

text \<open>\<open>min_by_key\<close>: the first of the least elements.\<close>

fun min_by_location :: "frontier_lock list \<Rightarrow> frontier_lock option" where
  "min_by_location [] = None"
| "min_by_location (f # fs) =
     (case min_by_location fs of
        None \<Rightarrow> Some f
      | Some g \<Rightarrow> Some (if fl_location f \<le> fl_location g then f else g))"

definition next_lock_of ::
  "(string \<times> string) list \<Rightarrow> string set \<Rightarrow> (int \<times> string) list \<Rightarrow> (int \<times> string) list \<Rightarrow> int set \<Rightarrow> next_lock" where
  "next_lock_of lock_items open_regions coarse_of scout hinted =
     (if lock_items = [] \<or> scout = [] then UnknownNext
      else (let locked = filter (\<lambda>e. fst e \<noteq> [] \<and> fst e \<notin> open_regions) lock_items
            in if locked = [] then NothingLocked
               else (let st = fold (scan_one scout coarse_of open_regions) (sort_key fst locked)
                                \<lparr>fs_frontier = [], fs_spilled = [], fs_untabled = False\<rparr>
                     in case min_by_location (filter (\<lambda>f. fl_location f \<notin> hinted) (fs_frontier st)) of
                          Some f \<Rightarrow> Reachable f
                        | None \<Rightarrow>
                            if fs_frontier st \<noteq> [] then AllFrontierHinted
                            else if fs_spilled st \<noteq> [] then SpilledIn (sort (fs_spilled st))
                            else if fs_untabled st then UnknownNext
                            else NoneReachable)))"

datatype next_lock_offer =
    BuyNext nat int string string
  | NotYet nat nat
  | AllHintedOffer
  | SpilledOffer "string list"
  | NoneReachableOffer
  | Idle

definition next_offer ::
  "(string \<times> string) list \<Rightarrow> string set \<Rightarrow> (int \<times> string) list \<Rightarrow> (int \<times> string) list \<Rightarrow> int set \<Rightarrow>
   nat \<Rightarrow> nat \<Rightarrow> nat \<Rightarrow> nat \<Rightarrow> nat \<Rightarrow> next_lock_offer" where
  "next_offer lock_items open_regions coarse_of scout hinted surf chk purchases points locations =
     (case next_lock_of lock_items open_regions coarse_of scout hinted of
        AllFrontierHinted \<Rightarrow> AllHintedOffer
      | SpilledIn rs \<Rightarrow> SpilledOffer rs
      | NoneReachable \<Rightarrow> NoneReachableOffer
      | NothingLocked \<Rightarrow> Idle
      | UnknownNext \<Rightarrow> Idle
      | Reachable f \<Rightarrow>
          (case price_per_hint surf points locations of
             None \<Rightarrow> Idle
           | Some price \<Rightarrow>
               (let have' = balance chk purchases price
                in if have' \<ge> price then BuyNext price (fl_location f) (fl_region f) (fl_lock_item f)
                   else NotYet price have')))"

definition hint_status :: "nat \<Rightarrow> nat \<Rightarrow> nat \<Rightarrow> nat \<Rightarrow> nat \<Rightarrow> (nat \<times> nat) option" where
  "hint_status surf chk purchases points locations =
     map_option (\<lambda>price. (balance chk purchases price, price)) (price_per_hint surf points locations)"

definition crossed_into_affordable :: "bool option \<Rightarrow> bool \<Rightarrow> bool" where
  "crossed_into_affordable prev now \<longleftrightarrow> prev = Some False \<and> now"

section \<open>The price is the least fair one\<close>

lemma div_ceil_least:
  assumes "0 < b"
  shows "div_ceil a b \<le> p \<longleftrightarrow> a \<le> p * b"
proof -
  define q r where "q = a div b" and "r = a mod b"
  have a: "a = q * b + r" "r < b" using assms by (simp_all add: q_def r_def)
  show ?thesis
  proof (cases "r = 0")
    case True
    then have "div_ceil a b = q" by (simp add: div_ceil_def q_def r_def)
    with True a assms show ?thesis by simp
  next
    case False
    then have c: "div_ceil a b = Suc q" by (simp add: div_ceil_def q_def r_def)
    have "a \<le> p * b" if "Suc q \<le> p"
      using mult_le_mono1 [OF that, of b] a by simp
    moreover have "Suc q \<le> p" if "a \<le> p * b"
    proof -
      have "q * b < p * b" using that False a by linarith
      then show ?thesis by simp
    qed
    ultimately show ?thesis unfolding c by blast
  qed
qed

text \<open>
  the price is the host's own hint price over the progression surface, rounded up. It is the
  least whole number of surface checks, and at least one, whose share of the surface covers the
  host's points per hint over all locations; it is zero exactly when the host made hints free, and
  there is no price while no location is known.
\<close>

theorem price_is_least_fair:
  "(price_per_hint surf points locations = None \<longleftrightarrow> locations = 0) \<and>
   (price_per_hint surf points locations = Some 0 \<longleftrightarrow> locations \<noteq> 0 \<and> points = 0) \<and>
   (\<forall>price. locations \<noteq> 0 \<longrightarrow> points \<noteq> 0 \<longrightarrow> surf * points < 2 ^ 64 \<longrightarrow>
      price_per_hint surf points locations = Some price \<longleftrightarrow>
      price = (LEAST n. 1 \<le> n \<and> surf * points \<le> n * locations))"
proof -
  have least: "(LEAST n. 1 \<le> n \<and> a \<le> n * locations) = max 1 (div_ceil a locations)" if "locations \<noteq> 0" for a
    using that by (intro Least_equality) (auto simp: div_ceil_least [symmetric])
  have "saturating_mul surf points = surf * points" if "surf * points < 2 ^ 64"
    using that by (simp add: saturating_mul_def u64_max_def)
  then show ?thesis
    using least by (auto simp: price_per_hint_def div_ceil_def)
qed

theorem price_is_least_fair_witness:
  "price_per_hint 158 487 4879 = Some 16 \<and> 16 = (LEAST n. 1 \<le> n \<and> 158 * 487 \<le> n * (4879 :: nat))"
proof -
  have "price_per_hint 158 487 4879 = Some 16"
    by (simp add: price_per_hint_def div_ceil_def saturating_mul_def u64_max_def)
  with price_is_least_fair [of 158 487 4879, THEN conjunct2, THEN conjunct2, rule_format, of 16]
  show ?thesis by simp
qed

section \<open>The balance\<close>

text \<open>Trying to buy \<open>n\<close> times with the same checks: an offer is bought when it is affordable.\<close>

fun buy_times :: "nat \<Rightarrow> nat \<Rightarrow> nat \<Rightarrow> nat \<Rightarrow> nat" where
  "buy_times chk price purchases 0 = purchases"
| "buy_times chk price purchases (Suc n) =
     (let p = buy_times chk price purchases n
      in if balance chk p price \<ge> price then p + 1 else p)"

lemma balance_exact: "p * price \<le> chk \<Longrightarrow> chk < 2 ^ 64 \<Longrightarrow> balance chk p price = chk - p * price"
  by (simp add: balance_def saturating_mul_def u64_max_def)

text \<open>
  nothing can be overspent. The balance is a function of the surface checks and the number of
  past purchases; however often the player buys what is affordable, the total spent never exceeds
  the checks made, and every purchase costs exactly the price.
\<close>

theorem purchases_never_overspend:
  assumes "chk < 2 ^ 64" and "p * price \<le> chk"
  shows "let q = buy_times chk price p n
         in p \<le> q \<and> q * price \<le> chk \<and> balance chk q price + (q - p) * price = balance chk p price"
proof -
  have "p \<le> buy_times chk price p n \<and> buy_times chk price p n * price \<le> chk"
  proof (induction n)
    case (Suc n)
    with assms(1) show ?case by (auto simp: Let_def balance_exact)
  qed (use assms in simp)
  with assms show ?thesis by (simp add: Let_def balance_exact diff_mult_distrib)
qed

theorem purchases_never_overspend_witness:
  "buy_times 40 16 0 5 = 2 \<and> buy_times 40 16 0 5 * 16 \<le> 40"
proof -
  have "buy_times 40 16 0 5 = 2" by code_simp
  with purchases_never_overspend [of 40 0 16 5] show ?thesis by simp
qed

section \<open>Independence of the iteration order\<close>

definition holders :: "string \<Rightarrow> (int \<times> string) list \<Rightarrow> int set" where
  "holders name scout = {loc. (loc, name) \<in> set scout}"

lemma finite_holders: "finite (holders name scout)"
  by (rule finite_subset [of _ "fst ` set scout"], force simp: holders_def, simp)

lemma keep_lower_fold:
  "fold (keep_lower name) scout hit =
     (let S = holders name scout \<union> set_option hit in if S = {} then None else Some (Min S))"
proof (induction scout arbitrary: hit)
  case Nil
  then show ?case by (cases hit) (simp_all add: holders_def)
next
  case (Cons e scout)
  have h: "holders name (e # scout) = (if snd e = name then insert (fst e) (holders name scout) else holders name scout)"
    by (cases e) (auto simp: holders_def)
  note f = finite_holders [of name scout]
  have m: "Min (insert x (insert y S)) = Min (insert (min x y) S)" if "finite S" for x y :: int and S
    using that by (cases "S = {}") (auto simp: min.assoc)
  show ?case
  proof (cases "snd e = name")
    case True
    then have k: "keep_lower name e hit = Some (case hit of Some prev \<Rightarrow> min prev (fst e) | None \<Rightarrow> fst e)"
      by (simp add: keep_lower_def min_def split: option.split)
    show ?thesis
      using True k m [OF f] by (cases hit) (simp_all add: Cons h Let_def insert_commute)
  next
    case False
    then have "keep_lower name e hit = hit" by (simp add: keep_lower_def)
    with False show ?thesis by (simp add: Cons h)
  qed
qed

lemma resolve_spec:
  "resolve_lock_location (Some name) scout =
     (if scout = [] then UnknownLock
      else if holders name scout = {} then InAnotherWorld else Found (Min (holders name scout)))"
  by (simp add: resolve_lock_location_def keep_lower_fold Let_def)

lemma resolve_perm:
  assumes "mset scout = mset scout'"
  shows "resolve_lock_location item scout = resolve_lock_location item scout'"
proof (cases item)
  case None
  then show ?thesis by (simp add: resolve_lock_location_def)
next
  case (Some name)
  have "set scout = set scout'" "scout = [] \<longleftrightarrow> scout' = []"
    using assms by (metis set_mset_mset, metis mset_zero_iff)
  with Some show ?thesis by (simp add: resolve_spec holders_def)
qed

lemma map_of_perm: "mset xs = mset ys \<Longrightarrow> distinct (map fst xs) \<Longrightarrow> map_of xs = map_of ys"
  by (metis map_of_inject_set mset_map mset_eq_imp_distinct_iff set_mset_mset)

text \<open>
  the next lock does not depend on the iteration order of the hash tables. Any reordering of
  the entries of the lock items, the region table and the scout gives the same answer, so the
  control cannot change between frames.
\<close>

theorem next_lock_order_independent:
  assumes "mset lock_items = mset lock_items'" and "distinct (map fst lock_items)"
    and "mset coarse_of = mset coarse_of'" and "distinct (map fst coarse_of)"
    and "mset scout = mset scout'"
  shows "next_lock_of lock_items open_regions coarse_of scout hinted =
    next_lock_of lock_items' open_regions coarse_of' scout' hinted"
proof -
  let ?P = "\<lambda>e :: string \<times> string. fst e \<noteq> [] \<and> fst e \<notin> open_regions"
  have e: "lock_items = [] \<longleftrightarrow> lock_items' = []" "scout = [] \<longleftrightarrow> scout' = []"
    using assms(1,5) by (metis mset_zero_iff)+
  have m: "mset (filter ?P lock_items) = mset (filter ?P lock_items')"
    using assms(1) by (simp add: mset_filter)
  have l: "filter ?P lock_items = [] \<longleftrightarrow> filter ?P lock_items' = []"
    using arg_cong [OF m, of size] by (simp only: length_0_conv [symmetric] size_mset)
  have s: "sort_key fst (filter ?P lock_items) = sort_key fst (filter ?P lock_items')"
    by (rule sort_key_perm [OF m]) (simp add: assms(2) distinct_map_filter)
  have sc: "scan_one scout coarse_of open_regions = scan_one scout' coarse_of' open_regions"
    by (intro ext) (simp only: scan_one_def resolve_perm [OF assms(5)] map_of_perm [OF assms(3,4)])
  show ?thesis unfolding next_lock_of_def Let_def e l s sc by (rule refl)
qed

theorem next_lock_order_independent_witness:
  "next_lock_of [(''Altus'', ''Altus Lock''), (''Liurnia'', ''Liurnia Lock'')] {} [(7, []), (9, ''Altus'')]
     [(9, ''Altus Lock''), (7, ''Liurnia Lock'')] {} =
   next_lock_of [(''Liurnia'', ''Liurnia Lock''), (''Altus'', ''Altus Lock'')] {} [(9, ''Altus''), (7, [])]
     [(7, ''Liurnia Lock''), (9, ''Altus Lock'')] {}"
  by (rule next_lock_order_independent) (simp_all add: add_mset_commute)

section \<open>The answer\<close>

text \<open>
  The frontier, stated directly: a region is shut, its lock item is in one of our own locations, and
  that location's region is open (the unnamed region always is).
\<close>

definition frontier ::
  "(string \<times> string) list \<Rightarrow> string set \<Rightarrow> (int \<times> string) list \<Rightarrow> (int \<times> string) list \<Rightarrow> frontier_lock set" where
  "frontier lock_items open_regions coarse_of scout =
     {f. (fl_region f, fl_lock_item f) \<in> set lock_items \<and> fl_region f \<noteq> [] \<and> fl_region f \<notin> open_regions \<and>
         holders (fl_lock_item f) scout \<noteq> {} \<and> fl_location f = Min (holders (fl_lock_item f) scout) \<and>
         (case map_of coarse_of (fl_location f) of
            None \<Rightarrow> False | Some holder \<Rightarrow> holder = [] \<or> holder \<in> open_regions)}"

lemma min_by_location_spec:
  "(case min_by_location fs of
      None \<Rightarrow> fs = []
    | Some f \<Rightarrow> f \<in> set fs \<and> (\<forall>g \<in> set fs. fl_location f \<le> fl_location g))"
  by (induction fs) (auto split: option.splits)

lemma scan_frontier:
  assumes "scout \<noteq> []"
  shows "set (fs_frontier (fold (scan_one scout coarse_of open_regions) es st)) =
    set (fs_frontier st) \<union> {f. (fl_region f, fl_lock_item f) \<in> set es \<and>
         holders (fl_lock_item f) scout \<noteq> {} \<and> fl_location f = Min (holders (fl_lock_item f) scout) \<and>
         (case map_of coarse_of (fl_location f) of
            None \<Rightarrow> False | Some holder \<Rightarrow> holder = [] \<or> holder \<in> open_regions)}"
proof (induction es arbitrary: st)
  case (Cons e es)
  have one: "set (fs_frontier (scan_one scout coarse_of open_regions e st)) =
    set (fs_frontier st) \<union> {f. (fl_region f, fl_lock_item f) = e \<and>
         holders (fl_lock_item f) scout \<noteq> {} \<and> fl_location f = Min (holders (fl_lock_item f) scout) \<and>
         (case map_of coarse_of (fl_location f) of
            None \<Rightarrow> False | Some holder \<Rightarrow> holder = [] \<or> holder \<in> open_regions)}"
    using assms by (cases e) (auto simp: scan_one_def resolve_spec split: option.splits)
  show ?case by (auto simp: Cons one)
qed simp

text \<open>
  the next lock is right. When the tables are known and something is locked, the answer is
  \<open>Reachable\<close> exactly when the frontier has a lock that is not hinted yet, and then it names such a
  lock, with the lowest location among them; \<open>AllFrontierHinted\<close> exactly when the frontier is
  nonempty and hinted throughout.
\<close>

theorem next_lock_is_lowest_reachable:
  assumes "lock_items \<noteq> []" and "scout \<noteq> []"
  shows "case next_lock_of lock_items open_regions coarse_of scout hinted of
      Reachable f \<Rightarrow> f \<in> frontier lock_items open_regions coarse_of scout \<and> fl_location f \<notin> hinted \<and>
        (\<forall>g \<in> frontier lock_items open_regions coarse_of scout.
           fl_location g \<notin> hinted \<longrightarrow> fl_location f \<le> fl_location g)
    | AllFrontierHinted \<Rightarrow> frontier lock_items open_regions coarse_of scout \<noteq> {} \<and>
        (\<forall>g \<in> frontier lock_items open_regions coarse_of scout. fl_location g \<in> hinted)
    | _ \<Rightarrow> frontier lock_items open_regions coarse_of scout = {}"
proof -
  let ?locked = "filter (\<lambda>e. fst e \<noteq> [] \<and> fst e \<notin> open_regions) lock_items"
  let ?st = "fold (scan_one scout coarse_of open_regions) (sort_key fst ?locked)
               \<lparr>fs_frontier = [], fs_spilled = [], fs_untabled = False\<rparr>"
  let ?F = "frontier lock_items open_regions coarse_of scout"
  have F: "set (fs_frontier ?st) = ?F"
    unfolding scan_frontier [OF assms(2)] by (auto simp: frontier_def)
  show ?thesis
  proof (cases "?locked = []")
    case True
    then have "?F = {}" by (auto simp: frontier_def filter_empty_conv)
    with True assms show ?thesis by (simp add: next_lock_of_def)
  next
    case False
    have n: "next_lock_of lock_items open_regions coarse_of scout hinted =
      (case min_by_location (filter (\<lambda>f. fl_location f \<notin> hinted) (fs_frontier ?st)) of
         Some f \<Rightarrow> Reachable f
       | None \<Rightarrow>
           if fs_frontier ?st \<noteq> [] then AllFrontierHinted
           else if fs_spilled ?st \<noteq> [] then SpilledIn (sort (fs_spilled ?st))
           else if fs_untabled ?st then UnknownNext
           else NoneReachable)"
      using False assms by (simp add: next_lock_of_def Let_def)
    note m = min_by_location_spec [of "filter (\<lambda>f. fl_location f \<notin> hinted) (fs_frontier ?st)"]
    have e: "fs_frontier ?st = [] \<longleftrightarrow> ?F = {}" unfolding F [symmetric] by simp
    show ?thesis
    proof (cases "min_by_location (filter (\<lambda>f. fl_location f \<notin> hinted) (fs_frontier ?st))")
      case None
      with m have "\<forall>g \<in> ?F. fl_location g \<in> hinted" by (simp add: filter_empty_conv F)
      with None e show ?thesis unfolding n by simp
    next
      case (Some f)
      with m show ?thesis unfolding n by (simp add: F)
    qed
  qed
qed

theorem next_lock_is_lowest_reachable_witness:
  "next_lock_of [(''Altus'', ''Altus Lock''), (''Liurnia'', ''Liurnia Lock'')] {} [(7, []), (9, ''Liurnia'')]
     [(9, ''Altus Lock''), (7, ''Liurnia Lock'')] {} =
     Reachable \<lparr>fl_region = ''Liurnia'', fl_lock_item = ''Liurnia Lock'', fl_location = 7\<rparr> \<and>
   \<lparr>fl_region = ''Liurnia'', fl_lock_item = ''Liurnia Lock'', fl_location = 7\<rparr> \<in>
     frontier [(''Altus'', ''Altus Lock''), (''Liurnia'', ''Liurnia Lock'')] {} [(7, []), (9, ''Liurnia'')]
       [(9, ''Altus Lock''), (7, ''Liurnia Lock'')]"
proof -
  let ?l = "[(''Altus'', ''Altus Lock''), (''Liurnia'', ''Liurnia Lock'')]"
  let ?s = "[(9, ''Altus Lock''), (7, ''Liurnia Lock'')] :: (int \<times> string) list"
  have r: "next_lock_of ?l {} [(7, []), (9, ''Liurnia'')] ?s {} =
      Reachable \<lparr>fl_region = ''Liurnia'', fl_lock_item = ''Liurnia Lock'', fl_location = 7\<rparr>"
    by (simp add: next_lock_of_def scan_one_def resolve_lock_location_def keep_lower_def)
  have "?l \<noteq> []" "?s \<noteq> []" by simp_all
  note c = next_lock_is_lowest_reachable [OF this, of "{}" "[(7, []), (9, ''Liurnia'')]" "{}"]
  show ?thesis
    by (rule conjI [OF r]) (use c in \<open>unfold r next_lock.case, elim conjE\<close>)
qed

end
