(* ===== verification/Traps.thy ===== *)
theory Traps
  imports Prelude
begin

text \<open>
  Traps: the item names that carry them (\<open>crates/er-logic/src/traps.rs\<close>) and the queue that
  holds a trap until the player can receive it (the same file, and the poll of
  \<open>crates/eldenring-archipelago/src/traps.rs\<close>). A Rust string is its list of UTF-8 bytes, so
  the ASCII tests of the code are tests here too. Reaching into the game (\<open>fire\<close>) is an input
  of the poll: which traps it accepts on a tick.
\<close>

section \<open>Strings and numbers\<close>

text \<open>\<open>str::rsplit_once\<close>: around the last occurrence of the separator.\<close>

fun rsplit_once :: "string \<Rightarrow> string \<Rightarrow> (string \<times> string) option" where
  "rsplit_once t [] = None"
| "rsplit_once t (x # xs) =
     (case rsplit_once t xs of
        Some (a, b) \<Rightarrow> Some (x # a, b)
      | None \<Rightarrow> map_option (Pair []) (strip_prefix t (x # xs)))"

text \<open>\<open>str::parse::<i32>\<close>: an optional sign, at least one digit, digits only, within range.\<close>

definition parse_i32 :: "string \<Rightarrow> int option" where
  "parse_i32 s =
     (case s of
        [] \<Rightarrow> None
      | c # r \<Rightarrow>
          if c = CHR ''-'' then
            (if r = [] \<or> \<not> list_all is_ascii_digit r then None
             else if digits_value r \<le> 2 ^ 31 then Some (- int (digits_value r)) else None)
          else map_option int (parse_unsigned 31 s))"

definition parse_u32 :: "string \<Rightarrow> nat option" where
  "parse_u32 s = parse_unsigned 32 s"

definition starts_with :: "string \<Rightarrow> string \<Rightarrow> bool" where
  "starts_with s t \<longleftrightarrow> strip_prefix t s \<noteq> None"

definition is_ascii :: "string \<Rightarrow> bool" where
  "is_ascii s \<longleftrightarrow> list_all (\<lambda>c. (of_char c :: nat) < 128) s"

text \<open>\<open>i32::saturating_mul\<close>.\<close>

definition saturating_mul_i32 :: "int \<Rightarrow> int \<Rightarrow> int" where
  "saturating_mul_i32 a b = max (- (2 ^ 31)) (min (2 ^ 31 - 1) (a * b))"

text \<open>Well-formed UTF-8, byte by byte (\<open>std::str::from_utf8\<close> accepts exactly this).\<close>

definition is_cont :: "nat \<Rightarrow> bool" where
  "is_cont b \<longleftrightarrow> 128 \<le> b \<and> b \<le> 191"

fun utf8_ok :: "nat list \<Rightarrow> bool" where
  "utf8_ok [] \<longleftrightarrow> True"
| "utf8_ok (b # bs) \<longleftrightarrow>
     (if b < 128 then utf8_ok bs
      else case bs of
        [] \<Rightarrow> False
      | b1 # bs1 \<Rightarrow>
          if 194 \<le> b \<and> b \<le> 223 then is_cont b1 \<and> utf8_ok bs1
          else case bs1 of
            [] \<Rightarrow> False
          | b2 # bs2 \<Rightarrow>
              if 224 \<le> b \<and> b \<le> 239 then
                is_cont b1 \<and> (b = 224 \<longrightarrow> 160 \<le> b1) \<and> (b = 237 \<longrightarrow> b1 \<le> 159) \<and> is_cont b2 \<and> utf8_ok bs2
              else case bs2 of
                [] \<Rightarrow> False
              | b3 # bs3 \<Rightarrow>
                  240 \<le> b \<and> b \<le> 244 \<and> is_cont b1 \<and> (b = 240 \<longrightarrow> 144 \<le> b1) \<and> (b = 244 \<longrightarrow> b1 \<le> 143)
                  \<and> is_cont b2 \<and> is_cont b3 \<and> utf8_ok bs3)"

lemma rsplit_once_SomeD: "rsplit_once t s = Some (a, b) \<Longrightarrow> s = a @ t @ b"
  by (induction t s arbitrary: a b rule: rsplit_once.induct)
     (auto split: option.splits dest: strip_prefix_SomeD)

lemma strip_prefix_head: "x \<noteq> c \<Longrightarrow> strip_prefix (c # u) (x # xs) = None"
  by simp

lemma rsplit_once_none: "c \<notin> set s \<Longrightarrow> rsplit_once (c # u) s = None"
  by (induction s) auto

lemma rsplit_once_here:
  assumes "c \<notin> set u" and "c \<notin> set r"
  shows "rsplit_once (c # u) (c # u @ r) = Some ([], r)"
proof -
  have "rsplit_once (c # u) (u @ r) = None"
    using assms by (intro rsplit_once_none) auto
  then show ?thesis by simp
qed

lemma rsplit_once_append:
  "c \<notin> set u \<Longrightarrow> c \<notin> set r \<Longrightarrow> rsplit_once (c # u) (p @ c # u @ r) = Some (p, r)"
proof (induction p)
  case Nil
  then show ?case by (metis append_Nil rsplit_once_here)
qed simp

lemma strip_suffix_append [simp]: "strip_suffix t (s @ t) = Some s"
  by (simp add: strip_suffix_def)

lemma strip_suffix_SomeD: "strip_suffix t s = Some r \<Longrightarrow> s = r @ t"
  unfolding strip_suffix_def
  by (auto dest!: strip_prefix_SomeD) (metis rev_append rev_rev_ident)

lemma parse_unsigned_less: "parse_unsigned w s = Some n \<Longrightarrow> n < 2 ^ w"
  by (auto simp: parse_unsigned_def Let_def split: if_splits)

lemma show_nat_not_minus: "show_nat n = c # r \<Longrightarrow> c \<noteq> CHR ''-''"
  using show_nat_no_special(2) [of n] by auto

lemma parse_i32_show: "0 \<le> i \<Longrightarrow> i < 2 ^ 31 \<Longrightarrow> parse_i32 (show_int i) = Some i"
proof -
  assume i: "0 \<le> i" "i < 2 ^ 31"
  obtain c r where s: "show_nat (nat i) = c # r" by (cases "show_nat (nat i)") auto
  have "parse_unsigned 31 (show_nat (nat i)) = Some (nat i)"
    using i by (intro parse_unsigned_show) (simp add: nat_less_iff)
  then show ?thesis
    using i s show_nat_not_minus [OF s] by (simp add: parse_i32_def show_int_def)
qed

lemma digit_no_space: "is_ascii_digit c \<Longrightarrow> c \<noteq> CHR '' '' \<and> c \<noteq> CHR ''/''"
  by (auto simp: is_ascii_digit_def)

lemma show_nat_no_sep: "CHR '' '' \<notin> set (show_nat n)" "CHR ''/'' \<notin> set (show_nat n)"
  using show_nat_digits [of n] digit_no_space by (auto simp: list_all_iff)

lemma ascii_utf8: "is_ascii s \<Longrightarrow> utf8_ok (map of_char s)"
  by (induction s) (auto simp: is_ascii_def)

section \<open>Traps and their names\<close>

definition LABEL_CAP :: nat where "LABEL_CAP = 24"
definition MAX_SPAWN_COUNT :: nat where "MAX_SPAWN_COUNT = 8"
definition THINK_PARAM_MULTIPLIER :: int where "THINK_PARAM_MULTIPLIER = 10000"
definition ITEM_PREFIX :: string where "ITEM_PREFIX = ''Trap: ''"

record spawn_spec =
  chr_id :: int
  npc_param_id :: int
  think_param_id :: int
  spawn_count :: nat
  label_buf :: string
  label_len :: nat

datatype trap = RuneThief | NoFlask | Blackout | Runebear | Spawn spawn_spec

text \<open>The buffer is zero-filled to \<open>LABEL_CAP\<close> bytes; a long or non-ASCII label is refused.\<close>

definition spec_new :: "int \<Rightarrow> int \<Rightarrow> nat \<Rightarrow> string \<Rightarrow> spawn_spec option" where
  "spec_new chr npc n lbl =
     (if LABEL_CAP < length lbl then None
      else if \<not> list_all (\<lambda>c. (of_char c :: nat) < 128) lbl then None
      else Some \<lparr>chr_id = chr, npc_param_id = npc,
                 think_param_id = saturating_mul_i32 chr THINK_PARAM_MULTIPLIER,
                 spawn_count = n,
                 label_buf = lbl @ replicate (LABEL_CAP - length lbl) (CHR 0x00),
                 label_len = length lbl\<rparr>)"

definition retained_label :: "spawn_spec \<Rightarrow> string" where
  "retained_label sp =
     (let b = take (min (label_len sp) LABEL_CAP) (label_buf sp)
      in if utf8_ok (map of_char b) then b else [])"

definition spec_label :: "spawn_spec \<Rightarrow> string" where
  "spec_label sp =
     (if retained_label sp = [] then ''c'' @ show_int (chr_id sp) else retained_label sp)"

definition spec_key :: "spawn_spec \<Rightarrow> string" where
  "spec_key sp = ''spawn_c'' @ show_int (chr_id sp) @ ''_x'' @ show_nat (spawn_count sp)"

definition spec_toast :: "spawn_spec \<Rightarrow> string" where
  "spec_toast sp =
     ''TRAP: '' @ spec_label sp @ '' x'' @ show_nat (spawn_count sp)
     @ '' -- something is standing where you are''"

definition spec_item_name :: "spawn_spec \<Rightarrow> string" where
  "spec_item_name sp =
     ITEM_PREFIX @ spec_label sp @ '' x'' @ show_nat (spawn_count sp) @ '' (''
     @ show_int (chr_id sp) @ ''/'' @ show_int (npc_param_id sp) @ '')''"

definition is_sane :: "spawn_spec \<Rightarrow> bool" where
  "is_sane sp =
     (if \<not> (100 \<le> chr_id sp \<and> chr_id sp \<le> 9999) then False
      else if \<not> (1 \<le> spawn_count sp \<and> spawn_count sp \<le> MAX_SPAWN_COUNT) then False
      else starts_with (show_int (npc_param_id sp)) (show_int (chr_id sp)))"

definition spec_from_item_name :: "string \<Rightarrow> spawn_spec option" where
  "spec_from_item_name name =
     (case Option.bind (strip_prefix ITEM_PREFIX name) (strip_suffix '')'') of
        None \<Rightarrow> None
      | Some body \<Rightarrow>
     (case rsplit_once '' ('' body of
        None \<Rightarrow> None
      | Some (readable, payload) \<Rightarrow>
     (case split_char (CHR ''/'') payload of
        [chr, npc] \<Rightarrow>
          (case rsplit_once '' x'' readable of
             None \<Rightarrow> None
           | Some (lbl, n) \<Rightarrow>
               if lbl = [] \<or> \<not> is_ascii lbl then None
               else case (parse_i32 chr, parse_i32 npc, parse_u32 n) of
                      (Some c, Some p, Some k) \<Rightarrow>
                        (case spec_new c p k lbl of
                           None \<Rightarrow> None
                         | Some sp \<Rightarrow> if is_sane sp then Some sp else None)
                    | _ \<Rightarrow> None)
      | _ \<Rightarrow> None)))"

primrec trap_key :: "trap \<Rightarrow> string" where
  "trap_key RuneThief = ''rune_thief''"
| "trap_key NoFlask = ''no_flask''"
| "trap_key Blackout = ''blackout''"
| "trap_key Runebear = ''runebear''"
| "trap_key (Spawn sp) = spec_key sp"

primrec trap_toast :: "trap \<Rightarrow> string" where
  "trap_toast RuneThief = ''TRAP: Rune Thief -- half your runes are gone''"
| "trap_toast NoFlask = ''TRAP: No Flask -- your flask heals nothing for 20s''"
| "trap_toast Blackout = ''TRAP: Blackout -- the lights go out for 2s''"
| "trap_toast Runebear = ''TRAP: Runebear -- something large is standing where you are''"
| "trap_toast (Spawn sp) = spec_toast sp"

primrec trap_item_name :: "trap \<Rightarrow> string" where
  "trap_item_name RuneThief = ''Trap: Rune Thief''"
| "trap_item_name NoFlask = ''Trap: No Flask''"
| "trap_item_name Blackout = ''Trap: Blackout''"
| "trap_item_name Runebear = ''Trap: Runebear''"
| "trap_item_name (Spawn sp) = spec_item_name sp"

definition ALL_TRAPS :: "trap list" where
  "ALL_TRAPS = [RuneThief, NoFlask, Blackout, Runebear]"

definition trap_from_item_name :: "string \<Rightarrow> trap option" where
  "trap_from_item_name name =
     (case find (\<lambda>t. trap_item_name t = name) ALL_TRAPS of
        Some fixed \<Rightarrow> Some fixed
      | None \<Rightarrow> map_option Spawn (spec_from_item_name name))"

definition runebear_spawn :: "spawn_spec option" where
  "runebear_spawn = spec_new 4630 46300010 1 ''Runebear''"

section \<open>The name round trip\<close>

text \<open>
  What a spawn trap that came out of a name satisfies: it is what the checked constructor builds
  from a non-empty label, its ids and count are in range, and the body row is of the model's family.
\<close>

definition spec_ok :: "spawn_spec \<Rightarrow> bool" where
  "spec_ok sp \<longleftrightarrow>
     (let lbl = take (label_len sp) (label_buf sp)
      in lbl \<noteq> [] \<and> spec_new (chr_id sp) (npc_param_id sp) (spawn_count sp) lbl = Some sp
         \<and> is_sane sp \<and> npc_param_id sp < 2 ^ 31)"

definition trap_ok :: "trap \<Rightarrow> bool" where
  "trap_ok t = (case t of Spawn sp \<Rightarrow> spec_ok sp | _ \<Rightarrow> True)"

lemma spec_newD:
  assumes "spec_new c p k lbl = Some sp"
  shows "chr_id sp = c" "npc_param_id sp = p" "spawn_count sp = k" "label_len sp = length lbl"
    "take (length lbl) (label_buf sp) = lbl" "length lbl \<le> LABEL_CAP" "is_ascii lbl"
    "think_param_id sp = saturating_mul_i32 c THINK_PARAM_MULTIPLIER"
  using assms by (auto simp: spec_new_def is_ascii_def split: if_splits)

lemma retained_label_new: "spec_new c p k lbl = Some sp \<Longrightarrow> retained_label sp = lbl"
  using spec_newD [of c p k lbl sp] ascii_utf8 [of lbl]
  by (simp add: retained_label_def min_absorb1)

lemma spec_label_new: "spec_new c p k lbl = Some sp \<Longrightarrow> lbl \<noteq> [] \<Longrightarrow> spec_label sp = lbl"
  using retained_label_new [of c p k lbl sp] by (simp add: spec_label_def)

lemma saneD:
  assumes "is_sane sp"
  shows "100 \<le> chr_id sp" "chr_id sp \<le> 9999" "1 \<le> spawn_count sp" "spawn_count sp \<le> 8"
    "starts_with (show_int (npc_param_id sp)) (show_int (chr_id sp))"
  using assms by (auto simp: is_sane_def MAX_SPAWN_COUNT_def split: if_splits)

lemma sane_npc_nonneg: "is_sane sp \<Longrightarrow> 0 \<le> npc_param_id sp"
proof (rule ccontr)
  assume s: "is_sane sp" and neg: "\<not> 0 \<le> npc_param_id sp"
  obtain c r where cr: "show_nat (nat (chr_id sp)) = c # r" by (cases "show_nat (nat (chr_id sp))") auto
  from show_nat_not_minus [OF cr] saneD(1,5) [OF s] neg cr show False
    by (simp add: starts_with_def show_int_def split: if_splits)
qed

lemma show_int_nonneg: "0 \<le> i \<Longrightarrow> show_int i = show_nat (nat i)"
  by (simp add: show_int_def)

lemma payload_no_space:
  assumes "is_sane sp"
  shows "CHR '' '' \<notin> set (show_int (chr_id sp) @ ''/'' @ show_int (npc_param_id sp))"
  using saneD(1) [OF assms] sane_npc_nonneg [OF assms]
  by (simp add: show_int_nonneg show_nat_no_sep)

lemma spec_roundtrip:
  assumes "spec_ok sp"
  shows "spec_from_item_name (spec_item_name sp) = Some sp"
proof -
  define lbl where "lbl = take (label_len sp) (label_buf sp)"
  from assms have ne: "lbl \<noteq> []" and new: "spec_new (chr_id sp) (npc_param_id sp) (spawn_count sp) lbl = Some sp"
    and sane: "is_sane sp" and hi: "npc_param_id sp < 2 ^ 31"
    by (auto simp: spec_ok_def Let_def lbl_def)
  let ?pay = "show_int (chr_id sp) @ ''/'' @ show_int (npc_param_id sp)"
  let ?rd = "lbl @ '' x'' @ show_nat (spawn_count sp)"
  have body: "Option.bind (strip_prefix ITEM_PREFIX (spec_item_name sp)) (strip_suffix '')'')
      = Some (?rd @ '' ('' @ ?pay)"
  proof -
    have "spec_item_name sp = ITEM_PREFIX @ ((?rd @ '' ('' @ ?pay) @ '')'')"
      by (simp add: spec_item_name_def spec_label_new [OF new ne])
    then show ?thesis by (simp only: strip_prefix_append strip_suffix_append bind.bind_lunit)
  qed
  have open_paren: "rsplit_once '' ('' (?rd @ '' ('' @ ?pay) = Some (?rd, ?pay)"
    using rsplit_once_append [of "CHR '' ''" "''(''" ?pay ?rd] payload_no_space [OF sane] by simp
  have fields: "split_char (CHR ''/'') ?pay = [show_int (chr_id sp), show_int (npc_param_id sp)]"
    using saneD(1) [OF sane] sane_npc_nonneg [OF sane]
    by (simp add: show_int_nonneg split_char_append split_char_no_sep show_nat_no_sep)
  have count: "rsplit_once '' x'' ?rd = Some (lbl, show_nat (spawn_count sp))"
    using rsplit_once_append [of "CHR '' ''" "''x''" "show_nat (spawn_count sp)" lbl] show_nat_no_sep(1)
    by simp
  have nums: "parse_i32 (show_int (chr_id sp)) = Some (chr_id sp)"
    "parse_i32 (show_int (npc_param_id sp)) = Some (npc_param_id sp)"
    "parse_u32 (show_nat (spawn_count sp)) = Some (spawn_count sp)"
    using saneD [OF sane] sane_npc_nonneg [OF sane] hi
    by (simp_all add: parse_i32_show parse_u32_def parse_unsigned_show)
  have asc: "is_ascii lbl" by (rule spec_newD(7) [OF new])
  show ?thesis
    unfolding spec_from_item_name_def body option.case open_paren prod.case fields list.case count nums
    by (simp add: ne asc new sane)
qed

text \<open>Every name the parser accepts yields such a spec.\<close>

lemma parse_i32_less: "parse_i32 s = Some i \<Longrightarrow> i < 2 ^ 31"
  using parse_unsigned_less [of 31 s]
  by (auto simp: parse_i32_def split: list.splits if_splits)

lemma spec_from_item_name_ok:
  assumes "spec_from_item_name name = Some sp"
  shows "spec_ok sp"
proof -
  from assms obtain chr npc n lbl c p k where
    ne: "lbl \<noteq> []" and p: "parse_i32 npc = Some p" and new: "spec_new c p k lbl = Some sp" and sane: "is_sane sp"
    by (auto simp: spec_from_item_name_def split: option.splits prod.splits list.splits if_splits)
  from spec_newD [OF new] have "take (label_len sp) (label_buf sp) = lbl" by simp
  then show ?thesis
    using ne new sane spec_newD(1-3) [OF new] parse_i32_less [OF p] by (simp add: spec_ok_def)
qed

lemma spec_item_name_not_fixed: "find (\<lambda>t. trap_item_name t = spec_item_name sp) ALL_TRAPS = None"
proof -
  have "last (spec_item_name sp) = CHR '')''" by (simp add: spec_item_name_def)
  moreover have "\<And>t. t \<in> set ALL_TRAPS \<Longrightarrow> last (trap_item_name t) \<noteq> CHR '')''"
    by (auto simp: ALL_TRAPS_def)
  ultimately have "\<And>t. t \<in> set ALL_TRAPS \<Longrightarrow> trap_item_name t \<noteq> spec_item_name sp"
    by metis
  then show ?thesis by (auto simp: find_None_iff)
qed

lemma trap_parse_ok: "trap_from_item_name name = Some t \<Longrightarrow> trap_ok t"
  using spec_from_item_name_ok [of name]
  by (auto simp: trap_from_item_name_def trap_ok_def find_Some_iff ALL_TRAPS_def
      split: option.splits trap.splits if_splits)

lemma trap_mint_parses: "trap_ok t \<Longrightarrow> trap_from_item_name (trap_item_name t) = Some t"
proof (cases t)
  case (Spawn sp)
  assume "trap_ok t"
  with Spawn show ?thesis
    by (simp add: trap_from_item_name_def spec_item_name_not_fixed spec_roundtrip trap_ok_def)
qed (simp_all add: trap_from_item_name_def ALL_TRAPS_def)

text \<open>
  C36: Trap names round trip, and the parser lets nothing else through: minting the item name of a
  trap and parsing it gives that trap back exactly when the trap is one of the four fixed ones or a
  spawn built by the checked constructor (non-empty ASCII label of at most 24 bytes, model number
  100 to 9999, 1 to 8 creatures, a body row in the model's own family); labels may themselves hold
  the separators. Every name the parser accepts, canonical or not, denotes such a trap, so
  re-minting what was received is stable.
\<close>

theorem trap_names_round_trip:
  "(trap_from_item_name (trap_item_name t) = Some t) = trap_ok t
   \<and> (case trap_from_item_name name of
        None \<Rightarrow> True
      | Some t' \<Rightarrow> trap_ok t' \<and> trap_from_item_name (trap_item_name t') = Some t')"
  using trap_mint_parses trap_parse_ok by (auto split: option.split)

lemma trap_names_examples:
  "trap_from_item_name ''Trap: Runebear'' = Some Runebear"
  "map_option trap_item_name (map_option Spawn (spec_new 4150 41500060 3 ''Basilisk''))
     = Some ''Trap: Basilisk x3 (4150/41500060)''"
  "trap_from_item_name ''Trap: Crab x2 x3 (2270/22700000)''
     = map_option Spawn (spec_new 2270 22700000 3 ''Crab x2'')"
  "trap_from_item_name ''Trap: Basilisk x9 (4150/41500060)'' = None"
  by code_simp+

lemma think_row_is_the_family_template:
  "spec_ok sp \<Longrightarrow> think_param_id sp = chr_id sp * 10000"
proof -
  assume ok: "spec_ok sp"
  then have "think_param_id sp = saturating_mul_i32 (chr_id sp) 10000" and "is_sane sp"
    by (auto simp: spec_ok_def Let_def THINK_PARAM_MULTIPLIER_def dest: spec_newD(8))
  then show ?thesis using saneD(1,2) [of sp] by (simp add: saturating_mul_i32_def)
qed


section \<open>Why a name was refused\<close>

datatype refusal = NotATrap | WorldBehind | Malformed string | NoFault

definition drifted :: string where
  "drifted = ''this build's parser refused it but no rule here can say which -- the refusal classifier has drifted from the parser''"

definition classify_refusal :: "string \<Rightarrow> refusal" where
  "classify_refusal name =
     (if trap_from_item_name name \<noteq> None then NoFault
      else case strip_prefix ITEM_PREFIX name of
        None \<Rightarrow> NotATrap
      | Some body0 \<Rightarrow>
     (case strip_suffix '')'' body0 of
        None \<Rightarrow> NotATrap
      | Some body \<Rightarrow>
     (case rsplit_once '' ('' body of
        None \<Rightarrow> NotATrap
      | Some (readable, payload) \<Rightarrow>
     (let fields = split_char (CHR ''/'') payload
      in if length fields = 3 then
           (if parse_i32 (fields ! 0) \<noteq> None \<and> parse_i32 (fields ! 1) \<noteq> None then WorldBehind
            else Malformed ''the payload's first two fields must both be numbers'')
         else if length fields \<noteq> 2 then
           Malformed ''the payload must be exactly two slash-separated fields, `<chr>/<npc>`''
         else
     (case rsplit_once '' x'' readable of
        None \<Rightarrow> Malformed ''the readable half must end in ` x<count>` before the payload''
      | Some (lbl, n) \<Rightarrow>
         if lbl = [] then Malformed ''the label must not be empty''
         else if \<not> is_ascii lbl then
           Malformed ''the label must be ASCII -- the in-game font draws `?` for everything else''
         else
     (case parse_i32 (fields ! 0) of
        None \<Rightarrow> Malformed ''`<chr>` must be a number''
      | Some chr \<Rightarrow>
     (case parse_i32 (fields ! 1) of
        None \<Rightarrow> Malformed ''`<npc>` must be a number''
      | Some npc \<Rightarrow>
     (case parse_u32 n of
        None \<Rightarrow> Malformed ''`<count>` must be a number''
      | Some k \<Rightarrow>
         if LABEL_CAP < length lbl then
           Malformed ''the label is longer than LABEL_CAP bytes, and it is refused rather than truncated''
         else if \<not> (100 \<le> chr \<and> chr \<le> 9999) then
           Malformed ''`<chr>` must be a plausible model number, 100..=9999''
         else if \<not> (1 \<le> k \<and> k \<le> MAX_SPAWN_COUNT) then
           Malformed ''`<count>` must be between 1 and MAX_SPAWN_COUNT''
         else if \<not> starts_with (show_int npc) (show_int chr) then
           Malformed ''`<npc>` must be a row in the `<chr>` model's own family -- a body must not run another creature's stat block''
         else Malformed drifted))))))))"

primrec advice :: "refusal \<Rightarrow> string" where
  "advice NotATrap =
     ''no trap of that name exists in this build. EITHER a newer world minted a trap this client does not have, OR the name is not a trap at all -- this side cannot tell which, so check the world's trap list before changing either half.''"
| "advice WorldBehind =
     ''the payload carries THREE fields, which is the shape minted BEFORE this build. The WORLD (apworld) is behind, not this side: update the apworld or regenerate the seed. This build mints and reads `Trap: <label> x<count> (<chr>/<npc>)`.''"
| "advice (Malformed rule) =
     ''it is shaped like a spawn trap but this build cannot read it: '' @ rule
     @ ''. That is evidence about NEITHER side's version -- no build mints a name like this -- so quote it verbatim rather than updating either half.''"
| "advice NoFault =
     ''this build ACCEPTS that name -- there is nothing about the name to diagnose. If something refused it, the reason lies somewhere other than its format.''"

text \<open>The constructor and the sanity check accept exactly what the classifier's last four rules excuse.\<close>

lemma spec_new_sane_iff:
  "is_ascii lbl \<Longrightarrow>
   (\<exists>sp. spec_new c p k lbl = Some sp \<and> is_sane sp) \<longleftrightarrow>
   length lbl \<le> LABEL_CAP \<and> 100 \<le> c \<and> c \<le> 9999 \<and> 1 \<le> k \<and> k \<le> MAX_SPAWN_COUNT
   \<and> starts_with (show_int p) (show_int c)"
  by (auto simp: spec_new_def is_sane_def is_ascii_def)

definition world_behind :: "string \<Rightarrow> bool" where
  "world_behind name \<longleftrightarrow>
     (case Option.bind (Option.bind (strip_prefix ITEM_PREFIX name) (strip_suffix '')'')) (rsplit_once '' ('') of
        None \<Rightarrow> False
      | Some (readable, payload) \<Rightarrow>
          (case split_char (CHR ''/'') payload of
             [chr, npc, think] \<Rightarrow> parse_i32 chr \<noteq> None \<and> parse_i32 npc \<noteq> None
           | _ \<Rightarrow> False))"

lemma world_behind_refused: "world_behind name \<Longrightarrow> spec_from_item_name name = None"
  by (auto simp: world_behind_def spec_from_item_name_def split: option.splits list.splits prod.splits
      bind_split)


lemma spec_refused:
  assumes "spec_from_item_name name = None"
    and "strip_prefix ITEM_PREFIX name = Some b0" "strip_suffix '')'' b0 = Some body"
    and "rsplit_once '' ('' body = Some (readable, payload)"
    and "length (split_char (CHR ''/'') payload) = 2"
    and "rsplit_once '' x'' readable = Some (lbl, n)" "lbl \<noteq> []" "is_ascii lbl"
    and "parse_i32 (split_char (CHR ''/'') payload ! 0) = Some c"
    and "parse_i32 (split_char (CHR ''/'') payload ! 1) = Some p" "parse_u32 n = Some k"
  shows "\<not> (length lbl \<le> LABEL_CAP \<and> 100 \<le> c \<and> c \<le> 9999 \<and> 1 \<le> k \<and> k \<le> MAX_SPAWN_COUNT
            \<and> starts_with (show_int p) (show_int c))"
proof -
  obtain f0 f1 where f: "split_char (CHR ''/'') payload = [f0, f1]"
    using assms(5) by (auto simp: numeral_2_eq_2 length_Suc_conv)
  with assms have "\<not> (\<exists>sp. spec_new c p k lbl = Some sp \<and> is_sane sp)"
    by (auto simp: spec_from_item_name_def split: option.splits if_splits)
  then show ?thesis using spec_new_sane_iff [OF assms(8)] by blast
qed

lemma classify_not_drifted: "classify_refusal name \<noteq> Malformed drifted"
proof
  assume d: "classify_refusal name = Malformed drifted"
  then have none: "trap_from_item_name name = None"
    by (auto simp: classify_refusal_def split: if_splits)
  then have "spec_from_item_name name = None"
    by (auto simp: trap_from_item_name_def split: option.splits)
  note refused = spec_refused [OF this]
  from d none show False
    unfolding classify_refusal_def
    by (auto simp: Let_def drifted_def not_less dest: refused split: option.splits prod.splits if_splits)
qed

lemma classify_world_behind:
  "classify_refusal name = WorldBehind \<longleftrightarrow> trap_from_item_name name = None \<and> world_behind name"
  by (auto simp: classify_refusal_def world_behind_def Let_def length_Suc_conv numeral_3_eq_3
      split: option.splits prod.splits list.splits if_splits)

lemma fixed_not_behind: "find (\<lambda>t. trap_item_name t = name) ALL_TRAPS = Some t \<Longrightarrow> \<not> world_behind name"
proof -
  assume "find (\<lambda>t. trap_item_name t = name) ALL_TRAPS = Some t"
  then have "t \<in> set ALL_TRAPS" and n: "name = trap_item_name t"
    by (auto simp: find_Some_iff)
  then have "last name \<noteq> CHR '')'' \<and> name \<noteq> [] \<and> strip_prefix ITEM_PREFIX name \<noteq> None"
    by (auto simp: ALL_TRAPS_def ITEM_PREFIX_def)
  then show ?thesis
    by (auto simp: world_behind_def dest!: strip_suffix_SomeD strip_prefix_SomeD split: bind_splits)
qed


text \<open>
  The refusal classifier agrees with the parser about every name: it says "no fault" exactly
  for the names the parser accepts, it blames an older world exactly for the names that have a
  three-field payload with two numeric ids, and its fall-through verdict ("the classifier has
  drifted from the parser") is unreachable.
\<close>

theorem classifier_agrees_with_parser:
  "(classify_refusal name = NoFault) = (trap_from_item_name name \<noteq> None)
   \<and> (classify_refusal name = WorldBehind) = world_behind name
   \<and> classify_refusal name \<noteq> Malformed drifted"
proof -
  have "classify_refusal name = NoFault \<Longrightarrow> trap_from_item_name name \<noteq> None"
    by (auto simp: classify_refusal_def Let_def split: option.splits prod.splits if_splits)
  moreover have "world_behind name \<Longrightarrow> trap_from_item_name name = None"
    using fixed_not_behind [of name] world_behind_refused [of name]
    by (cases "find (\<lambda>t. trap_item_name t = name) ALL_TRAPS") (auto simp: trap_from_item_name_def)
  ultimately show ?thesis
    using classify_not_drifted classify_world_behind by (auto simp: classify_refusal_def)
qed

lemma classifier_examples:
  "classify_refusal ''Trap: c2120 (2120/21200000/21200000 x1)'' = WorldBehind"
  "classify_refusal ''Boss Key: Godrick'' = NotATrap"
  "classify_refusal ''Trap: Basilisk x400 (4150/41500060)''
     = Malformed ''`<count>` must be between 1 and MAX_SPAWN_COUNT''"
  by code_simp+

end
