(* ===== verification/TrapDelivery.thy ===== *)
theory TrapDelivery
  imports Traps "HOL-Library.Multiset"
begin

text \<open>
  The queue of traps the player cannot receive yet (\<open>TrapQueue\<close> of
  \<open>crates/er-logic/src/traps.rs\<close>) and the client's use of it
  (\<open>enqueue_by_item_name\<close>, \<open>enqueue_by_link_name\<close> and the queue part of
  \<open>poll_pending\<close> in \<open>crates/eldenring-archipelago/src/traps.rs\<close>). Inputs of a
  poll are its clock reading, whether something else owns the tick (respec or a spawn burst),
  whether the player is in world, and which traps \<open>fire\<close> can apply on this tick.
\<close>

section \<open>Rune Thief\<close>

definition rune_thief_target :: "nat \<Rightarrow> nat" where
  "rune_thief_target current = current div 2"

datatype rune_thief_action = Take nat | Defer

definition rune_thief_action :: "nat \<Rightarrow> rune_thief_action" where
  "rune_thief_action current = (if current = 0 then Defer else Take (rune_thief_target current))"

lemma rune_thief_takes: "rune_thief_action n = Take m \<Longrightarrow> m < n \<and> n \<le> 2 * m + 1"
  by (auto simp: rune_thief_action_def rune_thief_target_def split: if_splits)

section \<open>The queue\<close>

record trap_queue =
  pending_traps :: "trap list"
  waiting_since_ms :: "nat option"

definition DEFER_WARN_MS :: nat where "DEFER_WARN_MS = 30000"

definition tq_new :: trap_queue where
  "tq_new = \<lparr>pending_traps = [], waiting_since_ms = None\<rparr>"

definition tq_push :: "trap \<Rightarrow> nat \<Rightarrow> trap_queue \<Rightarrow> trap_queue" where
  "tq_push t now q =
     (let q1 = (if pending_traps q = [] then q\<lparr>waiting_since_ms := Some now\<rparr> else q)
      in q1\<lparr>pending_traps := pending_traps q1 @ [t]\<rparr>)"

definition tq_poll :: "nat \<Rightarrow> bool \<Rightarrow> trap_queue \<Rightarrow> trap option \<times> trap_queue" where
  "tq_poll now can_fire q =
     (if \<not> can_fire then (None, q)
      else case pending_traps q of
        [] \<Rightarrow> (None, q)
      | t # rest \<Rightarrow>
          (Some t, q\<lparr>pending_traps := rest,
                     waiting_since_ms := (if rest \<noteq> [] then Some now else None)\<rparr>))"

definition tq_overdue :: "nat \<Rightarrow> trap_queue \<Rightarrow> bool" where
  "tq_overdue now q =
     (case waiting_since_ms q of Some t \<Rightarrow> DEFER_WARN_MS \<le> now - t | None \<Rightarrow> False)"

definition tq_wf :: "trap_queue \<Rightarrow> bool" where
  "tq_wf q \<longleftrightarrow> (waiting_since_ms q = None) = (pending_traps q = [])"

lemma tq_wf_ops [wf_intros]:
  "tq_wf tq_new" "tq_wf q \<Longrightarrow> tq_wf (tq_push t now q)" "tq_wf q \<Longrightarrow> tq_wf (snd (tq_poll now c q))"
  by (auto simp: tq_wf_def tq_new_def tq_push_def tq_poll_def Let_def split: list.splits)

lemma pending_push [simp]: "pending_traps (tq_push t now q) = pending_traps q @ [t]"
  by (simp add: tq_push_def Let_def)

section \<open>The client\<close>

text \<open>The two statics \<open>PENDING\<close> and \<open>WARNED\<close>.\<close>

record trap_client =
  pending_slot :: "trap_queue option"
  warned :: bool

definition trap_init :: trap_client where
  "trap_init = \<lparr>pending_slot = None, warned = False\<rparr>"

definition slot_queue :: "trap_client \<Rightarrow> trap_queue" where
  "slot_queue c = (case pending_slot c of Some q \<Rightarrow> q | None \<Rightarrow> tq_new)"

definition enqueue_by_name :: "string \<Rightarrow> nat \<Rightarrow> trap_client \<Rightarrow> bool \<times> trap_client" where
  "enqueue_by_name name now c =
     (case trap_from_item_name name of
        None \<Rightarrow> (False, c)
      | Some t \<Rightarrow> (True, c\<lparr>pending_slot := Some (tq_push t now (slot_queue c))\<rparr>))"

text \<open>What a poll shows: the trap whose line is toasted, and whether it logged the overdue warning.\<close>

record poll_result =
  fired_trap :: "trap option"
  warn_logged :: bool

definition idle_poll :: poll_result where
  "idle_poll = \<lparr>fired_trap = None, warn_logged = False\<rparr>"

definition poll_pending ::
  "nat \<Rightarrow> bool \<Rightarrow> bool \<Rightarrow> (trap \<Rightarrow> bool) \<Rightarrow> trap_client \<Rightarrow> poll_result \<times> trap_client" where
  "poll_pending now busy in_world can_apply c =
     (if busy then (idle_poll, c)
      else case pending_slot c of
        None \<Rightarrow> (idle_poll, c)
      | Some q \<Rightarrow>
          if pending_traps q = [] then (idle_poll, c\<lparr>warned := False\<rparr>)
          else
            let overdue = tq_overdue now q;
                warn = overdue \<and> \<not> warned c;
                w = (warned c \<or> overdue)
            in case tq_poll now in_world q of
                 (None, q1) \<Rightarrow>
                   (idle_poll\<lparr>warn_logged := warn\<rparr>, c\<lparr>pending_slot := Some q1, warned := w\<rparr>)
               | (Some t, q1) \<Rightarrow>
                   if can_apply t then
                     (\<lparr>fired_trap = Some t, warn_logged = warn\<rparr>, c\<lparr>pending_slot := Some q1, warned := False\<rparr>)
                   else
                     (idle_poll\<lparr>warn_logged := warn\<rparr>,
                      c\<lparr>pending_slot := Some (tq_push t now q1), warned := w\<rparr>))"

section \<open>No trap is lost\<close>

datatype trap_event =
    Receive_Trap string nat
  | Poll_Traps nat bool bool "trap \<Rightarrow> bool"

record trap_trace =
  accepted_traps :: "trap list"
  fired_traps :: "trap list"

fun trap_step :: "trap_event \<Rightarrow> trap_client \<times> trap_trace \<Rightarrow> trap_client \<times> trap_trace" where
  "trap_step (Receive_Trap name now) (c, tr) =
     (snd (enqueue_by_name name now c),
      (case trap_from_item_name name of
         Some t \<Rightarrow> tr\<lparr>accepted_traps := accepted_traps tr @ [t]\<rparr> | None \<Rightarrow> tr))"
| "trap_step (Poll_Traps now busy in_world can_apply) (c, tr) =
     (case poll_pending now busy in_world can_apply c of
        (r, c') \<Rightarrow>
          (c', (case fired_trap r of
                  Some t \<Rightarrow> tr\<lparr>fired_traps := fired_traps tr @ [t]\<rparr> | None \<Rightarrow> tr)))"

definition trap_run :: "trap_event list \<Rightarrow> trap_client \<times> trap_trace" where
  "trap_run es = fold trap_step es (trap_init, \<lparr>accepted_traps = [], fired_traps = []\<rparr>)"

definition waiting_traps :: "trap_client \<Rightarrow> trap list" where
  "waiting_traps c = pending_traps (slot_queue c)"

lemma waiting_init [simp]: "waiting_traps trap_init = []"
  by (simp add: waiting_traps_def trap_init_def slot_queue_def tq_new_def)

lemma waiting_enqueue:
  "waiting_traps (snd (enqueue_by_name name now c))
     = waiting_traps c @ (case trap_from_item_name name of Some t \<Rightarrow> [t] | None \<Rightarrow> [])"
  by (auto simp: waiting_traps_def enqueue_by_name_def slot_queue_def split: option.splits)

text \<open>One poll: nothing, or the head fires, or the head is refused and goes to the back.\<close>

lemma poll_cases:
  assumes "poll_pending now busy iw ok c = (r, c')"
  shows "(fired_trap r = None \<and> waiting_traps c' = waiting_traps c) \<or>
    (\<exists>t ts. waiting_traps c = t # ts \<and> ok t \<and> fired_trap r = Some t \<and> waiting_traps c' = ts) \<or>
    (\<exists>t ts. waiting_traps c = t # ts \<and> \<not> ok t \<and> fired_trap r = None \<and> waiting_traps c' = ts @ [t])"
  using assms
  by (auto simp: poll_pending_def waiting_traps_def slot_queue_def tq_poll_def idle_poll_def Let_def
      split: if_splits option.splits list.splits)

definition trap_inv :: "trap_client \<times> trap_trace \<Rightarrow> bool" where
  "trap_inv s \<longleftrightarrow> mset (fired_traps (snd s)) + mset (waiting_traps (fst s)) = mset (accepted_traps (snd s))"

lemma trap_inv_step: "trap_inv s \<Longrightarrow> trap_inv (trap_step e s)"
proof (cases s)
  case (Pair c tr)
  assume inv: "trap_inv s"
  show ?thesis
  proof (cases e)
    case (Receive_Trap name now)
    with inv Pair show ?thesis
      by (auto simp: trap_inv_def waiting_enqueue split: option.splits)
  next
    case (Poll_Traps now busy iw ok)
    obtain r c' where p: "poll_pending now busy iw ok c = (r, c')" by fastforce
    from poll_cases [OF p] inv Pair Poll_Traps p show ?thesis
      by (auto simp: trap_inv_def)
  qed
qed

lemma fold_trap_inv: "trap_inv s \<Longrightarrow> trap_inv (fold trap_step es s)"
  by (rule fold_invariant [where Q = "\<lambda>_. True"]) (auto simp del: split_paired_All intro: trap_inv_step)

text \<open>
  A trap is never lost and never fires twice: over every sequence of received names and polls,
  whatever refuses on whichever tick, the traps accepted from names are exactly the traps fired
  together with the traps still waiting, as multisets.
\<close>

theorem traps_conserved:
  "mset (fired_traps (snd (trap_run es))) + mset (waiting_traps (fst (trap_run es)))
   = mset (accepted_traps (snd (trap_run es)))"
proof -
  have "trap_inv (trap_init, \<lparr>accepted_traps = [], fired_traps = []\<rparr>)"
    by (simp add: trap_inv_def)
  then show ?thesis
    using fold_trap_inv [of _ es] by (simp add: trap_inv_def trap_run_def)
qed

text \<open>With no refusal the traps fire in the order they arrived.\<close>

definition event_accepts :: "trap_event \<Rightarrow> bool" where
  "event_accepts e = (case e of Poll_Traps _ _ _ ok \<Rightarrow> (\<forall>t. ok t) | _ \<Rightarrow> True)"

lemma fifo_step:
  "event_accepts e \<Longrightarrow> fired_traps (snd s) @ waiting_traps (fst s) = accepted_traps (snd s)
   \<Longrightarrow> fired_traps (snd (trap_step e s)) @ waiting_traps (fst (trap_step e s))
         = accepted_traps (snd (trap_step e s))"
proof (cases s; cases e)
  fix c tr name now assume "s = (c, tr)" "e = Receive_Trap name now"
    and "fired_traps (snd s) @ waiting_traps (fst s) = accepted_traps (snd s)"
  then show ?thesis
    by (auto simp: waiting_enqueue split: option.splits)
next
  fix c tr now busy iw ok assume s: "s = (c, tr)" and e: "e = Poll_Traps now busy iw ok"
    and acc: "event_accepts e"
    and inv: "fired_traps (snd s) @ waiting_traps (fst s) = accepted_traps (snd s)"
  obtain r c' where p: "poll_pending now busy iw ok c = (r, c')" by fastforce
  from poll_cases [OF p] inv s e acc p show ?thesis
    by (auto simp: event_accepts_def)
qed

lemma traps_fire_in_order:
  assumes "\<forall>e \<in> set es. event_accepts e"
  shows "fired_traps (snd (trap_run es)) @ waiting_traps (fst (trap_run es))
           = accepted_traps (snd (trap_run es))"
proof -
  let ?P = "\<lambda>s. fired_traps (snd s) @ waiting_traps (fst s) = accepted_traps (snd s)"
  have "?P (fold trap_step es s)" if "?P s" for s
    by (rule fold_invariant [where Q = event_accepts and P = ?P])
       (use assms that in blast, rule that, rule fifo_step)
  from this [of "(trap_init, \<lparr>accepted_traps = [], fired_traps = []\<rparr>)"]
  show ?thesis by (simp add: trap_run_def)
qed

section \<open>The overdue clock\<close>

text \<open>
  A refusal restarts the clock: the poll takes the trap off the queue and the push that puts it back
  stamps the current time, so a trap that \<open>fire\<close> keeps refusing is never overdue while the
  player is in world and polls come less than 30 s apart.
\<close>

lemma refusal_restarts_clock:
  assumes "poll_pending now False True ok c = (r, c')" and "waiting_traps c \<noteq> []"
    and "\<forall>t \<in> set (waiting_traps c). \<not> ok t"
  shows "\<exists>q. pending_slot c' = Some q \<and> waiting_since_ms q = Some now \<and> pending_traps q \<noteq> []
             \<and> set (waiting_traps c') = set (waiting_traps c)"
  using assms
  by (auto simp: poll_pending_def waiting_traps_def slot_queue_def tq_poll_def tq_push_def tq_new_def
      Let_def split: if_splits option.splits list.splits)

fun refused_polls :: "nat list \<Rightarrow> trap_client \<Rightarrow> bool list" where
  "refused_polls [] c = []"
| "refused_polls (now # ts) c =
     (case poll_pending now False True (\<lambda>_. False) c of
        (r, c') \<Rightarrow> warn_logged r # refused_polls ts c')"

lemma refused_trap_never_reported:
  assumes "pending_slot c = Some q" "waiting_since_ms q = Some t0" "pending_traps q \<noteq> []"
    and "successively (\<lambda>a b. b < a + DEFER_WARN_MS) (t0 # ts)"
  shows "\<forall>w \<in> set (refused_polls ts c). \<not> w"
  using assms
proof (induction ts arbitrary: c q t0)
  case (Cons now ts)
  obtain r c' where p: "poll_pending now False True (\<lambda>_. False) c = (r, c')" by fastforce
  have gap: "now < t0 + DEFER_WARN_MS" "successively (\<lambda>a b. b < a + DEFER_WARN_MS) (now # ts)"
    using Cons.prems(4) by simp_all
  have "\<not> tq_overdue now q"
    using gap(1) Cons.prems(2) by (auto simp: tq_overdue_def DEFER_WARN_MS_def)
  then have nowarn: "\<not> warn_logged r"
    using p Cons.prems(1,3)
    by (auto simp: poll_pending_def tq_poll_def idle_poll_def Let_def split: list.splits)
  have "waiting_traps c \<noteq> []"
    using Cons.prems(1,3) by (simp add: waiting_traps_def slot_queue_def)
  then obtain q' where "pending_slot c' = Some q'" "waiting_since_ms q' = Some now" "pending_traps q' \<noteq> []"
    using refusal_restarts_clock [OF p] by auto
  from Cons.IH [OF this gap(2)] nowarn p show ?case by simp
qed simp

end
