(* ===== verification/DeathLink.thy ===== *)
theory DeathLink
  imports Prelude
begin

text \<open>
  DeathLink: amnesty counters, the latch of an incoming kill, the edge detector of an outgoing
  death and the keep-runes debt (\<open>crates/er-logic/src/deathlink.rs\<close>, with the default methods
  of \<open>GameHook\<close>), and the live driver of the client
  (\<open>crates/eldenring-archipelago/src/deathlink.rs\<close>, \<open>runes.rs\<close>). The game is a record of
  the values the client reads and writes.
\<close>

section \<open>Amnesty\<close>

definition u32_max :: nat where "u32_max = 2 ^ 32 - 1"

record amnesty_counter =
  every :: nat
  seen :: nat

definition amnesty_new :: amnesty_counter where
  "amnesty_new = \<lparr>every = 1, seen = 0\<rparr>"

definition configure :: "nat \<Rightarrow> amnesty_counter \<Rightarrow> amnesty_counter" where
  "configure n c = c\<lparr>every := max n 1, seen := 0\<rparr>"

definition is_multiple_of :: "nat \<Rightarrow> nat \<Rightarrow> bool" where
  "is_multiple_of a b = (if b = 0 then a = 0 else a mod b = 0)"

definition admit :: "amnesty_counter \<Rightarrow> bool \<times> amnesty_counter" where
  "admit c =
     (let c1 = c\<lparr>seen := min u32_max (seen c + 1)\<rparr>
      in (is_multiple_of (seen c1) (every c1), c1))"

fun admits :: "nat \<Rightarrow> amnesty_counter \<Rightarrow> bool list" where
  "admits 0 c = []"
| "admits (Suc n) c = (case admit c of (b, c') \<Rightarrow> b # admits n c')"

lemma admits_from:
  "seen c + n \<le> u32_max \<Longrightarrow> 0 < every c \<Longrightarrow>
   admits n c = map (\<lambda>i. every c dvd i) [Suc (seen c)..<Suc (seen c + n)]"
proof (induction n arbitrary: c)
  case (Suc n)
  obtain b c' where a: "admit c = (b, c')" by fastforce
  from a Suc.prems have c': "seen c' = Suc (seen c)" "every c' = every c" "b = (every c dvd Suc (seen c))"
    by (auto simp: admit_def Let_def is_multiple_of_def dvd_eq_mod_eq_0)
  with Suc.IH [of c'] Suc.prems a show ?case
    by (simp add: upt_conv_Cons del: upt_Suc)
qed simp

text \<open>After configuring a cadence, exactly every \<open>n\<close>-th event is admitted.\<close>

lemma amnesty_every_nth:
  "k \<le> u32_max \<Longrightarrow> admits k (configure n c) = map (\<lambda>i. max n 1 dvd i) [1..<Suc k]"
  using admits_from [of "configure n c" k] by (simp add: configure_def)

section \<open>The latches behind the hook\<close>

text \<open>The verbs of \<open>GameHook\<close> the DeathLink logic calls, over an abstract game state.\<close>

record 'g death_hook =
  hook_in_world :: "'g \<Rightarrow> bool"
  hook_player_hp :: "'g \<Rightarrow> int option"
  hook_try_set_event_flag :: "nat \<Rightarrow> bool \<Rightarrow> 'g \<Rightarrow> bool \<times> 'g"

definition DEATHLINK_KILL_FLAG :: nat where "DEATHLINK_KILL_FLAG = 76996"

definition hook_read_local_death :: "'g death_hook \<Rightarrow> 'g \<Rightarrow> bool" where
  "hook_read_local_death hk g =
     (if \<not> hook_in_world hk g then False
      else case hook_player_hp hk g of Some hp \<Rightarrow> hp \<le> 0 | None \<Rightarrow> False)"

definition hook_kill_player :: "'g death_hook \<Rightarrow> 'g \<Rightarrow> bool \<times> 'g" where
  "hook_kill_player hk g = hook_try_set_event_flag hk DEATHLINK_KILL_FLAG True g"

record death_latch =
  l_kill_pending :: bool
  l_send_pending :: bool
  l_was_dead :: bool

definition latch_incoming :: "bool \<Rightarrow> death_latch \<Rightarrow> bool \<times> death_latch" where
  "latch_incoming enabled l = (enabled, if enabled then l\<lparr>l_kill_pending := True\<rparr> else l)"

definition drive_incoming_kill ::
  "'g death_hook \<Rightarrow> bool \<Rightarrow> 'g \<times> death_latch \<Rightarrow> 'g \<times> death_latch" where
  "drive_incoming_kill hk enabled s =
     (case s of (g, l) \<Rightarrow>
       if \<not> enabled then (g, l)
       else if l_kill_pending l \<and> hook_in_world hk g then
         (case hook_kill_player hk g of
            (True, g') \<Rightarrow> (g', l\<lparr>l_kill_pending := False\<rparr>)
          | (False, g') \<Rightarrow> (g', l))
       else (g, l))"

definition poll_outgoing_death ::
  "'g death_hook \<Rightarrow> 'g \<Rightarrow> death_latch \<Rightarrow> death_latch" where
  "poll_outgoing_death hk g l =
     (if \<not> hook_in_world hk g then l\<lparr>l_was_dead := False\<rparr>
      else
        let dead = hook_read_local_death hk g;
            l1 = (if dead \<and> \<not> l_was_dead l then l\<lparr>l_send_pending := True\<rparr> else l)
        in l1\<lparr>l_was_dead := dead\<rparr>)"

lemma disabled_never_kills:
  "drive_incoming_kill hk False (g, snd (latch_incoming False l)) = (g, l)"
  by (simp add: drive_incoming_kill_def latch_incoming_def)

lemma kill_consumes_latch:
  "drive_incoming_kill hk en (g, l) = (g', l') \<Longrightarrow> l_kill_pending l' \<Longrightarrow> l' = l"
  by (auto simp: drive_incoming_kill_def split: if_splits prod.splits bool.splits)

section \<open>The keep-runes debt\<close>

definition RESTORE_REASSERT_TICKS :: nat where "RESTORE_REASSERT_TICKS = 5"

record keep_runes =
  owed :: "nat option"
  restoring :: bool
  reassert_left :: nat

definition keep_new :: keep_runes where
  "keep_new = \<lparr>owed = None, restoring = False, reassert_left = 0\<rparr>"

definition keep_arm :: "nat option \<Rightarrow> keep_runes \<Rightarrow> keep_runes" where
  "keep_arm snapshot k =
     (case snapshot of
        Some runes \<Rightarrow> k\<lparr>owed := Some runes, restoring := False, reassert_left := 0\<rparr>
      | None \<Rightarrow> k)"

definition alive :: "bool \<Rightarrow> int option \<Rightarrow> bool" where
  "alive in_world hp \<longleftrightarrow> in_world \<and> (case hp of Some h \<Rightarrow> 0 < h | None \<Rightarrow> False)"

definition poll_restore :: "bool \<Rightarrow> int option \<Rightarrow> keep_runes \<Rightarrow> nat option \<times> keep_runes" where
  "poll_restore in_world hp k =
     (case owed k of
        None \<Rightarrow> (None, k)
      | Some n \<Rightarrow>
          if \<not> alive in_world hp then (None, k)
          else
            let k1 = (if \<not> restoring k
                      then k\<lparr>restoring := True, reassert_left := RESTORE_REASSERT_TICKS\<rparr> else k);
                k2 = k1\<lparr>reassert_left := reassert_left k1 - 1\<rparr>;
                k3 = (if reassert_left k2 = 0 then k2\<lparr>owed := None, restoring := False\<rparr> else k2)
            in (Some n, k3))"

fun poll_restores :: "(bool \<times> int option) list \<Rightarrow> keep_runes \<Rightarrow> nat option list" where
  "poll_restores [] k = []"
| "poll_restores ((w, h) # ts) k = (case poll_restore w h k of (r, k') \<Rightarrow> r # poll_restores ts k')"

text \<open>The payments still to come: one on each of the next alive ticks, none while dead or loading.\<close>

fun payments :: "nat \<Rightarrow> nat \<Rightarrow> (bool \<times> int option) list \<Rightarrow> nat option list" where
  "payments n left [] = []"
| "payments n left ((w, h) # ts) =
     (if 0 < left \<and> alive w h then Some n # payments n (left - 1) ts else None # payments n left ts)"

definition payments_left :: "keep_runes \<Rightarrow> nat" where
  "payments_left k =
     (if owed k = None then 0 else if restoring k then reassert_left k else RESTORE_REASSERT_TICKS)"

definition keep_wf :: "keep_runes \<Rightarrow> bool" where
  "keep_wf k \<longleftrightarrow> (restoring k \<longrightarrow> owed k \<noteq> None \<and> 0 < reassert_left k \<and> reassert_left k \<le> RESTORE_REASSERT_TICKS)"

lemma keep_wf_ops [wf_intros]:
  "keep_wf keep_new" "keep_wf k \<Longrightarrow> keep_wf (keep_arm s k)" "keep_wf k \<Longrightarrow> keep_wf (snd (poll_restore w h k))"
  by (auto simp: keep_wf_def keep_new_def keep_arm_def poll_restore_def RESTORE_REASSERT_TICKS_def Let_def
      split: option.splits)

lemma poll_restore_payments:
  assumes "keep_wf k" and "owed k = Some n" and "poll_restore w h k = (r, k')"
  shows "r = (if alive w h then Some n else None)"
    "payments_left k' = (if alive w h then payments_left k - 1 else payments_left k)"
    "owed k' = (if payments_left k' = 0 then None else Some n)" "0 < payments_left k"
  using assms
  by (cases k, cases k'; auto simp: poll_restore_def payments_left_def keep_wf_def RESTORE_REASSERT_TICKS_def Let_def
      split: if_splits)+

lemma poll_restores_none: "owed k = None \<Longrightarrow> poll_restores ts k = map (\<lambda>_. None) ts"
  by (induction ts) (auto simp: poll_restore_def)

lemma payments_done: "payments n 0 ts = map (\<lambda>_. None) ts"
  by (induction ts) auto

lemma poll_restores_payments:
  "keep_wf k \<Longrightarrow> owed k = Some n \<Longrightarrow> poll_restores ts k = payments n (payments_left k) ts"
proof (induction ts arbitrary: k)
  case (Cons t ts)
  obtain w h where t: "t = (w, h)" by fastforce
  obtain r k' where p: "poll_restore w h k = (r, k')" by fastforce
  have wf': "keep_wf k'" using keep_wf_ops(3) [OF Cons.prems(1), of w h] p by simp
  note step = poll_restore_payments [OF Cons.prems p]
  show ?case
  proof (cases "owed k'")
    case None
    with step have "payments_left k' = 0" by (auto split: if_splits)
    with step None show ?thesis
      by (auto simp: t p poll_restores_none payments_done split: if_splits)
  next
    case (Some m)
    with step have "m = n" by (auto split: if_splits)
    with Cons.IH [OF wf'] Some step show ?thesis by (auto simp: t p)
  qed
qed simp

text \<open>Arming pays the snapshot on the next five alive ticks and never again.\<close>

lemma armed_pays_five_times:
  "keep_wf k \<Longrightarrow> poll_restores ts (keep_arm (Some n) k) = payments n 5 ts"
  using poll_restores_payments [of "keep_arm (Some n) k" n ts] keep_wf_ops(2) [of k "Some n"]
  by (simp add: keep_arm_def payments_left_def RESTORE_REASSERT_TICKS_def)


section \<open>The live client\<close>

text \<open>
  What the client reads and writes of the game: the held runes are out of reach while the game data
  (\<open>GameDataMan\<close>) is down, \<open>g_hp\<close> is \<open>None\<close> without a main player. The last field is not the
  client's: a death the client caused while it could not read the runes, whose bloodstain the engine
  has not banked yet.
\<close>

record er_game =
  g_in_world :: bool
  g_hp :: "int option"
  g_runes :: nat
  g_data_up :: bool
  g_busy :: bool
  g_flag_ready :: bool
  g_kill_flag :: bool
  g_unkept :: bool

record dl_client =
  d_kill_pending :: bool
  d_was_dead :: bool
  d_keep :: keep_runes
  d_inbound :: amnesty_counter
  d_outbound :: amnesty_counter

definition runes_read :: "er_game \<Rightarrow> nat option" where
  "runes_read g = (if g_data_up g then Some (g_runes g) else None)"

definition runes_write :: "nat \<Rightarrow> er_game \<Rightarrow> er_game" where
  "runes_write v g = (if g_data_up g then g\<lparr>g_runes := v\<rparr> else g)"

definition runes_write_if_changed :: "nat \<Rightarrow> er_game \<Rightarrow> er_game" where
  "runes_write_if_changed v g = (if runes_read g \<noteq> Some v then runes_write v g else g)"

definition set_amnesty :: "nat \<Rightarrow> nat \<Rightarrow> dl_client \<Rightarrow> dl_client" where
  "set_amnesty inbound_every outbound_every d =
     d\<lparr>d_inbound := configure inbound_every (d_inbound d), d_outbound := configure outbound_every (d_outbound d)\<rparr>"

definition amnesty_configured :: "dl_client \<Rightarrow> bool" where
  "amnesty_configured d \<longleftrightarrow> 1 < every (d_inbound d) \<or> 1 < every (d_outbound d)"

definition latch_incoming_kill :: "dl_client \<Rightarrow> bool \<times> dl_client" where
  "latch_incoming_kill d =
     (case admit (d_inbound d) of
        (admitted, c) \<Rightarrow>
          (admitted, (d\<lparr>d_inbound := c\<rparr>)\<lparr>d_kill_pending := (admitted \<or> d_kill_pending d)\<rparr>))"

definition kill_local_player :: "er_game \<times> dl_client \<Rightarrow> bool \<times> er_game \<times> dl_client" where
  "kill_local_player s =
     (case s of (g, d) \<Rightarrow>
       (case g_hp g of
          None \<Rightarrow> (False, g, d)
        | Some hp \<Rightarrow>
            if hp \<le> 0 then (False, g, d)
            else (True, g\<lparr>g_hp := Some 0\<rparr>, d\<lparr>d_was_dead := True\<rparr>)))"

text \<open>The two legs of \<open>drive_kill\<close>: the restore leg runs first and is not gated.\<close>

definition drive_restore :: "er_game \<times> dl_client \<Rightarrow> er_game \<times> dl_client" where
  "drive_restore s =
     (case s of (g, d) \<Rightarrow>
       (case poll_restore (g_in_world g) (g_hp g) (d_keep d) of
          (None, k) \<Rightarrow> (g, d\<lparr>d_keep := k\<rparr>)
        | (Some runes, k) \<Rightarrow> (runes_write_if_changed runes g, d\<lparr>d_keep := k\<rparr>)))"

definition drive_kill_leg :: "er_game \<times> dl_client \<Rightarrow> er_game \<times> dl_client" where
  "drive_kill_leg s =
     (case s of (g, d) \<Rightarrow>
       if d_kill_pending d \<and> g_in_world g \<and> \<not> g_busy g then
         let snapshot = runes_read g
         in case kill_local_player (g, d) of
              (False, _) \<Rightarrow> (g, d)
            | (True, g1, d1) \<Rightarrow>
                let (g2, d2) = (case snapshot of
                       Some runes \<Rightarrow> (runes_write 0 g1, d1\<lparr>d_keep := keep_arm (Some runes) (d_keep d1)\<rparr>)
                     | None \<Rightarrow> (g1, d1));
                    g3 = (if g_flag_ready g2 then g2\<lparr>g_kill_flag := True\<rparr> else g2)
                in (g3, d2\<lparr>d_kill_pending := False\<rparr>)
       else (g, d))"

definition drive_kill :: "bool \<Rightarrow> er_game \<times> dl_client \<Rightarrow> er_game \<times> dl_client" where
  "drive_kill effective_enabled s =
     (case drive_restore s of (g, d) \<Rightarrow>
       if \<not> effective_enabled then (g, d\<lparr>d_kill_pending := False\<rparr>)
       else drive_kill_leg (g, d))"

definition read_local_death :: "er_game \<Rightarrow> bool" where
  "read_local_death g = (case g_hp g of None \<Rightarrow> False | Some hp \<Rightarrow> hp \<le> 0)"

definition poll_local_death :: "er_game \<Rightarrow> dl_client \<Rightarrow> bool \<times> dl_client" where
  "poll_local_death g d =
     (let dead = read_local_death g;
          was = d_was_dead d;
          d1 = d\<lparr>d_was_dead := dead\<rparr>
      in if \<not> (dead \<and> \<not> was) then (False, d1)
         else case admit (d_outbound d1) of (admitted, c) \<Rightarrow> (admitted, d1\<lparr>d_outbound := c\<rparr>))"

text \<open>
  One session: foreign deaths arrive, the client ticks with its option on or off, the player moves
  between loading and the world, dies or respawns, the game data comes up and goes down; and the
  engine banks the held runes into a bloodstain, at any time while a withheld total is still owed
  (also after control returned), and after a death the client caused without reading the runes.
\<close>

datatype dl_event =
    Foreign_Death
  | Tick bool
  | World bool "int option" bool bool
  | Engine_Bank

definition note_unkept :: "er_game \<Rightarrow> er_game \<Rightarrow> er_game" where
  "note_unkept before' g = (if g_hp g \<noteq> g_hp before' \<and> \<not> g_data_up before' then g\<lparr>g_unkept := True\<rparr> else g)"

fun dl_step :: "dl_event \<Rightarrow> er_game \<times> dl_client \<Rightarrow> er_game \<times> dl_client" where
  "dl_step Foreign_Death (g, d) = (g, snd (latch_incoming_kill d))"
| "dl_step (Tick enabled) (g, d) =
     (case drive_kill enabled (g, d) of
        (g', d') \<Rightarrow> (note_unkept g g', if enabled then snd (poll_local_death g' d') else d'))"
| "dl_step (World w hp busy up) (g, d) = (g\<lparr>g_in_world := w, g_hp := hp, g_busy := busy, g_data_up := up\<rparr>, d)"
| "dl_step Engine_Bank (g, d) =
     (if owed (d_keep d) \<noteq> None \<or> g_unkept g then (g\<lparr>g_runes := 0, g_unkept := False\<rparr>, d) else (g, d))"

definition dl_init :: "nat \<Rightarrow> er_game \<times> dl_client" where
  "dl_init n =
     (\<lparr>g_in_world = False, g_hp = None, g_runes = n, g_data_up = False, g_busy = False, g_flag_ready = True,
       g_kill_flag = False, g_unkept = False\<rparr>,
      \<lparr>d_kill_pending = False, d_was_dead = False, d_keep = keep_new,
       d_inbound = amnesty_new, d_outbound = amnesty_new\<rparr>)"

definition dl_run :: "dl_event list \<Rightarrow> er_game \<times> dl_client \<Rightarrow> er_game \<times> dl_client" where
  "dl_run es s = fold dl_step es s"

text \<open>A tick that kills the player or pays a debt, and finds the game data down.\<close>

definition kill_lands :: "bool \<Rightarrow> er_game \<times> dl_client \<Rightarrow> bool" where
  "kill_lands en s \<longleftrightarrow>
     (case s of (g, d) \<Rightarrow> en \<and> d_kill_pending d \<and> alive (g_in_world g) (g_hp g) \<and> \<not> g_busy g)"

fun misses_data :: "dl_event \<Rightarrow> er_game \<times> dl_client \<Rightarrow> bool" where
  "misses_data (Tick en) (g, d) \<longleftrightarrow>
     \<not> g_data_up g \<and> (kill_lands en (g, d) \<or> owed (d_keep d) \<noteq> None \<and> alive (g_in_world g) (g_hp g))"
| "misses_data e s \<longleftrightarrow> False"

fun data_up_when_needed :: "dl_event list \<Rightarrow> er_game \<times> dl_client \<Rightarrow> bool" where
  "data_up_when_needed [] s \<longleftrightarrow> True"
| "data_up_when_needed (e # es) s \<longleftrightarrow> \<not> misses_data e s \<and> data_up_when_needed es (dl_step e s)"

text \<open>The runes are in the player's hand, or owed in full and possibly zeroed by the engine.\<close>

definition keeps :: "nat \<Rightarrow> er_game \<times> dl_client \<Rightarrow> bool" where
  "keeps n s \<longleftrightarrow>
     (case s of (g, d) \<Rightarrow>
        keep_wf (d_keep d) \<and> \<not> g_unkept g \<and>
        (case owed (d_keep d) of
           None \<Rightarrow> g_runes g = n
         | Some m \<Rightarrow> m = n \<and> (g_runes g = n \<or> g_runes g = 0)))"

text \<open>After the restore leg a living player holds the full total, whatever the engine did before.\<close>

lemma drive_restore_frame:
  assumes "drive_restore (g, d) = (g', d')"
  shows "g_hp g' = g_hp g" "g_in_world g' = g_in_world g" "g_busy g' = g_busy g" "g_data_up g' = g_data_up g"
    "g_unkept g' = g_unkept g" "d_kill_pending d' = d_kill_pending d"
    "d_keep d' = snd (poll_restore (g_in_world g) (g_hp g) (d_keep d))"
  using assms
  by (auto simp: drive_restore_def runes_write_if_changed_def runes_write_def split: option.splits if_splits prod.splits)

lemma drive_restore_keeps:
  assumes "keeps n (g, d)" and "drive_restore (g, d) = (g', d')"
    and "owed (d_keep d) \<noteq> None \<Longrightarrow> alive (g_in_world g) (g_hp g) \<Longrightarrow> g_data_up g"
  shows "keeps n (g', d')"
    and "alive (g_in_world g) (g_hp g) \<Longrightarrow> g_runes g' = n"
proof -
  obtain r k' where p: "poll_restore (g_in_world g) (g_hp g) (d_keep d) = (r, k')" by fastforce
  from assms(1) have wf: "keep_wf (d_keep d)" by (simp add: keeps_def)
  have wf': "keep_wf k'" using keep_wf_ops(3) [OF wf] p by (metis snd_conv)
  show "keeps n (g', d')" "alive (g_in_world g) (g_hp g) \<Longrightarrow> g_runes g' = n"
  proof -
    show "keeps n (g', d')"
    proof (cases "owed (d_keep d)")
      case None
      then show ?thesis
        using assms p wf by (auto simp: poll_restore_def drive_restore_def keeps_def)
    next
      case (Some m)
      with poll_restore_payments [OF wf Some p] assms p wf' show ?thesis
        by (auto simp: drive_restore_def keeps_def runes_write_if_changed_def runes_write_def runes_read_def split: if_splits)
    qed
    assume "alive (g_in_world g) (g_hp g)"
    then show "g_runes g' = n"
    proof (cases "owed (d_keep d)")
      case None
      then show ?thesis
        using assms p wf by (auto simp: poll_restore_def drive_restore_def keeps_def)
    next
      case (Some m)
      with poll_restore_payments [OF wf Some p] assms p \<open>alive _ _\<close> show ?thesis
        by (auto simp: drive_restore_def keeps_def runes_write_if_changed_def runes_write_def runes_read_def split: if_splits)
    qed
  qed
qed

lemma drive_kill_leg_keeps:
  assumes "keeps n (g, d)" and "alive (g_in_world g) (g_hp g) \<Longrightarrow> g_runes g = n"
    and "kill_lands True (g, d) \<Longrightarrow> g_data_up g"
  shows "keeps n (drive_kill_leg (g, d))"
  using assms keep_wf_ops(2) [of "d_keep d" "Some n"]
  by (auto simp: drive_kill_leg_def kill_local_player_def keeps_def runes_write_def runes_read_def keep_arm_def
      alive_def kill_lands_def Let_def split: option.splits if_splits)

lemma drive_kill_leg_hp:
  "drive_kill_leg (g, d) = (g', d') \<Longrightarrow> g_hp g' \<noteq> g_hp g \<Longrightarrow> kill_lands True (g, d)"
  by (auto simp: drive_kill_leg_def kill_local_player_def runes_write_def kill_lands_def alive_def Let_def
      split: option.splits if_splits)

lemma keeps_frame:
  "d_keep d' = d_keep d \<Longrightarrow> g_runes g' = g_runes g \<Longrightarrow> g_unkept g' = g_unkept g \<Longrightarrow>
   keeps n (g', d') = keeps n (g, d)"
  by (simp add: keeps_def split: option.split)

lemma drive_kill_keeps:
  assumes k: "keeps n (g, d)" and up: "\<not> misses_data (Tick en) (g, d)" and dk: "drive_kill en (g, d) = (g', d')"
  shows "keeps n (note_unkept g g', d')"
proof -
  obtain g1 d1 where r: "drive_restore (g, d) = (g1, d1)" by fastforce
  note fr = drive_restore_frame [OF r]
  have keep: "keeps n (g1, d1)" "alive (g_in_world g) (g_hp g) \<Longrightarrow> g_runes g1 = n"
    by (rule drive_restore_keeps [OF k r], use up in auto)+
  show ?thesis
  proof (cases en)
    case True
    with r dk have leg: "drive_kill_leg (g1, d1) = (g', d')" by (simp add: drive_kill_def)
    have up1: "kill_lands True (g1, d1) \<Longrightarrow> g_data_up g1"
      using up True fr by (auto simp: kill_lands_def)
    have "keeps n (g', d')"
      using drive_kill_leg_keeps [OF keep(1) _ up1] keep(2) fr leg by simp
    moreover have "note_unkept g g' = g'"
      using drive_kill_leg_hp [OF leg] up1 fr by (auto simp: note_unkept_def)
    ultimately show ?thesis by simp
  next
    case False
    with r dk have "g' = g1" "d' = d1\<lparr>d_kill_pending := False\<rparr>" by (simp_all add: drive_kill_def)
    then show ?thesis using keeps_frame [of d' d1 g1 g1 n] keep(1) fr by (simp add: note_unkept_def)
  qed
qed

lemma poll_local_death_frame [frame_simps]: "d_keep (snd (poll_local_death g d)) = d_keep d"
  by (auto simp: poll_local_death_def Let_def split: prod.splits)

lemma dl_step_keeps: "keeps n s \<Longrightarrow> \<not> misses_data e s \<Longrightarrow> keeps n (dl_step e s)"
proof (cases s)
  case (Pair g d)
  assume k: "keeps n s" and up: "\<not> misses_data e s"
  show ?thesis
  proof (cases e)
    case (Tick en)
    obtain g' d' where t: "drive_kill en (g, d) = (g', d')" by fastforce
    from drive_kill_keeps [of n g d en, OF _ _ t] k up Pair Tick have "keeps n (note_unkept g g', d')" by simp
    then show ?thesis
      using t Pair Tick keeps_frame [of "snd (poll_local_death g' d')" d' _ "note_unkept g g'" n]
      by (simp add: poll_local_death_frame)
  qed (use k Pair in \<open>auto simp: keeps_def latch_incoming_kill_def split: prod.splits option.splits\<close>)
qed

lemma dl_run_Cons: "dl_run (e # es) s = dl_run es (dl_step e s)" by (simp add: dl_run_def)

lemma dl_run_keeps: "keeps n s \<Longrightarrow> data_up_when_needed es s \<Longrightarrow> keeps n (dl_run es s)"
  by (induction es arbitrary: s) (auto simp: dl_run_Cons dl_run_def [of "[]"] dl_step_keeps)

lemma keeps_init: "keeps n (dl_init n)"
  by (simp add: keeps_def dl_init_def keep_new_def keep_wf_def)

text \<open>Paying a debt off: five ticks of a living player in world, with no new kill latched.\<close>

definition calm :: "er_game \<times> dl_client \<Rightarrow> bool" where
  "calm s \<longleftrightarrow>
     (case s of (g, d) \<Rightarrow> alive (g_in_world g) (g_hp g) \<and> g_data_up g \<and> \<not> d_kill_pending d)"

lemma poll_restore_left:
  "alive w h \<Longrightarrow> payments_left (snd (poll_restore w h k)) = payments_left k - 1" if "keep_wf k"
proof (cases "owed k")
  case None
  then show ?thesis by (simp add: poll_restore_def payments_left_def)
next
  case (Some m)
  obtain r k' where p: "poll_restore w h k = (r, k')" by fastforce
  from poll_restore_payments(2) [OF that Some p] p show "alive w h \<Longrightarrow> ?thesis" by simp
qed

lemma calm_tick:
  assumes "keeps n s" "calm s"
  shows "calm (dl_step (Tick en) s)" "\<not> misses_data (Tick en) s"
    "payments_left (d_keep (snd (dl_step (Tick en) s))) = payments_left (d_keep (snd s)) - 1"
proof -
  obtain g d where s: "s = (g, d)" by fastforce
  obtain g' d' where r: "drive_restore (g, d) = (g', d')" by fastforce
  from assms s have wf: "keep_wf (d_keep d)" and al: "alive (g_in_world g) (g_hp g)"
    and np: "\<not> d_kill_pending d" and up: "g_data_up g"
    by (auto simp: calm_def keeps_def)
  note fr = drive_restore_frame [OF r]
  have k: "drive_kill en (g, d) = (g', d')"
    using r fr np by (auto simp: drive_kill_def drive_kill_leg_def)
  have "\<not> d_kill_pending (snd (poll_local_death g' d'))"
    using fr np by (auto simp: poll_local_death_def Let_def split: prod.splits)
  then show "calm (dl_step (Tick en) s)"
    using k s fr al np up by (auto simp: calm_def note_unkept_def)
  show "payments_left (d_keep (snd (dl_step (Tick en) s))) = payments_left (d_keep (snd s)) - 1"
    using k s fr poll_restore_left [OF wf al] by (simp add: poll_local_death_frame)
  show "\<not> misses_data (Tick en) s" using s up by simp
qed

lemma calm_ticks:
  "keeps n s \<Longrightarrow> calm s \<Longrightarrow> keeps n (dl_run (map Tick ens) s) \<and>
   payments_left (d_keep (snd (dl_run (map Tick ens) s))) = payments_left (d_keep (snd s)) - length ens"
proof (induction ens arbitrary: s)
  case Nil
  then show ?case by (simp add: dl_run_def)
next
  case (Cons en ens)
  note t = calm_tick [OF Cons.prems, of en]
  from Cons.IH [OF dl_step_keeps [OF Cons.prems(1) t(2)] t(1)] t(3)
  show ?case by (simp add: dl_run_Cons)
qed

lemma payments_left_le: "keep_wf k \<Longrightarrow> payments_left k \<le> 5"
  by (simp add: payments_left_def keep_wf_def RESTORE_REASSERT_TICKS_def)

lemma payments_left_zero: "keep_wf k \<Longrightarrow> payments_left k = 0 \<Longrightarrow> owed k = None"
  by (auto simp: payments_left_def keep_wf_def RESTORE_REASSERT_TICKS_def split: if_splits)

lemma debt_paid:
  assumes "keeps n s" "calm s" "5 \<le> length ens"
  shows "case dl_run (map Tick ens) s of (g, d) \<Rightarrow> owed (d_keep d) = None \<and> g_runes g = n"
proof -
  have wf: "keep_wf (d_keep (snd s))" using assms(1) by (auto simp: keeps_def)
  have k: "keeps n (dl_run (map Tick ens) s)"
    and z: "payments_left (d_keep (snd (dl_run (map Tick ens) s))) = 0"
    using calm_ticks [OF assms(1,2), of ens] payments_left_le [OF wf] assms(3) by simp_all
  from k have "keep_wf (d_keep (snd (dl_run (map Tick ens) s)))" by (auto simp: keeps_def)
  from payments_left_zero [OF this z] k show ?thesis by (auto simp: keeps_def)
qed

text \<open>The path the driver warns about: the runes cannot be read, so nothing is withheld or owed.\<close>

lemma unread_kill_is_vanilla:
  assumes "kill_lands True (g, d)" "\<not> g_data_up g" "owed (d_keep d) = None"
  shows "let s = dl_step (Tick True) (g, d); s' = dl_step Engine_Bank s
    in g_hp (fst s) = Some 0 \<and> \<not> d_kill_pending (snd s) \<and> g_runes (fst s) = g_runes g \<and>
       owed (d_keep (snd s)) = None \<and> g_runes (fst s') = 0 \<and> owed (d_keep (snd s')) = None"
  using assms
  by (auto simp: kill_lands_def alive_def drive_kill_def drive_restore_def poll_restore_def drive_kill_leg_def
      kill_local_player_def runes_read_def note_unkept_def poll_local_death_def read_local_death_def Let_def
      split: option.splits)

text \<open>
  C21: What incoming DeathLink kills cost the player. Over every sequence of foreign deaths, ticks,
  loads, deaths and respawns, with the game data coming up and going down and the engine banking the
  held runes at any moment a withheld total is owed: if the game data is up on every tick on which a
  kill lands or a debt is paid, then in every state reached the player holds the total they started
  with, or is owed exactly that total; and from any such state in which they stand alive in the world
  with no kill latched, five ticks leave the total in hand and nothing owed. A kill that lands while
  the game data is down keeps no runes: nothing is withheld or owed, and the engine's bank takes them.
\<close>

theorem deathlink_kills_cost_no_runes:
  assumes "data_up_when_needed es (dl_init n)"
  shows "(case dl_run es (dl_init n) of
           (g, d) \<Rightarrow> (case owed (d_keep d) of None \<Rightarrow> g_runes g = n | Some m \<Rightarrow> m = n))
         \<and> (\<forall>ens. calm (dl_run es (dl_init n)) \<and> 5 \<le> length ens \<longrightarrow>
             (case dl_run (es @ map Tick ens) (dl_init n) of
               (g, d) \<Rightarrow> owed (d_keep d) = None \<and> g_runes g = n))
         \<and> (\<forall>g d. kill_lands True (g, d) \<and> \<not> g_data_up g \<and> owed (d_keep d) = None \<longrightarrow>
             (let s = dl_step (Tick True) (g, d); s' = dl_step Engine_Bank s
              in g_hp (fst s) = Some 0 \<and> \<not> d_kill_pending (snd s) \<and> g_runes (fst s) = g_runes g \<and>
                 owed (d_keep (snd s)) = None \<and> g_runes (fst s') = 0 \<and> owed (d_keep (snd s')) = None))"
proof -
  have k: "keeps n (dl_run es (dl_init n))" by (rule dl_run_keeps [OF keeps_init assms])
  have app: "dl_run (es @ fs) s = dl_run fs (dl_run es s)" for fs s by (simp add: dl_run_def)
  show ?thesis
    unfolding app
  proof (intro conjI allI impI)
    show "case dl_run es (dl_init n) of
        (g, d) \<Rightarrow> (case owed (d_keep d) of None \<Rightarrow> g_runes g = n | Some m \<Rightarrow> m = n)"
      using k by (auto simp: keeps_def split: option.splits)
  next
    fix ens :: "bool list"
    assume "calm (dl_run es (dl_init n)) \<and> 5 \<le> length ens"
    then show "case dl_run (map Tick ens) (dl_run es (dl_init n)) of
        (g, d) \<Rightarrow> owed (d_keep d) = None \<and> g_runes g = n"
      using debt_paid [OF k] by simp
  qed (rule unread_kill_is_vanilla; simp)
qed

definition dl_story :: "dl_event list" where
  "dl_story =
     [World True (Some 100) False True, Foreign_Death, Tick True, Engine_Bank, World False None False False,
      World True (Some 300) False True, Engine_Bank, Tick True, Engine_Bank]"

lemma deathlink_kills_cost_no_runes_witness:
  "g_runes (fst (dl_run dl_story (dl_init 1901))) = 0
   \<and> g_runes (fst (dl_run (dl_story @ map Tick [True, True, False, True, True]) (dl_init 1901))) = 1901"
proof -
  have up: "data_up_when_needed dl_story (dl_init 1901)" by code_simp
  have "calm (dl_run dl_story (dl_init 1901))" by code_simp
  then have "calm (dl_run dl_story (dl_init 1901)) \<and> 5 \<le> length [True, True, False, True, True]" by simp
  from deathlink_kills_cost_no_runes [OF up, THEN conjunct2, THEN conjunct1, rule_format, OF this]
  have "case dl_run (dl_story @ map Tick [True, True, False, True, True]) (dl_init 1901) of
      (g, d) \<Rightarrow> owed (d_keep d) = None \<and> g_runes g = 1901" .
  then have "g_runes (fst (dl_run (dl_story @ map Tick [True, True, False, True, True]) (dl_init 1901))) = 1901"
    by (auto split: prod.splits)
  moreover have "g_runes (fst (dl_run dl_story (dl_init 1901))) = 0" by code_simp
  ultimately show ?thesis by simp
qed

text \<open>
  The restore counts its payments, not the writes that landed: when the game data is down on the five
  ticks after the respawn, the debt is gone and the runes with it.
\<close>

lemma unwritten_payments_are_spent:
  "case dl_run ([World True (Some 100) False True, Foreign_Death, Tick True, Engine_Bank,
                World True (Some 300) False False] @ map Tick [True, True, True, True, True]) (dl_init 1901) of
     (g, d) \<Rightarrow> owed (d_keep d) = None \<and> g_runes g = 0"
  by code_simp

end
