(* ===== verification/GoalGate.thy ===== *)
theory GoalGate
  imports Prelude BTree
begin

text \<open>
  The goal gate: when the goal region opens (\<open>crates/er-logic/src/goal_gate.rs\<close>) and the
  per-tick driver that writes the flags and latches once they read back
  (\<open>tick_goal_gate\<close>, \<open>reset\<close> and the configuration of
  \<open>crates/eldenring-archipelago/src/region.rs\<close>). A \<open>HashMap\<close> is the list of its
  entries in an arbitrary iteration order; the game's flag store is an abstract state behind the two
  functions the client calls.
\<close>

section \<open>The decision\<close>

datatype decision =
    Withhold "string list"
  | Open
  | OpenUnresolvable string

definition opens :: "decision \<Rightarrow> bool" where
  "opens d = (case d of Open \<Rightarrow> True | OpenUnresolvable _ \<Rightarrow> True | Withhold _ \<Rightarrow> False)"

record goal_gate =
  item_goals :: "string list"
  rune_goals :: "string list"
  runes_required :: nat
  goal_lock_item :: "string option"

definition rune_line :: "nat \<Rightarrow> nat \<Rightarrow> string" where
  "rune_line held required = ''Great Runes ('' @ show_nat held @ ''/'' @ show_nat required @ '')''"

definition unresolved_why :: string where
  "unresolved_why = ''the goal region's lock item did not resolve, and it is not in the pool -- withholding it would make the seed unwinnable''"

definition decide :: "goal_gate \<Rightarrow> (string \<Rightarrow> bool) \<Rightarrow> decision" where
  "decide gate held =
     (case goal_lock_item gate of
        None \<Rightarrow> OpenUnresolvable unresolved_why
      | Some goal_lock \<Rightarrow>
          let missing = filter (\<lambda>n. \<not> held n) (filter (\<lambda>n. n \<noteq> goal_lock) (item_goals gate));
              outstanding = bs_extend missing bs_empty;
              held_runes = length (filter held (rune_goals gate));
              outstanding1 = (if held_runes < runes_required gate
                              then bs_insert (rune_line held_runes (runes_required gate)) outstanding
                              else outstanding)
          in if bs_list outstanding1 = [] then Open else Withhold (bs_list outstanding1))"

definition requirements_met :: "goal_gate \<Rightarrow> (string \<Rightarrow> bool) \<Rightarrow> bool" where
  "requirements_met gate held \<longleftrightarrow>
     (case goal_lock_item gate of
        None \<Rightarrow> True
      | Some lock \<Rightarrow>
          (\<forall>n \<in> set (item_goals gate). n = lock \<or> held n)
          \<and> runes_required gate \<le> length (filter held (rune_goals gate)))"

lemma bs_list_empty_iff: "bs_list s = [] \<longleftrightarrow> (\<forall>k. \<not> bs_member s k)"
  using set_bs_list [of s] by (auto simp: bs_set_def in_bs_list [symmetric] simp del: set_bs_list)

lemma decide_opens_iff: "opens (decide gate held) = requirements_met gate held"
  by (auto simp: decide_def requirements_met_def opens_def Let_def bs_list_empty_iff
      split: option.split)

section \<open>The flags of an opening\<close>

text \<open>\<open>sort_unstable\<close> then \<open>dedup\<close> on integers.\<close>

definition sort_dedup :: "nat list \<Rightarrow> nat list" where
  "sort_dedup xs = remdups_adj (sort xs)"

definition flags_to_open ::
  "nat option \<Rightarrow> string option \<Rightarrow> (string \<times> nat) list \<Rightarrow> (string \<times> nat list) list
   \<Rightarrow> (string \<times> nat list) list \<Rightarrow> nat list" where
  "flags_to_open open_flag lock_item region_open_flags lock_reveal_flags region_graces =
     (let got = (\<lambda>m l. case map_of m l of Some fs \<Rightarrow> fs | None \<Rightarrow> []);
          out = (case open_flag of
                   Some flag \<Rightarrow>
                     if flag \<noteq> 0 then
                       flag # (case lock_item of
                                 Some l \<Rightarrow> got lock_reveal_flags l @ got region_graces l
                               | None \<Rightarrow> [])
                     else map snd region_open_flags @ concat (map snd lock_reveal_flags)
                          @ concat (map snd region_graces)
                 | None \<Rightarrow> map snd region_open_flags @ concat (map snd lock_reveal_flags)
                           @ concat (map snd region_graces))
      in sort_dedup (filter (\<lambda>f. f \<noteq> 0) out))"

lemma distinct_remdups_adj_sorted: "sorted xs \<Longrightarrow> distinct (remdups_adj xs)"
  by (induction xs rule: remdups_adj.induct) auto

lemma sort_dedup_props: "set (sort_dedup xs) = set xs" "sorted (sort_dedup xs)" "distinct (sort_dedup xs)"
  by (auto simp: sort_dedup_def sorted_remdups_adj distinct_remdups_adj_sorted)

lemma sort_dedup_unique: "set xs = set ys \<Longrightarrow> sort_dedup xs = sort_dedup ys"
  by (rule sorted_distinct_set_unique) (simp_all add: sort_dedup_props)

text \<open>The result does not depend on the iteration order of the hash maps.\<close>

lemma flags_to_open_order_independent:
  assumes "set r = set r'" "set l = set l'" "set g = set g'"
    "map_of l = map_of l'" "map_of g = map_of g'"
  shows "flags_to_open f k r l g = flags_to_open f k r' l' g'"
  using assms(1-3)
  by (auto simp: flags_to_open_def Let_def assms(4,5) split: option.split intro!: sort_dedup_unique)

section \<open>What the log and the tracker say\<close>

definition status_line :: "decision \<Rightarrow> string \<Rightarrow> string" where
  "status_line d goal_region =
     (case d of
        Open \<Rightarrow> ''goal-gate: every goal item is held -- opening '' @ goal_region
      | OpenUnresolvable why \<Rightarrow> ''goal-gate: OPENING '' @ goal_region @ '' WITHOUT A GATE -- '' @ why
      | Withhold outstanding \<Rightarrow>
          ''goal-gate: '' @ show_nat (length outstanding) @ '' goal item(s) outstanding, '' @ goal_region
          @ '' stays shut -- '' @ str_join '', '' outstanding)"

definition region_of_lock :: "string \<Rightarrow> string \<Rightarrow> string" where
  "region_of_lock fallback lock_item =
     (case strip_suffix '' Lock'' lock_item of
        Some name \<Rightarrow> if name \<noteq> [] then name else fallback
      | None \<Rightarrow> fallback)"

definition tracker_status :: "decision \<Rightarrow> string \<Rightarrow> string" where
  "tracker_status d goal_lock =
     (let goal_region = region_of_lock ''the goal region'' goal_lock
      in case d of
        Withhold outstanding \<Rightarrow>
          goal_lock @ '' is automatic (not in the pool) -- '' @ goal_region @ '' opens when the ''
          @ show_nat (length outstanding) @ '' outstanding ''
          @ (if length outstanding = 1 then ''requirement is'' else ''requirements are'') @ '' met: ''
          @ str_join '', '' outstanding
      | Open \<Rightarrow>
          goal_lock @ '' is automatic (not in the pool) -- requirements met; '' @ goal_region @ '' is open''
      | OpenUnresolvable _ \<Rightarrow>
          ''goal-region Lock is automatic (not in the pool) -- gate data did not resolve; the goal region was opened fail-safe'')"

section \<open>The per-tick driver\<close>

record 'g flag_io =
  io_get :: "'g \<Rightarrow> nat \<Rightarrow> bool"
  io_try_set :: "nat \<Rightarrow> bool \<Rightarrow> 'g \<Rightarrow> bool \<times> 'g"

text \<open>The statics: what connect configured, and the latches.\<close>

record gate_config =
  arena_open_flag :: nat
  gate_expected :: bool
  lock_name :: string
  region_open_flags :: "(string \<times> nat) list"
  lock_reveal_flags :: "(string \<times> nat list) list"
  region_graces :: "(string \<times> nat list) list"

record gate_latches =
  gate_opened :: bool
  gate_said_shut :: bool
  completion_primed :: bool
  gate_status :: string

definition latches_init :: gate_latches where
  "latches_init =
     \<lparr>gate_opened = False, gate_said_shut = False, completion_primed = False, gate_status = []\<rparr>"

definition reset_latches :: "gate_latches \<Rightarrow> gate_latches" where
  "reset_latches l = l\<lparr>gate_opened := False, gate_said_shut := False\<rparr>"

text \<open>What one tick is given: the goal lists and ownership, and the regions left under the other policy.\<close>

record gate_inputs =
  in_items :: "string list"
  in_runes :: "string list"
  in_required :: nat
  in_held :: "string \<Rightarrow> bool"
  in_incomplete :: "string list option"
  in_world :: bool

definition lock_name_opt :: "gate_config \<Rightarrow> string option" where
  "lock_name_opt c = (if lock_name c \<noteq> [] then Some (lock_name c) else None)"

definition tick_decision :: "gate_config \<Rightarrow> gate_inputs \<Rightarrow> decision" where
  "tick_decision c i =
     (case in_incomplete i of
        Some incomplete \<Rightarrow>
          let held_runes = length (filter (in_held i) (in_runes i));
              outstanding = incomplete @ (if held_runes < in_required i
                                          then [rune_line held_runes (in_required i)] else []);
              sorted = remdups_adj (sort outstanding)
          in if sorted = [] then Open else Withhold sorted
      | None \<Rightarrow>
          decide \<lparr>item_goals = in_items i, rune_goals = in_runes i, runes_required = in_required i,
                  goal_lock_item = lock_name_opt c\<rparr> (in_held i))"

definition tick_targets :: "gate_config \<Rightarrow> nat list" where
  "tick_targets c =
     flags_to_open (if arena_open_flag c \<noteq> 0 then Some (arena_open_flag c) else None) (lock_name_opt c)
       (region_open_flags c) (lock_reveal_flags c) (region_graces c)"

definition confirm_flag :: "'g flag_io \<Rightarrow> nat \<Rightarrow> bool \<times> 'g \<Rightarrow> bool \<times> 'g" where
  "confirm_flag io f s =
     (case s of (ok, g) \<Rightarrow>
       let g1 = (if \<not> io_get io g f then snd (io_try_set io f True g) else g)
       in (ok \<and> io_get io g1 f, g1))"

definition tick_goal_gate ::
  "'g flag_io \<Rightarrow> gate_config \<Rightarrow> gate_inputs \<Rightarrow> 'g \<times> gate_latches \<Rightarrow> string option \<times> 'g \<times> gate_latches" where
  "tick_goal_gate io c i s =
     (case s of (g, l) \<Rightarrow>
       if \<not> in_world i then (None, g, l)
       else if arena_open_flag c = 0 \<and> \<not> gate_expected c then (None, g, l)
       else
         let silent = (in_incomplete i \<noteq> None \<and> \<not> completion_primed l \<and> in_incomplete i = Some []);
             l1 = (if in_incomplete i \<noteq> None then l\<lparr>completion_primed := True\<rparr> else l);
             d = tick_decision c i;
             l2 = l1\<lparr>gate_status := tracker_status d (lock_name c)\<rparr>
         in if \<not> opens d then (None, g, l2\<lparr>gate_said_shut := True\<rparr>)
            else if gate_opened l2 then (None, g, l2)
            else if tick_targets c = [] then (None, g, l2\<lparr>gate_said_shut := True\<rparr>)
            else case fold (confirm_flag io) (tick_targets c) (True, g) of
              (all_confirmed, g1) \<Rightarrow>
                if \<not> all_confirmed then (None, g1, l2)
                else ((if \<not> silent
                       then Some (''Region unlocked: '' @ region_of_lock ''Goal region'' (lock_name c))
                       else None),
                      g1, l2\<lparr>gate_opened := True\<rparr>))"


section \<open>A session of the gate\<close>

text \<open>
  Ticks, and map loads, which may change the flag store at will and drop the latches
  (\<open>reset\<close> runs at the in-world edge).
\<close>

datatype 'g gate_event = Gate_Tick gate_inputs | Map_Load "'g \<Rightarrow> 'g"

fun gate_step :: "'g flag_io \<Rightarrow> gate_config \<Rightarrow> 'g gate_event \<Rightarrow> 'g \<times> gate_latches \<Rightarrow> 'g \<times> gate_latches" where
  "gate_step io c (Gate_Tick i) s = snd (tick_goal_gate io c i s)"
| "gate_step io c (Map_Load f) (g, l) = (f g, reset_latches l)"

definition gate_run :: "'g flag_io \<Rightarrow> gate_config \<Rightarrow> 'g gate_event list \<Rightarrow> 'g \<Rightarrow> 'g \<times> gate_latches" where
  "gate_run io c es g = fold (gate_step io c) es (g, latches_init)"

text \<open>Between loads the game never clears a flag when another one is set.\<close>

locale keeping_flags =
  fixes io :: "'g flag_io"
  assumes set_keeps: "io_get io g f \<Longrightarrow> io_get io (snd (io_try_set io f' True g)) f"
begin

lemma confirm_keeps: "io_get io g f \<Longrightarrow> io_get io (snd (confirm_flag io f' (ok, g))) f"
  by (simp add: confirm_flag_def Let_def set_keeps)

lemma fold_confirm_keeps: "io_get io g f \<Longrightarrow> io_get io (snd (fold (confirm_flag io) fs (ok, g))) f"
proof (induction fs arbitrary: ok g)
  case (Cons f' fs)
  obtain ok1 g1 where c: "confirm_flag io f' (ok, g) = (ok1, g1)" by fastforce
  from confirm_keeps [OF Cons.prems, of f' ok] c Cons.IH [of g1 ok1] show ?case by simp
qed simp

lemma fold_confirm_all:
  "fold (confirm_flag io) fs (ok, g) = (True, g') \<Longrightarrow> ok \<and> (\<forall>f \<in> set fs. io_get io g' f)"
proof (induction fs arbitrary: ok g)
  case (Cons f' fs)
  obtain ok1 g1 where c: "confirm_flag io f' (ok, g) = (ok1, g1)" by fastforce
  with Cons have ih: "ok1" "\<forall>f \<in> set fs. io_get io g' f" by auto
  from c ih(1) have "ok" "io_get io g1 f'" by (auto simp: confirm_flag_def Let_def)
  moreover have "snd (fold (confirm_flag io) fs (ok1, g1)) = g'"
    using Cons.prems c by simp
  ultimately show ?case
    using fold_confirm_keeps [of g1 f' fs ok1] ih(2) by simp
qed simp

text \<open>The latch is honest: while it is up, every target flag reads back set.\<close>

definition honest :: "gate_config \<Rightarrow> 'g \<times> gate_latches \<Rightarrow> bool" where
  "honest c s \<longleftrightarrow> (gate_opened (snd s) \<longrightarrow> (\<forall>f \<in> set (tick_targets c). io_get io (fst s) f))"

lemma tick_honest: "honest c s \<Longrightarrow> honest c (snd (tick_goal_gate io c i s))"
proof (cases s)
  case (Pair g l)
  assume h: "honest c s"
  obtain ok g1 where f: "fold (confirm_flag io) (tick_targets c) (True, g) = (ok, g1)" by fastforce
  then have "ok \<Longrightarrow> \<forall>f \<in> set (tick_targets c). io_get io g1 f"
    using fold_confirm_all [of "tick_targets c" True g g1] by simp
  with h Pair f show ?thesis
    by (auto simp: honest_def tick_goal_gate_def Let_def)
qed

lemma run_honest: "honest c s \<Longrightarrow> honest c (fold (gate_step io c) es s)"
proof (induction es arbitrary: s)
  case (Cons e es)
  have "honest c (gate_step io c e s)"
  proof (cases e)
    case (Gate_Tick i)
    then show ?thesis using tick_honest [OF Cons.prems] by simp
  next
    case (Map_Load f)
    then show ?thesis by (cases s) (simp add: honest_def reset_latches_def)
  qed
  with Cons.IH show ?case by simp
qed simp

end

text \<open>A store whose writes read back: the gate opens on the first tick that is allowed to.\<close>

locale sticking_flags = keeping_flags +
  assumes set_sticks: "io_get io (snd (io_try_set io f True g)) f"
begin

lemma fold_confirm_ok: "fst (fold (confirm_flag io) fs (True, g))"
proof (induction fs arbitrary: g)
  case (Cons f fs)
  have "fst (confirm_flag io f (True, g))"
    by (simp add: confirm_flag_def Let_def set_sticks)
  then obtain g1 where "confirm_flag io f (True, g) = (True, g1)"
    by (metis prod.collapse)
  with Cons.IH [of g1] show ?case by simp
qed simp

lemma tick_opens:
  assumes "in_world i" "arena_open_flag c \<noteq> 0 \<or> gate_expected c" "opens (tick_decision c i)"
    and "tick_targets c \<noteq> []"
  shows "gate_opened (snd (snd (tick_goal_gate io c i (g, l))))"
  using assms fold_confirm_ok [of "tick_targets c" g]
  by (auto simp: tick_goal_gate_def Let_def split: prod.splits)

end

text \<open>The client's flag store as the event-flag table it is: the set of flags that are on.\<close>

definition table_io :: "(nat \<Rightarrow> bool) flag_io" where
  "table_io = \<lparr>io_get = (\<lambda>g f. g f), io_try_set = (\<lambda>f on g. (True, g(f := on)))\<rparr>"

interpretation table: sticking_flags table_io
  by unfold_locales (simp_all add: table_io_def)

lemma table_gate_opens:
  "in_world i \<Longrightarrow> arena_open_flag c \<noteq> 0 \<or> gate_expected c \<Longrightarrow> opens (tick_decision c i) \<Longrightarrow>
   tick_targets c \<noteq> [] \<Longrightarrow> gate_opened (snd (snd (tick_goal_gate table_io c i (g, l))))"
  by (rule table.tick_opens)

text \<open>What has to hold for a tick to open the region, under either unlock policy.\<close>

definition gate_allows :: "gate_config \<Rightarrow> gate_inputs \<Rightarrow> bool" where
  "gate_allows c i \<longleftrightarrow>
     in_world i \<and> (arena_open_flag c \<noteq> 0 \<or> gate_expected c) \<and>
     (case in_incomplete i of
        Some incomplete \<Rightarrow> incomplete = [] \<and> in_required i \<le> length (filter (in_held i) (in_runes i))
      | None \<Rightarrow>
          lock_name c = [] \<or>
          ((\<forall>n \<in> set (in_items i). n = lock_name c \<or> in_held i n)
           \<and> in_required i \<le> length (filter (in_held i) (in_runes i))))"

lemma tick_decision_iff:
  "in_world i \<Longrightarrow> arena_open_flag c \<noteq> 0 \<or> gate_expected c \<Longrightarrow> opens (tick_decision c i) = gate_allows c i"
proof (cases "in_incomplete i")
  case None
  assume "in_world i" "arena_open_flag c \<noteq> 0 \<or> gate_expected c"
  then show ?thesis
    by (simp add: tick_decision_def gate_allows_def None decide_opens_iff requirements_met_def
        lock_name_opt_def)
next
  case (Some incomplete)
  have "\<And>xs :: string list. (sort xs = []) = (xs = [])"
    by (metis length_0_conv length_sort)
  moreover assume "in_world i" "arena_open_flag c \<noteq> 0 \<or> gate_expected c"
  ultimately show ?thesis
    by (auto simp: tick_decision_def gate_allows_def Some Let_def opens_def)
qed

lemma tick_without_permission:
  "\<not> gate_allows c i \<Longrightarrow>
   \<exists>l'. tick_goal_gate io c i (g, l) = (None, g, l') \<and> gate_opened l' = gate_opened l"
  using tick_decision_iff [of i c] by (auto simp: tick_goal_gate_def Let_def)

text \<open>
  C37: The goal gate opens exactly on its conditions and its latch is honest. A tick changes the
  game or announces the region only in world, for an advertised gate, when every other goal item and
  enough Great Runes are held (or every other region is complete, under that policy; or the lock
  never resolved, when withholding would be unwinnable). Over every session of ticks and map loads,
  whenever the latch that stops the writes is up, every flag of the opening reads back set.
\<close>

theorem goal_gate_opens_on_conditions:
  assumes "\<And>g f f'. io_get io g f \<Longrightarrow> io_get io (snd (io_try_set io f' True g)) f"
  shows "(case tick_goal_gate io c i (g, l) of
            (msg, g', l') \<Rightarrow>
              gate_allows c i \<or> (msg = None \<and> g' = g \<and> gate_opened l' = gate_opened l))
         \<and> (case gate_run io c es g of
              (g', l') \<Rightarrow> gate_opened l' \<longrightarrow> (\<forall>f \<in> set (tick_targets c). io_get io g' f))"
proof -
  have "keeping_flags io" using assms by unfold_locales
  then have "keeping_flags.honest io c (gate_run io c es g)"
    unfolding gate_run_def
    by (rule keeping_flags.run_honest) (simp add: keeping_flags.honest_def keeping_flags_def assms latches_init_def)
  then have "gate_opened (snd (gate_run io c es g)) \<longrightarrow>
      (\<forall>f \<in> set (tick_targets c). io_get io (fst (gate_run io c es g)) f)"
    using \<open>keeping_flags io\<close> by (simp add: keeping_flags.honest_def)
  then show ?thesis
    using tick_without_permission [of c i io g l] by (auto split: prod.splits)
qed

definition ashen_config :: gate_config where
  "ashen_config =
     \<lparr>arena_open_flag = 76100, gate_expected = True, lock_name = ''Ashen Lock'',
       region_open_flags = [(''Ashen Lock'', 76100), (''Caelid Lock'', 76200)],
       lock_reveal_flags = [(''Ashen Lock'', [71000, 0, 71001])], region_graces = [(''Ashen Lock'', [71001])]\<rparr>"

definition ashen_inputs :: "string list \<Rightarrow> gate_inputs" where
  "ashen_inputs held =
     \<lparr>in_items = [''Ashen Lock'', ''Caelid Lock''], in_runes = [''Godrick'', ''Radahn''], in_required = 1,
       in_held = (\<lambda>n. n \<in> set held), in_incomplete = None, in_world = True\<rparr>"

lemma goal_gate_opens_on_conditions_witness:
  "(let es = [Gate_Tick (ashen_inputs [''Caelid Lock'']), Map_Load (\<lambda>_ _. False),
             Gate_Tick (ashen_inputs [''Caelid Lock'', ''Radahn''])]
    in gate_opened (snd (gate_run table_io ashen_config es (\<lambda>_. False)))
       \<and> (\<forall>f \<in> {71000, 71001, 76100}. fst (gate_run table_io ashen_config es (\<lambda>_. False)) f))
   \<and> fst (snd (tick_goal_gate table_io ashen_config (ashen_inputs [''Caelid Lock'']) (\<lambda>_. False, latches_init)))
       = (\<lambda>_. False)"
proof -
  define es :: "(nat \<Rightarrow> bool) gate_event list" where
    "es = [Gate_Tick (ashen_inputs [''Caelid Lock'']), Map_Load (\<lambda>_ _. False),
           Gate_Tick (ashen_inputs [''Caelid Lock'', ''Radahn''])]"
  have law: "\<And>g f f'. io_get table_io g f \<Longrightarrow> io_get table_io (snd (io_try_set table_io f' True g)) f"
    by (simp add: table_io_def)
  note gate = goal_gate_opens_on_conditions
    [OF law, of ashen_config "ashen_inputs [''Caelid Lock'']" "\<lambda>_. False" latches_init es]
  have not_yet: "\<not> gate_allows ashen_config (ashen_inputs [''Caelid Lock''])" by code_simp
  have opened: "gate_opened (snd (gate_run table_io ashen_config es (\<lambda>_. False)))"
    unfolding es_def by code_simp
  have targets: "set (tick_targets ashen_config) = {71000, 71001, 76100}" by code_simp
  from gate not_yet opened targets show ?thesis
    unfolding es_def [symmetric] Let_def by (auto simp: table_io_def split: prod.splits)
qed

end
