(* ===== verification/BbBackend.thy ===== *)
theory BbBackend
  imports BbLedger
begin

text \<open>
  The game behind the Bloodborne client: the trait \<open>BloodborneBackend\<close> as a record of functions
  on an abstract state, and the repository's \<open>MockBackend\<close>
  (\<open>crates/bb-archipelago/src/backend.rs\<close>). The trait is extended by the file operations and the
  clock the client loop uses: saving the ledger, the delivery diagnostics, the wall clock. A fallible
  call returns an \<open>anyhow\<close> error, which is a terminal verdict of the grant harness, a message, or a
  context around another error.
\<close>

section \<open>Errors\<close>

record grant_terminal_failure =
  gf_tag :: string
  gf_status :: string
  gf_detail :: string

datatype bb_error =
    Terminal grant_terminal_failure
  | Message string
  | Context string bb_error

text \<open>\<open>downcast\<close> sees through added context.\<close>

fun terminal_of :: "bb_error \<Rightarrow> grant_terminal_failure option" where
  "terminal_of (Terminal f) = Some f"
| "terminal_of (Message m) = None"
| "terminal_of (Context c e) = terminal_of e"

definition show_failure :: "grant_terminal_failure \<Rightarrow> string" where
  "show_failure f =
     ''grant '' @ gf_tag f @ '' failed in harness: '' @ gf_status f @ '' ('' @ gf_detail f @ '')''"

text \<open>\<open>format!("{error:#}")\<close>: the whole chain.\<close>

fun show_error :: "bb_error \<Rightarrow> string" where
  "show_error (Terminal f) = show_failure f"
| "show_error (Message m) = m"
| "show_error (Context c e) = c @ '': '' @ show_error e"

definition absent_vial_detail :: "string \<Rightarrow> string" where
  "absent_vial_detail tag =
     ''tag='' @ tag @ '' absent Blood Vial insertion is disabled after the live invalid-record reproduction; acquire one Vial before delivery''"

definition is_absent_vial_refusal :: "string \<Rightarrow> string \<Rightarrow> string \<Rightarrow> bool" where
  "is_absent_vial_refusal tag status detail \<longleftrightarrow> status = ''failed'' \<and> detail = absent_vial_detail tag"

section \<open>The trait\<close>

record location_context =
  lc_save_identity :: string
  lc_gameplay_ready :: bool

record item_grant =
  ig_raw_descriptor :: nat
  ig_normalized_item_id :: nat
  ig_item_category :: nat
  ig_quantity :: nat
  ig_expected_before :: nat
  ig_reinforcement_level :: "nat option"
  ig_tag :: string

record equip_request =
  er_normalized_item_id :: nat
  er_reinforcement_level :: "nat option"
  er_target :: equip_target
  er_tag :: string

datatype stack_observation = Unsupported | NotReady | Quantity nat

datatype operation_progress = Pending | Complete

type_synonym ('b, 'a) call = "'b \<Rightarrow> (bb_error + 'a) \<times> 'b"

text \<open>One line of the passive delivery diagnostics, as far as the client loop reads it.\<close>

record delivery_record =
  dr_tag :: string
  dr_ap_index :: "nat option"
  dr_item_id_raw :: nat
  dr_item_id_normalized :: nat
  dr_lane :: "string option"
  dr_source :: "string option"
  dr_quantity :: nat
  dr_observed_before :: "nat option"
  dr_expected_after :: "nat option"
  dr_readbacks :: "nat option list"
  dr_readbacks_seen :: nat
  dr_native_result :: "nat option"
  dr_execution_evidence :: bool
  dr_replanned_to_delta :: bool
  dr_verify_polls :: nat
  dr_terminal_status :: string
  dr_terminal_detail :: string

record 'b backend =
  b_release_preexecution_vial_refusal :: "string \<Rightarrow> ('b, bool) call"
  b_location_context :: "('b, location_context option) call"
  b_read_event_flag :: "nat \<Rightarrow> ('b, bool option) call"
  b_write_event_flag :: "nat \<Rightarrow> bool \<Rightarrow> ('b, unit) call"
  b_target_weapon_level :: "('b, nat option) call"
  b_upgrade_scan_ready :: "('b, bool) call"
  b_grant_item :: "item_grant \<Rightarrow> ('b, operation_progress) call"
  b_observe_stack_quantity :: "nat \<Rightarrow> nat option \<Rightarrow> ('b, stack_observation) call"
  b_observe_storage_quantity :: "nat \<Rightarrow> nat option \<Rightarrow> ('b, stack_observation) call"
  b_inventory_readable :: "nat \<Rightarrow> 'b \<Rightarrow> bool"
  b_grant_may_have_applied :: "string \<Rightarrow> ('b, bool) call"
  b_last_grant_went_to_storage :: "string \<Rightarrow> 'b \<Rightarrow> bool"
  b_equip_item :: "equip_request \<Rightarrow> ('b, operation_progress) call"
  b_death_link_kill :: "('b, bool) call"
  b_observe_player_hp :: "('b, nat option) call"
  b_withdraw_unwitnessed_grant :: "string \<Rightarrow> ('b, bool) call"
  b_retire_grant :: "string \<Rightarrow> string \<Rightarrow> ('b, bool) call"
  b_read_save_watermark :: "('b, nat option) call"
  b_write_save_watermark :: "nat \<Rightarrow> ('b, bool) call"
  b_save :: "receive_ledger \<Rightarrow> ('b, unit) call"
  b_diagnostics :: "'b \<Rightarrow> delivery_record list option"
  b_timestamp_ms :: "'b \<Rightarrow> nat"

section \<open>The mock backend\<close>

text \<open>The fields the trait methods read or write; \<open>mb_file\<close> is the ledger file beside the mock.\<close>

record mock_backend =
  mb_set_flags :: "nat set"
  mb_location_context :: "location_context option"
  mb_upgrade_target_level :: "nat option"
  mb_upgrade_scan_ready :: bool
  mb_inventory :: "nat \<times> nat option \<Rightarrow> nat option"
  mb_grants :: "item_grant list"
  mb_equips :: "equip_request list"
  mb_withdrawn :: "string list"
  mb_watermark_supported :: bool
  mb_watermark :: "nat option"
  mb_event_flags_armed :: bool
  mb_stack_observation_supported :: bool
  mb_stack_observation_ready :: bool
  mb_storage_observation_supported :: bool
  mb_storage :: "nat \<times> nat option \<Rightarrow> nat option"
  mb_retained_unwitnessed :: "string set"
  mb_storage_routed :: "string set"
  mb_player_hp :: "nat option"
  mb_death_link_kill_error :: "string option"
  mb_grant_delays :: "string \<Rightarrow> nat option"
  mb_pending_grants :: "string set"
  mb_equip_delays :: "string \<Rightarrow> nat option"
  mb_completed_grants :: "string set"
  mb_completed_equips :: "string set"
  mb_terminal_failures :: "string \<Rightarrow> string option"
  mb_terminal_failure_details :: "string \<Rightarrow> string option"
  mb_file :: receive_ledger

definition mock_backend_default :: mock_backend where
  "mock_backend_default =
     \<lparr>mb_set_flags = {}, mb_location_context =
        Some \<lparr>lc_save_identity = ''mock-save'', lc_gameplay_ready = True\<rparr>,
      mb_upgrade_target_level = None, mb_upgrade_scan_ready = True, mb_inventory = (\<lambda>_. None),
      mb_grants = [], mb_equips = [], mb_withdrawn = [], mb_watermark_supported = False,
      mb_watermark = None, mb_event_flags_armed = True, mb_stack_observation_supported = True,
      mb_stack_observation_ready = True, mb_storage_observation_supported = False, mb_storage = (\<lambda>_. None), mb_retained_unwitnessed = {},
      mb_storage_routed = {}, mb_player_hp = None, mb_death_link_kill_error = None,
      mb_grant_delays = (\<lambda>_. None), mb_pending_grants = {}, mb_equip_delays = (\<lambda>_. None),
      mb_completed_grants = {}, mb_completed_equips = {}, mb_terminal_failures = (\<lambda>_. None),
      mb_terminal_failure_details = (\<lambda>_. None), mb_file = bm_empty\<rparr>"

definition or_zero :: "nat option \<Rightarrow> nat" where
  "or_zero q = (case q of Some n \<Rightarrow> n | None \<Rightarrow> 0)"

text \<open>One tick of a delay: whether the call is still delayed.\<close>

definition delayed :: "(string \<Rightarrow> nat option) \<Rightarrow> string \<Rightarrow> bool \<times> (string \<Rightarrow> nat option)" where
  "delayed ds tag =
     (case ds tag of
        None \<Rightarrow> (False, ds)
      | Some 0 \<Rightarrow> (False, ds(tag := None))
      | Some (Suc n) \<Rightarrow> (True, ds(tag := Some n)))"

definition mock_failure_detail :: "mock_backend \<Rightarrow> string \<Rightarrow> string" where
  "mock_failure_detail m tag =
     (case mb_terminal_failure_details m tag of
        Some d \<Rightarrow> d | None \<Rightarrow> ''mock terminal harness failure'')"

definition mock_release_vial :: "string \<Rightarrow> (mock_backend, bool) call" where
  "mock_release_vial tag m =
     (case mb_terminal_failures m tag of
        None \<Rightarrow> (Inr True, m)
      | Some status \<Rightarrow>
          if \<not> is_absent_vial_refusal tag status (mock_failure_detail m tag) then (Inr False, m)
          else (Inr True, m\<lparr>mb_terminal_failures := (mb_terminal_failures m)(tag := None),
                           mb_terminal_failure_details := (mb_terminal_failure_details m)(tag := None)\<rparr>))"

definition mock_read_event_flag :: "nat \<Rightarrow> (mock_backend, bool option) call" where
  "mock_read_event_flag f m =
     (Inr (if \<not> mb_event_flags_armed m then None else Some (f \<in> mb_set_flags m)), m)"

definition mock_write_event_flag :: "nat \<Rightarrow> bool \<Rightarrow> (mock_backend, unit) call" where
  "mock_write_event_flag f on m =
     (if \<not> mb_event_flags_armed m then (Inl (Message ''live event-flag accessor is unavailable''), m)
      else if on then (Inr (), m\<lparr>mb_set_flags := insert f (mb_set_flags m)\<rparr>)
      else (Inr (), m\<lparr>mb_set_flags := mb_set_flags m - {f}\<rparr>))"

definition mock_gameplay_ready :: "mock_backend \<Rightarrow> bool" where
  "mock_gameplay_ready m =
     (case mb_location_context m of None \<Rightarrow> False | Some c \<Rightarrow> lc_gameplay_ready c)"

definition mock_death_link_kill :: "(mock_backend, bool) call" where
  "mock_death_link_kill m =
     (case mb_death_link_kill_error m of
        Some msg \<Rightarrow> (Inl (Message msg), m)
      | None \<Rightarrow>
          (Inr (mock_gameplay_ready m), if mock_gameplay_ready m then m\<lparr>mb_player_hp := Some 0\<rparr> else m))"

definition mock_observe_player_hp :: "(mock_backend, nat option) call" where
  "mock_observe_player_hp m = (Inr (if \<not> mock_gameplay_ready m then None else mb_player_hp m), m)"

definition mock_observe_stack :: "nat \<Rightarrow> nat option \<Rightarrow> (mock_backend, stack_observation) call" where
  "mock_observe_stack item level m =
     (Inr (if \<not> mb_stack_observation_supported m then Unsupported
           else if \<not> mb_stack_observation_ready m then NotReady
           else Quantity (or_zero (mb_inventory m (item, level)))), m)"

definition mock_observe_storage :: "nat \<Rightarrow> nat option \<Rightarrow> (mock_backend, stack_observation) call" where
  "mock_observe_storage item level m =
     (Inr (if \<not> mb_storage_observation_supported m then Unsupported
           else Quantity (or_zero (mb_storage m (item, level)))), m)"

definition mock_inventory_readable :: "nat \<Rightarrow> mock_backend \<Rightarrow> bool" where
  "mock_inventory_readable item m \<longleftrightarrow> \<not> mb_stack_observation_supported m \<or> mb_stack_observation_ready m"

definition mock_grant_item :: "item_grant \<Rightarrow> (mock_backend, operation_progress) call" where
  "mock_grant_item g m =
     (if ig_tag g \<in> mb_pending_grants m then (Inr Pending, m)
      else case mb_terminal_failures m (ig_tag g) of
        Some status \<Rightarrow>
          (Inl (Terminal \<lparr>gf_tag = ig_tag g, gf_status = status,
                          gf_detail = mock_failure_detail m (ig_tag g)\<rparr>), m)
      | None \<Rightarrow>
          if ig_tag g \<in> mb_completed_grants m then (Inr Complete, m)
          else case delayed (mb_grant_delays m) (ig_tag g) of
            (True, ds) \<Rightarrow> (Inr Pending, m\<lparr>mb_grant_delays := ds\<rparr>)
          | (False, ds) \<Rightarrow>
              let m1 = m\<lparr>mb_grant_delays := ds\<rparr>;
                  done = (\<lambda>m. m\<lparr>mb_grants := mb_grants m @ [g],
                              mb_completed_grants := insert (ig_tag g) (mb_completed_grants m)\<rparr>);
                  key = (ig_normalized_item_id g, ig_reinforcement_level g);
                  current = or_zero (mb_inventory m1 key)
              in if ig_item_category g = 255 then
                   (Inr Complete, done (m1\<lparr>mb_set_flags := insert (ig_normalized_item_id g) (mb_set_flags m1)\<rparr>))
                 else if current \<noteq> ig_expected_before g then
                   (Inl (Message (''mock quantity mismatch: expected '' @ show_nat (ig_expected_before g)
                                  @ '', found '' @ show_nat current)), m1)
                 else if ig_tag g \<in> mb_storage_routed m1 then
                   (Inr Complete, done (m1\<lparr>mb_storage := (mb_storage m1)(key \<mapsto>
                      saturating_add_u32 (or_zero (mb_storage m1 key)) (ig_quantity g))\<rparr>))
                 else
                   (Inr Complete, done (m1\<lparr>mb_inventory := (mb_inventory m1)(key \<mapsto>
                      saturating_add_u32 current (ig_quantity g))\<rparr>)))"

definition mock_equip_item :: "equip_request \<Rightarrow> (mock_backend, operation_progress) call" where
  "mock_equip_item r m =
     (if er_tag r \<in> mb_completed_equips m then (Inr Complete, m)
      else case delayed (mb_equip_delays m) (er_tag r) of
        (True, ds) \<Rightarrow> (Inr Pending, m\<lparr>mb_equip_delays := ds\<rparr>)
      | (False, ds) \<Rightarrow>
          let m1 = m\<lparr>mb_equip_delays := ds\<rparr>
          in if mb_inventory m1 (er_normalized_item_id r, er_reinforcement_level r) = None
             then (Inl (Message ''mock equip target is not present in inventory''), m1)
             else (Inr Complete, m1\<lparr>mb_equips := mb_equips m1 @ [r],
                                   mb_completed_equips := insert (er_tag r) (mb_completed_equips m1)\<rparr>))"

definition mock_withdraw :: "string \<Rightarrow> (mock_backend, bool) call" where
  "mock_withdraw tag m = (Inr True, m\<lparr>mb_withdrawn := mb_withdrawn m @ [tag]\<rparr>)"

definition mock_retire :: "string \<Rightarrow> string \<Rightarrow> (mock_backend, bool) call" where
  "mock_retire tag reason m =
     (Inr True, m\<lparr>mb_pending_grants := mb_pending_grants m - {tag},
                  mb_withdrawn := mb_withdrawn m @ [tag]\<rparr>)"

definition mock_read_watermark :: "(mock_backend, nat option) call" where
  "mock_read_watermark m = (Inr (if mb_watermark_supported m then mb_watermark m else None), m)"

definition mock_write_watermark :: "nat \<Rightarrow> (mock_backend, bool) call" where
  "mock_write_watermark cursor m =
     (if \<not> mb_watermark_supported m then (Inr False, m)
      else (Inr True, m\<lparr>mb_watermark := Some cursor\<rparr>))"

definition mock_backend_io :: "mock_backend backend" where
  "mock_backend_io =
     \<lparr>b_release_preexecution_vial_refusal = mock_release_vial,
      b_location_context = (\<lambda>m. (Inr (mb_location_context m), m)),
      b_read_event_flag = mock_read_event_flag,
      b_write_event_flag = mock_write_event_flag,
      b_target_weapon_level = (\<lambda>m. (Inr (mb_upgrade_target_level m), m)),
      b_upgrade_scan_ready = (\<lambda>m. (Inr (mb_upgrade_scan_ready m), m)),
      b_grant_item = mock_grant_item,
      b_observe_stack_quantity = mock_observe_stack,
      b_observe_storage_quantity = mock_observe_storage,
      b_inventory_readable = mock_inventory_readable,
      b_grant_may_have_applied = (\<lambda>tag m. (Inr (tag \<notin> mb_retained_unwitnessed m), m)),
      b_last_grant_went_to_storage = (\<lambda>tag m. tag \<in> mb_storage_routed m),
      b_equip_item = mock_equip_item,
      b_death_link_kill = mock_death_link_kill,
      b_observe_player_hp = mock_observe_player_hp,
      b_withdraw_unwitnessed_grant = mock_withdraw,
      b_retire_grant = mock_retire,
      b_read_save_watermark = mock_read_watermark,
      b_write_save_watermark = mock_write_watermark,
      b_save = (\<lambda>l m. (Inr (), m\<lparr>mb_file := l\<rparr>)),
      b_diagnostics = (\<lambda>_. None),
      b_timestamp_ms = (\<lambda>_. 0)\<rparr>"

text \<open>The switches tests set on the mock.\<close>

definition mock_delay_grant :: "string \<Rightarrow> nat \<Rightarrow> mock_backend \<Rightarrow> mock_backend" where
  "mock_delay_grant tag polls m = m\<lparr>mb_grant_delays := (mb_grant_delays m)(tag \<mapsto> polls)\<rparr>"

definition mock_keep_grant_pending :: "string \<Rightarrow> mock_backend \<Rightarrow> mock_backend" where
  "mock_keep_grant_pending tag m = m\<lparr>mb_pending_grants := insert tag (mb_pending_grants m)\<rparr>"

definition mock_fail_grant_terminally_with :: "string \<Rightarrow> string \<Rightarrow> mock_backend \<Rightarrow> mock_backend" where
  "mock_fail_grant_terminally_with tag status m =
     m\<lparr>mb_terminal_failures := (mb_terminal_failures m)(tag \<mapsto> status)\<rparr>"

definition mock_fail_grant_terminally :: "string \<Rightarrow> mock_backend \<Rightarrow> mock_backend" where
  "mock_fail_grant_terminally tag m = mock_fail_grant_terminally_with tag ''failed'' m"

definition mock_exhaust_storage_retries :: "string \<Rightarrow> mock_backend \<Rightarrow> mock_backend" where
  "mock_exhaust_storage_retries tag m =
     m\<lparr>mb_terminal_failures := (mb_terminal_failures m)(tag \<mapsto> ''failed''),
       mb_terminal_failure_details := (mb_terminal_failure_details m)(tag \<mapsto> ''storage_retry_exhausted'')\<rparr>"

definition mock_refuse_absent_vial :: "string \<Rightarrow> mock_backend \<Rightarrow> mock_backend" where
  "mock_refuse_absent_vial tag m =
     m\<lparr>mb_terminal_failures := (mb_terminal_failures m)(tag \<mapsto> ''failed''),
       mb_terminal_failure_details := (mb_terminal_failure_details m)(tag \<mapsto> absent_vial_detail tag)\<rparr>"

definition mock_delay_equip :: "string \<Rightarrow> nat \<Rightarrow> mock_backend \<Rightarrow> mock_backend" where
  "mock_delay_equip tag polls m = m\<lparr>mb_equip_delays := (mb_equip_delays m)(tag \<mapsto> polls)\<rparr>"

definition mock_route_grant_to_storage :: "string \<Rightarrow> mock_backend \<Rightarrow> mock_backend" where
  "mock_route_grant_to_storage tag m = m\<lparr>mb_storage_routed := insert tag (mb_storage_routed m)\<rparr>"

text \<open>The game side of a save restore.\<close>

definition restore_save ::
  "nat option \<Rightarrow> (nat \<times> nat option \<Rightarrow> nat option) \<Rightarrow> mock_backend \<Rightarrow> mock_backend" where
  "restore_save watermark inventory m =
     m\<lparr>mb_watermark := watermark, mb_inventory := inventory, mb_completed_grants := {},
       mb_completed_equips := {}\<rparr>"

end
