(* ===== verification/BbPlan.thy ===== *)
theory BbPlan
  imports BbBackend
begin

text \<open>
  The pure part of planning a delivery: the seed's configuration as far as the client loop reads it
  (\<open>config.rs\<close>), the equip targets of the received feed (\<open>feed.rs\<close>), and the reinforcement
  level of a weapon (\<open>upgrades.rs\<close>). All files are of \<open>crates/bb-archipelago/src\<close>.
\<close>

section \<open>The feed\<close>

datatype equip_class =
    RightHandWeapon
  | LeftHandWeapon
  | AttireClass attire_slot
  | CaryllRuneClass
  | OathRuneClass
  | NotEquippable

datatype feed_effect = Item equip_class | RuneWorkshopTool

record received_fact =
  rf_index :: nat
  rf_effect :: feed_effect

record equip_decision =
  ed_received_index :: nat
  ed_ordinal :: nat
  ed_target :: equip_target

definition HAND_SLOTS :: nat where "HAND_SLOTS = 2"
definition CARYLL_RUNE_SLOTS :: nat where "CARYLL_RUNE_SLOTS = 3"

record feed_state =
  fs_decisions :: "equip_decision list"
  fs_ordinals :: "equip_class \<Rightarrow> nat"
  fs_unlocked :: bool
  fs_previous :: "nat option"

definition feed_init :: feed_state where
  "feed_init = \<lparr>fs_decisions = [], fs_ordinals = (\<lambda>_. 0), fs_unlocked = False, fs_previous = None\<rparr>"

definition class_target :: "bool \<Rightarrow> nat \<Rightarrow> equip_class \<Rightarrow> equip_target option" where
  "class_target unlocked current c =
     (case c of
        RightHandWeapon \<Rightarrow> Some (RightHand (current mod HAND_SLOTS))
      | LeftHandWeapon \<Rightarrow> Some (LeftHand (current mod HAND_SLOTS))
      | AttireClass slot \<Rightarrow> Some (Attire slot)
      | CaryllRuneClass \<Rightarrow> if unlocked then Some (CaryllRune (current mod CARYLL_RUNE_SLOTS)) else None
      | NotEquippable \<Rightarrow> None
      | OathRuneClass \<Rightarrow> Some OathRune)"

text \<open>One fact; \<open>Inl\<close> is the order error with the previous and the current index.\<close>

definition feed_fact :: "received_fact \<Rightarrow> feed_state \<Rightarrow> (nat \<times> nat) + feed_state" where
  "feed_fact rf s =
     (if (case fs_previous s of Some previous \<Rightarrow> rf_index rf \<le> previous | None \<Rightarrow> False)
      then Inl (the (fs_previous s), rf_index rf)
      else
        let s1 = s\<lparr>fs_previous := Some (rf_index rf)\<rparr>
        in case rf_effect rf of
             RuneWorkshopTool \<Rightarrow> Inr (s1\<lparr>fs_unlocked := True\<rparr>)
           | Item c \<Rightarrow>
               let current = fs_ordinals s1 c;
                   s2 = s1\<lparr>fs_ordinals := (fs_ordinals s1)(c := current + 1)\<rparr>
               in case class_target (fs_unlocked s2) current c of
                    None \<Rightarrow> Inr s2
                  | Some t \<Rightarrow> Inr (s2\<lparr>fs_decisions := fs_decisions s2 @
                      [\<lparr>ed_received_index = rf_index rf, ed_ordinal = current, ed_target = t\<rparr>]\<rparr>))"

fun feed_facts :: "received_fact list \<Rightarrow> feed_state \<Rightarrow> (nat \<times> nat) + feed_state" where
  "feed_facts [] s = Inr s"
| "feed_facts (f # fs) s = (case feed_fact f s of Inl e \<Rightarrow> Inl e | Inr s' \<Rightarrow> feed_facts fs s')"

definition equip_decisions :: "received_fact list \<Rightarrow> (nat \<times> nat) + equip_decision list" where
  "equip_decisions facts =
     (case feed_facts facts feed_init of Inl e \<Rightarrow> Inl e | Inr s \<Rightarrow> Inr (fs_decisions s))"

definition show_feed_order_error :: "nat \<times> nat \<Rightarrow> string" where
  "show_feed_order_error e =
     ''received feed is not strictly ordered: '' @ show_nat (fst e) @ '' then '' @ show_nat (snd e)"

section \<open>Reinforcement\<close>

definition MAX_WEAPON_LEVEL :: nat where "MAX_WEAPON_LEVEL = 10"
definition REINFORCEMENT_ROW_STEP :: nat where "REINFORCEMENT_ROW_STEP = 100"

definition auto_upgrade_level :: "bool \<Rightarrow> nat \<Rightarrow> nat option \<Rightarrow> nat" where
  "auto_upgrade_level enabled received_level target_level =
     (let received = min received_level MAX_WEAPON_LEVEL
      in if \<not> enabled then received
         else case target_level of
                None \<Rightarrow> received
              | Some target \<Rightarrow> max received (min target MAX_WEAPON_LEVEL))"

definition checked_add_u32 :: "nat \<Rightarrow> nat \<Rightarrow> nat option" where
  "checked_add_u32 a b = (if a + b < 2 ^ 32 then Some (a + b) else None)"

definition reinforced_descriptor_pair :: "nat \<Rightarrow> nat \<Rightarrow> nat \<Rightarrow> nat \<Rightarrow> (nat \<times> nat) option" where
  "reinforced_descriptor_pair raw normalized received_level delivered_level =
     (if delivered_level < received_level then None
      else
        let delta = (delivered_level - received_level) * REINFORCEMENT_ROW_STEP
        in if 2 ^ 32 \<le> delta then None
           else case (checked_add_u32 raw delta, checked_add_u32 normalized delta) of
                  (Some r, Some n) \<Rightarrow> Some (r, n)
                | _ \<Rightarrow> None)"

definition is_non_upgradable_shield :: "nat \<Rightarrow> nat option \<Rightarrow> bool" where
  "is_non_upgradable_shield normalized_item_id reinforcement_level =
     (case reinforcement_level of
        None \<Rightarrow> False
      | Some level \<Rightarrow>
          if normalized_item_id < level * 100 then False
          else normalized_item_id - level * 100 = 19000000 \<or> normalized_item_id - level * 100 = 19100000)"

section \<open>The configuration\<close>

datatype descriptor_evidence =
    GoodsFormulaObserved
  | LiveGrantInventoryUi
  | ParamIdInferred
  | EventFlagEffect
  | UnknownEvidence string

primrec evidence_str :: "descriptor_evidence \<Rightarrow> string" where
  "evidence_str GoodsFormulaObserved = ''goods_formula_observed''"
| "evidence_str LiveGrantInventoryUi = ''live_grant_inventory_ui''"
| "evidence_str ParamIdInferred = ''param_id_inferred''"
| "evidence_str EventFlagEffect = ''event_flag_effect''"
| "evidence_str (UnknownEvidence raw) = raw"

definition evidence_is_known :: "descriptor_evidence \<Rightarrow> bool" where
  "evidence_is_known e = (case e of UnknownEvidence _ \<Rightarrow> False | _ \<Rightarrow> True)"

text \<open>Reading slot data back: total, an unknown string is carried verbatim.\<close>

definition evidence_of_str :: "string \<Rightarrow> descriptor_evidence" where
  "evidence_of_str raw =
     (if raw = ''goods_formula_observed'' then GoodsFormulaObserved
      else if raw = ''live_grant_inventory_ui'' then LiveGrantInventoryUi
      else if raw = ''param_id_inferred'' then ParamIdInferred
      else if raw = ''event_flag_effect'' then EventFlagEffect
      else UnknownEvidence raw)"

datatype feed_effect_binding =
    FbRightHandWeapon | FbLeftHandWeapon | FbAttireHead | FbAttireChest | FbAttireHands | FbAttireLegs
  | FbCaryllRune | FbOathRune | FbRuneWorkshopTool | FbNotEquippable

primrec binding_effect :: "feed_effect_binding \<Rightarrow> feed_effect" where
  "binding_effect FbRightHandWeapon = Item RightHandWeapon"
| "binding_effect FbLeftHandWeapon = Item LeftHandWeapon"
| "binding_effect FbAttireHead = Item (AttireClass Head)"
| "binding_effect FbAttireChest = Item (AttireClass Chest)"
| "binding_effect FbAttireHands = Item (AttireClass Hands)"
| "binding_effect FbAttireLegs = Item (AttireClass Legs)"
| "binding_effect FbCaryllRune = Item CaryllRuneClass"
| "binding_effect FbOathRune = Item OathRuneClass"
| "binding_effect FbRuneWorkshopTool = RuneWorkshopTool"
| "binding_effect FbNotEquippable = Item NotEquippable"

record runtime_item_binding =
  rb_raw_descriptor :: nat
  rb_normalized_item_id :: nat
  rb_item_category :: nat
  rb_descriptor_evidence :: descriptor_evidence
  rb_quantity :: nat
  rb_reinforcement_level :: "nat option"
  rb_feed_effect :: feed_effect_binding

record location_binding =
  lb_ap_location_id :: int
  lb_event_flag :: nat
  lb_vanilla_award_suppressed :: bool

record category8_award =
  c8_token_goods_id :: nat
  c8_ack_flag :: nat

text \<open>
  The fields of \<open>RuntimeConfig\<close> the client loop reads, with the seed and slot names it was
  created for. The item table is a \<open>HashMap\<close>; where the code iterates over it, it sorts by id first, or
  takes any entry that matches.
\<close>

record runtime_config =
  rc_seed_name :: string
  rc_slot_name :: string
  rc_locations :: "location_binding list"
  rc_items :: "(int, runtime_item_binding) btree_map"
  rc_category8_awards :: "int \<Rightarrow> category8_award option"
  rc_auto_upgrade :: bool
  rc_auto_equip :: bool
  rc_death_link :: bool
  rc_death_link_send :: bool
  rc_death_link_first_death_grace :: bool
  rc_death_link_amnesty :: nat
  rc_expected_save_identity :: "string option"
  rc_location_check_debounce :: nat
  rc_goal_location :: "int option"
  rc_goal :: "string option"
  rc_sustain_item :: "runtime_item_binding option"
  rc_sustain_items :: "runtime_item_binding list"

lemma evidence_round_trip: "evidence_str (evidence_of_str s) = s"
  by (simp add: evidence_of_str_def)

lemma evidence_of_known: "evidence_is_known e \<Longrightarrow> evidence_of_str (evidence_str e) = e"
  by (cases e) (simp_all add: evidence_of_str_def evidence_is_known_def)

section \<open>Properties of the plan\<close>

lemma auto_upgrade_bounds:
  "min received MAX_WEAPON_LEVEL \<le> auto_upgrade_level en received t"
  "auto_upgrade_level en received t \<le> MAX_WEAPON_LEVEL"
  "\<not> en \<Longrightarrow> auto_upgrade_level en received t = min received MAX_WEAPON_LEVEL"
  by (auto simp: auto_upgrade_level_def Let_def split: option.split)

lemma reinforced_pair_moves_together:
  "reinforced_descriptor_pair raw norm r d = Some (raw', norm') \<Longrightarrow>
   r \<le> d \<and> raw' = raw + (d - r) * 100 \<and> norm' = norm + (d - r) * 100 \<and> raw' < 2 ^ 32 \<and> norm' < 2 ^ 32"
  by (auto simp: reinforced_descriptor_pair_def REINFORCEMENT_ROW_STEP_def checked_add_u32_def Let_def
      split: if_splits)

text \<open>
  What the feed fold computes, fact by fact: the ordinal of an item is the number of earlier items
  of its class, and the rune slots open with the first workshop tool before it.
\<close>

definition class_count :: "equip_class \<Rightarrow> received_fact list \<Rightarrow> nat" where
  "class_count c fs = length (filter (\<lambda>f. rf_effect f = Item c) fs)"

definition tool_seen :: "received_fact list \<Rightarrow> bool" where
  "tool_seen fs \<longleftrightarrow> (\<exists>f \<in> set fs. rf_effect f = RuneWorkshopTool)"

definition decision_at :: "received_fact list \<Rightarrow> received_fact \<Rightarrow> equip_decision list" where
  "decision_at earlier f =
     (case rf_effect f of
        RuneWorkshopTool \<Rightarrow> []
      | Item c \<Rightarrow>
          (case class_target (tool_seen earlier) (class_count c earlier) c of
             None \<Rightarrow> []
           | Some t \<Rightarrow> [\<lparr>ed_received_index = rf_index f, ed_ordinal = class_count c earlier, ed_target = t\<rparr>]))"

definition feed_spec :: "received_fact list \<Rightarrow> equip_decision list" where
  "feed_spec fs = concat (map (\<lambda>k. decision_at (take k fs) (fs ! k)) [0..<length fs])"

lemma feed_spec_snoc: "feed_spec (fs @ [f]) = feed_spec fs @ decision_at fs f"
proof -
  have "map (\<lambda>k. decision_at (take k (fs @ [f])) ((fs @ [f]) ! k)) [0..<length fs]
      = map (\<lambda>k. decision_at (take k fs) (fs ! k)) [0..<length fs]"
    by (rule map_cong) (auto simp: nth_append)
  moreover have "feed_spec (fs @ [f]) =
      concat (map (\<lambda>k. decision_at (take k (fs @ [f])) ((fs @ [f]) ! k)) [0..<length fs]) @ decision_at fs f"
    by (simp add: feed_spec_def del: take_append)  simp
  ultimately show ?thesis by (simp only: feed_spec_def)
qed

definition feed_at :: "received_fact list \<Rightarrow> feed_state \<Rightarrow> bool" where
  "feed_at fs s \<longleftrightarrow>
     fs_decisions s = feed_spec fs \<and> fs_ordinals s = (\<lambda>c. class_count c fs) \<and>
     fs_unlocked s = tool_seen fs \<and> fs_previous s = (if fs = [] then None else Some (rf_index (last fs)))"

lemma feed_facts_append:
  "feed_facts (xs @ ys) s = (case feed_facts xs s of Inl e \<Rightarrow> Inl e | Inr s' \<Rightarrow> feed_facts ys s')"
  by (induction xs arbitrary: s) (auto split: sum.split)

lemma feed_fact_at:
  assumes "feed_at fs s" and "fs = [] \<or> rf_index (last fs) < rf_index f"
  shows "\<exists>s'. feed_fact f s = Inr s' \<and> feed_at (fs @ [f]) s'"
  using assms
  by (auto simp: feed_fact_def feed_at_def Let_def feed_spec_snoc decision_at_def class_count_def
      tool_seen_def fun_eq_iff split: option.split feed_effect.split if_splits)

lemma sorted_snoc_last:
  "sorted_wrt (<) (map rf_index (fs @ [f])) \<Longrightarrow>
   sorted_wrt (<) (map rf_index fs) \<and> (fs = [] \<or> rf_index (last fs) < rf_index f)"
  by (cases fs rule: rev_cases) (auto simp: sorted_wrt_append)

lemma feed_facts_at:
  "sorted_wrt (<) (map rf_index fs) \<Longrightarrow> \<exists>s. feed_facts fs feed_init = Inr s \<and> feed_at fs s"
proof (induction fs rule: rev_induct)
  case Nil
  then show ?case
    by (simp add: feed_at_def feed_init_def feed_spec_def class_count_def tool_seen_def)
next
  case (snoc f fs)
  from sorted_snoc_last [OF snoc.prems] have order: "sorted_wrt (<) (map rf_index fs)"
    "fs = [] \<or> rf_index (last fs) < rf_index f" by auto
  from snoc.IH [OF order(1)] obtain s where s: "feed_facts fs feed_init = Inr s" "feed_at fs s" by blast
  from feed_fact_at [OF s(2) order(2)] s(1) show ?case by (auto simp: feed_facts_append)
qed

text \<open>The first place where the indices do not increase.\<close>

fun first_disorder :: "received_fact list \<Rightarrow> (nat \<times> nat) option" where
  "first_disorder (a # b # fs) =
     (if rf_index b \<le> rf_index a then Some (rf_index a, rf_index b) else first_disorder (b # fs))"
| "first_disorder fs = None"

lemma first_disorder_None: "first_disorder fs = None \<Longrightarrow> sorted_wrt (<) (map rf_index fs)"
proof (induction fs rule: first_disorder.induct)
  case (1 a b fs)
  then have "rf_index a < rf_index b" "sorted_wrt (<) (map rf_index (b # fs))" by (auto split: if_splits)
  then show ?case by auto
qed simp_all

lemma first_disorder_Some:
  "first_disorder fs = Some (p, c) \<Longrightarrow>
   \<exists>xs a b ys. fs = xs @ [a, b] @ ys \<and> sorted_wrt (<) (map rf_index (xs @ [a])) \<and>
     rf_index a = p \<and> rf_index b = c \<and> c \<le> p"
proof (induction fs rule: first_disorder.induct)
  case (1 a b fs)
  show ?case
  proof (cases "rf_index b \<le> rf_index a")
    case True
    with "1.prems" show ?thesis
      by - (rule exI [of _ "[]"], rule exI [of _ a], rule exI [of _ b], auto)
  next
    case False
    with "1.prems" "1.IH" obtain xs a' b' ys where
      x: "b # fs = xs @ [a', b'] @ ys" "sorted_wrt (<) (map rf_index (xs @ [a']))"
        "rf_index a' = p" "rf_index b' = c" "c \<le> p" by auto
    from x(1,2) False have "\<forall>y \<in> set (xs @ [a']). rf_index a < rf_index y"
      by (cases xs) auto
    with x have "sorted_wrt (<) (map rf_index ((a # xs) @ [a']))" by simp
    with x show ?thesis
      by - (rule exI [of _ "a # xs"], rule exI [of _ a'], rule exI [of _ b'], simp)
  qed
qed simp_all

lemma feed_facts_disorder:
  assumes "sorted_wrt (<) (map rf_index (xs @ [a]))" and "rf_index b \<le> rf_index a"
  shows "feed_facts (xs @ [a, b] @ ys) feed_init = Inl (rf_index a, rf_index b)"
proof -
  from feed_facts_at [OF assms(1)] obtain s where s: "feed_facts (xs @ [a]) feed_init = Inr s" "feed_at (xs @ [a]) s"
    by blast
  then have "feed_fact b s = Inl (rf_index a, rf_index b)"
    using assms(2) by (simp add: feed_fact_def feed_at_def)
  then have "feed_facts (b # ys) s = Inl (rf_index a, rf_index b)" by simp
  with feed_facts_append [of "xs @ [a]" "b # ys" feed_init] s(1) show ?thesis by simp
qed

text \<open>
  C27: The auto-equip fold does what its documentation says, on every stream: it refuses the first
  pair of indices that do not increase, and otherwise decides fact by fact, from the facts before it
  only: the ordinal is the number of earlier items of the class, hands and rune slots are its
  remainder, and a rune is placed once a workshop tool came before it.
\<close>

theorem equip_decisions_reference:
  "equip_decisions fs =
     (case first_disorder fs of None \<Rightarrow> Inr (feed_spec fs) | Some pair \<Rightarrow> Inl pair)"
proof (cases "first_disorder fs")
  case None
  from feed_facts_at [OF first_disorder_None [OF None]] None show ?thesis
    by (auto simp: equip_decisions_def feed_at_def)
next
  case (Some pair)
  obtain p c where pc: "pair = (p, c)" by fastforce
  with first_disorder_Some [of fs p c] Some obtain xs a b ys where
    "fs = xs @ [a, b] @ ys" "sorted_wrt (<) (map rf_index (xs @ [a]))" "rf_index a = p" "rf_index b = c" "c \<le> p"
    by auto
  with feed_facts_disorder [of xs a b ys] Some pc show ?thesis by (simp add: equip_decisions_def)
qed

end
