(* ===== verification/BbDeath.thy ===== *)
theory BbDeath
  imports BbPlan
begin

text \<open>
  The local-death detector of the Bloodborne client
  (\<open>LocalDeathObserver\<close> in \<open>crates/bb-archipelago/src/client_loop.rs\<close>) and the durable
  decision what a qualifying death does (grace, amnesty, broadcast).
\<close>

section \<open>The edge detector\<close>

definition DEATH_CONFIRM_POLLS :: nat where "DEATH_CONFIRM_POLLS = 2"
definition ALIVE_ARM_POLLS :: nat where "ALIVE_ARM_POLLS = 2"
definition ECHO_SUPPRESSION_POLLS :: nat where "ECHO_SUPPRESSION_POLLS = 20"

datatype vital_phase = UnknownPhase | Alive | Dead

datatype local_death_edge = LocalDeath | IncomingEcho

record death_observer =
  do_phase :: vital_phase
  do_streak :: nat
  do_echo_budget :: nat

definition observer_init :: death_observer where
  "observer_init = \<lparr>do_phase = UnknownPhase, do_streak = 0, do_echo_budget = 0\<rparr>"

definition expect_incoming_kill :: "death_observer \<Rightarrow> death_observer" where
  "expect_incoming_kill o' = o'\<lparr>do_echo_budget := ECHO_SUPPRESSION_POLLS\<rparr>"

definition observe_hp :: "nat option \<Rightarrow> death_observer \<Rightarrow> local_death_edge option \<times> death_observer" where
  "observe_hp reading ob =
     (case reading of
        None \<Rightarrow> (None, ob\<lparr>do_phase := UnknownPhase, do_streak := 0\<rparr>)
      | Some hp \<Rightarrow>
          let ob1 = ob\<lparr>do_echo_budget := do_echo_budget ob - 1\<rparr>;
              target = (if hp = 0 then Dead else Alive)
          in if target = do_phase ob1 then (None, ob1\<lparr>do_streak := 0\<rparr>)
             else
               let ob2 = ob1\<lparr>do_streak := min 255 (do_streak ob1 + 1)\<rparr>;
                   required = (if target = Dead then DEATH_CONFIRM_POLLS else ALIVE_ARM_POLLS)
               in if do_streak ob2 < required then (None, ob2)
                  else
                    let previous = do_phase ob2;
                        ob3 = ob2\<lparr>do_phase := target, do_streak := 0\<rparr>
                    in case target of
                         Alive \<Rightarrow> (None, ob3\<lparr>do_echo_budget := 0\<rparr>)
                       | Dead \<Rightarrow>
                           if previous = Alive
                           then (Some (if 0 < do_echo_budget ob3 then IncomingEcho else LocalDeath),
                                 ob3\<lparr>do_echo_budget := 0\<rparr>)
                           else (None, ob3)
                       | UnknownPhase \<Rightarrow> (None, ob3))"

fun observe_all :: "nat option list \<Rightarrow> death_observer \<Rightarrow> local_death_edge option list" where
  "observe_all [] ob = []"
| "observe_all (r # rs) ob = (case observe_hp r ob of (e, ob') \<Rightarrow> e # observe_all rs ob')"

text \<open>
  What a reading sequence shows on its own. The last two readings decide the believed phase; between
  two believed phases a single deviating reading changes nothing.
\<close>

fun believed :: "nat option list \<Rightarrow> vital_phase \<times> nat" where
  "believed [] = (UnknownPhase, 0)"
| "believed (r # past) =
     (case r of
        None \<Rightarrow> (UnknownPhase, 0)
      | Some hp \<Rightarrow>
          (case believed past of (ph, n) \<Rightarrow>
             let t = (if hp = 0 then Dead else Alive)
             in if t = ph then (ph, 0) else if n = 0 then (ph, 1) else (t, 0)))"

text \<open>The argument of \<open>believed\<close> is the history, latest reading first.\<close>

lemma observe_believed:
  assumes "believed past = (do_phase ob, do_streak ob)" and "observe_hp r ob = (e, ob')"
  shows "believed (r # past) = (do_phase ob', do_streak ob')"
    "(e \<noteq> None) = (fst (believed past) = Alive \<and> fst (believed (r # past)) = Dead)"
    "do_streak ob \<le> 1 \<Longrightarrow> do_streak ob' \<le> 1"
proof -
  have "do_streak ob \<le> 1"
    using assms(1)
  proof (cases past)
    case (Cons a list)
    then show ?thesis using assms(1)
      by (auto simp: Let_def split: option.splits prod.splits if_splits)
  qed simp
  then have n: "do_streak ob = 0 \<or> do_streak ob = 1" by auto
  show "believed (r # past) = (do_phase ob', do_streak ob')"
    "(e \<noteq> None) = (fst (believed past) = Alive \<and> fst (believed (r # past)) = Dead)"
    "do_streak ob \<le> 1 \<Longrightarrow> do_streak ob' \<le> 1"
    using assms n
    by (auto simp: observe_hp_def Let_def DEATH_CONFIRM_POLLS_def ALIVE_ARM_POLLS_def
        split: option.splits if_splits vital_phase.splits)
qed

text \<open>The believed phase changes only on observable readings, and to the phase the last one shows.\<close>

lemma believed_streak: "snd (believed past) \<le> 1"
  by (induction past) (auto simp: Let_def split: option.splits prod.splits)

lemma believed_dead_cases:
  assumes "fst (believed (r # past)) = Dead" and "fst (believed past) = Alive"
  shows "r = Some 0 \<and> hd past = Some 0 \<and> past \<noteq> []"
proof -
  obtain n where b: "believed past = (Alive, n)" using assms(2) by (cases "believed past") auto
  with assms(1) have r: "r = Some 0" "n \<noteq> 0"
    by (auto simp: Let_def split: option.splits if_splits)
  from b obtain q past' where past: "past = q # past'" by (cases past) auto
  obtain ph' n' where b': "believed past' = (ph', n')" by fastforce
  from b b' past r(2) show ?thesis
    by (auto simp: r(1) Let_def split: option.splits if_splits)
qed

text \<open>Behind every believed life there is a living reading, with no unobservable poll since.\<close>

lemma believed_alive_seen:
  "fst (believed past) = Alive \<Longrightarrow>
   \<exists>j < length past. (\<exists>hp. past ! j = Some hp \<and> hp \<noteq> 0) \<and> (\<forall>i \<le> j. past ! i \<noteq> None)"
proof (induction past)
  case (Cons r past)
  obtain ph n where b: "believed past = (ph, n)" by fastforce
  from Cons.prems obtain hp where r: "r = Some hp" by (cases r) auto
  show ?case
  proof (cases "hp = 0")
    case False
    with r show ?thesis by (intro exI [of _ 0]) auto
  next
    case True
    with Cons.prems b r have "ph = Alive" by (auto simp: Let_def split: if_splits)
    with Cons.IH b obtain j where j: "j < length past" "\<exists>hp. past ! j = Some hp \<and> hp \<noteq> 0"
      "\<forall>i \<le> j. past ! i \<noteq> None" by auto
    from j r have "\<forall>i \<le> Suc j. (r # past) ! i \<noteq> None"
      by (auto simp: nth_Cons split: nat.split)
    with j(1,2) show ?thesis by (intro exI [of _ "Suc j"]) simp
  qed
qed simp

lemma observe_all_length [simp]: "length (observe_all rs ob) = length rs"
  by (induction rs arbitrary: ob) (auto split: prod.split)

lemma observe_all_believed:
  "believed past = (do_phase ob, do_streak ob) \<Longrightarrow> k < length rs \<Longrightarrow>
   (observe_all rs ob ! k \<noteq> None) =
     (fst (believed (rev (take k rs) @ past)) = Alive \<and> fst (believed (rev (take (Suc k) rs) @ past)) = Dead)"
proof (induction rs arbitrary: ob past k)
  case (Cons r rs)
  obtain e ob' where o': "observe_hp r ob = (e, ob')" by fastforce
  note step = observe_believed [OF Cons.prems(1) o']
  show ?case
  proof (cases k)
    case 0
    then show ?thesis using step(2) o' by simp
  next
    case (Suc j)
    with Cons.IH [OF step(1), of j] Cons.prems(2) o' show ?thesis by simp
  qed
qed simp

section \<open>The echo latch\<close>

datatype death_event = Poll "nat option" | IncomingKill

fun watch :: "death_event list \<Rightarrow> death_observer \<Rightarrow> local_death_edge list" where
  "watch [] ob = []"
| "watch (IncomingKill # es) ob = watch es (expect_incoming_kill ob)"
| "watch (Poll r # es) ob =
     (case observe_hp r ob of
        (None, ob') \<Rightarrow> watch es ob'
      | (Some e, ob') \<Rightarrow> e # watch es ob')"

lemma observe_budget:
  assumes "observe_hp r ob = (e, ob')"
  shows "do_echo_budget ob' \<le> do_echo_budget ob"
    "e = Some IncomingEcho \<Longrightarrow> 0 < do_echo_budget ob \<and> do_echo_budget ob' = 0"
    "e = Some LocalDeath \<Longrightarrow> do_echo_budget ob \<le> 1"
  using assms
  by (auto simp: observe_hp_def Let_def split: option.splits if_splits vital_phase.splits)

lemma watch_echoes_bounded:
  "length (filter (\<lambda>e. e = IncomingEcho) (watch es ob))
     \<le> length (filter (\<lambda>e. e = IncomingKill) es) + (if 0 < do_echo_budget ob then 1 else 0)"
proof (induction es ob rule: watch.induct)
  case (3 r es ob)
  obtain e ob' where o': "observe_hp r ob = (e, ob')" by fastforce
  note b = observe_budget [OF o']
  show ?case
  proof (cases e)
    case None
    with o' "3.IH"(1) [OF o' [symmetric] None] b(1) show ?thesis by (auto split: if_splits)
  next
    case (Some d)
    with o' "3.IH"(2) [OF o' [symmetric] Some] b show ?thesis by (cases d) (auto split: if_splits)
  qed
qed (auto split: if_splits)

section \<open>Grace and amnesty\<close>

text \<open>
  The durable part of \<open>record_qualifying_local_death\<close>; a session without DeathLink is \<open>Disabled\<close>
  before it gets here.
\<close>

datatype amnesty_decision = Disabled | Graced | Forgiven nat nat | SendDeath

definition death_decision :: "bool \<Rightarrow> nat \<Rightarrow> slot_ledger \<Rightarrow> amnesty_decision \<times> slot_ledger" where
  "death_decision grace allowance s =
     (if grace \<and> \<not> sl_death_link_first_death_graced s
      then (Graced, s\<lparr>sl_death_link_first_death_graced := True\<rparr>)
      else if sl_death_link_amnesty_used s < allowance
      then (Forgiven (sl_death_link_amnesty_used s + 1) allowance,
            s\<lparr>sl_death_link_amnesty_used := sl_death_link_amnesty_used s + 1\<rparr>)
      else (SendDeath, s\<lparr>sl_death_link_amnesty_used := 0\<rparr>))"

fun death_decisions :: "bool \<Rightarrow> nat \<Rightarrow> nat \<Rightarrow> slot_ledger \<Rightarrow> amnesty_decision list" where
  "death_decisions grace allowance 0 s = []"
| "death_decisions grace allowance (Suc n) s =
     (case death_decision grace allowance s of (d, s') \<Rightarrow> d # death_decisions grace allowance n s')"

text \<open>The cycle: death number \<open>j\<close> after the grace is sent exactly when it completes a round of \<open>allowance + 1\<close>.\<close>

definition cycle_decision :: "nat \<Rightarrow> nat \<Rightarrow> amnesty_decision" where
  "cycle_decision allowance j =
     (if (j + 1) mod (allowance + 1) = 0 then SendDeath else Forgiven ((j + 1) mod (allowance + 1)) allowance)"

lemma death_decisions_cycle:
  "sl_death_link_amnesty_used s = j mod (allowance + 1) \<Longrightarrow>
   \<not> grace \<or> sl_death_link_first_death_graced s \<Longrightarrow>
   death_decisions grace allowance n s = map (cycle_decision allowance) [j..<j + n]"
proof (induction n arbitrary: s j)
  case (Suc n)
  have used: "j mod (allowance + 1) \<le> allowance" using mod_less_divisor [of "allowance + 1" j] by linarith
  have step: "death_decision grace allowance s =
      (cycle_decision allowance j, s\<lparr>sl_death_link_amnesty_used := Suc j mod (allowance + 1)\<rparr>)"
    using Suc.prems used
    by (auto simp: death_decision_def cycle_decision_def mod_Suc le_less)
  have "death_decisions grace allowance n (s\<lparr>sl_death_link_amnesty_used := Suc j mod (allowance + 1)\<rparr>)
      = map (cycle_decision allowance) [Suc j..<Suc j + n]"
    using Suc.prems(2) by (intro Suc.IH) auto
  then show ?case by (simp add: step upt_conv_Cons del: upt_Suc)
qed simp

lemma death_decisions_graced:
  assumes "\<not> sl_death_link_first_death_graced s" and "sl_death_link_amnesty_used s = 0"
  shows "death_decisions True allowance (Suc n) s = Graced # map (cycle_decision allowance) [0..<n]"
  using death_decisions_cycle [of "s\<lparr>sl_death_link_first_death_graced := True\<rparr>" 0 allowance True n] assms
  by (simp add: death_decision_def)

lemma death_edge_facts:
  assumes "k < length rs"
  shows "(observe_all rs observer_init ! k \<noteq> None) \<longleftrightarrow>
      fst (believed (rev (take k rs))) = Alive \<and> fst (believed (rev (take (Suc k) rs))) = Dead"
    and "observe_all rs observer_init ! k \<noteq> None \<Longrightarrow>
      0 < k \<and> rs ! k = Some 0 \<and> rs ! (k - 1) = Some 0 \<and>
      (\<exists>j < k. (\<exists>hp. rs ! j = Some hp \<and> hp \<noteq> 0) \<and> (\<forall>i. j \<le> i \<and> i \<le> k \<longrightarrow> rs ! i \<noteq> None))"
proof -
  show edge: "(observe_all rs observer_init ! k \<noteq> None) \<longleftrightarrow>
      fst (believed (rev (take k rs))) = Alive \<and> fst (believed (rev (take (Suc k) rs))) = Dead"
    using observe_all_believed [of "[]" observer_init k rs] assms by (simp add: observer_init_def)
  let ?past = "rev (take k rs)"
  have split: "rev (take (Suc k) rs) = rs ! k # ?past"
    using assms by (simp add: take_Suc_conv_app_nth)
  assume "observe_all rs observer_init ! k \<noteq> None"
  with edge split have alive: "fst (believed ?past) = Alive" and dead: "fst (believed (rs ! k # ?past)) = Dead"
    by simp_all
  from believed_dead_cases [OF dead alive] have zero: "rs ! k = Some 0" "hd ?past = Some 0" "?past \<noteq> []" by auto
  then have k: "0 < k" by auto
  have nth: "?past ! i = rs ! (k - Suc i)" if "i < k" for i
    using that assms by (simp add: rev_nth)
  have prev: "rs ! (k - 1) = Some 0" using zero(2,3) nth [OF k] by (simp add: hd_conv_nth)
  from believed_alive_seen [OF alive] assms obtain j where j: "j < k"
    "\<exists>hp. ?past ! j = Some hp \<and> hp \<noteq> 0" "\<forall>i \<le> j. ?past ! i \<noteq> None" by auto
  have "rs ! i \<noteq> None" if "k - Suc j \<le> i" "i \<le> k" for i
  proof (cases "i = k")
    case True
    then show ?thesis using zero by simp
  next
    case False
    with that j(1) nth [of "k - Suc i"] j(3) [rule_format, of "k - Suc i"] show ?thesis by auto
  qed
  moreover have "\<exists>hp. rs ! (k - Suc j) = Some hp \<and> hp \<noteq> 0" using j(1,2) nth by auto
  moreover have "k - Suc j < k" using k by auto
  ultimately show "0 < k \<and> rs ! k = Some 0 \<and> rs ! (k - 1) = Some 0 \<and>
      (\<exists>j < k. (\<exists>hp. rs ! j = Some hp \<and> hp \<noteq> 0) \<and> (\<forall>i. j \<le> i \<and> i \<le> k \<longrightarrow> rs ! i \<noteq> None))"
    using k zero prev by blast
qed


section \<open>Properties\<close>

text \<open>
  C26: A death is detected at a poll exactly when the debounced belief goes from alive to dead there.
  Then this poll and the one before it read zero, a living reading precedes them, and no unobservable
  poll lies between: a load, a menu or one torn read is never a death.
\<close>

theorem death_edge_spec:
  assumes "k < length rs"
  shows "((observe_all rs observer_init ! k \<noteq> None) \<longleftrightarrow>
       fst (believed (rev (take k rs))) = Alive \<and> fst (believed (rev (take (Suc k) rs))) = Dead) \<and>
     (observe_all rs observer_init ! k \<noteq> None \<longrightarrow>
       0 < k \<and> rs ! k = Some 0 \<and> rs ! (k - 1) = Some 0 \<and>
       (\<exists>j < k. (\<exists>hp. rs ! j = Some hp \<and> hp \<noteq> 0) \<and> (\<forall>i. j \<le> i \<and> i \<le> k \<longrightarrow> rs ! i \<noteq> None)))"
  using death_edge_facts [OF assms] by blast

lemma death_edge_spec_witness:
  "observe_all [Some 9, Some 9, Some 0, Some 0] observer_init ! 3 = Some LocalDeath \<and>
   believed (rev [Some 9, Some 9, Some 0]) = (Alive, 1)"
proof -
  have run: "observe_all [Some 9, Some 9, Some 0, Some 0] observer_init = [None, None, None, Some LocalDeath]"
    by code_simp
  then have "observe_all [Some 9, Some 9, Some 0, Some 0] observer_init ! 3 \<noteq> None" by simp
  with death_edge_spec [of 3 "[Some 9, Some 9, Some 0, Some 0]"]
  have "fst (believed (rev (take 3 [Some 9, Some 9, Some 0, Some 0]))) = Alive" by simp
  with run show ?thesis by (simp add: Let_def)
qed

text \<open>
  Arming needs two readings of one kind only from a believed phase: with nothing believed, a dead
  reading followed by a single living one already arms the detector.
\<close>

lemma one_living_reading_arms:
  "do_phase (snd (observe_hp (Some 9) (snd (observe_hp (Some 0) observer_init)))) = Alive"
  by code_simp

text \<open>
  Every incoming kill excuses at most one death: over any sequence of polls and kills the
  suppressed deaths are no more than the kills issued, so the latch never swallows a second one.
\<close>

theorem echoes_at_most_kills:
  "length (filter (\<lambda>e. e = IncomingEcho) (watch es observer_init))
     \<le> length (filter (\<lambda>e. e = IncomingKill) es)"
  using watch_echoes_bounded [of es observer_init] by (simp add: observer_init_def)

text \<open>
  With an allowance of \<open>a\<close> forgiven deaths the qualifying deaths of a fresh slot are decided in
  rounds of \<open>a + 1\<close>: \<open>a\<close> are forgiven, counted from one, the next is sent; a configured grace
  takes the first death of the slot out of the count, once.
\<close>

theorem amnesty_cycle:
  "death_decisions False allowance n default_slot = map (cycle_decision allowance) [0..<n] \<and>
   death_decisions True allowance (Suc n) default_slot = Graced # map (cycle_decision allowance) [0..<n]"
  using death_decisions_cycle [of default_slot 0 allowance False n]
    death_decisions_graced [of default_slot allowance n]
  by (simp add: default_slot_def)

end
