(* ===== verification/BbLoop.thy ===== *)
theory BbLoop
  imports BbDeath
begin

text \<open>
  The client loop of the Bloodborne client (\<open>crates/bb-archipelago/src/client_loop.rs\<close>): its state,
  the validated game context, the save watermark, the local-death poll, the per-check bonus
  ("sustain") lane and the location polls. An operation is a function from the loop's state to a
  result and the state it leaves; an early error keeps the state reached so far, as the code does.
  Every operation takes the backend's functions and the configuration as arguments. Printing to the
  console is left out.
\<close>

section \<open>The loop and its effects\<close>

text \<open>What a poll of the bonus lane reports; the client keeps the last retirement as a notice.\<close>

datatype sustain_poll =
    SustainIdle
  | SustainPending
  | SustainCompleted int
  | SustainRetired int bool string

record 'b client_loop =
  lp_backend :: 'b
  lp_ledger :: receive_ledger
  lp_location_identity :: "string option"
  lp_true_streaks :: "int \<Rightarrow> nat option"
  lp_location_retries :: "int \<Rightarrow> (nat \<times> nat) option"
  lp_last_outcome :: watermark_outcome
  lp_watermark_notice :: "watermark_outcome option"
  lp_sustain_pending_polls :: "(int \<times> nat) option"
  lp_sustain_notice :: "sustain_poll option"
  lp_vial_recovery_checked :: bool
  lp_upgrade_notice :: "string option"
  lp_death_observer :: death_observer

definition client_loop_new :: "'b \<Rightarrow> receive_ledger \<Rightarrow> 'b client_loop" where
  "client_loop_new b l =
     \<lparr>lp_backend = b, lp_ledger = l, lp_location_identity = None, lp_true_streaks = (\<lambda>_. None),
      lp_location_retries = (\<lambda>_. None), lp_last_outcome = Resume, lp_watermark_notice = None,
      lp_sustain_pending_polls = None, lp_sustain_notice = None,
      lp_vial_recovery_checked = False, lp_upgrade_notice = None, lp_death_observer = observer_init\<rparr>"

type_synonym ('b, 'a) act = "'b client_loop \<Rightarrow> (bb_error + 'a) \<times> 'b client_loop"

definition ret :: "'a \<Rightarrow> ('b, 'a) act" where "ret a lp = (Inr a, lp)"
definition throw :: "bb_error \<Rightarrow> ('b, 'a) act" where "throw e lp = (Inl e, lp)"

definition bail :: "string \<Rightarrow> ('b, 'a) act" where "bail m = throw (Message m)"

text \<open>The \<open>?\<close> operator: an error ends the operation.\<close>

definition seq :: "('b, 'a) act \<Rightarrow> ('a \<Rightarrow> ('b, 'c) act) \<Rightarrow> ('b, 'c) act" where
  "seq m f lp = (case m lp of (Inl e, lp') \<Rightarrow> (Inl e, lp') | (Inr a, lp') \<Rightarrow> f a lp')"

text \<open>A call whose result the code matches on, error included.\<close>

definition attempt :: "('b, 'a) act \<Rightarrow> ('b, bb_error + 'a) act" where
  "attempt m lp = (case m lp of (r, lp') \<Rightarrow> (Inr r, lp'))"

definition look :: "('b client_loop \<Rightarrow> 'a) \<Rightarrow> ('b, 'a) act" where
  "look f lp = (Inr (f lp), lp)"

definition change :: "('b client_loop \<Rightarrow> 'b client_loop) \<Rightarrow> ('b, unit) act" where
  "change f lp = (Inr (), f lp)"

definition call :: "('b, 'a) call \<Rightarrow> ('b, 'a) act" where
  "call c lp = (case c (lp_backend lp) of (r, b) \<Rightarrow> (r, lp\<lparr>lp_backend := b\<rparr>))"

definition save :: "'b backend \<Rightarrow> ('b, unit) act" where
  "save io lp = call (b_save io (lp_ledger lp)) lp"

text \<open>The session's slot: \<open>ledger.slot(..)\<close> and \<open>ledger.slot_mut(..)\<close>, which creates it.\<close>

definition the_slot :: "runtime_config \<Rightarrow> 'b client_loop \<Rightarrow> slot_ledger option" where
  "the_slot cfg lp = slot_of (lp_ledger lp) (rc_seed_name cfg) (rc_slot_name cfg)"

definition slot_or_default :: "runtime_config \<Rightarrow> 'b client_loop \<Rightarrow> slot_ledger" where
  "slot_or_default cfg lp = (case the_slot cfg lp of None \<Rightarrow> default_slot | Some s \<Rightarrow> s)"

definition on_slot :: "runtime_config \<Rightarrow> (slot_ledger \<Rightarrow> (bb_error + 'a) \<times> slot_ledger) \<Rightarrow> ('b, 'a) act" where
  "on_slot cfg f lp =
     (fst (f (slot_or_default cfg lp)),
      lp\<lparr>lp_ledger := slot_mut (\<lambda>s. snd (f s)) (rc_seed_name cfg) (rc_slot_name cfg) (lp_ledger lp)\<rparr>)"

text \<open>
  The common pattern: change the slot, then write the file when the result asks for it. A refused
  change writes nothing.
\<close>

definition commit_if ::
  "'b backend \<Rightarrow> runtime_config \<Rightarrow> ('a \<Rightarrow> bool) \<Rightarrow> (slot_ledger \<Rightarrow> (bb_error + 'a) \<times> slot_ledger)
     \<Rightarrow> ('b, 'a) act" where
  "commit_if io cfg P f =
     seq (on_slot cfg f) (\<lambda>r. seq (if P r then save io else ret ()) (\<lambda>_. ret r))"

definition commit_get ::
  "'b backend \<Rightarrow> runtime_config \<Rightarrow> ('a \<Rightarrow> bool) \<Rightarrow> (slot_ledger \<Rightarrow> 'a \<times> slot_ledger) \<Rightarrow> ('b, 'a) act" where
  "commit_get io cfg P f = commit_if io cfg P (\<lambda>s. (Inr (fst (f s)), snd (f s)))"

definition commit :: "'b backend \<Rightarrow> runtime_config \<Rightarrow> (slot_ledger \<Rightarrow> slot_ledger) \<Rightarrow> ('b, unit) act" where
  "commit io cfg f = commit_if io cfg (\<lambda>_. True) (\<lambda>s. (Inr (), f s))"

text \<open>A ledger operation that may refuse, with its message as the error.\<close>

definition try_slot :: "(slot_ledger \<Rightarrow> string + slot_ledger) \<Rightarrow> slot_ledger \<Rightarrow> (bb_error + unit) \<times> slot_ledger" where
  "try_slot f s = (case f s of Inl e \<Rightarrow> (Inl (Message e), s) | Inr s' \<Rightarrow> (Inr (), s'))"

definition commit_try ::
  "'b backend \<Rightarrow> runtime_config \<Rightarrow> (slot_ledger \<Rightarrow> string + slot_ledger) \<Rightarrow> ('b, unit) act" where
  "commit_try io cfg f = commit_if io cfg (\<lambda>_. True) (try_slot f)"

text \<open>The one-shot notices, drained by the main loop.\<close>

definition take_upgrade_notice :: "('b, string option) act" where
  "take_upgrade_notice = seq (look lp_upgrade_notice) (\<lambda>n.
     seq (change (\<lambda>lp. lp\<lparr>lp_upgrade_notice := None\<rparr>)) (\<lambda>_. ret n))"

definition take_sustain_notice :: "('b, sustain_poll option) act" where
  "take_sustain_notice = seq (look lp_sustain_notice) (\<lambda>n.
     seq (change (\<lambda>lp. lp\<lparr>lp_sustain_notice := None\<rparr>)) (\<lambda>_. ret n))"

definition take_watermark_notice :: "('b, watermark_outcome option) act" where
  "take_watermark_notice = seq (look lp_watermark_notice) (\<lambda>n.
     seq (change (\<lambda>lp. lp\<lparr>lp_watermark_notice := None\<rparr>)) (\<lambda>_. ret n))"

section \<open>Printing\<close>

text \<open>Rust's debug form of a string.\<close>

definition debug_char :: "char \<Rightarrow> string" where
  "debug_char c =
     (if c = CHR 0x22 then [CHR 0x5C, CHR 0x22]
      else if c = CHR 0x5C then [CHR 0x5C, CHR 0x5C]
      else if c = CHR 0x0A then [CHR 0x5C, CHR ''n'']
      else if c = CHR 0x0D then [CHR 0x5C, CHR ''r'']
      else if c = CHR 0x09 then [CHR 0x5C, CHR ''t'']
      else if c = CHR 0x00 then [CHR 0x5C, CHR ''0'']
      else if (of_char c :: nat) < 32 \<or> (of_char c :: nat) = 127
      then CHR 0x5C # ''u{'' @ show_hex (of_char c) @ ''}''
      else [c])"

definition debug_str :: "string \<Rightarrow> string" where
  "debug_str s = CHR 0x22 # concat (map debug_char s) @ [CHR 0x22]"

definition grant_tag :: "nat \<Rightarrow> string" where
  "grant_tag index = ''ap_'' @ show_nat index"

section \<open>The game context\<close>

definition rebind_action :: "nat \<Rightarrow> string \<Rightarrow> string \<Rightarrow> operator_action" where
  "rebind_action now previous identity =
     \<lparr>oa_timestamp_ms = now, oa_command = ''rebind-auto'', oa_argument = 0,
      oa_resolved_name = previous @ '' -> '' @ identity\<rparr>"

definition bind_identity :: "'b backend \<Rightarrow> runtime_config \<Rightarrow> string \<Rightarrow> ('b, unit) act" where
  "bind_identity io cfg identity =
     seq (look (\<lambda>lp. (the_slot cfg lp, b_timestamp_ms io (lp_backend lp)))) (\<lambda>(slot, now).
       case Option.bind slot sl_bound_save_identity of
         None \<Rightarrow> commit io cfg (\<lambda>s. s\<lparr>sl_bound_save_identity := Some identity\<rparr>)
       | Some previous \<Rightarrow>
           if previous = identity then ret ()
           else commit io cfg (\<lambda>s. s\<lparr>sl_bound_save_identity := Some identity,
                  sl_operator_actions := sl_operator_actions s @ [rebind_action now previous identity]\<rparr>))"

definition require_runtime_context ::
  "'b backend \<Rightarrow> runtime_config \<Rightarrow> string \<Rightarrow> ('b, string option) act" where
  "require_runtime_context io cfg operation =
     seq (call (b_location_context io)) (\<lambda>context.
       case context of
         None \<Rightarrow> bail (operation @ '' is disarmed: no validated gameplay/save identity'')
       | Some c \<Rightarrow>
           if \<not> lc_gameplay_ready c then ret None
           else if (case rc_expected_save_identity cfg of
                      None \<Rightarrow> False | Some expected \<Rightarrow> lc_save_identity c \<noteq> expected)
           then bail (operation @ '' refused save identity '' @ debug_str (lc_save_identity c) @
                      ''; expected '' @ debug_str (the (rc_expected_save_identity cfg)))
           else seq (bind_identity io cfg (lc_save_identity c)) (\<lambda>_. ret (Some (lc_save_identity c))))"

section \<open>The save watermark\<close>

definition reconcile_watermark :: "'b backend \<Rightarrow> runtime_config \<Rightarrow> ('b, watermark_outcome) act" where
  "reconcile_watermark io cfg =
     seq (look (\<lambda>lp. case the_slot cfg lp of None \<Rightarrow> False | Some s \<Rightarrow> sl_save_watermark s \<noteq> None)) (\<lambda>active.
     seq (call (b_read_save_watermark io)) (\<lambda>observed.
       if \<not> active \<and> observed = None then ret Resume
       else
         seq (commit_get io cfg (\<lambda>outcome. outcome \<noteq> Resume) (reconcile_save_watermark observed)) (\<lambda>outcome.
         seq (change (\<lambda>lp. if outcome \<noteq> lp_last_outcome lp
                           then lp\<lparr>lp_last_outcome := outcome, lp_watermark_notice := Some outcome\<rparr>
                           else lp)) (\<lambda>_.
         ret outcome))))"

section \<open>DeathLink\<close>

datatype local_death_poll = DeathIdle | SuppressedEcho | ObservedSendDisabled | Decided amnesty_decision

definition record_qualifying_local_death :: "'b backend \<Rightarrow> runtime_config \<Rightarrow> ('b, amnesty_decision) act" where
  "record_qualifying_local_death io cfg =
     (if \<not> rc_death_link cfg then ret Disabled
      else
        commit_get io cfg (\<lambda>_. True)
          (death_decision (rc_death_link_first_death_grace cfg) (rc_death_link_amnesty cfg)))"

definition observe_local_death :: "nat option \<Rightarrow> ('b, local_death_edge option) act" where
  "observe_local_death hp lp =
     (case observe_hp hp (lp_death_observer lp) of (edge, ob) \<Rightarrow> (Inr edge, lp\<lparr>lp_death_observer := ob\<rparr>))"

definition poll_local_death :: "'b backend \<Rightarrow> runtime_config \<Rightarrow> ('b, local_death_poll) act" where
  "poll_local_death io cfg =
     (if \<not> rc_death_link cfg then ret DeathIdle
      else
        seq (call (b_observe_player_hp io)) (\<lambda>hp.
        seq (observe_local_death hp) (\<lambda>edge.
          case edge of
            None \<Rightarrow> ret DeathIdle
          | Some IncomingEcho \<Rightarrow> ret SuppressedEcho
          | Some LocalDeath \<Rightarrow>
              if \<not> rc_death_link_send cfg then ret ObservedSendDisabled
              else seq (record_qualifying_local_death io cfg) (\<lambda>d. ret (Decided d)))))"

definition receive_death_link :: "'b backend \<Rightarrow> runtime_config \<Rightarrow> ('b, bool) act" where
  "receive_death_link io cfg =
     (if \<not> rc_death_link cfg then ret False
      else
        seq (call (b_death_link_kill io)) (\<lambda>killed.
        seq (if killed then change (\<lambda>lp. lp\<lparr>lp_death_observer := expect_incoming_kill (lp_death_observer lp)\<rparr>)
             else ret ()) (\<lambda>_.
        ret killed)))"

section \<open>The goal\<close>

definition victory :: "runtime_config \<Rightarrow> 'b client_loop \<Rightarrow> victory_record option" where
  "victory cfg lp = Option.bind (the_slot cfg lp) sl_victory"

definition victory_step :: "victory_record \<Rightarrow> slot_ledger \<Rightarrow> (bb_error + bool) \<times> slot_ledger" where
  "victory_step record s =
     (case sl_victory s of
        Some existing \<Rightarrow>
          if vr_goal_location existing = vr_goal_location record then (Inr False, s)
          else (Inl (Message (''victory record belongs to goal location '' @
                  show_int (vr_goal_location existing) @ ''; refusing replacement with '' @
                  show_int (vr_goal_location record))), s)
      | None \<Rightarrow> (Inr True, s\<lparr>sl_victory := Some record\<rparr>))"

definition record_victory :: "'b backend \<Rightarrow> runtime_config \<Rightarrow> victory_record \<Rightarrow> ('b, bool) act" where
  "record_victory io cfg record = commit_if io cfg (\<lambda>fresh. fresh) (victory_step record)"

end
