(* ===== verification/BbSustain.thy ===== *)
theory BbSustain
  imports BbLoop
begin

text \<open>
  The per-check bonus ("sustain") lane of \<open>client_loop.rs\<close>: bonuses are queued by location, one is
  delivered at a time through the native lane, a stuck one is retired after a bounded number of
  polls, and rewards that need an owned Blood Vial wait for one. A ledger key is the location, or its
  negation for the restored vial. Keys are integers; the code's \<open>abs\<close> overflows at the smallest
  \<open>i64\<close> only.
\<close>

definition SUSTAIN_PENDING_POLL_LIMIT :: nat where "SUSTAIN_PENDING_POLL_LIMIT = 600"
definition QUICKSILVER_BULLET_GOODS_ID :: nat where "QUICKSILVER_BULLET_GOODS_ID = 900"
definition QUICKSILVER_BULLET_RAW_DESCRIPTOR :: nat where "QUICKSILVER_BULLET_RAW_DESCRIPTOR = 0xB0000384"
definition GOODS_NORMALIZED_PREFIX :: nat where "GOODS_NORMALIZED_PREFIX = 0x40000000"

text \<open>The prefix has no bit in common with a goods id, so the code's bitwise or is a sum.\<close>

definition BLOOD_VIAL_NORMALIZED_ID :: nat where "BLOOD_VIAL_NORMALIZED_ID = GOODS_NORMALIZED_PREFIX + 0x3E8"

definition proven_absent_vial_refusal :: "delivery_record \<Rightarrow> string \<Rightarrow> nat \<Rightarrow> nat \<Rightarrow> bool" where
  "proven_absent_vial_refusal r tag raw quantity \<longleftrightarrow>
     dr_tag r = tag \<and>
     is_absent_vial_refusal tag (dr_terminal_status r) (dr_terminal_detail r) \<and>
     dr_item_id_raw r = raw \<and> dr_item_id_normalized r = BLOOD_VIAL_NORMALIZED_ID \<and>
     dr_quantity r = quantity \<and> dr_observed_before r = Some 0 \<and>
     dr_expected_after r = Some quantity \<and> dr_lane r = None \<and> dr_source r = None \<and>
     dr_native_result r = None \<and> \<not> dr_execution_evidence r \<and> dr_readbacks r = [] \<and>
     dr_readbacks_seen r = 0 \<and> dr_verify_polls r = 0 \<and> \<not> dr_replanned_to_delta r"

definition vial_capacity_detail :: "string \<Rightarrow> string" where
  "vial_capacity_detail tag =
     ''tag='' @ tag @ '' Vial stack has no room before native grant; no command submitted''"

section \<open>The queue\<close>

definition sustain_open :: "slot_ledger \<Rightarrow> int \<Rightarrow> bool" where
  "sustain_open s key \<longleftrightarrow>
     \<not> bs_member (sl_deferred_sustain_vials s) key \<and> \<not> bs_member (sl_deferred_sustain_capacity s) key \<and>
     \<not> bm_contains (sl_blocked_sustain_storage s) key"

definition sustain_command_in_flight :: "runtime_config \<Rightarrow> 'b client_loop \<Rightarrow> bool" where
  "sustain_command_in_flight cfg lp =
     (case the_slot cfg lp of
        None \<Rightarrow> False
      | Some s \<Rightarrow> \<exists>e \<in> set (entries (sl_pending_sustain s)). snd e \<noteq> None \<and> sustain_open s (fst e))"

definition next_sustain_of :: "slot_ledger \<Rightarrow> (int \<times> nat option) option" where
  "next_sustain_of s =
     (let ready = filter (\<lambda>e. sustain_open s (fst e)) (entries (sl_pending_sustain s))
      in case find (\<lambda>e. snd e \<noteq> None) ready of
           Some e \<Rightarrow> Some e
         | None \<Rightarrow> (case ready of [] \<Rightarrow> None | e # _ \<Rightarrow> Some e))"

definition next_sustain :: "runtime_config \<Rightarrow> 'b client_loop \<Rightarrow> (int \<times> nat option) option" where
  "next_sustain cfg lp = Option.bind (the_slot cfg lp) next_sustain_of"

definition sustain_binding :: "runtime_config \<Rightarrow> int \<Rightarrow> runtime_item_binding option" where
  "sustain_binding cfg key =
     (case (if key < 0 then (case rc_sustain_items cfg of [] \<Rightarrow> None | b # _ \<Rightarrow> Some b)
            else (case rc_sustain_items cfg of [] \<Rightarrow> None | bs \<Rightarrow> Some (last bs))) of
        Some b \<Rightarrow> Some b
      | None \<Rightarrow> rc_sustain_item cfg)"

definition sustain_descriptor :: "runtime_config \<Rightarrow> int \<Rightarrow> nat \<times> nat" where
  "sustain_descriptor cfg key =
     (case sustain_binding cfg key of
        Some b \<Rightarrow> (rb_raw_descriptor b, rb_normalized_item_id b)
      | None \<Rightarrow> (QUICKSILVER_BULLET_RAW_DESCRIPTOR, GOODS_NORMALIZED_PREFIX + QUICKSILVER_BULLET_GOODS_ID))"

definition suppressed_location :: "runtime_config \<Rightarrow> int \<Rightarrow> bool" where
  "suppressed_location cfg location \<longleftrightarrow>
     (\<exists>b \<in> set (rc_locations cfg). lb_ap_location_id b = location \<and> lb_vanilla_award_suppressed b)"

definition sustain_keys :: "runtime_config \<Rightarrow> int \<Rightarrow> int list" where
  "sustain_keys cfg location =
     (if rc_sustain_items cfg = [] then [location] else [- location, location])"

definition queue_key :: "int \<Rightarrow> bool \<times> slot_ledger \<Rightarrow> bool \<times> slot_ledger" where
  "queue_key key acc =
     (case acc of (added, s) \<Rightarrow>
        if \<not> bs_member (sl_completed_sustain s) key \<and> \<not> bm_contains (sl_pending_sustain s) key
        then (True, s\<lparr>sl_pending_sustain := bm_insert key None (sl_pending_sustain s)\<rparr>)
        else (added, s))"

definition queue_location :: "runtime_config \<Rightarrow> int \<Rightarrow> int list \<times> slot_ledger \<Rightarrow> int list \<times> slot_ledger" where
  "queue_location cfg location acc =
     (case acc of (queued, s) \<Rightarrow>
        (case fold queue_key (sustain_keys cfg location) (False, s) of (added, s') \<Rightarrow>
           (if added then queued @ [location] else queued, s')))"

definition queue_locations :: "runtime_config \<Rightarrow> int list \<Rightarrow> slot_ledger \<Rightarrow> int list \<times> slot_ledger" where
  "queue_locations cfg locations s =
     fold (queue_location cfg) (filter (suppressed_location cfg) locations) ([], s)"

definition queue_sustain_for_checks :: "'b backend \<Rightarrow> runtime_config \<Rightarrow> int list \<Rightarrow> ('b, int list) act" where
  "queue_sustain_for_checks io cfg locations =
     commit_get io cfg (\<lambda>queued. queued \<noteq> []) (queue_locations cfg locations)"

section \<open>Rewards that wait for a vial\<close>

definition sustain_vial_tag :: "int \<Rightarrow> string" where
  "sustain_vial_tag location = ''sustain_vial_'' @ show_int location"

definition unique_proof :: "delivery_record list \<Rightarrow> string \<Rightarrow> nat \<Rightarrow> nat \<Rightarrow> nat option \<Rightarrow> bool" where
  "unique_proof records tag raw quantity ap_index =
     (case filter (\<lambda>r. dr_tag r = tag) records of
        [r] \<Rightarrow> dr_ap_index r = ap_index \<and> proven_absent_vial_refusal r tag raw quantity
      | _ \<Rightarrow> False)"

definition recovered_ap :: "delivery_record list \<Rightarrow> slot_ledger \<Rightarrow> nat list" where
  "recovered_ap records s =
     map fst (filter (\<lambda>(index, it).
        ai_item_category it = 4 \<and> ai_normalized_item_id it = BLOOD_VIAL_NORMALIZED_ID \<and>
        ai_blocked it = Some (''failed ('' @ absent_vial_detail (grant_tag index) @ '')'') \<and>
        unique_proof records (grant_tag index) (ai_raw_descriptor it) (ai_quantity it) (Some index))
       (entries (sl_acknowledged s)))"

definition recovered_sustain :: "runtime_config \<Rightarrow> delivery_record list \<Rightarrow> slot_ledger \<Rightarrow> int list" where
  "recovered_sustain cfg records s =
     filter (\<lambda>key.
        key < 0 \<and> \<not> bs_member (sl_recovered_historical_sustain_vials s) key \<and>
        \<not> bm_contains (sl_pending_sustain s) key \<and> suppressed_location cfg \<bar>key\<bar> \<and>
        snd (sustain_descriptor cfg key) = BLOOD_VIAL_NORMALIZED_ID \<and>
        unique_proof records (sustain_vial_tag \<bar>key\<bar>) (fst (sustain_descriptor cfg key)) 1 None)
       (bs_list (sl_completed_sustain s))"

definition restore_sustain :: "int \<Rightarrow> slot_ledger \<Rightarrow> slot_ledger" where
  "restore_sustain key s =
     s\<lparr>sl_completed_sustain := bs_remove key (sl_completed_sustain s),
       sl_pending_sustain := bm_insert key None (sl_pending_sustain s),
       sl_deferred_sustain_vials := bs_insert key (sl_deferred_sustain_vials s),
       sl_recovered_historical_sustain_vials := bs_insert key (sl_recovered_historical_sustain_vials s)\<rparr>"

definition recover_slot :: "runtime_config \<Rightarrow> delivery_record list \<Rightarrow> slot_ledger \<Rightarrow> slot_ledger" where
  "recover_slot cfg records s =
     fold restore_sustain (recovered_sustain cfg records s)
       (s\<lparr>sl_deferred_vial_ap := bs_extend (recovered_ap records s) (sl_deferred_vial_ap s)\<rparr>)"

text \<open>
  \<open>b_diagnostics\<close> is \<open>None\<close> when the file cannot be read or a line does not parse; both leave
  everything as it is and ask again on a later poll.
\<close>

definition recover_historical_vial_refusals :: "'b backend \<Rightarrow> runtime_config \<Rightarrow> ('b, unit) act" where
  "recover_historical_vial_refusals io cfg =
     seq (look (\<lambda>lp. (lp, the_slot cfg lp))) (\<lambda>(lp, slot).
       if lp_vial_recovery_checked lp then ret ()
       else if bm_len (lp_ledger lp) \<noteq> 1 \<or> Option.bind slot sl_bound_save_identity = None then ret ()
       else case (b_diagnostics io (lp_backend lp), slot) of
         (Some records, Some s) \<Rightarrow>
           seq (change (\<lambda>lp. lp\<lparr>lp_vial_recovery_checked := True\<rparr>)) (\<lambda>_.
             if recovered_ap records s = [] \<and> recovered_sustain cfg records s = [] then ret ()
             else commit io cfg (recover_slot cfg records))
       | _ \<Rightarrow> ret ())"

text \<open>The last stage: the first waiting bonus whose own good can be observed is released.\<close>

fun release_capacity :: "'b backend \<Rightarrow> runtime_config \<Rightarrow> nat \<Rightarrow> int list \<Rightarrow> ('b, unit) act" where
  "release_capacity io cfg vials [] = ret ()"
| "release_capacity io cfg vials (key # keys) =
     (let normalized = snd (sustain_descriptor cfg key);
          release = commit io cfg (\<lambda>s. s\<lparr>sl_deferred_sustain_capacity :=
                      bs_remove key (sl_deferred_sustain_capacity s)\<rparr>)
      in if normalized = BLOOD_VIAL_NORMALIZED_ID
         then (if vials > 0 then release else release_capacity io cfg vials keys)
         else
           seq (call (b_observe_stack_quantity io normalized None)) (\<lambda>obs.
             case obs of
               Quantity q \<Rightarrow> release
             | _ \<Rightarrow> release_capacity io cfg vials keys))"

definition capacity_park :: "nat \<Rightarrow> slot_ledger \<Rightarrow> bool" where
  "capacity_park index s =
     (case Option.bind (bm_get (sl_acknowledged s) index) ai_blocked of
        None \<Rightarrow> False
      | Some blocked \<Rightarrow> blocked = ''vial_capacity ('' @ vial_capacity_detail (grant_tag index) @ '')'')"

definition retry_vial_ap :: "'b backend \<Rightarrow> runtime_config \<Rightarrow> slot_ledger \<Rightarrow> nat \<Rightarrow> ('b, unit) act" where
  "retry_vial_ap io cfg s index =
     seq (if capacity_park index s then ret True
          else call (b_release_preexecution_vial_refusal io (grant_tag index))) (\<lambda>released.
       if released then commit_try io cfg (requeue_blocked index) else ret ())"

definition retry_vial_sustain :: "'b backend \<Rightarrow> runtime_config \<Rightarrow> int \<Rightarrow> ('b, unit) act" where
  "retry_vial_sustain io cfg key =
     seq (call (b_release_preexecution_vial_refusal io (sustain_vial_tag \<bar>key\<bar>))) (\<lambda>released.
       if released
       then commit io cfg (\<lambda>s. s\<lparr>sl_deferred_sustain_vials := bs_remove key (sl_deferred_sustain_vials s)\<rparr>)
       else ret ())"

definition retry_with_vials :: "'b backend \<Rightarrow> runtime_config \<Rightarrow> nat \<Rightarrow> slot_ledger \<Rightarrow> ('b, unit) act" where
  "retry_with_vials io cfg vials s =
     (case (if sl_pending s = None \<and> vials > 0 then bs_list (sl_deferred_vial_ap s) else []) of
        index # _ \<Rightarrow> retry_vial_ap io cfg s index
      | [] \<Rightarrow>
          if sl_pending s \<noteq> None \<or> next_sustain_of s \<noteq> None then ret ()
          else (case (if vials > 0 then bs_list (sl_deferred_sustain_vials s) else []) of
                  key # _ \<Rightarrow> retry_vial_sustain io cfg key
                | [] \<Rightarrow> release_capacity io cfg vials (bs_list (sl_deferred_sustain_capacity s))))"

definition nothing_deferred :: "slot_ledger \<Rightarrow> bool" where
  "nothing_deferred s \<longleftrightarrow>
     bs_list (sl_deferred_vial_ap s) = [] \<and> bs_list (sl_deferred_sustain_vials s) = [] \<and>
     bs_list (sl_deferred_sustain_capacity s) = []"

definition retry_deferred_vials_if_ready :: "'b backend \<Rightarrow> runtime_config \<Rightarrow> ('b, unit) act" where
  "retry_deferred_vials_if_ready io cfg =
     seq (recover_historical_vial_refusals io cfg) (\<lambda>_.
     seq (look (the_slot cfg)) (\<lambda>slot.
       case slot of
         None \<Rightarrow> ret ()
       | Some s \<Rightarrow>
           if nothing_deferred s then ret ()
           else
             seq (attempt (require_runtime_context io cfg ''deferred Vial delivery'')) (\<lambda>ctx.
               case ctx of
                 Inr (Some _) \<Rightarrow>
                   seq (call (b_observe_stack_quantity io BLOOD_VIAL_NORMALIZED_ID None)) (\<lambda>obs.
                   seq (look (slot_or_default cfg)) (\<lambda>s.
                     retry_with_vials io cfg (case obs of Quantity q \<Rightarrow> q | _ \<Rightarrow> 0) s))
               | _ \<Rightarrow> ret ())))"

section \<open>Delivery\<close>

definition finish_sustain :: "int \<Rightarrow> slot_ledger \<Rightarrow> slot_ledger" where
  "finish_sustain key s =
     s\<lparr>sl_pending_sustain := bm_remove key (sl_pending_sustain s),
       sl_completed_sustain := bs_insert key (sl_completed_sustain s)\<rparr>"

definition set_sustain_polls :: "(int \<times> nat) option \<Rightarrow> ('b, unit) act" where
  "set_sustain_polls p = change (\<lambda>lp. lp\<lparr>lp_sustain_pending_polls := p\<rparr>)"

definition retire_sustain :: "'b backend \<Rightarrow> runtime_config \<Rightarrow> int \<Rightarrow> bool \<Rightarrow> string \<Rightarrow> ('b, sustain_poll) act" where
  "retire_sustain io cfg key withdrawn reason =
     seq (commit io cfg (finish_sustain key)) (\<lambda>_.
     seq (set_sustain_polls None) (\<lambda>_.
     seq (change (\<lambda>lp. lp\<lparr>lp_sustain_notice := Some (SustainRetired \<bar>key\<bar> withdrawn reason)\<rparr>)) (\<lambda>_.
     ret (SustainRetired \<bar>key\<bar> withdrawn reason))))"

definition sustain_tag :: "int \<Rightarrow> string" where
  "sustain_tag key =
     (if key < 0 then sustain_vial_tag \<bar>key\<bar> else ''sustain_'' @ show_int \<bar>key\<bar>)"

definition set_sustain_baseline :: "int \<Rightarrow> nat option \<Rightarrow> slot_ledger \<Rightarrow> slot_ledger" where
  "set_sustain_baseline key b s = s\<lparr>sl_pending_sustain := bm_insert key b (sl_pending_sustain s)\<rparr>"

text \<open>The baseline of the command, or none when there is no trustworthy reading yet.\<close>

definition sustain_expected ::
  "'b backend \<Rightarrow> runtime_config \<Rightarrow> int \<Rightarrow> nat option \<Rightarrow> ('b, nat option) act" where
  "sustain_expected io cfg key recorded =
     seq (case recorded of
            Some _ \<Rightarrow> call (b_grant_may_have_applied io (sustain_tag key))
          | None \<Rightarrow> ret False) (\<lambda>binding.
       case (if binding then recorded else None) of
         Some v \<Rightarrow> ret (Some v)
       | None \<Rightarrow>
           seq (call (b_observe_stack_quantity io (snd (sustain_descriptor cfg key)) None)) (\<lambda>obs.
             case obs of
               Quantity v \<Rightarrow>
                 seq (commit io cfg (set_sustain_baseline key (Some v))) (\<lambda>_. ret (Some v))
             | NotReady \<Rightarrow> ret None
             | Unsupported \<Rightarrow> ret (Some 0)))"

definition sustain_grant :: "runtime_config \<Rightarrow> int \<Rightarrow> nat \<Rightarrow> item_grant" where
  "sustain_grant cfg key base =
     \<lparr>ig_raw_descriptor = fst (sustain_descriptor cfg key),
      ig_normalized_item_id = snd (sustain_descriptor cfg key), ig_item_category = 4, ig_quantity = 1,
      ig_expected_before = base, ig_reinforcement_level = None, ig_tag = sustain_tag key\<rparr>"

definition count_pending_poll :: "int \<Rightarrow> (int \<times> nat) option \<Rightarrow> nat" where
  "count_pending_poll key p =
     (case p of Some (same, polls) \<Rightarrow> if same = key then saturating_add_u32 polls 1 else 1 | None \<Rightarrow> 1)"

definition sustain_still_pending :: "'b backend \<Rightarrow> runtime_config \<Rightarrow> int \<Rightarrow> ('b, sustain_poll) act" where
  "sustain_still_pending io cfg key =
     seq (look (\<lambda>lp. count_pending_poll key (lp_sustain_pending_polls lp))) (\<lambda>polls.
     seq (set_sustain_polls (Some (key, polls))) (\<lambda>_.
       if polls < SUSTAIN_PENDING_POLL_LIMIT then ret SustainPending
       else
         seq (call (b_retire_grant io (sustain_tag key) ''native grant timed out'')) (\<lambda>withdrawn.
         retire_sustain io cfg key withdrawn ''native grant timed out'')))"

definition sustain_failed :: "'b backend \<Rightarrow> runtime_config \<Rightarrow> int \<Rightarrow> bb_error \<Rightarrow> ('b, sustain_poll) act" where
  "sustain_failed io cfg key error =
     (case terminal_of error of
        None \<Rightarrow> throw error
      | Some failure \<Rightarrow>
          if key < 0 \<and> snd (sustain_descriptor cfg key) = BLOOD_VIAL_NORMALIZED_ID \<and>
             is_absent_vial_refusal (sustain_tag key) (gf_status failure) (gf_detail failure)
          then seq (commit io cfg (\<lambda>s. (set_sustain_baseline key None s)\<lparr>sl_deferred_sustain_vials :=
                      bs_insert key (sl_deferred_sustain_vials s)\<rparr>)) (\<lambda>_.
               seq (set_sustain_polls None) (\<lambda>_. ret SustainPending))
          else if contains_sub (gf_detail failure) ''storage_retry_exhausted''
          then seq (commit io cfg (\<lambda>s. (set_sustain_baseline key None s)\<lparr>sl_blocked_sustain_storage :=
                      bm_insert key (gf_detail failure) (sl_blocked_sustain_storage s)\<rparr>)) (\<lambda>_.
               seq (set_sustain_polls None) (\<lambda>_. ret SustainPending))
          else retire_sustain io cfg key False ''native grant failed terminally'')"

definition submit_sustain :: "'b backend \<Rightarrow> runtime_config \<Rightarrow> int \<Rightarrow> nat \<Rightarrow> ('b, sustain_poll) act" where
  "submit_sustain io cfg key v =
     seq (attempt (call (b_grant_item io (sustain_grant cfg key v)))) (\<lambda>progress.
       case progress of
         Inr Pending \<Rightarrow> sustain_still_pending io cfg key
       | Inl error \<Rightarrow> sustain_failed io cfg key error
       | Inr Complete \<Rightarrow>
           seq (commit io cfg (finish_sustain key)) (\<lambda>_.
           seq (set_sustain_polls None) (\<lambda>_. ret (SustainCompleted \<bar>key\<bar>))))"

definition deliver_sustain ::
  "'b backend \<Rightarrow> runtime_config \<Rightarrow> int \<Rightarrow> nat option \<Rightarrow> ('b, sustain_poll) act" where
  "deliver_sustain io cfg key recorded =
     seq (sustain_expected io cfg key recorded) (\<lambda>base.
       case base of None \<Rightarrow> ret SustainPending | Some v \<Rightarrow> submit_sustain io cfg key v)"

definition withdraw_sustain :: "'b backend \<Rightarrow> runtime_config \<Rightarrow> int \<Rightarrow> ('b, sustain_poll) act" where
  "withdraw_sustain io cfg key =
     seq (call (b_withdraw_unwitnessed_grant io (sustain_tag key))) (\<lambda>withdrawn.
     seq (if withdrawn then commit io cfg (set_sustain_baseline key None) else ret ()) (\<lambda>_.
     ret SustainPending))"

definition poll_sustain_row ::
  "'b backend \<Rightarrow> runtime_config \<Rightarrow> int \<Rightarrow> nat option \<Rightarrow> ('b, sustain_poll) act" where
  "poll_sustain_row io cfg key recorded =
     seq (require_runtime_context io cfg ''pickup sustain delivery'') (\<lambda>ctx.
       case ctx of
         None \<Rightarrow> withdraw_sustain io cfg key
       | Some _ \<Rightarrow>
           seq (reconcile_watermark io cfg) (\<lambda>outcome.
             if outcome = Hold then ret SustainPending else deliver_sustain io cfg key recorded))"

definition poll_sustain :: "'b backend \<Rightarrow> runtime_config \<Rightarrow> ('b, sustain_poll) act" where
  "poll_sustain io cfg =
     seq (retry_deferred_vials_if_ready io cfg) (\<lambda>_.
     seq (look (next_sustain cfg)) (\<lambda>next.
       case next of
         None \<Rightarrow> ret SustainIdle
       | Some row \<Rightarrow> poll_sustain_row io cfg (fst row) (snd row)))"

section \<open>The queue is idempotent\<close>

definition sustain_known :: "slot_ledger \<Rightarrow> int \<Rightarrow> bool" where
  "sustain_known s k \<longleftrightarrow> bs_member (sl_completed_sustain s) k \<or> bm_contains (sl_pending_sustain s) k"

lemma queue_key_known: "sustain_known s k \<Longrightarrow> queue_key k (b, s) = (b, s)"
  by (auto simp: queue_key_def sustain_known_def)

lemma queue_key_keeps: "queue_key k (b, s) = (b', s') \<Longrightarrow> sustain_known s j \<or> j = k \<Longrightarrow> sustain_known s' j"
  by (auto simp: queue_key_def sustain_known_def bm_contains_def split: if_splits)

lemma fold_queue_key:
  "fold queue_key ks (b, s) = (b', s') \<Longrightarrow> sustain_known s j \<or> j \<in> set ks \<Longrightarrow> sustain_known s' j"
proof (induction ks arbitrary: b s)
  case (Cons k ks)
  obtain b1 s1 where q: "queue_key k (b, s) = (b1, s1)" by fastforce
  with Cons.prems Cons.IH [of b1 s1] queue_key_keeps [OF q] show ?case by auto
qed simp

lemma fold_queue_known: "(\<forall>k \<in> set ks. sustain_known s k) \<Longrightarrow> fold queue_key ks (b, s) = (b, s)"
  by (induction ks) (simp_all add: queue_key_known)

lemma queue_location_keeps:
  "queue_location cfg l (q, s) = (q', s') \<Longrightarrow>
   sustain_known s j \<or> j \<in> set (sustain_keys cfg l) \<Longrightarrow> sustain_known s' j"
  by (auto simp: queue_location_def dest: fold_queue_key split: prod.splits)

lemma fold_queue_location:
  "fold (queue_location cfg) ls (q, s) = (q', s') \<Longrightarrow>
   sustain_known s j \<or> (\<exists>l \<in> set ls. j \<in> set (sustain_keys cfg l)) \<Longrightarrow> sustain_known s' j"
proof (induction ls arbitrary: q s)
  case (Cons l ls)
  obtain q1 s1 where c: "queue_location cfg l (q, s) = (q1, s1)" by fastforce
  with Cons.prems Cons.IH [of q1 s1] queue_location_keeps [OF c] show ?case by auto
qed simp

lemma fold_queue_location_known:
  "(\<forall>l \<in> set ls. \<forall>k \<in> set (sustain_keys cfg l). sustain_known s k) \<Longrightarrow>
   fold (queue_location cfg) ls (q, s) = (q, s)"
  by (induction ls) (simp_all add: queue_location_def fold_queue_known)

lemma queue_locations_again:
  assumes "queue_locations cfg locations s = (q, s')"
  shows "queue_locations cfg locations s' = ([], s')"
proof -
  have "\<forall>l \<in> set (filter (suppressed_location cfg) locations). \<forall>k \<in> set (sustain_keys cfg l).
      sustain_known s' k"
    using assms fold_queue_location [of cfg "filter (suppressed_location cfg) locations" "[]" s q s']
    by (auto simp: queue_locations_def)
  then show ?thesis by (simp add: queue_locations_def fold_queue_location_known)
qed

end
