(* ===== verification/BbLocations.thy ===== *)
theory BbLocations
  imports BbSustain
begin

text \<open>
  The location polls of \<open>client_loop.rs\<close>: a check is reported after its event flag has read true on
  enough consecutive polls of one save, and again with a doubling backoff until the server has it.
  Times are milliseconds of the loop's clock; streaks are the code's saturating bytes.
\<close>

definition LOCATION_RETRY_INITIAL :: nat where "LOCATION_RETRY_INITIAL = 1000"
definition LOCATION_RETRY_MAX :: nat where "LOCATION_RETRY_MAX = 30000"

text \<open>The debounced state of a poll: streaks, retries and the checks reported so far.\<close>

record location_poll =
  lo_streaks :: "int \<Rightarrow> nat option"
  lo_retries :: "int \<Rightarrow> (nat \<times> nat) option"
  lo_newly :: "int list"

definition drop_location :: "int \<Rightarrow> location_poll \<Rightarrow> location_poll" where
  "drop_location i p = p\<lparr>lo_streaks := (lo_streaks p)(i := None), lo_retries := (lo_retries p)(i := None)\<rparr>"

definition retry_location :: "nat \<Rightarrow> int \<Rightarrow> location_poll \<Rightarrow> location_poll" where
  "retry_location now i p =
     (case lo_retries p i of
        None \<Rightarrow>
          p\<lparr>lo_newly := lo_newly p @ [i],
            lo_retries := (lo_retries p)(i \<mapsto> (now + LOCATION_RETRY_INITIAL, LOCATION_RETRY_INITIAL))\<rparr>
      | Some (next_attempt, delay) \<Rightarrow>
          if next_attempt \<le> now
          then let delay' = min (delay * 2) LOCATION_RETRY_MAX
               in p\<lparr>lo_newly := lo_newly p @ [i], lo_retries := (lo_retries p)(i \<mapsto> (now + delay', delay'))\<rparr>
          else p)"

definition location_true :: "nat \<Rightarrow> nat \<Rightarrow> int \<Rightarrow> location_poll \<Rightarrow> location_poll" where
  "location_true debounce now i p =
     (let streak = min 255 (or_zero (lo_streaks p i) + 1);
          p1 = p\<lparr>lo_streaks := (lo_streaks p)(i \<mapsto> streak)\<rparr>
      in if debounce \<le> streak then retry_location now i p1 else p1)"

definition pending_goal :: "runtime_config \<Rightarrow> 'b client_loop \<Rightarrow> int option" where
  "pending_goal cfg lp =
     (case rc_goal_location cfg of
        None \<Rightarrow> None
      | Some goal \<Rightarrow>
          (case victory cfg lp of
             None \<Rightarrow> Some goal
           | Some v \<Rightarrow> if vr_goal_location v \<noteq> goal then Some goal else None))"

definition skip_location :: "int set \<Rightarrow> int option \<Rightarrow> int \<Rightarrow> bool" where
  "skip_location checked goal i \<longleftrightarrow> i \<in> checked \<and> goal \<noteq> Some i"

definition location_read :: "nat \<Rightarrow> nat \<Rightarrow> int \<Rightarrow> bool option \<Rightarrow> location_poll \<Rightarrow> location_poll" where
  "location_read debounce now i read p =
     (if read = Some True then location_true debounce now i p else drop_location i p)"

text \<open>The loop over the bindings; an error of the flag accessor ends it.\<close>

fun location_scan ::
  "'b backend \<Rightarrow> nat \<Rightarrow> nat \<Rightarrow> int set \<Rightarrow> int option \<Rightarrow> location_binding list \<Rightarrow> location_poll
     \<Rightarrow> ('b, location_poll) act" where
  "location_scan io debounce now checked goal [] p = ret p"
| "location_scan io debounce now checked goal (b # bs) p =
     (let i = lb_ap_location_id b
      in if skip_location checked goal i then location_scan io debounce now checked goal bs (drop_location i p)
         else
           seq (call (b_read_event_flag io (lb_event_flag b))) (\<lambda>read.
             location_scan io debounce now checked goal bs (location_read debounce now i read p)))"

definition clear_locations :: "('b, unit) act" where
  "clear_locations = change (\<lambda>lp. lp\<lparr>lp_true_streaks := (\<lambda>_. None), lp_location_retries := (\<lambda>_. None)\<rparr>)"

definition reset_location_retry_backoff :: "('b, unit) act" where
  "reset_location_retry_backoff = change (\<lambda>lp. lp\<lparr>lp_location_retries := (\<lambda>_. None)\<rparr>)"

definition poll_start :: "'b client_loop \<Rightarrow> location_poll" where
  "poll_start lp = \<lparr>lo_streaks = lp_true_streaks lp, lo_retries = lp_location_retries lp, lo_newly = []\<rparr>"

definition scan_bindings :: "'b backend \<Rightarrow> runtime_config \<Rightarrow> int set \<Rightarrow> nat \<Rightarrow> ('b, int list) act" where
  "scan_bindings io cfg checked now =
     seq (look (\<lambda>lp. (pending_goal cfg lp, poll_start lp))) (\<lambda>(goal, p0).
     seq (attempt (location_scan io (rc_location_check_debounce cfg) now checked goal (rc_locations cfg) p0)) (\<lambda>r.
       case r of
         Inl e \<Rightarrow> seq clear_locations (\<lambda>_. throw e)
       | Inr p \<Rightarrow>
           seq (change (\<lambda>lp. lp\<lparr>lp_true_streaks := lo_streaks p, lp_location_retries := lo_retries p\<rparr>))
             (\<lambda>_. ret (lo_newly p))))"

definition follow_identity :: "string \<Rightarrow> ('b, unit) act" where
  "follow_identity identity =
     seq (look lp_location_identity) (\<lambda>old.
       if old = Some identity then ret ()
       else seq clear_locations (\<lambda>_. change (\<lambda>lp. lp\<lparr>lp_location_identity := Some identity\<rparr>)))"

definition poll_locations_at :: "'b backend \<Rightarrow> runtime_config \<Rightarrow> int set \<Rightarrow> nat \<Rightarrow> ('b, int list) act" where
  "poll_locations_at io cfg checked now =
     seq (attempt (require_runtime_context io cfg ''automatic location checks'')) (\<lambda>ctx.
       case ctx of
         Inl e \<Rightarrow> seq clear_locations (\<lambda>_. throw e)
       | Inr None \<Rightarrow> seq clear_locations (\<lambda>_. ret [])
       | Inr (Some identity) \<Rightarrow>
           if rc_location_check_debounce cfg < 2
           then seq clear_locations (\<lambda>_. bail ''location_check_debounce must be at least 2'')
           else
             seq (follow_identity identity) (\<lambda>_.
             seq (reconcile_watermark io cfg) (\<lambda>outcome.
               if outcome = Hold then seq clear_locations (\<lambda>_. ret [])
               else scan_bindings io cfg checked now)))"

section \<open>Debouncing and backoff\<close>

text \<open>
  The readings of one location, poll by poll, with the polls' times: \<open>None\<close> is a poll that clears
  the location's state (no gameplay, an error, a false or unreadable flag), \<open>Some t\<close> a true reading.
\<close>

fun report_run :: "nat \<Rightarrow> int \<Rightarrow> nat option list \<Rightarrow> location_poll \<Rightarrow> bool list" where
  "report_run debounce i [] p = []"
| "report_run debounce i (r # rs) p =
     (let p1 = (case r of None \<Rightarrow> drop_location i (p\<lparr>lo_newly := []\<rparr>)
                | Some t \<Rightarrow> location_true debounce t i (p\<lparr>lo_newly := []\<rparr>))
      in (i \<in> set (lo_newly p1)) # report_run debounce i rs p1)"

definition idle_poll :: location_poll where
  "idle_poll = \<lparr>lo_streaks = (\<lambda>_. None), lo_retries = (\<lambda>_. None), lo_newly = []\<rparr>"

text \<open>Entries other than the polled location's never change.\<close>

lemma location_true_other:
  "j \<noteq> i \<Longrightarrow> lo_streaks (location_true d t i p) j = lo_streaks p j \<and>
     lo_retries (location_true d t i p) j = lo_retries p j"
  by (auto simp: location_true_def retry_location_def Let_def split: option.split)

definition streak_of :: "location_poll \<Rightarrow> int \<Rightarrow> nat" where
  "streak_of p i = or_zero (lo_streaks p i)"

lemma streak_of_newly [simp]: "streak_of (p\<lparr>lo_newly := xs\<rparr>) i = streak_of p i"
  by (simp add: streak_of_def)

definition location_inv :: "nat \<Rightarrow> int \<Rightarrow> location_poll \<Rightarrow> bool" where
  "location_inv debounce i p \<longleftrightarrow>
     (case lo_retries p i of
        None \<Rightarrow> True
      | Some (next_attempt, delay) \<Rightarrow>
          debounce \<le> streak_of p i \<and> LOCATION_RETRY_INITIAL \<le> delay \<and> delay \<le> LOCATION_RETRY_MAX)"

lemma location_true_inv:
  "location_inv d i p \<Longrightarrow> d \<le> 255 \<Longrightarrow> location_inv d i (location_true d t i p)"
  by (auto simp: location_inv_def location_true_def retry_location_def streak_of_def or_zero_def Let_def
      LOCATION_RETRY_INITIAL_def LOCATION_RETRY_MAX_def split: option.splits)

lemma drop_location_inv: "location_inv d i (drop_location i p)"
  by (simp add: location_inv_def drop_location_def)

text \<open>A true reading reports exactly when the streak is long enough and no retry is still waiting.\<close>

lemma location_true_reports:
  "i \<in> set (lo_newly (location_true d t i (p\<lparr>lo_newly := []\<rparr>))) \<longleftrightarrow>
     d \<le> min 255 (streak_of p i + 1) \<and>
     (case lo_retries p i of None \<Rightarrow> True | Some (next_attempt, delay) \<Rightarrow> next_attempt \<le> t)"
  by (auto simp: location_true_def retry_location_def streak_of_def Let_def split: option.splits)

lemma streak_of_step:
  "streak_of (location_true d t i p) i = min 255 (streak_of p i + 1)"
  "streak_of (drop_location i p) i = 0"
  by (auto simp: streak_of_def location_true_def retry_location_def drop_location_def or_zero_def Let_def
      split: option.splits)

text \<open>The length of the run of true readings that ends a history, latest reading first.\<close>

fun true_run :: "nat option list \<Rightarrow> nat" where
  "true_run [] = 0"
| "true_run (None # past) = 0"
| "true_run (Some t # past) = Suc (true_run past)"

lemma true_run_take: "n \<le> true_run past \<Longrightarrow> n \<le> length past \<and> (\<forall>r \<in> set (take n past). r \<noteq> None)"
proof (induction past arbitrary: n rule: true_run.induct)
  case (3 t past)
  then show ?case by (cases n) auto
qed simp_all

lemma report_run_length [simp]: "length (report_run d i rs p) = length rs"
  by (induction rs arbitrary: p) (simp_all add: Let_def)

lemma report_needs_run:
  "streak_of p i = min 255 (true_run past) \<Longrightarrow> d \<le> 255 \<Longrightarrow> 0 < d \<Longrightarrow> k < length rs \<Longrightarrow>
   report_run d i rs p ! k \<Longrightarrow> d \<le> true_run (rev (take (Suc k) rs) @ past)"
proof (induction rs arbitrary: p past k)
  case (Cons r rs)
  define p1 where "p1 = (case r of None \<Rightarrow> drop_location i (p\<lparr>lo_newly := []\<rparr>)
                | Some t \<Rightarrow> location_true d t i (p\<lparr>lo_newly := []\<rparr>))"
  have s: "streak_of p1 i = min 255 (true_run (r # past))"
    using Cons.prems(1) by (auto simp: p1_def streak_of_step split: option.split)
  have run: "report_run d i (r # rs) p = (i \<in> set (lo_newly p1)) # report_run d i rs p1"
    by (simp add: p1_def Let_def)
  show ?case
  proof (cases k)
    case 0
    with Cons.prems run have "i \<in> set (lo_newly p1)" by simp
    then obtain t where "r = Some t"
      by (cases r) (auto simp: p1_def drop_location_def)
    with \<open>i \<in> set (lo_newly p1)\<close> have "d \<le> min 255 (streak_of p i + 1)"
      by (simp add: p1_def location_true_reports)
    with Cons.prems(1) 0 \<open>r = Some t\<close> show ?thesis by simp
  next
    case (Suc j)
    with Cons.IH [OF s] Cons.prems run show ?thesis by simp
  qed
qed simp

section \<open>One poll, location by location\<close>

definition location_view :: "int \<Rightarrow> location_poll \<Rightarrow> nat option \<times> (nat \<times> nat) option \<times> bool" where
  "location_view i p = (lo_streaks p i, lo_retries p i, i \<in> set (lo_newly p))"

lemma location_read_other: "j \<noteq> i \<Longrightarrow> location_view i (location_read d now j r p) = location_view i p"
  by (auto simp: location_view_def location_read_def location_true_def retry_location_def drop_location_def
      Let_def split: option.split)

lemma drop_location_other: "j \<noteq> i \<Longrightarrow> location_view i (drop_location j p) = location_view i p"
  by (simp add: location_view_def drop_location_def)

lemma location_read_view:
  "location_view i p = location_view i q \<Longrightarrow>
   location_view i (location_read d now i r p) = location_view i (location_read d now i r q)"
  by (auto simp: location_view_def location_read_def location_true_def retry_location_def drop_location_def
      Let_def split: option.split)

lemma drop_location_view:
  "location_view i p = location_view i q \<Longrightarrow> location_view i (drop_location i p) = location_view i (drop_location i q)"
  by (auto simp: location_view_def drop_location_def)

text \<open>A location the list does not name keeps its state; a named one is read at most once.\<close>

lemma location_scan_other:
  "location_scan io d now checked goal bs p lp = (Inr p', lp') \<Longrightarrow> i \<notin> lb_ap_location_id ` set bs \<Longrightarrow>
   location_view i p' = location_view i p"
proof (induction bs arbitrary: p lp)
  case (Cons b bs)
  then show ?case
    by (auto simp: Let_def seq_def call_def location_read_other drop_location_other
        split: if_splits prod.splits sum.splits)
qed (simp add: ret_def)

end
