(* ===== verification/BbItems.thy ===== *)
theory BbItems
  imports BbLocations
begin

text \<open>
  The delivery of received items in \<open>client_loop.rs\<close>: planning, the grant with its durable baseline,
  the category-8 hand-off, the equip step, the acknowledgement, and the parking of a grant that
  failed for good. \<open>poll_items\<close> moves the front of the queue by one step.
\<close>

record incoming_item =
  ii_index :: nat
  ii_ap_item_id :: int

datatype upgrade_target = Level "nat option" | HoldPlan

record completed_item =
  ci_index :: nat
  ci_ap_item_id :: int
  ci_received_level :: "nat option"
  ci_target_level :: "nat option"
  ci_delivered_level :: "nat option"
  ci_equip_target :: "equip_target option"

record blocked_item =
  bi_index :: nat
  bi_ap_item_id :: int
  bi_status :: string
  bi_detail :: string

datatype item_poll =
    ItemIdle
  | ItemPending
  | ItemHeld
  | Reconciled watermark_outcome
  | Blocked blocked_item
  | Completed completed_item

section \<open>Planning\<close>

fun index_items :: "incoming_item list \<Rightarrow> (nat, int) btree_map \<Rightarrow> string + (nat, int) btree_map" where
  "index_items [] m = Inr m"
| "index_items (it # its) m =
     (if bm_contains m (ii_index it)
      then Inl (''received item index '' @ show_nat (ii_index it) @ '' appears more than once'')
      else index_items its (bm_insert (ii_index it) (ii_ap_item_id it) m))"

definition indexed_received :: "incoming_item list \<Rightarrow> string + (nat, int) btree_map" where
  "indexed_received received = index_items received bm_empty"

fun received_facts :: "runtime_config \<Rightarrow> (nat \<times> int) list \<Rightarrow> string + received_fact list" where
  "received_facts cfg [] = Inr []"
| "received_facts cfg ((index, ap) # es) =
     (case bm_get (rc_items cfg) ap of
        None \<Rightarrow> Inl (''AP item '' @ show_int ap @ '' has no Bloodborne feed binding'')
      | Some b \<Rightarrow>
          (case received_facts cfg es of
             Inl e \<Rightarrow> Inl e
           | Inr fs \<Rightarrow> Inr (\<lparr>rf_index = index, rf_effect = binding_effect (rb_feed_effect b)\<rparr> # fs)))"

definition equip_target_for ::
  "runtime_config \<Rightarrow> (nat, int) btree_map \<Rightarrow> nat \<Rightarrow> string + equip_target option" where
  "equip_target_for cfg indexed current =
     (if \<not> rc_auto_equip cfg then Inr None
      else case received_facts cfg (filter (\<lambda>e. fst e \<le> current) (entries indexed)) of
        Inl e \<Rightarrow> Inl e
      | Inr facts \<Rightarrow>
          (case equip_decisions facts of
             Inl e \<Rightarrow> Inl (show_feed_order_error e)
           | Inr ds \<Rightarrow> Inr (map_option ed_target (find (\<lambda>d. ed_received_index d = current) ds))))"

definition upgrade_target_for :: "'b backend \<Rightarrow> runtime_config \<Rightarrow> runtime_item_binding \<Rightarrow> ('b, upgrade_target) act" where
  "upgrade_target_for io cfg b =
     (if \<not> rc_auto_upgrade cfg \<or> rb_reinforcement_level b = None then ret (Level None)
      else if is_non_upgradable_shield (rb_normalized_item_id b) (rb_reinforcement_level b)
      then ret (Level (Some 0))
      else
        seq (call (b_target_weapon_level io)) (\<lambda>target.
        seq (if target = None then call (b_upgrade_scan_ready io) else ret True) (\<lambda>ready.
        ret (if ready then Level target else HoldPlan))))"

definition show_plus :: "nat \<Rightarrow> string" where "show_plus n = CHR ''+'' # show_nat n"

text \<open>
  \<open>refresh_pending_upgrade\<close> changes the plan in place; here it returns the plan it leaves.
\<close>

definition raised_plan :: "pending_item \<Rightarrow> nat option \<Rightarrow> nat \<Rightarrow> nat \<Rightarrow> nat \<Rightarrow> pending_item" where
  "raised_plan p target raw norm level =
     p\<lparr>pi_upgrade_target_level := target, pi_reinforcement_level := Some level,
       pi_raw_descriptor := raw, pi_normalized_item_id := norm\<rparr>"

definition upgrade_overflow :: string where
  "upgrade_overflow = ''weapon reinforcement descriptor overflow or downgrade''"

definition note_upgrade :: "string \<Rightarrow> ('b, unit) act" where
  "note_upgrade n = change (\<lambda>lp. lp\<lparr>lp_upgrade_notice := Some n\<rparr>)"

definition raise_plan ::
  "'b backend \<Rightarrow> runtime_config \<Rightarrow> runtime_item_binding \<Rightarrow> pending_item \<Rightarrow> nat \<Rightarrow> nat option
     \<Rightarrow> ('b, pending_item) act" where
  "raise_plan io cfg b p received target =
     (let raised = auto_upgrade_level (rc_auto_upgrade cfg) received target;
          current = (case pi_reinforcement_level p of Some l \<Rightarrow> l | None \<Rightarrow> received)
      in if raised \<le> current then ret p
         else case reinforced_descriptor_pair (rb_raw_descriptor b) (rb_normalized_item_id b) received raised of
                None \<Rightarrow> bail upgrade_overflow
              | Some (raw, norm) \<Rightarrow>
                  seq (commit_try io cfg (raise_pending_upgrade target raw norm raised)) (\<lambda>_.
                  seq (note_upgrade (''Auto-upgrade: held AP item '' @ show_int (pi_ap_item_id p) @
                        '' at index '' @ show_nat (pi_index p) @ '' re-derived from '' @ show_plus current @
                        '' to '' @ show_plus raised @ '' before delivery.'')) (\<lambda>_.
                  ret (raised_plan p target raw norm raised))))"

definition refresh_pending_upgrade :: "'b backend \<Rightarrow> runtime_config \<Rightarrow> pending_item \<Rightarrow> ('b, pending_item) act" where
  "refresh_pending_upgrade io cfg p =
     (if pi_grant_complete p \<or> pi_observed_before p \<noteq> None then ret p
      else case bm_get (rc_items cfg) (pi_ap_item_id p) of
        None \<Rightarrow> ret p
      | Some b \<Rightarrow>
          (case rb_reinforcement_level b of
             None \<Rightarrow> ret p
           | Some received \<Rightarrow>
               seq (upgrade_target_for io cfg b) (\<lambda>t.
                 case t of
                   HoldPlan \<Rightarrow> ret p
                 | Level target \<Rightarrow> raise_plan io cfg b p received target)))"

definition plan_descriptor :: "runtime_config \<Rightarrow> runtime_item_binding \<Rightarrow> nat option \<Rightarrow> (nat \<times> nat) option" where
  "plan_descriptor cfg b target =
     (case rb_reinforcement_level b of
        None \<Rightarrow> Some (rb_raw_descriptor b, rb_normalized_item_id b)
      | Some received \<Rightarrow>
          reinforced_descriptor_pair (rb_raw_descriptor b) (rb_normalized_item_id b) received
            (auto_upgrade_level (rc_auto_upgrade cfg) received target))"

definition new_plan ::
  "runtime_config \<Rightarrow> runtime_item_binding \<Rightarrow> incoming_item \<Rightarrow> nat option \<Rightarrow> nat \<times> nat
     \<Rightarrow> equip_target option \<Rightarrow> pending_item" where
  "new_plan cfg b it target descriptor equip =
     \<lparr>pi_index = ii_index it, pi_ap_item_id = ii_ap_item_id it, pi_raw_descriptor = fst descriptor,
      pi_normalized_item_id = snd descriptor, pi_item_category = rb_item_category b,
      pi_quantity = rb_quantity b, pi_upgrade_target_level = target,
      pi_reinforcement_level = map_option
        (\<lambda>received. auto_upgrade_level (rc_auto_upgrade cfg) received target) (rb_reinforcement_level b),
      pi_equip_target = equip, pi_grant_complete = False, pi_equip_complete = False,
      pi_token_routed_to_storage = False, pi_observed_before = None\<rparr>"

definition plan_item ::
  "'b backend \<Rightarrow> runtime_config \<Rightarrow> (nat, int) btree_map \<Rightarrow> incoming_item \<Rightarrow> ('b, pending_item option) act" where
  "plan_item io cfg indexed it =
     (case bm_get (rc_items cfg) (ii_ap_item_id it) of
        None \<Rightarrow> bail (''AP item '' @ show_int (ii_ap_item_id it) @ '' has no Bloodborne binding'')
      | Some b \<Rightarrow>
          seq (upgrade_target_for io cfg b) (\<lambda>t.
            case t of
              HoldPlan \<Rightarrow>
                seq (note_upgrade (''Auto-upgrade: holding AP item '' @ show_int (ii_ap_item_id it) @
                       '' at index '' @ show_nat (ii_index it) @
                       '' until the inventory census can read the held weapon levels.'')) (\<lambda>_.
                ret None)
            | Level target \<Rightarrow>
                (case plan_descriptor cfg b target of
                   None \<Rightarrow> bail upgrade_overflow
                 | Some descriptor \<Rightarrow>
                     (case equip_target_for cfg indexed (ii_index it) of
                        Inl e \<Rightarrow> bail e
                      | Inr equip \<Rightarrow> ret (Some (new_plan cfg b it target descriptor equip))))))"

section \<open>Parked items\<close>

definition acknowledged_of :: "incoming_item \<Rightarrow> pending_item \<Rightarrow> string option \<Rightarrow> acknowledged_item" where
  "acknowledged_of it p blocked =
     \<lparr>ai_ap_item_id = ii_ap_item_id it, ai_raw_descriptor = pi_raw_descriptor p,
      ai_normalized_item_id = pi_normalized_item_id p, ai_item_category = pi_item_category p,
      ai_quantity = pi_quantity p, ai_reinforcement_level = pi_reinforcement_level p,
      ai_equip_target = pi_equip_target p, ai_blocked = blocked\<rparr>"

text \<open>
  The end of both acknowledgements: the slot, then the watermark in the save, then the file. A
  failing watermark write is reported and changes nothing.
\<close>

definition set_watermark :: "nat \<Rightarrow> slot_ledger \<Rightarrow> (bb_error + unit) \<times> slot_ledger" where
  "set_watermark index s = (Inr (), s\<lparr>sl_save_watermark := Some index\<rparr>)"

definition settle ::
  "'b backend \<Rightarrow> runtime_config \<Rightarrow> nat \<Rightarrow> (slot_ledger \<Rightarrow> string + slot_ledger) \<Rightarrow> ('b, unit) act" where
  "settle io cfg index f =
     seq (on_slot cfg (try_slot f)) (\<lambda>_.
     seq (attempt (call (b_write_save_watermark io index))) (\<lambda>written.
     seq (if written = Inr True then on_slot cfg (set_watermark index) else ret ()) (\<lambda>_.
     save io)))"

definition deferred_vial :: "nat \<Rightarrow> pending_item \<Rightarrow> grant_terminal_failure \<Rightarrow> bool" where
  "deferred_vial index p failure \<longleftrightarrow>
     pi_item_category p = 4 \<and> pi_normalized_item_id p = BLOOD_VIAL_NORMALIZED_ID \<and>
     (is_absent_vial_refusal (grant_tag index) (gf_status failure) (gf_detail failure) \<or>
      gf_status failure = ''vial_capacity'' \<and> gf_detail failure = vial_capacity_detail (grant_tag index))"

definition park_reason :: "grant_terminal_failure \<Rightarrow> string" where
  "park_reason failure = gf_status failure @ '' ('' @ gf_detail failure @ '')''"

definition park_slot ::
  "incoming_item \<Rightarrow> pending_item \<Rightarrow> grant_terminal_failure \<Rightarrow> slot_ledger \<Rightarrow> string + slot_ledger" where
  "park_slot it p failure s =
     (case acknowledge_blocked (ii_index it) (acknowledged_of it p (Some (park_reason failure))) s of
        Inl e \<Rightarrow> Inl e
      | Inr s' \<Rightarrow>
          Inr (if deferred_vial (ii_index it) p failure
               then s'\<lparr>sl_deferred_vial_ap := bs_insert (ii_index it) (sl_deferred_vial_ap s')\<rparr>
               else s'))"

definition park_terminal_grant ::
  "'b backend \<Rightarrow> runtime_config \<Rightarrow> incoming_item \<Rightarrow> pending_item \<Rightarrow> grant_terminal_failure
     \<Rightarrow> ('b, item_poll) act" where
  "park_terminal_grant io cfg it p failure =
     seq (settle io cfg (ii_index it) (park_slot it p failure)) (\<lambda>_.
     ret (Blocked \<lparr>bi_index = ii_index it, bi_ap_item_id = ii_ap_item_id it,
                  bi_status = gf_status failure, bi_detail = gf_detail failure\<rparr>))"

text \<open>A plan that must not be granted: a shield row that does not exist, or unknown evidence.\<close>

definition refused_plan :: "runtime_config \<Rightarrow> incoming_item \<Rightarrow> pending_item \<Rightarrow> grant_terminal_failure option" where
  "refused_plan cfg it p =
     (if (case pi_reinforcement_level p of None \<Rightarrow> False | Some l \<Rightarrow> 0 < l) \<and>
         is_non_upgradable_shield (pi_normalized_item_id p) (pi_reinforcement_level p)
      then Some \<lparr>gf_tag = grant_tag (ii_index it), gf_status = ''invalid_shield_plan'',
             gf_detail = ''pending plan at AP index '' @ show_nat (pi_index p) @
               '' names EquipParamWeapon row '' @ show_nat (pi_normalized_item_id p) @ '' (+'' @
               show_nat (or_zero (pi_reinforcement_level p)) @
               ''), which does not exist; verify that the earlier grant command did not execute, then `retry '' @
               show_nat (pi_index p) @ '' CONFIRM` to re-plan it at the base shield row''\<rparr>
      else case bm_get (rc_items cfg) (ii_ap_item_id it) of
        None \<Rightarrow> None
      | Some b \<Rightarrow>
          if evidence_is_known (rb_descriptor_evidence b) then None
          else (case strip_prefix ''unreviewed_attire_'' (evidence_str (rb_descriptor_evidence b)) of
            Some protector_id \<Rightarrow>
              Some \<lparr>gf_tag = grant_tag (ii_index it), gf_status = ''unreviewed_attire'',
                gf_detail = ''AP item '' @ show_int (ii_ap_item_id it) @ '' is attire (protector '' @
                  protector_id @
                  '') that this client has not reviewed for delivery; it is parked, not lost, and delivers once a client that has reviewed it is installed''\<rparr>
          | None \<Rightarrow>
              Some \<lparr>gf_tag = grant_tag (ii_index it), gf_status = ''unknown_descriptor_evidence'',
                gf_detail = ''AP item '' @ show_int (ii_ap_item_id it) @ '' carries descriptor evidence '' @
                  debug_str (evidence_str (rb_descriptor_evidence b)) @
                  '', which this client does not understand; this seed was generated by a newer world -- update the client to deliver it''\<rparr>))"

section \<open>The grant\<close>

text \<open>
  The precondition of the command: zero for flag effects and category-8 tokens, the recorded
  baseline of a command that may have applied, else a fresh reading recorded before the grant.
  \<open>None\<close> is a reading that is not ready.
\<close>

definition delivered_sum :: "runtime_config \<Rightarrow> pending_item \<Rightarrow> 'b client_loop \<Rightarrow> nat" where
  "delivered_sum cfg p lp =
     (case the_slot cfg lp of
        None \<Rightarrow> 0
      | Some s \<Rightarrow> delivered_quantity s (pi_normalized_item_id p) (pi_reinforcement_level p))"

definition observe_baseline :: "'b backend \<Rightarrow> runtime_config \<Rightarrow> pending_item \<Rightarrow> ('b, nat option) act" where
  "observe_baseline io cfg p =
     seq (call (b_observe_stack_quantity io (pi_normalized_item_id p) (pi_reinforcement_level p))) (\<lambda>obs.
       case obs of
         Quantity q \<Rightarrow> seq (commit_try io cfg (record_observed_before q)) (\<lambda>_. ret (Some q))
       | NotReady \<Rightarrow> ret None
       | Unsupported \<Rightarrow> look (\<lambda>lp. Some (delivered_sum cfg p lp)))"

definition needs_no_baseline :: "runtime_config \<Rightarrow> pending_item \<Rightarrow> bool" where
  "needs_no_baseline cfg p \<longleftrightarrow>
     pi_item_category p = 255 \<or> rc_category8_awards cfg (pi_ap_item_id p) \<noteq> None"

definition item_expected :: "'b backend \<Rightarrow> runtime_config \<Rightarrow> pending_item \<Rightarrow> ('b, nat option) act" where
  "item_expected io cfg p =
     seq (if pi_observed_before p = None then ret False
          else call (b_grant_may_have_applied io (grant_tag (pi_index p)))) (\<lambda>binding.
       if needs_no_baseline cfg p then ret (Some 0)
       else case (if binding then pi_observed_before p else None) of
         Some recorded \<Rightarrow> ret (Some recorded)
       | None \<Rightarrow> observe_baseline io cfg p)"

definition item_grant_of :: "pending_item \<Rightarrow> nat \<Rightarrow> item_grant" where
  "item_grant_of p base =
     \<lparr>ig_raw_descriptor = pi_raw_descriptor p, ig_normalized_item_id = pi_normalized_item_id p,
      ig_item_category = pi_item_category p, ig_quantity = pi_quantity p, ig_expected_before = base,
      ig_reinforcement_level = pi_reinforcement_level p, ig_tag = grant_tag (pi_index p)\<rparr>"

text \<open>After a completed grant: the plan is marked, with the storage routing of a token.\<close>

definition mark_granted :: "bool \<Rightarrow> slot_ledger \<Rightarrow> string + slot_ledger" where
  "mark_granted routed s =
     (case mark_grant_complete s of
        Inl e \<Rightarrow> Inl e
      | Inr s' \<Rightarrow> if routed then mark_token_routed_to_storage s' else Inr s')"

definition routed_to_storage :: "'b backend \<Rightarrow> runtime_config \<Rightarrow> pending_item \<Rightarrow> 'b client_loop \<Rightarrow> bool" where
  "routed_to_storage io cfg p lp \<longleftrightarrow>
     rc_category8_awards cfg (pi_ap_item_id p) \<noteq> None \<and>
     b_last_grant_went_to_storage io (grant_tag (pi_index p)) (lp_backend lp)"

text \<open>\<open>Inl\<close> is the poll's result, \<open>Inr\<close> the granted plan that goes on.\<close>

definition submit_item ::
  "'b backend \<Rightarrow> runtime_config \<Rightarrow> incoming_item \<Rightarrow> pending_item \<Rightarrow> nat
     \<Rightarrow> ('b, item_poll + pending_item) act" where
  "submit_item io cfg it p v =
     seq (attempt (call (b_grant_item io (item_grant_of p v)))) (\<lambda>progress.
       case progress of
         Inl error \<Rightarrow>
           (case terminal_of error of
              None \<Rightarrow> throw error
            | Some failure \<Rightarrow> seq (park_terminal_grant io cfg it p failure) (\<lambda>r. ret (Inl r)))
       | Inr Pending \<Rightarrow> ret (Inl ItemPending)
       | Inr Complete \<Rightarrow>
           seq (look (routed_to_storage io cfg p)) (\<lambda>routed.
           seq (commit_try io cfg (mark_granted routed)) (\<lambda>_.
           ret (Inr (p\<lparr>pi_grant_complete := True, pi_token_routed_to_storage := routed\<rparr>)))))"

definition grant_stage ::
  "'b backend \<Rightarrow> runtime_config \<Rightarrow> incoming_item \<Rightarrow> pending_item \<Rightarrow> ('b, item_poll + pending_item) act" where
  "grant_stage io cfg it p =
     (if pi_grant_complete p then ret (Inr p)
      else
        seq (item_expected io cfg p) (\<lambda>base.
          case base of None \<Rightarrow> ret (Inl ItemPending) | Some v \<Rightarrow> submit_item io cfg it p v))"

section \<open>After the grant\<close>

text \<open>The category-8 hand-off: the game's flag is up and the token is gone.\<close>

definition award_done :: "'b backend \<Rightarrow> runtime_config \<Rightarrow> pending_item \<Rightarrow> ('b, bool) act" where
  "award_done io cfg p =
     (case rc_category8_awards cfg (pi_ap_item_id p) of
        None \<Rightarrow> ret True
      | Some award \<Rightarrow>
          seq (call (b_read_event_flag io (c8_ack_flag award))) (\<lambda>flag.
            if flag \<noteq> Some True then ret False
            else
              seq (call (b_observe_stack_quantity io (GOODS_NORMALIZED_PREFIX + c8_token_goods_id award) None))
                (\<lambda>obs. ret (obs = Quantity 0))))"

definition equip_request_of :: "pending_item \<Rightarrow> equip_target \<Rightarrow> equip_request" where
  "equip_request_of p target =
     \<lparr>er_normalized_item_id = pi_normalized_item_id p, er_reinforcement_level = pi_reinforcement_level p,
      er_target = target, er_tag = grant_tag (pi_index p) @ ''_equip''\<rparr>"

text \<open>Whether the equip step is over; a failing equip is reported and the delivery stands.\<close>

definition equip_stage :: "'b backend \<Rightarrow> runtime_config \<Rightarrow> pending_item \<Rightarrow> ('b, bool) act" where
  "equip_stage io cfg p =
     (case (if pi_equip_complete p then None else pi_equip_target p) of
        None \<Rightarrow> ret True
      | Some target \<Rightarrow>
          seq (attempt (call (b_equip_item io (equip_request_of p target)))) (\<lambda>progress.
            if progress = Inr Pending then ret False
            else seq (commit_try io cfg mark_equip_complete) (\<lambda>_. ret True)))"

definition completed_of :: "runtime_config \<Rightarrow> incoming_item \<Rightarrow> pending_item \<Rightarrow> completed_item" where
  "completed_of cfg it p =
     \<lparr>ci_index = ii_index it, ci_ap_item_id = ii_ap_item_id it,
      ci_received_level = Option.bind (bm_get (rc_items cfg) (ii_ap_item_id it)) rb_reinforcement_level,
      ci_target_level = pi_upgrade_target_level p, ci_delivered_level = pi_reinforcement_level p,
      ci_equip_target = pi_equip_target p\<rparr>"

definition finish_item ::
  "'b backend \<Rightarrow> runtime_config \<Rightarrow> incoming_item \<Rightarrow> pending_item \<Rightarrow> ('b, item_poll) act" where
  "finish_item io cfg it p =
     seq (award_done io cfg p) (\<lambda>awarded.
       if \<not> awarded then ret ItemPending
       else
         seq (equip_stage io cfg p) (\<lambda>equipped.
           if \<not> equipped then ret ItemPending
           else
             seq (settle io cfg (ii_index it) (acknowledge (ii_index it) (acknowledged_of it p None))) (\<lambda>_.
             ret (Completed (completed_of cfg it p)))))"

section \<open>The poll\<close>

definition deliver_item ::
  "'b backend \<Rightarrow> runtime_config \<Rightarrow> incoming_item \<Rightarrow> pending_item \<Rightarrow> ('b, item_poll) act" where
  "deliver_item io cfg it p =
     (case refused_plan cfg it p of
        Some failure \<Rightarrow> park_terminal_grant io cfg it p failure
      | None \<Rightarrow>
          seq (grant_stage io cfg it p) (\<lambda>r.
            case r of Inl result \<Rightarrow> ret result | Inr granted \<Rightarrow> finish_item io cfg it granted))"

text \<open>The durable plan of the front item: the existing one, refreshed, or a new one.\<close>

definition ensure_plan ::
  "'b backend \<Rightarrow> runtime_config \<Rightarrow> (nat, int) btree_map \<Rightarrow> incoming_item \<Rightarrow> ('b, pending_item option) act" where
  "ensure_plan io cfg indexed it =
     seq (look (\<lambda>lp. Option.bind (the_slot cfg lp) sl_pending)) (\<lambda>existing.
       case existing of
         Some p \<Rightarrow>
           if pi_index p = ii_index it \<and> pi_ap_item_id p = ii_ap_item_id it
           then seq (refresh_pending_upgrade io cfg p) (\<lambda>p'. ret (Some p'))
           else bail ''received item does not match the durable pending plan''
       | None \<Rightarrow>
           seq (plan_item io cfg indexed it) (\<lambda>planned.
             case planned of
               None \<Rightarrow> ret None
             | Some p \<Rightarrow> seq (commit_try io cfg (begin_item p)) (\<lambda>_. ret (Some p))))"

definition deliver_front ::
  "'b backend \<Rightarrow> runtime_config \<Rightarrow> (nat, int) btree_map \<Rightarrow> incoming_item \<Rightarrow> ('b, item_poll) act" where
  "deliver_front io cfg indexed it =
     seq (reconcile_watermark io cfg) (\<lambda>outcome.
       if outcome = Hold then ret ItemHeld
       else if outcome \<noteq> Resume then ret (Reconciled outcome)
       else
         seq (ensure_plan io cfg indexed it) (\<lambda>plan.
           case plan of None \<Rightarrow> ret ItemHeld | Some p \<Rightarrow> deliver_item io cfg it p))"

definition in_flight_tag :: "runtime_config \<Rightarrow> 'b client_loop \<Rightarrow> string option" where
  "in_flight_tag cfg lp =
     (case Option.bind (the_slot cfg lp) sl_pending of
        None \<Rightarrow> None
      | Some p \<Rightarrow> if pi_grant_complete p then None else Some (grant_tag (pi_index p)))"

definition forget_observed_baseline :: "'b backend \<Rightarrow> runtime_config \<Rightarrow> ('b, unit) act" where
  "forget_observed_baseline io cfg =
     seq (commit_get io cfg (\<lambda>changed. changed) clear_observed_before) (\<lambda>_. ret ())"

definition withdraw_not_ready :: "'b backend \<Rightarrow> runtime_config \<Rightarrow> string option \<Rightarrow> ('b, item_poll) act" where
  "withdraw_not_ready io cfg in_flight =
     (case in_flight of
        None \<Rightarrow> ret ItemPending
      | Some tag \<Rightarrow>
          seq (call (b_withdraw_unwitnessed_grant io tag)) (\<lambda>withdrawn.
          seq (if withdrawn then forget_observed_baseline io cfg else ret ()) (\<lambda>_.
          ret ItemPending)))"

definition withdraw_refused :: "'b backend \<Rightarrow> string option \<Rightarrow> bb_error \<Rightarrow> ('b, item_poll) act" where
  "withdraw_refused io in_flight error =
     (case in_flight of
        None \<Rightarrow> throw error
      | Some tag \<Rightarrow>
          seq (attempt (call (b_withdraw_unwitnessed_grant io tag))) (\<lambda>r.
            case r of
              Inr True \<Rightarrow> throw (Context ''withdrew the unwitnessed pending grant command'' error)
            | Inr False \<Rightarrow> throw error
            | Inl e \<Rightarrow>
                throw (Context (''withdrawing the pending grant command after: '' @ show_error error) e)))"

definition poll_front ::
  "'b backend \<Rightarrow> runtime_config \<Rightarrow> (nat, int) btree_map \<Rightarrow> incoming_item \<Rightarrow> ('b, item_poll) act" where
  "poll_front io cfg indexed it =
     seq (look (in_flight_tag cfg)) (\<lambda>in_flight.
     seq (attempt (require_runtime_context io cfg ''received-item delivery'')) (\<lambda>ctx.
       case ctx of
         Inr (Some _) \<Rightarrow> deliver_front io cfg indexed it
       | Inr None \<Rightarrow> withdraw_not_ready io cfg in_flight
       | Inl error \<Rightarrow> withdraw_refused io in_flight error))"

text \<open>Nothing to deliver: a restored save is still noticed when a watermark is active.\<close>

definition poll_idle :: "'b backend \<Rightarrow> runtime_config \<Rightarrow> ('b, item_poll) act" where
  "poll_idle io cfg =
     seq (look (\<lambda>lp. case the_slot cfg lp of None \<Rightarrow> False | Some s \<Rightarrow> sl_save_watermark s \<noteq> None)) (\<lambda>active.
       if \<not> active then ret ItemIdle
       else
         seq (attempt (require_runtime_context io cfg ''save-watermark reconciliation'')) (\<lambda>ctx.
           case ctx of
             Inr (Some _) \<Rightarrow>
               seq (reconcile_watermark io cfg) (\<lambda>outcome.
               ret (if outcome = Resume then ItemIdle else if outcome = Hold then ItemHeld
                    else Reconciled outcome))
           | _ \<Rightarrow> ret ItemIdle))"

definition known_items :: "runtime_config \<Rightarrow> int \<Rightarrow> bool" where
  "known_items cfg ap =
     (case bm_get (rc_items cfg) ap of None \<Rightarrow> False | Some b \<Rightarrow> evidence_is_known (rb_descriptor_evidence b))"

definition requeue_compatible :: "'b backend \<Rightarrow> runtime_config \<Rightarrow> ('b, fixed_cause_requeue) act" where
  "requeue_compatible io cfg =
     seq (look (the_slot cfg)) (\<lambda>slot.
       if slot = None then ret \<lparr>fc_requeued = [], fc_deferred = []\<rparr>
       else commit_get io cfg (\<lambda>o'. fc_requeued o' \<noteq> []) (requeue_now_compatible_parks (known_items cfg)))"

text \<open>The startup unpark: both selections, saved once.\<close>

definition requeue_both :: "runtime_config \<Rightarrow> slot_ledger \<Rightarrow> fixed_cause_requeue \<times> slot_ledger" where
  "requeue_both cfg s =
     (case requeue_fixed_cause_parks s of (a, s1) \<Rightarrow>
        (case requeue_now_compatible_parks (known_items cfg) s1 of (b, s2) \<Rightarrow>
           (\<lparr>fc_requeued = fc_requeued a @ fc_requeued b, fc_deferred = fc_deferred a @ fc_deferred b\<rparr>, s2)))"

definition requeue_startup_parks :: "'b backend \<Rightarrow> runtime_config \<Rightarrow> ('b, fixed_cause_requeue) act" where
  "requeue_startup_parks io cfg =
     seq (recover_historical_vial_refusals io cfg) (\<lambda>_.
     commit_get io cfg (\<lambda>o'. fc_requeued o' \<noteq> []) (requeue_both cfg))"

definition advance_sustain :: "'b backend \<Rightarrow> runtime_config \<Rightarrow> ('b, bool) act" where
  "advance_sustain io cfg =
     seq (look (sustain_command_in_flight cfg)) (\<lambda>busy.
       if busy then seq (poll_sustain io cfg) (\<lambda>r. ret (r = SustainPending)) else ret False)"

definition poll_items :: "'b backend \<Rightarrow> runtime_config \<Rightarrow> incoming_item list \<Rightarrow> ('b, item_poll) act" where
  "poll_items io cfg received =
     seq (retry_deferred_vials_if_ready io cfg) (\<lambda>_.
     seq (requeue_compatible io cfg) (\<lambda>_.
     seq (advance_sustain io cfg) (\<lambda>waiting.
       if waiting then ret ItemPending
       else
         seq (look (\<lambda>lp. case the_slot cfg lp of None \<Rightarrow> 0 | Some s \<Rightarrow> next_index s)) (\<lambda>next.
           case indexed_received received of
             Inl e \<Rightarrow> bail e
           | Inr indexed \<Rightarrow>
               (case bm_get indexed next of
                  None \<Rightarrow> poll_idle io cfg
                | Some ap \<Rightarrow> poll_front io cfg indexed \<lparr>ii_index = next, ii_ap_item_id = ap\<rparr>)))))"

section \<open>A leftover command at startup\<close>

text \<open>The tag of the command the code withdraws; the bonus tag is built from the ledger key as it is.\<close>

definition leftover_tag :: "runtime_config \<Rightarrow> 'b client_loop \<Rightarrow> string option" where
  "leftover_tag cfg lp =
     (case in_flight_tag cfg lp of
        Some tag \<Rightarrow> Some tag
      | None \<Rightarrow>
          (case the_slot cfg lp of
             None \<Rightarrow> None
           | Some s \<Rightarrow>
               (case bm_keys (sl_pending_sustain s) of
                  key # _ \<Rightarrow> Some (''sustain_'' @ show_int key)
                | [] \<Rightarrow>
                    (case find (\<lambda>e. \<not> pi_grant_complete (snd e)) (entries (sl_operator_grants s)) of
                       Some e \<Rightarrow> Some (''operator_grant_'' @ show_int (fst e))
                     | None \<Rightarrow> None))))"

definition reconcile_pending_command :: "'b backend \<Rightarrow> runtime_config \<Rightarrow> ('b, bool) act" where
  "reconcile_pending_command io cfg =
     seq (look (leftover_tag cfg)) (\<lambda>tag.
       case tag of
         None \<Rightarrow> ret False
       | Some t \<Rightarrow> call (b_withdraw_unwitnessed_grant io t))"

end
