(* ===== verification/BbRescue.thy ===== *)
theory BbRescue
  imports BbItems
begin

text \<open>
  The operator's rescue lane of \<open>client_loop.rs\<close>: retrying and reissuing a delivery, rebinding,
  writing a contract flag, granting a contract item on its own durable lane, and the named recipes.
  Item and location names are resolved by the caller and are arguments here.
\<close>

definition operator_note :: "nat \<Rightarrow> string \<Rightarrow> int \<Rightarrow> string \<Rightarrow> slot_ledger \<Rightarrow> slot_ledger" where
  "operator_note now command argument name s =
     s\<lparr>sl_operator_actions := sl_operator_actions s @
        [\<lparr>oa_timestamp_ms = now, oa_command = command, oa_argument = argument, oa_resolved_name = name\<rparr>]\<rparr>"

text \<open>A command that waits for gameplay: an unready game is an error here.\<close>

definition require_gameplay :: "'b backend \<Rightarrow> runtime_config \<Rightarrow> string \<Rightarrow> string \<Rightarrow> ('b, string) act" where
  "require_gameplay io cfg operation waiting =
     seq (require_runtime_context io cfg operation) (\<lambda>ctx.
       case ctx of None \<Rightarrow> bail waiting | Some identity \<Rightarrow> ret identity)"

definition now_ms :: "'b backend \<Rightarrow> ('b, nat) act" where
  "now_ms io = look (\<lambda>lp. b_timestamp_ms io (lp_backend lp))"

section \<open>Parked and pending deliveries\<close>

definition rescue_retry_blocked :: "'b backend \<Rightarrow> runtime_config \<Rightarrow> nat \<Rightarrow> ('b, unit) act" where
  "rescue_retry_blocked io cfg index =
     seq (require_gameplay io cfg ''rescue delivery retry'' ''rescue delivery retry is waiting for gameplay'') (\<lambda>_.
     seq (look (\<lambda>lp. Option.bind (the_slot cfg lp) sl_pending)) (\<lambda>pending.
       case pending of
         Some p \<Rightarrow>
           bail (''parked index '' @ show_nat index @ '' is waiting behind active delivery index '' @
             show_nat (pi_index p) @
             ''; resolve the Delivery Stalled guidance first. If this client supports the parked binding now, it will retry automatically as soon as that delivery finishes'')
       | None \<Rightarrow> commit_try io cfg (requeue_blocked index)))"

definition refuse_held :: "stack_observation \<Rightarrow> string option" where
  "refuse_held obs =
     (case obs of
        Quantity 0 \<Rightarrow> None
      | Quantity held \<Rightarrow> Some (''refused: the token is held in inventory ('' @ show_nat held @
          ''); it is not lost, so reissuing would grant a duplicate'')
      | NotReady \<Rightarrow> Some ''refused: held inventory has not hydrated yet; try again shortly''
      | Unsupported \<Rightarrow> Some ''refused: this backend cannot read held inventory, so the token's absence cannot be confirmed'')"

definition refuse_stored :: "stack_observation \<Rightarrow> string option" where
  "refuse_stored obs =
     (case obs of
        Quantity 0 \<Rightarrow> None
      | Quantity stored \<Rightarrow> Some (''refused: the token is in the Hunter's Dream storage box ('' @ show_nat stored @
          ''); withdraw it instead of reissuing, or a second token would leave one stranded there'')
      | NotReady \<Rightarrow> Some ''refused: the storage box has not hydrated yet; try again shortly''
      | Unsupported \<Rightarrow> Some ''refused: this backend cannot read the storage box, so the token's absence cannot be confirmed there; withdraw/inspect it manually before trying again once a storage read is available'')"

definition refuse :: "string option \<Rightarrow> ('b, unit) act" where
  "refuse r = (case r of None \<Rightarrow> ret () | Some m \<Rightarrow> bail m)"

definition stuck_pending :: "nat \<Rightarrow> slot_ledger option \<Rightarrow> string + pending_item" where
  "stuck_pending index slot =
     (case slot of
        None \<Rightarrow> Inl ''no receive ledger exists for this seed/slot yet''
      | Some s \<Rightarrow>
          (case sl_pending s of
             None \<Rightarrow> Inl ''no pending delivery to reissue''
           | Some p \<Rightarrow>
               if pi_index p \<noteq> index
               then Inl (''index '' @ show_nat index @ '' is not the pending delivery (the front of the queue is index '' @
                      show_nat (pi_index p) @ '')'')
               else if \<not> pi_grant_complete p
               then Inl (''entry at index '' @ show_nat index @
                      '' has not completed its grant yet; this is not the lost-token case (leave menus and wait, or restart the client)'')
               else Inr p))"

definition reissue_noted :: "nat \<Rightarrow> nat \<Rightarrow> int \<Rightarrow> slot_ledger \<Rightarrow> string + slot_ledger" where
  "reissue_noted now index ap s =
     (case reissue_pending index s of
        Inl e \<Rightarrow> Inl e
      | Inr s' \<Rightarrow> Inr (operator_note now ''reissue'' ap (''index '' @ show_nat index) s'))"

definition rescue_reissue_pending :: "'b backend \<Rightarrow> runtime_config \<Rightarrow> nat \<Rightarrow> ('b, unit) act" where
  "rescue_reissue_pending io cfg index =
     seq (require_gameplay io cfg ''rescue delivery reissue'' ''rescue delivery reissue is waiting for gameplay'') (\<lambda>_.
     seq (look (\<lambda>lp. stuck_pending index (the_slot cfg lp))) (\<lambda>stuck.
       case stuck of
         Inl e \<Rightarrow> bail e
       | Inr p \<Rightarrow>
           seq (call (b_observe_stack_quantity io (pi_normalized_item_id p) (pi_reinforcement_level p))) (\<lambda>held.
           seq (refuse (refuse_held held)) (\<lambda>_.
           seq (call (b_observe_storage_quantity io (pi_normalized_item_id p) (pi_reinforcement_level p))) (\<lambda>stored.
           seq (refuse (refuse_stored stored)) (\<lambda>_.
           seq (now_ms io) (\<lambda>now.
           commit_try io cfg (reissue_noted now index (pi_ap_item_id p)))))))))"

section \<open>Bindings and flags\<close>

definition rebind_step :: "nat \<Rightarrow> slot_ledger \<Rightarrow> string option \<times> slot_ledger" where
  "rebind_step now s =
     (case sl_bound_save_identity s of
        None \<Rightarrow> (None, s)
      | Some previous \<Rightarrow> (Some previous, operator_note now ''rebind'' 0 previous (s\<lparr>sl_bound_save_identity := None\<rparr>)))"

definition rescue_rebind :: "'b backend \<Rightarrow> runtime_config \<Rightarrow> ('b, string) act" where
  "rescue_rebind io cfg =
     seq (now_ms io) (\<lambda>now.
     seq (commit_get io cfg (\<lambda>previous. previous \<noteq> None) (rebind_step now)) (\<lambda>previous.
     ret (case previous of
            None \<Rightarrow> ''No character is bound yet; the next validated gameplay observation binds.''
          | Some identity \<Rightarrow> ''released binding to '' @ identity @
              ''; load the character you mean to play and the client will bind to it'')))"

definition rescue_location_for_flag :: "runtime_config \<Rightarrow> nat \<Rightarrow> string + int" where
  "rescue_location_for_flag cfg flag =
     (case find (\<lambda>b. lb_event_flag b = flag) (rc_locations cfg) of
        None \<Rightarrow> Inl (''event flag '' @ show_nat flag @ '' is not in this seed contract'')
      | Some b \<Rightarrow> Inr (lb_ap_location_id b))"

definition rescue_set_flag :: "'b backend \<Rightarrow> runtime_config \<Rightarrow> nat \<Rightarrow> string \<Rightarrow> ('b, int) act" where
  "rescue_set_flag io cfg flag name =
     seq (require_gameplay io cfg ''rescue setflag'' ''rescue setflag is waiting for gameplay'') (\<lambda>_.
       case rescue_location_for_flag cfg flag of
         Inl e \<Rightarrow> bail e
       | Inr location \<Rightarrow>
           seq (call (b_write_event_flag io flag True)) (\<lambda>_.
           seq (now_ms io) (\<lambda>now.
           seq (commit io cfg (operator_note now ''setflag'' (int flag) name)) (\<lambda>_.
           ret location))))"

definition rescue_set_raw_flag :: "'b backend \<Rightarrow> runtime_config \<Rightarrow> nat \<Rightarrow> string \<Rightarrow> ('b, unit) act" where
  "rescue_set_raw_flag io cfg flag reason =
     seq (require_gameplay io cfg ''rescue setrawflag'' ''rescue setrawflag is waiting for gameplay'') (\<lambda>_.
     seq (call (b_write_event_flag io flag True)) (\<lambda>_.
     seq (now_ms io) (\<lambda>now.
     commit io cfg (operator_note now ''setrawflag'' (int flag) reason))))"

definition rescue_read_flag :: "'b backend \<Rightarrow> runtime_config \<Rightarrow> nat \<Rightarrow> ('b, string) act" where
  "rescue_read_flag io cfg flag =
     seq (require_gameplay io cfg ''rescue flag read'' ''rescue flag read is waiting for gameplay'') (\<lambda>_.
       if \<not> (\<exists>b \<in> set (rc_locations cfg). lb_event_flag b = flag)
       then bail (''event flag '' @ show_nat flag @ '' is not in this seed contract'')
       else
         seq (call (b_read_event_flag io flag)) (\<lambda>v.
           case v of
             None \<Rightarrow> bail ''live event-flag accessor is unavailable''
           | Some on \<Rightarrow> ret (''event flag '' @ show_nat flag @ '' = '' @ (if on then ''true'' else ''false''))))"

section \<open>The operator's grants\<close>

definition operator_plan :: "int \<Rightarrow> runtime_item_binding \<Rightarrow> pending_item" where
  "operator_plan ap b =
     \<lparr>pi_index = 0, pi_ap_item_id = ap, pi_raw_descriptor = rb_raw_descriptor b,
      pi_normalized_item_id = rb_normalized_item_id b, pi_item_category = rb_item_category b,
      pi_quantity = 1, pi_upgrade_target_level = None,
      pi_reinforcement_level = rb_reinforcement_level b, pi_equip_target = None,
      pi_grant_complete = False, pi_equip_complete = True, pi_token_routed_to_storage = False,
      pi_observed_before = None\<rparr>"

definition already_recorded :: "int \<Rightarrow> slot_ledger \<Rightarrow> bool" where
  "already_recorded ap s \<longleftrightarrow>
     bm_contains (sl_operator_grants s) ap \<or> bm_contains (sl_operator_grant_parks s) ap \<or>
     (\<exists>e \<in> set (entries (sl_acknowledged s)). ai_ap_item_id (snd e) = ap)"

definition queue_operator_grant :: "nat \<Rightarrow> string \<Rightarrow> int \<Rightarrow> runtime_item_binding \<Rightarrow> string \<Rightarrow> slot_ledger \<Rightarrow> slot_ledger" where
  "queue_operator_grant now command ap b name s =
     operator_note now command ap name
       (s\<lparr>sl_operator_grants := bm_insert ap (operator_plan ap b) (sl_operator_grants s)\<rparr>)"

definition give_step :: "nat \<Rightarrow> int \<Rightarrow> runtime_item_binding \<Rightarrow> string \<Rightarrow> slot_ledger \<Rightarrow> bool \<times> slot_ledger" where
  "give_step now ap b name s =
     (if already_recorded ap s then (False, s) else (True, queue_operator_grant now ''give'' ap b name s))"

definition rescue_give :: "'b backend \<Rightarrow> runtime_config \<Rightarrow> int \<Rightarrow> string \<Rightarrow> ('b, bool) act" where
  "rescue_give io cfg ap name =
     seq (require_gameplay io cfg ''rescue give'' ''rescue give is waiting for gameplay'') (\<lambda>_.
       case bm_get (rc_items cfg) ap of
         None \<Rightarrow> bail (''item index '' @ show_int ap @ '' is not in this seed contract'')
       | Some b \<Rightarrow>
           if \<not> evidence_is_known (rb_descriptor_evidence b)
           then bail (''item index '' @ show_int ap @ '' has no proven named mapping'')
           else seq (now_ms io) (\<lambda>now. commit_get io cfg (\<lambda>queued. queued) (give_step now ap b name)))"

definition census_candidates :: "runtime_config \<Rightarrow> (int \<times> runtime_item_binding) list" where
  "census_candidates cfg =
     filter (\<lambda>(ap, b). (rb_item_category b = 0 \<or> rb_item_category b = 1) \<and>
       evidence_is_known (rb_descriptor_evidence b)) (entries (rc_items cfg))"

definition census_one ::
  "(int \<Rightarrow> string) \<Rightarrow> nat \<Rightarrow> int \<times> runtime_item_binding \<Rightarrow> (nat \<times> nat) \<times> slot_ledger \<Rightarrow> (nat \<times> nat) \<times> slot_ledger" where
  "census_one resolve now c acc =
     (case (c, acc) of ((ap, b), (queued, skipped), s) \<Rightarrow>
        if already_recorded ap s then ((queued, skipped + 1), s)
        else ((queued + 1, skipped), queue_operator_grant now ''census'' ap b (resolve ap) s))"

definition rescue_equipment_census ::
  "'b backend \<Rightarrow> runtime_config \<Rightarrow> (int \<Rightarrow> string) \<Rightarrow> ('b, nat \<times> nat) act" where
  "rescue_equipment_census io cfg resolve =
     seq (require_gameplay io cfg ''equipment census'' ''equipment census is waiting for gameplay'') (\<lambda>_.
     seq (now_ms io) (\<lambda>now.
     commit_get io cfg (\<lambda>_. True) (\<lambda>s. fold (census_one resolve now) (census_candidates cfg) ((0, 0), s))))"

datatype operator_grant_poll =
    GrantIdle
  | GrantPending
  | WaitingForItems
  | GrantCompleted int
  | GrantParked int string string

definition update_operator_grant :: "int \<Rightarrow> (pending_item \<Rightarrow> pending_item) \<Rightarrow> slot_ledger \<Rightarrow> slot_ledger" where
  "update_operator_grant ap f s =
     (case bm_get (sl_operator_grants s) ap of
        None \<Rightarrow> s
      | Some p \<Rightarrow> s\<lparr>sl_operator_grants := bm_insert ap (f p) (sl_operator_grants s)\<rparr>)"

definition park_operator_slot :: "int \<Rightarrow> grant_terminal_failure \<Rightarrow> slot_ledger \<Rightarrow> slot_ledger" where
  "park_operator_slot ap failure s =
     s\<lparr>sl_operator_grants := bm_remove ap (sl_operator_grants s),
       sl_operator_grant_parks := bm_insert ap (park_reason failure) (sl_operator_grant_parks s)\<rparr>"

definition park_operator_grant ::
  "'b backend \<Rightarrow> runtime_config \<Rightarrow> int \<Rightarrow> grant_terminal_failure \<Rightarrow> ('b, operator_grant_poll) act" where
  "park_operator_grant io cfg ap failure =
     seq (commit io cfg (park_operator_slot ap failure)) (\<lambda>_.
     ret (GrantParked ap (gf_status failure) (gf_detail failure)))"

definition operator_tag :: "int \<Rightarrow> string" where
  "operator_tag ap = ''operator_grant_'' @ show_int ap"

definition withdraw_operator :: "'b backend \<Rightarrow> runtime_config \<Rightarrow> int \<Rightarrow> ('b, unit) act" where
  "withdraw_operator io cfg ap =
     seq (call (b_withdraw_unwitnessed_grant io (operator_tag ap))) (\<lambda>withdrawn.
       if withdrawn
       then commit io cfg (update_operator_grant ap (\<lambda>p. p\<lparr>pi_observed_before := None\<rparr>))
       else ret ())"

definition operator_expected ::
  "'b backend \<Rightarrow> runtime_config \<Rightarrow> int \<Rightarrow> pending_item \<Rightarrow> ('b, nat option) act" where
  "operator_expected io cfg ap p =
     (case pi_observed_before p of
        Some v \<Rightarrow> ret (Some v)
      | None \<Rightarrow>
          seq (call (b_observe_stack_quantity io (pi_normalized_item_id p) (pi_reinforcement_level p))) (\<lambda>obs.
            case obs of
              Quantity v \<Rightarrow>
                seq (commit io cfg (\<lambda>s. s\<lparr>sl_operator_grants :=
                       bm_insert ap (p\<lparr>pi_observed_before := Some v\<rparr>) (sl_operator_grants s)\<rparr>)) (\<lambda>_.
                ret (Some v))
            | NotReady \<Rightarrow> ret None
            | Unsupported \<Rightarrow> ret (Some 0)))"

definition operator_item_grant :: "int \<Rightarrow> pending_item \<Rightarrow> nat \<Rightarrow> item_grant" where
  "operator_item_grant ap p base =
     \<lparr>ig_raw_descriptor = pi_raw_descriptor p, ig_normalized_item_id = pi_normalized_item_id p,
      ig_item_category = pi_item_category p, ig_quantity = 1, ig_expected_before = base,
      ig_reinforcement_level = pi_reinforcement_level p, ig_tag = operator_tag ap\<rparr>"

definition submit_operator ::
  "'b backend \<Rightarrow> runtime_config \<Rightarrow> int \<Rightarrow> pending_item \<Rightarrow> nat \<Rightarrow> ('b, operator_grant_poll) act" where
  "submit_operator io cfg ap p v =
     seq (attempt (call (b_grant_item io (operator_item_grant ap p v)))) (\<lambda>progress.
       case progress of
         Inl error \<Rightarrow>
           (case terminal_of error of
              None \<Rightarrow> throw error
            | Some failure \<Rightarrow> park_operator_grant io cfg ap failure)
       | Inr Pending \<Rightarrow> ret GrantPending
       | Inr Complete \<Rightarrow>
           seq (commit io cfg (update_operator_grant ap (\<lambda>p. p\<lparr>pi_grant_complete := True\<rparr>))) (\<lambda>_.
           ret (GrantCompleted ap)))"

definition deliver_operator ::
  "'b backend \<Rightarrow> runtime_config \<Rightarrow> int \<Rightarrow> pending_item \<Rightarrow> ('b, operator_grant_poll) act" where
  "deliver_operator io cfg ap p =
     seq (operator_expected io cfg ap p) (\<lambda>base.
       case base of None \<Rightarrow> ret GrantPending | Some v \<Rightarrow> submit_operator io cfg ap p v)"

definition next_operator_grant :: "slot_ledger \<Rightarrow> (int \<times> pending_item) option" where
  "next_operator_grant s = find (\<lambda>e. \<not> pi_grant_complete (snd e)) (entries (sl_operator_grants s))"

definition poll_operator_row ::
  "'b backend \<Rightarrow> runtime_config \<Rightarrow> int \<Rightarrow> pending_item \<Rightarrow> ('b, operator_grant_poll) act" where
  "poll_operator_row io cfg ap p =
     seq (advance_sustain io cfg) (\<lambda>waiting.
       if waiting then ret GrantPending
       else
         seq (attempt (require_runtime_context io cfg ''rescue give'')) (\<lambda>ctx.
           case ctx of
             Inr (Some _) \<Rightarrow> deliver_operator io cfg ap p
           | Inr None \<Rightarrow> seq (withdraw_operator io cfg ap) (\<lambda>_. ret GrantPending)
           | Inl error \<Rightarrow> seq (withdraw_operator io cfg ap) (\<lambda>_. throw error)))"

definition poll_operator_grant :: "'b backend \<Rightarrow> runtime_config \<Rightarrow> ('b, operator_grant_poll) act" where
  "poll_operator_grant io cfg =
     seq (look (\<lambda>lp. (Option.bind (the_slot cfg lp) next_operator_grant,
                      Option.bind (the_slot cfg lp) sl_pending))) (\<lambda>(row, pending).
       case row of
         None \<Rightarrow> ret GrantIdle
       | Some r \<Rightarrow>
           if pending \<noteq> None then ret WaitingForItems else poll_operator_row io cfg (fst r) (snd r))"

section \<open>Recipes\<close>

datatype rescue_step = SetLocationFlag nat | SetRawEventFlag nat | SetGoalFlag | GrantItem nat nat

datatype rescue_precondition = MoonPresenceCordsReceived

record rescue_recipe =
  rr_name :: string
  rr_when :: string
  rr_after :: string
  rr_steps :: "rescue_step list"
  rr_preconditions :: "rescue_precondition list"

definition MOON_PRESENCE_DECISION_FLAG :: nat where "MOON_PRESENCE_DECISION_FLAG = 9900"
definition CORD_NORMALIZED_FIRST :: nat where "CORD_NORMALIZED_FIRST = 0x400010E0"
definition CORD_NORMALIZED_LAST :: nat where "CORD_NORMALIZED_LAST = 0x400010E3"
definition MOON_PRESENCE_CORDS_REQUIRED :: nat where "MOON_PRESENCE_CORDS_REQUIRED = 3"
definition MOON_PRESENCE_BOSS_FLAG :: nat where "MOON_PRESENCE_BOSS_FLAG = 12101850"

definition is_umbilical_cord :: "nat \<Rightarrow> bool" where
  "is_umbilical_cord item \<longleftrightarrow> CORD_NORMALIZED_FIRST \<le> item \<and> item \<le> CORD_NORMALIZED_LAST"

definition RESCUE_RECIPES :: "rescue_recipe list" where
  "RESCUE_RECIPES =
     [\<lparr>rr_name = ''laurence-skull'',
       rr_when = ''You inspected Laurence's Skull at the Grand Cathedral altar (after Vicar Amelia), the cutscene played, but no check was sent.'',
       rr_after = ''the Grand Cathedral altar check is sent. The Forbidden Woods password is NOT granted by this; it arrives as its own AP item.'',
       rr_steps = [SetLocationFlag 12401898], rr_preconditions = []\<rparr>,
      \<lparr>rr_name = ''forbidden-woods-password'',
       rr_when = ''AP shows you received '' @ debug_str ''Fear the Old Blood'' @ '' but the Forbidden Woods gate at the bottom of Cathedral Ward still refuses the password.'',
       rr_after = ''the password flag is written again (idempotent); talk to the gate once more.'',
       rr_steps = [GrantItem 12401803 255], rr_preconditions = []\<rparr>,
      \<lparr>rr_name = ''goal'',
       rr_when = ''You watched your seed's ending (Mergo's Wet Nurse, Gehrman, or Moon Presence, per your YAML goal) but AP never marked you as finished.'',
       rr_after = ''the goal location flag is written; the client sends goal completion on its next poll. Only run this after the ending actually played.'',
       rr_steps = [SetGoalFlag], rr_preconditions = []\<rparr>,
      \<lparr>rr_name = ''moon-presence'',
       rr_when = ''Your seed's goal is Moon Presence, you have received at least three Third Umbilical Cord items, but eating them did not unlock the Moon Presence fight (all cords in seeds before the fix are the same goods, so the game only counts one). Run this BEFORE defeating Gehrman.'',
       rr_after = ''event flag 9900 (the game's 'three cords consumed' decision flag) is written; Gehrman's defeat now leads to Moon Presence. If Gehrman is already dead on this save, use `rescue goal CONFIRM` instead.'',
       rr_steps = [SetRawEventFlag MOON_PRESENCE_DECISION_FLAG],
       rr_preconditions = [MoonPresenceCordsReceived]\<rparr>]"

definition rescue_recipe_names :: "string list" where
  "rescue_recipe_names = map rr_name RESCUE_RECIPES"

definition rescue_recipe_listing :: string where
  "rescue_recipe_listing = str_join [CHR 0x0A] (map (\<lambda>r. rr_name r @ '': '' @ rr_when r) RESCUE_RECIPES)"

definition received_cord_count :: "runtime_config \<Rightarrow> 'b client_loop \<Rightarrow> nat" where
  "received_cord_count cfg lp =
     (case the_slot cfg lp of
        None \<Rightarrow> 0
      | Some s \<Rightarrow> length (remdups (map (\<lambda>e. ai_ap_item_id (snd e))
          (filter (\<lambda>e. ai_blocked (snd e) = None \<and> is_umbilical_cord (ai_normalized_item_id (snd e)))
            (entries (sl_acknowledged s))))))"

definition ascii_lower :: "char \<Rightarrow> char" where
  "ascii_lower c =
     (let n = of_char c :: nat in if 65 \<le> n \<and> n \<le> 90 then char_of (n + 32) else c)"

definition eq_ignore_ascii_case :: "string \<Rightarrow> string \<Rightarrow> bool" where
  "eq_ignore_ascii_case a b \<longleftrightarrow> map ascii_lower a = map ascii_lower b"

definition goal_is_moon_presence :: "runtime_config \<Rightarrow> bool" where
  "goal_is_moon_presence cfg \<longleftrightarrow>
     (case rc_goal cfg of
        Some g \<Rightarrow> eq_ignore_ascii_case g ''moon_presence''
      | None \<Rightarrow>
          (case rc_goal_location cfg of
             None \<Rightarrow> False
           | Some loc \<Rightarrow> \<exists>b \<in> set (rc_locations cfg).
               lb_ap_location_id b = loc \<and> lb_event_flag b = MOON_PRESENCE_BOSS_FLAG))"

definition show_goal :: "string option \<Rightarrow> string" where
  "show_goal goal = (case goal of None \<Rightarrow> [] | Some g \<Rightarrow> '' (goal '' @ debug_str g @ '')'')"

definition check_moon_presence_cords :: "runtime_config \<Rightarrow> 'b client_loop \<Rightarrow> string + nat" where
  "check_moon_presence_cords cfg lp =
     (if \<not> goal_is_moon_presence cfg
      then Inl (''this seed's goal is not Moon Presence'' @ show_goal (rc_goal cfg) @
             ''; the three-cord unlock is not part of its ending'')
      else if received_cord_count cfg lp < MOON_PRESENCE_CORDS_REQUIRED
      then Inl (''only '' @ show_nat (received_cord_count cfg lp) @
             '' Third Umbilical Cord item(s) have been delivered to this slot; the ending needs '' @
             show_nat MOON_PRESENCE_CORDS_REQUIRED @ ''. Find and eat the rest first.'')
      else Inr (received_cord_count cfg lp))"

datatype resolved_step = Flag nat int | RawFlag nat | GiveItem int

definition goal_flag :: "runtime_config \<Rightarrow> string + (nat \<times> int)" where
  "goal_flag cfg =
     (case rc_goal_location cfg of
        None \<Rightarrow> Inl ''this seed contract carries no goal_location''
      | Some goal \<Rightarrow>
          (case find (\<lambda>b. lb_ap_location_id b = goal) (rc_locations cfg) of
             None \<Rightarrow> Inl (''goal location '' @ show_int goal @ '' has no runtime flag'')
           | Some b \<Rightarrow> Inr (lb_event_flag b, goal)))"

definition recipe_item :: "runtime_config \<Rightarrow> nat \<Rightarrow> nat \<Rightarrow> int option" where
  "recipe_item cfg item category =
     map_option fst (find (\<lambda>e. rb_normalized_item_id (snd e) = item \<and> rb_item_category (snd e) = category \<and>
       evidence_is_known (rb_descriptor_evidence (snd e))) (entries (rc_items cfg)))"

definition resolve_step :: "runtime_config \<Rightarrow> rescue_step \<Rightarrow> string + resolved_step" where
  "resolve_step cfg st =
     (case st of
        SetLocationFlag flag \<Rightarrow>
          (case rescue_location_for_flag cfg flag of Inl e \<Rightarrow> Inl e | Inr loc \<Rightarrow> Inr (Flag flag loc))
      | SetRawEventFlag flag \<Rightarrow> Inr (RawFlag flag)
      | SetGoalFlag \<Rightarrow> (case goal_flag cfg of Inl e \<Rightarrow> Inl e | Inr (flag, loc) \<Rightarrow> Inr (Flag flag loc))
      | GrantItem item category \<Rightarrow>
          (case recipe_item cfg item category of
             None \<Rightarrow> Inl (''no contract item with normalized id '' @ show_hex0x item @
                          '' in category '' @ show_nat category)
           | Some ap \<Rightarrow> Inr (GiveItem ap)))"

fun resolve_steps :: "runtime_config \<Rightarrow> rescue_step list \<Rightarrow> string + resolved_step list" where
  "resolve_steps cfg [] = Inr []"
| "resolve_steps cfg (st # sts) =
     (case resolve_step cfg st of
        Inl e \<Rightarrow> Inl e
      | Inr r \<Rightarrow> (case resolve_steps cfg sts of Inl e \<Rightarrow> Inl e | Inr rs \<Rightarrow> Inr (r # rs)))"

definition run_step ::
  "'b backend \<Rightarrow> runtime_config \<Rightarrow> (int \<Rightarrow> string) \<Rightarrow> (int \<Rightarrow> string) \<Rightarrow> string \<Rightarrow> nat \<Rightarrow> resolved_step
     \<Rightarrow> ('b, string) act" where
  "run_step io cfg item_name location_name recipe cords st =
     (case st of
        Flag flag location \<Rightarrow>
          seq (rescue_set_flag io cfg flag (location_name location)) (\<lambda>_.
          ret (''AUDIT rescue '' @ recipe @ '' setflag flag='' @ show_nat flag @ '' ('' @
               debug_str (location_name location) @ ''): written; that check is now sent.''))
      | RawFlag flag \<Rightarrow>
          seq (rescue_set_raw_flag io cfg flag recipe) (\<lambda>_.
          ret (''AUDIT rescue '' @ recipe @ '' setrawflag flag='' @ show_nat flag @ '': written ON after '' @
               show_nat cords @
               '' Third Umbilical Cord item(s) received; Gehrman's defeat now leads to Moon Presence.''))
      | GiveItem ap \<Rightarrow>
          seq (rescue_give io cfg ap (item_name ap)) (\<lambda>queued.
          ret (''AUDIT rescue '' @ recipe @ '' give index='' @ show_int ap @ '' ('' @ debug_str (item_name ap) @
               (if queued then ''): queued through normal delivery.''
                else ''): already recorded; no second grant queued.''))))"

fun run_steps ::
  "'b backend \<Rightarrow> runtime_config \<Rightarrow> (int \<Rightarrow> string) \<Rightarrow> (int \<Rightarrow> string) \<Rightarrow> string \<Rightarrow> nat \<Rightarrow> resolved_step list
     \<Rightarrow> ('b, string list) act" where
  "run_steps io cfg item_name location_name recipe cords [] = ret []"
| "run_steps io cfg item_name location_name recipe cords (st # sts) =
     seq (run_step io cfg item_name location_name recipe cords st) (\<lambda>line.
     seq (run_steps io cfg item_name location_name recipe cords sts) (\<lambda>lines.
     ret (line # lines)))"

text \<open>The preconditions, all evaluated before the first step; the last count is kept.\<close>

fun check_preconditions ::
  "runtime_config \<Rightarrow> 'b client_loop \<Rightarrow> rescue_precondition list \<Rightarrow> nat \<Rightarrow> string + nat" where
  "check_preconditions cfg lp [] cords = Inr cords"
| "check_preconditions cfg lp (MoonPresenceCordsReceived # ps) cords =
     (case check_moon_presence_cords cfg lp of
        Inl e \<Rightarrow> Inl e
      | Inr n \<Rightarrow> check_preconditions cfg lp ps n)"

definition run_recipe ::
  "'b backend \<Rightarrow> runtime_config \<Rightarrow> (int \<Rightarrow> string) \<Rightarrow> (int \<Rightarrow> string) \<Rightarrow> rescue_recipe \<Rightarrow> nat \<Rightarrow> resolved_step list
     \<Rightarrow> ('b, string list) act" where
  "run_recipe io cfg item_name location_name recipe cords plan =
     seq (run_steps io cfg item_name location_name (rr_name recipe) cords plan) (\<lambda>lines.
     seq (now_ms io) (\<lambda>now.
     seq (commit io cfg (operator_note now ''rescue'' 0 (rr_name recipe))) (\<lambda>_.
     ret (lines @ [''AUDIT rescue '' @ rr_name recipe @ '' complete: '' @ rr_after recipe]))))"

definition rescue_recipe_apply ::
  "'b backend \<Rightarrow> runtime_config \<Rightarrow> (int \<Rightarrow> string) \<Rightarrow> (int \<Rightarrow> string) \<Rightarrow> string \<Rightarrow> ('b, string list) act" where
  "rescue_recipe_apply io cfg item_name location_name name =
     (case find (\<lambda>r. eq_ignore_ascii_case (rr_name r) name) RESCUE_RECIPES of
        None \<Rightarrow> bail (''unknown rescue recipe '' @ debug_str name @ ''; known recipes: '' @
                   str_join '', '' rescue_recipe_names)
      | Some recipe \<Rightarrow>
          seq (require_gameplay io cfg ''rescue recipe'' ''rescue recipe is waiting for gameplay'') (\<lambda>_.
          seq (look (\<lambda>lp. check_preconditions cfg lp (rr_preconditions recipe) 0)) (\<lambda>pre.
            case pre of
              Inl e \<Rightarrow> throw (Context (''rescue '' @ rr_name recipe @ '' refused'') (Message e))
            | Inr cords \<Rightarrow>
                (case resolve_steps cfg (rr_steps recipe) of
                   Inl e \<Rightarrow> bail e
                 | Inr plan \<Rightarrow> run_recipe io cfg item_name location_name recipe cords plan))))"

end
