(* ===== verification/BbFrame.thy ===== *)
theory BbFrame
  imports BbRescue BbCursor
begin

text \<open>
  What every operation of the client loop does to the ledger. A relation between the loop's state
  before and after is kept by an operation when it is kept by its parts; the locales below collect
  the parts (quiet backend calls, committed slot changes, the acknowledgement, the grant) and derive
  the relation for each operation once, for every relation that satisfies the laws.
\<close>

section \<open>Operations that keep a relation\<close>

definition keeps :: "('b client_loop \<Rightarrow> 'b client_loop \<Rightarrow> bool) \<Rightarrow> ('b, 'a) act \<Rightarrow> bool" where
  "keeps R m \<longleftrightarrow> (\<forall>lp. R lp (snd (m lp)))"

lemma keepsI: "(\<And>lp. R lp (snd (m lp))) \<Longrightarrow> keeps R m"
  by (simp add: keeps_def)

lemma keeps_at: "keeps R m \<Longrightarrow> R lp (snd (m lp))"
  by (simp add: keeps_def)

lemma keepsD: "keeps R m \<Longrightarrow> m lp = (r, lp') \<Longrightarrow> R lp lp'"
  by (metis keeps_def snd_conv)

text \<open>Everything a backend offers but the grant and the file.\<close>

definition quiet :: "('b \<Rightarrow> 'b \<Rightarrow> bool) \<Rightarrow> ('b, 'a) call \<Rightarrow> bool" where
  "quiet Q c \<longleftrightarrow> (\<forall>b. Q b (snd (c b)))"

definition quiet_backend :: "('b \<Rightarrow> 'b \<Rightarrow> bool) \<Rightarrow> 'b backend \<Rightarrow> bool" where
  "quiet_backend Q io \<longleftrightarrow>
     (\<forall>tag. quiet Q (b_release_preexecution_vial_refusal io tag)) \<and> quiet Q (b_location_context io) \<and>
     (\<forall>f. quiet Q (b_read_event_flag io f)) \<and> (\<forall>f on. quiet Q (b_write_event_flag io f on)) \<and>
     quiet Q (b_target_weapon_level io) \<and> quiet Q (b_upgrade_scan_ready io) \<and>
     (\<forall>i l. quiet Q (b_observe_stack_quantity io i l)) \<and> (\<forall>i l. quiet Q (b_observe_storage_quantity io i l)) \<and>
     (\<forall>tag. quiet Q (b_grant_may_have_applied io tag)) \<and> (\<forall>r. quiet Q (b_equip_item io r)) \<and>
     quiet Q (b_death_link_kill io) \<and> quiet Q (b_observe_player_hp io) \<and>
     (\<forall>tag. quiet Q (b_withdraw_unwitnessed_grant io tag)) \<and> (\<forall>tag r. quiet Q (b_retire_grant io tag r)) \<and>
     quiet Q (b_read_save_watermark io) \<and> (\<forall>c. quiet Q (b_write_save_watermark io c))"

lemma quiet_backendD:
  assumes "quiet_backend Q io"
  shows "quiet Q (b_release_preexecution_vial_refusal io tag)" "quiet Q (b_location_context io)"
    "quiet Q (b_read_event_flag io f)" "quiet Q (b_write_event_flag io f on)"
    "quiet Q (b_target_weapon_level io)" "quiet Q (b_upgrade_scan_ready io)"
    "quiet Q (b_observe_stack_quantity io i l)" "quiet Q (b_observe_storage_quantity io i l)"
    "quiet Q (b_grant_may_have_applied io tag)" "quiet Q (b_equip_item io r)"
    "quiet Q (b_death_link_kill io)" "quiet Q (b_observe_player_hp io)"
    "quiet Q (b_withdraw_unwitnessed_grant io tag)" "quiet Q (b_retire_grant io tag reason)"
    "quiet Q (b_read_save_watermark io)" "quiet Q (b_write_save_watermark io c)"
  using assms by (simp_all add: quiet_backend_def)

text \<open>A change of the loop that touches neither the backend nor the ledger.\<close>

definition inner_change :: "('b client_loop \<Rightarrow> 'b client_loop) \<Rightarrow> bool" where
  "inner_change f \<longleftrightarrow> (\<forall>lp. lp_backend (f lp) = lp_backend lp \<and> lp_ledger (f lp) = lp_ledger lp)"

section \<open>Slots\<close>

definition put_slot :: "runtime_config \<Rightarrow> (slot_ledger \<Rightarrow> slot_ledger) \<Rightarrow> 'b client_loop \<Rightarrow> 'b client_loop" where
  "put_slot cfg g lp = lp\<lparr>lp_ledger := slot_mut g (rc_seed_name cfg) (rc_slot_name cfg) (lp_ledger lp)\<rparr>"

definition ledger_slot :: "runtime_config \<Rightarrow> receive_ledger \<Rightarrow> slot_ledger" where
  "ledger_slot cfg l =
     (case slot_of l (rc_seed_name cfg) (rc_slot_name cfg) of None \<Rightarrow> default_slot | Some s \<Rightarrow> s)"

lemma slot_or_default_ledger: "slot_or_default cfg lp = ledger_slot cfg (lp_ledger lp)"
  by (simp add: slot_or_default_def the_slot_def ledger_slot_def)

lemma slot_of_mut: "slot_of (slot_mut g seed slot l) seed slot =
   Some (g (case slot_of l seed slot of None \<Rightarrow> default_slot | Some s \<Rightarrow> s))"
  by (auto simp: slot_of_def slot_mut_def bm_or_insert_def bm_contains_def Let_def split: option.split)

lemma ledger_slot_mut [simp]:
  "ledger_slot cfg (slot_mut g (rc_seed_name cfg) (rc_slot_name cfg) l) = g (ledger_slot cfg l)"
  by (simp add: ledger_slot_def slot_of_mut)

lemma slot_or_default_put [simp]: "slot_or_default cfg (put_slot cfg g lp) = g (slot_or_default cfg lp)"
  by (simp add: slot_or_default_ledger put_slot_def)

lemma the_slot_put [simp]: "the_slot cfg (put_slot cfg g lp) = Some (g (slot_or_default cfg lp))"
  by (simp add: the_slot_def put_slot_def slot_of_mut slot_or_default_def)

lemma the_slot_or_default: "the_slot cfg lp = Some s \<Longrightarrow> slot_or_default cfg lp = s"
  by (simp add: slot_or_default_def)

lemma lp_backend_put [simp]: "lp_backend (put_slot cfg g lp) = lp_backend lp"
  by (simp add: put_slot_def)

lemma slot_or_default_cong: "lp_ledger lp' = lp_ledger lp \<Longrightarrow> slot_or_default cfg lp' = slot_or_default cfg lp"
  by (simp add: slot_or_default_ledger)

lemma slot_of_fields [simp]:
  "slot_or_default cfg (lp\<lparr>lp_backend := b\<rparr>) = slot_or_default cfg lp"
  "the_slot cfg (lp\<lparr>lp_backend := b\<rparr>) = the_slot cfg lp"
  "slot_or_default cfg (lp\<lparr>lp_upgrade_notice := u\<rparr>) = slot_or_default cfg lp"
  "the_slot cfg (lp\<lparr>lp_upgrade_notice := u\<rparr>) = the_slot cfg lp"
  by (simp_all add: slot_or_default_ledger the_slot_def)

lemma call_slot:
  "call c lp = (r, lp1) \<Longrightarrow> slot_or_default cfg lp1 = slot_or_default cfg lp \<and> the_slot cfg lp1 = the_slot cfg lp"
  by (auto simp: call_def split: prod.splits)

lemma on_slot_put: "on_slot cfg f lp = (fst (f (slot_or_default cfg lp)), put_slot cfg (\<lambda>s. snd (f s)) lp)"
  by (simp add: on_slot_def put_slot_def)

text \<open>The state effect of a commit, whatever it returns.\<close>

definition commit_core ::
  "'b backend \<Rightarrow> runtime_config \<Rightarrow> (slot_ledger \<Rightarrow> slot_ledger) \<Rightarrow> (slot_ledger \<Rightarrow> bool) \<Rightarrow> 'b client_loop
     \<Rightarrow> 'b client_loop" where
  "commit_core io cfg g d lp =
     (if d (slot_or_default cfg lp) then snd (save io (put_slot cfg g lp)) else put_slot cfg g lp)"

lemma commit_if_core:
  "snd (commit_if io cfg P f lp) =
     commit_core io cfg (\<lambda>s. snd (f s)) (\<lambda>s. case fst (f s) of Inl e \<Rightarrow> False | Inr r \<Rightarrow> P r) lp"
  by (auto simp: commit_if_def seq_def on_slot_put commit_core_def ret_def split: sum.split prod.split)

lemma save_slot [simp]: "lp_ledger (snd (save io lp)) = lp_ledger lp"
  by (simp add: save_def call_def split: prod.split)

lemma commit_core_slot [simp]: "slot_or_default cfg (commit_core io cfg g d lp) = g (slot_or_default cfg lp)"
  by (simp add: commit_core_def slot_or_default_ledger put_slot_def)

lemma commit_if_slot:
  "commit_if io cfg P f lp = (r, lp1) \<Longrightarrow> slot_or_default cfg lp1 = snd (f (slot_or_default cfg lp))"
  using commit_core_slot [of cfg io "\<lambda>s. snd (f s)"] commit_if_core [of io cfg P f lp] by simp

lemma commit_slot: "commit io cfg f lp = (r, lp1) \<Longrightarrow> slot_or_default cfg lp1 = f (slot_or_default cfg lp)"
  unfolding commit_def by (drule commit_if_slot) simp

lemma commit_get_slot:
  "commit_get io cfg P f lp = (r, lp1) \<Longrightarrow> slot_or_default cfg lp1 = snd (f (slot_or_default cfg lp))"
  unfolding commit_get_def by (drule commit_if_slot) simp

lemma commit_try_slot:
  assumes "commit_try io cfg f lp = (Inr u, lp1)"
  shows "f (slot_or_default cfg lp) = Inr (slot_or_default cfg lp1)"
proof (cases "f (slot_or_default cfg lp)")
  case (Inl e)
  with assms show ?thesis
    by (simp add: commit_try_def commit_if_def seq_def on_slot_put try_slot_def)
next
  case (Inr s')
  from commit_if_slot [OF assms [unfolded commit_try_def]] Inr show ?thesis
    by (simp add: try_slot_def)
qed

lemma commit_try_new:
  "commit_try io cfg f lp = (Inr u, lp1) \<Longrightarrow>
   slot_or_default cfg lp1 = projr (f (slot_or_default cfg lp)) \<and> \<not> isl (f (slot_or_default cfg lp))"
  by (drule commit_try_slot) simp

section \<open>Moves of a slot\<close>

definition cursor_part :: "slot_ledger \<Rightarrow> nat option \<times> (nat, acknowledged_item) btree_map \<times> pending_item option \<times> nat btree_set" where
  "cursor_part s = (sl_highest_processed_index s, sl_acknowledged s, sl_pending s, sl_redeliver s)"

definition lanes :: "slot_ledger \<Rightarrow> pending_item option \<times> (int, nat option) btree_map \<times> (int, pending_item) btree_map" where
  "lanes s = (sl_pending s, sl_pending_sustain s, sl_operator_grants s)"

text \<open>A ledger operation, a reconciliation, or a change outside the receive cursor.\<close>

inductive slot_move :: "slot_ledger \<Rightarrow> slot_ledger \<Rightarrow> bool" where
  sm_op: "ledger_op s s' \<Longrightarrow> slot_move s s'"
| sm_reconcile: "slot_move s (snd (reconcile_save_watermark w s))"
| sm_admin: "cursor_part s' = cursor_part s \<Longrightarrow> slot_move s s'"

definition slot_path :: "slot_ledger \<Rightarrow> slot_ledger \<Rightarrow> bool" where
  "slot_path = slot_move\<^sup>*\<^sup>*"

lemma slot_path_refl [simp]: "slot_path s s"
  by (simp add: slot_path_def)

lemma slot_path_trans: "slot_path s t \<Longrightarrow> slot_path t u \<Longrightarrow> slot_path s u"
  by (simp add: slot_path_def)

lemma slot_path_move: "slot_move s t \<Longrightarrow> slot_path s t"
  by (simp add: slot_path_def)

lemmas slot_path_op = slot_path_move [OF sm_op]
lemmas slot_path_admin = slot_path_move [OF sm_admin]

lemma admin_wf:
  assumes "cursor_part t = cursor_part s" and "ledger_wf s"
  shows "ledger_wf t"
  using assms(1) by (intro wf_cong [OF assms(2)]) (use assms in \<open>simp_all add: cursor_part_def acked_def ledger_wf_def\<close>)

lemma slot_move_wf: "slot_move s t \<Longrightarrow> ledger_wf s \<Longrightarrow> ledger_wf t"
proof (induction rule: slot_move.induct)
  case (sm_op s s')
  then show ?case by (rule wf_op)
next
  case (sm_reconcile s w)
  then show ?case by (rule wf_step [OF ls_reconcile])
next
  case (sm_admin s' s)
  then show ?case by (rule admin_wf)
qed

lemma slot_path_wf: "slot_path s t \<Longrightarrow> ledger_wf s \<Longrightarrow> ledger_wf t"
  unfolding slot_path_def by (induction rule: rtranclp_induct) (auto intro: slot_move_wf)

text \<open>
  A committed change moves the slot, is written unless it leaves the command lanes alone, and does
  not touch the operator's rows.
\<close>

definition slot_step :: "(slot_ledger \<Rightarrow> slot_ledger) \<Rightarrow> (slot_ledger \<Rightarrow> bool) \<Rightarrow> bool" where
  "slot_step g d \<longleftrightarrow> (\<forall>s. slot_path s (g s) \<and> (d s \<or> lanes (g s) = lanes s))"

definition lane_step :: "(slot_ledger \<Rightarrow> slot_ledger) \<Rightarrow> (slot_ledger \<Rightarrow> bool) \<Rightarrow> bool" where
  "lane_step g d \<longleftrightarrow> slot_step g d \<and> (\<forall>s. sl_operator_grants (g s) = sl_operator_grants s)"

text \<open>
  The command matches a row of the slot, with the baseline the row records. No baseline is recorded
  for a flag effect or a category-8 token, submitted with baseline zero, and for an item whose own
  stack the backend can answer to be unsupported.
\<close>

definition unreadable_stack :: "'b backend \<Rightarrow> item_grant \<Rightarrow> bool" where
  "unreadable_stack io g \<longleftrightarrow>
     (\<exists>b. fst (b_observe_stack_quantity io (ig_normalized_item_id g) (ig_reinforcement_level g) b) = Inr Unsupported)"

definition ap_planned :: "'b backend \<Rightarrow> runtime_config \<Rightarrow> slot_ledger \<Rightarrow> item_grant \<Rightarrow> bool" where
  "ap_planned io cfg s g \<longleftrightarrow>
     (\<exists>p. sl_pending s = Some p \<and> \<not> pi_grant_complete p \<and> g = item_grant_of p (ig_expected_before g) \<and>
        (pi_observed_before p = Some (ig_expected_before g) \<or>
         needs_no_baseline cfg p \<and> ig_expected_before g = 0 \<or> unreadable_stack io g))"

definition sustain_planned :: "'b backend \<Rightarrow> runtime_config \<Rightarrow> slot_ledger \<Rightarrow> item_grant \<Rightarrow> bool" where
  "sustain_planned io cfg s g \<longleftrightarrow>
     (\<exists>key b. bm_get (sl_pending_sustain s) key = Some b \<and> g = sustain_grant cfg key (ig_expected_before g) \<and>
        (b = Some (ig_expected_before g) \<or> unreadable_stack io g \<and> ig_expected_before g = 0))"

definition operator_planned :: "'b backend \<Rightarrow> slot_ledger \<Rightarrow> item_grant \<Rightarrow> bool" where
  "operator_planned io s g \<longleftrightarrow>
     (\<exists>ap p. bm_get (sl_operator_grants s) ap = Some p \<and> \<not> pi_grant_complete p \<and>
        g = operator_item_grant ap p (ig_expected_before g) \<and>
        (pi_observed_before p = Some (ig_expected_before g) \<or>
         unreadable_stack io g \<and> ig_expected_before g = 0))"

definition planned :: "'b backend \<Rightarrow> runtime_config \<Rightarrow> slot_ledger \<Rightarrow> item_grant \<Rightarrow> bool" where
  "planned io cfg s g \<longleftrightarrow> ap_planned io cfg s g \<or> sustain_planned io cfg s g \<or> operator_planned io s g"

lemma planned_lanes: "lanes s = lanes t \<Longrightarrow> planned io cfg s g = planned io cfg t g"
  by (simp add: planned_def ap_planned_def sustain_planned_def operator_planned_def lanes_def)

section \<open>The laws\<close>

locale lane_frame =
  fixes io :: "'b backend" and cfg :: runtime_config
    and Q :: "'b \<Rightarrow> 'b \<Rightarrow> bool" and R :: "'b client_loop \<Rightarrow> 'b client_loop \<Rightarrow> bool"
  assumes quiet_io: "quiet_backend Q io"
    and R_refl: "\<And>lp. R lp lp"
    and R_trans: "\<And>lp1 lp2 lp3. R lp1 lp2 \<Longrightarrow> R lp2 lp3 \<Longrightarrow> R lp1 lp3"
    and R_quiet: "\<And>lp b. Q (lp_backend lp) b \<Longrightarrow> R lp (lp\<lparr>lp_backend := b\<rparr>)"
    and R_private: "\<And>lp f. inner_change f \<Longrightarrow> R lp (f lp)"
    and R_commit: "\<And>lp g d. lane_step g d \<Longrightarrow> R lp (commit_core io cfg g d lp)"
    and R_settle: "\<And>lp f i. lane_step (\<lambda>s. snd (try_slot f s)) (\<lambda>s. True) \<Longrightarrow> R lp (snd (settle io cfg i f lp))"
    and R_grant: "\<And>lp g. planned io cfg (slot_or_default cfg lp) g \<Longrightarrow> R lp (snd (call (b_grant_item io g) lp))"
begin

lemma keeps_ret: "keeps R (ret a)" and keeps_throw: "keeps R (throw e)" and keeps_bail: "keeps R (bail m)"
  and keeps_look: "keeps R (look f)"
  by (simp_all add: keeps_def ret_def throw_def bail_def look_def R_refl)

lemma keeps_seq: "keeps R m \<Longrightarrow> (\<And>a. keeps R (f a)) \<Longrightarrow> keeps R (seq m f)"
  unfolding keeps_def seq_def by (auto split: prod.split sum.split) (metis R_trans snd_conv)+

lemma keeps_attempt: "keeps R m \<Longrightarrow> keeps R (attempt m)"
  by (auto simp: keeps_def attempt_def split: prod.split) (metis snd_conv)

lemma keeps_change: "inner_change f \<Longrightarrow> keeps R (change f)"
  by (simp add: keeps_def change_def R_private)

lemma keeps_call: "quiet Q c \<Longrightarrow> keeps R (call c)"
  by (auto simp: keeps_def call_def quiet_def split: prod.split) (metis R_quiet snd_conv)

lemma keeps_if: "(b \<Longrightarrow> keeps R m) \<Longrightarrow> (\<not> b \<Longrightarrow> keeps R n) \<Longrightarrow> keeps R (if b then m else n)"
  by simp

lemma keeps_option:
  "(x = None \<Longrightarrow> keeps R m) \<Longrightarrow> (\<And>y. x = Some y \<Longrightarrow> keeps R (f y)) \<Longrightarrow>
   keeps R (case x of None \<Rightarrow> m | Some y \<Rightarrow> f y)"
  by (cases x) auto

lemma keeps_sum:
  "(\<And>y. x = Inl y \<Longrightarrow> keeps R (m y)) \<Longrightarrow> (\<And>y. x = Inr y \<Longrightarrow> keeps R (f y)) \<Longrightarrow>
   keeps R (case x of Inl y \<Rightarrow> m y | Inr y \<Rightarrow> f y)"
  by (cases x) auto

lemma keeps_list:
  "(x = [] \<Longrightarrow> keeps R m) \<Longrightarrow> (\<And>y ys. x = y # ys \<Longrightarrow> keeps R (f y ys)) \<Longrightarrow>
   keeps R (case x of [] \<Rightarrow> m | y # ys \<Rightarrow> f y ys)"
  by (cases x) auto

lemma keeps_prod: "(\<And>a b. x = (a, b) \<Longrightarrow> keeps R (f a b)) \<Longrightarrow> keeps R (case x of (a, b) \<Rightarrow> f a b)"
  by (cases x) auto

lemma keeps_stack:
  "(x = Unsupported \<Longrightarrow> keeps R m) \<Longrightarrow> (x = NotReady \<Longrightarrow> keeps R n) \<Longrightarrow>
   (\<And>q. x = Quantity q \<Longrightarrow> keeps R (f q)) \<Longrightarrow>
   keeps R (case x of Unsupported \<Rightarrow> m | NotReady \<Rightarrow> n | Quantity q \<Rightarrow> f q)"
  by (cases x) auto

lemma keeps_progress:
  "(x = Pending \<Longrightarrow> keeps R m) \<Longrightarrow> (x = Complete \<Longrightarrow> keeps R n) \<Longrightarrow>
   keeps R (case x of Pending \<Rightarrow> m | Complete \<Rightarrow> n)"
  by (cases x) auto

lemmas keeps_cases = keeps_if keeps_option keeps_sum keeps_list keeps_prod keeps_stack keeps_progress

lemmas keeps_basic = keeps_ret keeps_throw keeps_bail keeps_look keeps_seq keeps_attempt
  keeps_call [OF quiet_backendD(1) [OF quiet_io]] keeps_call [OF quiet_backendD(2) [OF quiet_io]]
  keeps_call [OF quiet_backendD(3) [OF quiet_io]] keeps_call [OF quiet_backendD(4) [OF quiet_io]]
  keeps_call [OF quiet_backendD(5) [OF quiet_io]] keeps_call [OF quiet_backendD(6) [OF quiet_io]]
  keeps_call [OF quiet_backendD(7) [OF quiet_io]] keeps_call [OF quiet_backendD(8) [OF quiet_io]]
  keeps_call [OF quiet_backendD(9) [OF quiet_io]] keeps_call [OF quiet_backendD(10) [OF quiet_io]]
  keeps_call [OF quiet_backendD(11) [OF quiet_io]] keeps_call [OF quiet_backendD(12) [OF quiet_io]]
  keeps_call [OF quiet_backendD(13) [OF quiet_io]] keeps_call [OF quiet_backendD(14) [OF quiet_io]]
  keeps_call [OF quiet_backendD(15) [OF quiet_io]] keeps_call [OF quiet_backendD(16) [OF quiet_io]]

lemma keeps_commit_if:
  "lane_step (\<lambda>s. snd (f s)) (\<lambda>s. case fst (f s) of Inl e \<Rightarrow> False | Inr r \<Rightarrow> P r) \<Longrightarrow>
   keeps R (commit_if io cfg P f)"
  by (rule keepsI) (simp add: commit_if_core R_commit)

lemma keeps_commit: "lane_step f (\<lambda>_. True) \<Longrightarrow> keeps R (commit io cfg f)"
  unfolding commit_def by (rule keeps_commit_if) simp

lemma keeps_commit_get:
  "lane_step (\<lambda>s. snd (f s)) (\<lambda>s. P (fst (f s))) \<Longrightarrow> keeps R (commit_get io cfg P f)"
  unfolding commit_get_def by (rule keeps_commit_if) simp

lemma keeps_settle: "lane_step (\<lambda>s. snd (try_slot f s)) (\<lambda>s. True) \<Longrightarrow> keeps R (settle io cfg i f)"
  by (rule keepsI) (rule R_settle)

end

end
