(* ===== verification/BbLanes.thy ===== *)
theory BbLanes
  imports BbFrame
begin

text \<open>
  Every slot change the client loop commits is a move of the slot that keeps the lanes written, and
  with it every operation of the loop keeps the relations of \<open>lane_frame\<close>.
\<close>

section \<open>The slot changes\<close>

lemma lane_stepI:
  "(\<And>s. slot_path s (g s)) \<Longrightarrow> (\<And>s. d s \<or> lanes (g s) = lanes s) \<Longrightarrow>
   (\<And>s. sl_operator_grants (g s) = sl_operator_grants s) \<Longrightarrow> lane_step g d"
  by (simp add: lane_step_def slot_step_def)

lemma lane_admin:
  "(\<And>s. cursor_part (g s) = cursor_part s) \<Longrightarrow> (\<And>s. sl_operator_grants (g s) = sl_operator_grants s) \<Longrightarrow>
   (\<And>s. d s \<or> sl_pending_sustain (g s) = sl_pending_sustain s) \<Longrightarrow> lane_step g d"
  by (rule lane_stepI) (auto intro: slot_path_admin simp: lanes_def cursor_part_def)

lemma ledger_op_rows:
  "ledger_op s s' \<Longrightarrow> sl_operator_grants s' = sl_operator_grants s \<and> sl_pending_sustain s' = sl_pending_sustain s"
proof (induction rule: ledger_op.induct)
  case (ls_fixed s)
  have "sl_operator_grants (fold requeue_one is s) = sl_operator_grants s \<and>
      sl_pending_sustain (fold requeue_one is s) = sl_pending_sustain s" for "is"
    by (induction "is" arbitrary: s) (simp_all add: requeue_one_def)
  then show ?case by (simp add: requeue_fixed_cause_parks_def requeue_parks_def Let_def)
next
  case (ls_compatible s c)
  have "sl_operator_grants (fold requeue_one is s) = sl_operator_grants s \<and>
      sl_pending_sustain (fold requeue_one is s) = sl_pending_sustain s" for "is"
    by (induction "is" arbitrary: s) (simp_all add: requeue_one_def)
  then show ?case by (simp add: requeue_now_compatible_parks_def requeue_parks_def Let_def)
qed (auto simp: begin_item_def raise_pending_upgrade_def record_observed_before_def clear_observed_before_def
       mark_grant_complete_def mark_token_routed_to_storage_def mark_equip_complete_def acknowledge_def
       acknowledge_blocked_def retire_def advance_cursor_def requeue_blocked_def requeue_one_def
       reissue_pending_def unblock_def split: option.splits if_splits)

lemma reconcile_rows:
  "sl_operator_grants (snd (reconcile_save_watermark w s)) = sl_operator_grants s \<and>
   sl_pending_sustain (snd (reconcile_save_watermark w s)) = sl_pending_sustain s"
  by (simp add: reconcile_save_watermark_def rewind_to_def Let_def split: option.split)

lemma lane_ops:
  "(\<And>s. ledger_op s (g s)) \<Longrightarrow> (\<And>s. d s \<or> sl_pending (g s) = sl_pending s) \<Longrightarrow> lane_step g d"
  by (rule lane_stepI) (auto intro: slot_path_op simp: lanes_def ledger_op_rows)

text \<open>A change that may refuse: a step of the slot when it does not.\<close>

definition try_step :: "(slot_ledger \<Rightarrow> string + slot_ledger) \<Rightarrow> bool" where
  "try_step f \<longleftrightarrow>
     (\<forall>s s'. f s = Inr s' \<longrightarrow> slot_path s s' \<and> sl_operator_grants s' = sl_operator_grants s)"

lemma lane_try:
  assumes "try_step f"
  shows "lane_step (\<lambda>s. snd (try_slot f s)) (\<lambda>s. case fst (try_slot f s) of Inl e \<Rightarrow> False | Inr r \<Rightarrow> True)"
    and "lane_step (\<lambda>s. snd (try_slot f s)) (\<lambda>s. True)"
  using assms by (auto simp: try_slot_def try_step_def intro!: lane_stepI split: sum.split)

lemma try_stepI: "(\<And>s s'. f s = Inr s' \<Longrightarrow> ledger_op s s') \<Longrightarrow> try_step f"
  unfolding try_step_def by (meson slot_path_op ledger_op_rows)

lemma try_ops:
  "try_step (begin_item p)" "try_step (raise_pending_upgrade t raw norm level)"
  "try_step (record_observed_before q)" "try_step mark_equip_complete" "try_step (requeue_blocked i)"
  "try_step (acknowledge i it)"
  by (rule try_stepI; (rule ls_begin ls_raise ls_observed ls_equipped ls_requeue ls_ack; assumption))+

lemma lane_reconcile:
  "lane_step (\<lambda>s. snd (reconcile_save_watermark w s)) (\<lambda>s. fst (reconcile_save_watermark w s) \<noteq> Resume)"
proof (rule lane_stepI)
  show "fst (reconcile_save_watermark w s) \<noteq> Resume \<or> lanes (snd (reconcile_save_watermark w s)) = lanes s" for s
    by (simp add: reconcile_save_watermark_def lanes_def split: option.split)
qed (simp_all add: slot_path_move [OF sm_reconcile] reconcile_rows)

lemma lane_death: "lane_step (\<lambda>s. snd (death_decision gr a s)) (\<lambda>s. True)"
  by (rule lane_admin) (simp_all add: death_decision_def cursor_part_def)

lemma lane_victory:
  "lane_step (\<lambda>s. snd (victory_step r s)) (\<lambda>s. case fst (victory_step r s) of Inl e \<Rightarrow> False | Inr fresh \<Rightarrow> fresh)"
  by (rule lane_admin) (simp_all add: victory_step_def cursor_part_def split: option.split)

lemma queue_key_part:
  "cursor_part (snd (queue_key k acc)) = cursor_part (snd acc) \<and>
   sl_operator_grants (snd (queue_key k acc)) = sl_operator_grants (snd acc) \<and>
   (fst (queue_key k acc) \<or> snd (queue_key k acc) = snd acc) \<and> (fst acc \<longrightarrow> fst (queue_key k acc))"
  by (cases acc) (simp add: queue_key_def cursor_part_def)

lemma fold_queue_key_part:
  "cursor_part (snd (fold queue_key ks acc)) = cursor_part (snd acc) \<and>
   sl_operator_grants (snd (fold queue_key ks acc)) = sl_operator_grants (snd acc) \<and>
   (fst (fold queue_key ks acc) \<or> snd (fold queue_key ks acc) = snd acc) \<and>
   (fst acc \<longrightarrow> fst (fold queue_key ks acc))"
proof (induction ks arbitrary: acc)
  case (Cons k ks)
  from Cons.IH [of "queue_key k acc"] queue_key_part [of k acc] show ?case by auto
qed simp

lemma queue_location_part:
  "cursor_part (snd (queue_location cfg l acc)) = cursor_part (snd acc) \<and>
   sl_operator_grants (snd (queue_location cfg l acc)) = sl_operator_grants (snd acc) \<and>
   (fst (queue_location cfg l acc) \<noteq> [] \<or> snd (queue_location cfg l acc) = snd acc) \<and>
   (fst acc \<noteq> [] \<longrightarrow> fst (queue_location cfg l acc) \<noteq> [])"
  using fold_queue_key_part [of "sustain_keys cfg l" "(False, snd acc)"]
  by (cases acc) (auto simp: queue_location_def split: prod.split)

lemma lane_queue: "lane_step (\<lambda>s. snd (queue_locations cfg ls s)) (\<lambda>s. fst (queue_locations cfg ls s) \<noteq> [])"
proof -
  have part: "cursor_part (snd (fold (queue_location cfg) ls acc)) = cursor_part (snd acc) \<and>
      sl_operator_grants (snd (fold (queue_location cfg) ls acc)) = sl_operator_grants (snd acc) \<and>
      (fst (fold (queue_location cfg) ls acc) \<noteq> [] \<or> snd (fold (queue_location cfg) ls acc) = snd acc) \<and>
      (fst acc \<noteq> [] \<longrightarrow> fst (fold (queue_location cfg) ls acc) \<noteq> [])" for ls acc
  proof (induction ls arbitrary: acc)
    case (Cons l ls)
    from Cons.IH [of "queue_location cfg l acc"] queue_location_part [of cfg l acc] show ?case by auto
  qed simp
  show ?thesis
    unfolding queue_locations_def
    by (rule lane_admin; use part [of "filter (suppressed_location cfg) ls" "([], _)"] in fastforce)
qed

lemma restore_part:
  "cursor_part (fold restore_sustain ks s) = cursor_part s \<and>
   sl_operator_grants (fold restore_sustain ks s) = sl_operator_grants s"
  by (induction ks arbitrary: s) (simp_all add: restore_sustain_def cursor_part_def)

lemma lane_recover: "lane_step (recover_slot cfg records) (\<lambda>_. True)"
  using restore_part by (intro lane_admin) (simp_all add: recover_slot_def cursor_part_def)

lemma lane_clear: "lane_step (\<lambda>s. snd (clear_observed_before s)) (\<lambda>s. fst (clear_observed_before s))"
proof (rule lane_ops)
  show "fst (clear_observed_before s) \<or> sl_pending (snd (clear_observed_before s)) = sl_pending s" for s
  proof (cases "sl_pending s")
    case (Some p)
    have "pi_observed_before p = None \<Longrightarrow> p\<lparr>pi_observed_before := None\<rparr> = p" by (cases p) simp
    with Some show ?thesis by (cases "pi_observed_before p") (simp_all add: clear_observed_before_def)
  qed (simp add: clear_observed_before_def)
qed (rule ls_clear)

lemma requeue_pending: "sl_pending (snd (requeue_parks P s)) = sl_pending s"
  by (simp add: requeue_parks_def Let_def requeue_fold)

lemma lane_compatible:
  "lane_step (\<lambda>s. snd (requeue_now_compatible_parks c s)) (\<lambda>s. fc_requeued (fst (requeue_now_compatible_parks c s)) \<noteq> [])"
proof (rule lane_ops)
  show "fc_requeued (fst (requeue_now_compatible_parks c s)) \<noteq> [] \<or>
      sl_pending (snd (requeue_now_compatible_parks c s)) = sl_pending s" for s
    by (simp add: requeue_now_compatible_parks_def requeue_pending)
qed (rule ls_compatible)

lemma lane_requeue_both:
  "lane_step (\<lambda>s. snd (requeue_both cfg s)) (\<lambda>s. fc_requeued (fst (requeue_both cfg s)) \<noteq> [])"
proof -
  have snd_both: "snd (requeue_both cfg s) =
      snd (requeue_now_compatible_parks (known_items cfg) (snd (requeue_fixed_cause_parks s)))" for s
    by (simp add: requeue_both_def split: prod.split)
  have step: "slot_path s (snd (requeue_both cfg s))" for s
    unfolding snd_both by (rule slot_path_trans [OF slot_path_op [OF ls_fixed] slot_path_op [OF ls_compatible]])
  have rows: "sl_operator_grants (snd (requeue_both cfg s)) = sl_operator_grants s"
    "sl_pending_sustain (snd (requeue_both cfg s)) = sl_pending_sustain s" for s
    unfolding snd_both
    using ledger_op_rows [OF ls_fixed [of s]] ledger_op_rows [OF ls_compatible [of "snd (requeue_fixed_cause_parks s)"]]
    by simp_all
  have "sl_pending (snd (requeue_both cfg s)) = sl_pending s" for s
    unfolding snd_both
    by (simp add: requeue_fixed_cause_parks_def requeue_now_compatible_parks_def requeue_pending)
  with rows step show ?thesis by (intro lane_stepI) (simp_all add: lanes_def)
qed

lemma try_granted: "try_step (mark_granted routed)"
  unfolding try_step_def
proof (intro allI impI)
  fix s s'
  assume "mark_granted routed s = Inr s'"
  then obtain t where t: "mark_grant_complete s = Inr t"
    "if routed then mark_token_routed_to_storage t = Inr s' else s' = t"
    by (auto simp: mark_granted_def split: sum.splits if_splits)
  from t(1) have a: "ledger_op s t" by (rule ls_granted)
  show "slot_path s s' \<and> sl_operator_grants s' = sl_operator_grants s"
  proof (cases routed)
    case True
    with t have b: "ledger_op t s'" by (simp add: ls_routed)
    from slot_path_trans [OF slot_path_op [OF a] slot_path_op [OF b]] ledger_op_rows [OF a] ledger_op_rows [OF b]
    show ?thesis by simp
  next
    case False
    with t a show ?thesis by (simp add: slot_path_op ledger_op_rows)
  qed
qed

lemma try_park: "try_step (park_slot it p failure)"
  unfolding try_step_def
proof (intro allI impI)
  fix s s'
  assume "park_slot it p failure s = Inr s'"
  then obtain t where t: "acknowledge_blocked (ii_index it) (acknowledged_of it p (Some (park_reason failure))) s = Inr t"
    "cursor_part s' = cursor_part t" "sl_operator_grants s' = sl_operator_grants t"
    by (auto simp: park_slot_def cursor_part_def split: sum.splits if_splits)
  have a: "ledger_op s t" using t(1) by (rule ls_park)
  from slot_path_trans [OF slot_path_op [OF a] slot_path_admin [OF t(2)]] ledger_op_rows [OF a] t(3)
  show "slot_path s s' \<and> sl_operator_grants s' = sl_operator_grants s" by simp
qed

lemma lane_identity:
  "lane_step (\<lambda>s. s\<lparr>sl_bound_save_identity := i\<rparr>) (\<lambda>_. True)"
  "lane_step (\<lambda>s. s\<lparr>sl_bound_save_identity := i, sl_operator_actions := sl_operator_actions s @ acts\<rparr>) (\<lambda>_. True)"
  by (rule lane_admin; simp add: cursor_part_def)+

lemma lane_sustain:
  "lane_step (\<lambda>s. s\<lparr>sl_deferred_sustain_vials := bs_remove key (sl_deferred_sustain_vials s)\<rparr>) (\<lambda>_. True)"
  "lane_step (\<lambda>s. s\<lparr>sl_deferred_sustain_capacity := bs_remove key (sl_deferred_sustain_capacity s)\<rparr>) (\<lambda>_. True)"
  "lane_step (finish_sustain key) (\<lambda>_. True)"
  "lane_step (set_sustain_baseline key b) (\<lambda>_. True)"
  "lane_step (\<lambda>s. (set_sustain_baseline key b s)\<lparr>sl_deferred_sustain_vials :=
      bs_insert key (sl_deferred_sustain_vials s)\<rparr>) (\<lambda>_. True)"
  "lane_step (\<lambda>s. (set_sustain_baseline key b s)\<lparr>sl_blocked_sustain_storage :=
      bm_insert key d (sl_blocked_sustain_storage s)\<rparr>) (\<lambda>_. True)"
  by (rule lane_admin; simp add: cursor_part_def finish_sustain_def set_sustain_baseline_def)+

section \<open>The operations\<close>

lemma private_fields:
  "inner_change (\<lambda>lp. lp\<lparr>lp_sustain_pending_polls := p\<rparr>)"
  "inner_change (\<lambda>lp. lp\<lparr>lp_sustain_notice := n\<rparr>)"
  "inner_change (\<lambda>lp. lp\<lparr>lp_upgrade_notice := u\<rparr>)"
  "inner_change (\<lambda>lp. lp\<lparr>lp_watermark_notice := w\<rparr>)"
  "inner_change (\<lambda>lp. lp\<lparr>lp_vial_recovery_checked := v\<rparr>)"
  "inner_change (\<lambda>lp. lp\<lparr>lp_location_identity := i\<rparr>)"
  "inner_change (\<lambda>lp. lp\<lparr>lp_true_streaks := st, lp_location_retries := rt\<rparr>)"
  "inner_change (\<lambda>lp. lp\<lparr>lp_location_retries := rt\<rparr>)"
  "inner_change (\<lambda>lp. lp\<lparr>lp_death_observer := f (lp_death_observer lp)\<rparr>)"
  "inner_change (\<lambda>lp. if oc \<noteq> lp_last_outcome lp
      then lp\<lparr>lp_last_outcome := oc, lp_watermark_notice := Some oc\<rparr> else lp)"
  by (simp_all add: inner_change_def)

context lane_frame
begin

lemmas keeps_changes = private_fields [THEN keeps_change]

lemmas keeps_commits =
  lane_reconcile [THEN keeps_commit_get] lane_death [THEN keeps_commit_get] lane_victory [THEN keeps_commit_if]
  lane_queue [THEN keeps_commit_get] lane_recover [THEN keeps_commit] lane_clear [THEN keeps_commit_get]
  lane_compatible [THEN keeps_commit_get] lane_requeue_both [THEN keeps_commit_get]
  lane_identity [THEN keeps_commit] lane_sustain [THEN keeps_commit]

lemma keeps_commit_try: "try_step f \<Longrightarrow> keeps R (commit_try io cfg f)"
  unfolding commit_try_def by (rule keeps_commit_if) (rule lane_try(1))

lemma keeps_try_settle: "try_step f \<Longrightarrow> keeps R (settle io cfg i f)"
  by (rule keeps_settle) (rule lane_try(2))

lemmas keeps_tries = keeps_commit_try keeps_try_settle try_ops try_granted try_park

lemmas keeps_rules = keeps_basic keeps_cases keeps_changes keeps_commits keeps_tries

lemma keeps_bind_identity: "keeps R (bind_identity io cfg identity)"
  unfolding bind_identity_def by (intro keeps_rules)

lemma keeps_context: "keeps R (require_runtime_context io cfg operation)"
  unfolding require_runtime_context_def by (intro keeps_rules keeps_bind_identity)

lemma keeps_watermark: "keeps R (reconcile_watermark io cfg)"
  unfolding reconcile_watermark_def by (intro keeps_rules)

lemma keeps_victory: "keeps R (record_victory io cfg record)"
  unfolding record_victory_def by (intro keeps_rules)

lemma keeps_queue: "keeps R (queue_sustain_for_checks io cfg ls)"
  unfolding queue_sustain_for_checks_def by (intro keeps_rules)

lemma keeps_recover: "keeps R (recover_historical_vial_refusals io cfg)"
  unfolding recover_historical_vial_refusals_def by (intro keeps_rules)

lemma keeps_release: "keeps R (release_capacity io cfg vials keys)"
proof (induction keys)
  case Nil
  show ?case by (simp add: keeps_ret)
next
  case (Cons key keys)
  show ?case unfolding release_capacity.simps Let_def by (intro keeps_rules Cons.IH)
qed

lemma keeps_retry: "keeps R (retry_deferred_vials_if_ready io cfg)"
  unfolding retry_deferred_vials_if_ready_def retry_with_vials_def retry_vial_ap_def retry_vial_sustain_def
  by (intro keeps_rules keeps_recover keeps_context keeps_release)

lemma keeps_retire: "keeps R (retire_sustain io cfg key w reason)"
  unfolding retire_sustain_def set_sustain_polls_def by (intro keeps_rules)

lemma keeps_sustain_failed: "keeps R (sustain_failed io cfg key e)"
  unfolding sustain_failed_def set_sustain_polls_def by (intro keeps_rules keeps_retire)

lemma keeps_sustain_pending: "keeps R (sustain_still_pending io cfg key)"
  unfolding sustain_still_pending_def set_sustain_polls_def by (intro keeps_rules keeps_retire)

lemma keeps_sustain_expected: "keeps R (sustain_expected io cfg key recorded)"
  unfolding sustain_expected_def by (intro keeps_rules)

text \<open>A grant is allowed where its row is found; the rest of the operation goes on from there.\<close>

lemma keeps_grant_at:
  assumes "planned io cfg (slot_or_default cfg lp) g" and "\<And>r. keeps R (f r)"
  shows "R lp (snd (seq (attempt (call (b_grant_item io g))) f lp))"
proof -
  obtain r lp1 where c: "call (b_grant_item io g) lp = (r, lp1)" by fastforce
  with R_grant [OF assms(1)] have "R lp lp1" by simp
  moreover have "R lp1 (snd (f r lp1))" using assms(2) by (simp add: keeps_def)
  ultimately show ?thesis by (simp add: seq_def attempt_def c) (rule R_trans)
qed

lemma keeps_seq_at:
  assumes "m lp = (r, lp1)" and "R lp lp1" and "\<And>a. r = Inr a \<Longrightarrow> R lp1 (snd (f a lp1))"
  shows "R lp (snd (seq m f lp))"
  using assms by (auto simp: seq_def split: sum.split intro: R_trans)

end

end
