(* ===== verification/BbGrants.thy ===== *)
theory BbGrants
  imports BbLanes
begin

text \<open>
  Every command the loop submits matches a row of the slot: the facts about the stages before a
  grant, and with them the remaining operations under the laws of \<open>lane_frame\<close>.
\<close>

section \<open>What the stages leave in the slot\<close>

lemma seq_Inr:
  "seq m f lp = (Inr c, lp2) \<longleftrightarrow> (\<exists>a lp1. m lp = (Inr a, lp1) \<and> f a lp1 = (Inr c, lp2))"
  by (auto simp: seq_def split: prod.splits sum.splits)

lemma seq_cases:
  assumes "seq m f lp = (r, lp2)"
  obtains e where "m lp = (Inl e, lp2)" "r = Inl e" | a lp1 where "m lp = (Inr a, lp1)" "f a lp1 = (r, lp2)"
  using assms by (auto simp: seq_def split: prod.splits sum.splits)

lemma ret_Inr [simp]: "ret a lp = (r, lp1) \<longleftrightarrow> r = Inr a \<and> lp1 = lp"
  by (auto simp: ret_def)

lemma bail_eq [simp]: "bail m lp = (r, lp1) \<longleftrightarrow> r = Inl (Message m) \<and> lp1 = lp"
  by (auto simp: bail_def throw_def)

lemma look_eq [simp]: "look f lp = (r, lp1) \<longleftrightarrow> r = Inr (f lp) \<and> lp1 = lp"
  by (auto simp: look_def)

lemma change_eq [simp]: "change f lp = (r, lp1) \<longleftrightarrow> r = Inr () \<and> lp1 = f lp"
  by (auto simp: change_def)

lemma attempt_eq: "attempt m lp = (r, lp1) \<longleftrightarrow> (\<exists>x. r = Inr x \<and> m lp = (x, lp1))"
  by (auto simp: attempt_def split: prod.splits)

definition rows :: "slot_ledger \<Rightarrow> (int, nat option) btree_map \<times> (int, pending_item) btree_map" where
  "rows s = (sl_pending_sustain s, sl_operator_grants s)"

lemma bind_identity_rows:
  "bind_identity io cfg i lp = (r, lp1) \<Longrightarrow> rows (slot_or_default cfg lp1) = rows (slot_or_default cfg lp)"
  unfolding bind_identity_def rows_def
  by (erule seq_cases) (auto dest!: commit_slot split: option.splits if_splits)

lemma context_rows:
  "require_runtime_context io cfg oper lp = (r, lp1) \<Longrightarrow> rows (slot_or_default cfg lp1) = rows (slot_or_default cfg lp)"
  unfolding require_runtime_context_def
  by (erule seq_cases)
     (auto dest!: call_slot [where cfg = cfg] bind_identity_rows elim!: seq_cases split: option.splits if_splits)

lemma watermark_rows:
  "reconcile_watermark io cfg lp = (r, lp1) \<Longrightarrow> rows (slot_or_default cfg lp1) = rows (slot_or_default cfg lp)"
  unfolding reconcile_watermark_def
  by (auto elim!: seq_cases dest!: call_slot [where cfg = cfg] commit_get_slot
      simp: rows_def reconcile_rows slot_or_default_ledger split: if_splits)

lemma unreadable_call:
  "call (b_observe_stack_quantity io i l) lp = (Inr Unsupported, lp1) \<Longrightarrow>
   ig_normalized_item_id g = i \<Longrightarrow> ig_reinforcement_level g = l \<Longrightarrow> unreadable_stack io g"
  unfolding unreadable_stack_def call_def by (auto split: prod.splits) (metis fst_conv)

lemma sustain_expected_planned:
  assumes "sustain_expected io cfg key recorded lp = (Inr (Some v), lp1)"
    and "bm_get (sl_pending_sustain (slot_or_default cfg lp)) key = Some recorded"
  shows "sustain_planned io cfg (slot_or_default cfg lp1) (sustain_grant cfg key v)"
proof -
  have g: "sustain_grant cfg key v = sustain_grant cfg key (ig_expected_before (sustain_grant cfg key v))"
    by (simp add: sustain_grant_def)
  have e: "ig_expected_before (sustain_grant cfg key v) = v" by (simp add: sustain_grant_def)
  from assms(1) obtain binding lp2 where m: "(case recorded of
            Some _ \<Rightarrow> call (b_grant_may_have_applied io (sustain_tag key))
          | None \<Rightarrow> ret False) lp = (Inr binding, lp2)" and rest: "(case (if binding then recorded else None) of
         Some v \<Rightarrow> ret (Some v)
       | None \<Rightarrow>
           seq (call (b_observe_stack_quantity io (snd (sustain_descriptor cfg key)) None)) (\<lambda>obs.
             case obs of
               Quantity v \<Rightarrow>
                 seq (commit io cfg (set_sustain_baseline key (Some v))) (\<lambda>_. ret (Some v))
             | NotReady \<Rightarrow> ret None
             | Unsupported \<Rightarrow> ret (Some 0))) lp2 = (Inr (Some v), lp1)"
    unfolding sustain_expected_def seq_Inr by blast
  from m have b1: "slot_or_default cfg lp2 = slot_or_default cfg lp"
    by (cases recorded) (auto dest: call_slot [where cfg = cfg])
  note b = b1 refl rest
  show ?thesis
  proof (cases "if binding then recorded else None")
    case (Some w)
    with b assms(2) e g show ?thesis
      unfolding sustain_planned_def by (intro exI [of _ key]) (auto split: if_splits)
  next
    case None
    with b(3) obtain obs lp3 where o': "call (b_observe_stack_quantity io (snd (sustain_descriptor cfg key)) None) lp2 = (Inr obs, lp3)"
      "(case obs of
               Quantity v \<Rightarrow>
                 seq (commit io cfg (set_sustain_baseline key (Some v))) (\<lambda>_. ret (Some v))
             | NotReady \<Rightarrow> ret None
             | Unsupported \<Rightarrow> ret (Some 0)) lp3 = (Inr (Some v), lp1)"
      by (auto simp: seq_Inr)
    from call_slot [OF o'(1), of cfg] have s3: "slot_or_default cfg lp3 = slot_or_default cfg lp2" by simp
    show ?thesis
    proof (cases obs)
      case Unsupported
      have un: "unreadable_stack io (sustain_grant cfg key v)"
        using unreadable_call [of io _ _ lp2 lp3 "sustain_grant cfg key v"] o'(1) Unsupported
        by (simp add: sustain_grant_def)
      from o'(2) Unsupported have "lp1 = lp3" "v = 0" by simp_all
      with un e s3 b(1) assms(2) g show ?thesis
        unfolding sustain_planned_def by (intro exI [of _ key] exI [of _ recorded]) simp
    next
      case (Quantity q)
      with o'(2) obtain u where c: "commit io cfg (set_sustain_baseline key (Some v)) lp3 = (u, lp1)"
        by (auto simp: seq_Inr)
      have "bm_get (sl_pending_sustain (slot_or_default cfg lp1)) key = Some (Some v)"
        by (simp add: commit_slot [OF c] set_sustain_baseline_def)
      with e g show ?thesis unfolding sustain_planned_def by (intro exI [of _ key] exI [of _ "Some v"]) simp
    qed (use o'(2) in simp)
  qed
qed

lemma next_sustain_row:
  assumes "next_sustain cfg lp = Some (key, b)"
  shows "bm_get (sl_pending_sustain (slot_or_default cfg lp)) key = Some b"
proof -
  from assms obtain s where s: "the_slot cfg lp = Some s" "next_sustain_of s = Some (key, b)"
    by (auto simp: next_sustain_def bind_eq_Some_conv)
  let ?ready = "filter (\<lambda>e. sustain_open s (fst e)) (entries (sl_pending_sustain s))"
  have "(key, b) \<in> set ?ready"
  proof (cases "find (\<lambda>e. snd e \<noteq> None) ?ready")
    case None
    with s(2) show ?thesis by (cases ?ready) (simp_all add: next_sustain_of_def)
  next
    case (Some e)
    then have "e \<in> set ?ready" by (auto simp: find_Some_iff in_set_conv_nth simp del: set_filter)
    with s(2) Some show ?thesis by (simp add: next_sustain_of_def)
  qed
  then show ?thesis by (simp add: entries_iff the_slot_or_default [OF s(1)])
qed

lemma observe_baseline_planned:
  assumes "observe_baseline io cfg p lp = (Inr (Some v), lp1)"
    and p: "sl_pending (slot_or_default cfg lp) = Some p" "\<not> pi_grant_complete p"
  shows "ap_planned io cfg (slot_or_default cfg lp1) (item_grant_of p v)"
proof -
  from assms(1) obtain obs lp2 where
    obs: "call (b_observe_stack_quantity io (pi_normalized_item_id p) (pi_reinforcement_level p)) lp = (Inr obs, lp2)"
    and rest: "(case obs of
         Quantity q \<Rightarrow> seq (commit_try io cfg (record_observed_before q)) (\<lambda>_. ret (Some q))
       | NotReady \<Rightarrow> ret None
       | Unsupported \<Rightarrow> look (\<lambda>lp. Some (delivered_sum cfg p lp))) lp2 = (Inr (Some v), lp1)"
    unfolding observe_baseline_def seq_Inr by blast
  from call_slot [OF obs, of cfg] have s2: "slot_or_default cfg lp2 = slot_or_default cfg lp" by simp
  have g: "ig_expected_before (item_grant_of p v) = v" by (simp add: item_grant_of_def)
  show ?thesis
  proof (cases obs)
    case Unsupported
    have un: "unreadable_stack io (item_grant_of p v)"
      using unreadable_call [of io _ _ lp lp2 "item_grant_of p v"] obs Unsupported by (simp add: item_grant_of_def)
    from rest Unsupported have "lp1 = lp2" by simp
    with un s2 p g show ?thesis unfolding ap_planned_def by (intro exI [of _ p]) simp
  next
    case (Quantity q)
    with rest have c: "commit_try io cfg (record_observed_before v) lp2 = (Inr (), lp1)"
      by (auto simp: seq_Inr)
    from commit_try_new [OF c] s2 p
    have "sl_pending (slot_or_default cfg lp1) = Some (p\<lparr>pi_observed_before := Some v\<rparr>)"
      by (auto simp: record_observed_before_def)
    moreover have "item_grant_of p v = item_grant_of (p\<lparr>pi_observed_before := Some v\<rparr>) v"
      by (simp add: item_grant_of_def)
    ultimately show ?thesis
      using p g unfolding ap_planned_def by (intro exI [of _ "p\<lparr>pi_observed_before := Some v\<rparr>"]) simp
  qed (use rest in simp)
qed

lemma item_expected_planned:
  assumes "item_expected io cfg p lp = (Inr (Some v), lp1)"
    and p: "sl_pending (slot_or_default cfg lp) = Some p" "\<not> pi_grant_complete p"
  shows "ap_planned io cfg (slot_or_default cfg lp1) (item_grant_of p v)"
proof -
  from assms(1) obtain binding lp2 where
    m: "(if pi_observed_before p = None then ret False
         else call (b_grant_may_have_applied io (grant_tag (pi_index p)))) lp = (Inr binding, lp2)"
    and rest: "(if needs_no_baseline cfg p then ret (Some 0)
       else case (if binding then pi_observed_before p else None) of
         Some recorded \<Rightarrow> ret (Some recorded)
       | None \<Rightarrow> observe_baseline io cfg p) lp2 = (Inr (Some v), lp1)"
    unfolding item_expected_def seq_Inr by blast
  from m have s2: "slot_or_default cfg lp2 = slot_or_default cfg lp"
    by (auto dest: call_slot [where cfg = cfg] split: if_splits)
  have g: "ig_expected_before (item_grant_of p v) = v" by (simp add: item_grant_of_def)
  show ?thesis
  proof (cases "needs_no_baseline cfg p")
    case True
    with rest s2 p g show ?thesis unfolding ap_planned_def by (intro exI [of _ p]) simp
  next
    case nb: False
    show ?thesis
    proof (cases "if binding then pi_observed_before p else None")
      case None
      with rest nb have "observe_baseline io cfg p lp2 = (Inr (Some v), lp1)" by simp
      then show ?thesis by (rule observe_baseline_planned) (simp_all add: s2 p)
    next
      case (Some w)
      with rest nb have "lp1 = lp2" "w = v" by simp_all
      with Some s2 p g show ?thesis unfolding ap_planned_def by (intro exI [of _ p]) (simp split: if_splits)
    qed
  qed
qed

lemma upgrade_target_slot:
  "upgrade_target_for io cfg b lp = (r, lp1) \<Longrightarrow>
   slot_or_default cfg lp1 = slot_or_default cfg lp \<and> the_slot cfg lp1 = the_slot cfg lp"
  unfolding upgrade_target_for_def
  by (auto elim!: seq_cases dest!: call_slot [where cfg = cfg] split: if_splits)

lemma plan_item_slot:
  "plan_item io cfg indexed it lp = (r, lp1) \<Longrightarrow> slot_or_default cfg lp1 = slot_or_default cfg lp"
  unfolding plan_item_def note_upgrade_def
  by (auto elim!: seq_cases dest!: upgrade_target_slot split: option.splits upgrade_target.splits sum.splits)

lemma raise_plan_pending:
  assumes "raise_plan io cfg b p received target lp = (Inr p', lp1)"
    and "sl_pending (slot_or_default cfg lp) = Some p"
  shows "sl_pending (slot_or_default cfg lp1) = Some p'"
  using assms unfolding raise_plan_def note_upgrade_def Let_def
  by (auto simp: seq_Inr raise_pending_upgrade_def raised_plan_def dest!: commit_try_new
      split: if_splits option.splits)

lemma refresh_pending:
  assumes "refresh_pending_upgrade io cfg p lp = (Inr p', lp1)"
    and p: "sl_pending (slot_or_default cfg lp) = Some p"
  shows "sl_pending (slot_or_default cfg lp1) = Some p'"
proof (cases "\<exists>b received. bm_get (rc_items cfg) (pi_ap_item_id p) = Some b \<and> rb_reinforcement_level b = Some received \<and>
    \<not> pi_grant_complete p \<and> pi_observed_before p = None")
  case False
  with assms show ?thesis
    unfolding refresh_pending_upgrade_def by (auto split: if_splits option.splits)
next
  case True
  with assms(1) obtain b received t lp2 where u: "upgrade_target_for io cfg b lp = (Inr t, lp2)"
    "(case t of HoldPlan \<Rightarrow> ret p | Level target \<Rightarrow> raise_plan io cfg b p received target) lp2 = (Inr p', lp1)"
    unfolding refresh_pending_upgrade_def by (auto simp: seq_Inr)
  with upgrade_target_slot [OF u(1)] p show ?thesis
    by (cases t) (auto intro: raise_plan_pending)
qed

lemma pending_the_slot: "Option.bind (the_slot cfg lp) sl_pending = sl_pending (slot_or_default cfg lp)"
  by (simp add: slot_or_default_def default_slot_def split: option.split)

lemma ensure_plan_pending:
  assumes "ensure_plan io cfg indexed it lp = (Inr (Some p), lp1)"
  shows "sl_pending (slot_or_default cfg lp1) = Some p"
proof (cases "sl_pending (slot_or_default cfg lp)")
  case (Some q)
  with assms show ?thesis
    unfolding ensure_plan_def pending_the_slot
    by (auto simp: seq_Inr split: if_splits dest: refresh_pending)
next
  case None
  with assms obtain lp2 where pl: "plan_item io cfg indexed it lp = (Inr (Some p), lp2)"
    and c: "commit_try io cfg (begin_item p) lp2 = (Inr (), lp1)"
    unfolding ensure_plan_def pending_the_slot by (auto simp: seq_Inr split: option.splits)
  from commit_try_new [OF c] plan_item_slot [OF pl] None show ?thesis
    by (auto simp: begin_item_def split: if_splits)
qed

section \<open>The deliveries\<close>

context lane_frame
begin

lemma keeps_submit_sustain:
  assumes "planned io cfg (slot_or_default cfg lp) (sustain_grant cfg key v)"
  shows "R lp (snd (submit_sustain io cfg key v lp))"
  unfolding submit_sustain_def set_sustain_polls_def
  by (rule keeps_grant_at [OF assms]) (intro keeps_rules keeps_sustain_failed keeps_sustain_pending)

lemma keeps_deliver_sustain:
  assumes row: "bm_get (sl_pending_sustain (slot_or_default cfg lp)) key = Some recorded"
  shows "R lp (snd (deliver_sustain io cfg key recorded lp))"
proof -
  obtain r lp1 where e: "sustain_expected io cfg key recorded lp = (r, lp1)" by fastforce
  have "R lp1 (snd (submit_sustain io cfg key v lp1))" if "r = Inr (Some v)" for v
    using sustain_expected_planned [OF e [unfolded that] row] by (intro keeps_submit_sustain) (simp add: planned_def)
  then show ?thesis
    unfolding deliver_sustain_def
    by (intro keeps_seq_at) (rule e, rule keepsD [OF keeps_sustain_expected e],
        auto simp: ret_def R_refl split: option.split)
qed

lemma keeps_withdraw_sustain: "keeps R (withdraw_sustain io cfg key)"
  unfolding withdraw_sustain_def by (intro keeps_rules)

lemma keeps_watermark_then:
  assumes "\<And>o' lp2. reconcile_watermark io cfg lp = (Inr o', lp2) \<Longrightarrow> R lp2 (snd (f o' lp2))"
  shows "R lp (snd (seq (reconcile_watermark io cfg) f lp))"
proof -
  obtain r lp2 where w: "reconcile_watermark io cfg lp = (r, lp2)" by fastforce
  show ?thesis
    by (rule keeps_seq_at) (rule w, rule keepsD [OF keeps_watermark w], use assms w in auto)
qed

lemma keeps_sustain_row:
  assumes row: "bm_get (sl_pending_sustain (slot_or_default cfg lp)) key = Some recorded"
  shows "R lp (snd (poll_sustain_row io cfg key recorded lp))"
proof -
  obtain r lp1 where c: "require_runtime_context io cfg ''pickup sustain delivery'' lp = (r, lp1)" by fastforce
  have "R lp2 (snd (deliver_sustain io cfg key recorded lp2))"
    if "reconcile_watermark io cfg lp1 = (q, lp2)" for q lp2
    using context_rows [OF c] watermark_rows [OF that] row by (intro keeps_deliver_sustain) (simp add: rows_def)
  then have go: "R lp1 (snd (seq (reconcile_watermark io cfg) (\<lambda>outcome.
      if outcome = Hold then ret SustainPending else deliver_sustain io cfg key recorded) lp1))"
    by (intro keeps_watermark_then) (auto simp: ret_def R_refl)
  from keeps_withdraw_sustain have "R lp1 (snd (withdraw_sustain io cfg key lp1))" by (simp add: keeps_def)
  with go show ?thesis
    unfolding poll_sustain_row_def
    by (intro keeps_seq_at) (rule c, rule keepsD [OF keeps_context c], auto split: option.split)
qed

lemma keeps_poll_sustain: "keeps R (poll_sustain io cfg)"
proof -
  have "keeps R (seq (look (next_sustain cfg)) (\<lambda>next.
       case next of
         None \<Rightarrow> ret SustainIdle
       | Some row \<Rightarrow> poll_sustain_row io cfg (fst row) (snd row)))"
    by (rule keepsI) (auto simp: seq_def look_def ret_def R_refl split: option.split
        intro!: keeps_sustain_row next_sustain_row)
  with keeps_retry show ?thesis unfolding poll_sustain_def by (rule keeps_seq)
qed

lemma keeps_park: "keeps R (park_terminal_grant io cfg it p failure)"
  unfolding park_terminal_grant_def by (intro keeps_rules)

lemma keeps_submit_item:
  assumes "planned io cfg (slot_or_default cfg lp) (item_grant_of p v)"
  shows "R lp (snd (submit_item io cfg it p v lp))"
  unfolding submit_item_def by (rule keeps_grant_at [OF assms]) (intro keeps_rules keeps_park)

lemma keeps_item_expected: "keeps R (item_expected io cfg p)"
  unfolding item_expected_def observe_baseline_def by (intro keeps_rules)

lemma keeps_grant_stage:
  assumes p: "sl_pending (slot_or_default cfg lp) = Some p"
  shows "R lp (snd (grant_stage io cfg it p lp))"
proof (cases "pi_grant_complete p")
  case False
  obtain r lp1 where e: "item_expected io cfg p lp = (r, lp1)" by fastforce
  have "R lp1 (snd (submit_item io cfg it p v lp1))" if "r = Inr (Some v)" for v
    using item_expected_planned [OF e [unfolded that] p False] by (intro keeps_submit_item) (simp add: planned_def)
  then have "R lp (snd (seq (item_expected io cfg p) (\<lambda>base.
      case base of None \<Rightarrow> ret (Inl ItemPending) | Some v \<Rightarrow> submit_item io cfg it p v) lp))"
    by (intro keeps_seq_at) (rule e, rule keepsD [OF keeps_item_expected e],
        auto simp: ret_def R_refl split: option.split)
  with False show ?thesis by (simp add: grant_stage_def)
qed (simp add: grant_stage_def ret_def R_refl)

lemma keeps_finish_item: "keeps R (finish_item io cfg it p)"
  unfolding finish_item_def award_done_def equip_stage_def
  by (intro keeps_rules)

lemma keeps_deliver_item:
  assumes "sl_pending (slot_or_default cfg lp) = Some p"
  shows "R lp (snd (deliver_item io cfg it p lp))"
proof -
  obtain r lp1 where g: "grant_stage io cfg it p lp = (r, lp1)" by fastforce
  with keeps_grant_stage [OF assms, of it] have "R lp lp1" by simp
  with g have "R lp (snd (seq (grant_stage io cfg it p) (\<lambda>r.
      case r of Inl result \<Rightarrow> ret result | Inr granted \<Rightarrow> finish_item io cfg it granted) lp))"
    using keeps_finish_item
    by (intro keeps_seq_at) (rule g, assumption, auto simp: keeps_def ret_def R_refl split: sum.split)
  with keeps_park show ?thesis by (auto simp: deliver_item_def keeps_def split: option.split)
qed

lemma keeps_upgrade_target: "keeps R (upgrade_target_for io cfg b)"
  unfolding upgrade_target_for_def by (intro keeps_rules)

lemma keeps_target:
  "(x = HoldPlan \<Longrightarrow> keeps R m) \<Longrightarrow> (\<And>t. x = Level t \<Longrightarrow> keeps R (f t)) \<Longrightarrow>
   keeps R (case x of Level t \<Rightarrow> f t | HoldPlan \<Rightarrow> m)"
  by (cases x) auto

lemma keeps_plan: "keeps R (ensure_plan io cfg indexed it)"
  unfolding ensure_plan_def refresh_pending_upgrade_def raise_plan_def plan_item_def note_upgrade_def Let_def
  by (intro keeps_rules keeps_upgrade_target keeps_target)

lemma keeps_deliver_front: "keeps R (deliver_front io cfg indexed it)"
proof (rule keepsI)
  fix lp
  have "R lp1 (snd (seq (ensure_plan io cfg indexed it) (\<lambda>plan.
      case plan of None \<Rightarrow> ret ItemHeld | Some p \<Rightarrow> deliver_item io cfg it p) lp1))" for lp1
  proof -
    obtain r lp2 where e: "ensure_plan io cfg indexed it lp1 = (r, lp2)" by fastforce
    have "R lp2 (snd (deliver_item io cfg it p lp2))" if "r = Inr (Some p)" for p
      using ensure_plan_pending [OF e [unfolded that]] by (rule keeps_deliver_item)
    then show ?thesis
      by (intro keeps_seq_at) (rule e, rule keepsD [OF keeps_plan e],
          auto simp: ret_def R_refl split: option.split)
  qed
  then show "R lp (snd (deliver_front io cfg indexed it lp))"
    unfolding deliver_front_def by (intro keeps_watermark_then) (auto simp: ret_def R_refl)
qed

lemma keeps_bool: "keeps R m \<Longrightarrow> keeps R n \<Longrightarrow> keeps R (case b of True \<Rightarrow> m | False \<Rightarrow> n)"
  by (cases b) auto

lemma keeps_poll_front: "keeps R (poll_front io cfg indexed it)"
  unfolding poll_front_def withdraw_not_ready_def withdraw_refused_def forget_observed_baseline_def
  by (intro keeps_rules keeps_bool keeps_context keeps_deliver_front)

lemma keeps_advance_sustain: "keeps R (advance_sustain io cfg)"
  unfolding advance_sustain_def by (intro keeps_rules keeps_poll_sustain)

lemma keeps_poll_items: "keeps R (poll_items io cfg received)"
  unfolding poll_items_def poll_idle_def requeue_compatible_def
  by (intro keeps_rules keeps_retry keeps_advance_sustain keeps_poll_front keeps_context keeps_watermark)

lemma keeps_startup: "keeps R (requeue_startup_parks io cfg)"
  unfolding requeue_startup_parks_def by (intro keeps_rules keeps_recover)

lemma keeps_leftover: "keeps R (reconcile_pending_command io cfg)"
  unfolding reconcile_pending_command_def by (intro keeps_rules)

lemma keeps_deaths: "keeps R (poll_local_death io cfg)"
proof -
  have ob: "keeps R (observe_local_death hp)" for hp
  proof (rule keepsI)
    fix lp
    have "inner_change (\<lambda>lp. lp\<lparr>lp_death_observer := snd (observe_hp hp (lp_death_observer lp))\<rparr>)"
      by (simp add: inner_change_def)
    from R_private [OF this, of lp] show "R lp (snd (observe_local_death hp lp))"
      by (simp add: observe_local_death_def case_prod_beta)
  qed
  have edge: "keeps R (case e of None \<Rightarrow> m | Some LocalDeath \<Rightarrow> f | Some IncomingEcho \<Rightarrow> g)"
    if "keeps R m" "keeps R f" "keeps R g" for e m f g
    using that by (auto split: option.split local_death_edge.split)
  show ?thesis
    unfolding poll_local_death_def record_qualifying_local_death_def
    by (intro keeps_if keeps_seq ob edge keeps_basic keeps_commits)
qed

lemma keeps_kill: "keeps R (receive_death_link io cfg)"
  unfolding receive_death_link_def by (intro keeps_rules)

lemma keeps_scan: "keeps R (location_scan io d now checked goal bs p)"
proof (induction bs arbitrary: p)
  case (Cons b bs)
  show ?case unfolding location_scan.simps Let_def by (intro keeps_rules Cons.IH)
qed (simp add: keeps_ret)

lemma keeps_poll_locations: "keeps R (poll_locations_at io cfg checked now)"
  unfolding poll_locations_at_def clear_locations_def follow_identity_def scan_bindings_def
  by (intro keeps_rules keeps_context keeps_watermark keeps_scan)

end

end
