(* ===== verification/BbOperator.thy ===== *)
theory BbOperator
  imports BbGrants
begin

text \<open>
  The operator's rescue operations under the laws of a frame that also allows changes of the
  operator's rows.
\<close>

section \<open>The slot changes\<close>

lemma slot_admin:
  "(\<And>s. cursor_part (g s) = cursor_part s) \<Longrightarrow> (\<And>s. d s \<or> lanes (g s) = lanes s) \<Longrightarrow> slot_step g d"
  by (auto simp: slot_step_def intro: slot_path_admin)

lemma note_part: "cursor_part (operator_note now c a n s) = cursor_part s"
  "sl_operator_grants (operator_note now c a n s) = sl_operator_grants s"
  "sl_pending_sustain (operator_note now c a n s) = sl_pending_sustain s"
  by (simp_all add: operator_note_def cursor_part_def)

lemma lane_note: "lane_step (operator_note now c a n) (\<lambda>_. True)"
  by (rule lane_admin) (simp_all add: note_part)

lemma try_reissue: "try_step (reissue_noted now index ap)"
  unfolding try_step_def
proof (intro allI impI)
  fix s s'
  assume "reissue_noted now index ap s = Inr s'"
  then obtain t where t: "reissue_pending index s = Inr t"
    "s' = operator_note now ''reissue'' ap (''index '' @ show_nat index) t"
    by (auto simp: reissue_noted_def split: sum.splits)
  have a: "ledger_op s t" using t(1) by (rule ls_reissue)
  from slot_path_trans [OF slot_path_op [OF a] slot_path_admin [of s' t]] ledger_op_rows [OF a]
  show "slot_path s s' \<and> sl_operator_grants s' = sl_operator_grants s" by (simp add: t(2) note_part)
qed

lemma lane_rebind: "lane_step (\<lambda>s. snd (rebind_step now s)) (\<lambda>s. fst (rebind_step now s) \<noteq> None)"
  unfolding rebind_step_def
  by (rule lane_admin) (auto simp: operator_note_def cursor_part_def split: option.split)

lemma queue_operator_part: "cursor_part (queue_operator_grant now c ap b n s) = cursor_part s"
  unfolding queue_operator_grant_def note_part by (simp add: cursor_part_def)

lemma slot_give: "slot_step (\<lambda>s. snd (give_step now ap b n s)) (\<lambda>s. fst (give_step now ap b n s))"
  by (rule slot_admin) (simp_all add: give_step_def queue_operator_part)

lemma slot_census: "slot_step (\<lambda>s. snd (fold (census_one resolve now) cs ((0, 0), s))) (\<lambda>_. True)"
proof (rule slot_admin)
  have one: "cursor_part (snd (census_one resolve now c acc)) = cursor_part (snd acc)" for c acc
    by (cases c; cases acc; cases "fst acc") (simp add: census_one_def queue_operator_part)
  have "cursor_part (snd (fold (census_one resolve now) cs acc)) = cursor_part (snd acc)" for acc
    by (induction cs arbitrary: acc) (simp_all add: one)
  then show "cursor_part (snd (fold (census_one resolve now) cs ((0, 0), s))) = cursor_part s" for s
    by (metis snd_conv)
qed simp

lemma slot_operator:
  "slot_step (update_operator_grant ap f) (\<lambda>_. True)"
  "slot_step (park_operator_slot ap failure) (\<lambda>_. True)"
  "slot_step (\<lambda>s. s\<lparr>sl_operator_grants := bm_insert ap p (sl_operator_grants s)\<rparr>) (\<lambda>_. True)"
  by (rule slot_admin; simp add: cursor_part_def update_operator_grant_def park_operator_slot_def split: option.split)+

lemma operator_expected_planned:
  assumes "operator_expected io cfg ap p lp = (Inr (Some v), lp1)"
    and row: "bm_get (sl_operator_grants (slot_or_default cfg lp)) ap = Some p" "\<not> pi_grant_complete p"
  shows "operator_planned io (slot_or_default cfg lp1) (operator_item_grant ap p v)"
proof -
  have g: "ig_expected_before (operator_item_grant ap p v) = v" by (simp add: operator_item_grant_def)
  show ?thesis
  proof (cases "pi_observed_before p")
    case (Some w)
    with assms(1) have "lp1 = lp" "w = v" by (simp_all add: operator_expected_def)
    with Some row g show ?thesis unfolding operator_planned_def by (intro exI [of _ ap] exI [of _ p]) simp
  next
    case None
    with assms(1) obtain obs lp2 where
      obs: "call (b_observe_stack_quantity io (pi_normalized_item_id p) (pi_reinforcement_level p)) lp = (Inr obs, lp2)"
      and rest: "(case obs of
              Quantity v \<Rightarrow>
                seq (commit io cfg (\<lambda>s. s\<lparr>sl_operator_grants :=
                       bm_insert ap (p\<lparr>pi_observed_before := Some v\<rparr>) (sl_operator_grants s)\<rparr>)) (\<lambda>_.
                ret (Some v))
            | NotReady \<Rightarrow> ret None
            | Unsupported \<Rightarrow> ret (Some 0)) lp2 = (Inr (Some v), lp1)"
      by (auto simp: operator_expected_def seq_Inr)
    from call_slot [OF obs, of cfg] have s2: "slot_or_default cfg lp2 = slot_or_default cfg lp" by simp
    show ?thesis
    proof (cases obs)
      case Unsupported
      have un: "unreadable_stack io (operator_item_grant ap p v)"
        using unreadable_call [of io _ _ lp lp2 "operator_item_grant ap p v"] obs Unsupported
        by (simp add: operator_item_grant_def)
      from rest Unsupported have "lp1 = lp2" "v = 0" by simp_all
      with un s2 row g show ?thesis unfolding operator_planned_def by (intro exI [of _ ap] exI [of _ p]) simp
    next
      case (Quantity q)
      let ?p = "p\<lparr>pi_observed_before := Some v\<rparr>"
      from rest Quantity obtain u where c: "commit io cfg (\<lambda>s. s\<lparr>sl_operator_grants :=
          bm_insert ap ?p (sl_operator_grants s)\<rparr>) lp2 = (u, lp1)"
        by (auto simp: seq_Inr)
      have "bm_get (sl_operator_grants (slot_or_default cfg lp1)) ap = Some ?p"
        by (simp add: commit_slot [OF c])
      moreover have "operator_item_grant ap p v = operator_item_grant ap ?p v" by (simp add: operator_item_grant_def)
      ultimately show ?thesis
        using row g unfolding operator_planned_def by (intro exI [of _ ap] exI [of _ ?p]) simp
    qed (use rest in simp)
  qed
qed

section \<open>The operations\<close>

locale operator_frame = lane_frame +
  assumes R_slot: "\<And>lp g d. slot_step g d \<Longrightarrow> R lp (commit_core io cfg g d lp)"
    and advance_operators:
      "\<And>lp r lp1. advance_sustain io cfg lp = (r, lp1) \<Longrightarrow>
         sl_operator_grants (slot_or_default cfg lp1) = sl_operator_grants (slot_or_default cfg lp)"
begin

lemma keeps_slot_commit: "slot_step f (\<lambda>_. True) \<Longrightarrow> keeps R (commit io cfg f)"
  by (rule keepsI) (simp add: commit_def commit_if_core R_slot)

lemma keeps_slot_get:
  "slot_step (\<lambda>s. snd (f s)) (\<lambda>s. P (fst (f s))) \<Longrightarrow> keeps R (commit_get io cfg P f)"
  by (rule keepsI) (simp add: commit_get_def commit_if_core R_slot)

lemmas keeps_operator_rules = keeps_rules slot_give [THEN keeps_slot_get] slot_census [THEN keeps_slot_get]
  slot_operator [THEN keeps_slot_commit] lane_note [THEN keeps_commit] lane_rebind [THEN keeps_commit_get]
  try_reissue

lemma keeps_gameplay: "keeps R (require_gameplay io cfg oper waiting)"
  unfolding require_gameplay_def by (intro keeps_rules keeps_context)

lemma keeps_refuse: "keeps R (refuse r)"
  unfolding refuse_def by (intro keeps_rules)

lemma keeps_rescues:
  "keeps R (rescue_retry_blocked io cfg index)"
  "keeps R (rescue_reissue_pending io cfg index)"
  "keeps R (rescue_rebind io cfg)"
  "keeps R (rescue_set_flag io cfg flag name)"
  "keeps R (rescue_set_raw_flag io cfg flag name)"
  "keeps R (rescue_read_flag io cfg flag)"
  "keeps R (rescue_give io cfg ap name)"
  "keeps R (rescue_equipment_census io cfg resolve)"
  unfolding rescue_retry_blocked_def rescue_reissue_pending_def rescue_rebind_def rescue_set_flag_def
    rescue_set_raw_flag_def rescue_read_flag_def rescue_give_def rescue_equipment_census_def now_ms_def
  by (intro keeps_operator_rules keeps_gameplay keeps_refuse)+

lemma keeps_step:
  "(\<And>f l. x = Flag f l \<Longrightarrow> keeps R (a f l)) \<Longrightarrow> (\<And>f. x = RawFlag f \<Longrightarrow> keeps R (b f)) \<Longrightarrow>
   (\<And>i. x = GiveItem i \<Longrightarrow> keeps R (c i)) \<Longrightarrow>
   keeps R (case x of Flag f l \<Rightarrow> a f l | RawFlag f \<Rightarrow> b f | GiveItem i \<Rightarrow> c i)"
  by (cases x) auto

lemma keeps_run_steps: "keeps R (run_steps io cfg item_name location_name recipe cords sts)"
proof (induction sts)
  case (Cons st sts)
  show ?case
    unfolding run_steps.simps run_step_def by (intro keeps_rules keeps_step keeps_rescues Cons.IH)
qed (simp add: keeps_ret)

lemma keeps_recipe: "keeps R (rescue_recipe_apply io cfg item_name location_name name)"
  unfolding rescue_recipe_apply_def run_recipe_def now_ms_def
  by (intro keeps_operator_rules keeps_gameplay keeps_run_steps)

lemma keeps_operator_expected: "keeps R (operator_expected io cfg ap p)"
  unfolding operator_expected_def by (intro keeps_operator_rules)

lemma keeps_submit_operator:
  assumes "planned io cfg (slot_or_default cfg lp) (operator_item_grant ap p v)"
  shows "R lp (snd (submit_operator io cfg ap p v lp))"
  unfolding submit_operator_def park_operator_grant_def
  by (rule keeps_grant_at [OF assms]) (intro keeps_operator_rules)

lemma keeps_deliver_operator:
  assumes row: "bm_get (sl_operator_grants (slot_or_default cfg lp)) ap = Some p" "\<not> pi_grant_complete p"
  shows "R lp (snd (deliver_operator io cfg ap p lp))"
proof -
  obtain r lp1 where e: "operator_expected io cfg ap p lp = (r, lp1)" by fastforce
  have "R lp1 (snd (submit_operator io cfg ap p v lp1))" if "r = Inr (Some v)" for v
    using operator_expected_planned [OF e [unfolded that] row] by (intro keeps_submit_operator) (simp add: planned_def)
  then show ?thesis
    unfolding deliver_operator_def
    by (intro keeps_seq_at) (rule e, rule keepsD [OF keeps_operator_expected e],
        auto simp: ret_def R_refl split: option.split)
qed

lemma keeps_withdraw_operator: "keeps R (withdraw_operator io cfg ap)"
  unfolding withdraw_operator_def by (intro keeps_operator_rules)

lemma keeps_withdraw_then: "(\<And>a. keeps R (f a)) \<Longrightarrow> keeps R (seq (withdraw_operator io cfg ap) f)"
  by (rule keeps_seq [OF keeps_withdraw_operator])

lemma keeps_operator_ready:
  assumes row: "bm_get (sl_operator_grants (slot_or_default cfg lp)) ap = Some p" "\<not> pi_grant_complete p"
  shows "R lp (snd (seq (attempt (require_runtime_context io cfg ''rescue give'')) (\<lambda>ctx.
           case ctx of
             Inr (Some _) \<Rightarrow> deliver_operator io cfg ap p
           | Inr None \<Rightarrow> seq (withdraw_operator io cfg ap) (\<lambda>_. ret GrantPending)
           | Inl error \<Rightarrow> seq (withdraw_operator io cfg ap) (\<lambda>_. throw error)) lp))"
proof -
  obtain r lp1 where c: "require_runtime_context io cfg ''rescue give'' lp = (r, lp1)" by fastforce
  then have a: "attempt (require_runtime_context io cfg ''rescue give'') lp = (Inr r, lp1)"
    by (simp add: attempt_eq)
  have d: "R lp1 (snd (deliver_operator io cfg ap p lp1))"
    using context_rows [OF c] row by (intro keeps_deliver_operator) (simp_all add: rows_def)
  have w: "R lp1 (snd (seq (withdraw_operator io cfg ap) (\<lambda>_. ret GrantPending) lp1))"
    by (rule keeps_at) (rule keeps_withdraw_then, rule keeps_ret)
  have t: "R lp1 (snd (seq (withdraw_operator io cfg ap) (\<lambda>_. throw e) lp1))" for e
    by (rule keeps_at) (rule keeps_withdraw_then, rule keeps_throw)
  show ?thesis
    by (rule keeps_seq_at) (rule a, rule keepsD [OF keeps_context c], use d w t in \<open>auto split: sum.split option.split\<close>)
qed

lemma keeps_operator_row:
  assumes row: "bm_get (sl_operator_grants (slot_or_default cfg lp)) ap = Some p" "\<not> pi_grant_complete p"
  shows "R lp (snd (poll_operator_row io cfg ap p lp))"
proof -
  obtain r lp1 where a: "advance_sustain io cfg lp = (r, lp1)" by fastforce
  have "bm_get (sl_operator_grants (slot_or_default cfg lp1)) ap = Some p"
    using advance_operators [OF a] row by simp
  from keeps_operator_ready [OF this row(2)] show ?thesis
    unfolding poll_operator_row_def
    by (intro keeps_seq_at) (rule a, rule keepsD [OF keeps_advance_sustain a], auto simp: ret_def R_refl)
qed

lemma keeps_poll_operator: "keeps R (poll_operator_grant io cfg)"
proof (rule keepsI)
  fix lp
  have "R lp (snd (poll_operator_row io cfg (fst r) (snd r) lp))"
    if r: "Option.bind (the_slot cfg lp) next_operator_grant = Some r" for r
  proof -
    from r obtain s where s: "the_slot cfg lp = Some s" "next_operator_grant s = Some r"
      by (auto simp: bind_eq_Some_conv)
    then have "r \<in> set (entries (sl_operator_grants s))" "\<not> pi_grant_complete (snd r)"
      by (auto simp: next_operator_grant_def find_Some_iff in_set_conv_nth)
    with the_slot_or_default [OF s(1)] show ?thesis
      by (intro keeps_operator_row) (simp_all add: entries_iff [symmetric])
  qed
  then show "R lp (snd (poll_operator_grant io cfg lp))"
    by (auto simp: poll_operator_grant_def seq_def look_def ret_def R_refl split: option.split)
qed

end

end
