(* ===== verification/BbSession.thy ===== *)
theory BbSession
  imports BbOperator
begin

text \<open>
  Sessions of the Bloodborne client: any sequence of its operations over any backend, with the game
  changing in between and with restarts from the ledger file. The backend is watched: the ledgers
  written, the grant commands submitted and the event flags read are recorded in order.
\<close>

section \<open>The watched backend\<close>

datatype client_event = Saved receive_ledger | Submitted item_grant | FlagRead nat "bool option"

type_synonym 'b watched = "'b \<times> client_event list"

definition spy_call :: "('b, 'a) call \<Rightarrow> ('b watched, 'a) call" where
  "spy_call c w = (case c (fst w) of (r, b) \<Rightarrow> (r, (b, snd w)))"

definition spy_save :: "(receive_ledger \<Rightarrow> ('b, unit) call) \<Rightarrow> receive_ledger \<Rightarrow> ('b watched, unit) call" where
  "spy_save c l w =
     (case c l (fst w) of
        (Inl e, b) \<Rightarrow> (Inl e, (b, snd w))
      | (Inr u, b) \<Rightarrow> (Inr u, (b, snd w @ [Saved l])))"

definition spy_grant :: "(item_grant \<Rightarrow> ('b, operation_progress) call) \<Rightarrow> item_grant \<Rightarrow> ('b watched, operation_progress) call" where
  "spy_grant c g w = (case c g (fst w) of (r, b) \<Rightarrow> (r, (b, snd w @ [Submitted g])))"

definition spy_read :: "(nat \<Rightarrow> ('b, bool option) call) \<Rightarrow> nat \<Rightarrow> ('b watched, bool option) call" where
  "spy_read c f w =
     (case c f (fst w) of
        (Inl e, b) \<Rightarrow> (Inl e, (b, snd w))
      | (Inr r, b) \<Rightarrow> (Inr r, (b, snd w @ [FlagRead f r])))"

definition spy :: "'b backend \<Rightarrow> 'b watched backend" where
  "spy io =
     \<lparr>b_release_preexecution_vial_refusal = (\<lambda>tag. spy_call (b_release_preexecution_vial_refusal io tag)),
      b_location_context = spy_call (b_location_context io),
      b_read_event_flag = spy_read (b_read_event_flag io),
      b_write_event_flag = (\<lambda>f on. spy_call (b_write_event_flag io f on)),
      b_target_weapon_level = spy_call (b_target_weapon_level io),
      b_upgrade_scan_ready = spy_call (b_upgrade_scan_ready io),
      b_grant_item = spy_grant (b_grant_item io),
      b_observe_stack_quantity = (\<lambda>i l. spy_call (b_observe_stack_quantity io i l)),
      b_observe_storage_quantity = (\<lambda>i l. spy_call (b_observe_storage_quantity io i l)),
      b_inventory_readable = (\<lambda>i w. b_inventory_readable io i (fst w)),
      b_grant_may_have_applied = (\<lambda>tag. spy_call (b_grant_may_have_applied io tag)),
      b_last_grant_went_to_storage = (\<lambda>tag w. b_last_grant_went_to_storage io tag (fst w)),
      b_equip_item = (\<lambda>r. spy_call (b_equip_item io r)),
      b_death_link_kill = spy_call (b_death_link_kill io),
      b_observe_player_hp = spy_call (b_observe_player_hp io),
      b_withdraw_unwitnessed_grant = (\<lambda>tag. spy_call (b_withdraw_unwitnessed_grant io tag)),
      b_retire_grant = (\<lambda>tag r. spy_call (b_retire_grant io tag r)),
      b_read_save_watermark = spy_call (b_read_save_watermark io),
      b_write_save_watermark = (\<lambda>c. spy_call (b_write_save_watermark io c)),
      b_save = spy_save (b_save io),
      b_diagnostics = (\<lambda>w. b_diagnostics io (fst w)),
      b_timestamp_ms = (\<lambda>w. b_timestamp_ms io (fst w))\<rparr>"

text \<open>The ledger in the file after the events, starting from \<open>l0\<close>.\<close>

definition file_after :: "receive_ledger \<Rightarrow> client_event list \<Rightarrow> receive_ledger" where
  "file_after l0 es = fold (\<lambda>e l. case e of Saved l' \<Rightarrow> l' | _ \<Rightarrow> l) es l0"

definition events :: "'b watched client_loop \<Rightarrow> client_event list" where
  "events lp = snd (lp_backend lp)"

section \<open>Sessions\<close>

text \<open>One operation of the loop, on any backend.\<close>

inductive loop_step :: "'b backend \<Rightarrow> runtime_config \<Rightarrow> 'b client_loop \<Rightarrow> 'b client_loop \<Rightarrow> bool"
  for io cfg where
  lo_items: "loop_step io cfg lp (snd (poll_items io cfg received lp))"
| lo_sustain: "loop_step io cfg lp (snd (poll_sustain io cfg lp))"
| lo_locations: "loop_step io cfg lp (snd (poll_locations_at io cfg checked now lp))"
| lo_queue: "loop_step io cfg lp (snd (queue_sustain_for_checks io cfg ls lp))"
| lo_death: "loop_step io cfg lp (snd (poll_local_death io cfg lp))"
| lo_kill: "loop_step io cfg lp (snd (receive_death_link io cfg lp))"
| lo_victory: "loop_step io cfg lp (snd (record_victory io cfg record lp))"
| lo_startup: "loop_step io cfg lp (snd (requeue_startup_parks io cfg lp))"
| lo_leftover: "loop_step io cfg lp (snd (reconcile_pending_command io cfg lp))"
| lo_operator: "loop_step io cfg lp (snd (poll_operator_grant io cfg lp))"
| lo_retry: "loop_step io cfg lp (snd (rescue_retry_blocked io cfg index lp))"
| lo_reissue: "loop_step io cfg lp (snd (rescue_reissue_pending io cfg index lp))"
| lo_rebind: "loop_step io cfg lp (snd (rescue_rebind io cfg lp))"
| lo_set_flag: "loop_step io cfg lp (snd (rescue_set_flag io cfg flag name lp))"
| lo_read_flag: "loop_step io cfg lp (snd (rescue_read_flag io cfg flag lp))"
| lo_give: "loop_step io cfg lp (snd (rescue_give io cfg ap name lp))"
| lo_census: "loop_step io cfg lp (snd (rescue_equipment_census io cfg resolve lp))"
| lo_recipe: "loop_step io cfg lp (snd (rescue_recipe_apply io cfg item_name location_name recipe lp))"

context operator_frame
begin

lemma step_keeps: "loop_step io cfg lp lp' \<Longrightarrow> R lp lp'"
  by (induction rule: loop_step.induct)
     (blast intro: keeps_at keeps_poll_items keeps_poll_sustain keeps_poll_locations keeps_queue keeps_deaths
        keeps_kill keeps_victory keeps_startup keeps_leftover keeps_poll_operator keeps_rescues keeps_recipe)+

end

text \<open>A session: operations, changes of the game, and restarts that read the file back.\<close>

inductive client_run :: "'b backend \<Rightarrow> runtime_config \<Rightarrow> receive_ledger \<Rightarrow> 'b watched client_loop \<Rightarrow> bool"
  for io cfg l0 where
  cr_start: "client_run io cfg l0 (client_loop_new (b, []) l0)"
| cr_step: "client_run io cfg l0 lp \<Longrightarrow> loop_step (spy io) cfg lp lp' \<Longrightarrow> client_run io cfg l0 lp'"
| cr_game: "client_run io cfg l0 lp \<Longrightarrow> client_run io cfg l0 (lp\<lparr>lp_backend := (b, events lp)\<rparr>)"
| cr_restart: "client_run io cfg l0 lp \<Longrightarrow>
    client_run io cfg l0 (client_loop_new (b, events lp) (file_after l0 (events lp)))"

section \<open>The watched backend under the laws\<close>

text \<open>A quiet call may read flags; it neither saves nor submits.\<close>

definition only_reads :: "client_event list \<Rightarrow> bool" where
  "only_reads es \<longleftrightarrow> (\<forall>e \<in> set es. \<exists>f r. e = FlagRead f r)"

definition same_events :: "'b watched \<Rightarrow> 'b watched \<Rightarrow> bool" where
  "same_events w w' \<longleftrightarrow> (\<exists>es. only_reads es \<and> snd w' = snd w @ es)"

lemma quiet_spy_call [simp]: "quiet same_events (spy_call c)"
  by (auto simp: quiet_def same_events_def spy_call_def only_reads_def split: prod.split)

lemma quiet_spy_read [simp]: "quiet same_events (spy_read c f)"
  by (auto simp: quiet_def same_events_def spy_read_def only_reads_def split: prod.split sum.split)

lemma quiet_spy: "quiet_backend same_events (spy io)"
  by (simp add: quiet_backend_def spy_def)

lemma quiet_any: "quiet_backend (\<lambda>_ _. True) io"
  by (simp add: quiet_backend_def quiet_def)

lemma unreadable_spy [simp]: "unreadable_stack (spy io) g = unreadable_stack io g"
proof -
  have "fst (b_observe_stack_quantity (spy io) item level w) = fst (b_observe_stack_quantity io item level (fst w))"
    for item level w by (simp add: spy_def spy_call_def split: prod.split)
  then show ?thesis unfolding unreadable_stack_def by (metis fst_conv)
qed

lemma planned_spy [simp]: "planned (spy io) cfg s g = planned io cfg s g"
  by (simp add: planned_def ap_planned_def sustain_planned_def operator_planned_def)

text \<open>The operator's rows are nobody else's: a first use of the laws, for any backend.\<close>

definition same_operators :: "runtime_config \<Rightarrow> 'b client_loop \<Rightarrow> 'b client_loop \<Rightarrow> bool" where
  "same_operators cfg lp lp' \<longleftrightarrow>
     sl_operator_grants (slot_or_default cfg lp') = sl_operator_grants (slot_or_default cfg lp)"

lemma settle_slot:
  assumes "settle io cfg i f lp = (r, lp1)"
  shows "slot_or_default cfg lp1 = slot_or_default cfg lp \<or>
    (\<exists>s'. f (slot_or_default cfg lp) = Inr s' \<and>
       (slot_or_default cfg lp1 = s' \<or> slot_or_default cfg lp1 = s'\<lparr>sl_save_watermark := Some i\<rparr>))"
proof (cases "f (slot_or_default cfg lp)")
  case (Inl e)
  with assms have "lp1 = put_slot cfg (\<lambda>s. snd (try_slot f s)) lp"
    by (simp add: settle_def seq_def on_slot_put try_slot_def)
  with Inl show ?thesis by (simp add: try_slot_def)
next
  case (Inr s')
  have "slot_or_default cfg lp1 = s' \<or> slot_or_default cfg lp1 = s'\<lparr>sl_save_watermark := Some i\<rparr>"
    using assms Inr
    by (auto simp: settle_def seq_def on_slot_put try_slot_def attempt_def set_watermark_def ret_def
        save_def call_def slot_or_default_ledger put_slot_def split: prod.splits if_splits)
  with Inr show ?thesis by blast
qed

lemma operators_frame: "lane_frame io cfg (\<lambda>_ _. True) (same_operators cfg)"
proof (unfold_locales; (simp add: quiet_any same_operators_def; fail)?)
  fix lp :: "'a client_loop" and f :: "'a client_loop \<Rightarrow> 'a client_loop"
  assume "inner_change f"
  then show "same_operators cfg lp (f lp)"
    by (simp add: same_operators_def slot_or_default_ledger inner_change_def)
next
  fix lp :: "'a client_loop" and g d
  assume "lane_step g d"
  then show "same_operators cfg lp (commit_core io cfg g d lp)"
    by (simp add: same_operators_def lane_step_def)
next
  fix lp :: "'a client_loop" and f i
  assume "lane_step (\<lambda>s. snd (try_slot f s)) (\<lambda>s. True)"
  then have "sl_operator_grants s' = sl_operator_grants s" if "f s = Inr s'" for s s'
    using that by (auto simp: lane_step_def try_slot_def split: sum.splits)
  with settle_slot [of io cfg i f lp] show "same_operators cfg lp (snd (settle io cfg i f lp))"
    by (cases "settle io cfg i f lp") (auto simp: same_operators_def)
next
  fix lp :: "'a client_loop" and g
  show "same_operators cfg lp (snd (call (b_grant_item io g) lp))"
    by (simp add: same_operators_def call_def split: prod.split)
qed

interpretation operators: lane_frame io cfg "\<lambda>_ _. True" "same_operators cfg" for io cfg
  by (rule operators_frame)

lemma advance_keeps_operators:
  "advance_sustain io cfg lp = (r, lp1) \<Longrightarrow>
   sl_operator_grants (slot_or_default cfg lp1) = sl_operator_grants (slot_or_default cfg lp)"
  using keepsD [OF operators.keeps_advance_sustain] by (simp add: same_operators_def)

section \<open>The ledger stays consistent\<close>

definition ledgers_ok :: "runtime_config \<Rightarrow> 'b watched client_loop \<Rightarrow> bool" where
  "ledgers_ok cfg lp \<longleftrightarrow>
     ledger_wf (slot_or_default cfg lp) \<and> (\<forall>l. Saved l \<in> set (events lp) \<longrightarrow> ledger_wf (ledger_slot cfg l))"

definition ok_kept :: "runtime_config \<Rightarrow> 'b watched client_loop \<Rightarrow> 'b watched client_loop \<Rightarrow> bool" where
  "ok_kept cfg lp lp' \<longleftrightarrow> (ledgers_ok cfg lp \<longrightarrow> ledgers_ok cfg lp')"

lemma save_spy:
  "\<exists>b. snd (save (spy io) lp) = lp\<lparr>lp_backend := (b, events lp @ [Saved (lp_ledger lp)])\<rparr> \<or>
       snd (save (spy io) lp) = lp\<lparr>lp_backend := (b, events lp)\<rparr>"
  by (auto simp: save_def call_def spy_def spy_save_def events_def split: prod.split sum.split)

lemma save_ok: "ledgers_ok cfg lp \<Longrightarrow> ledgers_ok cfg (snd (save (spy io) lp))"
  using save_spy [of io lp] by (auto simp: ledgers_ok_def events_def slot_or_default_ledger)

lemma put_ok:
  "ledgers_ok cfg lp \<Longrightarrow> ledger_wf (g (slot_or_default cfg lp)) \<Longrightarrow> ledgers_ok cfg (put_slot cfg g lp)"
  by (simp add: ledgers_ok_def events_def)

lemma backend_ok: "ledgers_ok cfg lp \<Longrightarrow> ledgers_ok cfg (lp\<lparr>lp_backend := (b, events lp)\<rparr>)"
  by (simp add: ledgers_ok_def events_def)

lemma call_spy: "\<exists>b. snd (call (spy_call c) lp) = lp\<lparr>lp_backend := (b, events lp)\<rparr>"
  by (auto simp: call_def spy_call_def events_def split: prod.split)

lemma wf_watermark: "ledger_wf s \<Longrightarrow> ledger_wf (s\<lparr>sl_save_watermark := w\<rparr>)"
  by (rule admin_wf [of _ s]) (simp_all add: cursor_part_def)

text \<open>The tail of an acknowledgement: a put, a quiet call, perhaps another put, the file.\<close>

lemma settle_refused:
  "f (slot_or_default cfg lp) = Inl e \<Longrightarrow> snd (settle io cfg i f lp) = put_slot cfg (\<lambda>s. snd (try_slot f s)) lp"
  by (simp add: settle_def seq_def on_slot_put try_slot_def)

lemma settle_done:
  assumes "f (slot_or_default cfg lp) = Inr s'"
  shows "\<exists>b lp2. snd (settle (spy io) cfg i f lp) = snd (save (spy io) lp2) \<and>
    (let lp1 = (put_slot cfg (\<lambda>s. snd (try_slot f s)) lp)\<lparr>lp_backend := (b, events lp)\<rparr>
     in lp2 = lp1 \<or> lp2 = put_slot cfg (\<lambda>s. s\<lparr>sl_save_watermark := Some i\<rparr>) lp1)"
proof -
  let ?put = "put_slot cfg (\<lambda>s. snd (try_slot f s)) lp"
  obtain r lp1 where c: "call (b_write_save_watermark (spy io) i) ?put = (r, lp1)" by fastforce
  with call_spy [of "b_write_save_watermark io i" ?put] obtain b where
    b: "lp1 = ?put\<lparr>lp_backend := (b, events lp)\<rparr>"
    by (auto simp: spy_def events_def)
  have "snd (settle (spy io) cfg i f lp) =
      snd (save (spy io) (if r = Inr True then put_slot cfg (\<lambda>s. s\<lparr>sl_save_watermark := Some i\<rparr>) lp1 else lp1))"
    using assms c by (simp add: settle_def seq_def on_slot_put try_slot_def attempt_def set_watermark_def ret_def)
  with b show ?thesis by (auto simp: Let_def)
qed

lemma settle_ok:
  assumes ok: "ledgers_ok cfg lp" and step: "lane_step (\<lambda>s. snd (try_slot f s)) (\<lambda>s. True)"
  shows "ledgers_ok cfg (snd (settle (spy io) cfg i f lp))"
proof -
  have wf: "ledger_wf (snd (try_slot f (slot_or_default cfg lp)))"
    using ok step by (auto simp: lane_step_def slot_step_def ledgers_ok_def intro: slot_path_wf)
  then have put: "ledgers_ok cfg (put_slot cfg (\<lambda>s. snd (try_slot f s)) lp)" by (rule put_ok [OF ok])
  show ?thesis
  proof (cases "f (slot_or_default cfg lp)")
    case (Inl e)
    with put show ?thesis by (simp add: settle_refused)
  next
    case (Inr s')
    from settle_done [where f = f and cfg = cfg and lp = lp and io = io and i = i, OF Inr] obtain b lp2 where d:
      "snd (settle (spy io) cfg i f lp) = snd (save (spy io) lp2)"
      "lp2 = (put_slot cfg (\<lambda>s. snd (try_slot f s)) lp)\<lparr>lp_backend := (b, events lp)\<rparr> \<or>
       lp2 = put_slot cfg (\<lambda>s. s\<lparr>sl_save_watermark := Some i\<rparr>)
               ((put_slot cfg (\<lambda>s. snd (try_slot f s)) lp)\<lparr>lp_backend := (b, events lp)\<rparr>)"
      by (auto simp: Let_def)
    have e: "events (put_slot cfg (\<lambda>s. snd (try_slot f s)) lp) = events lp" by (simp add: events_def)
    note quiet = backend_ok [OF put, of b, unfolded e]
    have "ledgers_ok cfg lp2"
      using d(2) quiet put_ok [OF quiet, of "\<lambda>s. s\<lparr>sl_save_watermark := Some i\<rparr>"] wf
      by (auto simp: wf_watermark)
    with d(1) show ?thesis by (simp add: save_ok)
  qed
qed

lemma grant_spy: "\<exists>b. snd (call (b_grant_item (spy io) g) lp) = lp\<lparr>lp_backend := (b, events lp @ [Submitted g])\<rparr>"
  by (auto simp: call_def spy_def spy_grant_def events_def split: prod.split)

lemma commit_ok:
  assumes ok: "ledgers_ok cfg lp" and step: "slot_step g d"
  shows "ledgers_ok cfg (commit_core (spy io) cfg g d lp)"
proof -
  have "ledger_wf (g (slot_or_default cfg lp))"
    using assms by (auto simp: slot_step_def ledgers_ok_def intro: slot_path_wf)
  from put_ok [where g = g, OF ok this] show ?thesis by (simp add: commit_core_def save_ok)
qed

lemma consistency_frame: "operator_frame (spy io) cfg same_events (ok_kept cfg)"
proof (unfold_locales; (simp add: quiet_spy ok_kept_def; fail)?)
  fix lp :: "'a watched client_loop" and b
  assume "same_events (lp_backend lp) b"
  then show "ok_kept cfg lp (lp\<lparr>lp_backend := b\<rparr>)"
    by (auto simp: same_events_def only_reads_def ok_kept_def ledgers_ok_def events_def)
next
  fix lp :: "'a watched client_loop" and f :: "'a watched client_loop \<Rightarrow> 'a watched client_loop"
  assume "inner_change f"
  then show "ok_kept cfg lp (f lp)"
    by (simp add: ok_kept_def ledgers_ok_def events_def slot_or_default_ledger inner_change_def)
next
  fix lp :: "'a watched client_loop" and g
  show "ok_kept cfg lp (snd (call (b_grant_item (spy io) g) lp))"
    using grant_spy [of io g lp] by (auto simp: ok_kept_def ledgers_ok_def events_def)
qed (auto simp: ok_kept_def lane_step_def intro: commit_ok settle_ok [unfolded lane_step_def]
      advance_keeps_operators)

interpretation consistent: operator_frame "spy io" cfg same_events "ok_kept cfg" for io cfg
  by (rule consistency_frame)

lemma file_after_ok:
  assumes "ledger_wf (ledger_slot cfg l0)" and "\<And>l. Saved l \<in> set es \<Longrightarrow> ledger_wf (ledger_slot cfg l)"
  shows "ledger_wf (ledger_slot cfg (file_after l0 es))"
  using assms
proof (induction es rule: rev_induct)
  case (snoc e es)
  then show ?case by (cases e) (simp_all add: file_after_def)
qed (simp add: file_after_def)

lemma run_ledgers_ok:
  "client_run io cfg l0 lp \<Longrightarrow> ledger_wf (ledger_slot cfg l0) \<Longrightarrow> ledgers_ok cfg lp"
proof (induction rule: client_run.induct)
  case (cr_start b)
  then show ?case
    by (simp add: ledgers_ok_def events_def client_loop_new_def slot_or_default_ledger)
next
  case (cr_step lp lp')
  from consistent.step_keeps [OF cr_step.hyps(2)] cr_step show ?case by (simp add: ok_kept_def)
next
  case (cr_game lp b)
  then show ?case by (simp add: backend_ok)
next
  case (cr_restart lp b)
  then show ?case
    using file_after_ok [of cfg l0 "events lp"]
    by (simp add: ledgers_ok_def events_def client_loop_new_def slot_or_default_ledger)
qed

section \<open>Grants are durable before they are submitted\<close>

definition reliable :: "'b backend \<Rightarrow> bool" where
  "reliable io \<longleftrightarrow> (\<forall>l b. fst (b_save io l b) = Inr ())"

fun grants_durable :: "'b backend \<Rightarrow> runtime_config \<Rightarrow> receive_ledger \<Rightarrow> client_event list \<Rightarrow> bool" where
  "grants_durable io cfg l [] = True"
| "grants_durable io cfg l (Saved l' # es) = grants_durable io cfg l' es"
| "grants_durable io cfg l (Submitted g # es) =
     (planned io cfg (ledger_slot cfg l) g \<and> grants_durable io cfg l es)"
| "grants_durable io cfg l (FlagRead f r # es) = grants_durable io cfg l es"

lemma file_after_simps [simp]:
  "file_after l [] = l" "file_after l (Saved l' # es) = file_after l' es"
  "file_after l (Submitted g # es) = file_after l es"
  "file_after l (FlagRead f r # es) = file_after l es"
  by (simp_all add: file_after_def)

lemma file_after_append [simp]: "file_after l (xs @ ys) = file_after (file_after l xs) ys"
  by (simp add: file_after_def)

lemma grants_durable_append:
  "grants_durable io cfg l (xs @ ys) \<longleftrightarrow> grants_durable io cfg l xs \<and> grants_durable io cfg (file_after l xs) ys"
  by (induction io cfg l xs rule: grants_durable.induct) auto

lemma file_after_reads: "only_reads es \<Longrightarrow> file_after l es = l"
  by (induction es) (auto simp: only_reads_def)

lemma grants_durable_reads: "only_reads es \<Longrightarrow> grants_durable io cfg l es"
  by (induction es) (auto simp: only_reads_def)

definition lanes_filed :: "'b backend \<Rightarrow> runtime_config \<Rightarrow> receive_ledger \<Rightarrow> 'b watched client_loop \<Rightarrow> bool" where
  "lanes_filed io cfg l0 lp \<longleftrightarrow>
     lanes (slot_or_default cfg lp) = lanes (ledger_slot cfg (file_after l0 (events lp))) \<and>
     grants_durable io cfg l0 (events lp)"

definition filed_kept ::
  "'b backend \<Rightarrow> runtime_config \<Rightarrow> receive_ledger \<Rightarrow> 'b watched client_loop \<Rightarrow> 'b watched client_loop \<Rightarrow> bool" where
  "filed_kept io cfg l0 lp lp' \<longleftrightarrow> (reliable io \<longrightarrow> lanes_filed io cfg l0 lp \<longrightarrow> lanes_filed io cfg l0 lp')"

lemma save_reliable:
  assumes "reliable io"
  shows "\<exists>b. snd (save (spy io) lp) = lp\<lparr>lp_backend := (b, events lp @ [Saved (lp_ledger lp)])\<rparr>"
proof -
  obtain r b where c: "b_save io (lp_ledger lp) (fst (lp_backend lp)) = (r, b)" by fastforce
  with assms have "r = Inr ()" by (metis reliable_def fst_conv)
  with c show ?thesis by (intro exI [of _ b]) (simp add: save_def call_def spy_def spy_save_def events_def)
qed

text \<open>A save files whatever the slot holds; only the grants so far matter.\<close>

lemma save_files:
  assumes "reliable io" and "grants_durable io cfg l0 (events lp)"
  shows "lanes_filed io cfg l0 (snd (save (spy io) lp))"
  using save_reliable [OF assms(1), of lp] assms(2)
  by (auto simp: lanes_filed_def events_def slot_or_default_ledger grants_durable_append)

lemma commit_files:
  assumes "reliable io" and "lanes_filed io cfg l0 lp" and "slot_step g d"
  shows "lanes_filed io cfg l0 (commit_core (spy io) cfg g d lp)"
proof (cases "d (slot_or_default cfg lp)")
  case True
  have "grants_durable io cfg l0 (events (put_slot cfg g lp))"
    using assms(2) by (simp add: lanes_filed_def events_def)
  from save_files [OF assms(1) this] True show ?thesis by (simp add: commit_core_def)
next
  case False
  with assms(3) have "lanes (g (slot_or_default cfg lp)) = lanes (slot_or_default cfg lp)"
    by (auto simp: slot_step_def)
  with False assms(2) show ?thesis by (simp add: commit_core_def lanes_filed_def events_def)
qed

lemma settle_files:
  assumes "reliable io" and "lanes_filed io cfg l0 lp"
  shows "lanes_filed io cfg l0 (snd (settle (spy io) cfg i f lp))"
proof (cases "f (slot_or_default cfg lp)")
  case (Inl e)
  with assms(2) show ?thesis
    by (simp add: settle_refused lanes_filed_def events_def try_slot_def)
next
  case (Inr s')
  from settle_done [where f = f and cfg = cfg and lp = lp and io = io and i = i, OF Inr] obtain b lp2 where
    d: "snd (settle (spy io) cfg i f lp) = snd (save (spy io) lp2)" "events lp2 = events lp"
    by (auto simp: Let_def events_def)
  with save_files [OF assms(1), of cfg l0 lp2] assms(2) show ?thesis by (simp add: lanes_filed_def)
qed

lemma grant_files:
  assumes "lanes_filed io cfg l0 lp" and "planned io cfg (slot_or_default cfg lp) g"
  shows "lanes_filed io cfg l0 (snd (call (b_grant_item (spy io) g) lp))"
proof -
  have "planned io cfg (ledger_slot cfg (file_after l0 (events lp))) g"
    using assms planned_lanes by (metis lanes_filed_def)
  with assms(1) grant_spy [of io g lp] show ?thesis
    by (auto simp: lanes_filed_def events_def grants_durable_append)
qed

lemma durability_frame: "operator_frame (spy io) cfg same_events (filed_kept io cfg l0)"
proof (unfold_locales; (simp add: quiet_spy filed_kept_def; fail)?)
  fix lp :: "'a watched client_loop" and b
  assume "same_events (lp_backend lp) b"
  then show "filed_kept io cfg l0 lp (lp\<lparr>lp_backend := b\<rparr>)"
    by (auto simp: filed_kept_def lanes_filed_def same_events_def events_def grants_durable_append
        file_after_reads grants_durable_reads)
next
  fix lp :: "'a watched client_loop" and f :: "'a watched client_loop \<Rightarrow> 'a watched client_loop"
  assume "inner_change f"
  then show "filed_kept io cfg l0 lp (f lp)"
    by (simp add: filed_kept_def lanes_filed_def events_def slot_or_default_ledger inner_change_def)
qed (auto simp: filed_kept_def lane_step_def intro: commit_files settle_files grant_files
      advance_keeps_operators)

interpretation durable: operator_frame "spy io" cfg same_events "filed_kept io cfg l0" for io cfg l0
  by (rule durability_frame)

lemma run_lanes_filed: "client_run io cfg l0 lp \<Longrightarrow> reliable io \<Longrightarrow> lanes_filed io cfg l0 lp"
proof (induction rule: client_run.induct)
  case (cr_start b)
  then show ?case by (simp add: lanes_filed_def events_def client_loop_new_def slot_or_default_ledger)
next
  case (cr_step lp lp')
  from durable.step_keeps [OF cr_step.hyps(2)] cr_step show ?case by (simp add: filed_kept_def)
next
  case (cr_game lp b)
  then show ?case by (simp add: lanes_filed_def events_def)
next
  case (cr_restart lp b)
  then show ?case by (simp add: lanes_filed_def events_def client_loop_new_def slot_or_default_ledger)
qed

section \<open>Properties\<close>

definition delivery_consistent :: "slot_ledger \<Rightarrow> bool" where
  "delivery_consistent s \<longleftrightarrow>
     bm_get (sl_acknowledged s) (next_index s) = None \<and> next_index s \<le> frontier s \<and>
     acked s \<subseteq> {..<frontier s} - bs_set (sl_redeliver s) \<and>
     (case sl_pending s of None \<Rightarrow> True | Some p \<Rightarrow> pi_index p = next_index s)"

lemma wf_consistent: "ledger_wf s \<Longrightarrow> delivery_consistent s"
  using next_index_fresh [of s] next_index_le [of s]
  by (auto simp: delivery_consistent_def acked_def ledger_wf_def bs_set_def)

definition demo_binding :: runtime_item_binding where
  "demo_binding = \<lparr>rb_raw_descriptor = 0xB00004CE, rb_normalized_item_id = 0x400004CE, rb_item_category = 4,
     rb_descriptor_evidence = GoodsFormulaObserved, rb_quantity = 2, rb_reinforcement_level = None,
     rb_feed_effect = FbNotEquippable\<rparr>"

definition demo_config :: runtime_config where
  "demo_config = \<lparr>rc_seed_name = ''seed'', rc_slot_name = ''Hunter'',
     rc_locations = [\<lparr>lb_ap_location_id = 5, lb_event_flag = 9, lb_vanilla_award_suppressed = True\<rparr>],
     rc_items = bm_insert 7 demo_binding (bm_insert 8 (demo_binding\<lparr>rb_item_category := 255,
       rb_normalized_item_id := 12401803\<rparr>) bm_empty),
     rc_category8_awards = (\<lambda>_. None), rc_auto_upgrade = False, rc_auto_equip = False,
     rc_death_link = False, rc_death_link_send = False, rc_death_link_first_death_grace = False,
     rc_death_link_amnesty = 0, rc_expected_save_identity = None, rc_location_check_debounce = 3,
     rc_goal_location = None, rc_goal = None, rc_sustain_item = None, rc_sustain_items = []\<rparr>"

definition demo_poll :: "'b backend \<Rightarrow> int \<Rightarrow> 'b client_loop \<Rightarrow> 'b client_loop" where
  "demo_poll io ap lp = snd (poll_items io demo_config [\<lparr>ii_index = 0, ii_ap_item_id = ap\<rparr>] lp)"

definition demo_start :: "mock_backend watched client_loop" where
  "demo_start = client_loop_new (mock_backend_default, []) bm_empty"

lemma demo_run: "client_run io demo_config bm_empty lp \<Longrightarrow> client_run io demo_config bm_empty (demo_poll (spy io) ap lp)"
  unfolding demo_poll_def by (erule cr_step) (rule lo_items)

lemma demo_run_start: "client_run io demo_config bm_empty demo_start"
  unfolding demo_start_def by (rule cr_start)

lemma empty_slot: "ledger_slot cfg bm_empty = default_slot"
  by (simp add: ledger_slot_def slot_of_def)

text \<open>
  C2: In every session of the client, over any backend, with failing saves, failing calls, changes
  of the game and restarts from the file at any point, the slot in memory and every ledger written
  to the file are consistent: the next index to deliver is not an acknowledged one, every
  acknowledged index is behind the cursor and not queued again, and a plan is for the next index.
\<close>

theorem sessions_stay_consistent:
  assumes "client_run io cfg l0 lp" and "ledger_wf (ledger_slot cfg l0)"
  shows "delivery_consistent (slot_or_default cfg lp) \<and>
    (\<forall>l. Saved l \<in> set (events lp) \<longrightarrow> delivery_consistent (ledger_slot cfg l))"
  using run_ledgers_ok [OF assms] by (auto simp: ledgers_ok_def intro: wf_consistent)

theorem sessions_stay_consistent_witness:
  "length (events (demo_poll (spy mock_backend_io) 7 demo_start)) = 6 \<and>
   delivery_consistent (slot_or_default demo_config (demo_poll (spy mock_backend_io) 7 demo_start)) \<and>
   next_index (slot_or_default demo_config (demo_poll (spy mock_backend_io) 7 demo_start)) = 1"
proof -
  have "delivery_consistent (slot_or_default demo_config (demo_poll (spy mock_backend_io) 7 demo_start))"
    using sessions_stay_consistent [OF demo_run [OF demo_run_start [of mock_backend_io], of 7]]
    by (simp add: empty_slot wf_default)
  moreover have "length (events (demo_poll (spy mock_backend_io) 7 demo_start)) = 6" by code_simp
  moreover have "next_index (slot_or_default demo_config (demo_poll (spy mock_backend_io) 7 demo_start)) = 1"
    by code_simp
  ultimately show ?thesis by simp
qed

text \<open>
  C3: Nothing reaches the game before its plan reached the file. While saves succeed, every grant
  command of a session, of the received items, of the bonus lane or of the operator, is submitted
  when the ledger file holds the unfinished row it belongs to, with the command's fields and with its
  baseline recorded. Two kinds of command have no recorded baseline: flag effects and category-8
  tokens, submitted with baseline zero, and commands for an item whose own stack the backend answers
  to be unsupported.
\<close>

theorem grants_are_filed_first:
  assumes "client_run io cfg l0 lp" and "reliable io" and "events lp = xs @ Submitted g # ys"
  shows "planned io cfg (ledger_slot cfg (file_after l0 xs)) g"
  using run_lanes_filed [OF assms(1,2)] assms(3) by (simp add: lanes_filed_def grants_durable_append)

text \<open>The mock with a stack reader that always answers; three of the item are held.\<close>

definition readable_io :: "mock_backend backend" where
  "readable_io = mock_backend_io\<lparr>b_observe_stack_quantity :=
     (\<lambda>item level m. (Inr (Quantity (or_zero (mb_inventory m (item, level)))), m))\<rparr>"

definition holding_three :: "mock_backend watched client_loop" where
  "holding_three = client_loop_new
     (mock_backend_default\<lparr>mb_inventory := (\<lambda>k. if k = (0x400004CE, None) then Some 3 else None)\<rparr>, []) bm_empty"

theorem grants_are_filed_first_witness:
  "\<exists>xs g ys p. events (demo_poll (spy readable_io) 7 holding_three) = xs @ Submitted g # ys \<and>
     ig_tag g = ''ap_0'' \<and> ig_expected_before g = 3 \<and>
     sl_pending (ledger_slot demo_config (file_after bm_empty xs)) = Some p \<and> pi_observed_before p = Some 3"
proof -
  let ?es = "events (demo_poll (spy readable_io) 7 holding_three)"
  have n: "3 < length ?es" by code_simp
  have "case ?es ! 3 of Submitted g \<Rightarrow> ig_tag g = ''ap_0'' \<and> ig_expected_before g = 3 \<and> ig_item_category g = 4 | _ \<Rightarrow> False"
    by code_simp
  then obtain g where g: "?es ! 3 = Submitted g" "ig_tag g = ''ap_0''" "ig_expected_before g = 3" "ig_item_category g = 4"
    by (cases "?es ! 3") simp_all
  from id_take_nth_drop [OF n] g(1) have es: "?es = take 3 ?es @ Submitted g # drop (Suc 3) ?es" by simp
  have r: "reliable readable_io" by (simp add: reliable_def readable_io_def mock_backend_io_def)
  have "client_run readable_io demo_config bm_empty holding_three" unfolding holding_three_def by (rule cr_start)
  from grants_are_filed_first [OF demo_run [OF this] r es]
  have "planned readable_io demo_config (ledger_slot demo_config (file_after bm_empty (take 3 ?es))) g" .
  moreover have "\<not> unreadable_stack readable_io g" by (simp add: unreadable_stack_def readable_io_def)
  moreover have "sl_pending_sustain (ledger_slot demo_config (file_after bm_empty (take 3 ?es))) = bm_empty"
    "sl_operator_grants (ledger_slot demo_config (file_after bm_empty (take 3 ?es))) = bm_empty" by code_simp+
  ultimately obtain p where "sl_pending (ledger_slot demo_config (file_after bm_empty (take 3 ?es))) = Some p"
    "pi_observed_before p = Some 3"
    using g by (auto simp: planned_def ap_planned_def sustain_planned_def operator_planned_def)
  with es g show ?thesis by blast
qed

text \<open>
  A failed save is not undone in memory, so the guarantee does not survive one: with a disk that
  refuses every write, the third poll submits a grant whose plan is in no file.
\<close>

definition full_disk :: "'b backend \<Rightarrow> 'b backend" where
  "full_disk io = io\<lparr>b_save := (\<lambda>l b. (Inl (Message ''disk full''), b))\<rparr>"

definition three_polls :: "'b backend \<Rightarrow> 'b client_loop \<Rightarrow> 'b client_loop" where
  "three_polls io lp = demo_poll io 8 (demo_poll io 8 (demo_poll io 8 lp))"

theorem failed_save_loses_the_plan:
  "let lp = three_polls (spy (full_disk mock_backend_io)) demo_start
   in client_run (full_disk mock_backend_io) demo_config bm_empty lp \<and>
      (\<exists>g. events lp = [Submitted g]) \<and>
      (\<forall>g. \<not> planned (full_disk mock_backend_io) demo_config (ledger_slot demo_config bm_empty) g)"
proof -
  let ?io = "full_disk mock_backend_io" and ?lp = "three_polls (spy (full_disk mock_backend_io)) demo_start"
  have run: "client_run ?io demo_config bm_empty ?lp"
    unfolding three_polls_def by (intro demo_run demo_run_start)
  have "case events ?lp of [Submitted g] \<Rightarrow> True | _ \<Rightarrow> False" by code_simp
  then have "\<exists>g. events ?lp = [Submitted g]" by (auto split: list.splits client_event.splits)
  moreover have "\<not> planned ?io demo_config (ledger_slot demo_config bm_empty) g" for g
    by (simp add: empty_slot default_slot_def planned_def ap_planned_def sustain_planned_def operator_planned_def)
  ultimately show ?thesis using run by (simp add: Let_def)
qed

end
