(* ===== verification/BbWatch.thy ===== *)
theory BbWatch
  imports BbSession
begin

text \<open>
  What a reported location check rests on: the flag reads of the polls before it, over any session
  of polls on a watched backend.
\<close>

section \<open>Events only grow\<close>

definition grows :: "'b watched client_loop \<Rightarrow> 'b watched client_loop \<Rightarrow> bool" where
  "grows lp lp' \<longleftrightarrow> (\<exists>es. events lp' = events lp @ es)"

lemma grows_refl [simp]: "grows lp lp" by (simp add: grows_def)

lemma grows_trans: "grows a b \<Longrightarrow> grows b c \<Longrightarrow> grows a c"
  by (auto simp: grows_def)

lemma save_grows: "grows lp (snd (save (spy io) lp))"
  using save_spy [of io lp] by (auto simp: grows_def events_def)

lemma growing_frame: "lane_frame (spy io) cfg same_events grows"
proof (unfold_locales; (simp add: quiet_spy; fail)?)
  fix lp1 lp2 lp3 :: "'a watched client_loop"
  assume "grows lp1 lp2" "grows lp2 lp3"
  then show "grows lp1 lp3" by (rule grows_trans)
next
  fix lp :: "'a watched client_loop" and b
  assume "same_events (lp_backend lp) b"
  then show "grows lp (lp\<lparr>lp_backend := b\<rparr>)" by (auto simp: grows_def same_events_def events_def)
next
  fix lp :: "'a watched client_loop" and f :: "'a watched client_loop \<Rightarrow> 'a watched client_loop"
  assume "inner_change f"
  then show "grows lp (f lp)" by (simp add: grows_def events_def inner_change_def)
next
  fix lp :: "'a watched client_loop" and g d
  have "grows lp (snd (save (spy io) (put_slot cfg g lp)))"
    using save_grows [of "put_slot cfg g lp" io] by (simp add: grows_def events_def)
  then show "grows lp (commit_core (spy io) cfg g d lp)"
    by (simp add: commit_core_def) (simp add: grows_def events_def)
next
  fix lp :: "'a watched client_loop" and f i
  show "grows lp (snd (settle (spy io) cfg i f lp))"
  proof (cases "f (slot_or_default cfg lp)")
    case (Inl e)
    then show ?thesis by (simp add: settle_refused grows_def events_def)
  next
    case (Inr s')
    from settle_done [where f = f and cfg = cfg and lp = lp and io = io and i = i, OF Inr] obtain b lp2 where
      d: "snd (settle (spy io) cfg i f lp) = snd (save (spy io) lp2)" "events lp2 = events lp"
      by (auto simp: Let_def events_def)
    with save_grows [of lp2 io] show ?thesis by (simp add: grows_def)
  qed
next
  fix lp :: "'a watched client_loop" and g
  show "grows lp (snd (call (b_grant_item (spy io) g) lp))"
    using grant_spy [of io g lp] by (auto simp: grows_def events_def)
qed

interpretation growing: lane_frame "spy io" cfg same_events grows for io cfg
  by (rule growing_frame)

definition new_events :: "'b watched client_loop \<Rightarrow> 'b watched client_loop \<Rightarrow> client_event set" where
  "new_events lp lp' = set (drop (length (events lp)) (events lp'))"

lemma new_events_inner:
  assumes "grows lp lp1" "grows lp1 lp2" "grows lp2 lp3"
  shows "new_events lp1 lp2 \<subseteq> new_events lp lp3"
  using assms by (auto simp: grows_def new_events_def)

section \<open>One poll\<close>

lemma location_scan_named:
  "location_scan (spy io) d now checked goal bs p lp = (Inr p', lp') \<Longrightarrow>
   distinct (map lb_ap_location_id bs) \<Longrightarrow> b \<in> set bs \<Longrightarrow> i = lb_ap_location_id b \<Longrightarrow>
   location_view i p' = location_view i (drop_location i p) \<or>
   (\<exists>r. FlagRead (lb_event_flag b) r \<in> new_events lp lp' \<and>
        location_view i p' = location_view i (location_read d now i r p))"
proof (induction bs arbitrary: p lp)
  case (Cons c bs)
  let ?j = "lb_ap_location_id c"
  show ?case
  proof (cases "skip_location checked goal ?j")
    case skip: True
    with Cons.prems(1) have rest: "location_scan (spy io) d now checked goal bs (drop_location ?j p) lp = (Inr p', lp')"
      by (simp add: Let_def)
    show ?thesis
    proof (cases "b = c")
      case True
      with Cons.prems location_scan_other [OF rest, of i] show ?thesis by simp
    next
      case False
      with Cons.prems(2,3,4) have "b \<in> set bs" "?j \<noteq> i" by auto
      with Cons.IH [OF rest] Cons.prems(2,4) drop_location_other [of ?j i p]
        location_read_view [of i "drop_location ?j p" p] drop_location_view [of i "drop_location ?j p" p]
      show ?thesis by auto
    qed
  next
    case False
    with Cons.prems(1) obtain r lp1 where
      read: "call (b_read_event_flag (spy io) (lb_event_flag c)) lp = (Inr r, lp1)" and
      rest: "location_scan (spy io) d now checked goal bs (location_read d now ?j r p) lp1 = (Inr p', lp')"
      by (auto simp: Let_def seq_def split: prod.splits sum.splits)
    have ev: "events lp1 = events lp @ [FlagRead (lb_event_flag c) r]"
      using read by (auto simp: call_def spy_def spy_read_def events_def split: prod.splits sum.splits)
    have gr: "grows lp1 lp'" using keepsD [OF growing.keeps_scan rest] .
    then have fr: "FlagRead (lb_event_flag c) r \<in> new_events lp lp'"
      using ev by (auto simp: grows_def new_events_def)
    have inner: "new_events lp1 lp' \<subseteq> new_events lp lp'"
      using ev gr by (intro new_events_inner) (auto simp: grows_def)
    show ?thesis
    proof (cases "b = c")
      case True
      with Cons.prems location_scan_other [OF rest, of i] fr show ?thesis by auto
    next
      case False
      with Cons.prems(2,3,4) have "b \<in> set bs" "?j \<noteq> i" by auto
      with Cons.IH [OF rest] Cons.prems(2,4) location_read_other [of ?j i d now r p] inner
        location_read_view [of i "location_read d now ?j r p" p]
        drop_location_view [of i "location_read d now ?j r p" p]
      show ?thesis by auto
    qed
  qed
qed simp

text \<open>The client's memory of the flags, and that the context and the watermark leave it alone.\<close>

definition memory :: "'b client_loop \<Rightarrow> string option \<times> (int \<Rightarrow> nat option) \<times> (int \<Rightarrow> (nat \<times> nat) option)" where
  "memory lp = (lp_location_identity lp, lp_true_streaks lp, lp_location_retries lp)"

lemma call_memory: "call c lp = (r, lp1) \<Longrightarrow> memory lp1 = memory lp"
  by (auto simp: call_def memory_def split: prod.splits)

lemma commit_if_memory: "commit_if io cfg P f lp = (r, lp1) \<Longrightarrow> memory lp1 = memory lp"
  by (auto simp: commit_if_def seq_def on_slot_put put_slot_def save_def call_def ret_def memory_def
      split: prod.splits sum.splits if_splits)

lemma commit_memory: "commit io cfg f lp = (r, lp1) \<Longrightarrow> memory lp1 = memory lp"
  unfolding commit_def by (rule commit_if_memory)

lemma commit_get_memory: "commit_get io cfg P f lp = (r, lp1) \<Longrightarrow> memory lp1 = memory lp"
  unfolding commit_get_def by (rule commit_if_memory)

lemma context_memory: "require_runtime_context io cfg oper lp = (r, lp1) \<Longrightarrow> memory lp1 = memory lp"
  unfolding require_runtime_context_def bind_identity_def
  by (auto elim!: seq_cases dest!: call_memory commit_memory split: option.splits if_splits prod.splits)

lemma watermark_memory: "reconcile_watermark io cfg lp = (r, lp1) \<Longrightarrow> memory lp1 = memory lp"
  unfolding reconcile_watermark_def
  by (auto elim!: seq_cases dest!: call_memory commit_get_memory split: if_splits) (simp_all add: memory_def)

definition flag_streak :: "'b client_loop \<Rightarrow> int \<Rightarrow> nat" where
  "flag_streak lp i = or_zero (lp_true_streaks lp i)"

lemma location_true_streak:
  "lo_streaks (location_true d t i p) i = Some (min 255 (or_zero (lo_streaks p i) + 1))"
  by (simp add: location_true_def retry_location_def Let_def split: option.split)

lemma location_true_newly:
  "lo_newly p = [] \<Longrightarrow> i \<in> set (lo_newly (location_true d t i p)) \<Longrightarrow> d \<le> min 255 (or_zero (lo_streaks p i) + 1)"
  by (auto simp: location_true_def Let_def split: if_splits)

lemma scan_bindings_poll:
  assumes scan: "scan_bindings (spy io) cfg checked now lp = (Inr newly, lp')"
    and b: "distinct (map lb_ap_location_id (rc_locations cfg))" "b \<in> set (rc_locations cfg)"
    and i: "i = lb_ap_location_id b"
  shows "flag_streak lp' i = 0 \<and> i \<notin> set newly \<or>
    FlagRead (lb_event_flag b) (Some True) \<in> new_events lp lp' \<and> flag_streak lp' i \<le> flag_streak lp i + 1 \<and>
    (i \<in> set newly \<longrightarrow> rc_location_check_debounce cfg \<le> flag_streak lp' i)"
    "lp_location_identity lp' = lp_location_identity lp"
proof -
  let ?d = "rc_location_check_debounce cfg" and ?p = "poll_start lp"
  obtain r lp1 where run0:
    "location_scan (spy io) ?d now checked (pending_goal cfg lp) (rc_locations cfg) ?p lp = (r, lp1)"
    by fastforce
  with scan obtain p where
    run: "location_scan (spy io) ?d now checked (pending_goal cfg lp) (rc_locations cfg) ?p lp = (Inr p, lp1)"
    and lp': "lp' = lp1\<lparr>lp_true_streaks := lo_streaks p, lp_location_retries := lo_retries p\<rparr>" "newly = lo_newly p"
    by (cases r)
      (auto simp: scan_bindings_def seq_def attempt_def look_def throw_def clear_locations_def change_def ret_def)
  have ident: "lp_location_identity lp1 = lp_location_identity lp"
  proof -
    have "lp_location_identity (snd (location_scan (spy io) ?d now checked g bs q lp)) = lp_location_identity lp" for g bs q lp
      by (induction bs arbitrary: q lp)
        (auto simp: Let_def ret_def seq_def call_def split: prod.splits sum.splits)
    with run show ?thesis by (metis snd_conv)
  qed
  then show "lp_location_identity lp' = lp_location_identity lp" by (simp add: lp')
  have new: "new_events lp lp' = new_events lp lp1" by (simp add: new_events_def events_def lp')
  have none: "lo_newly ?p = []" "or_zero (lo_streaks ?p i) = flag_streak lp i"
    by (simp_all add: poll_start_def flag_streak_def)
  have streak: "flag_streak lp' i = or_zero (lo_streaks p i)" by (simp add: flag_streak_def lp')
  consider "location_view i p = location_view i (drop_location i ?p)"
    | r where "FlagRead (lb_event_flag b) r \<in> new_events lp lp1"
      "location_view i p = location_view i (location_read ?d now i r ?p)"
    using location_scan_named [OF run b i] by blast
  then show "flag_streak lp' i = 0 \<and> i \<notin> set newly \<or>
    FlagRead (lb_event_flag b) (Some True) \<in> new_events lp lp' \<and> flag_streak lp' i \<le> flag_streak lp i + 1 \<and>
    (i \<in> set newly \<longrightarrow> ?d \<le> flag_streak lp' i)"
  proof cases
    case 1
    then show ?thesis
      by (simp add: location_view_def drop_location_def streak lp'(2) none or_zero_def)
  next
    case (2 r)
    show ?thesis
    proof (cases "r = Some True")
      case False
      with 2 show ?thesis
        by (simp add: location_view_def location_read_def drop_location_def streak lp'(2) none or_zero_def)
    next
      case True
      with 2 location_true_newly [of ?p i ?d now] none show ?thesis
        by (auto simp: location_view_def location_read_def location_true_streak streak lp'(2) new or_zero_def)
    qed
  qed
qed

lemma clear_streak: "flag_streak (snd (clear_locations lp)) i = 0"
  by (simp add: clear_locations_def change_def flag_streak_def or_zero_def)

lemma follow_identity_streak:
  "follow_identity identity lp = (r, lp1) \<Longrightarrow>
   r = Inr () \<and> events lp1 = events lp \<and> lp_location_identity lp1 = Some identity \<and>
   flag_streak lp1 i = (if lp_location_identity lp = Some identity then flag_streak lp i else 0)"
  by (auto simp: follow_identity_def seq_def look_def change_def clear_locations_def ret_def events_def
      flag_streak_def or_zero_def split: if_splits)

text \<open>One successful poll, for one binding: the streak is gone, or the flag was read as set.\<close>

lemma poll_locations_step:
  assumes poll: "poll_locations_at (spy io) cfg checked now lp = (Inr newly, lp')"
    and b: "distinct (map lb_ap_location_id (rc_locations cfg))" "b \<in> set (rc_locations cfg)"
    and i: "i = lb_ap_location_id b"
  shows "flag_streak lp' i = 0 \<and> i \<notin> set newly \<or>
    FlagRead (lb_event_flag b) (Some True) \<in> new_events lp lp' \<and>
    flag_streak lp' i \<le> (if lp_location_identity lp' = lp_location_identity lp then flag_streak lp i else 0) + 1 \<and>
    (i \<in> set newly \<longrightarrow> rc_location_check_debounce cfg \<le> flag_streak lp' i)"
proof -
  obtain ctx lp1 where c: "require_runtime_context (spy io) cfg ''automatic location checks'' lp = (ctx, lp1)"
    by fastforce
  note mem1 = context_memory [OF c] and gr1 = keepsD [OF growing.keeps_context c]
  show ?thesis
  proof (cases "\<exists>identity. ctx = Inr (Some identity) \<and> 2 \<le> rc_location_check_debounce cfg")
    case False
    with poll c have "lp' = snd (clear_locations lp1)" "newly = []"
      by (auto simp: poll_locations_at_def seq_def attempt_def clear_locations_def change_def throw_def ret_def
          bail_def split: sum.splits option.splits if_splits)
    then show ?thesis by (simp add: clear_streak)
  next
    case True
    then obtain identity where id: "ctx = Inr (Some identity)" "\<not> rc_location_check_debounce cfg < 2" by auto
    obtain u lp2 where f: "follow_identity identity lp1 = (u, lp2)" by fastforce
    note f' = follow_identity_streak [OF f, of i]
    obtain o' lp3 where w: "reconcile_watermark (spy io) cfg lp2 = (o', lp3)" by fastforce
    note mem3 = watermark_memory [OF w] and gr3 = keepsD [OF growing.keeps_watermark w]
    from poll c id f f' w obtain oc where oc: "o' = Inr oc"
      and rest: "(if oc = Hold then seq clear_locations (\<lambda>_. ret []) else scan_bindings (spy io) cfg checked now) lp3 = (Inr newly, lp')"
      by (cases o') (simp_all add: poll_locations_at_def seq_def attempt_def)
    show ?thesis
    proof (cases "oc = Hold")
      case True
      with rest have "lp' = snd (clear_locations lp3)" "newly = []"
        by (auto simp: seq_def clear_locations_def change_def ret_def)
      then show ?thesis by (simp add: clear_streak)
    next
      case False
      with rest have scan: "scan_bindings (spy io) cfg checked now lp3 = (Inr newly, lp')" by simp
      have "keeps grows (scan_bindings (spy io) cfg checked now)"
        unfolding scan_bindings_def clear_locations_def
        by (intro growing.keeps_rules growing.keeps_scan)
      from keepsD [OF this scan] have gr4: "grows lp3 lp'" .
      have gr2: "grows lp lp3" using gr1 gr3 f' by (auto simp: grows_def)
      have sub: "new_events lp3 lp' \<subseteq> new_events lp lp'"
        using gr2 gr4 by (intro new_events_inner) auto
      have "flag_streak lp3 i = flag_streak lp2 i" "lp_location_identity lp3 = Some identity"
        "flag_streak lp1 i = flag_streak lp i" "lp_location_identity lp1 = lp_location_identity lp"
        using mem1 mem3 f' by (simp_all add: memory_def flag_streak_def)
      with scan_bindings_poll [OF scan b i] sub f' show ?thesis by auto
    qed
  qed
qed

section \<open>A log of polls\<close>

text \<open>
  Successful polls, each with the state before and after it and the checks it reported. Between two
  polls anything may happen that leaves the client's memory of the flags.
\<close>

record 'b poll_entry =
  pe_start :: "'b watched client_loop"
  pe_newly :: "int list"
  pe_end :: "'b watched client_loop"

definition poll_log :: "'b backend \<Rightarrow> runtime_config \<Rightarrow> 'b poll_entry list \<Rightarrow> bool" where
  "poll_log io cfg polls \<longleftrightarrow>
     (\<forall>e \<in> set polls. \<exists>checked now.
        poll_locations_at (spy io) cfg checked now (pe_start e) = (Inr (pe_newly e), pe_end e)) \<and>
     (\<forall>k. Suc k < length polls \<longrightarrow> memory (pe_start (polls ! Suc k)) = memory (pe_end (polls ! k))) \<and>
     (polls \<noteq> [] \<longrightarrow> lp_true_streaks (pe_start (hd polls)) = (\<lambda>_. None))"

lemma poll_log_entry:
  assumes "poll_log io cfg polls" "k < length polls"
  obtains checked now where
    "poll_locations_at (spy io) cfg checked now (pe_start (polls ! k)) = (Inr (pe_newly (polls ! k)), pe_end (polls ! k))"
  using assms nth_mem [OF assms(2)] unfolding poll_log_def by blast

lemma streak_needs_reads:
  assumes "distinct (map lb_ap_location_id (rc_locations cfg))" "b \<in> set (rc_locations cfg)"
  shows "poll_log io cfg polls \<Longrightarrow> k < length polls \<Longrightarrow> n \<le> flag_streak (pe_end (polls ! k)) (lb_ap_location_id b) \<Longrightarrow>
    n \<le> Suc k \<and> (\<forall>j \<le> k. k < j + n \<longrightarrow>
      FlagRead (lb_event_flag b) (Some True) \<in> new_events (pe_start (polls ! j)) (pe_end (polls ! j)) \<and>
      lp_location_identity (pe_end (polls ! j)) = lp_location_identity (pe_end (polls ! k)))"
proof (induction k arbitrary: n)
  case 0
  let ?e = "polls ! 0"
  from 0(1,2) obtain checked now where "poll_locations_at (spy io) cfg checked now (pe_start ?e) = (Inr (pe_newly ?e), pe_end ?e)"
    by (rule poll_log_entry)
  note step = poll_locations_step [OF this assms refl]
  have "flag_streak (pe_start ?e) (lb_ap_location_id b) = 0"
    using 0 by (auto simp: poll_log_def flag_streak_def or_zero_def hd_conv_nth)
  with step 0 show ?case by (cases "n = 0") (auto split: if_splits)
next
  case (Suc k)
  let ?e = "polls ! Suc k" and ?f = "polls ! k"
  from Suc.prems(1,2) obtain checked now where "poll_locations_at (spy io) cfg checked now (pe_start ?e) = (Inr (pe_newly ?e), pe_end ?e)"
    by (rule poll_log_entry)
  note step = poll_locations_step [OF this assms refl]
  have mem: "flag_streak (pe_start ?e) (lb_ap_location_id b) = flag_streak (pe_end ?f) (lb_ap_location_id b)"
    "lp_location_identity (pe_start ?e) = lp_location_identity (pe_end ?f)"
    using Suc.prems by (auto simp: poll_log_def memory_def flag_streak_def)
  show ?case
  proof (cases n)
    case (Suc m)
    with step Suc.prems(3) mem have read: "FlagRead (lb_event_flag b) (Some True) \<in> new_events (pe_start ?e) (pe_end ?e)"
      and m: "m \<le> (if lp_location_identity (pe_end ?e) = lp_location_identity (pe_end ?f)
                   then flag_streak (pe_end ?f) (lb_ap_location_id b) else 0)" by auto
    show ?thesis
    proof (cases "m = 0")
      case True
      show ?thesis
      proof (intro conjI allI impI)
        show "n \<le> Suc (Suc k)" using True Suc by simp
      next
        fix j assume "j \<le> Suc k" "Suc k < j + n"
        with True Suc have "j = Suc k" by simp
        with read show "FlagRead (lb_event_flag b) (Some True) \<in> new_events (pe_start (polls ! j)) (pe_end (polls ! j))"
          and "lp_location_identity (pe_end (polls ! j)) = lp_location_identity (pe_end ?e)" by simp_all
      qed
    next
      case False
      with m have same: "lp_location_identity (pe_end ?e) = lp_location_identity (pe_end ?f)"
        and le: "m \<le> flag_streak (pe_end ?f) (lb_ap_location_id b)" by (auto split: if_splits)
      have "k < length polls" using Suc.prems(2) by simp
      note IH = Suc.IH [OF Suc.prems(1) this le]
      show ?thesis
      proof (intro conjI allI impI)
        show "n \<le> Suc (Suc k)" using IH Suc by simp
      next
        fix j assume j: "j \<le> Suc k" "Suc k < j + n"
        show "FlagRead (lb_event_flag b) (Some True) \<in> new_events (pe_start (polls ! j)) (pe_end (polls ! j))"
        proof (cases "j = Suc k")
          case False
          with j Suc have "j \<le> k" "k < j + m" by simp_all
          with IH show ?thesis by blast
        qed (use read in simp)
        show "lp_location_identity (pe_end (polls ! j)) = lp_location_identity (pe_end ?e)"
        proof (cases "j = Suc k")
          case False
          with j Suc have "j \<le> k" "k < j + m" by simp_all
          with IH same show ?thesis by metis
        qed simp
      qed
    qed
  qed simp
qed

text \<open>
  C7: A check is reported only on a debounced flag. In any sequence of polls of a session that
  starts without a memory of the flags, whatever happens in between, a location reported at a poll
  had its event flag read as set in that poll and in each of the polls before it, as many in a row as
  the configured debounce, all under one loaded character.
\<close>

theorem reported_checks_are_debounced:
  assumes "poll_log io cfg polls" and "distinct (map lb_ap_location_id (rc_locations cfg))"
    and "k < length polls" and "b \<in> set (rc_locations cfg)"
    and "lb_ap_location_id b \<in> set (pe_newly (polls ! k))"
  shows "rc_location_check_debounce cfg \<le> Suc k \<and>
    (\<forall>j \<le> k. k < j + rc_location_check_debounce cfg \<longrightarrow>
      FlagRead (lb_event_flag b) (Some True) \<in> new_events (pe_start (polls ! j)) (pe_end (polls ! j)) \<and>
      lp_location_identity (pe_end (polls ! j)) = lp_location_identity (pe_end (polls ! k)))"
proof -
  from assms(1,3) obtain checked now where
    "poll_locations_at (spy io) cfg checked now (pe_start (polls ! k)) = (Inr (pe_newly (polls ! k)), pe_end (polls ! k))"
    by (rule poll_log_entry)
  from poll_locations_step [OF this assms(2,4) refl] assms(5)
  have "rc_location_check_debounce cfg \<le> flag_streak (pe_end (polls ! k)) (lb_ap_location_id b)" by auto
  from streak_needs_reads [OF assms(2,4,1,3) this] show ?thesis .
qed

definition demo_locations :: "mock_backend watched client_loop \<Rightarrow> (bb_error + int list) \<times> mock_backend watched client_loop" where
  "demo_locations lp = poll_locations_at (spy mock_backend_io) demo_config {} 0 lp"

definition demo_entry :: "mock_backend watched client_loop \<Rightarrow> mock_backend poll_entry" where
  "demo_entry lp = \<lparr>pe_start = lp, pe_newly = projr (fst (demo_locations lp)), pe_end = snd (demo_locations lp)\<rparr>"

definition demo_flag_start :: "mock_backend watched client_loop" where
  "demo_flag_start = client_loop_new (mock_backend_default\<lparr>mb_set_flags := {9}\<rparr>, []) bm_empty"

definition demo_second :: "mock_backend watched client_loop" where
  "demo_second = snd (demo_locations demo_flag_start)"

definition demo_third :: "mock_backend watched client_loop" where
  "demo_third = snd (demo_locations demo_second)"

theorem reported_checks_are_debounced_witness:
  "pe_newly (demo_entry demo_third) = [5] \<and>
   FlagRead 9 (Some True) \<in> new_events demo_flag_start (snd (demo_locations demo_flag_start))"
proof -
  let ?polls = "[demo_entry demo_flag_start, demo_entry demo_second, demo_entry demo_third]"
  have ok: "poll_locations_at (spy mock_backend_io) demo_config {} 0 (pe_start (demo_entry lp)) =
      (Inr (pe_newly (demo_entry lp)), pe_end (demo_entry lp))" if "\<not> isl (fst (demo_locations lp))" for lp
    using that by (cases "demo_locations lp") (auto simp: demo_entry_def demo_locations_def)
  have runs: "\<not> isl (fst (demo_locations demo_flag_start))" "\<not> isl (fst (demo_locations demo_second))"
    "\<not> isl (fst (demo_locations demo_third))" by code_simp+
  have new: "pe_newly (demo_entry demo_third) = [5]" by code_simp
  have log: "poll_log mock_backend_io demo_config ?polls"
    unfolding poll_log_def
  proof (intro conjI allI impI ballI)
    fix e assume "e \<in> set ?polls"
    then show "\<exists>checked now. poll_locations_at (spy mock_backend_io) demo_config checked now (pe_start e) =
        (Inr (pe_newly e), pe_end e)"
      using ok [OF runs(1)] ok [OF runs(2)] ok [OF runs(3)] by auto
  next
    fix k assume "Suc k < length ?polls"
    then consider "k = 0" | "k = 1" by fastforce
    then show "memory (pe_start (?polls ! Suc k)) = memory (pe_end (?polls ! k))"
      by cases (simp_all add: demo_entry_def demo_second_def demo_third_def)
  qed (simp add: demo_entry_def demo_flag_start_def client_loop_new_def)
  have "2 < length ?polls" by simp
  note run = reported_checks_are_debounced [OF log _ this]
  have "FlagRead 9 (Some True) \<in> new_events (pe_start (?polls ! 0)) (pe_end (?polls ! 0))"
    using run [of "\<lparr>lb_ap_location_id = 5, lb_event_flag = 9, lb_vanilla_award_suppressed = True\<rparr>"] new
    by (auto simp: demo_config_def dest!: spec [of _ "0 :: nat"])
  with new show ?thesis by (simp add: demo_entry_def)
qed

end
