(* ===== verification/BbOutcomes.thy ===== *)
theory BbOutcomes
  imports BbWatch
begin

text \<open>
  What single operations of the client loop achieve: a grant that failed for good is parked and the
  stream goes on, a stuck bonus is retired, queueing is idempotent, and two places where the rescue
  lane does not do what it says.
\<close>

lemma mock_reliable: "reliable mock_backend_io"
  by (simp add: reliable_def mock_backend_io_def)

text \<open>A session on the mock that starts with a given slot.\<close>

definition demo_with :: "slot_ledger \<Rightarrow> mock_backend \<Rightarrow> mock_backend client_loop" where
  "demo_with s m = client_loop_new m (slot_mut (\<lambda>_. s) (rc_seed_name demo_config) (rc_slot_name demo_config) bm_empty)"

lemma demo_with_slot: "slot_or_default demo_config (demo_with s m) = s" "the_slot demo_config (demo_with s m) = Some s"
  "lp_backend (demo_with s m) = m"
  by (simp_all add: demo_with_def client_loop_new_def slot_or_default_ledger the_slot_def slot_of_mut)

section \<open>A terminal failure parks the item\<close>

lemma reliable_save: "reliable io \<Longrightarrow> \<exists>b. save io lp = (Inr (), lp\<lparr>lp_backend := b\<rparr>)"
  by (cases "b_save io (lp_ledger lp) (lp_backend lp)") (simp add: save_def call_def, metis reliable_def fst_conv)

lemma settle_succeeds:
  assumes "f (slot_or_default cfg lp) = Inr s'" and "reliable io"
  shows "\<exists>lp'. settle io cfg i f lp = (Inr (), lp')"
proof -
  obtain r lp1 where c: "call (b_write_save_watermark io i) (put_slot cfg (\<lambda>s. snd (try_slot f s)) lp) = (r, lp1)"
    by fastforce
  let ?lp2 = "if r = Inr True then put_slot cfg (\<lambda>s. s\<lparr>sl_save_watermark := Some i\<rparr>) lp1 else lp1"
  have "settle io cfg i f lp = save io ?lp2"
    using assms(1) c by (simp add: settle_def seq_def on_slot_put try_slot_def attempt_def set_watermark_def ret_def)
  with reliable_save [OF assms(2), of ?lp2] show ?thesis by auto
qed

lemma next_index_watermark: "next_index (s\<lparr>sl_save_watermark := w\<rparr>) = next_index s"
  by (simp add: next_index_def split: list.split)

lemma park_slot_retires:
  assumes "ledger_wf s" "sl_pending s = Some p" "ii_index it = pi_index p"
  shows "\<exists>s'. park_slot it p failure s = Inr s' \<and> sl_pending s' = None \<and>
    bm_get (sl_acknowledged s') (pi_index p) = Some (acknowledged_of it p (Some (park_reason failure))) \<and>
    ledger_wf s'"
proof -
  let ?a = "acknowledged_of it p (Some (park_reason failure))"
  have front: "pi_index p = next_index s" using assms(1,2) by (simp add: ledger_wf_def)
  have ack: "acknowledge_blocked (ii_index it) ?a s = Inr (retire (pi_index p) ?a s)"
    using assms(2,3) front by (simp add: acknowledge_blocked_def acknowledged_of_def)
  have wf: "ledger_wf (retire (pi_index p) ?a s)" using wf_retire [OF assms(1) front] .
  have wf': "ledger_wf (t\<lparr>sl_deferred_vial_ap := d\<rparr>)" if "ledger_wf t" for t d
    by (rule admin_wf [OF _ that]) (simp add: cursor_part_def)
  define t where "t = retire (pi_index p) ?a s"
  define u where "u = (if deferred_vial (ii_index it) p failure
      then t\<lparr>sl_deferred_vial_ap := bs_insert (ii_index it) (sl_deferred_vial_ap t)\<rparr> else t)"
  have "sl_pending t = None" "bm_get (sl_acknowledged t) (pi_index p) = Some ?a" "ledger_wf t"
    using wf by (simp_all add: t_def retire_def advance_cursor_def)
  then have "sl_pending u = None" "bm_get (sl_acknowledged u) (pi_index p) = Some ?a" "ledger_wf u"
    using wf' [of t] by (simp_all add: u_def)
  moreover have "park_slot it p failure s = Inr u"
    unfolding park_slot_def ack by (simp add: u_def t_def)
  ultimately show ?thesis by blast
qed

text \<open>
  C22: A refused item never blocks the stream. When the backend reports a terminal failure for the
  grant of the planned item, the poll reports it as blocked with the failure's words, the item is
  acknowledged as parked under its index with that reason, no plan is left, and the next index to
  deliver is another one.
\<close>

theorem terminal_failure_parks:
  assumes "ledger_wf (slot_or_default cfg lp)" and "sl_pending (slot_or_default cfg lp) = Some p"
    and "ii_index it = pi_index p" and "reliable io"
    and "b_grant_item io (item_grant_of p v) (lp_backend lp) = (Inl error, b)"
    and "terminal_of error = Some failure"
  shows "\<exists>lp'. submit_item io cfg it p v lp =
      (Inr (Inl (Blocked \<lparr>bi_index = pi_index p, bi_ap_item_id = ii_ap_item_id it,
         bi_status = gf_status failure, bi_detail = gf_detail failure\<rparr>)), lp') \<and>
    bm_get (sl_acknowledged (slot_or_default cfg lp')) (pi_index p) =
      Some (acknowledged_of it p (Some (park_reason failure))) \<and>
    sl_pending (slot_or_default cfg lp') = None \<and> next_index (slot_or_default cfg lp') \<noteq> pi_index p"
proof -
  let ?lp1 = "lp\<lparr>lp_backend := b\<rparr>"
  obtain s' where s': "park_slot it p failure (slot_or_default cfg ?lp1) = Inr s'" "sl_pending s' = None"
    "bm_get (sl_acknowledged s') (pi_index p) = Some (acknowledged_of it p (Some (park_reason failure)))" "ledger_wf s'"
    using park_slot_retires [OF assms(1-3), of failure] by auto
  obtain lp' where set: "settle io cfg (pi_index p) (park_slot it p failure) ?lp1 = (Inr (), lp')"
    using settle_succeeds [where f = "park_slot it p failure", OF s'(1) assms(4)] by blast
  have run: "submit_item io cfg it p v lp =
      (Inr (Inl (Blocked \<lparr>bi_index = pi_index p, bi_ap_item_id = ii_ap_item_id it,
         bi_status = gf_status failure, bi_detail = gf_detail failure\<rparr>)), lp')"
    using assms(3,5,6) set
    by (simp add: submit_item_def seq_def attempt_def call_def park_terminal_grant_def ret_def)
  have "slot_or_default cfg lp' = s' \<or> slot_or_default cfg lp' = s'\<lparr>sl_save_watermark := Some (pi_index p)\<rparr>"
  proof (rule ccontr)
    assume other: "\<not> ?thesis"
    from settle_slot [OF set] s'(1) other have "slot_or_default cfg lp' = slot_or_default cfg ?lp1" by auto
    with set s'(1) other show False
      by (auto simp: settle_def seq_def on_slot_put try_slot_def attempt_def set_watermark_def ret_def
          save_def call_def slot_or_default_ledger put_slot_def split: prod.splits if_splits)
  qed
  moreover have "next_index s' \<noteq> pi_index p"
    using next_index_fresh [OF s'(4)] s'(3) by (auto simp: acked_def)
  ultimately have "bm_get (sl_acknowledged (slot_or_default cfg lp')) (pi_index p) =
      Some (acknowledged_of it p (Some (park_reason failure)))"
    "sl_pending (slot_or_default cfg lp') = None" "next_index (slot_or_default cfg lp') \<noteq> pi_index p"
    using s'(2,3) next_index_watermark by auto
  with run show ?thesis by blast
qed

definition demo_refusing :: mock_backend where
  "demo_refusing = mock_backend_default\<lparr>mb_terminal_failures := [''ap_0'' \<mapsto> ''failed'']\<rparr>"

theorem terminal_failure_parks_witness:
  "\<exists>lp'. submit_item mock_backend_io demo_config \<lparr>ii_index = 0, ii_ap_item_id = 7\<rparr> (demo_plan 0) 0
      (demo_with (default_slot\<lparr>sl_pending := Some (demo_plan 0)\<rparr>) demo_refusing) =
    (Inr (Inl (Blocked \<lparr>bi_index = 0, bi_ap_item_id = 7, bi_status = ''failed'',
       bi_detail = ''mock terminal harness failure''\<rparr>)), lp') \<and>
    next_index (slot_or_default demo_config lp') \<noteq> 0"
proof -
  let ?s = "default_slot\<lparr>sl_pending := Some (demo_plan 0)\<rparr>"
  have "begin_item (demo_plan 0) default_slot = Inr ?s"
    by (simp add: begin_item_def default_slot_def demo_plan_def next_index_def bs_list_def
        bm_keys_def bs_empty_def bm_empty.rep_eq)
  then have wf: "ledger_wf ?s" by (rule wf_op [OF ls_begin wf_default])
  have tag: "ig_tag (item_grant_of (demo_plan 0) 0) = ''ap_0''" by code_simp
  have refuse: "b_grant_item mock_backend_io (item_grant_of (demo_plan 0) 0) demo_refusing =
      (Inl (Terminal \<lparr>gf_tag = ''ap_0'', gf_status = ''failed'', gf_detail = ''mock terminal harness failure''\<rparr>),
       demo_refusing)"
    by (simp add: mock_backend_io_def mock_grant_item_def tag demo_refusing_def mock_backend_default_def
        mock_failure_detail_def)
  from terminal_failure_parks [where cfg = demo_config and io = mock_backend_io and lp = "demo_with ?s demo_refusing"
      and p = "demo_plan 0" and it = "\<lparr>ii_index = 0, ii_ap_item_id = 7\<rparr>" and v = 0,
      unfolded demo_with_slot, OF wf _ _ mock_reliable refuse]
  show ?thesis by (simp add: demo_plan_def) blast
qed

section \<open>The bonus lane gives up\<close>

text \<open>The polls of one stuck bonus: the backend's grant stays pending, time and again.\<close>

fun stuck_polls :: "'b backend \<Rightarrow> runtime_config \<Rightarrow> int \<Rightarrow> nat \<Rightarrow> 'b client_loop \<Rightarrow> (bb_error + sustain_poll) \<times> 'b client_loop" where
  "stuck_polls io cfg key 0 lp = (Inr SustainPending, lp)"
| "stuck_polls io cfg key (Suc n) lp = sustain_still_pending io cfg key (snd (stuck_polls io cfg key n lp))"

lemma still_pending_counts:
  "sustain_still_pending io cfg key lp =
     (let n = count_pending_poll key (lp_sustain_pending_polls lp);
          lp1 = lp\<lparr>lp_sustain_pending_polls := Some (key, n)\<rparr>
      in if n < SUSTAIN_PENDING_POLL_LIMIT then (Inr SustainPending, lp1)
         else seq (call (b_retire_grant io (sustain_tag key) ''native grant timed out'')) (\<lambda>withdrawn.
                retire_sustain io cfg key withdrawn ''native grant timed out'') lp1)"
  by (simp add: sustain_still_pending_def seq_def look_def change_def set_sustain_polls_def ret_def Let_def)

lemma stuck_counts:
  assumes "lp_sustain_pending_polls lp = None"
  shows "0 < n \<Longrightarrow> n < SUSTAIN_PENDING_POLL_LIMIT \<Longrightarrow>
    stuck_polls io cfg key n lp = (Inr SustainPending, lp\<lparr>lp_sustain_pending_polls := Some (key, n)\<rparr>)"
proof (induction n)
  case (Suc n)
  show ?case
  proof (cases "n = 0")
    case True
    with Suc.prems assms show ?thesis by (simp add: still_pending_counts count_pending_poll_def)
  next
    case False
    with Suc show ?thesis
      by (simp add: still_pending_counts count_pending_poll_def saturating_add_u32_def u32_max_def
          SUSTAIN_PENDING_POLL_LIMIT_def)
  qed
qed simp

text \<open>
  A bonus cannot hold the delivery lane. The first 599 polls that find its grant pending wait;
  the 600th retires it: with a backend that answers and a file that can be written, the bonus leaves
  the pending rows, counts as completed and is never replayed, and the counter starts afresh.
\<close>

theorem stuck_bonus_is_retired:
  assumes "lp_sustain_pending_polls lp = None" and "reliable io"
    and "\<And>b. \<not> isl (fst (b_retire_grant io (sustain_tag key) ''native grant timed out'' b))"
  shows "(\<forall>n < 600. fst (stuck_polls io cfg key n lp) = Inr SustainPending) \<and>
    (\<exists>withdrawn. fst (stuck_polls io cfg key 600 lp) = Inr (SustainRetired \<bar>key\<bar> withdrawn ''native grant timed out'')) \<and>
    (let s = slot_or_default cfg (snd (stuck_polls io cfg key 600 lp))
     in bm_get (sl_pending_sustain s) key = None \<and> bs_member (sl_completed_sustain s) key) \<and>
    lp_sustain_pending_polls (snd (stuck_polls io cfg key 600 lp)) = None"
proof -
  have limit: "SUSTAIN_PENDING_POLL_LIMIT = 600" by (simp add: SUSTAIN_PENDING_POLL_LIMIT_def)
  have wait: "fst (stuck_polls io cfg key n lp) = Inr SustainPending" if "n < 600" for n
    using stuck_counts [OF assms(1), of n io cfg key] that by (cases "n = 0") (simp_all add: limit)
  let ?lp1 = "lp\<lparr>lp_sustain_pending_polls := Some (key, 600)\<rparr>"
  obtain w b where r: "b_retire_grant io (sustain_tag key) ''native grant timed out'' (lp_backend lp) = (Inr w, b)"
    using assms(3) [of "lp_backend lp"] by (cases "b_retire_grant io (sustain_tag key) ''native grant timed out'' (lp_backend lp)")
      (auto simp: isl_def, metis sumE)
  have before: "stuck_polls io cfg key 599 lp = (Inr SustainPending, lp\<lparr>lp_sustain_pending_polls := Some (key, 599)\<rparr>)"
    by (rule stuck_counts [OF assms(1)]) (simp_all add: limit)
  have six: "stuck_polls io cfg key 600 lp = stuck_polls io cfg key (Suc 599) lp"
    by (rule arg_cong [where f = "\<lambda>n. stuck_polls io cfg key n lp"]) simp
  have "stuck_polls io cfg key (Suc 599) lp = retire_sustain io cfg key w ''native grant timed out'' (?lp1\<lparr>lp_backend := b\<rparr>)"
    using before r
    by (simp only: stuck_polls.simps)
      (simp add: still_pending_counts count_pending_poll_def saturating_add_u32_def u32_max_def limit seq_def call_def)
  then have last: "stuck_polls io cfg key 600 lp = retire_sustain io cfg key w ''native grant timed out'' (?lp1\<lparr>lp_backend := b\<rparr>)"
    by (simp only: six)
  let ?put = "put_slot cfg (finish_sustain key) (?lp1\<lparr>lp_backend := b\<rparr>)"
  obtain b' where s: "save io ?put = (Inr (), ?put\<lparr>lp_backend := b'\<rparr>)"
    using reliable_save [OF assms(2)] by blast
  have "stuck_polls io cfg key 600 lp = (Inr (SustainRetired \<bar>key\<bar> w ''native grant timed out''),
      ?put\<lparr>lp_backend := b', lp_sustain_pending_polls := None,
           lp_sustain_notice := Some (SustainRetired \<bar>key\<bar> w ''native grant timed out'')\<rparr>)"
    unfolding last
    by (simp add: retire_sustain_def commit_def commit_if_def seq_def on_slot_put s ret_def set_sustain_polls_def change_def)
  with wait show ?thesis
    by (simp add: slot_or_default_ledger put_slot_def finish_sustain_def Let_def)
qed

theorem stuck_bonus_is_retired_witness:
  "\<exists>withdrawn. fst (stuck_polls mock_backend_io demo_config 5 600 (demo_with default_slot mock_backend_default)) =
     Inr (SustainRetired 5 withdrawn ''native grant timed out'')"
proof -
  have "lp_sustain_pending_polls (demo_with default_slot mock_backend_default) = None"
    by (simp add: demo_with_def client_loop_new_def)
  moreover have "\<not> isl (fst (b_retire_grant mock_backend_io (sustain_tag 5) ''native grant timed out'' b))" for b
    by (simp add: mock_backend_io_def mock_retire_def)
  ultimately show ?thesis
    using stuck_bonus_is_retired [of "demo_with default_slot mock_backend_default" mock_backend_io 5 demo_config]
      mock_reliable by simp
qed

text \<open>
  Queueing the bonuses of newly sent checks is idempotent: asked again for the same locations,
  at once or after a restart, the client queues nothing, and no bonus that is pending or completed is
  queued a second time.
\<close>

theorem bonuses_are_queued_once:
  assumes "queue_locations cfg locations s = (queued, s')"
  shows "queue_locations cfg locations s' = ([], s') \<and>
    (\<forall>k. sustain_known s k \<longrightarrow> bm_get (sl_pending_sustain s') k = bm_get (sl_pending_sustain s) k)"
proof -
  have key: "bm_get (sl_pending_sustain (snd (queue_key j acc))) k = bm_get (sl_pending_sustain (snd acc)) k \<and>
      sustain_known (snd (queue_key j acc)) k" if "sustain_known (snd acc) k" for j k acc
    using that by (cases acc) (auto simp: queue_key_def sustain_known_def bm_contains_def)
  have keys: "bm_get (sl_pending_sustain (snd (fold queue_key js acc))) k = bm_get (sl_pending_sustain (snd acc)) k \<and>
      sustain_known (snd (fold queue_key js acc)) k" if "sustain_known (snd acc) k" for js k acc
    using that
  proof (induction js arbitrary: acc)
    case (Cons j js)
    from Cons.IH [of "queue_key j acc"] key [OF Cons.prems] show ?case by auto
  qed simp
  have loc: "bm_get (sl_pending_sustain (snd (queue_location cfg l acc))) k = bm_get (sl_pending_sustain (snd acc)) k \<and>
      sustain_known (snd (queue_location cfg l acc)) k" if "sustain_known (snd acc) k" for l k acc
    using keys [of "(False, snd acc)" k "sustain_keys cfg l"] that
    by (cases acc) (auto simp: queue_location_def split: prod.split)
  have locs: "bm_get (sl_pending_sustain (snd (fold (queue_location cfg) ls acc))) k = bm_get (sl_pending_sustain (snd acc)) k"
    if "sustain_known (snd acc) k" for ls k acc
    using that
  proof (induction ls arbitrary: acc)
    case (Cons l ls)
    from Cons.IH [of "queue_location cfg l acc"] loc [OF Cons.prems] show ?case by auto
  qed simp
  show ?thesis
    using queue_locations_again [OF assms] assms
      locs [of "([], s)" _ "filter (suppressed_location cfg) locations"]
    by (auto simp: queue_locations_def)
qed

theorem bonuses_are_queued_once_witness:
  "\<exists>s'. queue_locations demo_config [5, 6] default_slot = ([5], s') \<and>
     queue_locations demo_config [5, 6] s' = ([], s')"
proof -
  have "fst (queue_locations demo_config [5, 6] default_slot) = [5]" by code_simp
  then have "queue_locations demo_config [5, 6] default_slot = ([5], snd (queue_locations demo_config [5, 6] default_slot))"
    by (simp add: prod_eq_iff)
  with bonuses_are_queued_once [OF this] show ?thesis by blast
qed

section \<open>Two divergences\<close>

definition password_recipe :: string where "password_recipe = ''forbidden-woods-password''"

definition password_after :: string where
  "password_after = ''the password flag is written again (idempotent); talk to the gate once more.''"

lemma password_found:
  "find (\<lambda>r. eq_ignore_ascii_case (rr_name r) password_recipe) RESCUE_RECIPES =
     Some \<lparr>rr_name = password_recipe, rr_when = rr_when (RESCUE_RECIPES ! 1), rr_after = password_after,
           rr_steps = [GrantItem 12401803 255], rr_preconditions = []\<rparr>"
  by code_simp

lemma context_acked:
  assumes "require_runtime_context io cfg oper lp = (r, lp1)"
  shows "sl_acknowledged (slot_or_default cfg lp1) = sl_acknowledged (slot_or_default cfg lp)"
proof -
  have bind: "sl_acknowledged (slot_or_default cfg lp3) = sl_acknowledged (slot_or_default cfg lp2)"
    if "bind_identity io cfg i lp2 = (r, lp3)" for i lp2 lp3 r
    using that unfolding bind_identity_def
    by (elim seq_cases) (auto dest!: commit_slot split: option.splits if_splits)
  from assms show ?thesis
    unfolding require_runtime_context_def
    by (auto dest!: call_slot [where cfg = cfg] bind elim!: seq_cases split: option.splits if_splits)
qed

lemma give_acked:
  assumes "rescue_give io cfg ap name lp = (Inr q, lp1)"
    and "e \<in> set (entries (sl_acknowledged (slot_or_default cfg lp)))" "ai_ap_item_id (snd e) = ap"
  shows "\<not> q \<and> rows (slot_or_default cfg lp1) = rows (slot_or_default cfg lp)"
proof -
  from assms(1) obtain i lp2 lp3 b now where
    c: "require_runtime_context io cfg ''rescue give'' lp = (Inr i, lp2)" and
    g: "commit_get io cfg (\<lambda>queued. queued) (give_step now ap b name) lp2 = (Inr q, lp1)"
    by (auto simp: rescue_give_def require_gameplay_def now_ms_def seq_Inr split: option.splits if_splits)
  have "already_recorded ap (slot_or_default cfg lp2)"
    using context_acked [OF c] assms(2,3) by (auto simp: already_recorded_def)
  then have step: "give_step now ap b name (slot_or_default cfg lp2) = (False, slot_or_default cfg lp2)"
    by (simp add: give_step_def)
  from commit_get_slot [OF g] step context_rows [OF c]
  have "rows (slot_or_default cfg lp1) = rows (slot_or_default cfg lp)" by simp
  moreover have "\<not> q"
    using g step by (simp add: commit_get_def commit_if_def seq_def on_slot_put ret_def)
  ultimately show ?thesis by simp
qed

text \<open>
  The recipe for the forbidden woods password writes nothing in the situation it is for. When
  the contract's password item has been delivered, a run of the recipe that ends well queues no
  grant and changes no command row, and still reports that the flag was written again.
\<close>

theorem password_recipe_repairs_nothing:
  assumes "rescue_recipe_apply io cfg item_name location_name password_recipe lp = (Inr lines, lp')"
    and "recipe_item cfg 12401803 255 = Some ap"
    and "e \<in> set (entries (sl_acknowledged (slot_or_default cfg lp)))" and "ai_ap_item_id (snd e) = ap"
  shows "rows (slot_or_default cfg lp') = rows (slot_or_default cfg lp) \<and>
    last lines = ''AUDIT rescue '' @ password_recipe @ '' complete: '' @ password_after"
proof -
  from assms(1,2) obtain i lp1 q lp2 now u where
    c: "require_runtime_context io cfg ''rescue recipe'' lp = (Inr i, lp1)"
    and g: "rescue_give io cfg ap (item_name ap) lp1 = (Inr q, lp2)"
    and n: "commit io cfg (operator_note now ''rescue'' 0 password_recipe) lp2 = (u, lp')"
    and lines: "last lines = ''AUDIT rescue '' @ password_recipe @ '' complete: '' @ password_after"
    by (auto simp: rescue_recipe_apply_def password_found require_gameplay_def run_recipe_def now_ms_def
        run_step_def resolve_step_def seq_Inr split: option.splits)
  have "rows (slot_or_default cfg lp2) = rows (slot_or_default cfg lp1)"
    using give_acked [OF g, of e] assms(3,4) context_acked [OF c] by simp
  moreover have "rows (slot_or_default cfg lp') = rows (slot_or_default cfg lp2)"
    using commit_slot [OF n] by (simp add: rows_def operator_note_def)
  ultimately show ?thesis using context_rows [OF c] lines by simp
qed

definition demo_password :: "mock_backend client_loop" where
  "demo_password = demo_poll mock_backend_io 8 (client_loop_new mock_backend_default bm_empty)"

definition demo_recipe :: "(bb_error + string list) \<times> mock_backend client_loop" where
  "demo_recipe = rescue_recipe_apply mock_backend_io demo_config (\<lambda>_. ''item'') (\<lambda>_. ''location'') password_recipe demo_password"

theorem password_recipe_repairs_nothing_witness:
  "\<not> isl (fst demo_recipe) \<and> rows (slot_or_default demo_config (snd demo_recipe)) =
     rows (slot_or_default demo_config demo_password)"
proof -
  have ok: "\<not> isl (fst demo_recipe)" by code_simp
  then have run: "rescue_recipe_apply mock_backend_io demo_config (\<lambda>_. ''item'') (\<lambda>_. ''location'') password_recipe demo_password =
      (Inr (projr (fst demo_recipe)), snd demo_recipe)"
    by (cases demo_recipe) (auto simp: demo_recipe_def [symmetric])
  have item: "recipe_item demo_config 12401803 255 = Some 8" by code_simp
  have "map (\<lambda>e. ai_ap_item_id (snd e)) (entries (sl_acknowledged (slot_or_default demo_config demo_password))) = [8]"
    by code_simp
  then obtain e where "e \<in> set (entries (sl_acknowledged (slot_or_default demo_config demo_password)))"
    "ai_ap_item_id (snd e) = 8" by auto
  from password_recipe_repairs_nothing [OF run item this] ok show ?thesis by simp
qed

text \<open>
  At startup a leftover bonus command is not the one that is withdrawn. With a vial bonus in
  flight and no other command, the tag withdrawn is built from the negative ledger key and differs
  from the tag the bonus was submitted under.
\<close>

theorem leftover_vial_tag_differs:
  assumes "the_slot cfg lp = Some s" and "sl_pending s = None"
    and "bm_keys (sl_pending_sustain s) = key # keys" and "key < 0"
  shows "\<exists>tag. leftover_tag cfg lp = Some tag \<and> tag \<noteq> sustain_tag key \<and>
    ig_tag (sustain_grant cfg key v) = sustain_tag key"
proof -
  have "leftover_tag cfg lp = Some (''sustain_'' @ show_int key)"
    using assms by (simp add: leftover_tag_def in_flight_tag_def)
  moreover have "show_int key = CHR ''-'' # show_nat (nat (- key))" using assms(4) by (simp add: show_int_def)
  ultimately show ?thesis
    using assms(4) by (simp add: sustain_tag_def sustain_vial_tag_def sustain_grant_def)
qed

theorem leftover_vial_tag_differs_witness:
  "\<exists>tag. leftover_tag demo_config
      (demo_with (default_slot\<lparr>sl_pending_sustain := bm_insert (- 5) (Some 0) bm_empty\<rparr>) mock_backend_default) = Some tag \<and>
    tag \<noteq> ''sustain_vial_5''"
proof -
  have keys: "bm_keys (bm_insert (- 5 :: int) (Some (0 :: nat)) bm_empty) = [- 5]" by code_simp
  have tag: "sustain_tag (- 5) = ''sustain_vial_5''" by code_simp
  show ?thesis
    using leftover_vial_tag_differs [OF demo_with_slot(2), of "default_slot\<lparr>sl_pending_sustain := bm_insert (- 5) (Some 0) bm_empty\<rparr>"
        "- 5" "[]" mock_backend_default 0] keys tag
    by (auto simp: default_slot_def)
qed

section \<open>Plans sit on the row of their level\<close>

text \<open>
  The row of a reinforcement level: a hundred ids per level above the one the binding carries, as
  numbers that are not reduced to 32 bits, and nothing below the binding or above level ten.
\<close>

definition on_row :: "runtime_item_binding \<Rightarrow> nat \<Rightarrow> nat \<Rightarrow> nat option \<Rightarrow> bool" where
  "on_row b raw norm level \<longleftrightarrow>
     (case rb_reinforcement_level b of
        None \<Rightarrow> level = None \<and> raw = rb_raw_descriptor b \<and> norm = rb_normalized_item_id b
      | Some received \<Rightarrow>
          (\<exists>l. level = Some l \<and> received \<le> l \<and> l \<le> 10 \<and>
             raw = rb_raw_descriptor b + 100 * (l - received) \<and> raw < 2 ^ 32 \<and>
             norm = rb_normalized_item_id b + 100 * (l - received) \<and> norm < 2 ^ 32))"

definition plan_on_row :: "runtime_config \<Rightarrow> pending_item \<Rightarrow> bool" where
  "plan_on_row cfg p \<longleftrightarrow>
     (case bm_get (rc_items cfg) (pi_ap_item_id p) of
        None \<Rightarrow> False
      | Some b \<Rightarrow> on_row b (pi_raw_descriptor p) (pi_normalized_item_id p) (pi_reinforcement_level p))"

text \<open>No row of this level exists: it is below the received one or past the 32-bit ids.\<close>

definition no_row :: "runtime_item_binding \<Rightarrow> nat \<Rightarrow> nat \<Rightarrow> bool" where
  "no_row b received l \<longleftrightarrow>
     l < received \<or> 2 ^ 32 \<le> rb_raw_descriptor b + 100 * (l - received) \<or>
     2 ^ 32 \<le> rb_normalized_item_id b + 100 * (l - received)"

lemma pair_none_iff:
  "reinforced_descriptor_pair (rb_raw_descriptor b) (rb_normalized_item_id b) received l = None \<longleftrightarrow>
   no_row b received l"
  by (auto simp: reinforced_descriptor_pair_def no_row_def checked_add_u32_def REINFORCEMENT_ROW_STEP_def Let_def
      split: option.splits)

lemma level_at_most_ten: "auto_upgrade_level en received target \<le> 10"
  using auto_upgrade_bounds(2) [of en received target] by (simp add: MAX_WEAPON_LEVEL_def)

lemma plan_descriptor_on_row:
  assumes "plan_descriptor cfg b target = Some d"
  shows "on_row b (fst d) (snd d)
    (map_option (\<lambda>r. auto_upgrade_level (rc_auto_upgrade cfg) r target) (rb_reinforcement_level b))"
  using assms
  by (cases d) (auto simp: plan_descriptor_def on_row_def level_at_most_ten split: option.splits
      dest: reinforced_pair_moves_together)

lemma plan_item_cases:
  assumes "plan_item io cfg indexed it lp = (Inr (Some p), lp')"
  obtains b target d equip where "bm_get (rc_items cfg) (ii_ap_item_id it) = Some b"
    "plan_descriptor cfg b target = Some d" "p = new_plan cfg b it target d equip"
  using assms
  by (auto simp: plan_item_def seq_def ret_def bail_def throw_def
      split: option.splits sum.splits prod.splits upgrade_target.splits)

lemma raise_plan_on_row:
  assumes "raise_plan io cfg b p received target lp = (Inr q, lp')"
    and "rb_reinforcement_level b = Some received"
    and "on_row b (pi_raw_descriptor p) (pi_normalized_item_id p) (pi_reinforcement_level p)"
  shows "on_row b (pi_raw_descriptor q) (pi_normalized_item_id q) (pi_reinforcement_level q) \<and>
    the (pi_reinforcement_level p) \<le> the (pi_reinforcement_level q) \<and> pi_ap_item_id q = pi_ap_item_id p"
  using assms
  by (auto simp: raise_plan_def Let_def seq_def ret_def bail_def throw_def raised_plan_def on_row_def
      level_at_most_ten split: option.splits sum.splits prod.splits if_splits
      dest: reinforced_pair_moves_together)

lemma refresh_on_row:
  assumes "refresh_pending_upgrade io cfg p lp = (Inr q, lp')" and "plan_on_row cfg p"
  shows "plan_on_row cfg q \<and> (pi_reinforcement_level p = pi_reinforcement_level q \<or>
    the (pi_reinforcement_level p) \<le> the (pi_reinforcement_level q))"
  using assms
  by (auto simp: refresh_pending_upgrade_def plan_on_row_def seq_def ret_def
      split: option.splits sum.splits prod.splits if_splits upgrade_target.splits
      dest: raise_plan_on_row)

text \<open>
  C40: A weapon is granted at the row of its level or not at all. A planned item has the descriptor
  pair of its binding moved up by exactly a hundred ids for each level above the received one, the
  level being at most ten, with no wrap-around of the 32-bit ids; every later raise of a plan leaves
  it on the row of its new level, computed from the binding and not from the plan, and never lowers
  it. When the level to deliver has no such row (the received level is above ten, or an id would
  leave 32 bits) planning reports the overflow and plans nothing.
\<close>

theorem plans_sit_on_their_row:
  assumes "bm_get (rc_items cfg) (ii_ap_item_id it) = Some b"
  shows "(\<forall>p lp'. plan_item io cfg indexed it lp = (Inr (Some p), lp') \<longrightarrow>
       plan_on_row cfg p \<and> pi_reinforcement_level p = map_option
         (\<lambda>received. auto_upgrade_level (rc_auto_upgrade cfg) received (pi_upgrade_target_level p))
         (rb_reinforcement_level b)) \<and>
    (\<forall>p lp1 q lp2. plan_on_row cfg p \<and> refresh_pending_upgrade io cfg p lp1 = (Inr q, lp2) \<longrightarrow>
       plan_on_row cfg q \<and> (pi_reinforcement_level p = pi_reinforcement_level q \<or>
         the (pi_reinforcement_level p) \<le> the (pi_reinforcement_level q))) \<and>
    (\<forall>received target lp1. rb_reinforcement_level b = Some received \<and>
       upgrade_target_for io cfg b lp = (Inr (Level target), lp1) \<and>
       no_row b received (auto_upgrade_level (rc_auto_upgrade cfg) received target) \<longrightarrow>
       plan_item io cfg indexed it lp = (Inl (Message upgrade_overflow), lp1))"
proof -
  have "plan_on_row cfg p \<and> pi_reinforcement_level p = map_option
         (\<lambda>received. auto_upgrade_level (rc_auto_upgrade cfg) received (pi_upgrade_target_level p))
         (rb_reinforcement_level b)"
    if "plan_item io cfg indexed it lp = (Inr (Some p), lp')" for p lp'
    using that
  proof (rule plan_item_cases)
    fix b' target d equip
    assume c: "bm_get (rc_items cfg) (ii_ap_item_id it) = Some b'"
      "plan_descriptor cfg b' target = Some d" "p = new_plan cfg b' it target d equip"
    with plan_descriptor_on_row [OF c(2)] assms show ?thesis
      by (simp add: plan_on_row_def new_plan_def)
  qed
  moreover have "plan_item io cfg indexed it lp = (Inl (Message upgrade_overflow), lp1)"
    if "rb_reinforcement_level b = Some received \<and> upgrade_target_for io cfg b lp = (Inr (Level target), lp1) \<and>
      no_row b received (auto_upgrade_level (rc_auto_upgrade cfg) received target)" for received target lp1
    using that assms
    by (simp add: plan_item_def plan_descriptor_def seq_def pair_none_iff [THEN iffD2] bail_def throw_def)
  ultimately show ?thesis using refresh_on_row by blast
qed

definition weapon_binding :: runtime_item_binding where
  "weapon_binding = demo_binding\<lparr>rb_item_category := 0, rb_reinforcement_level := Some 1\<rparr>"

definition weapon_config :: runtime_config where
  "weapon_config = demo_config\<lparr>rc_items := bm_insert 7 weapon_binding (bm_insert 9
     (weapon_binding\<lparr>rb_raw_descriptor := 0xFFFFFFF0\<rparr>) bm_empty), rc_auto_upgrade := True\<rparr>"

definition upgraded_mock :: "nat \<Rightarrow> mock_backend client_loop" where
  "upgraded_mock n = client_loop_new (mock_backend_default\<lparr>mb_upgrade_target_level := Some n\<rparr>) bm_empty"

text \<open>A held weapon at twelve gives level ten; a binding at the end of the ids cannot be raised.\<close>

theorem plans_sit_on_their_row_witness:
  "(\<exists>p lp'. plan_item mock_backend_io weapon_config bm_empty \<lparr>ii_index = 0, ii_ap_item_id = 7\<rparr> (upgraded_mock 12)
       = (Inr (Some p), lp') \<and> pi_reinforcement_level p = Some 10 \<and> plan_on_row weapon_config p) \<and>
   fst (plan_item mock_backend_io weapon_config bm_empty \<lparr>ii_index = 0, ii_ap_item_id = 9\<rparr> (upgraded_mock 12))
       = Inl (Message upgrade_overflow)"
proof
  let ?it = "\<lparr>ii_index = 0, ii_ap_item_id = 7\<rparr>"
  let ?r = "plan_item mock_backend_io weapon_config bm_empty ?it (upgraded_mock 12)"
  have "case fst ?r of Inr (Some p) \<Rightarrow> pi_reinforcement_level p = Some 10 | _ \<Rightarrow> False" by code_simp
  then obtain p lp' where p: "?r = (Inr (Some p), lp')" "pi_reinforcement_level p = Some 10"
    by (cases ?r) (auto split: sum.splits option.splits)
  have "bm_get (rc_items weapon_config) (ii_ap_item_id ?it) = Some weapon_binding" by code_simp
  from plans_sit_on_their_row [OF this, of mock_backend_io bm_empty "upgraded_mock 12"] p
  show "\<exists>p lp'. ?r = (Inr (Some p), lp') \<and> pi_reinforcement_level p = Some 10 \<and> plan_on_row weapon_config p" by blast
next
  let ?it = "\<lparr>ii_index = 0, ii_ap_item_id = 9\<rparr>" and ?b = "weapon_binding\<lparr>rb_raw_descriptor := 0xFFFFFFF0\<rparr>"
  have b: "bm_get (rc_items weapon_config) (ii_ap_item_id ?it) = Some ?b" by code_simp
  have "case fst (upgrade_target_for mock_backend_io weapon_config ?b (upgraded_mock 12)) of
      Inr (Level t) \<Rightarrow> t = Some 12 | _ \<Rightarrow> False" by code_simp
  then obtain lp1 where t: "upgrade_target_for mock_backend_io weapon_config ?b (upgraded_mock 12) = (Inr (Level (Some 12)), lp1)"
    by (cases "upgrade_target_for mock_backend_io weapon_config ?b (upgraded_mock 12)")
      (auto split: sum.splits upgrade_target.splits)
  have "rb_reinforcement_level ?b = Some 1 \<and> no_row ?b 1 (auto_upgrade_level (rc_auto_upgrade weapon_config) 1 (Some 12))"
    by code_simp
  with plans_sit_on_their_row [OF b, of mock_backend_io bm_empty "upgraded_mock 12"] t
  show "fst (plan_item mock_backend_io weapon_config bm_empty ?it (upgraded_mock 12)) = Inl (Message upgrade_overflow)"
    by (metis fst_conv)
qed

end
