(* ===== verification/NativeGrant.thy ===== *)
theory NativeGrant
  imports BbBackend
begin

unbundle bit_operations_syntax

text \<open>
  The native delivery machine of the Bloodborne client: \<open>GrantSession\<close> of
  \<open>crates/bb-archipelago/src/native/delivery.rs\<close> with the descriptor of \<open>descriptor.rs\<close>. The
  guest process behind the \<open>Runtime\<close> trait is a record of functions on a state. Instants are
  milliseconds; 32-bit values are numbers with saturation written out. A panic of the code is the
  value \<open>None\<close>.
\<close>

section \<open>Descriptors\<close>

record descriptor_formula =
  df_size :: nat
  df_staged_size :: nat
  df_goods_raw_prefix :: nat
  df_goods_normalized_prefix :: nat
  df_persistent_source_marker :: nat

record policy =
  po_absent_blood_vial_allowed :: bool
  po_verify_polls :: nat
  po_hydration_verify_polls :: nat
  po_min_absent_polls :: nat

definition CATEGORY_GOODS :: nat where "CATEGORY_GOODS = 4"
definition CATEGORY_EQUIPMENT :: nat where "CATEGORY_EQUIPMENT = 0"
definition CATEGORY_ARMOR :: nat where "CATEGORY_ARMOR = 1"

record grant_descriptor =
  gd_raw_id :: nat
  gd_normalized_id :: nat

definition for_goods :: "descriptor_formula \<Rightarrow> nat \<Rightarrow> string + grant_descriptor" where
  "for_goods fo goods_id =
     (if 0x0FFFFFFF < goods_id then Inl (''goods id '' @ show_hex0x goods_id @ '' is out of range'')
      else Inr \<lparr>gd_raw_id = df_goods_raw_prefix fo OR goods_id,
                gd_normalized_id = df_goods_normalized_prefix fo OR goods_id\<rparr>)"

text \<open>A panicking slice is \<open>None\<close>. Little-endian bytes of 32-bit values.\<close>

definition le_bytes :: "nat \<Rightarrow> nat list" where
  "le_bytes v = [v mod 256, v div 256 mod 256, v div 65536 mod 256, v div 16777216 mod 256]"

definition from_le_bytes :: "nat list \<Rightarrow> nat" where
  "from_le_bytes bs = foldr (\<lambda>b acc. b + 256 * acc) bs 0"

definition encode_descriptor :: "descriptor_formula \<Rightarrow> grant_descriptor \<Rightarrow> nat list option" where
  "encode_descriptor fo d =
     (let buffer = replicate (df_staged_size fo) 0
      in if length buffer < 0x14 then None
         else Some (le_bytes (gd_raw_id d) @ take 12 (drop 4 buffer) @ le_bytes (gd_normalized_id d) @ drop 0x14 buffer))"

definition decode_descriptor :: "descriptor_formula \<Rightarrow> nat list \<Rightarrow> (string + grant_descriptor) option" where
  "decode_descriptor fo data =
     (if length data < df_size fo
      then Some (Inl (''need '' @ show_nat (df_size fo) @ '' bytes, got '' @ show_nat (length data)))
      else if length data < 0x14 then None
      else Some (Inr \<lparr>gd_raw_id = from_le_bytes (take 4 data), gd_normalized_id = from_le_bytes (take 4 (drop 0x10 data))\<rparr>))"

definition descriptor_category :: "descriptor_formula \<Rightarrow> grant_descriptor \<Rightarrow> nat option" where
  "descriptor_category fo d =
     (let raw_prefix = gd_raw_id d AND 0xF0000000;
          normalized_prefix = gd_normalized_id d AND 0xF0000000
      in if raw_prefix = df_goods_raw_prefix fo \<and> normalized_prefix = df_goods_normalized_prefix fo
         then Some CATEGORY_GOODS
         else if raw_prefix = df_persistent_source_marker fo \<and> normalized_prefix = 0
         then Some CATEGORY_EQUIPMENT
         else if raw_prefix = df_persistent_source_marker fo + 0x10000000 \<and> normalized_prefix = 0x10000000
         then Some CATEGORY_ARMOR
         else None)"

definition is_stackable_category :: "descriptor_formula \<Rightarrow> grant_descriptor \<Rightarrow> bool" where
  "is_stackable_category fo d \<longleftrightarrow> descriptor_category fo d = Some CATEGORY_GOODS"

definition uses_persistent_source :: "descriptor_formula \<Rightarrow> grant_descriptor \<Rightarrow> bool" where
  "uses_persistent_source fo d \<longleftrightarrow>
     descriptor_category fo d \<in> {Some CATEGORY_EQUIPMENT, Some CATEGORY_ARMOR}"

section \<open>The guest process\<close>

definition EMPTY_SLOT :: nat where "EMPTY_SLOT = 0xFFFFFFFF"
definition STORAGE_RETRY_LIMIT :: nat where "STORAGE_RETRY_LIMIT = 3"
definition BLOOD_VIAL_GOODS_ID :: nat where "BLOOD_VIAL_GOODS_ID = 0x3E8"

definition CONSUMABLE_HOLD_CAPS :: "(nat \<times> nat) list" where
  "CONSUMABLE_HOLD_CAPS =
     [(0x384, 20), (0x3E8, 20), (0x44C, 10), (0x44D, 10), (0x456, 10), (0x460, 10), (0x4B0, 10),
      (0x4B1, 10), (0x4BA, 20), (0x4C4, 10), (0x4CE, 20), (0x4D8, 20), (0x4E2, 10), (0x4E3, 10),
      (0x4EC, 10), (0x4F6, 10), (0x514, 10), (0x528, 10), (0x532, 10), (0x578, 99), (0x582, 99),
      (0x5DC, 99), (0x5DD, 99), (0x5E6, 99), (0x5E7, 99), (0x5E8, 99), (0x5E9, 99), (0x5EA, 99),
      (0x5EB, 99), (0x5EC, 99), (0x5ED, 99), (0x5EE, 99), (0x5EF, 99), (0x636, 99), (0x637, 99),
      (0x638, 99), (0x639, 99), (0x7EE, 3), (0x82A, 3)]"

record grant_command =
  gc_raw_id :: nat
  gc_normalized_id :: nat
  gc_quantity :: nat
  gc_tag :: string
  gc_expected_before :: "nat option"

definition validate_command :: "grant_command \<Rightarrow> string option" where
  "validate_command c =
     (if \<not> (1 \<le> gc_quantity c \<and> gc_quantity c \<le> 99)
      then Some ''grant quantity must be between 1 and 99''
      else if gc_tag c = [] \<or> (\<exists>ch \<in> set (gc_tag c). is_white ch)
      then Some ''grant tag must be one non-empty token''
      else None)"

record stack_view =
  sv_quantity :: nat
  sv_exists :: bool
  sv_slot :: "nat option"
  sv_quantity_address :: "nat option"

record slot_record =
  sr_normalized_id :: "nat option"
  sr_quantity :: "nat option"
  sr_address :: "nat option"

record 'r runtime =
  rt_target_weapon_level :: "'r \<Rightarrow> nat option \<times> 'r"
  rt_inventory_ready :: "'r \<Rightarrow> bool \<times> 'r"
  rt_find_stack :: "nat \<Rightarrow> 'r \<Rightarrow> stack_view option \<times> 'r"
  rt_read_slot_record :: "nat \<Rightarrow> 'r \<Rightarrow> slot_record \<times> 'r"
  rt_request_pending :: "'r \<Rightarrow> bool \<times> 'r"
  rt_queue_native :: "grant_descriptor \<Rightarrow> nat \<Rightarrow> nat option \<Rightarrow> nat option \<Rightarrow> bool \<Rightarrow> 'r \<Rightarrow> 'r"
  rt_native_done :: "'r \<Rightarrow> bool \<times> 'r"
  rt_native_result :: "'r \<Rightarrow> nat \<times> 'r"
  rt_clear_request :: "'r \<Rightarrow> 'r"

section \<open>The state of a grant\<close>

record durable_state =
  ds_status :: string
  ds_tag :: string
  ds_expected_before :: "nat option"
  ds_expected_after :: "nat option"
  ds_detail :: string

definition durable_default :: durable_state where
  "durable_default = \<lparr>ds_status = ''awaiting_inventory'', ds_tag = [], ds_expected_before = None,
     ds_expected_after = None, ds_detail = []\<rparr>"

definition terminal_status :: "string \<Rightarrow> bool" where
  "terminal_status s \<longleftrightarrow> s \<in> {''completed'', ''recovered_complete'', ''failed'', ''quantity_mismatch'',
     ''command_rejected'', ''write_error''}"

definition is_terminal :: "durable_state \<Rightarrow> bool" where
  "is_terminal d \<longleftrightarrow> terminal_status (ds_status d)"

definition success_status :: "string \<Rightarrow> bool" where
  "success_status s \<longleftrightarrow> s \<in> {''completed'', ''recovered_complete''}"

definition is_success :: "durable_state \<Rightarrow> bool" where
  "is_success d \<longleftrightarrow> success_status (ds_status d)"

definition is_recoverable_prior :: "string \<Rightarrow> bool" where
  "is_recoverable_prior s \<longleftrightarrow> s \<in> {''executing'', ''queued'', ''verify_pending'', ''recovery_pending'',
     ''completed'', ''recovered_complete''}"

definition MAX_RECORDED_READBACKS :: nat where "MAX_RECORDED_READBACKS = 16"

record grant_trace =
  tr_tag :: string
  tr_raw_id :: nat
  tr_normalized_id :: nat
  tr_quantity :: nat
  tr_observed_before :: "nat option"
  tr_expected_after :: "nat option"
  tr_lane :: "string option"
  tr_source :: "string option"
  tr_readbacks :: "nat option list"
  tr_readbacks_seen :: nat
  tr_native_result :: "nat option"
  tr_verify_polls :: nat
  tr_execution_evidence :: bool
  tr_stack_present_at_dequeue :: "bool option"
  tr_replanned_to_delta :: bool

definition trace_default :: grant_trace where
  "trace_default = \<lparr>tr_tag = [], tr_raw_id = 0, tr_normalized_id = 0, tr_quantity = 0,
     tr_observed_before = None, tr_expected_after = None, tr_lane = None, tr_source = None,
     tr_readbacks = [], tr_readbacks_seen = 0, tr_native_result = None, tr_verify_polls = 0,
     tr_execution_evidence = False, tr_stack_present_at_dequeue = None, tr_replanned_to_delta = False\<rparr>"

definition trace_begin :: "grant_command \<Rightarrow> grant_trace" where
  "trace_begin c = trace_default\<lparr>tr_tag := gc_tag c, tr_raw_id := gc_raw_id c,
     tr_normalized_id := gc_normalized_id c, tr_quantity := gc_quantity c\<rparr>"

definition saturating_inc_u32 :: "nat \<Rightarrow> nat" where
  "saturating_inc_u32 n = min (n + 1) (2 ^ 32 - 1)"

text \<open>A full list of read-backs loses the oldest entry of its recent half.\<close>

definition record_readback :: "nat option \<Rightarrow> grant_trace \<Rightarrow> grant_trace" where
  "record_readback v t =
     (let kept = (if length (tr_readbacks t) = MAX_RECORDED_READBACKS
                  then take (MAX_RECORDED_READBACKS div 2) (tr_readbacks t) @
                       drop (MAX_RECORDED_READBACKS div 2 + 1) (tr_readbacks t)
                  else tr_readbacks t)
      in t\<lparr>tr_readbacks_seen := saturating_inc_u32 (tr_readbacks_seen t), tr_readbacks := kept @ [v]\<rparr>)"

definition last_readback :: "grant_trace \<Rightarrow> nat option" where
  "last_readback t =
     (case List.map_filter id (rev (tr_readbacks t)) of [] \<Rightarrow> None | n # _ \<Rightarrow> Some n)"

definition readback_surplus :: "grant_trace \<Rightarrow> int option" where
  "readback_surplus t =
     (case (last_readback t, tr_expected_after t) of
        (Some actual, Some wanted) \<Rightarrow> Some (int actual - int wanted)
      | _ \<Rightarrow> None)"

record 'r grant_session =
  gs_runtime :: 'r
  gs_prior :: durable_state
  gs_state :: durable_state
  gs_command :: "grant_command option"
  gs_absent_polls :: nat
  gs_absent_tag :: string
  gs_verify_polls :: nat
  gs_expected_before :: "nat option"
  gs_active :: bool
  gs_manual :: bool
  gs_delta_lane :: bool
  gs_instance_insert :: bool
  gs_replanned :: bool
  gs_storage_route :: bool
  gs_storage_retries :: nat
  gs_storage_retry_at :: "nat option"
  gs_trace :: grant_trace

definition session_with_prior :: "'r \<Rightarrow> durable_state \<Rightarrow> 'r grant_session" where
  "session_with_prior r prior =
     \<lparr>gs_runtime = r, gs_prior = prior, gs_state = durable_default, gs_command = None,
      gs_absent_polls = 0, gs_absent_tag = [], gs_verify_polls = 0, gs_expected_before = None,
      gs_active = False, gs_manual = False, gs_delta_lane = False, gs_instance_insert = False,
      gs_replanned = False, gs_storage_route = False, gs_storage_retries = 0,
      gs_storage_retry_at = None, gs_trace = trace_default\<rparr>"

definition session_new :: "'r \<Rightarrow> 'r grant_session" where
  "session_new r = session_with_prior r durable_default"

text \<open>A call of the runtime, and its commands.\<close>

definition ask :: "('r \<Rightarrow> 'a \<times> 'r) \<Rightarrow> 'r grant_session \<Rightarrow> 'a \<times> 'r grant_session" where
  "ask f s = (case f (gs_runtime s) of (a, r) \<Rightarrow> (a, s\<lparr>gs_runtime := r\<rparr>))"

definition tell :: "('r \<Rightarrow> 'r) \<Rightarrow> 'r grant_session \<Rightarrow> 'r grant_session" where
  "tell f s = s\<lparr>gs_runtime := f (gs_runtime s)\<rparr>"

definition set_status :: "string \<Rightarrow> string \<Rightarrow> 'r grant_session \<Rightarrow> 'r grant_session" where
  "set_status status detail s = s\<lparr>gs_state :=
     \<lparr>ds_status = status,
      ds_tag = (case gs_command s of Some c \<Rightarrow> gc_tag c | None \<Rightarrow> ds_tag (gs_state s)),
      ds_expected_before = gs_expected_before s,
      ds_expected_after = (case (gs_expected_before s, gs_command s) of
         (Some b, Some c) \<Rightarrow> Some (saturating_add_u32 b (gc_quantity c)) | _ \<Rightarrow> None),
      ds_detail = detail\<rparr>\<rparr>"

definition report :: "string \<Rightarrow> string \<Rightarrow> 'r grant_session \<Rightarrow> string \<times> 'r grant_session" where
  "report status detail s = (status, set_status status detail s)"

definition finish :: "string \<Rightarrow> string \<Rightarrow> 'r grant_session \<Rightarrow> string \<times> 'r grant_session" where
  "finish status detail s = (status, (set_status status detail s)\<lparr>gs_active := False\<rparr>)"

definition withdraw_unwitnessed :: "'r runtime \<Rightarrow> 'r grant_session \<Rightarrow> bool \<times> 'r grant_session" where
  "withdraw_unwitnessed rt s =
     (case ask (rt_request_pending rt) s of (pending, s1) \<Rightarrow>
      case ask (rt_native_done rt) s1 of (completed, s2) \<Rightarrow>
        if \<not> pending \<or> completed then (False, s2)
        else
          let s3 = (tell (rt_clear_request rt) s2)
                \<lparr>gs_active := False, gs_command := None, gs_expected_before := None\<rparr>
          in (True, snd (finish ''withdrawn'' ''unwitnessed native request cleared'' s3)))"

definition retire_session :: "string \<Rightarrow> 'r grant_session \<Rightarrow> 'r grant_session" where
  "retire_session detail s = snd (finish ''failed'' detail s)"

definition blood_vial_normalized :: "descriptor_formula \<Rightarrow> nat" where
  "blood_vial_normalized fo = df_goods_normalized_prefix fo OR BLOOD_VIAL_GOODS_ID"

definition hold_cap :: "descriptor_formula \<Rightarrow> nat \<Rightarrow> nat option" where
  "hold_cap fo normalized =
     map_option snd (find (\<lambda>(goods, cap). (df_goods_normalized_prefix fo OR goods) = normalized)
       CONSUMABLE_HOLD_CAPS)"

definition submit :: "grant_command \<Rightarrow> bool \<Rightarrow> 'r grant_session \<Rightarrow> string + 'r grant_session" where
  "submit c manual s =
     (case validate_command c of
        Some e \<Rightarrow> Inl e
      | None \<Rightarrow>
          if gs_active s then Inl ''a grant is already in flight''
          else Inr (set_status ''queued'' (''tag='' @ gc_tag c) (s
            \<lparr>gs_absent_polls := (if gs_absent_tag s \<noteq> gc_tag c then 0 else gs_absent_polls s),
             gs_absent_tag := gc_tag c, gs_verify_polls := 0, gs_delta_lane := False,
             gs_instance_insert := False, gs_replanned := False, gs_storage_route := False,
             gs_storage_retries := 0, gs_storage_retry_at := None,
             gs_expected_before := gc_expected_before c, gs_trace := trace_begin c,
             gs_command := Some c, gs_manual := manual\<rparr>)))"

section \<open>Polling a pending command\<close>

definition recovered_baseline :: "grant_command \<Rightarrow> nat \<Rightarrow> 'r grant_session \<Rightarrow> nat" where
  "recovered_baseline c live s =
     (case ds_expected_before (gs_prior s) of
        Some b \<Rightarrow>
          if ds_tag (gs_prior s) = gc_tag c
             \<and> ds_expected_after (gs_prior s) = Some (saturating_add_u32 b (gc_quantity c))
             \<and> is_recoverable_prior (ds_status (gs_prior s))
          then b else live
      | None \<Rightarrow> live)"

text \<open>The hydration grace: whether the poll goes on, with the counter after it.\<close>

definition absent_grace :: "policy \<Rightarrow> stack_view \<Rightarrow> 'r grant_session \<Rightarrow> bool \<times> 'r grant_session" where
  "absent_grace po stack s =
     (if sv_exists stack then (True, s\<lparr>gs_absent_polls := 0\<rparr>)
      else
        let n = gs_absent_polls s + 1
        in (po_min_absent_polls po \<le> n, s\<lparr>gs_absent_polls := n\<rparr>))"

definition command_descriptor :: "grant_command \<Rightarrow> grant_descriptor" where
  "command_descriptor c = \<lparr>gd_raw_id = gc_raw_id c, gd_normalized_id = gc_normalized_id c\<rparr>"

definition choose_baseline :: "bool \<Rightarrow> grant_command \<Rightarrow> stack_view \<Rightarrow> 'r grant_session \<Rightarrow> 'r grant_session" where
  "choose_baseline stackable c stack s =
     (if stackable
      then s\<lparr>gs_trace := (gs_trace s)\<lparr>tr_stack_present_at_dequeue := Some (sv_exists stack)\<rparr>,
             gs_expected_before := Some (case gc_expected_before c of
                Some b \<Rightarrow> b | None \<Rightarrow> recovered_baseline c (sv_quantity stack) s)\<rparr>
      else s\<lparr>gs_expected_before := Some 0\<rparr>)"

text \<open>An overflowing delta takes the insert lane, and a grant stays there once it did.\<close>

definition overflows :: "descriptor_formula \<Rightarrow> grant_command \<Rightarrow> nat \<Rightarrow> bool \<Rightarrow> 'r grant_session \<Rightarrow> bool" where
  "overflows fo c wanted delta s \<longleftrightarrow>
     gs_storage_route s \<or>
     (delta \<and> (case hold_cap fo (gc_normalized_id c) of Some cap \<Rightarrow> cap < wanted | None \<Rightarrow> False))"

definition note_baseline :: "nat \<Rightarrow> nat \<Rightarrow> 'r grant_session \<Rightarrow> 'r grant_session" where
  "note_baseline before' wanted s =
     s\<lparr>gs_trace := (gs_trace s)\<lparr>tr_observed_before := Some before', tr_expected_after := Some wanted\<rparr>\<rparr>"

definition note_readback :: "nat option \<Rightarrow> 'r grant_session \<Rightarrow> 'r grant_session" where
  "note_readback v s = s\<lparr>gs_trace := record_readback v (gs_trace s)\<rparr>"

text \<open>The call into the game, after which the machine waits for its completion.\<close>

definition start_native ::
  "descriptor_formula \<Rightarrow> 'r runtime \<Rightarrow> grant_command \<Rightarrow> bool \<Rightarrow> bool \<Rightarrow> nat \<Rightarrow> stack_view
     \<Rightarrow> 'r grant_session \<Rightarrow> string \<times> 'r grant_session" where
  "start_native fo rt c stackable delta wanted stack s =
     (let d = command_descriptor c;
          source = (if uses_persistent_source fo d then ''persistent'' else ''in_frame'');
          lane = (if delta then ''delta'' else ''insert'');
          s1 = tell (rt_queue_native rt d (gc_quantity c) (if delta then sv_slot stack else None)
                 (if delta then sv_quantity_address stack else None) (gs_manual s)) s;
          s2 = s1\<lparr>gs_active := True, gs_verify_polls := 0, gs_delta_lane := delta,
                  gs_instance_insert := \<not> stackable,
                  gs_trace := (gs_trace s1)\<lparr>tr_lane := Some lane, tr_source := Some source, tr_verify_polls := 0\<rparr>\<rparr>
      in report ''executing''
           (''tag='' @ gc_tag c @ '' native lane='' @ lane @ '' source='' @ source @
            '' expected_after='' @ show_nat wanted) s2)"

text \<open>What the machine does once the baseline is known.\<close>

definition dequeue ::
  "descriptor_formula \<Rightarrow> policy \<Rightarrow> 'r runtime \<Rightarrow> grant_command \<Rightarrow> bool \<Rightarrow> nat \<Rightarrow> stack_view
     \<Rightarrow> 'r grant_session \<Rightarrow> string \<times> 'r grant_session" where
  "dequeue fo po rt c stackable before' stack s =
     (let wanted = saturating_add_u32 before' (gc_quantity c);
          delta0 = (sv_exists stack \<and> stackable);
          over = overflows fo c wanted delta0 s;
          delta = (delta0 \<and> \<not> over);
          s1 = s\<lparr>gs_storage_route := over\<rparr>;
          s2 = (if stackable then note_baseline before' wanted s1 else s1)
      in if stackable \<and> sv_quantity stack = wanted then
           finish ''recovered_complete'' (''tag='' @ gc_tag c @ '' quantity='' @ show_nat (sv_quantity stack))
             (note_readback (Some (sv_quantity stack)) s2)
         else if stackable \<and> sv_quantity stack \<noteq> before' then
           finish ''quantity_mismatch'' (''tag='' @ gc_tag c @ '' expected_before='' @ show_nat before' @
             '' actual='' @ show_nat (sv_quantity stack))
             (note_readback (Some (sv_quantity stack)) s2)
         else if delta \<and> sv_quantity_address stack = None then
           finish ''write_error'' (''tag='' @ gc_tag c @ '' quantity pointer missing'') s2
         else if \<not> sv_exists stack \<and> gc_normalized_id c = blood_vial_normalized fo
                 \<and> \<not> po_absent_blood_vial_allowed po then
           finish ''failed'' (absent_vial_detail (gc_tag c)) s2
         else
           case ask (rt_request_pending rt) s2 of (pending, s3) \<Rightarrow>
             if pending then report ''busy'' ''Native request already pending'' s3
             else start_native fo rt c stackable delta wanted stack s3)"

definition hydration_wait :: "policy \<Rightarrow> grant_command \<Rightarrow> nat \<Rightarrow> string" where
  "hydration_wait po c n =
     ''tag='' @ gc_tag c @ '' waiting for inventory hydration before declaring the stack absent ('' @
     show_nat n @ ''/'' @ show_nat (po_min_absent_polls po) @ '')''"

definition poll_pending ::
  "descriptor_formula \<Rightarrow> policy \<Rightarrow> 'r runtime \<Rightarrow> grant_command \<Rightarrow> 'r grant_session \<Rightarrow> string \<times> 'r grant_session" where
  "poll_pending fo po rt c s =
     (case ask (rt_inventory_ready rt) s of (ready, s1) \<Rightarrow>
        if \<not> ready then report ''awaiting_inventory''
          ''Command retained; waiting for the game inventory to initialize and retry automatically'' s1
        else case ask (rt_find_stack rt (gc_normalized_id c)) s1 of (found, s2) \<Rightarrow>
          (case found of
             None \<Rightarrow> report ''awaiting_inventory''
               ''Command retained; inventory geometry is not hydrated yet'' s2
           | Some stack \<Rightarrow>
               (case absent_grace po stack s2 of (proceed, s3) \<Rightarrow>
                  if \<not> proceed then report ''awaiting_inventory'' (hydration_wait po c (gs_absent_polls s3)) s3
                  else
                    let stackable = is_stackable_category fo (command_descriptor c);
                        s4 = choose_baseline stackable c stack s3
                    in dequeue fo po rt c stackable (the (gs_expected_before s4)) stack s4)))"

section \<open>Polling an active command\<close>

definition debug_opt :: "nat option \<Rightarrow> string" where
  "debug_opt v = (case v of None \<Rightarrow> ''None'' | Some n \<Rightarrow> ''Some('' @ show_nat n @ '')'')"

text \<open>The values of the verification, noted before any branch runs.\<close>

definition note_result :: "nat \<Rightarrow> nat option \<Rightarrow> 'r grant_session \<Rightarrow> 'r grant_session" where
  "note_result result actual s =
     (let s1 = s\<lparr>gs_trace := (gs_trace s)\<lparr>tr_native_result := Some result,
                                      tr_execution_evidence := (result \<noteq> EMPTY_SLOT)\<rparr>\<rparr>
      in if gs_instance_insert s then s1 else note_readback actual s1)"

definition count_verify :: "'r grant_session \<Rightarrow> 'r grant_session" where
  "count_verify s = (let n = gs_verify_polls s + 1
     in s\<lparr>gs_verify_polls := n, gs_trace := (gs_trace s)\<lparr>tr_verify_polls := n\<rparr>\<rparr>)"

definition unreadable_record :: "slot_record \<Rightarrow> bool" where
  "unreadable_record r \<longleftrightarrow> sr_normalized_id r = None \<or> sr_normalized_id r = Some EMPTY_SLOT"

definition verify_instance_insert ::
  "policy \<Rightarrow> grant_command \<Rightarrow> nat \<Rightarrow> slot_record \<Rightarrow> 'r grant_session \<Rightarrow> string \<times> 'r grant_session" where
  "verify_instance_insert po c result rec s =
     (let executed = (result \<noteq> EMPTY_SLOT)
      in if executed \<and> sr_normalized_id rec = Some (gc_normalized_id c) then
           finish ''completed'' (''tag='' @ gc_tag c @ '' instance insert verified at slot native_result='' @
             show_nat result @ '' (count checks skipped: instance-count read-back is unavailable)'') s
         else
           let unreadable = unreadable_record rec;
               s1 = count_verify s;
               budget = (if unreadable then po_hydration_verify_polls po else po_verify_polls po)
           in if gs_verify_polls s1 < budget then
                report ''verify_pending'' (''tag='' @ gc_tag c @
                  '' instance insert awaiting slot read-back native_result='' @ show_nat result @ '' record='' @
                  debug_opt (sr_normalized_id rec) @ '' attempt='' @ show_nat (gs_verify_polls s1) @ ''/'' @
                  show_nat budget) s1
              else if executed \<and> unreadable then
                finish ''completed'' (''tag='' @ gc_tag c @ '' instance insert completed on execution evidence: slot '' @
                  show_nat result @ '' never read back (count checks skipped: instance-count read-back is unavailable)'') s1
              else
                finish ''failed'' (''tag='' @ gc_tag c @ '' instance insert unwitnessed: native_result='' @
                  show_nat result @ '' slot_record='' @ debug_opt (sr_normalized_id rec) @ '' retry_budget='' @
                  show_nat budget) s1)"

text \<open>A refused insert next to a stack that exists now is planned again as a delta, once.\<close>

definition replan ::
  "'r runtime \<Rightarrow> grant_command \<Rightarrow> nat \<Rightarrow> stack_view \<Rightarrow> 'r grant_session \<Rightarrow> string \<times> 'r grant_session" where
  "replan rt c result live s =
     (let s1 = tell (rt_clear_request rt) (s\<lparr>gs_replanned := True,
                 gs_trace := (gs_trace s)\<lparr>tr_replanned_to_delta := True\<rparr>\<rparr>);
          s2 = s1\<lparr>gs_active := False, gs_delta_lane := False, gs_verify_polls := 0, gs_absent_polls := 0,
                  gs_expected_before := None,
                  gs_command := map_option (\<lambda>c. c\<lparr>gc_expected_before := None\<rparr>) (gs_command s1)\<rparr>
      in report ''replanning'' (''tag='' @ gc_tag c @ '' insert refused by the game (native_result='' @
           show_nat result @ '') while a stack of '' @ show_nat (sv_quantity live) @
           '' now exists; re-planning as a delta against it'') s2)"

text \<open>A refused storage insert is tried again after 1, 2 and 4 seconds, then given up.\<close>

definition storage_refused ::
  "'r runtime \<Rightarrow> nat \<Rightarrow> grant_command \<Rightarrow> nat \<Rightarrow> nat option \<Rightarrow> nat \<Rightarrow> 'r grant_session
     \<Rightarrow> string \<times> 'r grant_session" where
  "storage_refused rt now c result actual wanted s =
     (if gs_storage_retries s < STORAGE_RETRY_LIMIT then
        let delay = 2 ^ gs_storage_retries s;
            s1 = s\<lparr>gs_storage_retries := gs_storage_retries s + 1, gs_storage_retry_at := Some (now + delay * 1000)\<rparr>;
            s2 = (tell (rt_clear_request rt) s1)\<lparr>gs_active := False, gs_expected_before := None,
                    gs_command := map_option (\<lambda>c. c\<lparr>gc_expected_before := None\<rparr>) (gs_command s1)\<rparr>
        in report ''storage_retry_wait'' (''tag='' @ gc_tag c @ '' storage insert refused; retry '' @
             show_nat (gs_storage_retries s2) @ ''/'' @ show_nat STORAGE_RETRY_LIMIT @ '' in '' @
             show_nat delay @ ''s'') s2
      else
        finish ''failed'' (''tag='' @ gc_tag c @ '' storage-overflow insert refused by the game; storage_retry_exhausted after '' @
          show_nat STORAGE_RETRY_LIMIT @ '' retries: expected_after='' @ show_nat wanted @ '' actual='' @ debug_opt actual @
          '' native_result='' @ show_nat result @ ''; nothing was delivered'') s)"

definition short_readback :: "grant_command \<Rightarrow> nat \<Rightarrow> nat option \<Rightarrow> nat \<Rightarrow> nat \<Rightarrow> string" where
  "short_readback c result actual wanted budget =
     ''tag='' @ gc_tag c @ '' delta executed but the held stack stayed short: expected_after='' @ show_nat wanted @
     '' actual='' @ (case actual of Some n \<Rightarrow> show_nat n | None \<Rightarrow> ''none'') @ '' native_result='' @ show_nat result @
     '' retry_budget='' @ show_nat budget @
     ''; the game may have capped or discarded it -- retry INDEX CONFIRM once the stack has room''"

definition verify_again ::
  "policy \<Rightarrow> grant_command \<Rightarrow> nat \<Rightarrow> nat option \<Rightarrow> nat \<Rightarrow> slot_record \<Rightarrow> 'r grant_session
     \<Rightarrow> string \<times> 'r grant_session" where
  "verify_again po c result actual wanted rec s =
     (let short = (gs_delta_lane s \<and> result \<noteq> EMPTY_SLOT \<and>
                   (case actual of Some n \<Rightarrow> n < wanted | None \<Rightarrow> False));
          s1 = count_verify s;
          hydrating = (\<not> gs_delta_lane s \<and> unreadable_record rec \<and>
                       (case actual of Some a \<Rightarrow> a = 0 | None \<Rightarrow> True));
          budget = (if hydrating then po_hydration_verify_polls po else po_verify_polls po)
      in if gs_verify_polls s1 < budget then
           report ''verify_pending'' (''tag='' @ gc_tag c @ '' expected_after='' @ show_nat wanted @ '' actual='' @
             debug_opt actual @ '' attempt='' @ show_nat (gs_verify_polls s1) @ ''/'' @ show_nat budget) s1
         else if short then finish ''failed'' (short_readback c result actual wanted budget) s1
         else finish ''failed'' (''tag='' @ gc_tag c @ '' expected_after='' @ show_nat wanted @ '' actual='' @
             debug_opt actual @ '' native_result='' @ show_nat result @ '' retry_budget='' @ show_nat budget) s1)"

definition slot_verified ::
  "grant_command \<Rightarrow> nat \<Rightarrow> slot_record \<Rightarrow> 'r grant_session \<Rightarrow> bool" where
  "slot_verified c result rec s \<longleftrightarrow>
     (\<not> gs_delta_lane s \<and> result \<noteq> EMPTY_SLOT) \<or>
     (\<not> gs_delta_lane s \<and> sr_normalized_id rec = Some (gc_normalized_id c) \<and>
      (case sr_quantity rec of Some q \<Rightarrow> gc_quantity c \<le> q | None \<Rightarrow> False))"

definition live_stack :: "stack_view option \<Rightarrow> bool" where
  "live_stack stack \<longleftrightarrow> (case stack of Some live \<Rightarrow> sv_exists live \<and> 0 < sv_quantity live | None \<Rightarrow> False)"

definition judge ::
  "policy \<Rightarrow> 'r runtime \<Rightarrow> nat \<Rightarrow> grant_command \<Rightarrow> nat \<Rightarrow> stack_view option \<Rightarrow> nat \<Rightarrow> slot_record
     \<Rightarrow> 'r grant_session \<Rightarrow> string \<times> 'r grant_session" where
  "judge po rt now c result stack wanted rec s =
     (let actual = map_option sv_quantity stack
      in if gs_instance_insert s then verify_instance_insert po c result rec s
         else if slot_verified c result rec s \<or> (actual = Some wanted \<and> \<not> (gs_storage_route s \<and> result = EMPTY_SLOT))
         then finish ''completed'' (''tag='' @ gc_tag c @ '' native_result='' @ show_nat result) s
         else if \<not> gs_delta_lane s \<and> \<not> gs_replanned s \<and> \<not> gs_storage_route s \<and> result = EMPTY_SLOT \<and> live_stack stack
         then replan rt c result (the stack) s
         else if gs_storage_route s \<and> result = EMPTY_SLOT then storage_refused rt now c result actual wanted s
         else if gs_delta_lane s \<and> result \<noteq> EMPTY_SLOT \<and>
                 (case actual of Some n \<Rightarrow> wanted < n | None \<Rightarrow> False)
         then finish ''completed'' (''tag='' @ gc_tag c @ '' completed with concurrent pickup: expected_after='' @
                show_nat wanted @ '' actual='' @ show_nat (the actual) @ '' native_result='' @ show_nat result) s
         else verify_again po c result actual wanted rec s)"

definition poll_active ::
  "policy \<Rightarrow> 'r runtime \<Rightarrow> nat \<Rightarrow> grant_command \<Rightarrow> 'r grant_session \<Rightarrow> (string \<times> 'r grant_session) option" where
  "poll_active po rt now c s =
     (case ask (rt_native_done rt) s of (completed, s1) \<Rightarrow>
        if \<not> completed
        then Some (report ''executing'' (''tag='' @ gc_tag c @ '' awaiting native completion'') s1)
        else
          case ask (rt_native_result rt) s1 of (result, s2) \<Rightarrow>
          case ask (rt_find_stack rt (gc_normalized_id c)) s2 of (stack, s3) \<Rightarrow>
            (case gs_expected_before s3 of
               None \<Rightarrow> None
             | Some before' \<Rightarrow>
                 (case ask (rt_read_slot_record rt result) s3 of (rec, s4) \<Rightarrow>
                    Some (judge po rt now c result stack (saturating_add_u32 before' (gc_quantity c)) rec
                      (note_result result (map_option sv_quantity stack) s4)))))"

definition poll_at ::
  "descriptor_formula \<Rightarrow> policy \<Rightarrow> 'r runtime \<Rightarrow> nat \<Rightarrow> 'r grant_session \<Rightarrow> (string \<times> 'r grant_session) option" where
  "poll_at fo po rt now s =
     (if gs_active s then (case gs_command s of None \<Rightarrow> None | Some c \<Rightarrow> poll_active po rt now c s)
      else case gs_command s of
        None \<Rightarrow> Some (ds_status (gs_state s), s)
      | Some c \<Rightarrow>
          if is_terminal (gs_state s) then Some (ds_status (gs_state s), s)
          else case gs_storage_retry_at s of
            Some deadline \<Rightarrow>
              if now < deadline then Some (ds_status (gs_state s), s)
              else Some (poll_pending fo po rt c (s\<lparr>gs_storage_retry_at := None\<rparr>))
          | None \<Rightarrow> Some (poll_pending fo po rt c s))"

end
