(* ===== verification/NativeSafety.thy ===== *)
theory NativeSafety
  imports NativeGrant
begin

text \<open>
  What one submitted command can do to the game, whatever the guest process answers: the calls into
  the game are logged by a wrapped runtime, and every reachable state of the machine keeps the log
  within bounds.
\<close>

section \<open>The log of native calls\<close>

datatype native_event = Queued | Answer nat

type_synonym 'r logged = "'r \<times> native_event list"

definition pass :: "('r \<Rightarrow> 'a \<times> 'r) \<Rightarrow> 'r logged \<Rightarrow> 'a \<times> 'r logged" where
  "pass f rl = (case f (fst rl) of (a, r) \<Rightarrow> (a, (r, snd rl)))"

definition log_result :: "('r \<Rightarrow> nat \<times> 'r) \<Rightarrow> 'r logged \<Rightarrow> nat \<times> 'r logged" where
  "log_result f rl = (case f (fst rl) of (a, r) \<Rightarrow> (a, (r, snd rl @ [Answer a])))"

definition spy_runtime :: "'r runtime \<Rightarrow> 'r logged runtime" where
  "spy_runtime rt =
     \<lparr>rt_target_weapon_level = pass (rt_target_weapon_level rt),
      rt_inventory_ready = pass (rt_inventory_ready rt),
      rt_find_stack = (\<lambda>i. pass (rt_find_stack rt i)),
      rt_read_slot_record = (\<lambda>i. pass (rt_read_slot_record rt i)),
      rt_request_pending = pass (rt_request_pending rt),
      rt_queue_native = (\<lambda>d q slot address manual rl.
        (rt_queue_native rt d q slot address manual (fst rl), snd rl @ [Queued])),
      rt_native_done = pass (rt_native_done rt),
      rt_native_result = log_result (rt_native_result rt),
      rt_clear_request = (\<lambda>rl. (rt_clear_request rt (fst rl), snd rl))\<rparr>"

definition native_log :: "'r logged grant_session \<Rightarrow> native_event list" where
  "native_log s = snd (gs_runtime s)"

definition calls :: "native_event list \<Rightarrow> nat" where
  "calls es = length (filter (\<lambda>e. e = Queued) es)"

definition answers :: "native_event list \<Rightarrow> nat" where
  "answers es = length (filter (\<lambda>e. e \<noteq> Queued) es)"

text \<open>
  The lane is free when the last thing seen is a refusal (the result cell still holds the empty
  sentinel), or nothing was ever queued; a log is safe when calls are queued on a free lane only.
\<close>

fun free_after :: "bool \<Rightarrow> native_event list \<Rightarrow> bool" where
  "free_after free [] = free"
| "free_after free (Queued # es) = free_after False es"
| "free_after free (Answer r # es) = free_after (r = EMPTY_SLOT) es"

fun safe_calls :: "bool \<Rightarrow> native_event list \<Rightarrow> bool" where
  "safe_calls free [] = True"
| "safe_calls free (Queued # es) = (free \<and> safe_calls False es)"
| "safe_calls free (Answer r # es) = safe_calls (r = EMPTY_SLOT) es"

lemma free_after_append: "free_after f (xs @ ys) = free_after (free_after f xs) ys"
  by (induction f xs rule: free_after.induct) auto

lemma safe_calls_append: "safe_calls f (xs @ ys) \<longleftrightarrow> safe_calls f xs \<and> safe_calls (free_after f xs) ys"
  by (induction f xs rule: safe_calls.induct) auto

lemma count_append [simp]:
  "calls (xs @ ys) = calls xs + calls ys" "answers (xs @ ys) = answers xs + answers ys"
  "calls [] = 0" "answers [] = 0" "calls [Queued] = 1" "answers [Queued] = 0"
  "calls [Answer r] = 0" "answers [Answer r] = 1"
  by (simp_all add: calls_def answers_def)

section \<open>The invariant\<close>

definition verify_bound :: "policy \<Rightarrow> nat" where
  "verify_bound po = max 1 (max (po_verify_polls po) (po_hydration_verify_polls po))"

lemma verify_bound_ge:
  "n < po_verify_polls po \<Longrightarrow> n < verify_bound po" "n < po_hydration_verify_polls po \<Longrightarrow> n < verify_bound po"
  "0 < verify_bound po"
  by (simp_all add: verify_bound_def)

definition waiting :: "'r grant_session \<Rightarrow> bool" where
  "waiting s \<longleftrightarrow> \<not> gs_active s \<and> gs_command s \<noteq> None \<and> \<not> is_terminal (gs_state s)"

definition native_ok :: "policy \<Rightarrow> 'r logged grant_session \<Rightarrow> bool" where
  "native_ok po s \<longleftrightarrow>
     (gs_active s \<longrightarrow> gs_command s \<noteq> None \<and> gs_expected_before s \<noteq> None \<and> gs_verify_polls s < verify_bound po \<and>
        answers (native_log s) + verify_bound po \<le> verify_bound po * calls (native_log s) + gs_verify_polls s) \<and>
     (\<not> gs_active s \<longrightarrow> answers (native_log s) \<le> verify_bound po * calls (native_log s)) \<and>
     (waiting s \<longrightarrow> free_after True (native_log s)) \<and> safe_calls True (native_log s) \<and>
     calls (native_log s) \<le> of_bool (gs_replanned s) + gs_storage_retries s + (if waiting s then 0 else 1) \<and>
     gs_storage_retries s \<le> STORAGE_RETRY_LIMIT"

text \<open>The state in which a completed call is judged: active, one answer further.\<close>

definition judging :: "policy \<Rightarrow> nat \<Rightarrow> 'r logged grant_session \<Rightarrow> bool" where
  "judging po result s \<longleftrightarrow>
     gs_active s \<and> gs_command s \<noteq> None \<and> gs_expected_before s \<noteq> None \<and> gs_verify_polls s < verify_bound po \<and>
     answers (native_log s) + verify_bound po \<le> verify_bound po * calls (native_log s) + gs_verify_polls s + 1 \<and>
     free_after True (native_log s) = (result = EMPTY_SLOT) \<and> safe_calls True (native_log s) \<and>
     calls (native_log s) \<le> of_bool (gs_replanned s) + gs_storage_retries s + 1 \<and>
     gs_storage_retries s \<le> STORAGE_RETRY_LIMIT"

lemma terminal_status_simps [simp]:
  "terminal_status ''completed''" "terminal_status ''recovered_complete''" "terminal_status ''failed''"
  "terminal_status ''quantity_mismatch''" "terminal_status ''write_error''"
  "\<not> terminal_status ''executing''" "\<not> terminal_status ''queued''" "\<not> terminal_status ''verify_pending''"
  "\<not> terminal_status ''awaiting_inventory''" "\<not> terminal_status ''busy''" "\<not> terminal_status ''replanning''"
  "\<not> terminal_status ''storage_retry_wait''" "\<not> terminal_status ''withdrawn''"
  by (simp_all add: terminal_status_def)

lemma set_status_simps [simp]:
  "gs_runtime (set_status st d s) = gs_runtime s" "gs_prior (set_status st d s) = gs_prior s"
  "gs_command (set_status st d s) = gs_command s" "gs_absent_polls (set_status st d s) = gs_absent_polls s"
  "gs_verify_polls (set_status st d s) = gs_verify_polls s" "gs_active (set_status st d s) = gs_active s"
  "gs_expected_before (set_status st d s) = gs_expected_before s" "gs_manual (set_status st d s) = gs_manual s"
  "gs_delta_lane (set_status st d s) = gs_delta_lane s" "gs_instance_insert (set_status st d s) = gs_instance_insert s"
  "gs_replanned (set_status st d s) = gs_replanned s" "gs_storage_route (set_status st d s) = gs_storage_route s"
  "gs_storage_retries (set_status st d s) = gs_storage_retries s"
  "gs_storage_retry_at (set_status st d s) = gs_storage_retry_at s" "gs_trace (set_status st d s) = gs_trace s"
  "is_terminal (gs_state (set_status st d s)) = terminal_status st"
  "ds_status (gs_state (set_status st d s)) = st"
  by (simp_all add: set_status_def is_terminal_def)

lemma native_log_simps [simp]:
  "native_log (set_status st d s) = native_log s"
  "native_log (tell (rt_clear_request (spy_runtime rt)) s) = native_log s"
  "native_log (tell (rt_queue_native (spy_runtime rt) d' q slot address manual) s) = native_log s @ [Queued]"
  "native_log (s\<lparr>gs_runtime := rl\<rparr>) = snd rl"
  by (simp_all add: native_log_def tell_def spy_runtime_def set_status_def)

lemma native_log_fields [simp]:
  "native_log (s\<lparr>gs_state := a1\<rparr>) = native_log s" "native_log (s\<lparr>gs_command := a2\<rparr>) = native_log s"
  "native_log (s\<lparr>gs_absent_polls := a3\<rparr>) = native_log s" "native_log (s\<lparr>gs_verify_polls := a4\<rparr>) = native_log s"
  "native_log (s\<lparr>gs_expected_before := a5\<rparr>) = native_log s" "native_log (s\<lparr>gs_active := a6\<rparr>) = native_log s"
  "native_log (s\<lparr>gs_delta_lane := a7\<rparr>) = native_log s" "native_log (s\<lparr>gs_instance_insert := a8\<rparr>) = native_log s"
  "native_log (s\<lparr>gs_replanned := a9\<rparr>) = native_log s" "native_log (s\<lparr>gs_storage_route := b1\<rparr>) = native_log s"
  "native_log (s\<lparr>gs_storage_retries := b2\<rparr>) = native_log s" "native_log (s\<lparr>gs_storage_retry_at := b3\<rparr>) = native_log s"
  "native_log (s\<lparr>gs_trace := b4\<rparr>) = native_log s" "native_log (s\<lparr>gs_absent_tag := b5\<rparr>) = native_log s"
  "native_log (s\<lparr>gs_manual := b6\<rparr>) = native_log s"
  by (simp_all add: native_log_def)

section \<open>Each poll keeps the invariant\<close>

lemma spy_reads:
  "native_log (snd (ask (rt_inventory_ready (spy_runtime rt)) s)) = native_log s"
  "native_log (snd (ask (rt_find_stack (spy_runtime rt) i) s)) = native_log s"
  "native_log (snd (ask (rt_read_slot_record (spy_runtime rt) i) s)) = native_log s"
  "native_log (snd (ask (rt_request_pending (spy_runtime rt)) s)) = native_log s"
  "native_log (snd (ask (rt_native_done (spy_runtime rt)) s)) = native_log s"
  by (auto simp: ask_def native_log_def spy_runtime_def pass_def split: prod.splits)

lemma ask_fields:
  assumes "ask f s = (a, s')"
  shows "gs_command s' = gs_command s" "gs_active s' = gs_active s" "gs_expected_before s' = gs_expected_before s"
    "gs_state s' = gs_state s" "gs_verify_polls s' = gs_verify_polls s" "gs_replanned s' = gs_replanned s"
    "gs_storage_retries s' = gs_storage_retries s" "gs_storage_route s' = gs_storage_route s"
    "gs_delta_lane s' = gs_delta_lane s" "gs_instance_insert s' = gs_instance_insert s"
    "gs_absent_polls s' = gs_absent_polls s" "gs_manual s' = gs_manual s" "gs_prior s' = gs_prior s"
    "gs_storage_retry_at s' = gs_storage_retry_at s" "gs_trace s' = gs_trace s"
  using assms by (auto simp: ask_def split: prod.splits)

lemma quiet_ask:
  assumes "ask f s = (a, s')" and "native_log (snd (ask f s)) = native_log s"
  shows "native_ok po s' = native_ok po s" "waiting s' = waiting s" "native_log s' = native_log s"
  using assms ask_fields [OF assms(1)] by (simp_all add: native_ok_def waiting_def)

lemma result_ask:
  "ask (rt_native_result (spy_runtime rt)) s = (a, s') \<Longrightarrow> native_log s' = native_log s @ [Answer a]"
  by (auto simp: ask_def native_log_def spy_runtime_def log_result_def split: prod.splits)

lemma finish_judging:
  "judging po result s \<Longrightarrow> finish st d s = (r, s') \<Longrightarrow> terminal_status st \<Longrightarrow> native_ok po s'"
  by (auto simp: finish_def native_ok_def judging_def waiting_def)

lemma count_verify_fields [simp]:
  "gs_verify_polls (count_verify s) = Suc (gs_verify_polls s)"
  "gs_active (count_verify s) = gs_active s" "gs_command (count_verify s) = gs_command s"
  "gs_expected_before (count_verify s) = gs_expected_before s" "gs_replanned (count_verify s) = gs_replanned s"
  "gs_storage_retries (count_verify s) = gs_storage_retries s" "gs_state (count_verify s) = gs_state s"
  by (simp_all add: count_verify_def Let_def)

lemma count_verify_log [simp]: "native_log (count_verify s) = native_log s"
  by (simp add: count_verify_def Let_def)

lemma pending_judging:
  "judging po result s \<Longrightarrow> report st d (count_verify s) = (r, s') \<Longrightarrow> Suc (gs_verify_polls s) < verify_bound po \<Longrightarrow>
   native_ok po s'"
  by (auto simp: report_def native_ok_def judging_def waiting_def)

lemma finish_counted:
  assumes "judging po result s" and "finish st d (count_verify s) = (r, s')" and "terminal_status st"
  shows "native_ok po s'"
  using assms by (auto simp: finish_def native_ok_def judging_def waiting_def)

lemma below_bound:
  "n < (if b then po_hydration_verify_polls po else po_verify_polls po) \<Longrightarrow> n < verify_bound po"
  by (auto split: if_splits intro: verify_bound_ge)

lemma instance_judging:
  "judging po result s \<Longrightarrow> verify_instance_insert po c result rec s = (r, s') \<Longrightarrow> native_ok po s'"
  by (auto simp: verify_instance_insert_def Let_def split: if_splits
      intro: finish_judging finish_counted pending_judging verify_bound_ge)

lemma again_judging:
  "judging po result s \<Longrightarrow> verify_again po c result actual wanted rec s = (r, s') \<Longrightarrow> native_ok po s'"
  by (auto simp: verify_again_def Let_def split: if_splits
      intro: finish_judging finish_counted pending_judging verify_bound_ge)

text \<open>A call given up: the machine waits again, on a free lane.\<close>

lemma given_up:
  assumes "judging po EMPTY_SLOT s" and "\<not> gs_active s'" "native_log s' = native_log s" "gs_storage_retries s' \<le> STORAGE_RETRY_LIMIT"
    and "of_bool (gs_replanned s) + gs_storage_retries s < of_bool (gs_replanned s') + gs_storage_retries s'"
  shows "native_ok po s'"
  using assms by (simp add: native_ok_def judging_def)

lemma native_log_cleared [simp]:
  "native_log ((tell (rt_clear_request (spy_runtime rt)) s)\<lparr>gs_active := a, gs_expected_before := e, gs_command := c\<rparr>) = native_log s"
  "native_log (tell (rt_clear_request (spy_runtime rt)) s) = native_log s"
  by (simp_all add: native_log_def tell_def spy_runtime_def)

lemma replan_judging:
  assumes "judging po EMPTY_SLOT s" and "\<not> gs_replanned s" and "replan (spy_runtime rt) c result live s = (r, s')"
  shows "native_ok po s'"
proof (rule given_up [OF assms(1)])
  show "native_log s' = native_log s" "\<not> gs_active s'"
    using assms(3) by (auto simp: replan_def Let_def report_def)
  show "gs_storage_retries s' \<le> STORAGE_RETRY_LIMIT"
    "of_bool (gs_replanned s) + gs_storage_retries s < of_bool (gs_replanned s') + gs_storage_retries s'"
    using assms by (auto simp: replan_def Let_def report_def tell_def judging_def)
qed

lemma storage_judging:
  assumes "judging po EMPTY_SLOT s" and "storage_refused (spy_runtime rt) now c result actual wanted s = (r, s')"
  shows "native_ok po s'"
proof (cases "gs_storage_retries s < STORAGE_RETRY_LIMIT")
  case True
  show ?thesis
  proof (rule given_up [OF assms(1)])
    show "native_log s' = native_log s" "\<not> gs_active s'"
      using assms(2) True by (auto simp: storage_refused_def Let_def report_def)
    show "gs_storage_retries s' \<le> STORAGE_RETRY_LIMIT"
      "of_bool (gs_replanned s) + gs_storage_retries s < of_bool (gs_replanned s') + gs_storage_retries s'"
      using assms True by (auto simp: storage_refused_def Let_def report_def tell_def)
  qed
next
  case False
  with assms(2) show ?thesis
    by (auto simp: storage_refused_def intro: finish_judging [OF assms(1)])
qed

lemma judge_judging:
  assumes "judging po result s" and "judge po (spy_runtime rt) now c result stack wanted rec s = (r, s')"
  shows "native_ok po s'"
  using assms unfolding judge_def Let_def
  by (auto split: if_splits intro: instance_judging again_judging finish_judging
      intro: replan_judging [where rt = rt and s = s and s' = s'] storage_judging [where rt = rt and s = s and s' = s'])

lemma note_result_judging:
  assumes "native_ok po s" and "gs_active s" and "native_log s2 = native_log s @ [Answer result]"
    and "gs_command s2 = gs_command s" "gs_active s2 = gs_active s" "gs_expected_before s2 = gs_expected_before s"
    "gs_verify_polls s2 = gs_verify_polls s" "gs_replanned s2 = gs_replanned s"
    "gs_storage_retries s2 = gs_storage_retries s"
  shows "judging po result (note_result result actual s2)"
proof -
  have keep: "native_log (note_result result actual s2) = native_log s2"
    "gs_command (note_result result actual s2) = gs_command s2" "gs_active (note_result result actual s2) = gs_active s2"
    "gs_expected_before (note_result result actual s2) = gs_expected_before s2"
    "gs_verify_polls (note_result result actual s2) = gs_verify_polls s2"
    "gs_replanned (note_result result actual s2) = gs_replanned s2"
    "gs_storage_retries (note_result result actual s2) = gs_storage_retries s2"
    by (simp_all add: note_result_def note_readback_def Let_def)
  from assms show ?thesis
    unfolding judging_def keep
    by (auto simp: native_ok_def waiting_def free_after_append safe_calls_append)
qed

lemma poll_active_ok:
  assumes "native_ok po s" and "gs_active s" and "gs_command s = Some c"
  shows "\<exists>r s'. poll_active po (spy_runtime rt) now c s = Some (r, s') \<and> native_ok po s'"
proof -
  let ?rt = "spy_runtime rt"
  obtain done' s1 where d: "ask (rt_native_done ?rt) s = (done', s1)" by fastforce
  note f1 = ask_fields [OF d] quiet_ask [OF d, simplified spy_reads, OF refl]
  show ?thesis
  proof (cases done')
    case False
    have "native_ok po (set_status ''executing'' d' s1)" for d'
      using assms f1 by (auto simp: native_ok_def waiting_def)
    with False d show ?thesis by (auto simp: poll_active_def report_def)
  next
    case True
    obtain result s2 where q: "ask (rt_native_result ?rt) s1 = (result, s2)" by fastforce
    obtain stack s3 where t: "ask (rt_find_stack ?rt (gc_normalized_id c)) s2 = (stack, s3)" by fastforce
    obtain rec s4 where u: "ask (rt_read_slot_record ?rt result) s3 = (rec, s4)" by fastforce
    note f2 = ask_fields [OF q] result_ask [OF q] and f3 = ask_fields [OF t] quiet_ask(3) [OF t, simplified spy_reads, OF refl]
      and f4 = ask_fields [OF u] quiet_ask(3) [OF u, simplified spy_reads, OF refl]
    obtain before' where b: "gs_expected_before s3 = Some before'"
      using assms f1 f2 f3 by (auto simp: native_ok_def)
    have "judging po result (note_result result (map_option sv_quantity stack) s4)"
      by (rule note_result_judging [OF assms(1,2)]) (simp_all add: f1 f2 f3 f4)
    moreover obtain r s' where j: "judge po ?rt now c result stack (saturating_add_u32 before' (gc_quantity c)) rec
        (note_result result (map_option sv_quantity stack) s4) = (r, s')" by fastforce
    ultimately have "native_ok po s'" by (rule judge_judging)
    with d q t u b j True show ?thesis by (auto simp: poll_active_def)
  qed
qed

text \<open>A pending command: the changes before the call keep what the invariant speaks of.\<close>

definition idle_ok :: "policy \<Rightarrow> 'r logged grant_session \<Rightarrow> bool" where
  "idle_ok po s \<longleftrightarrow> native_ok po s \<and> waiting s"

definition same_core :: "'r logged grant_session \<Rightarrow> 'r logged grant_session \<Rightarrow> bool" where
  "same_core s t \<longleftrightarrow> gs_active t = gs_active s \<and> gs_command t = gs_command s \<and>
     is_terminal (gs_state t) = is_terminal (gs_state s) \<and> gs_replanned t = gs_replanned s \<and>
     gs_storage_retries t = gs_storage_retries s \<and> native_log t = native_log s"

lemma idle_core: "idle_ok po s \<Longrightarrow> same_core s t \<Longrightarrow> idle_ok po t"
  by (auto simp: idle_ok_def native_ok_def waiting_def same_core_def)

lemma idle_ask:
  assumes "idle_ok po s" and "ask f s = (a, s')" and "native_log (snd (ask f s)) = native_log s"
  shows "idle_ok po s'"
  using quiet_ask [OF assms(2,3)] assms(1) by (simp add: idle_ok_def)

lemma idle_report: "idle_ok po s \<Longrightarrow> report st d s = (r, s') \<Longrightarrow> \<not> terminal_status st \<Longrightarrow> native_ok po s'"
  by (auto simp: idle_ok_def report_def native_ok_def waiting_def)

lemma idle_finish: "idle_ok po s \<Longrightarrow> finish st d s = (r, s') \<Longrightarrow> terminal_status st \<Longrightarrow> native_ok po s'"
  by (auto simp: idle_ok_def finish_def native_ok_def waiting_def)

lemma idle_start:
  assumes "idle_ok po s" and "gs_expected_before s \<noteq> None"
    and "start_native fo (spy_runtime rt) c stackable delta wanted stack s = (r, s')"
  shows "native_ok po s'"
proof -
  from assms(3) have s': "gs_active s'" "gs_command s' = gs_command s" "gs_expected_before s' = gs_expected_before s"
    "gs_verify_polls s' = 0" "gs_replanned s' = gs_replanned s" "gs_storage_retries s' = gs_storage_retries s"
    "native_log s' = native_log s @ [Queued]"
    by (auto simp: start_native_def Let_def report_def tell_def native_log_def spy_runtime_def)
  from assms(1,2) show ?thesis
    using verify_bound_ge(3) [of po]
    by (auto simp: idle_ok_def native_ok_def waiting_def s' safe_calls_append split: if_splits)
qed

lemma core_changes:
  "same_core s (s\<lparr>gs_storage_route := b\<rparr>)" "same_core s (note_baseline e w (s\<lparr>gs_storage_route := b\<rparr>))"
  "same_core s (note_readback v (s\<lparr>gs_storage_route := b\<rparr>))"
  "same_core s (note_readback v (note_baseline e w (s\<lparr>gs_storage_route := b\<rparr>)))"
  "same_core s (choose_baseline stackable c stack s)" "same_core s (snd (absent_grace po stack s))"
  "same_core s (s\<lparr>gs_storage_retry_at := None\<rparr>)"
  by (simp_all add: same_core_def note_baseline_def note_readback_def choose_baseline_def absent_grace_def Let_def)

lemma idle_dequeue:
  assumes "idle_ok po s" and "gs_expected_before s \<noteq> None"
    and "dequeue fo po (spy_runtime rt) c stackable before' stack s = (r, s')"
  shows "native_ok po s'"
proof -
  let ?w = "saturating_add_u32 before' (gc_quantity c)"
  let ?over = "overflows fo c ?w (sv_exists stack \<and> stackable) s"
  define s2 where "s2 = (if stackable then note_baseline before' ?w (s\<lparr>gs_storage_route := ?over\<rparr>) else s\<lparr>gs_storage_route := ?over\<rparr>)"
  obtain pending s3 where q: "ask (rt_request_pending (spy_runtime rt)) s2 = (pending, s3)" by fastforce
  have core: "same_core s s2" "same_core s (note_readback v s2)" for v
    by (auto simp: s2_def core_changes)
  note i2 = idle_core [OF assms(1) core(1)] and i2' = idle_core [OF assms(1) core(2)]
  have i3: "idle_ok po s3" by (rule idle_ask [OF i2 q]) (rule spy_reads)
  have e3: "gs_expected_before s3 \<noteq> None"
    using assms(2) ask_fields [OF q] by (simp add: s2_def note_baseline_def)
  from assms(3) show ?thesis
    unfolding dequeue_def Let_def s2_def [symmetric] q prod.case
    by (auto split: if_splits intro: idle_finish [OF i2] idle_finish [OF i2'] idle_report [OF i3] idle_start [OF i3 e3])
qed

lemma poll_pending_ok:
  assumes "idle_ok po s"
  shows "native_ok po (snd (poll_pending fo po (spy_runtime rt) c s))"
proof -
  let ?rt = "spy_runtime rt"
  obtain ready s1 where a: "ask (rt_inventory_ready ?rt) s = (ready, s1)" by fastforce
  obtain found s2 where b: "ask (rt_find_stack ?rt (gc_normalized_id c)) s1 = (found, s2)" by fastforce
  have i1: "idle_ok po s1" by (rule idle_ask [OF assms a]) (rule spy_reads)
  have i2: "idle_ok po s2" by (rule idle_ask [OF i1 b]) (rule spy_reads)
  obtain r s' where p: "poll_pending fo po ?rt c s = (r, s')" by fastforce
  have "native_ok po s'"
  proof (cases "ready \<and> found \<noteq> None")
    case False
    with p show ?thesis
      by (auto simp: poll_pending_def a b intro: idle_report [OF i1] idle_report [OF i2] split: if_splits)
  next
    case True
    then obtain stack where f: "found = Some stack" by auto
    obtain proceed s3 where g: "absent_grace po stack s2 = (proceed, s3)" by fastforce
    have i3: "idle_ok po s3" using idle_core [OF i2 core_changes(6), of po stack] g by simp
    define s4 where "s4 = choose_baseline (is_stackable_category fo (command_descriptor c)) c stack s3"
    have i4: "idle_ok po s4" unfolding s4_def by (rule idle_core [OF i3 core_changes(5)])
    have e4: "gs_expected_before s4 \<noteq> None" by (simp add: s4_def choose_baseline_def)
    from p True f show ?thesis
      by (auto simp: poll_pending_def a b g Let_def s4_def [symmetric]
          intro: idle_report [OF i3] idle_dequeue [OF i4 e4] split: if_splits)
  qed
  with p show ?thesis by simp
qed

lemma poll_ok:
  assumes "native_ok po s"
  shows "\<exists>r s'. poll_at fo po (spy_runtime rt) now s = Some (r, s') \<and> native_ok po s'"
proof (cases "gs_active s")
  case True
  with assms obtain c where "gs_command s = Some c" by (auto simp: native_ok_def)
  with True poll_active_ok [OF assms True this] show ?thesis by (simp add: poll_at_def)
next
  case False
  show ?thesis
  proof (cases "waiting s")
    case True
    then have idle: "idle_ok po s" using assms by (simp add: idle_ok_def)
    obtain c where c: "gs_command s = Some c" using True by (auto simp: waiting_def)
    have "native_ok po (snd (poll_pending fo po (spy_runtime rt) c s))"
      "native_ok po (snd (poll_pending fo po (spy_runtime rt) c (s\<lparr>gs_storage_retry_at := None\<rparr>)))"
      using poll_pending_ok [OF idle] poll_pending_ok [OF idle_core [OF idle core_changes(7)]] by auto
    with True c assms False show ?thesis
      by (auto simp: poll_at_def waiting_def surjective_pairing [symmetric] split: option.splits) (metis prod.collapse)+
  next
    case False
    with \<open>\<not> gs_active s\<close> assms show ?thesis by (auto simp: poll_at_def waiting_def split: option.splits)
  qed
qed

section \<open>Submission, withdrawal and retirement\<close>

lemma submit_ok: "submit c manual s = Inr s' \<Longrightarrow> native_log s = [] \<Longrightarrow> native_ok po s'"
proof -
  assume "submit c manual s = Inr s'" "native_log s = []"
  then have "\<not> gs_active s'" "native_log s' = []" "gs_storage_retries s' = 0"
    by (auto simp: submit_def split: option.splits if_splits)
  then show "native_ok po s'" by (simp add: native_ok_def)
qed

lemma withdraw_ok:
  assumes "native_ok po s"
  shows "native_ok po (snd (withdraw_unwitnessed (spy_runtime rt) s))"
proof -
  obtain pending s1 where a: "ask (rt_request_pending (spy_runtime rt)) s = (pending, s1)" by fastforce
  obtain completed s2 where b: "ask (rt_native_done (spy_runtime rt)) s1 = (completed, s2)" by fastforce
  have ok2: "native_ok po s2"
    using assms quiet_ask(1) [OF a] quiet_ask(1) [OF b] by (simp add: spy_reads)
  have idle: "answers (native_log s2) \<le> verify_bound po * calls (native_log s2)"
    using ok2 by (cases "gs_active s2") (auto simp: native_ok_def)
  show ?thesis
  proof (cases "\<not> pending \<or> completed")
    case True
    with a b ok2 show ?thesis by (auto simp: withdraw_unwitnessed_def)
  next
    case False
    have "calls (native_log s2) \<le> of_bool (gs_replanned s2) + gs_storage_retries s2 + 1"
      using ok2 by (auto simp: native_ok_def split: if_splits)
    with a b ok2 idle False show ?thesis
      by (auto simp: withdraw_unwitnessed_def Let_def finish_def native_ok_def waiting_def tell_def
          native_log_def spy_runtime_def)
  qed
qed

lemma retire_ok:
  assumes "native_ok po s"
  shows "native_ok po (retire_session detail s)"
proof -
  have "answers (native_log s) \<le> verify_bound po * calls (native_log s)"
    using assms by (cases "gs_active s") (auto simp: native_ok_def)
  moreover have "calls (native_log s) \<le> of_bool (gs_replanned s) + gs_storage_retries s + 1"
    using assms by (auto simp: native_ok_def split: if_splits)
  ultimately show ?thesis
    using assms by (auto simp: retire_session_def finish_def native_ok_def waiting_def)
qed

lemma native_ok_bounds:
  assumes "native_ok po s"
  shows "safe_calls True (native_log s)" "calls (native_log s) \<le> 5"
    "answers (native_log s) \<le> verify_bound po * calls (native_log s)"
proof -
  show "safe_calls True (native_log s)" using assms by (simp add: native_ok_def)
  have "calls (native_log s) \<le> of_bool (gs_replanned s) + gs_storage_retries s + 1" "gs_storage_retries s \<le> 3"
    using assms by (auto simp: native_ok_def STORAGE_RETRY_LIMIT_def split: if_splits)
  then show "calls (native_log s) \<le> 5" by (cases "gs_replanned s") simp_all
  show "answers (native_log s) \<le> verify_bound po * calls (native_log s)"
    using assms by (cases "gs_active s") (auto simp: native_ok_def)
qed

section \<open>What a completion rests on\<close>

lemma instance_completed:
  "verify_instance_insert po c result rec s = (''completed'', s') \<Longrightarrow>
   result \<noteq> EMPTY_SLOT \<and> tr_execution_evidence (gs_trace s') = tr_execution_evidence (gs_trace s)"
  by (auto simp: verify_instance_insert_def Let_def report_def finish_def count_verify_def split: if_splits)

lemma again_not_completed: "verify_again po c result actual wanted rec s \<noteq> (''completed'', s')"
  by (auto simp: verify_again_def Let_def report_def finish_def)

lemma judge_completed:
  assumes "judge po rt now c result stack wanted rec s = (''completed'', s')"
  shows "if gs_instance_insert s then result \<noteq> EMPTY_SLOT
    else if gs_delta_lane s then (\<exists>n \<ge> wanted. map_option sv_quantity stack = Some n)
    else result \<noteq> EMPTY_SLOT \<or> map_option sv_quantity stack = Some wanted \<and> \<not> gs_storage_route s \<or>
      (sr_normalized_id rec = Some (gc_normalized_id c) \<and> (\<exists>q \<ge> gc_quantity c. sr_quantity rec = Some q))"
proof (cases "gs_instance_insert s")
  case True
  with assms show ?thesis by (auto simp: judge_def Let_def dest!: instance_completed)
next
  case False
  with assms show ?thesis
    by (auto simp: judge_def Let_def slot_verified_def replan_def storage_refused_def report_def finish_def
        again_not_completed split: if_splits option.splits)
qed

end
