(* ===== verification/NativeReplay.thy ===== *)
theory NativeReplay
  imports NativeSafety
begin

text \<open>
  The delivery machine over a game that answers as it likes, and a client that can die. The game
  thread runs a pending request and applies it to the held stack, refuses it, or takes it without the
  held stack showing it (the storage box, or a full stack that discards); the player may change the
  stack at any time. Client, game and player take turns; the client can be killed at any point and
  started again with the baseline its ledger recorded.
\<close>

section \<open>The game\<close>

text \<open>
  The first block is the game, the second counts what happened: the calls the game applied to the
  held stack, the calls it took elsewhere, the starts of the client, and whether the player or the
  game changed the stack on their own.
\<close>

record cave_game =
  cg_stack :: nat
  cg_hydrated :: bool
  cg_address :: "nat option"
  cg_records :: "nat \<Rightarrow> slot_record"
  cg_request :: "nat option"
  cg_done :: bool
  cg_result :: nat
  cg_held :: nat
  cg_elsewhere :: nat
  cg_starts :: nat
  cg_moved :: bool

definition absent_record :: slot_record where
  "absent_record = \<lparr>sr_normalized_id = None, sr_quantity = None, sr_address = None\<rparr>"

definition cave_runtime :: "nat \<Rightarrow> cave_game runtime" where
  "cave_runtime item =
     \<lparr>rt_target_weapon_level = (\<lambda>g. (None, g)),
      rt_inventory_ready = (\<lambda>g. (cg_hydrated g, g)),
      rt_find_stack = (\<lambda>i g.
        (if cg_hydrated g
         then Some \<lparr>sv_quantity = (if i = item then cg_stack g else 0), sv_exists = (i = item \<and> 0 < cg_stack g),
                    sv_slot = Some 7, sv_quantity_address = cg_address g\<rparr>
         else None, g)),
      rt_read_slot_record = (\<lambda>slot g. (if slot = EMPTY_SLOT then absent_record else cg_records g slot, g)),
      rt_request_pending = (\<lambda>g. (cg_request g \<noteq> None, g)),
      rt_queue_native = (\<lambda>d q slot address manual g. g\<lparr>cg_request := Some q, cg_done := False, cg_result := EMPTY_SLOT\<rparr>),
      rt_native_done = (\<lambda>g. (cg_done g, g)),
      rt_native_result = (\<lambda>g. (cg_result g, g)),
      rt_clear_request = (\<lambda>g. g\<lparr>cg_request := None\<rparr>)\<rparr>"

text \<open>
  The game thread runs the request. A refusal answers the empty slot, everything else another one.
\<close>

datatype cave_answer = Applied nat | Taken_Elsewhere nat | Refused

definition run_cave :: "cave_answer \<Rightarrow> cave_game \<Rightarrow> cave_game" where
  "run_cave a g =
     (case cg_request g of
        None \<Rightarrow> g
      | Some q \<Rightarrow>
          let g' = g\<lparr>cg_request := None, cg_done := True\<rparr>
          in case a of
               Applied slot \<Rightarrow> g'\<lparr>cg_stack := cg_stack g + q, cg_result := slot, cg_held := cg_held g + 1\<rparr>
             | Taken_Elsewhere slot \<Rightarrow> g'\<lparr>cg_result := slot, cg_elsewhere := cg_elsewhere g + 1\<rparr>
             | Refused \<Rightarrow> g'\<lparr>cg_result := EMPTY_SLOT\<rparr>)"

fun possible :: "cave_answer \<Rightarrow> bool" where
  "possible (Applied slot) \<longleftrightarrow> slot \<noteq> EMPTY_SLOT"
| "possible (Taken_Elsewhere slot) \<longleftrightarrow> slot \<noteq> EMPTY_SLOT"
| "possible Refused \<longleftrightarrow> True"

section \<open>Turns of client, game and player\<close>

text \<open>
  The command is submitted with the baseline \<open>b\<close> of the ledger. A restart forgets the machine, keeps
  the game and submits the command again; the cells of the cave survive it.
\<close>

inductive replay_run ::
  "descriptor_formula \<Rightarrow> policy \<Rightarrow> nat \<Rightarrow> grant_command \<Rightarrow> cave_game grant_session \<Rightarrow> bool"
  for fo :: descriptor_formula and po :: policy and b :: nat and c :: grant_command where
  rr_start: "submit c manual (session_new g) = Inr s \<Longrightarrow> cg_stack g = b \<Longrightarrow> cg_request g = None \<Longrightarrow>
    cg_held g = 0 \<Longrightarrow> cg_elsewhere g = 0 \<Longrightarrow> cg_starts g = 1 \<Longrightarrow> replay_run fo po b c s"
| rr_poll: "replay_run fo po b c s \<Longrightarrow>
    poll_at fo po (cave_runtime (gc_normalized_id c)) now s = Some (status, s') \<Longrightarrow> replay_run fo po b c s'"
| rr_game: "replay_run fo po b c s \<Longrightarrow> possible a \<Longrightarrow>
    replay_run fo po b c (s\<lparr>gs_runtime := run_cave a (gs_runtime s)\<rparr>)"
| rr_load: "replay_run fo po b c s \<Longrightarrow>
    replay_run fo po b c (s\<lparr>gs_runtime := (gs_runtime s)\<lparr>cg_hydrated := h, cg_address := address, cg_records := records\<rparr>\<rparr>)"
| rr_player: "replay_run fo po b c s \<Longrightarrow>
    replay_run fo po b c (s\<lparr>gs_runtime := (gs_runtime s)\<lparr>cg_stack := n, cg_moved := True\<rparr>\<rparr>)"
| rr_restart: "replay_run fo po b c s \<Longrightarrow>
    submit c manual (session_new ((gs_runtime s)\<lparr>cg_starts := cg_starts (gs_runtime s) + 1\<rparr>)) = Inr s' \<Longrightarrow>
    replay_run fo po b c s'"

text \<open>What the command has to be: a stackable item, and the baseline of the ledger.\<close>

definition replayable :: "descriptor_formula \<Rightarrow> nat \<Rightarrow> grant_command \<Rightarrow> bool" where
  "replayable fo b c \<longleftrightarrow>
     gc_expected_before c = Some b \<and> is_stackable_category fo (command_descriptor c) \<and>
     b + gc_quantity c < 2 ^ 32"

section \<open>The invariant\<close>

text \<open>The calls of the game that are not refused, one of them perhaps still to run.\<close>

definition spent :: "cave_game \<Rightarrow> nat" where
  "spent g = cg_held g + cg_elsewhere g + (if cg_request g = None then 0 else 1)"

text \<open>
  Each start has one call to spend: a machine that may still call has not spent the one of its start.
\<close>

definition calls_ok :: "grant_command \<Rightarrow> cave_game grant_session \<Rightarrow> bool" where
  "calls_ok c s \<longleftrightarrow>
     (let g = gs_runtime s
      in spent g \<le> cg_starts g \<and> (cg_request g \<noteq> None \<longrightarrow> cg_request g = Some (gc_quantity c)) \<and>
         gs_command s \<in> {Some c, Some (c\<lparr>gc_expected_before := None\<rparr>)} \<and> gs_prior s = durable_default \<and>
         (\<not> gs_active s \<and> \<not> is_terminal (gs_state s) \<longrightarrow> spent g < cg_starts g) \<and>
         (gs_active s \<longrightarrow> \<not> gs_instance_insert s \<and> cg_done g = (cg_request g = None) \<and>
            (cg_request g = None \<and> cg_result g = EMPTY_SLOT \<longrightarrow> spent g < cg_starts g)))"

text \<open>While only the calls change the stack: where it is, and what a success says.\<close>

definition stack_ok :: "nat \<Rightarrow> grant_command \<Rightarrow> cave_game grant_session \<Rightarrow> bool" where
  "stack_ok b c s \<longleftrightarrow>
     (let g = gs_runtime s; shown = (cg_held g = 1 \<or> 0 < cg_elsewhere g)
      in cg_held g \<le> 1 \<and> cg_stack g = b + gc_quantity c * cg_held g \<and>
         (cg_request g \<noteq> None \<longrightarrow> cg_held g = 0) \<and>
         (success_status (ds_status (gs_state s)) \<longrightarrow> shown) \<and>
         (gs_command s = Some c \<longrightarrow> gs_storage_retry_at s = None) \<and>
         (gs_command s \<noteq> Some c \<and> \<not> gs_active s \<and> \<not> is_terminal (gs_state s) \<longrightarrow>
            cg_request g = None \<and> cg_held g = 0) \<and>
         (gs_active s \<longrightarrow> gs_expected_before s = Some b \<and>
            (cg_request g = None \<longrightarrow> (if cg_result g = EMPTY_SLOT then cg_held g = 0 else shown))))"

definition replay_inv :: "nat \<Rightarrow> grant_command \<Rightarrow> cave_game grant_session \<Rightarrow> bool" where
  "replay_inv b c s \<longleftrightarrow> calls_ok c s \<and> (\<not> cg_moved (gs_runtime s) \<longrightarrow> stack_ok b c s)"

lemma submit_command:
  "submit c manual s = Inr s' \<Longrightarrow> 1 \<le> gc_quantity c \<and> gs_command s' = Some c \<and> \<not> gs_storage_route s' \<and>
     gs_runtime s' = gs_runtime s \<and> gs_prior s' = gs_prior s \<and> \<not> gs_active s' \<and> ds_status (gs_state s') = ''queued'' \<and>
     gs_storage_retry_at s' = None"
  by (auto simp: submit_def validate_command_def set_status_def split: option.splits if_splits)

lemma sum_no_wrap: "replayable fo b c \<Longrightarrow> saturating_add_u32 b (gc_quantity c) = b + gc_quantity c"
  by (auto simp: replayable_def saturating_add_u32_def u32_max_def)

lemma forgotten_differs: "replayable fo b c \<Longrightarrow> c\<lparr>gc_expected_before := None\<rparr> \<noteq> c"
  by (metis replayable_def grant_command.select_convs(5) grant_command.surjective grant_command.update_convs(5) option.distinct(1))

text \<open>Reads of this game leave the session alone.\<close>

lemma cave_asks:
  "ask (rt_inventory_ready (cave_runtime i)) s = (cg_hydrated (gs_runtime s), s)"
  "ask (rt_native_done (cave_runtime i)) s = (cg_done (gs_runtime s), s)"
  "ask (rt_native_result (cave_runtime i)) s = (cg_result (gs_runtime s), s)"
  "ask (rt_request_pending (cave_runtime i)) s = (cg_request (gs_runtime s) \<noteq> None, s)"
  "ask (rt_read_slot_record (cave_runtime i) slot) s =
     (if slot = EMPTY_SLOT then absent_record else cg_records (gs_runtime s) slot, s)"
  "ask (rt_find_stack (cave_runtime i) i) s =
     (if cg_hydrated (gs_runtime s)
      then Some \<lparr>sv_quantity = cg_stack (gs_runtime s), sv_exists = 0 < cg_stack (gs_runtime s),
                 sv_slot = Some 7, sv_quantity_address = cg_address (gs_runtime s)\<rparr>
      else None, s)"
  by (simp_all add: ask_def cave_runtime_def)

lemma status_simps [simp]:
  "\<not> success_status ''executing''" "\<not> success_status ''verify_pending''" "\<not> success_status ''failed''"
  "\<not> success_status ''awaiting_inventory''" "\<not> success_status ''busy''" "\<not> success_status ''write_error''"
  "\<not> success_status ''quantity_mismatch''" "\<not> success_status ''queued''" "\<not> success_status ''replanning''"
  "\<not> success_status ''storage_retry_wait''" "success_status ''completed''" "success_status ''recovered_complete''"
  "\<not> terminal_status ''executing''" "\<not> terminal_status ''verify_pending''" "\<not> terminal_status ''replanning''"
  "\<not> terminal_status ''storage_retry_wait''" "\<not> terminal_status ''awaiting_inventory''" "\<not> terminal_status ''busy''"
  "terminal_status ''completed''" "terminal_status ''recovered_complete''" "terminal_status ''failed''"
  "terminal_status ''quantity_mismatch''" "terminal_status ''write_error''" "\<not> terminal_status ''queued''"
  by (simp_all add: success_status_def terminal_status_def)

section \<open>What a poll can do\<close>

text \<open>The parts of the session a verdict or a report leaves alone.\<close>

definition same_parts :: "'r grant_session \<Rightarrow> 'r grant_session \<Rightarrow> bool" where
  "same_parts s s' \<longleftrightarrow> gs_prior s' = gs_prior s \<and> gs_command s' = gs_command s \<and>
     gs_storage_retry_at s' = gs_storage_retry_at s"

lemma finish_parts:
  "finish st d s = (r, s') \<Longrightarrow> r = st \<and> ds_status (gs_state s') = st \<and> \<not> gs_active s' \<and>
     gs_runtime s' = gs_runtime s \<and> same_parts s s' \<and> gs_expected_before s' = gs_expected_before s"
  by (auto simp: finish_def same_parts_def)

lemma report_parts:
  "report st d s = (r, s') \<Longrightarrow> r = st \<and> ds_status (gs_state s') = st \<and> gs_active s' = gs_active s \<and>
     gs_runtime s' = gs_runtime s \<and> same_parts s s' \<and> gs_expected_before s' = gs_expected_before s \<and>
     gs_instance_insert s' = gs_instance_insert s"
  by (auto simp: report_def same_parts_def)

lemma verify_again_outcomes:
  assumes "verify_again po c result actual wanted rec s = (status, s')" and "\<not> gs_instance_insert s"
  shows "ds_status (gs_state s') = status \<and> gs_runtime s' = gs_runtime s \<and> same_parts s s' \<and>
    (status = ''failed'' \<and> \<not> gs_active s' \<or>
     status = ''verify_pending'' \<and> gs_active s' = gs_active s \<and>
       gs_expected_before s' = gs_expected_before s \<and> \<not> gs_instance_insert s')"
proof -
  consider d where "report ''verify_pending'' d (count_verify s) = (status, s')"
    | d where "finish ''failed'' d (count_verify s) = (status, s')"
    using assms(1) unfolding verify_again_def Let_def by (auto split: if_splits)
  moreover have "gs_runtime (count_verify s) = gs_runtime s" "same_parts (count_verify s) u = same_parts s u"
    "gs_instance_insert (count_verify s) = gs_instance_insert s" for u
    by (simp_all add: count_verify_def same_parts_def Let_def)
  ultimately show ?thesis
    using assms(2) by cases (drule report_parts finish_parts; simp)+
qed

definition forget_baseline :: "'r runtime \<Rightarrow> 'r grant_session \<Rightarrow> 'r grant_session \<Rightarrow> bool" where
  "forget_baseline rt s s' \<longleftrightarrow> \<not> gs_active s' \<and> gs_runtime s' = rt_clear_request rt (gs_runtime s) \<and>
     gs_prior s' = gs_prior s \<and>
     gs_command s' = map_option (\<lambda>c. c\<lparr>gc_expected_before := None\<rparr>) (gs_command s)"

lemma replan_outcomes:
  "replan rt c result live s = (status, s') \<Longrightarrow>
     ds_status (gs_state s') = status \<and> status = ''replanning'' \<and> forget_baseline rt s s'"
  unfolding replan_def Let_def by (drule report_parts) (simp add: tell_def same_parts_def forget_baseline_def)

lemma storage_outcomes:
  assumes "storage_refused rt now c result actual wanted s = (status, s')"
  shows "ds_status (gs_state s') = status \<and>
     (status = ''failed'' \<and> \<not> gs_active s' \<and> gs_runtime s' = gs_runtime s \<and> same_parts s s' \<or>
      status = ''storage_retry_wait'' \<and> forget_baseline rt s s')"
proof (cases "gs_storage_retries s < STORAGE_RETRY_LIMIT")
  case True
  show ?thesis
    using assms unfolding storage_refused_def Let_def if_P [OF True]
    by - (drule report_parts, simp add: tell_def same_parts_def forget_baseline_def)
next
  case False
  show ?thesis
    using assms unfolding storage_refused_def Let_def if_not_P [OF False] by - (drule finish_parts, simp)
qed

lemma judge_outcomes:
  assumes "judge po rt now c result stack wanted rec s = (status, s')" and "\<not> gs_instance_insert s"
  shows "ds_status (gs_state s') = status \<and>
    (terminal_status status \<and> \<not> gs_active s' \<and> gs_runtime s' = gs_runtime s \<and> same_parts s s' \<and>
       (success_status status \<longrightarrow> result \<noteq> EMPTY_SLOT \<or> sr_normalized_id rec \<noteq> None \<or>
          map_option sv_quantity stack = Some wanted) \<or>
     status = ''verify_pending'' \<and> gs_active s' = gs_active s \<and> gs_runtime s' = gs_runtime s \<and> same_parts s s' \<and>
       gs_expected_before s' = gs_expected_before s \<and> \<not> gs_instance_insert s' \<or>
     result = EMPTY_SLOT \<and> \<not> terminal_status status \<and> \<not> success_status status \<and> forget_baseline rt s s')"
proof -
  define r where "r = replan rt c result (the stack) s"
  define f where "f = storage_refused rt now c result (map_option sv_quantity stack) wanted s"
  define v where "v = verify_again po c result (map_option sv_quantity stack) wanted rec s"
  have j: "judge po rt now c result stack wanted rec s = (status, s')" by (rule assms(1))
  consider d where "finish ''completed'' d s = (status, s')"
      "result \<noteq> EMPTY_SLOT \<or> sr_normalized_id rec \<noteq> None \<or> map_option sv_quantity stack = Some wanted"
    | "r = (status, s')" "result = EMPTY_SLOT" | "f = (status, s')" "result = EMPTY_SLOT" | "v = (status, s')"
    using j assms(2) unfolding judge_def Let_def r_def [symmetric] f_def [symmetric] v_def [symmetric]
    by (auto simp: slot_verified_def split: if_splits)
  then show ?thesis
  proof cases
    case 1
    then show ?thesis using finish_parts [OF 1(1)] by simp
  next
    case 2
    then show ?thesis using replan_outcomes [OF 2(1) [unfolded r_def]] by simp
  next
    case 3
    then show ?thesis using storage_outcomes [OF 3(1) [unfolded f_def]] by auto
  next
    case 4
    then show ?thesis using verify_again_outcomes [OF 4 [unfolded v_def] assms(2)] by auto
  qed
qed

definition queued_call :: "nat \<Rightarrow> cave_game \<Rightarrow> cave_game" where
  "queued_call q g = g\<lparr>cg_request := Some q, cg_done := False, cg_result := EMPTY_SLOT\<rparr>"

lemma start_outcomes:
  "start_native fo (cave_runtime i) c True delta wanted stack s = (status, s') \<Longrightarrow>
     ds_status (gs_state s') = status \<and> status = ''executing'' \<and> gs_active s' \<and> \<not> gs_instance_insert s' \<and>
     same_parts s s' \<and> gs_expected_before s' = gs_expected_before s \<and>
     gs_runtime s' = queued_call (gc_quantity c) (gs_runtime s)"
  by (auto simp: start_native_def report_def tell_def cave_runtime_def same_parts_def queued_call_def Let_def)

lemma same_parts_notes:
  "same_parts (note_baseline b' w s) t = same_parts s t" "same_parts (note_readback v s) t = same_parts s t"
  "same_parts (s\<lparr>gs_storage_route := o'\<rparr>) t = same_parts s t"
  "gs_runtime (note_baseline b' w s) = gs_runtime s" "gs_runtime (note_readback v s) = gs_runtime s"
  "gs_active (note_baseline b' w s) = gs_active s" "gs_active (note_readback v s) = gs_active s"
  "gs_expected_before (note_baseline b' w s) = gs_expected_before s"
  "gs_expected_before (note_readback v s) = gs_expected_before s"
  by (simp_all add: same_parts_def note_baseline_def note_readback_def)

lemma dequeue_outcomes:
  assumes "dequeue fo po (cave_runtime i) c True before' stack s = (status, s')"
  shows "ds_status (gs_state s') = status \<and> same_parts s s' \<and> gs_expected_before s' = gs_expected_before s \<and>
    (terminal_status status \<and> \<not> gs_active s' \<and> gs_runtime s' = gs_runtime s \<and>
       (success_status status \<longrightarrow> sv_quantity stack = saturating_add_u32 before' (gc_quantity c)) \<or>
     \<not> terminal_status status \<and> \<not> success_status status \<and> gs_active s' = gs_active s \<and> gs_runtime s' = gs_runtime s \<or>
     \<not> terminal_status status \<and> \<not> success_status status \<and> gs_active s' \<and> \<not> gs_instance_insert s' \<and>
       sv_quantity stack = before' \<and> cg_request (gs_runtime s) = None \<and>
       gs_runtime s' = queued_call (gc_quantity c) (gs_runtime s))"
proof -
  define w where "w = saturating_add_u32 before' (gc_quantity c)"
  define o' where "o' = overflows fo c w (sv_exists stack \<and> True) s"
  define t where "t = note_baseline before' w (s\<lparr>gs_storage_route := o'\<rparr>)"
  define n where "n = note_readback (Some (sv_quantity stack)) t"
  define k where "k = (\<lambda>delta. start_native fo (cave_runtime i) c True delta w stack t)"
  have same: "same_parts t u = same_parts s u" "same_parts n u = same_parts s u" for u
    by (simp_all add: t_def n_def same_parts_notes)
  have t: "gs_runtime t = gs_runtime s" "gs_runtime n = gs_runtime s" "gs_active t = gs_active s"
    "gs_expected_before t = gs_expected_before s" "gs_expected_before n = gs_expected_before s"
    by (simp_all add: t_def n_def same_parts_notes)
  consider d where "finish ''recovered_complete'' d n = (status, s')" "sv_quantity stack = w"
    | d where "finish ''quantity_mismatch'' d n = (status, s')"
    | d where "finish ''write_error'' d t = (status, s')" | d where "finish ''failed'' d t = (status, s')"
    | d where "report ''busy'' d t = (status, s')"
    | delta where "k delta = (status, s')" "sv_quantity stack = before'" "cg_request (gs_runtime s) = None"
    using assms unfolding dequeue_def Let_def w_def [symmetric] o'_def [symmetric] cave_asks prod.case if_True
      t_def [symmetric] n_def [symmetric] k_def [symmetric] t(1)
    by (auto simp: k_def t split: if_splits)
  then show ?thesis
  proof cases
    case 1
    then show ?thesis using finish_parts [OF 1(1)] same t by (simp add: w_def)
  next
    case 2
    then show ?thesis using finish_parts [OF 2] same t by simp
  next
    case 3
    then show ?thesis using finish_parts [OF 3] same t by simp
  next
    case 4
    then show ?thesis using finish_parts [OF 4] same t by simp
  next
    case 5
    then show ?thesis using report_parts [OF 5] same t by simp
  next
    case 6
    then show ?thesis using start_outcomes [OF 6(1) [unfolded k_def]] same t by simp
  qed
qed

lemma default_prior: "ds_expected_before durable_default = None"
  by (simp add: durable_default_def)

text \<open>The baseline a pending command is judged against.\<close>

definition live_baseline :: "grant_command \<Rightarrow> cave_game \<Rightarrow> nat" where
  "live_baseline c g = (case gc_expected_before c of Some b \<Rightarrow> b | None \<Rightarrow> cg_stack g)"

lemma pending_outcomes:
  assumes "poll_pending fo po (cave_runtime (gc_normalized_id c)) c s = (status, s')"
    and "is_stackable_category fo (command_descriptor c)" and "gs_prior s = durable_default" and "\<not> gs_active s"
  shows "ds_status (gs_state s') = status \<and> same_parts s s' \<and>
    (terminal_status status \<and> \<not> gs_active s' \<and> gs_runtime s' = gs_runtime s \<and>
       (success_status status \<longrightarrow>
          cg_stack (gs_runtime s) = saturating_add_u32 (live_baseline c (gs_runtime s)) (gc_quantity c)) \<or>
     \<not> terminal_status status \<and> \<not> success_status status \<and> \<not> gs_active s' \<and> gs_runtime s' = gs_runtime s \<or>
     \<not> terminal_status status \<and> \<not> success_status status \<and> gs_active s' \<and> \<not> gs_instance_insert s' \<and>
       gs_expected_before s' = Some (live_baseline c (gs_runtime s)) \<and>
       cg_stack (gs_runtime s) = live_baseline c (gs_runtime s) \<and> cg_request (gs_runtime s) = None \<and>
       gs_runtime s' = queued_call (gc_quantity c) (gs_runtime s))"
proof (cases "cg_hydrated (gs_runtime s)")
  case False
  with assms show ?thesis
    by (auto simp: poll_pending_def cave_asks dest!: report_parts)
next
  case True
  let ?g = "gs_runtime s"
  let ?stack = "\<lparr>sv_quantity = cg_stack ?g, sv_exists = 0 < cg_stack ?g, sv_slot = Some 7, sv_quantity_address = cg_address ?g\<rparr>"
  obtain proceed s3 where a: "absent_grace po ?stack s = (proceed, s3)" by fastforce
  then have s3: "gs_runtime s3 = ?g" "same_parts s s3" "\<not> gs_active s3" "gs_prior s3 = durable_default"
    using assms(3,4) by (auto simp: absent_grace_def same_parts_def Let_def split: if_splits)
  define s4 where "s4 = choose_baseline True c ?stack s3"
  have s4: "gs_runtime s4 = ?g" "same_parts s3 s4" "\<not> gs_active s4"
    "gs_expected_before s4 = Some (live_baseline c ?g)"
    using s3 by (auto simp: s4_def choose_baseline_def same_parts_def live_baseline_def recovered_baseline_def
        default_prior split: option.split)
  show ?thesis
  proof (cases proceed)
    case False
    with assms True a s3 show ?thesis
      by (auto simp: poll_pending_def cave_asks report_def set_status_def same_parts_def)
  next
    case proceed: True
    have "dequeue fo po (cave_runtime (gc_normalized_id c)) c True (live_baseline c ?g) ?stack s4 = (status, s')"
      using assms(1,2) True a proceed s4(4) by (simp add: poll_pending_def cave_asks Let_def s4_def)
    from dequeue_outcomes [OF this] s3 s4 show ?thesis
      by (auto simp: same_parts_def)
  qed
qed

section \<open>The invariant holds\<close>

lemma start_inv:
  assumes "submit c manual (session_new g) = Inr s'" "spent g < cg_starts g"
    "cg_request g \<noteq> None \<longrightarrow> cg_request g = Some (gc_quantity c)"
    "\<not> cg_moved g \<longrightarrow> cg_held g \<le> 1 \<and> cg_stack g = b + gc_quantity c * cg_held g \<and> (cg_request g \<noteq> None \<longrightarrow> cg_held g = 0)"
  shows "replay_inv b c s'"
  using submit_command [OF assms(1)] assms(2-4)
  by (auto simp: replay_inv_def calls_ok_def stack_ok_def Let_def session_new_def session_with_prior_def)

lemma replay_active:
  assumes inv: "replay_inv b c s" and active: "gs_active s" and rep: "replayable fo b c" and q: "1 \<le> gc_quantity c"
    and poll: "poll_active po (cave_runtime (gc_normalized_id c)) now c' s = Some (status, s')"
    and c': "gc_normalized_id c' = gc_normalized_id c" "gc_quantity c' = gc_quantity c"
  shows "replay_inv b c s'"
proof (cases "cg_done (gs_runtime s)")
  case False
  with poll have "s' = set_status ''executing'' (''tag='' @ gc_tag c' @ '' awaiting native completion'') s"
    by (auto simp: poll_active_def cave_asks report_def)
  with inv active show ?thesis
    by (simp add: replay_inv_def calls_ok_def stack_ok_def Let_def set_status_def)
next
  case True
  let ?g = "gs_runtime s" and ?w = "b + gc_quantity c" and ?rt = "cave_runtime (gc_normalized_id c)"
  have calls: "calls_ok c s" and none: "cg_request ?g = None"
    using inv active True by (auto simp: replay_inv_def calls_ok_def Let_def)
  define rec where "rec = (if cg_result ?g = EMPTY_SLOT then absent_record else cg_records ?g (cg_result ?g))"
  define stack where "stack = fst (ask (rt_find_stack ?rt (gc_normalized_id c)) s)"
  define t where "t = note_result (cg_result ?g) (map_option sv_quantity stack) s"
  have t: "gs_runtime t = ?g" "same_parts s t" "gs_active t" "gs_expected_before t = gs_expected_before s"
    "\<not> gs_instance_insert t"
    using calls active by (auto simp: t_def note_result_def note_readback_def same_parts_def calls_ok_def Let_def)
  from poll True obtain before' where
    e: "gs_expected_before s = Some before'" and
    j: "judge po ?rt now c' (cg_result ?g) stack (saturating_add_u32 before' (gc_quantity c)) rec t = (status, s')"
    by (auto simp: poll_active_def cave_asks c' t_def rec_def stack_def split: if_splits option.splits)
  have shown: "success_status status \<longrightarrow> cg_result ?g \<noteq> EMPTY_SLOT"
    if "stack_ok b c s" "success_status status \<longrightarrow> cg_result ?g \<noteq> EMPTY_SLOT \<or> sr_normalized_id rec \<noteq> None \<or>
          map_option sv_quantity stack = Some (saturating_add_u32 before' (gc_quantity c))"
    using that active none e sum_no_wrap [OF rep] q
    by (auto simp: stack_ok_def Let_def rec_def absent_record_def stack_def cave_asks split: if_splits)
  have clear: "rt_clear_request ?rt ?g = ?g" using none by (simp add: cave_runtime_def)
  from judge_outcomes [OF j t(5)] calls show ?thesis
    unfolding t(1)
  proof (elim conjE disjE, goal_cases)
    case 1
    then have "calls_ok c s'" using t(2) by (auto simp: calls_ok_def Let_def same_parts_def is_terminal_def)
    moreover have "stack_ok b c s'" if "stack_ok b c s"
      using 1 that shown [OF that] t(2) active none
      by (auto simp: stack_ok_def Let_def same_parts_def is_terminal_def split: if_splits)
    ultimately show ?thesis using 1 inv by (simp add: replay_inv_def)
  next
    case 2
    then have "calls_ok c s'" using t(2,3) active by (auto simp: calls_ok_def Let_def same_parts_def is_terminal_def)
    moreover have "stack_ok b c s'" if "stack_ok b c s"
      using 2 that t(2-4) active by (simp add: stack_ok_def Let_def same_parts_def)
    ultimately show ?thesis using 2 inv by (simp add: replay_inv_def)
  next
    case 3
    then have s': "gs_runtime s' = ?g" "\<not> gs_active s'" "gs_prior s' = gs_prior s"
      "gs_command s' = Some (c\<lparr>gc_expected_before := None\<rparr>)" "\<not> success_status (ds_status (gs_state s'))"
      using t(1,2) clear calls by (auto simp: forget_baseline_def same_parts_def calls_ok_def Let_def)
    have "calls_ok c s'" using calls s' 3 active none by (simp add: calls_ok_def Let_def)
    moreover have "stack_ok b c s'" if "stack_ok b c s"
      using 3 that s' active none forgotten_differs [OF rep] by (auto simp: stack_ok_def Let_def)
    ultimately show ?thesis using s' inv by (simp add: replay_inv_def)
  qed
qed

lemma replay_pending:
  assumes inv: "replay_inv b c s" and idle: "\<not> gs_active s" "\<not> is_terminal (gs_state s)"
    and rep: "replayable fo b c" and q: "1 \<le> gc_quantity c"
    and poll: "poll_pending fo po (cave_runtime (gc_normalized_id c)) c' s = (status, s')"
    and c': "gs_command s = Some c'" and retry: "gs_storage_retry_at s = None"
  shows "replay_inv b c s'"
proof -
  let ?g = "gs_runtime s"
  have calls: "calls_ok c s" using inv by (simp add: replay_inv_def)
  then have cc: "c' \<in> {c, c\<lparr>gc_expected_before := None\<rparr>}" "gs_prior s = durable_default" "spent ?g < cg_starts ?g"
    using c' idle by (auto simp: calls_ok_def Let_def)
  from cc(1) have i: "gc_normalized_id c' = gc_normalized_id c" "gc_quantity c' = gc_quantity c"
    "command_descriptor c' = command_descriptor c" by (auto simp: command_descriptor_def)
  have base: "live_baseline c' ?g = b" if "stack_ok b c s"
    using that cc(1) c' idle rep by (auto simp: stack_ok_def live_baseline_def replayable_def Let_def)
  have "poll_pending fo po (cave_runtime (gc_normalized_id c')) c' s = (status, s')" using poll i by simp
  from pending_outcomes [OF this _ cc(2) idle(1)] rep i(3) have
    "ds_status (gs_state s') = status \<and> same_parts s s' \<and>
    (terminal_status status \<and> \<not> gs_active s' \<and> gs_runtime s' = ?g \<and>
       (success_status status \<longrightarrow> cg_stack ?g = saturating_add_u32 (live_baseline c' ?g) (gc_quantity c)) \<or>
     \<not> terminal_status status \<and> \<not> success_status status \<and> \<not> gs_active s' \<and> gs_runtime s' = ?g \<or>
     \<not> terminal_status status \<and> \<not> success_status status \<and> gs_active s' \<and> \<not> gs_instance_insert s' \<and>
       gs_expected_before s' = Some (live_baseline c' ?g) \<and> cg_stack ?g = live_baseline c' ?g \<and> cg_request ?g = None \<and>
       gs_runtime s' = queued_call (gc_quantity c) ?g)"
    by (simp add: replayable_def i(2))
  then show ?thesis
  proof (elim conjE disjE, goal_cases)
    case 1
    then have "calls_ok c s'" using calls by (auto simp: calls_ok_def Let_def same_parts_def is_terminal_def)
    moreover have "stack_ok b c s'" if "stack_ok b c s"
      using 1 that base [OF that] sum_no_wrap [OF rep] q
      by (auto simp: stack_ok_def Let_def same_parts_def is_terminal_def)
    ultimately show ?thesis using 1 inv by (simp add: replay_inv_def)
  next
    case 2
    then have "calls_ok c s'" using calls idle by (auto simp: calls_ok_def Let_def same_parts_def is_terminal_def)
    moreover have "stack_ok b c s'" if "stack_ok b c s"
      using 2 that idle by (auto simp: stack_ok_def Let_def same_parts_def is_terminal_def)
    ultimately show ?thesis using 2 inv by (simp add: replay_inv_def)
  next
    case 3
    then have "calls_ok c s'" using calls cc(3)
      by (auto simp: calls_ok_def Let_def same_parts_def queued_call_def spent_def)
    moreover have "stack_ok b c s'" if "stack_ok b c s"
      using 3 that base [OF that] retry q
      by (auto simp: stack_ok_def Let_def same_parts_def queued_call_def)
    ultimately show ?thesis using 3 inv by (simp add: replay_inv_def queued_call_def)
  qed
qed

lemma replay_poll:
  assumes inv: "replay_inv b c s" and rep: "replayable fo b c" and q: "1 \<le> gc_quantity c"
    and poll: "poll_at fo po (cave_runtime (gc_normalized_id c)) now s = Some (status, s')"
  shows "replay_inv b c s'"
proof -
  obtain c' where c': "gs_command s = Some c'" "gc_normalized_id c' = gc_normalized_id c" "gc_quantity c' = gc_quantity c"
    using inv by (auto simp: replay_inv_def calls_ok_def Let_def)
  have drop: "replay_inv b c (s\<lparr>gs_storage_retry_at := None\<rparr>)"
    using inv by (simp add: replay_inv_def calls_ok_def stack_ok_def Let_def)
  have keep: "replay_inv b c s'"
    if "poll_pending fo po (cave_runtime (gc_normalized_id c)) c' (s\<lparr>gs_storage_retry_at := None\<rparr>) = (status, s')"
      "\<not> gs_active s" "\<not> is_terminal (gs_state s)"
    using replay_pending [OF drop _ _ rep q that(1)] that(2,3) c'(1) by simp
  from poll show ?thesis
    using inv c'(1)
    by (auto simp: poll_at_def split: if_splits option.splits
        intro: replay_active [OF inv _ rep q _ c'(2,3)] keep replay_pending [OF inv _ _ rep q])
qed

lemma replay_game:
  assumes "replay_inv b c s" "possible a"
  shows "replay_inv b c (s\<lparr>gs_runtime := run_cave a (gs_runtime s)\<rparr>)"
proof (cases "cg_request (gs_runtime s)")
  case None
  with assms show ?thesis by (simp add: run_cave_def)
next
  case (Some q)
  then show ?thesis using assms
    by (cases a; cases "gs_active s")
      (simp_all add: replay_inv_def calls_ok_def stack_ok_def Let_def run_cave_def spent_def)
qed

lemma replay_run_quantity: "replay_run fo po b c s \<Longrightarrow> 1 \<le> gc_quantity c"
  by (induction rule: replay_run.induct) (auto dest: submit_command)

lemma replay_run_inv:
  assumes "replay_run fo po b c s" and "replayable fo b c"
  shows "replay_inv b c s"
  using assms(1)
proof (induction rule: replay_run.induct)
  case (rr_start manual g s)
  then show ?case by (auto intro!: start_inv simp: spent_def)
next
  case (rr_poll s now status s')
  from replay_poll [OF rr_poll.IH assms(2) replay_run_quantity [OF rr_poll.hyps(1)] rr_poll.hyps(2)] show ?case .
next
  case (rr_game s a)
  then show ?case by (simp add: replay_game)
next
  case (rr_load s h address records)
  then show ?case by (simp add: replay_inv_def calls_ok_def stack_ok_def spent_def Let_def)
next
  case (rr_player s n)
  then show ?case by (simp add: replay_inv_def calls_ok_def spent_def Let_def)
next
  case (rr_restart s manual s')
  show ?case
    by (rule start_inv [OF rr_restart.hyps(2)])
      (use rr_restart.IH in \<open>auto simp: replay_inv_def calls_ok_def stack_ok_def spent_def Let_def\<close>)
qed

text \<open>A poll of a loaded game that holds the total reports the success and calls nothing.\<close>

lemma replay_recovers:
  assumes inv: "replay_inv b c s" and rep: "replayable fo b c" and q: "1 \<le> gc_quantity c"
    and hyd: "cg_hydrated (gs_runtime s)" and still: "\<not> cg_moved (gs_runtime s)"
    and full: "cg_stack (gs_runtime s) = b + gc_quantity c" and open': "\<not> is_terminal (gs_state s)"
  shows "\<exists>status s'. poll_at fo po (cave_runtime (gc_normalized_id c)) now s = Some (status, s') \<and>
    success_status status \<and> gs_runtime s' = gs_runtime s \<and> cg_request (gs_runtime s) = None"
proof -
  have st: "stack_ok b c s" and calls: "calls_ok c s" using inv still by (simp_all add: replay_inv_def)
  have held: "cg_held (gs_runtime s) = 1" using st full q by (auto simp: stack_ok_def Let_def le_Suc_eq)
  have none: "cg_request (gs_runtime s) = None" using st held by (auto simp: stack_ok_def Let_def)
  show ?thesis
  proof (cases "gs_active s")
    case True
    then have a: "cg_done (gs_runtime s)" "gs_expected_before s = Some b" "\<not> gs_instance_insert s"
      "cg_result (gs_runtime s) \<noteq> EMPTY_SLOT"
      using st calls held none by (auto simp: stack_ok_def calls_ok_def Let_def split: if_splits)
    from calls obtain c' where "gs_command s = Some c'" "gc_normalized_id c' = gc_normalized_id c" "gc_quantity c' = gc_quantity c"
      by (auto simp: calls_ok_def Let_def)
    with True a none show ?thesis
      by (simp add: poll_at_def poll_active_def cave_asks hyd full judge_def Let_def finish_def note_result_def
          note_readback_def sum_no_wrap [OF rep])
  next
    case False
    then have c: "gs_command s = Some c" using st calls held open' by (auto simp: stack_ok_def calls_ok_def Let_def)
    then have "gs_storage_retry_at s = None" using st by (simp add: stack_ok_def Let_def)
    with c False open' rep q none show ?thesis
      by (simp add: poll_at_def poll_pending_def cave_asks hyd full absent_grace_def Let_def choose_baseline_def
          dequeue_def finish_def sum_no_wrap [OF rep] replayable_def note_baseline_def note_readback_def)
  qed
qed

text \<open>The status a poll returns is the one it leaves in the state.\<close>

lemma status_of_step:
  "finish st d s = (r, s') \<Longrightarrow> ds_status (gs_state s') = r" "report st d s = (r, s') \<Longrightarrow> ds_status (gs_state s') = r"
  by (auto simp: finish_def report_def)

lemma poll_status:
  assumes "poll_at fo po rt now s = Some (status, s')"
  shows "ds_status (gs_state s') = status"
proof -
  have pending: "poll_pending fo po rt c t = (r, t') \<Longrightarrow> ds_status (gs_state t') = r" for c t r t'
    by (auto simp: poll_pending_def dequeue_def start_native_def Let_def split: prod.splits if_splits option.splits
        dest: status_of_step)
  have judged: "judge po rt now c result stack wanted rec t = (r, t') \<Longrightarrow> ds_status (gs_state t') = r"
    for c result stack wanted rec t r t'
    by (auto simp: judge_def verify_instance_insert_def verify_again_def replan_def storage_refused_def Let_def
        split: if_splits dest: status_of_step)
  have active: "poll_active po rt now c t = Some (r, t') \<Longrightarrow> ds_status (gs_state t') = r" for c t r t'
    by (auto simp: poll_active_def split: prod.splits if_splits option.splits dest: status_of_step judged)
  from assms show ?thesis
    by (auto simp: poll_at_def split: if_splits option.splits dest: pending active)
qed

end
