(* ===== verification/NativeEngine.thy ===== *)
theory NativeEngine
  imports NativeSafety BbLoop
begin

unbundle bit_operations_syntax

text \<open>
  The single-in-flight delivery engine of the native Bloodborne backend,
  \<open>crates/bb-archipelago/src/native/engine.rs\<close>, with the delivery diagnostics of
  \<open>diagnostics.rs\<close> it writes and the calls of \<open>backend.rs\<close> that reach it. Time is a parameter: \<open>now\<close>
  the monotonic clock and \<open>clock\<close> the Unix time, both in milliseconds.
\<close>

section \<open>Requests\<close>

datatype grant_step = StepPending | StepComplete | StepFailed string string

record native_grant_request =
  nq_tag :: string
  nq_raw_descriptor :: nat
  nq_normalized_item_id :: nat
  nq_item_category :: nat
  nq_quantity :: nat
  nq_expected_before :: "nat option"

definition same_low_bits :: "native_grant_request \<Rightarrow> bool" where
  "same_low_bits q \<longleftrightarrow> nq_normalized_item_id q AND 0x0FFFFFFF = nq_raw_descriptor q AND 0x0FFFFFFF"

definition into_command :: "descriptor_formula \<Rightarrow> native_grant_request \<Rightarrow> string + grant_command" where
  "into_command fo q =
     (let normalized_prefix = nq_normalized_item_id q AND 0xF0000000;
          raw_prefix = nq_raw_descriptor q AND 0xF0000000;
          command = \<lparr>gc_raw_id = nq_raw_descriptor q, gc_normalized_id = nq_normalized_item_id q,
                     gc_quantity = nq_quantity q, gc_tag = nq_tag q, gc_expected_before = nq_expected_before q\<rparr>
      in if nq_item_category q = CATEGORY_GOODS then
           if normalized_prefix = df_goods_normalized_prefix fo \<and> raw_prefix = df_goods_raw_prefix fo \<and> same_low_bits q
           then Inr command
           else Inl (''grant '' @ nq_tag q @ '' has an invalid category-4 raw/normalized descriptor pair'')
         else if nq_item_category q = CATEGORY_EQUIPMENT then
           if normalized_prefix = 0 \<and> raw_prefix = df_persistent_source_marker fo \<and> same_low_bits q
           then Inr command
           else Inl (''grant '' @ nq_tag q @ '' has an invalid category-0 raw/normalized descriptor pair'')
         else if nq_item_category q = CATEGORY_ARMOR then
           if normalized_prefix = 0x10000000 \<and> raw_prefix = df_persistent_source_marker fo + 0x10000000 \<and> same_low_bits q
           then Inr command
           else Inl (''grant '' @ nq_tag q @ '' has an invalid category-1 armor descriptor pair'')
         else Inl (''grant '' @ nq_tag q @ '' uses unsupported Bloodborne item category '' @ show_nat (nq_item_category q)))"

definition classify :: "string \<Rightarrow> durable_state \<Rightarrow> grant_step" where
  "classify status d =
     (if status \<in> {''completed'', ''recovered_complete''} then StepComplete
      else if status \<in> {''failed'', ''quantity_mismatch'', ''command_rejected'', ''write_error''}
      then StepFailed status (ds_detail d)
      else StepPending)"

section \<open>Delivery diagnostics\<close>

record grant_context =
  gx_gameplay_ready :: "bool option"
  gx_event_flags_armed :: bool

definition context_default :: grant_context where
  "context_default = \<lparr>gx_gameplay_ready = None, gx_event_flags_armed = False\<rparr>"

text \<open>The full line; the client loop reads the part it extends.\<close>

record diag_record = delivery_record +
  dg_utc :: string
  dg_unix_seconds :: nat
  dg_unix_millis :: nat
  dg_session_sequence :: nat
  dg_since_previous :: "nat option"
  dg_previous_destination :: "string option"
  dg_readback_surplus :: "int option"
  dg_stack_present_at_dequeue :: "bool option"
  dg_ready_at_submit :: "bool option"
  dg_ready_at_terminal :: "bool option"
  dg_flags_armed_at_terminal :: bool
  dg_inferred_destination :: string

definition infer_destination :: "bool \<Rightarrow> grant_trace \<Rightarrow> string" where
  "infer_destination succeeded t =
     (if \<not> succeeded then ''unknown''
      else case (last_readback t, tr_expected_after t) of
        (Some actual, Some wanted) \<Rightarrow>
          if wanted \<le> actual then ''held''
          else if tr_lane t = Some ''insert'' \<and> tr_execution_evidence t then ''storage''
          else ''unknown''
      | _ \<Rightarrow> ''unknown'')"

definition ap_index_from_tag :: "string \<Rightarrow> nat option" where
  "ap_index_from_tag tag = (case strip_prefix ''ap_'' tag of None \<Rightarrow> None | Some r \<Rightarrow> parse_u64 r)"

text \<open>Civil date of a day count from the epoch: year, month, day.\<close>

definition civil_from_days :: "nat \<Rightarrow> nat \<times> nat \<times> nat" where
  "civil_from_days days =
     (let z = days + 719468;
          era = z div 146097;
          doe = z mod 146097;
          yoe = (doe - doe div 1460 + doe div 36524 - doe div 146096) div 365;
          y = yoe + era * 400;
          doy = doe - (365 * yoe + yoe div 4 - yoe div 100);
          mp = (5 * doy + 2) div 153;
          d = doy - (153 * mp + 2) div 5 + 1;
          m = (if mp < 10 then mp + 3 else mp - 9)
      in (if m \<le> 2 then y + 1 else y, m, d))"

definition zero_padded :: "nat \<Rightarrow> nat \<Rightarrow> string" where
  "zero_padded width n = (let s = show_nat n in replicate (width - length s) CHR ''0'' @ s)"

definition format_utc :: "nat \<Rightarrow> string" where
  "format_utc unix_seconds =
     (let sod = unix_seconds mod 86400
      in case civil_from_days (unix_seconds div 86400) of (y, m, d) \<Rightarrow>
        zero_padded 4 y @ ''-'' @ zero_padded 2 m @ ''-'' @ zero_padded 2 d @ ''T'' @
        zero_padded 2 (sod div 3600) @ '':'' @ zero_padded 2 (sod mod 3600 div 60) @ '':'' @
        zero_padded 2 (sod mod 60) @ ''Z'')"

definition build_record ::
  "nat \<Rightarrow> grant_trace \<Rightarrow> string \<Rightarrow> string \<Rightarrow> bool \<Rightarrow> grant_context \<Rightarrow> grant_context \<Rightarrow> diag_record" where
  "build_record clock t status detail succeeded submitted terminal =
     \<lparr>dr_tag = tr_tag t, dr_ap_index = ap_index_from_tag (tr_tag t), dr_item_id_raw = tr_raw_id t,
      dr_item_id_normalized = tr_normalized_id t, dr_lane = tr_lane t, dr_source = tr_source t,
      dr_quantity = tr_quantity t, dr_observed_before = tr_observed_before t,
      dr_expected_after = tr_expected_after t, dr_readbacks = tr_readbacks t,
      dr_readbacks_seen = tr_readbacks_seen t, dr_native_result = tr_native_result t,
      dr_execution_evidence = tr_execution_evidence t, dr_replanned_to_delta = tr_replanned_to_delta t,
      dr_verify_polls = tr_verify_polls t, dr_terminal_status = status, dr_terminal_detail = detail,
      dg_utc = format_utc (clock div 1000), dg_unix_seconds = clock div 1000,
      dg_unix_millis = min clock (2 ^ 64 - 1), dg_session_sequence = 0, dg_since_previous = None,
      dg_previous_destination = None, dg_readback_surplus = readback_surplus t,
      dg_stack_present_at_dequeue = tr_stack_present_at_dequeue t,
      dg_ready_at_submit = gx_gameplay_ready submitted, dg_ready_at_terminal = gx_gameplay_ready terminal,
      dg_flags_armed_at_terminal = gx_event_flags_armed terminal,
      dg_inferred_destination = infer_destination succeeded t\<rparr>"

text \<open>
  The sink. A writer is what it answers to its n-th line, an error message or nothing; the lines it
  was handed are kept.
\<close>

record diagnostic_sink =
  sk_writer :: "(nat \<Rightarrow> string option) option"
  sk_warned :: bool
  sk_sequence :: nat
  sk_previous_millis :: "nat option"
  sk_previous_destination :: "string option"
  sk_lines :: "diag_record list"

definition sink_disabled :: diagnostic_sink where
  "sink_disabled = \<lparr>sk_writer = None, sk_warned = False, sk_sequence = 0, sk_previous_millis = None,
     sk_previous_destination = None, sk_lines = []\<rparr>"

definition sink_new :: "(nat \<Rightarrow> string option) \<Rightarrow> diagnostic_sink" where
  "sink_new writer = sink_disabled\<lparr>sk_writer := Some writer\<rparr>"

definition stamp_record :: "diagnostic_sink \<Rightarrow> diag_record \<Rightarrow> diag_record" where
  "stamp_record sk r =
     r\<lparr>dg_session_sequence := sk_sequence sk + 1,
       dg_since_previous := map_option (\<lambda>previous. dg_unix_millis r - previous) (sk_previous_millis sk),
       dg_previous_destination := sk_previous_destination sk\<rparr>"

definition sink_record :: "diag_record \<Rightarrow> diagnostic_sink \<Rightarrow> diagnostic_sink \<times> string list" where
  "sink_record r sk =
     (case sk_writer sk of
        None \<Rightarrow> (sk, [])
      | Some write \<Rightarrow>
          let line = stamp_record sk r;
              sk1 = sk\<lparr>sk_sequence := sk_sequence sk + 1, sk_previous_millis := Some (dg_unix_millis r),
                       sk_previous_destination := Some (dg_inferred_destination r), sk_lines := sk_lines sk @ [line]\<rparr>
          in (case write (sk_sequence sk1) of
                None \<Rightarrow> (sk1, [])
              | Some e \<Rightarrow>
                  if sk_warned sk1 then (sk1, [])
                  else (sk1\<lparr>sk_warned := True\<rparr>, [''Delivery diagnostics could not be written ('' @ e @
                          ''); deliveries are unaffected and this warning will not repeat.''])))"

section \<open>The engine\<close>

record 'r native_delivery =
  nd_session :: "'r grant_session"
  nd_current_tag :: "string option"
  nd_finished :: "string \<rightharpoonup> grant_step"
  nd_preexecution_vial_refusals :: "string set"
  nd_manual_trigger :: bool
  nd_diagnostics :: diagnostic_sink
  nd_context :: grant_context
  nd_submit_context :: grant_context

definition delivery_with_prior :: "'r \<Rightarrow> durable_state \<Rightarrow> 'r native_delivery" where
  "delivery_with_prior r prior =
     \<lparr>nd_session = session_with_prior r prior, nd_current_tag = None, nd_finished = Map.empty,
      nd_preexecution_vial_refusals = {}, nd_manual_trigger = False, nd_diagnostics = sink_disabled,
      nd_context = context_default, nd_submit_context = context_default\<rparr>"

definition delivery_new :: "'r \<Rightarrow> 'r native_delivery" where
  "delivery_new r = delivery_with_prior r durable_default"

definition arm_diagnostics :: "diagnostic_sink \<Rightarrow> 'r native_delivery \<Rightarrow> 'r native_delivery" where
  "arm_diagnostics sk d = d\<lparr>nd_diagnostics := sk\<rparr>"

definition set_context :: "grant_context \<Rightarrow> 'r native_delivery \<Rightarrow> 'r native_delivery" where
  "set_context x d = d\<lparr>nd_context := x\<rparr>"

definition observe_stack :: "'r runtime \<Rightarrow> nat \<Rightarrow> 'r native_delivery \<Rightarrow> stack_view option \<times> 'r native_delivery" where
  "observe_stack rt normalized d =
     (case ask (rt_inventory_ready rt) (nd_session d) of (ready, s1) \<Rightarrow>
        if \<not> ready then (None, d\<lparr>nd_session := s1\<rparr>)
        else case ask (rt_find_stack rt normalized) s1 of (stack, s2) \<Rightarrow> (stack, d\<lparr>nd_session := s2\<rparr>))"

definition command_may_have_applied :: "'r native_delivery \<Rightarrow> string \<Rightarrow> bool" where
  "command_may_have_applied d tag \<longleftrightarrow>
     nd_finished d tag \<noteq> None \<or> ds_tag (gs_state (nd_session d)) \<noteq> tag \<or>
     ds_status (gs_state (nd_session d)) \<notin> {''queued'', ''awaiting_inventory'', ''busy''}"

definition last_completion_went_to_storage :: "'r native_delivery \<Rightarrow> string \<Rightarrow> bool" where
  "last_completion_went_to_storage d tag \<longleftrightarrow>
     (let t = gs_trace (nd_session d)
      in nd_finished d tag = Some StepComplete \<and> tr_tag t = tag \<and> tr_lane t = Some ''insert'' \<and>
         tr_execution_evidence t \<and>
         (case (if tr_readbacks t = [] then None else last (tr_readbacks t), tr_expected_after t) of
            (Some actual, Some expected) \<Rightarrow> actual < expected
          | _ \<Rightarrow> False))"

definition release_preexecution_vial_refusal :: "string \<Rightarrow> 'r native_delivery \<Rightarrow> bool \<times> 'r native_delivery" where
  "release_preexecution_vial_refusal tag d =
     (if nd_current_tag d \<noteq> None then (False, d)
      else if nd_finished d tag = None then (True, d)
      else if tag \<notin> nd_preexecution_vial_refusals d then (False, d)
      else (True, d\<lparr>nd_preexecution_vial_refusals := nd_preexecution_vial_refusals d - {tag},
                    nd_finished := (nd_finished d)(tag := None)\<rparr>))"

definition emit_diagnostic :: "nat \<Rightarrow> string \<Rightarrow> bool \<Rightarrow> 'r native_delivery \<Rightarrow> 'r native_delivery \<times> string list" where
  "emit_diagnostic clock status succeeded d =
     (if sk_writer (nd_diagnostics d) = None then (d, [])
      else
        let r = build_record clock (gs_trace (nd_session d)) status (ds_detail (gs_state (nd_session d))) succeeded
                  (nd_submit_context d) (nd_context d)
        in case sink_record r (nd_diagnostics d) of (sk, warnings) \<Rightarrow> (d\<lparr>nd_diagnostics := sk\<rparr>, warnings))"

definition debug_tag :: "string option \<Rightarrow> string" where
  "debug_tag t = (case t of None \<Rightarrow> ''None'' | Some s \<Rightarrow> ''Some('' @ debug_str s @ '')'')"

text \<open>What makes a vial refusal one that came before any native call.\<close>

definition vial_refusal_untouched :: "string \<Rightarrow> grant_step \<Rightarrow> grant_trace \<Rightarrow> bool" where
  "vial_refusal_untouched tag step t \<longleftrightarrow>
     (case step of StepFailed status detail \<Rightarrow> is_absent_vial_refusal tag status detail | _ \<Rightarrow> False) \<and>
     \<not> tr_execution_evidence t \<and> tr_lane t = None \<and> tr_native_result t = None \<and> tr_readbacks t = []"

text \<open>The submission of a request that is not in flight yet.\<close>

definition start_request ::
  "descriptor_formula \<Rightarrow> native_grant_request \<Rightarrow> 'r native_delivery \<Rightarrow> string + 'r native_delivery" where
  "start_request fo q d =
     (if nd_current_tag d = Some (nq_tag q) then Inr d
      else if nd_current_tag d \<noteq> None then
        Inl (''native delivery is busy with '' @ debug_tag (nd_current_tag d) @ ''; refusing to start '' @
             debug_str (nq_tag q))
      else case into_command fo q of
        Inl e \<Rightarrow> Inl e
      | Inr c \<Rightarrow>
          (case submit c (nd_manual_trigger d) (nd_session d) of
             Inl e \<Rightarrow> Inl e
           | Inr s \<Rightarrow> Inr (d\<lparr>nd_session := s, nd_submit_context := nd_context d, nd_current_tag := Some (nq_tag q)\<rparr>)))"

text \<open>What a poll with this status does to the engine.\<close>

definition settle_step ::
  "nat \<Rightarrow> string \<Rightarrow> string \<Rightarrow> 'r native_delivery \<Rightarrow> grant_step \<times> 'r native_delivery \<times> string list" where
  "settle_step clock tag status d =
     (let step = classify status (gs_state (nd_session d))
      in if step = StepPending then (step, d, [])
         else
           case emit_diagnostic clock status (step = StepComplete) d of (d1, warnings) \<Rightarrow>
             let refusals = (if vial_refusal_untouched tag step (gs_trace (nd_session d1))
                             then insert tag (nd_preexecution_vial_refusals d1)
                             else nd_preexecution_vial_refusals d1)
             in (step, d1\<lparr>nd_preexecution_vial_refusals := refusals,
                          nd_finished := (nd_finished d1)(tag \<mapsto> step), nd_current_tag := None\<rparr>, warnings))"

definition grant_with_warning ::
  "descriptor_formula \<Rightarrow> policy \<Rightarrow> 'r runtime \<Rightarrow> nat \<Rightarrow> nat \<Rightarrow> native_grant_request \<Rightarrow> 'r native_delivery
     \<Rightarrow> ((string + grant_step) \<times> 'r native_delivery \<times> string list) option" where
  "grant_with_warning fo po rt now clock q d =
     (case nd_finished d (nq_tag q) of
        Some step \<Rightarrow> Some (Inr step, d, [])
      | None \<Rightarrow>
          (case start_request fo q d of
             Inl e \<Rightarrow> Some (Inl e, d, [])
           | Inr d1 \<Rightarrow>
               (case poll_at fo po rt now (nd_session d1) of
                  None \<Rightarrow> None
                | Some (status, s) \<Rightarrow>
                    (case settle_step clock (nq_tag q) status (d1\<lparr>nd_session := s\<rparr>) of
                       (step, d2, warnings) \<Rightarrow> Some (Inr step, d2, warnings)))))"

definition withdraw_stale :: "'r runtime \<Rightarrow> 'r native_delivery \<Rightarrow> bool \<times> 'r native_delivery" where
  "withdraw_stale rt d =
     (case withdraw_unwitnessed rt (nd_session d) of (withdrawn, s) \<Rightarrow>
        (withdrawn, d\<lparr>nd_session := s, nd_current_tag := (if withdrawn then None else nd_current_tag d)\<rparr>))"

definition retire_current :: "'r runtime \<Rightarrow> nat \<Rightarrow> string \<Rightarrow> string \<Rightarrow> 'r native_delivery \<Rightarrow> bool \<times> 'r native_delivery" where
  "retire_current rt clock tag reason d =
     (if nd_current_tag d \<noteq> Some tag then (False, d)
      else case withdraw_unwitnessed rt (nd_session d) of (withdrawn, s) \<Rightarrow>
        let d1 = d\<lparr>nd_session := retire_session (''tag='' @ tag @ '' best-effort grant retired: '' @ reason) s\<rparr>;
            d2 = fst (emit_diagnostic clock ''sustain_timeout'' False d1)
        in (withdrawn, d2\<lparr>nd_finished := (nd_finished d2)(tag \<mapsto> StepFailed ''sustain_timeout'' reason),
                          nd_current_tag := None\<rparr>))"

section \<open>The backend calls that reach the engine\<close>

definition ASSUMED_CONTEXT_STABLE_READS :: nat where "ASSUMED_CONTEXT_STABLE_READS = 3"

record assumed_context_gate =
  acg_identity :: string
  acg_consecutive_ready :: nat

definition assumed_gate_new :: "string \<Rightarrow> assumed_context_gate" where
  "assumed_gate_new identity = \<lparr>acg_identity = identity, acg_consecutive_ready = 0\<rparr>"

definition assumed_gate_observe :: "bool \<Rightarrow> assumed_context_gate \<Rightarrow> location_context \<times> assumed_context_gate" where
  "assumed_gate_observe ready g =
     (let g1 = g\<lparr>acg_consecutive_ready := (if ready then min (acg_consecutive_ready g + 1) 255 else 0)\<rparr>
      in (\<lparr>lc_save_identity = acg_identity g1,
           lc_gameplay_ready = (ASSUMED_CONTEXT_STABLE_READS \<le> acg_consecutive_ready g1)\<rparr>, g1))"

record 'r native_backend =
  nb_delivery :: "'r native_delivery"
  nb_absent_observations :: "nat \<rightharpoonup> nat"
  nb_last_context :: grant_context

definition native_observe_stack_quantity ::
  "policy \<Rightarrow> 'r runtime \<Rightarrow> nat \<Rightarrow> 'r native_backend \<Rightarrow> stack_observation \<times> 'r native_backend" where
  "native_observe_stack_quantity po rt normalized b =
     (case observe_stack rt normalized (nb_delivery b) of (found, d) \<Rightarrow>
        (case found of
           None \<Rightarrow> (NotReady, b\<lparr>nb_delivery := d\<rparr>)
         | Some stack \<Rightarrow>
             if sv_exists stack
             then (Quantity (sv_quantity stack),
                   b\<lparr>nb_delivery := d, nb_absent_observations := (nb_absent_observations b)(normalized := None)\<rparr>)
             else
               let seen = saturating_inc_u32 (case nb_absent_observations b normalized of None \<Rightarrow> 0 | Some n \<Rightarrow> n);
                   b1 = b\<lparr>nb_delivery := d, nb_absent_observations := (nb_absent_observations b)(normalized \<mapsto> seen)\<rparr>
               in if seen < po_min_absent_polls po then (NotReady, b1) else (Quantity (sv_quantity stack), b1)))"

text \<open>
  \<open>grant_item\<close> of a backend that may mutate the game. Category 255 is an event flag, written by the
  flag accessor (\<open>None\<close>: not armed yet); the captures of the probes only watch.
\<close>

definition native_grant_item ::
  "descriptor_formula \<Rightarrow> policy \<Rightarrow> 'r runtime \<Rightarrow> nat \<Rightarrow> nat \<Rightarrow>
     ('r native_backend \<Rightarrow> bb_error + (nat \<Rightarrow> bool \<Rightarrow> (bb_error + unit) \<times> 'r native_backend) option) \<Rightarrow>
     item_grant \<Rightarrow> 'r native_backend \<Rightarrow> ((bb_error + operation_progress) \<times> 'r native_backend) option" where
  "native_grant_item fo po rt now clock flags g b =
     (if ig_item_category g = 255 then
        (case flags b of
           Inl e \<Rightarrow> Some (Inl e, b)
         | Inr None \<Rightarrow> Some (Inr Pending, b)
         | Inr (Some write) \<Rightarrow>
             (case write (ig_normalized_item_id g) True of
                (Inl e, b1) \<Rightarrow> Some (Inl e, b1)
              | (Inr _, b1) \<Rightarrow> Some (Inr Complete, b1)))
      else
        let q = \<lparr>nq_tag = ig_tag g, nq_raw_descriptor = ig_raw_descriptor g,
                 nq_normalized_item_id = ig_normalized_item_id g, nq_item_category = ig_item_category g,
                 nq_quantity = ig_quantity g, nq_expected_before = Some (ig_expected_before g)\<rparr>
        in case grant_with_warning fo po rt now clock q (set_context (nb_last_context b) (nb_delivery b)) of
             None \<Rightarrow> None
           | Some (answer, d, warnings) \<Rightarrow>
               Some (case answer of
                       Inl e \<Rightarrow> Inl (Message e)
                     | Inr StepPending \<Rightarrow> Inr Pending
                     | Inr StepComplete \<Rightarrow> Inr Complete
                     | Inr (StepFailed status detail) \<Rightarrow>
                         Inl (Terminal \<lparr>gf_tag = ig_tag g, gf_status = status, gf_detail = detail\<rparr>),
                     b\<lparr>nb_delivery := d\<rparr>))"

end
