(* ===== verification/NativeRuns.thy ===== *)
theory NativeRuns
  imports NativeEngine
begin

text \<open>
  Runs of the delivery engine: requests of any tags in any order, polled at any time, withdrawals,
  retirements and releases, over a guest process that answers anything. A history keeps, for each
  tag, the native calls and answers of its latest submission.
\<close>

section \<open>What a poll keeps\<close>

definition command_tag :: "'r grant_session \<Rightarrow> string option" where
  "command_tag s = map_option gc_tag (gs_command s)"

definition lane_ok :: "'r logged grant_session \<Rightarrow> bool" where
  "lane_ok s \<longleftrightarrow> (tr_lane (gs_trace s) = None \<longrightarrow> calls (native_log s) = 0)"

definition mid :: "'r logged grant_session \<Rightarrow> 'r logged grant_session \<Rightarrow> bool" where
  "mid s t \<longleftrightarrow> command_tag t = command_tag s \<and> (lane_ok s \<longrightarrow> lane_ok t)"

definition kept :: "'r logged grant_session \<Rightarrow> string \<times> 'r logged grant_session \<Rightarrow> bool" where
  "kept s p \<longleftrightarrow> (case p of (r, t) \<Rightarrow> mid s t \<and> ds_status (gs_state t) = r \<and> (terminal_status r \<longrightarrow> \<not> gs_active t))"

lemma mid_refl [simp]: "mid s s"
  by (simp add: mid_def)

lemma mid_trans: "mid s t \<Longrightarrow> mid t u \<Longrightarrow> mid s u"
  by (auto simp: mid_def)

lemma kept_mid: "mid s t \<Longrightarrow> kept t p \<Longrightarrow> kept s p"
  by (auto simp: kept_def intro: mid_trans split: prod.splits)

lemma kept_finish: "kept s (finish st d s)"
  by (simp add: kept_def finish_def mid_def command_tag_def lane_ok_def)

lemma kept_report: "\<not> terminal_status st \<Longrightarrow> kept s (report st d s)"
  by (simp add: kept_def report_def mid_def command_tag_def lane_ok_def)

lemma mid_ask:
  assumes "ask f s = (a, s')" and "native_log s' = native_log s \<or> (\<exists>r. native_log s' = native_log s @ [Answer r])"
  shows "mid s s'"
  using ask_fields [OF assms(1)] assms(2) by (auto simp: mid_def command_tag_def lane_ok_def)

lemma mid_changes:
  "mid s (count_verify s)" "mid s (note_readback v s)" "mid s (note_result r v s)" "mid s (note_baseline e w s)"
  "mid s (s\<lparr>gs_storage_route := b\<rparr>)" "mid s (s\<lparr>gs_storage_retry_at := x\<rparr>)"
  "mid s (choose_baseline stackable c stack s)" "mid s (snd (absent_grace po stack s))"
  by (auto simp: mid_def command_tag_def lane_ok_def count_verify_def note_readback_def note_result_def
      note_baseline_def choose_baseline_def absent_grace_def record_readback_def Let_def)

lemma kept_instance: "kept s (verify_instance_insert po c result rec s)"
  unfolding verify_instance_insert_def Let_def
  by (auto intro: kept_finish kept_mid [OF mid_changes(1) kept_finish] kept_mid [OF mid_changes(1) kept_report])

lemma kept_again: "kept s (verify_again po c result actual wanted rec s)"
  unfolding verify_again_def Let_def
  by (auto intro: kept_mid [OF mid_changes(1) kept_finish] kept_mid [OF mid_changes(1) kept_report])

lemma kept_replan: "kept s (replan (spy_runtime rt) c result live s)"
  by (simp add: replan_def Let_def kept_def report_def mid_def command_tag_def lane_ok_def tell_def option.map_comp o_def
      native_log_def spy_runtime_def)

lemma kept_storage: "kept s (storage_refused (spy_runtime rt) now c result actual wanted s)"
  by (simp add: storage_refused_def Let_def kept_finish)
     (simp add: kept_def report_def mid_def command_tag_def lane_ok_def tell_def option.map_comp o_def
      native_log_def spy_runtime_def)

lemma kept_judge: "kept s (judge po (spy_runtime rt) now c result stack wanted rec s)"
  unfolding judge_def Let_def
  by (auto intro: kept_instance kept_again kept_replan kept_storage kept_finish)

lemma kept_start: "kept s (start_native fo (spy_runtime rt) c stackable delta wanted stack s)"
  by (simp add: start_native_def Let_def kept_def report_def mid_def command_tag_def lane_ok_def tell_def)

lemma kept_poll_active:
  assumes "poll_active po (spy_runtime rt) now c s = Some p"
  shows "kept s p"
proof -
  let ?rt = "spy_runtime rt"
  obtain done' s1 where a: "ask (rt_native_done ?rt) s = (done', s1)" by fastforce
  obtain result s2 where b: "ask (rt_native_result ?rt) s1 = (result, s2)" by fastforce
  obtain stack s3 where d: "ask (rt_find_stack ?rt (gc_normalized_id c)) s2 = (stack, s3)" by fastforce
  obtain rec s4 where e: "ask (rt_read_slot_record ?rt result) s3 = (rec, s4)" by fastforce
  have m1: "mid s s1" by (rule mid_ask [OF a]) (use quiet_ask(3) [OF a] spy_reads(5) in auto)
  have m2: "mid s1 s2" by (rule mid_ask [OF b]) (use result_ask [OF b] in auto)
  have m3: "mid s2 s3" by (rule mid_ask [OF d]) (use quiet_ask(3) [OF d] spy_reads(2) in auto)
  have m4: "mid s3 s4" by (rule mid_ask [OF e]) (use quiet_ask(3) [OF e] spy_reads(3) in auto)
  have m: "mid s (note_result result v s4)" for v
    by (rule mid_trans [OF m1 mid_trans [OF m2 mid_trans [OF m3 mid_trans [OF m4 mid_changes(3)]]]])
  from assms show ?thesis
    by (auto simp: poll_active_def a b d e split: if_splits option.splits
        intro: kept_mid [OF m1 kept_report] kept_mid [OF m kept_judge])
qed

lemma kept_dequeue: "kept s (dequeue fo po (spy_runtime rt) c stackable before' stack s)"
proof -
  let ?w = "saturating_add_u32 before' (gc_quantity c)"
  let ?over = "overflows fo c ?w (sv_exists stack \<and> stackable) s"
  define s2 where "s2 = (if stackable then note_baseline before' ?w (s\<lparr>gs_storage_route := ?over\<rparr>) else s\<lparr>gs_storage_route := ?over\<rparr>)"
  obtain pending s3 where q: "ask (rt_request_pending (spy_runtime rt)) s2 = (pending, s3)" by fastforce
  have m2: "mid s s2" by (auto simp: s2_def intro: mid_changes(5) mid_trans [OF mid_changes(5) mid_changes(4)])
  have m3: "mid s s3"
    by (rule mid_trans [OF m2 mid_ask [OF q]]) (use quiet_ask(3) [OF q] spy_reads(4) in auto)
  show ?thesis
    unfolding dequeue_def Let_def s2_def [symmetric] q prod.case
    by (auto intro: kept_mid [OF m2 kept_finish] kept_mid [OF mid_trans [OF m2 mid_changes(2)] kept_finish]
        kept_mid [OF m3 kept_report] kept_mid [OF m3 kept_start])
qed

lemma kept_poll_pending: "kept s (poll_pending fo po (spy_runtime rt) c s)"
proof -
  let ?rt = "spy_runtime rt"
  obtain ready s1 where a: "ask (rt_inventory_ready ?rt) s = (ready, s1)" by fastforce
  obtain found s2 where b: "ask (rt_find_stack ?rt (gc_normalized_id c)) s1 = (found, s2)" by fastforce
  have m1: "mid s s1" by (rule mid_ask [OF a]) (use quiet_ask(3) [OF a] spy_reads(1) in auto)
  have m2: "mid s s2"
    by (rule mid_trans [OF m1 mid_ask [OF b]]) (use quiet_ask(3) [OF b] spy_reads(2) in auto)
  show ?thesis
  proof (cases found)
    case None
    then show ?thesis
      by (auto simp: poll_pending_def a b intro: kept_mid [OF m1 kept_report] kept_mid [OF m2 kept_report])
  next
    case (Some stack)
    obtain proceed s3 where g: "absent_grace po stack s2 = (proceed, s3)" by fastforce
    have m3: "mid s s3" using mid_trans [OF m2 mid_changes(8) [of _ po stack]] g by simp
    from Some show ?thesis
      by (auto simp: poll_pending_def a b g Let_def
          intro: kept_mid [OF m1 kept_report] kept_mid [OF m3 kept_report]
            kept_mid [OF mid_trans [OF m3 mid_changes(7)] kept_dequeue])
  qed
qed

lemma kept_poll:
  assumes "poll_at fo po (spy_runtime rt) now s = Some p" and "gs_active s \<longrightarrow> \<not> is_terminal (gs_state s)"
  shows "kept s p"
proof -
  have stay: "\<not> gs_active s \<Longrightarrow> kept s (ds_status (gs_state s), s)"
    by (simp add: kept_def)
  from assms(1) show ?thesis
    by (auto simp: poll_at_def stay split: if_splits option.splits
        intro: kept_poll_active kept_poll_pending kept_mid [OF mid_changes(6) kept_poll_pending])
qed

section \<open>Runs\<close>

type_synonym 'r engine = "'r logged native_delivery"

type_synonym history = "string \<Rightarrow> native_event list"

definition engine_log :: "'r engine \<Rightarrow> native_event list" where
  "engine_log d = native_log (nd_session d)"

definition set_runtime :: "'r logged \<Rightarrow> 'r engine \<Rightarrow> 'r engine" where
  "set_runtime rl d = d\<lparr>nd_session := (nd_session d)\<lparr>gs_runtime := rl\<rparr>\<rparr>"

text \<open>The log of an engine with nothing in flight starts over.\<close>

definition fresh_log :: "'r engine \<Rightarrow> 'r engine" where
  "fresh_log d = (if nd_current_tag d = None then set_runtime (fst (gs_runtime (nd_session d)), []) d else d)"

definition note_history :: "native_grant_request \<Rightarrow> 'r engine \<Rightarrow> 'r engine \<Rightarrow> (string + grant_step) \<Rightarrow> history \<Rightarrow> history" where
  "note_history q d d' answer h =
     (if nd_finished d (nq_tag q) = None \<and> (\<exists>step. answer = Inr step) then h(nq_tag q := engine_log d') else h)"

text \<open>A withdrawal clears a request that has not run: the tag starts over.\<close>

definition withdrawn_history :: "bool \<Rightarrow> 'r engine \<Rightarrow> history \<Rightarrow> history" where
  "withdrawn_history withdrawn d h =
     (case nd_current_tag d of Some t \<Rightarrow> if withdrawn then h(t := []) else h | None \<Rightarrow> h)"

inductive engine_step ::
  "descriptor_formula \<Rightarrow> policy \<Rightarrow> 'r runtime \<Rightarrow> 'r engine \<times> history \<Rightarrow> 'r engine \<times> history \<Rightarrow> bool"
  for fo :: descriptor_formula and po :: policy and rt :: "'r runtime" where
  es_grant: "grant_with_warning fo po (spy_runtime rt) now clock q (fresh_log d) = Some (answer, d', warnings) \<Longrightarrow>
    engine_step fo po rt (d, h) (d', note_history q d d' answer h)"
| es_release: "release_preexecution_vial_refusal tag d = (released, d') \<Longrightarrow> engine_step fo po rt (d, h) (d', h)"
| es_withdraw: "withdraw_stale (spy_runtime rt) d = (withdrawn, d') \<Longrightarrow>
    engine_step fo po rt (d, h) (d', withdrawn_history withdrawn d h)"
| es_retire: "retire_current (spy_runtime rt) clock tag reason d = (withdrawn, d') \<Longrightarrow> engine_step fo po rt (d, h) (d', h)"
| es_observe: "observe_stack (spy_runtime rt) normalized d = (stack, d') \<Longrightarrow> engine_step fo po rt (d, h) (d', h)"
| es_context: "engine_step fo po rt (d, h) (set_context x d, h)"
| es_arm: "engine_step fo po rt (d, h) (arm_diagnostics sk d, h)"
| es_game: "engine_step fo po rt (d, h) (set_runtime (r, engine_log d) d, h)"

inductive engine_run ::
  "descriptor_formula \<Rightarrow> policy \<Rightarrow> 'r runtime \<Rightarrow> 'r engine \<times> history \<Rightarrow> bool"
  for fo :: descriptor_formula and po :: policy and rt :: "'r runtime" where
  er_start: "engine_run fo po rt (delivery_with_prior (r, []) prior, \<lambda>_. [])"
| er_step: "engine_run fo po rt x \<Longrightarrow> engine_step fo po rt x y \<Longrightarrow> engine_run fo po rt y"

text \<open>The invariant.\<close>

definition engine_ok :: "policy \<Rightarrow> 'r engine \<times> history \<Rightarrow> bool" where
  "engine_ok po x \<longleftrightarrow>
     (case x of (d, h) \<Rightarrow>
        let s = nd_session d
        in native_ok po s \<and> lane_ok s \<and>
           (case nd_current_tag d of
              None \<Rightarrow> \<not> gs_active s \<and> \<not> waiting s
            | Some t \<Rightarrow> command_tag s = Some t \<and> \<not> is_terminal (gs_state s) \<and> nd_finished d t = None \<and>
                        h t = native_log s) \<and>
           (\<forall>t \<in> nd_preexecution_vial_refusals d.
              h t = [] \<and> nd_finished d t = Some (StepFailed ''failed'' (absent_vial_detail t))) \<and>
           (\<forall>t. safe_calls True (h t) \<and> calls (h t) \<le> 5 \<and> answers (h t) \<le> verify_bound po * calls (h t)))"

lemma classify_pending: "classify status d = StepPending \<longleftrightarrow> \<not> terminal_status status"
  by (auto simp: classify_def terminal_status_def)

lemma emit_fields:
  assumes "emit_diagnostic clock status succeeded d = (d', w)"
  shows "nd_session d' = nd_session d" "nd_current_tag d' = nd_current_tag d" "nd_finished d' = nd_finished d"
    "nd_preexecution_vial_refusals d' = nd_preexecution_vial_refusals d"
  using assms by (auto simp: emit_diagnostic_def Let_def split: if_splits prod.splits)

lemma empty_log: "native_ok po s \<Longrightarrow> \<not> gs_active s \<Longrightarrow> calls (native_log s) = 0 \<Longrightarrow> native_log s = []"
proof -
  assume ok: "native_ok po s" "\<not> gs_active s" and none: "calls (native_log s) = 0"
  then have zero: "answers (native_log s) = 0" by (simp add: native_ok_def)
  have "length es = calls es + answers es" for es
    by (induction es) (auto simp: calls_def answers_def)
  with none zero show "native_log s = []" by (metis add_0 length_0_conv)
qed

text \<open>An engine with one tag in flight, and what its submission and its polls make of it.\<close>

definition in_flight :: "policy \<Rightarrow> string \<Rightarrow> 'r engine \<Rightarrow> bool" where
  "in_flight po t d \<longleftrightarrow>
     (let s = nd_session d
      in native_ok po s \<and> lane_ok s \<and> nd_current_tag d = Some t \<and> command_tag s = Some t \<and>
         \<not> is_terminal (gs_state s) \<and> nd_finished d t = None)"

lemma into_command_tag: "into_command fo q = Inr c \<Longrightarrow> gc_tag c = nq_tag q"
  by (auto simp: into_command_def Let_def split: if_splits)

lemma submit_in_flight:
  assumes "submit c manual s = Inr s'" and "native_log s = []"
  shows "native_ok po s'" "lane_ok s'" "command_tag s' = Some (gc_tag c)" "\<not> is_terminal (gs_state s')"
    "native_log s' = []"
proof -
  show "native_ok po s'" by (rule submit_ok [OF assms])
  show "lane_ok s'" "command_tag s' = Some (gc_tag c)" "\<not> is_terminal (gs_state s')" "native_log s' = []"
    using assms by (auto simp: submit_def lane_ok_def command_tag_def split: option.splits if_splits)
qed

lemma start_in_flight:
  assumes "engine_ok po (d, h)" and "nd_finished d (nq_tag q) = None"
    and "start_request fo q (fresh_log d) = Inr d1"
  shows "in_flight po (nq_tag q) d1 \<and> nd_finished d1 = nd_finished d \<and>
    nd_preexecution_vial_refusals d1 = nd_preexecution_vial_refusals d"
proof (cases "nd_current_tag d")
  case (Some t)
  with assms show ?thesis
    by (auto simp: start_request_def fresh_log_def engine_ok_def in_flight_def Let_def split: if_splits)
next
  case None
  then have log: "native_log (nd_session (fresh_log d)) = []"
    by (simp add: fresh_log_def set_runtime_def native_log_def)
  from assms(3) None obtain c s where c: "into_command fo q = Inr c"
    "submit c (nd_manual_trigger d) (nd_session (fresh_log d)) = Inr s"
    "d1 = (fresh_log d)\<lparr>nd_session := s, nd_submit_context := nd_context d, nd_current_tag := Some (nq_tag q)\<rparr>"
    by (auto simp: start_request_def fresh_log_def set_runtime_def split: if_splits sum.splits)
  show ?thesis
    using submit_in_flight(1) [OF c(2) log, of po] submit_in_flight(2-5) [OF c(2) log] into_command_tag [OF c(1)] assms(2)
    by (simp add: c(3) in_flight_def fresh_log_def None set_runtime_def)
qed

text \<open>What the settlement of one poll leaves.\<close>

lemma settle_step_ok:
  assumes "in_flight po t d" and poll: "poll_at fo po (spy_runtime rt) now (nd_session d) = Some (status, s)"
    and settle: "settle_step clock t status (d\<lparr>nd_session := s\<rparr>) = (step, d', w)"
  shows "native_ok po s \<and> lane_ok s \<and> nd_session d' = s \<and>
    (if step = StepPending
     then in_flight po t d' \<and> nd_finished d' = nd_finished d \<and>
          nd_preexecution_vial_refusals d' = nd_preexecution_vial_refusals d
     else \<not> gs_active s \<and> \<not> waiting s \<and> nd_current_tag d' = None \<and> nd_finished d' = (nd_finished d)(t \<mapsto> step) \<and>
          (nd_preexecution_vial_refusals d' = nd_preexecution_vial_refusals d \<or>
           nd_preexecution_vial_refusals d' = insert t (nd_preexecution_vial_refusals d) \<and> native_log s = [] \<and>
           step = StepFailed ''failed'' (absent_vial_detail t)))"
proof -
  have open': "gs_active (nd_session d) \<longrightarrow> \<not> is_terminal (gs_state (nd_session d))"
    and ok: "native_ok po (nd_session d)" and lane: "lane_ok (nd_session d)"
    using assms(1) by (simp_all add: in_flight_def Let_def)
  have k: "kept (nd_session d) (status, s)" by (rule kept_poll [OF poll open'])
  have ok': "native_ok po s" using poll_ok [OF ok, of fo rt now] poll by auto
  have lane': "lane_ok s" and tag: "command_tag s = command_tag (nd_session d)"
    and status: "ds_status (gs_state s) = status" and over: "terminal_status status \<Longrightarrow> \<not> gs_active s"
    using k lane by (auto simp: kept_def mid_def)
  show ?thesis
  proof (cases "terminal_status status")
    case False
    then have "step = StepPending" "d' = d\<lparr>nd_session := s\<rparr>"
      using settle by (auto simp: settle_step_def Let_def classify_pending split: if_splits prod.splits)
    with assms(1) ok' lane' tag status False show ?thesis
      by (simp add: in_flight_def Let_def is_terminal_def)
  next
    case True
    let ?step = "classify status (gs_state s)"
    obtain d1 w1 where e: "emit_diagnostic clock status (?step = StepComplete) (d\<lparr>nd_session := s\<rparr>) = (d1, w1)"
      by fastforce
    note f = emit_fields [OF e]
    have d': "step = ?step" "?step \<noteq> StepPending"
      "d' = d1\<lparr>nd_preexecution_vial_refusals := (if vial_refusal_untouched t ?step (gs_trace s)
               then insert t (nd_preexecution_vial_refusals d) else nd_preexecution_vial_refusals d),
             nd_finished := (nd_finished d)(t \<mapsto> ?step), nd_current_tag := None\<rparr>"
      using settle True f by (auto simp: settle_step_def Let_def e classify_pending split: if_splits)
    have idle: "\<not> gs_active s" "\<not> waiting s"
      using over True status by (simp_all add: waiting_def is_terminal_def)
    have untouched: "native_log s = []" "?step = StepFailed ''failed'' (absent_vial_detail t)"
      if "vial_refusal_untouched t ?step (gs_trace s)"
      using that lane' empty_log [OF ok' idle(1)]
      by (auto simp: vial_refusal_untouched_def lane_ok_def is_absent_vial_refusal_def split: grant_step.splits)
    show ?thesis
      using d' f ok' lane' idle untouched by auto
  qed
qed

section \<open>Every step keeps the invariant\<close>

lemma idle_engine:
  assumes "engine_ok po (d, h)" and "nd_current_tag d = None"
    and "native_ok po s" "lane_ok s" "\<not> gs_active s" "\<not> waiting s"
    and "nd_session d' = s" "nd_current_tag d' = None" "nd_finished d' = nd_finished d"
    "nd_preexecution_vial_refusals d' = nd_preexecution_vial_refusals d"
  shows "engine_ok po (d', h)"
  using assms by (simp add: engine_ok_def Let_def)

lemma fresh_ok:
  assumes "engine_ok po (d, h)"
  shows "engine_ok po (fresh_log d, h)"
proof (cases "nd_current_tag d")
  case None
  let ?s = "(nd_session d)\<lparr>gs_runtime := (fst (gs_runtime (nd_session d)), [])\<rparr>"
  have s: "native_ok po ?s" "lane_ok ?s" "\<not> gs_active ?s" "\<not> waiting ?s"
    using assms None by (auto simp: engine_ok_def Let_def native_ok_def waiting_def lane_ok_def)
  show ?thesis
    by (rule idle_engine [OF assms None s]) (simp_all add: fresh_log_def None set_runtime_def)
next
  case (Some t)
  with assms show ?thesis by (simp add: fresh_log_def)
qed

lemma history_bounds:
  "native_ok po s \<Longrightarrow> \<forall>t. safe_calls True (h t) \<and> calls (h t) \<le> 5 \<and> answers (h t) \<le> verify_bound po * calls (h t) \<Longrightarrow>
   \<forall>t. safe_calls True ((h(u := native_log s)) t) \<and> calls ((h(u := native_log s)) t) \<le> 5 \<and>
     answers ((h(u := native_log s)) t) \<le> verify_bound po * calls ((h(u := native_log s)) t)"
  using native_ok_bounds by auto

lemma grant_ok:
  assumes ok: "engine_ok po (d, h)"
    and grant: "grant_with_warning fo po (spy_runtime rt) now clock q (fresh_log d) = Some (answer, d', w)"
  shows "engine_ok po (d', note_history q d d' answer h)"
proof -
  have fin: "nd_finished (fresh_log d) = nd_finished d" by (simp add: fresh_log_def set_runtime_def)
  show ?thesis
  proof (cases "nd_finished d (nq_tag q)")
    case (Some step)
    with grant fin fresh_ok [OF ok] show ?thesis by (auto simp: grant_with_warning_def note_history_def)
  next
    case None
    show ?thesis
    proof (cases "start_request fo q (fresh_log d)")
      case (Inl e)
      with grant fin None fresh_ok [OF ok] show ?thesis by (auto simp: grant_with_warning_def note_history_def)
    next
      case (Inr d1)
      note start = start_in_flight [OF ok None Inr]
      obtain status s where p: "poll_at fo po (spy_runtime rt) now (nd_session d1) = Some (status, s)"
        using grant fin None Inr by (auto simp: grant_with_warning_def split: option.splits)
      obtain step where st: "settle_step clock (nq_tag q) status (d1\<lparr>nd_session := s\<rparr>) = (step, d', w)" "answer = Inr step"
        using grant fin None Inr p by (auto simp: grant_with_warning_def split: prod.splits)
      note done' = settle_step_ok [OF conjunct1 [OF start] p st(1)]
      have h': "note_history q d d' answer h = h(nq_tag q := native_log s)"
        using None st(2) done' by (simp add: note_history_def engine_log_def)
      have old: "\<forall>t \<in> nd_preexecution_vial_refusals d. t \<noteq> nq_tag q \<and> h t = [] \<and>
          nd_finished d t = Some (StepFailed ''failed'' (absent_vial_detail t))"
        using ok None by (auto simp: engine_ok_def Let_def)
      show ?thesis
        unfolding h' using done' start old history_bounds [of po s h "nq_tag q"] ok
        by (auto simp: engine_ok_def Let_def in_flight_def split: if_splits)
    qed
  qed
qed

lemma release_ok:
  assumes "engine_ok po (d, h)" and "release_preexecution_vial_refusal tag d = (released, d')"
  shows "engine_ok po (d', h)"
  using assms by (auto simp: release_preexecution_vial_refusal_def engine_ok_def Let_def split: if_splits)

lemma asked_session:
  assumes "native_ok po s" "lane_ok s" and "ask f s = (a, s')" and "native_log (snd (ask f s)) = native_log s"
  shows "native_ok po s' \<and> lane_ok s' \<and> command_tag s' = command_tag s \<and> gs_active s' = gs_active s \<and>
    waiting s' = waiting s \<and> gs_state s' = gs_state s \<and> native_log s' = native_log s"
  using assms quiet_ask [OF assms(3,4)] ask_fields [OF assms(3)] by (simp add: lane_ok_def command_tag_def)

lemma same_session:
  assumes "engine_ok po (d, h)"
    and "native_ok po s \<and> lane_ok s \<and> command_tag s = command_tag (nd_session d) \<and>
      gs_active s = gs_active (nd_session d) \<and> waiting s = waiting (nd_session d) \<and>
      gs_state s = gs_state (nd_session d) \<and> native_log s = native_log (nd_session d)"
  shows "engine_ok po (d\<lparr>nd_session := s\<rparr>, h)"
  using assms by (auto simp: engine_ok_def Let_def split: option.splits)

lemma withdraw_cases:
  assumes "native_ok po s" "lane_ok s" and "withdraw_unwitnessed (spy_runtime rt) s = (withdrawn, s')"
  shows "native_ok po s' \<and> lane_ok s' \<and>
    (if withdrawn then \<not> gs_active s' \<and> gs_command s' = None
     else command_tag s' = command_tag s \<and> gs_active s' = gs_active s \<and> waiting s' = waiting s \<and>
       gs_state s' = gs_state s \<and> native_log s' = native_log s)"
proof -
  obtain pending s1 where a: "ask (rt_request_pending (spy_runtime rt)) s = (pending, s1)" by fastforce
  obtain completed s2 where b: "ask (rt_native_done (spy_runtime rt)) s1 = (completed, s2)" by fastforce
  note m1 = asked_session [OF assms(1,2) a spy_reads(4)]
  have m2: "native_ok po s2 \<and> lane_ok s2 \<and> command_tag s2 = command_tag s1 \<and> gs_active s2 = gs_active s1 \<and>
    waiting s2 = waiting s1 \<and> gs_state s2 = gs_state s1 \<and> native_log s2 = native_log s1"
    using asked_session [OF _ _ b spy_reads(5)] m1 by blast
  have ok: "native_ok po s'" using withdraw_ok [OF assms(1), of rt] assms(3) by simp
  show ?thesis
  proof (cases "\<not> pending \<or> completed")
    case True
    with assms(3) m1 m2 ok show ?thesis by (auto simp: withdraw_unwitnessed_def a b)
  next
    case False
    then have s': "withdrawn" "s' = snd (finish ''withdrawn'' ''unwitnessed native request cleared''
        ((tell (rt_clear_request (spy_runtime rt)) s2)\<lparr>gs_active := False, gs_command := None, gs_expected_before := None\<rparr>))"
      using assms(3) by (simp_all add: withdraw_unwitnessed_def a b Let_def)
    then have "lane_ok s'" "\<not> gs_active s'" "gs_command s' = None"
      using m2 by (auto simp: finish_def lane_ok_def tell_def native_log_def spy_runtime_def)
    with s' ok show ?thesis by simp
  qed
qed

lemma withdraw_stale_ok:
  assumes ok: "engine_ok po (d, h)" and w: "withdraw_stale (spy_runtime rt) d = (withdrawn, d')"
  shows "engine_ok po (d', withdrawn_history withdrawn d h)"
proof -
  obtain s where s: "withdraw_unwitnessed (spy_runtime rt) (nd_session d) = (withdrawn, s)"
    "d' = d\<lparr>nd_session := s, nd_current_tag := (if withdrawn then None else nd_current_tag d)\<rparr>"
    using w by (auto simp: withdraw_stale_def split: prod.splits)
  have k: "native_ok po (nd_session d)" "lane_ok (nd_session d)" using ok by (simp_all add: engine_ok_def Let_def)
  note c = withdraw_cases [OF k s(1)]
  show ?thesis
  proof (cases withdrawn)
    case True
    with c s(2) ok show ?thesis
      by (auto simp: engine_ok_def Let_def waiting_def withdrawn_history_def split: option.splits)
  next
    case False
    have "engine_ok po (d\<lparr>nd_session := s\<rparr>, h)"
      by (rule same_session [OF ok]) (use c False in simp)
    with False s(2) show ?thesis by (cases "nd_current_tag d") (simp_all add: withdrawn_history_def engine_ok_def Let_def)
  qed
qed

lemma retire_current_shape:
  assumes "retire_current rt clock tag reason d = (withdrawn, d')" and "nd_current_tag d = Some tag"
  shows "\<exists>s detail. withdraw_unwitnessed rt (nd_session d) = (withdrawn, s) \<and> nd_session d' = retire_session detail s \<and>
    nd_finished d' = (nd_finished d)(tag \<mapsto> StepFailed ''sustain_timeout'' reason) \<and> nd_current_tag d' = None \<and>
    nd_preexecution_vial_refusals d' = nd_preexecution_vial_refusals d"
proof -
  obtain w s where s: "withdraw_unwitnessed rt (nd_session d) = (w, s)" by fastforce
  define detail where "detail = ''tag='' @ tag @ '' best-effort grant retired: '' @ reason"
  obtain d2 w2 where e: "emit_diagnostic clock ''sustain_timeout'' False (d\<lparr>nd_session := retire_session detail s\<rparr>) = (d2, w2)"
    by fastforce
  note f = emit_fields [OF e]
  have "w = withdrawn" "d' = d2\<lparr>nd_finished := (nd_finished d2)(tag \<mapsto> StepFailed ''sustain_timeout'' reason), nd_current_tag := None\<rparr>"
    using assms e unfolding retire_current_def s detail_def by (simp_all add: Let_def)
  with s f show ?thesis by (intro exI [of _ s] exI [of _ detail]) simp
qed

lemma retire_current_ok:
  assumes ok: "engine_ok po (d, h)" and r: "retire_current (spy_runtime rt) clock tag reason d = (withdrawn, d')"
  shows "engine_ok po (d', h)"
proof (cases "nd_current_tag d = Some tag")
  case False
  with r ok show ?thesis by (simp add: retire_current_def)
next
  case True
  from retire_current_shape [OF r True] obtain s detail where
    s: "withdraw_unwitnessed (spy_runtime rt) (nd_session d) = (withdrawn, s)" and
    d': "nd_session d' = retire_session detail s" "nd_current_tag d' = None"
      "nd_finished d' = (nd_finished d)(tag \<mapsto> StepFailed ''sustain_timeout'' reason)"
      "nd_preexecution_vial_refusals d' = nd_preexecution_vial_refusals d" by blast
  have k: "native_ok po (nd_session d)" "lane_ok (nd_session d)" using ok by (simp_all add: engine_ok_def Let_def)
  note c = withdraw_cases [OF k s]
  have "native_ok po (retire_session detail s)" "lane_ok (retire_session detail s)"
    "\<not> gs_active (retire_session detail s)" "\<not> waiting (retire_session detail s)"
    using retire_ok [of po s] c by (auto simp: retire_session_def finish_def lane_ok_def waiting_def)
  with d' ok True show ?thesis
    by (auto simp: engine_ok_def Let_def)
qed

lemma observe_ok:
  assumes ok: "engine_ok po (d, h)" and r: "observe_stack (spy_runtime rt) normalized d = (stack, d')"
  shows "engine_ok po (d', h)"
proof -
  obtain ready s1 where a: "ask (rt_inventory_ready (spy_runtime rt)) (nd_session d) = (ready, s1)" by fastforce
  obtain found s2 where b: "ask (rt_find_stack (spy_runtime rt) normalized) s1 = (found, s2)" by fastforce
  have k: "native_ok po (nd_session d)" "lane_ok (nd_session d)" using ok by (simp_all add: engine_ok_def Let_def)
  note m1 = asked_session [OF k a spy_reads(1)]
  have m2: "native_ok po s2 \<and> lane_ok s2 \<and> command_tag s2 = command_tag s1 \<and> gs_active s2 = gs_active s1 \<and>
    waiting s2 = waiting s1 \<and> gs_state s2 = gs_state s1 \<and> native_log s2 = native_log s1"
    using asked_session [OF _ _ b spy_reads(2)] m1 by blast
  from r show ?thesis
    using same_session [OF ok m1] same_session [OF ok, of s2] m1 m2
    by (auto simp: observe_stack_def a b split: if_splits)
qed

lemma context_ok: "engine_ok po (d, h) \<Longrightarrow> engine_ok po (set_context x d, h)"
  by (simp add: engine_ok_def Let_def set_context_def split: option.splits)

lemma arm_ok: "engine_ok po (d, h) \<Longrightarrow> engine_ok po (arm_diagnostics sk d, h)"
  by (simp add: engine_ok_def Let_def arm_diagnostics_def split: option.splits)

lemma engine_step_ok: "engine_step fo po rt x y \<Longrightarrow> engine_ok po x \<Longrightarrow> engine_ok po y"
proof (induction rule: engine_step.induct)
  case (es_game d h r)
  have k: "native_ok po (nd_session d)" "lane_ok (nd_session d)" using es_game by (simp_all add: engine_ok_def Let_def)
  have "engine_ok po (d\<lparr>nd_session := (nd_session d)\<lparr>gs_runtime := (r, engine_log d)\<rparr>\<rparr>, h)"
    by (rule same_session [OF es_game])
       (use k in \<open>simp add: native_ok_def lane_ok_def command_tag_def waiting_def engine_log_def\<close>)
  then show ?case by (simp add: set_runtime_def)
qed (auto intro: grant_ok release_ok withdraw_stale_ok retire_current_ok observe_ok context_ok arm_ok)

lemma start_engine_ok: "engine_ok po (delivery_with_prior (r, []) prior, \<lambda>_. [])"
  by (simp add: engine_ok_def delivery_with_prior_def session_with_prior_def native_ok_def lane_ok_def waiting_def
      native_log_def STORAGE_RETRY_LIMIT_def)

lemma engine_run_ok: "engine_run fo po rt x \<Longrightarrow> engine_ok po x"
  by (induction rule: engine_run.induct) (auto intro: start_engine_ok engine_step_ok)

text \<open>A grant never panics, and an idle engine takes every valid request.\<close>

lemma grant_answers:
  assumes "engine_ok po (d, h)"
  shows "\<exists>answer d' w. grant_with_warning fo po (spy_runtime rt) now clock q (fresh_log d) = Some (answer, d', w) \<and>
    (nd_current_tag d = None \<and> into_command fo q = Inr c \<and> validate_command c = None \<longrightarrow> (\<exists>step. answer = Inr step))"
proof -
  have fin: "nd_finished (fresh_log d) = nd_finished d" by (simp add: fresh_log_def set_runtime_def)
  show ?thesis
  proof (cases "nd_finished d (nq_tag q)")
    case (Some step)
    then show ?thesis by (simp add: grant_with_warning_def fin)
  next
    case None
    show ?thesis
    proof (cases "start_request fo q (fresh_log d)")
      case (Inl e)
      have "False" if "nd_current_tag d = None" "into_command fo q = Inr c" "validate_command c = None"
        using Inl that assms by (auto simp: start_request_def fresh_log_def set_runtime_def submit_def engine_ok_def Let_def)
      with None Inl show ?thesis by (auto simp: grant_with_warning_def fin)
    next
      case (Inr d1)
      note start = start_in_flight [OF assms None Inr]
      then have "native_ok po (nd_session d1)" by (simp add: in_flight_def Let_def)
      from poll_ok [OF this, of fo rt now] obtain status s
        where p: "poll_at fo po (spy_runtime rt) now (nd_session d1) = Some (status, s)" by auto
      with None Inr show ?thesis by (auto simp: grant_with_warning_def fin split: prod.splits)
    qed
  qed
qed

text \<open>A verdict stands, and its tag is never called for again.\<close>

lemma verdict_stands:
  assumes "engine_ok po (d, h)" and step: "engine_step fo po rt (d, h) (d', h')" and fin: "nd_finished d t = Some v"
  shows "(nd_finished d' t = Some v \<or> nd_finished d' t = None \<and> h t = [] \<and> v = StepFailed ''failed'' (absent_vial_detail t)) \<and>
    h' t = h t"
  using step
proof (cases rule: engine_step.cases)
  case (es_grant now clock q answer warnings)
  have keep: "nd_finished (fresh_log d) = nd_finished d" by (simp add: fresh_log_def set_runtime_def)
  have "nd_finished d' t = Some v"
  proof (cases "nd_finished d (nq_tag q)")
    case (Some w)
    with es_grant keep fin show ?thesis by (auto simp: grant_with_warning_def)
  next
    case None
    show ?thesis
    proof (cases "start_request fo q (fresh_log d)")
      case (Inl e)
      with es_grant keep fin None show ?thesis by (auto simp: grant_with_warning_def)
    next
      case (Inr d1)
      note start = start_in_flight [OF assms(1) None Inr]
      obtain status s where p: "poll_at fo po (spy_runtime rt) now (nd_session d1) = Some (status, s)"
        using es_grant keep None Inr by (auto simp: grant_with_warning_def split: option.splits)
      obtain stp where st: "settle_step clock (nq_tag q) status (d1\<lparr>nd_session := s\<rparr>) = (stp, d', warnings)"
        using es_grant keep None Inr p by (auto simp: grant_with_warning_def split: prod.splits)
      from settle_step_ok [OF conjunct1 [OF start] p st] start fin None show ?thesis by (auto split: if_splits)
    qed
  qed
  moreover have "h' t = h t" using es_grant fin by (auto simp: note_history_def)
  ultimately show ?thesis by simp
next
  case (es_release tag released)
  with assms(1) fin show ?thesis
    by (auto simp: release_preexecution_vial_refusal_def engine_ok_def Let_def split: if_splits)
next
  case (es_withdraw withdrawn)
  have "nd_current_tag d \<noteq> Some t" using assms(1) fin by (auto simp: engine_ok_def Let_def)
  with es_withdraw fin show ?thesis
    by (auto simp: withdraw_stale_def withdrawn_history_def split: prod.splits option.splits)
next
  case (es_retire clock tag reason withdrawn)
  have "nd_current_tag d \<noteq> Some t" using assms(1) fin by (auto simp: engine_ok_def Let_def)
  with es_retire fin show ?thesis
    using retire_current_shape [of "spy_runtime rt" clock tag reason d withdrawn d']
    by (cases "nd_current_tag d = Some tag") (auto simp: retire_current_def)
next
  case (es_observe normalized stack)
  with fin show ?thesis by (auto simp: observe_stack_def split: prod.splits if_splits)
qed (use fin in \<open>simp_all add: set_context_def arm_diagnostics_def set_runtime_def\<close>)

end
