(* ===== verification/NativeClaims.thy ===== *)
theory NativeClaims
  imports NativeReplay NativeRuns
begin

unbundle bit_operations_syntax

text \<open>
  The properties of the native delivery path, each with a concrete instance: the descriptor formula
  and the policy of the vendored contract over a small game.
\<close>

section \<open>A concrete game\<close>

definition demo_formula :: descriptor_formula where
  "demo_formula = \<lparr>df_size = 24, df_staged_size = 32, df_goods_raw_prefix = 0xB0000000,
     df_goods_normalized_prefix = 0x40000000, df_persistent_source_marker = 0x80000000\<rparr>"

definition demo_policy :: policy where
  "demo_policy = \<lparr>po_absent_blood_vial_allowed = False, po_verify_polls = 2, po_hydration_verify_polls = 4,
     po_min_absent_polls = 2\<rparr>"

text \<open>Two bullets against a recorded baseline of three.\<close>

definition demo_request :: native_grant_request where
  "demo_request = \<lparr>nq_tag = ''ap_7'', nq_raw_descriptor = 0xB0000384, nq_normalized_item_id = 0x40000384,
     nq_item_category = 4, nq_quantity = 2, nq_expected_before = Some 3\<rparr>"

definition demo_command :: grant_command where
  "demo_command = \<lparr>gc_raw_id = 0xB0000384, gc_normalized_id = 0x40000384, gc_quantity = 2, gc_tag = ''ap_7'',
     gc_expected_before = Some 3\<rparr>"

definition demo_game :: "nat \<Rightarrow> cave_game" where
  "demo_game n = \<lparr>cg_stack = n, cg_hydrated = True, cg_address = Some 4096, cg_records = (\<lambda>_. absent_record),
     cg_request = None, cg_done = False, cg_result = EMPTY_SLOT, cg_held = 0, cg_elsewhere = 0, cg_starts = 1,
     cg_moved = False\<rparr>"

lemma demo_into_command: "into_command demo_formula demo_request = Inr demo_command"
  by code_simp

lemma demo_valid: "validate_command demo_command = None"
  by code_simp


section \<open>Descriptors\<close>

text \<open>
  A request that passes the validation of \<open>into_command\<close> carries its declared category in its
  descriptor pair: the category that the delivery machine derives from the two ids, and with it the
  choice between adding to a stack and inserting an instance, is the one the request declared. The
  prefix of goods has to differ from the two instance prefixes, which the contract guarantees.
\<close>

theorem derived_category_is_declared:
  assumes "into_command fo q = Inr c" and "df_goods_normalized_prefix fo \<notin> {0, 0x10000000}"
  shows "descriptor_category fo (command_descriptor c) = Some (nq_item_category q)"
  using assms
  by (auto simp: into_command_def descriptor_category_def command_descriptor_def Let_def CATEGORY_GOODS_def
      CATEGORY_EQUIPMENT_def CATEGORY_ARMOR_def split: if_splits)

theorem derived_category_is_declared_witness:
  "descriptor_category demo_formula (command_descriptor demo_command) = Some 4"
  using derived_category_is_declared [OF demo_into_command] by (simp add: demo_formula_def demo_request_def)

lemma le_bytes_inverse:
  assumes "v < 2 ^ 32"
  shows "from_le_bytes (le_bytes v) = v"
proof -
  have s1: "v = v mod 256 + 256 * (v div 256)" by simp
  have "v div 256 = (v div 256) mod 256 + 256 * (v div 256 div 256)" by simp
  then have s2: "v div 256 = (v div 256) mod 256 + 256 * (v div 65536)" by (simp add: div_mult2_eq [symmetric])
  have "v div 65536 = (v div 65536) mod 256 + 256 * (v div 65536 div 256)" by simp
  then have s3: "v div 65536 = (v div 65536) mod 256 + 256 * (v div 16777216)" by (simp add: div_mult2_eq [symmetric])
  have s4: "(v div 16777216) mod 256 = v div 16777216" using assms by simp
  show ?thesis
    unfolding from_le_bytes_def le_bytes_def using s1 s2 s3 s4 by simp
qed

text \<open>
  Staging a descriptor and reading it back gives the same pair: for 32-bit ids and a contract
  whose staged size holds the fields and at least the size the reader asks for, neither direction
  panics or fails.
\<close>

theorem descriptor_round_trip:
  assumes "gd_raw_id d < 2 ^ 32" "gd_normalized_id d < 2 ^ 32" "0x14 \<le> df_staged_size fo" "df_size fo \<le> df_staged_size fo"
  shows "\<exists>bytes. encode_descriptor fo d = Some bytes \<and> length bytes = df_staged_size fo \<and>
    decode_descriptor fo bytes = Some (Inr d)"
  using assms
  by (auto simp: encode_descriptor_def decode_descriptor_def Let_def le_bytes_def [THEN arg_cong [of _ _ length]]
      le_bytes_inverse)

theorem descriptor_round_trip_witness:
  "\<exists>bytes. encode_descriptor demo_formula \<lparr>gd_raw_id = 0xB0000384, gd_normalized_id = 0x40000384\<rparr> = Some bytes \<and>
     length bytes = 32 \<and> decode_descriptor demo_formula bytes = Some (Inr \<lparr>gd_raw_id = 0xB0000384, gd_normalized_id = 0x40000384\<rparr>)"
  using descriptor_round_trip [of "\<lparr>gd_raw_id = 0xB0000384, gd_normalized_id = 0x40000384\<rparr>" demo_formula]
  by (simp add: demo_formula_def)

section \<open>The delivery machine\<close>

text \<open>
  C23: A delivery completes on evidence only. When the judgement of a finished native call reports
  \<open>completed\<close>: an instance insert needs a result cell that is not the empty sentinel; a delta needs the
  held stack to have reached the expected total, so that a delta the game discarded is never counted;
  a stack insert needs the result cell, or the exact total (not on the storage route), or the written
  slot showing the item and its quantity.
\<close>

theorem completion_needs_evidence:
  assumes "judge po rt now c result stack wanted rec s = (''completed'', s')"
  shows "if gs_instance_insert s then result \<noteq> EMPTY_SLOT
    else if gs_delta_lane s then (\<exists>n \<ge> wanted. map_option sv_quantity stack = Some n)
    else result \<noteq> EMPTY_SLOT \<or> map_option sv_quantity stack = Some wanted \<and> \<not> gs_storage_route s \<or>
      (sr_normalized_id rec = Some (gc_normalized_id c) \<and> (\<exists>q \<ge> gc_quantity c. sr_quantity rec = Some q))"
  by (rule judge_completed [OF assms])

definition demo_delta :: "cave_game grant_session" where
  "demo_delta = (session_new (demo_game 5))\<lparr>gs_command := Some demo_command, gs_active := True, gs_delta_lane := True,
     gs_expected_before := Some 3\<rparr>"

definition demo_stack :: stack_view where
  "demo_stack = \<lparr>sv_quantity = 5, sv_exists = True, sv_slot = Some 7, sv_quantity_address = Some 4096\<rparr>"

theorem completion_needs_evidence_witness:
  "fst (judge demo_policy (cave_runtime 0x40000384) 0 demo_command 7 (Some demo_stack) 5 absent_record demo_delta) = ''completed'' \<and>
   (\<exists>n \<ge> 5. map_option sv_quantity (Some demo_stack) = Some n)"
proof -
  let ?j = "judge demo_policy (cave_runtime 0x40000384) 0 demo_command 7 (Some demo_stack) 5 absent_record demo_delta"
  have "fst ?j = ''completed''"
    by (simp add: judge_def Let_def demo_delta_def demo_stack_def slot_verified_def finish_def session_new_def
        session_with_prior_def)
  then have j: "?j = (''completed'', snd ?j)" by (metis prod.collapse)
  from completion_needs_evidence [OF j] \<open>fst ?j = ''completed''\<close> show ?thesis
    by (simp add: demo_delta_def session_new_def session_with_prior_def)
qed

text \<open>Polls at the given times until the machine is no longer waiting for a native call.\<close>

fun poll_while_active ::
  "descriptor_formula \<Rightarrow> policy \<Rightarrow> 'r runtime \<Rightarrow> nat list \<Rightarrow> 'r grant_session \<Rightarrow> 'r grant_session option" where
  "poll_while_active fo po rt [] s = Some s"
| "poll_while_active fo po rt (now # nows) s =
     (if \<not> gs_active s then Some s
      else case poll_at fo po rt now s of None \<Rightarrow> None | Some (_, s') \<Rightarrow> poll_while_active fo po rt nows s')"

definition verifying :: "policy \<Rightarrow> nat \<Rightarrow> 'r grant_session \<Rightarrow> bool" where
  "verifying po n s \<longleftrightarrow> gs_command s \<noteq> None \<and> gs_expected_before s \<noteq> None \<and> gs_verify_polls s < verify_bound po \<and>
     verify_bound po \<le> gs_verify_polls s + n"

lemma finish_inactive: "finish st d s = (r, s') \<Longrightarrow> \<not> gs_active s'"
  by (auto simp: finish_def)

lemma counted_progress:
  "verifying po (Suc n) s \<Longrightarrow> report st d (count_verify s) = (r, s') \<Longrightarrow> Suc (gs_verify_polls s) < verify_bound po \<Longrightarrow>
   verifying po n s'"
  by (auto simp: verifying_def report_def)

lemma instance_progress:
  "verifying po (Suc n) s \<Longrightarrow> verify_instance_insert po c result rec s = (r, s') \<Longrightarrow> gs_active s' \<Longrightarrow> verifying po n s'"
  by (auto simp: verify_instance_insert_def Let_def split: if_splits dest: finish_inactive
      intro: counted_progress verify_bound_ge)

lemma again_progress:
  "verifying po (Suc n) s \<Longrightarrow> verify_again po c result actual wanted rec s = (r, s') \<Longrightarrow> gs_active s' \<Longrightarrow> verifying po n s'"
  by (auto simp: verify_again_def Let_def split: if_splits dest: finish_inactive
      intro: counted_progress verify_bound_ge)

lemma given_up_inactive:
  "replan rt c result live s = (r, s') \<Longrightarrow> \<not> gs_active s'"
  "storage_refused rt now c result actual wanted s = (r, s') \<Longrightarrow> \<not> gs_active s'"
  by (auto simp: replan_def storage_refused_def Let_def report_def finish_def split: if_splits)

lemma judge_progress:
  assumes "verifying po (Suc n) s" and "judge po rt now c result stack wanted rec s = (r, s')" and "gs_active s'"
  shows "verifying po n s'"
  using assms(2,3) unfolding judge_def Let_def
  by (auto split: if_splits dest: finish_inactive given_up_inactive
      intro: instance_progress [OF assms(1)] again_progress [OF assms(1)])

lemma poll_progress:
  assumes "verifying po (Suc n) s" and "gs_active s" and "\<And>r. fst (rt_native_done rt r)"
  shows "\<exists>r s'. poll_at fo po rt now s = Some (r, s') \<and> (gs_active s' \<longrightarrow> verifying po n s')"
proof -
  obtain c where c: "gs_command s = Some c" using assms(1) by (auto simp: verifying_def)
  obtain s1 where d: "ask (rt_native_done rt) s = (True, s1)"
    using assms(3) [of "gs_runtime s"] by (cases "rt_native_done rt (gs_runtime s)") (auto simp: ask_def)
  obtain result s2 where q: "ask (rt_native_result rt) s1 = (result, s2)" by fastforce
  obtain stack s3 where t: "ask (rt_find_stack rt (gc_normalized_id c)) s2 = (stack, s3)" by fastforce
  obtain rec s4 where u: "ask (rt_read_slot_record rt result) s3 = (rec, s4)" by fastforce
  note f = ask_fields [OF d] ask_fields [OF q] ask_fields [OF t] ask_fields [OF u]
  obtain b where b: "gs_expected_before s3 = Some b" using assms(1) f by (auto simp: verifying_def)
  define v where "v = note_result result (map_option sv_quantity stack) s4"
  have v: "verifying po (Suc n) v"
    using assms(1) f by (simp add: v_def verifying_def note_result_def note_readback_def Let_def)
  obtain r s' where j: "judge po rt now c result stack (saturating_add_u32 b (gc_quantity c)) rec v = (r, s')" by fastforce
  have "poll_at fo po rt now s = Some (r, s')"
    using assms(2) c d q t u b j by (simp add: poll_at_def poll_active_def v_def)
  with judge_progress [OF v j] show ?thesis by blast
qed

lemma polls_settle:
  assumes "gs_active s \<longrightarrow> verifying po (length nows) s" and "\<And>r. fst (rt_native_done rt r)"
  shows "\<exists>s'. poll_while_active fo po rt nows s = Some s' \<and> \<not> gs_active s'"
  using assms(1)
proof (induction nows arbitrary: s)
  case Nil
  then show ?case by (auto simp: verifying_def)
next
  case (Cons now nows)
  show ?case
  proof (cases "gs_active s")
    case False
    then show ?thesis by simp
  next
    case True
    with Cons.prems have "verifying po (Suc (length nows)) s" by simp
    from poll_progress [OF this True assms(2), of fo now] obtain r s' where
      p: "poll_at fo po rt now s = Some (r, s')" "gs_active s' \<longrightarrow> verifying po (length nows) s'" by blast
    from Cons.IH [OF p(2)] True p(1) show ?thesis by simp
  qed
qed

text \<open>
  C24: The verification of a native call ends. Once the guest process reports the call as done, the
  machine leaves the active state, with a verdict or a new plan, within as many polls as the larger of
  its two verification budgets, whatever the inventory reads back.
\<close>

theorem verification_terminates:
  assumes "native_ok po s" and "gs_active s" and "\<And>r. fst (rt_native_done rt r)" and "verify_bound po \<le> length nows"
  shows "\<exists>s'. poll_while_active fo po rt nows s = Some s' \<and> \<not> gs_active s'"
  by (rule polls_settle) (use assms in \<open>auto simp: native_ok_def verifying_def\<close>)

text \<open>A runtime whose call is done and whose inventory never shows the item.\<close>

definition blind_runtime :: "unit logged runtime" where
  "blind_runtime = spy_runtime
     \<lparr>rt_target_weapon_level = Pair None, rt_inventory_ready = Pair True, rt_find_stack = (\<lambda>_. Pair None),
      rt_read_slot_record = (\<lambda>_. Pair absent_record), rt_request_pending = Pair False,
      rt_queue_native = (\<lambda>_ _ _ _ _ r. r), rt_native_done = Pair True, rt_native_result = Pair EMPTY_SLOT,
      rt_clear_request = (\<lambda>r. r)\<rparr>"

definition blind_session :: "unit logged grant_session" where
  "blind_session = (session_new ((), [Queued]))\<lparr>gs_command := Some demo_command, gs_active := True,
     gs_expected_before := Some 3, gs_replanned := True\<rparr>"

theorem verification_terminates_witness:
  "\<exists>s'. poll_while_active demo_formula demo_policy blind_runtime [0, 1, 2, 3] blind_session = Some s' \<and> \<not> gs_active s'"
proof (rule verification_terminates)
  show "native_ok demo_policy blind_session"
    by (simp add: native_ok_def blind_session_def session_new_def session_with_prior_def native_log_def waiting_def
        verify_bound_def demo_policy_def STORAGE_RETRY_LIMIT_def)
qed (simp_all add: blind_session_def blind_runtime_def spy_runtime_def pass_def verify_bound_def demo_policy_def split: prod.splits)

section \<open>Replay across crashes\<close>


definition demo_submitted :: "cave_game \<Rightarrow> cave_game grant_session" where
  "demo_submitted g = projr (submit demo_command False (session_new g))"

definition demo_polled :: "cave_game grant_session \<Rightarrow> string \<times> cave_game grant_session" where
  "demo_polled s = the (poll_at demo_formula demo_policy (cave_runtime 0x40000384) 0 s)"

definition demo_run :: "cave_answer \<Rightarrow> cave_game grant_session \<Rightarrow> cave_game grant_session" where
  "demo_run a s = s\<lparr>gs_runtime := run_cave a (gs_runtime s)\<rparr>"

definition demo_restart :: "cave_game grant_session \<Rightarrow> cave_game grant_session" where
  "demo_restart s = demo_submitted ((gs_runtime s)\<lparr>cg_starts := cg_starts (gs_runtime s) + 1\<rparr>)"

text \<open>Submit, poll, let the game answer, crash, submit again.\<close>

definition demo_restarted :: "cave_answer \<Rightarrow> cave_game grant_session" where
  "demo_restarted a = demo_restart (demo_run a (snd (demo_polled (demo_submitted (demo_game 3)))))"

lemma demo_submit: "submit demo_command manual (session_new g) = Inr (projr (submit demo_command manual (session_new g)))"
  by (simp add: submit_def demo_valid session_new_def session_with_prior_def)

abbreviation demo_replay :: "cave_game grant_session \<Rightarrow> bool" where
  "demo_replay \<equiv> replay_run demo_formula demo_policy 3 demo_command"

lemma demo_replay_start: "demo_replay (demo_submitted (demo_game 3))"
  unfolding demo_submitted_def by (rule rr_start [OF demo_submit]) (simp_all add: demo_game_def)

lemma demo_replay_poll:
  assumes "demo_replay s" and "poll_at demo_formula demo_policy (cave_runtime 0x40000384) 0 s \<noteq> None"
  shows "demo_replay (snd (demo_polled s))"
proof -
  obtain status s' where p: "poll_at demo_formula demo_policy (cave_runtime 0x40000384) 0 s = Some (status, s')"
    using assms(2) by auto
  have "gc_normalized_id demo_command = 0x40000384" by (simp add: demo_command_def)
  with p rr_poll [OF assms(1), of 0 status s'] show ?thesis by (simp add: demo_polled_def)
qed

lemma demo_replay_turns:
  "demo_replay s \<Longrightarrow> possible a \<Longrightarrow> demo_replay (demo_run a s)" "demo_replay s \<Longrightarrow> demo_replay (demo_restart s)"
  unfolding demo_run_def demo_restart_def demo_submitted_def
  by (rule rr_game) (assumption | rule rr_restart [OF _ demo_submit])+

lemma demo_replay_run: "possible a \<Longrightarrow> demo_replay (demo_restarted a)"
  unfolding demo_restarted_def
  by (intro demo_replay_turns demo_replay_poll demo_replay_start) code_simp



text \<open>
  The bound by the starts is reached: when the first call goes to the storage box and the client dies
  before it is acknowledged, the held stack still shows the baseline, so the restarted client calls
  again and the quantity has been granted twice.
\<close>

definition demo_doubled :: "cave_game grant_session" where
  "demo_doubled = demo_run (Applied 7) (snd (demo_polled (demo_restarted (Taken_Elsewhere 9))))"

lemma storage_replay_doubles:
  "demo_replay demo_doubled \<and> cg_held (gs_runtime demo_doubled) = 1 \<and> cg_elsewhere (gs_runtime demo_doubled) = 1 \<and>
   cg_starts (gs_runtime demo_doubled) = 2 \<and> \<not> cg_moved (gs_runtime demo_doubled)"
proof
  have "demo_replay (demo_restarted (Taken_Elsewhere 9))" by (rule demo_replay_run) (simp add: EMPTY_SLOT_def)
  then have "demo_replay (snd (demo_polled (demo_restarted (Taken_Elsewhere 9))))"
    by (rule demo_replay_poll) code_simp
  then show "demo_replay demo_doubled"
    unfolding demo_doubled_def by (rule demo_replay_turns(1)) (simp add: EMPTY_SLOT_def)
qed code_simp



section \<open>The engine\<close>

definition demo_start :: "cave_game engine" where
  "demo_start = delivery_with_prior (demo_game 9, []) durable_default"

text \<open>The stack holds nine where the ledger recorded three: the engine parks the grant.\<close>

definition demo_answer :: "((string + grant_step) \<times> cave_game engine \<times> string list) option" where
  "demo_answer = grant_with_warning demo_formula demo_policy (spy_runtime (cave_runtime 0x40000384)) 0 0 demo_request
     (fresh_log demo_start)"

definition demo_parked :: "cave_game engine" where
  "demo_parked = fst (snd (the demo_answer))"

definition demo_detail :: string where
  "demo_detail = ''tag=ap_7 expected_before=3 actual=9''"

lemma demo_answer_value: "fst (the demo_answer) = Inr (StepFailed ''quantity_mismatch'' demo_detail)"
  by code_simp

lemma demo_answer_some: "demo_answer = Some (fst (the demo_answer), demo_parked, snd (snd (the demo_answer)))"
proof -
  have "engine_ok demo_policy (demo_start, \<lambda>_. [])"
    unfolding demo_start_def by (rule start_engine_ok)
  from grant_answers [OF this, of demo_formula "cave_runtime 0x40000384" 0 0 demo_request demo_command]
  have "demo_answer \<noteq> None" by (auto simp: demo_answer_def)
  then show ?thesis by (simp add: demo_parked_def)
qed

lemma demo_parked_value: "nd_finished demo_parked ''ap_7'' = Some (StepFailed ''quantity_mismatch'' demo_detail)"
  by code_simp

text \<open>
  C25: The engine never panics and turns nothing away without a reason. In every state of a run a
  request gets an answer; when no tag is in flight, a request whose descriptor pair and command are
  valid is taken, so a finished, withdrawn or retired predecessor never leaves the machine busy.
\<close>

theorem engine_takes_valid_requests:
  assumes "engine_run fo po rt (d, h)"
  shows "\<exists>answer d' w. grant_with_warning fo po (spy_runtime rt) now clock q (fresh_log d) = Some (answer, d', w) \<and>
    (nd_current_tag d = None \<and> into_command fo q = Inr c \<and> validate_command c = None \<longrightarrow> (\<exists>step. answer = Inr step))"
  by (rule grant_answers [OF engine_run_ok [OF assms]])

theorem engine_takes_valid_requests_witness:
  "\<exists>step d' w. grant_with_warning demo_formula demo_policy (spy_runtime (cave_runtime 0x40000384)) 0 0 demo_request
     (fresh_log demo_start) = Some (Inr step, d', w)"
proof -
  have "engine_run demo_formula demo_policy (cave_runtime 0x40000384) (demo_start, \<lambda>_. [])"
    unfolding demo_start_def by (rule er_start)
  from engine_takes_valid_requests [OF this, of 0 0 demo_request demo_command] show ?thesis
    by (auto simp: demo_into_command demo_valid demo_start_def delivery_with_prior_def)
qed

definition demo_history :: history where
  "demo_history = note_history demo_request demo_start demo_parked (fst (the demo_answer)) (\<lambda>_. [])"

lemma demo_parked_run: "engine_run demo_formula demo_policy (cave_runtime 0x40000384) (demo_parked, demo_history)"
proof -
  have start: "engine_run demo_formula demo_policy (cave_runtime 0x40000384) (demo_start, \<lambda>_. [])"
    unfolding demo_start_def by (rule er_start)
  show ?thesis
    unfolding demo_history_def
    by (rule er_step [OF start es_grant]) (use demo_answer_some in \<open>simp add: demo_answer_def\<close>)
qed

text \<open>
  C14: The native calls of one submission are bounded. In every run of the engine, whatever the guest
  process answers and however requests, polls, withdrawals and retirements interleave, the calls made
  since a tag was last submitted are at most five, each follows an observed refusal of the one before
  it, and the completions read back are bounded by the verification budget of each call.
\<close>

theorem native_calls_bounded:
  assumes "engine_run fo po rt (d, h)"
  shows "safe_calls True (h t) \<and> calls (h t) \<le> 5 \<and> answers (h t) \<le> verify_bound po * calls (h t) \<and>
    (nd_current_tag d = Some t \<longrightarrow> h t = engine_log d)"
  using engine_run_ok [OF assms] by (auto simp: engine_ok_def engine_log_def Let_def)

theorem native_calls_bounded_witness:
  "engine_run demo_formula demo_policy (cave_runtime 0x40000384) (demo_parked, demo_history) \<and>
   calls (demo_history ''ap_7'') \<le> 5"
  using demo_parked_run native_calls_bounded [OF demo_parked_run] by blast

text \<open>
  C4: A verdict is final. Once the engine has answered a tag with a completion or a failure, no later
  step makes a native call for that tag or changes the verdict; the only verdict that can be forgotten,
  so that the tag may be granted again, is the refusal to insert an absent Blood Vial, and only when no
  native call was ever made for it.
\<close>

theorem verdict_is_final:
  assumes "engine_run fo po rt (d, h)" and "engine_step fo po rt (d, h) (d', h')" and "nd_finished d t = Some v"
  shows "h' t = h t \<and>
    (nd_finished d' t = Some v \<or>
     nd_finished d' t = None \<and> h t = [] \<and> v = StepFailed ''failed'' (absent_vial_detail t))"
  using verdict_stands [OF engine_run_ok [OF assms(1)] assms(2,3)] by blast

theorem verdict_is_final_witness:
  "nd_finished (snd (release_preexecution_vial_refusal ''ap_7'' demo_parked)) ''ap_7'' =
     Some (StepFailed ''quantity_mismatch'' demo_detail)"
proof -
  let ?r = "release_preexecution_vial_refusal ''ap_7'' demo_parked"
  have "engine_step demo_formula demo_policy (cave_runtime 0x40000384) (demo_parked, demo_history) (snd ?r, demo_history)"
    by (rule es_release [of "''ap_7''" _ "fst ?r"]) simp
  from verdict_is_final [OF demo_parked_run this demo_parked_value] show ?thesis by simp
qed

end
