(* ===== verification/ErUpgrades.thy ===== *)
theory ErUpgrades
  imports Codec
begin

unbundle bit_operations_syntax

text \<open>
  Weapon levels and the Scadutree blessing, \<open>crates/er-logic/src/upgrades.rs\<close>, with the material
  clamp of \<open>upgrade_cost.rs\<close>. Full ids are 32-bit words; rows, levels and counts are integers, a
  row that leaves 32 bits wraps when it is put back into the id. The rates of the blessing clone are
  floating point and left out.
\<close>

section \<open>Weapons\<close>

definition REINFORCE_STEP :: int where "REINFORCE_STEP = 100"
definition SOMBER_MATERIAL_SET :: int where "SOMBER_MATERIAL_SET = 2200"
definition SOMBER_CAP :: int where "SOMBER_CAP = 10"

definition classify_track :: "int \<Rightarrow> int \<Rightarrow> (int \<times> bool) option" where
  "classify_track run_cap material_set_id =
     (if run_cap \<le> 0 then None
      else if material_set_id = SOMBER_MATERIAL_SET then Some (min run_cap SOMBER_CAP, True)
      else Some (run_cap, False))"

definition decode_weapon_id :: "w32 \<Rightarrow> (int \<times> int) option" where
  "decode_weapon_id full_id =
     (if item_category_of full_id \<noteq> CATEGORY_WEAPON then None
      else
        let row = uint (full_id AND ROW_ID_MASK)
        in if \<not> (1000000 \<le> row \<and> row < 90000000) then None
           else Some (row - row mod REINFORCE_STEP, row mod REINFORCE_STEP))"

text \<open>What the code asks of the game behind \<open>GameHook\<close>.\<close>

record upgrade_hook =
  uh_in_world :: bool
  uh_weapon_track_and_cap :: "int \<Rightarrow> (int \<times> bool) option"
  uh_highest_held_level :: "bool \<Rightarrow> int option"

definition apply_auto_upgrade :: "upgrade_hook \<Rightarrow> bool \<Rightarrow> w32 \<Rightarrow> w32" where
  "apply_auto_upgrade hook on full_id =
     (if \<not> on \<or> \<not> uh_in_world hook then full_id
      else case decode_weapon_id full_id of
        None \<Rightarrow> full_id
      | Some (base, level) \<Rightarrow>
          (case uh_weapon_track_and_cap hook base of
             None \<Rightarrow> full_id
           | Some (cap, somber) \<Rightarrow>
               (case uh_highest_held_level hook somber of
                  None \<Rightarrow> full_id
                | Some target_raw \<Rightarrow>
                    let target = min target_raw cap
                    in if target \<le> level then full_id
                       else (full_id AND NOT ROW_ID_MASK) OR (word_of_int (base + target) AND ROW_ID_MASK))))"

section \<open>The Scadutree blessing\<close>

definition SCADU_MAX_LEVEL :: int where "SCADU_MAX_LEVEL = 20"

definition SCADU_CUM :: "int list" where
  "SCADU_CUM = [0, 1, 3, 5, 7, 9, 11, 13, 15, 17, 20, 23, 26, 29, 32, 35, 38, 41, 44, 47, 50]"

definition level_for_fragments :: "int \<Rightarrow> int" where
  "level_for_fragments frag_qty =
     (case find (\<lambda>l. SCADU_CUM ! l \<le> frag_qty) (rev [0..<21]) of Some l \<Rightarrow> int l | None \<Rightarrow> 0)"

definition SCADU_FRAGMENT_GOODS :: int where "SCADU_FRAGMENT_GOODS = 2010000"

definition fragment_units_for :: "int \<Rightarrow> (int \<rightharpoonup> int) \<Rightarrow> (int \<rightharpoonup> int) \<Rightarrow> int" where
  "fragment_units_for ap_item_id item_map item_counts =
     (case item_map ap_item_id of
        None \<Rightarrow> 0
      | Some full_id \<Rightarrow>
          if full_id AND 0x0FFFFFFF \<noteq> SCADU_FRAGMENT_GOODS then 0
          else min (max 1 (case item_counts ap_item_id of None \<Rightarrow> 1 | Some n \<Rightarrow> n)) (2 ^ 31 - 1))"

definition fragments_from_received :: "int list \<Rightarrow> (int \<rightharpoonup> int) \<Rightarrow> (int \<rightharpoonup> int) \<Rightarrow> int" where
  "fragments_from_received received item_map item_counts =
     (let total = foldl (\<lambda>total ap. total + fragment_units_for ap item_map item_counts) 0 received
      in min (max 0 total) (2 ^ 31 - 1))"

definition blessing_target :: "int \<Rightarrow> int \<Rightarrow> int \<Rightarrow> int option" where
  "blessing_target mode frag_qty floor' =
     (let clamp = (\<lambda>target. Some (min (max 0 target) SCADU_MAX_LEVEL))
      in if mode = 1 then clamp (level_for_fragments frag_qty)
         else if mode = 2 then clamp (max (level_for_fragments frag_qty) floor')
         else if mode = 3 then clamp floor'
         else None)"

definition applies_globally :: "int \<Rightarrow> bool" where
  "applies_globally mode \<longleftrightarrow> mode = 1 \<or> mode = 2"

definition lists_unsafe_to_touch :: "int \<Rightarrow> bool" where
  "lists_unsafe_to_touch player_hp \<longleftrightarrow> player_hp \<le> 0"

definition blessing_blocked_by_death :: "int \<Rightarrow> bool" where
  "blessing_blocked_by_death player_hp \<longleftrightarrow> lists_unsafe_to_touch player_hp"

definition blessing_toast :: "int \<Rightarrow> int \<Rightarrow> string option" where
  "blessing_toast announced target =
     (if target = announced then None
      else if announced < 0 then
        (if 0 < target then Some (''Scadutree Blessing +'' @ show_int target) else None)
      else if announced < target then Some (''Scadutree Blessing +'' @ show_int target)
      else if target \<le> 0 then Some (''Scadutree Blessing removed (was +'' @ show_int announced @ '')'')
      else Some (''Scadutree Blessing +'' @ show_int target @ '' (was +'' @ show_int announced @ '')''))"

definition apply_blessing_cap :: "int \<Rightarrow> int \<Rightarrow> int" where
  "apply_blessing_cap target cap =
     (let cap' = (if cap \<le> 0 then SCADU_MAX_LEVEL else cap)
      in min (max 0 target) (min cap' SCADU_MAX_LEVEL))"

text \<open>The stored blessing is \<open>None\<close> while the player data cannot be reached.\<close>

definition raise_stored_blessing :: "int option \<Rightarrow> int \<Rightarrow> (int \<times> int) option option \<times> int option" where
  "raise_stored_blessing stored level =
     (let target = min (max 0 level) SCADU_MAX_LEVEL
      in case stored of
           None \<Rightarrow> (None, None)
         | Some cur \<Rightarrow> if target \<le> cur then (Some None, Some cur) else (Some (Some (cur, target)), Some target))"

section \<open>Smithing stones\<close>

definition REGULAR_STONE_IDS :: "int list" where
  "REGULAR_STONE_IDS = [10100, 10101, 10102, 10103, 10104, 10105, 10106, 10107, 10140]"

definition MAX_CAP :: int where "MAX_CAP = 6"
definition SENTINEL :: int where "SENTINEL = -1"

definition is_regular_stone :: "int \<Rightarrow> bool" where
  "is_regular_stone id' \<longleftrightarrow> id' \<in> set REGULAR_STONE_IDS"

definition clamp_count :: "int \<Rightarrow> int \<Rightarrow> int \<Rightarrow> int option" where
  "clamp_count material_id cur cap =
     (if cap \<le> 0 \<or> MAX_CAP < cap then None
      else if is_regular_stone material_id \<and> cap < cur then Some cap
      else None)"

record flatten_latch =
  fl_cap :: int
  fl_applied_at :: int

definition flatten_default :: flatten_latch where
  "flatten_default = \<lparr>fl_cap = 0, fl_applied_at = SENTINEL\<rparr>"

definition flatten_set :: "int \<Rightarrow> flatten_latch \<Rightarrow> flatten_latch" where
  "flatten_set cap l = l\<lparr>fl_cap := min (max 0 cap) MAX_CAP, fl_applied_at := SENTINEL\<rparr>"

definition should_apply :: "flatten_latch \<Rightarrow> bool" where
  "should_apply l \<longleftrightarrow> 0 < fl_cap l \<and> fl_applied_at l \<noteq> fl_cap l"

definition mark_applied :: "flatten_latch \<Rightarrow> flatten_latch" where
  "mark_applied l = l\<lparr>fl_applied_at := fl_cap l\<rparr>"

section \<open>Levels of a granted weapon\<close>

lemma row_mask: "ROW_ID_MASK = mask 28"
  by (simp add: ROW_ID_MASK_def mask_eq_exp_minus_1)

lemma row_of_word: "0 \<le> r \<Longrightarrow> r < 2 ^ 28 \<Longrightarrow> uint (word_of_int r AND ROW_ID_MASK) = r"
  by (simp add: row_mask take_bit_eq_mask [symmetric] unsigned_take_bit_eq uint_word_of_int_eq
      take_bit_int_eq_self)

lemma replaced_row:
  fixes x y :: w32
  shows "((x AND NOT ROW_ID_MASK) OR (y AND ROW_ID_MASK)) AND ROW_ID_MASK = y AND ROW_ID_MASK"
    and "((x AND NOT ROW_ID_MASK) OR (y AND ROW_ID_MASK)) AND CATEGORY_MASK = x AND CATEGORY_MASK"
proof -
  show "((x AND NOT ROW_ID_MASK) OR (y AND ROW_ID_MASK)) AND ROW_ID_MASK = y AND ROW_ID_MASK"
    by (rule bit_eqI) (auto simp: bit_simps)
  have m: "CATEGORY_MASK = NOT ROW_ID_MASK" by (simp add: CATEGORY_MASK_def ROW_ID_MASK_def)
  show "((x AND NOT ROW_ID_MASK) OR (y AND ROW_ID_MASK)) AND CATEGORY_MASK = x AND CATEGORY_MASK"
    unfolding m by (rule bit_eqI) (auto simp: bit_simps)
qed

lemma decode_base:
  assumes "decode_weapon_id q = Some (base, level)"
  shows "item_category_of q = CATEGORY_WEAPON" "0 \<le> level" "level < 100" "base mod 100 = 0" "1000000 \<le> base" "base + 100 \<le> 90000000"
proof -
  show "item_category_of q = CATEGORY_WEAPON" "0 \<le> level" "level < 100"
    using assms by (auto simp: decode_weapon_id_def Let_def REINFORCE_STEP_def split: if_splits)
  define row where "row = uint (q AND ROW_ID_MASK)"
  have r: "base = row - row mod 100" "1000000 \<le> row" "row < 90000000"
    using assms by (auto simp: decode_weapon_id_def Let_def REINFORCE_STEP_def row_def split: if_splits)
  show "base mod 100 = 0" by (simp add: r(1) mod_diff_left_eq)
  show "1000000 \<le> base" "base + 100 \<le> 90000000" unfolding r(1) using r(2,3) by presburger+
qed

text \<open>Where the upgrade decides to write, the id decodes to the chosen level.\<close>

lemma decode_replaced:
  assumes "decode_weapon_id q = Some (base, level)" and "0 \<le> t" "t < 100"
  shows "decode_weapon_id ((q AND NOT ROW_ID_MASK) OR (word_of_int (base + t) AND ROW_ID_MASK)) = Some (base, t)"
proof -
  let ?q = "(q AND NOT ROW_ID_MASK) OR (word_of_int (base + t) AND ROW_ID_MASK)"
  note b = decode_base [OF assms(1)]
  have row: "uint (?q AND ROW_ID_MASK) = base + t"
    unfolding replaced_row(1) by (rule row_of_word) (use b assms in simp_all)
  have cat: "item_category_of ?q = CATEGORY_WEAPON"
    using b(1) unfolding item_category_of_def replaced_row(2) .
  have m: "(base + t) mod 100 = t" using b(4) assms(2,3) by (metis add.commute add_0 mod_add_eq mod_pos_pos_trivial mod_mod_trivial)
  show ?thesis
    unfolding decode_weapon_id_def using row cat m b assms by (simp add: Let_def REINFORCE_STEP_def)
qed

lemma level_find:
  assumes "0 \<le> frag"
  shows "\<exists>l \<le> 20. level_for_fragments frag = int l \<and> SCADU_CUM ! l \<le> frag \<and> (l < 20 \<longrightarrow> frag < SCADU_CUM ! Suc l)"
proof -
  have rev: "rev [0..<21] = [20,19,18,17,16,15,14,13,12,11,10,9,8,7,6,5,4,3,2,1,0::nat]"
    by (simp add: upt_rec)
  show ?thesis
    unfolding level_for_fragments_def rev using assms
    by (simp add: SCADU_CUM_def)
qed

text \<open>
  A granted weapon is raised exactly to the player's level. When the upgrade is on, in the world,
  for a weapon with a reinforcement track whose cap has two digits and a held weapon on that track, the
  id that is granted keeps its category and its base weapon and carries the larger of its own level and
  the highest held level clamped to the cap: never lower than it was sent, never above the cap unless
  it was sent so, and granting the result again changes nothing.
\<close>

theorem auto_upgrade_levels:
  assumes "decode_weapon_id q = Some (base, level)" and "uh_in_world hook"
    and "uh_weapon_track_and_cap hook base = Some (cap, somber)" and "uh_highest_held_level hook somber = Some held"
    and "cap < 100"
  shows "decode_weapon_id (apply_auto_upgrade hook True q) = Some (base, max level (min held cap)) \<and>
    apply_auto_upgrade hook True (apply_auto_upgrade hook True q) = apply_auto_upgrade hook True q"
proof (cases "min held cap \<le> level")
  case True
  then have "apply_auto_upgrade hook True q = q" using assms by (simp add: apply_auto_upgrade_def Let_def)
  with True assms(1) show ?thesis by (auto simp: max_def)
next
  case False
  let ?t = "min held cap"
  have up: "apply_auto_upgrade hook True q = (q AND NOT ROW_ID_MASK) OR (word_of_int (base + ?t) AND ROW_ID_MASK)"
    using False assms by (simp add: apply_auto_upgrade_def Let_def)
  have dec: "decode_weapon_id (apply_auto_upgrade hook True q) = Some (base, ?t)"
    unfolding up by (rule decode_replaced [OF assms(1)]) (use False decode_base(2) [OF assms(1)] assms(5) in auto)
  have "apply_auto_upgrade hook True (apply_auto_upgrade hook True q) = apply_auto_upgrade hook True q"
    unfolding apply_auto_upgrade_def [of hook True "apply_auto_upgrade hook True q"] using dec assms by (simp add: Let_def)
  with dec False show ?thesis by (auto simp: max_def)
qed

definition demo_hook :: upgrade_hook where
  "demo_hook = \<lparr>uh_in_world = True, uh_weapon_track_and_cap = (\<lambda>_. Some (25, False)), uh_highest_held_level = (\<lambda>_. Some 12)\<rparr>"

theorem auto_upgrade_levels_witness:
  "decode_weapon_id (apply_auto_upgrade demo_hook True 1000003) = Some (1000000, 12)"
proof -
  have "decode_weapon_id 1000003 = Some (1000000, 3)" by code_simp
  from auto_upgrade_levels [OF this, of demo_hook 25 False 12] show ?thesis by (simp add: demo_hook_def)
qed

section \<open>The blessing follows the received fragments\<close>

lemma units_nonneg: "0 \<le> fragment_units_for ap m n"
  by (auto simp: fragment_units_for_def split: option.splits)

lemma fold_units: "foldl (\<lambda>total ap. total + fragment_units_for ap m n) t xs = t + sum_list (map (\<lambda>ap. fragment_units_for ap m n) xs)"
  by (induction xs arbitrary: t) simp_all

lemma units_sum_nonneg: "0 \<le> sum_list (map (\<lambda>ap. fragment_units_for ap m n) xs)"
  by (induction xs) (simp_all add: units_nonneg add_nonneg_nonneg)

lemma fragments_sum:
  "fragments_from_received xs m n = min (sum_list (map (\<lambda>ap. fragment_units_for ap m n) xs)) (2 ^ 31 - 1)"
  using units_sum_nonneg [of m n xs] by (simp add: fragments_from_received_def fold_units Let_def)

lemma cum_mono: "i \<le> j \<Longrightarrow> j \<le> 20 \<Longrightarrow> SCADU_CUM ! i \<le> SCADU_CUM ! j"
proof -
  have "sorted SCADU_CUM" "length SCADU_CUM = 21" by (simp_all add: SCADU_CUM_def)
  then show "i \<le> j \<Longrightarrow> j \<le> 20 \<Longrightarrow> SCADU_CUM ! i \<le> SCADU_CUM ! j" by (intro sorted_nth_mono) simp_all
qed

lemma level_reference:
  assumes "0 \<le> frag"
  shows "level_for_fragments frag = int (Max {l. l \<le> 20 \<and> SCADU_CUM ! l \<le> frag})"
proof -
  from level_find [OF assms] obtain l where l: "l \<le> 20" "level_for_fragments frag = int l" "SCADU_CUM ! l \<le> frag"
    "l < 20 \<longrightarrow> frag < SCADU_CUM ! Suc l" by blast
  have "k \<le> l" if "k \<le> 20" "SCADU_CUM ! k \<le> frag" for k
  proof (rule ccontr)
    assume "\<not> k \<le> l"
    then have "SCADU_CUM ! Suc l \<le> SCADU_CUM ! k" using that by (intro cum_mono) simp_all
    with l that \<open>\<not> k \<le> l\<close> show False by simp
  qed
  then have "Max {l. l \<le> 20 \<and> SCADU_CUM ! l \<le> frag} = l"
    using l by (intro Max_eqI) auto
  with l(2) show ?thesis by simp
qed

lemma level_mono:
  assumes "0 \<le> a" "a \<le> b"
  shows "level_for_fragments a \<le> level_for_fragments b"
proof -
  have "0 \<le> b" using assms by simp
  have "Max {l. l \<le> 20 \<and> SCADU_CUM ! l \<le> a} \<le> Max {l. l \<le> 20 \<and> SCADU_CUM ! l \<le> b}"
    using assms by (intro Max_mono) (auto intro: exI [of _ 0] simp: SCADU_CUM_def)
  then show ?thesis unfolding level_reference [OF assms(1)] level_reference [OF \<open>0 \<le> b\<close>] by simp
qed

text \<open>
  The blessing follows the received fragments. The level is the highest step of the cumulative
  curve that the received fragments reach; it does not depend on the order in which the stream arrived
  and never falls while the stream grows; with the seed's cap applied it stays within 0 and 20, and
  writing it never lowers what the character already has.
\<close>

theorem blessing_follows_fragments:
  assumes "blessing_target mode (fragments_from_received xs m n) floor' = Some target" and "mode = 1 \<or> mode = 2"
  shows "level_for_fragments (fragments_from_received xs m n) =
      int (Max {l. l \<le> 20 \<and> SCADU_CUM ! l \<le> fragments_from_received xs m n}) \<and>
    (mset ys = mset xs \<longrightarrow> blessing_target mode (fragments_from_received ys m n) floor' = Some target) \<and>
    (\<exists>later. blessing_target mode (fragments_from_received (xs @ zs) m n) floor' = Some later \<and> target \<le> later) \<and>
    0 \<le> apply_blessing_cap target cap \<and> apply_blessing_cap target cap \<le> 20 \<and>
    snd (raise_stored_blessing (Some cur) (apply_blessing_cap target cap)) = Some (max cur (apply_blessing_cap target cap))"
proof -
  have nn: "0 \<le> fragments_from_received us m n" for us
    using units_sum_nonneg [of m n us] by (simp add: fragments_sum)
  have perm: "mset ys = mset xs \<Longrightarrow> fragments_from_received ys m n = fragments_from_received xs m n"
    by (simp add: fragments_sum sum_mset_sum_list [symmetric])
  have grow: "fragments_from_received xs m n \<le> fragments_from_received (xs @ zs) m n"
    using units_sum_nonneg [of m n zs] by (auto simp: fragments_sum)
  have "\<exists>later. blessing_target mode (fragments_from_received (xs @ zs) m n) floor' = Some later \<and> target \<le> later"
    using assms level_mono [OF nn grow] by (auto simp: blessing_target_def Let_def)
  moreover have "0 \<le> apply_blessing_cap target cap" "apply_blessing_cap target cap \<le> 20"
    by (auto simp: apply_blessing_cap_def Let_def SCADU_MAX_LEVEL_def)
  moreover from this have "snd (raise_stored_blessing (Some cur) (apply_blessing_cap target cap)) = Some (max cur (apply_blessing_cap target cap))"
    by (auto simp: raise_stored_blessing_def Let_def SCADU_MAX_LEVEL_def max_def)
  ultimately show ?thesis using perm assms(1) level_reference [OF nn [of xs]] by simp
qed

theorem blessing_follows_fragments_witness:
  "blessing_target 1 (fragments_from_received [7, 8, 7] [7 \<mapsto> 0x401EAB90] Map.empty) 0 = Some 1 \<and>
   snd (raise_stored_blessing (Some 0) (apply_blessing_cap 1 0)) = Some 1"
proof -
  have "blessing_target 1 (fragments_from_received [7, 8, 7] [7 \<mapsto> 0x401EAB90] Map.empty) 0 = Some 1"
    by code_simp
  from blessing_follows_fragments [OF this, of "[]" "[]" 0 0] this show ?thesis by (simp add: apply_blessing_cap_def SCADU_MAX_LEVEL_def)
qed

end
