(* ===== verification/ErEquip.thy ===== *)
theory ErEquip
  imports ErUpgrades "HOL-Library.Sublist"
begin

unbundle bit_operations_syntax

text \<open>
  Which slot a received item is worn in: \<open>auto_equip.rs\<close>, \<open>spell_equip.rs\<close>, \<open>physick.rs\<close> and
  \<open>equip_queue.rs\<close> of \<open>crates/er-logic\<close>. The choices depend on the received stream and on what
  the slots hold, not on the moment, so a replay of the stream chooses the same slots. A slice out of
  range or a remainder by zero is a panic, \<open>None\<close>, where it can happen.
\<close>

section \<open>Starting loadout\<close>

definition WEAPON_SLOTS :: "nat list" where "WEAPON_SLOTS = [0, 1, 2, 3, 4, 5]"
definition LEFT_RESERVE_SLOTS :: "nat list" where "LEFT_RESERVE_SLOTS = [2, 4]"
definition ACCESSORY_SLOTS :: "nat list" where "ACCESSORY_SLOTS = [17, 18, 19, 20]"
definition UNARMED_WEAPON_PARAM_ID :: int where "UNARMED_WEAPON_PARAM_ID = 110000"

record starting_left_plan =
  sp_unarmed_source :: "nat option"
  sp_clear_slots :: "nat list"
  sp_reset_selector :: bool

datatype starting_left_action = LeftWait | LeftArm | LeftAttempt | PreserveAndSettle

definition starting_left_init_action :: "bool \<Rightarrow> bool \<Rightarrow> bool option \<Rightarrow> bool \<Rightarrow> bool \<Rightarrow> starting_left_action" where
  "starting_left_init_action normalized pending fresh_character auto_equip_on inventory_settled =
     (if normalized then LeftWait
      else if pending then
        (if \<not> auto_equip_on then PreserveAndSettle
         else if inventory_settled then LeftAttempt else LeftWait)
      else case fresh_character of
        None \<Rightarrow> LeftWait
      | Some fresh \<Rightarrow> if \<not> auto_equip_on then PreserveAndSettle else if fresh then LeftArm else PreserveAndSettle)"

text \<open>The worn row of each of the six slots; \<open>None\<close> is the missing unarmed source.\<close>

definition starting_left_cleanup_plan :: "(nat \<Rightarrow> int) \<Rightarrow> nat \<Rightarrow> starting_left_plan option" where
  "starting_left_cleanup_plan worn selected_left_slot =
     (let clear = filter (\<lambda>slot. worn slot \<noteq> UNARMED_WEAPON_PARAM_ID) LEFT_RESERVE_SLOTS;
          plan = (\<lambda>source. \<lparr>sp_unarmed_source = source, sp_clear_slots = clear,
                            sp_reset_selector = (selected_left_slot \<noteq> 0)\<rparr>)
      in if clear = [] then Some (plan None)
         else map_option (plan \<circ> Some) (find (\<lambda>slot. worn slot = UNARMED_WEAPON_PARAM_ID) WEAPON_SLOTS))"

section \<open>Weapons, armour and talismans\<close>

datatype hand = LeftHand | RightHand

datatype equipable_kind = WeaponKind | ProtectorKind | AccessoryKind

definition equipable :: "w32 \<Rightarrow> equipable_kind option" where
  "equipable full_id =
     (let c = full_id AND CATEGORY_MASK
      in if c = CATEGORY_WEAPON then Some WeaponKind
         else if c = CATEGORY_PROTECTOR then Some ProtectorKind
         else if c = CATEGORY_ACCESSORY then Some AccessoryKind
         else None)"

definition enqueue_id :: "upgrade_hook \<Rightarrow> bool \<Rightarrow> w32 \<Rightarrow> w32" where
  "enqueue_id hook auto_upgrade_on full_id = apply_auto_upgrade hook auto_upgrade_on full_id"

text \<open>\<open>max_by_key\<close> keeps the last of the greatest.\<close>

fun max_by_level :: "(int \<times> w32) option \<Rightarrow> (int \<times> w32) list \<Rightarrow> (int \<times> w32) option" where
  "max_by_level best [] = best"
| "max_by_level best (x # xs) =
     max_by_level (case best of None \<Rightarrow> Some x | Some b \<Rightarrow> if fst b \<le> fst x then Some x else Some b) xs"

definition held_row_to_equip :: "int \<Rightarrow> w32 list \<Rightarrow> w32 option" where
  "held_row_to_equip base owned =
     map_option snd (max_by_level None
       (List.map_filter (\<lambda>full_id. case decode_weapon_id full_id of
          None \<Rightarrow> None
        | Some (b, level) \<Rightarrow> if b = base then Some (level, full_id) else None) owned))"

definition is_weapon :: "w32 \<Rightarrow> bool" where
  "is_weapon full_id \<longleftrightarrow> full_id AND CATEGORY_MASK = CATEGORY_WEAPON"

definition LEFT_HAND_WEP_TYPES :: "nat list" where
  "LEFT_HAND_WEP_TYPES = [50, 51, 53, 55, 56, 57, 61, 65, 67, 69]"

definition AMMO_WEP_TYPES :: "nat list" where "AMMO_WEP_TYPES = [81, 83, 85, 86]"

definition is_ammo :: "nat \<Rightarrow> bool" where "is_ammo wep_type \<longleftrightarrow> wep_type \<in> set AMMO_WEP_TYPES"

definition hand_for_wep_type :: "nat \<Rightarrow> hand" where
  "hand_for_wep_type wep_type = (if wep_type \<in> set LEFT_HAND_WEP_TYPES then LeftHand else RightHand)"

definition slot_for_wep_type :: "nat \<Rightarrow> nat option" where
  "slot_for_wep_type wep_type =
     (if is_ammo wep_type then None
      else Some (case hand_for_wep_type wep_type of LeftHand \<Rightarrow> 0 | RightHand \<Rightarrow> 1))"

definition slot_for_protector_category :: "nat \<Rightarrow> nat option" where
  "slot_for_protector_category c =
     (if c = 0 then Some 12 else if c = 1 then Some 13 else if c = 2 then Some 14 else if c = 3 then Some 15 else None)"

definition TALISMAN_POUCH_FULL_ID :: w32 where "TALISMAN_POUCH_FULL_ID = 1073751864"

definition is_talisman_pouch :: "w32 \<Rightarrow> bool" where
  "is_talisman_pouch full_id \<longleftrightarrow> full_id = TALISMAN_POUCH_FULL_ID"

record talisman_pos =
  tp_ordinal :: nat
  tp_pouches :: nat

record talisman_stream =
  ts_pouches :: nat
  ts_ordinal :: nat

definition talisman_push :: "w32 \<Rightarrow> talisman_stream \<Rightarrow> talisman_pos option \<times> talisman_stream" where
  "talisman_push full_id s =
     (if is_talisman_pouch full_id then (None, s\<lparr>ts_pouches := min (ts_pouches s + 1) (2 ^ 32 - 1)\<rparr>)
      else if equipable full_id \<noteq> Some AccessoryKind then (None, s)
      else (Some \<lparr>tp_ordinal = ts_ordinal s, tp_pouches = min (ts_pouches s) 255\<rparr>, s\<lparr>ts_ordinal := ts_ordinal s + 1\<rparr>))"

definition usable_accessory_slots :: "nat \<Rightarrow> nat" where
  "usable_accessory_slots pouches = min (max (pouches + 1) 1) (length ACCESSORY_SLOTS)"

definition slot_for_accessory :: "talisman_pos \<Rightarrow> int option list \<Rightarrow> int \<Rightarrow> nat option" where
  "slot_for_accessory pos slots param_id =
     (let n = usable_accessory_slots (tp_pouches pos)
      in if Some param_id \<in> set (take n slots) then None
         else Some (ACCESSORY_SLOTS ! (tp_ordinal pos mod n)))"

section \<open>Spells\<close>

definition MAGIC_SLOTS :: nat where "MAGIC_SLOTS = 14"
definition BASE_MAGIC_SLOTS :: nat where "BASE_MAGIC_SLOTS = 2"
definition MEMORY_STONES :: nat where "MEMORY_STONES = 8"
definition SPELL_GOODS_TYPES :: "nat list" where "SPELL_GOODS_TYPES = [5, 16, 17, 18]"
definition MEMORY_STONE_GOODS_ROW :: nat where "MEMORY_STONE_GOODS_ROW = 10030"
definition UNUSED_SORT_ID :: int where "UNUSED_SORT_ID = 999999"

definition is_spell :: "nat \<Rightarrow> int \<Rightarrow> bool" where
  "is_spell goods_type sort_id \<longleftrightarrow> goods_type \<in> set SPELL_GOODS_TYPES \<and> sort_id \<noteq> UNUSED_SORT_ID"

definition is_memory_stone :: "nat \<Rightarrow> bool" where
  "is_memory_stone goods_row' \<longleftrightarrow> goods_row' = MEMORY_STONE_GOODS_ROW"

record spell_pos =
  sp_ordinal :: nat
  sp_stones :: nat

record spell_stream =
  ss_spells :: nat
  ss_stones :: nat

definition push_memory_stone :: "spell_stream \<Rightarrow> spell_stream" where
  "push_memory_stone s = s\<lparr>ss_stones := min (ss_stones s + 1) MEMORY_STONES\<rparr>"

definition push_spell :: "spell_stream \<Rightarrow> spell_pos \<times> spell_stream" where
  "push_spell s = (\<lparr>sp_ordinal = ss_spells s, sp_stones = ss_stones s\<rparr>, s\<lparr>ss_spells := ss_spells s + 1\<rparr>)"

definition usable_magic_slots :: "nat \<Rightarrow> nat" where
  "usable_magic_slots stones = min (BASE_MAGIC_SLOTS + min stones MEMORY_STONES) MAGIC_SLOTS"

definition already_memorised :: "spell_pos \<Rightarrow> int option list \<Rightarrow> int \<Rightarrow> bool" where
  "already_memorised pos slots magic_id \<longleftrightarrow>
     Some magic_id \<in> set (take (min (usable_magic_slots (sp_stones pos)) (length slots)) slots)"

definition slot_for_spell :: "spell_pos \<Rightarrow> int option list \<Rightarrow> int \<Rightarrow> nat option" where
  "slot_for_spell pos slots magic_id =
     (if already_memorised pos slots magic_id then None
      else Some (sp_ordinal pos mod usable_magic_slots (sp_stones pos)))"

datatype school = Sorcery | Incantation

definition school_of :: "nat \<Rightarrow> school option" where
  "school_of goods_type =
     (if goods_type = 5 \<or> goods_type = 17 then Some Sorcery
      else if goods_type = 16 \<or> goods_type = 18 then Some Incantation else None)"

definition WEP_TYPE_STAFF :: nat where "WEP_TYPE_STAFF = 57"
definition WEP_TYPE_SEAL :: nat where "WEP_TYPE_SEAL = 61"

record catalysts =
  ca_staff :: bool
  ca_seal :: bool

definition catalysts_from :: "nat option list \<Rightarrow> catalysts" where
  "catalysts_from worn =
     foldl (\<lambda>c t. if t = WEP_TYPE_STAFF then c\<lparr>ca_staff := True\<rparr>
                  else if t = WEP_TYPE_SEAL then c\<lparr>ca_seal := True\<rparr> else c)
       \<lparr>ca_staff = False, ca_seal = False\<rparr> (List.map_filter id worn)"

definition no_catalyst :: "catalysts \<Rightarrow> bool" where
  "no_catalyst c \<longleftrightarrow> \<not> ca_staff c \<and> \<not> ca_seal c"

definition can_cast :: "catalysts \<Rightarrow> school \<Rightarrow> bool" where
  "can_cast c s = (case s of Sorcery \<Rightarrow> ca_staff c | Incantation \<Rightarrow> ca_seal c)"

definition castable :: "catalysts \<Rightarrow> school option \<Rightarrow> bool" where
  "castable held s = (case s of None \<Rightarrow> True | Some sc \<Rightarrow> can_cast held sc)"

definition prefer_castable :: "('a \<times> school option) list \<Rightarrow> catalysts \<Rightarrow> 'a list" where
  "prefer_castable batch held =
     (if no_catalyst held then map fst batch
      else map fst (filter (\<lambda>x. castable held (snd x)) batch) @ map fst (filter (\<lambda>x. \<not> castable held (snd x)) batch))"

datatype backfill = AlreadyMemorised | Place nat bool | NoRoom nat

definition position_empty :: "'a option list \<Rightarrow> nat option" where
  "position_empty slots = find (\<lambda>i. slots ! i = None) [0..<length slots]"

definition backfill_slot :: "spell_pos \<Rightarrow> int option list \<Rightarrow> int \<Rightarrow> backfill" where
  "backfill_slot pos slots magic_id =
     (if already_memorised pos slots magic_id then AlreadyMemorised
      else
        let n = min (usable_magic_slots (sp_stones pos)) (length slots)
        in if n = 0 then NoRoom 0
           else
             let home = sp_ordinal pos mod n
             in if slots ! home = None then Place home True
                else case position_empty (take n slots) of Some i \<Rightarrow> Place i False | None \<Rightarrow> NoRoom n)"

definition fits :: "nat \<Rightarrow> nat \<Rightarrow> bool" where
  "fits slot_length stones \<longleftrightarrow> slot_length \<le> usable_magic_slots stones"

section \<open>The flask\<close>

definition GOODS_TYPE_PHYSICK_TEAR :: nat where "GOODS_TYPE_PHYSICK_TEAR = 10"

definition DUPLICATE_ROWS :: "(w32 \<times> w32) list" where
  "DUPLICATE_ROWS = [(11003, 11002), (11005, 11004), (11017, 11016)]"

definition is_tear :: "nat \<Rightarrow> int \<Rightarrow> bool" where
  "is_tear goods_type sort_id \<longleftrightarrow> goods_type = GOODS_TYPE_PHYSICK_TEAR \<and> sort_id \<noteq> UNUSED_SORT_ID"

definition goods_row :: "w32 \<Rightarrow> w32 option" where
  "goods_row full_id = (if full_id AND CATEGORY_MASK = CATEGORY_GOODS then Some (full_id AND NOT CATEGORY_MASK) else None)"

definition goods_full_id :: "w32 \<Rightarrow> w32" where
  "goods_full_id row = CATEGORY_GOODS OR (row AND NOT CATEGORY_MASK)"

definition canonical_row :: "w32 \<Rightarrow> w32" where
  "canonical_row row = (case find (\<lambda>(alias, canonical). row = alias) DUPLICATE_ROWS of
     Some (alias, canonical) \<Rightarrow> canonical | None \<Rightarrow> row)"

definition EMPTY_MIXTURE :: w32 where "EMPTY_MIXTURE = 0xFFFFFFFF"

definition occupant :: "w32 \<Rightarrow> w32 option" where
  "occupant slot = (if slot = EMPTY_MIXTURE then None else map_option canonical_row (goods_row slot))"

definition slot_for_tear :: "w32 \<Rightarrow> w32 \<Rightarrow> w32 \<Rightarrow> nat \<Rightarrow> nat option" where
  "slot_for_tear m0 m1 incoming_full_id ordinal =
     (case goods_row incoming_full_id of
        None \<Rightarrow> None
      | Some row \<Rightarrow>
          let incoming = canonical_row row
          in if occupant m0 = Some incoming \<or> occupant m1 = Some incoming then None
             else if occupant m0 = None then Some 0
             else if occupant m1 = None then Some 1
             else Some (ordinal mod 2))"

section \<open>The pace of the queue\<close>

definition INTERVAL_MS :: nat where "INTERVAL_MS = 500"

datatype attempt = Changed | Done | Retry

definition pacer_ready :: "nat option \<Rightarrow> nat \<Rightarrow> bool" where
  "pacer_ready last_change now =
     (case last_change of None \<Rightarrow> True | Some l \<Rightarrow> INTERVAL_MS \<le> now - l)"

text \<open>The pending items in order, the answers of \<open>apply\<close> and the state it changes.\<close>

fun drain :: "nat \<Rightarrow> ('a \<Rightarrow> 's \<Rightarrow> attempt \<times> 's) \<Rightarrow> 'a list \<Rightarrow> nat option \<times> 's \<Rightarrow> 'a list \<times> nat option \<times> 's" where
  "drain now apply' [] p = ([], p)"
| "drain now apply' (item # rest) (last_change, s) =
     (if \<not> pacer_ready last_change now
      then (case drain now apply' rest (last_change, s) of (r, p) \<Rightarrow> (item # r, p))
      else case apply' item s of (a, s1) \<Rightarrow>
        (case a of
           Changed \<Rightarrow> drain now apply' rest (Some now, s1)
         | Done \<Rightarrow> drain now apply' rest (last_change, s1)
         | Retry \<Rightarrow> (case drain now apply' rest (last_change, s1) of (r, p) \<Rightarrow> (item # r, p))))"

section \<open>Rotation\<close>

lemma usable_accessory_range: "1 \<le> usable_accessory_slots p \<and> usable_accessory_slots p \<le> 4"
  by (simp add: usable_accessory_slots_def ACCESSORY_SLOTS_def)

lemma usable_magic_range: "2 \<le> usable_magic_slots stones \<and> usable_magic_slots stones \<le> 10"
  by (simp add: usable_magic_slots_def BASE_MAGIC_SLOTS_def MEMORY_STONES_def MAGIC_SLOTS_def)

lemma rotation_inj:
  assumes "i < n" "j < n" "((o' :: nat) + i) mod n = (o' + j) mod n"
  shows "i = j"
proof -
  have "j \<le> i" if "i < n" "j < n" "((o' :: nat) + i) mod n = (o' + j) mod n" for i j
  proof (rule ccontr)
    assume less: "\<not> j \<le> i"
    then have "n dvd (o' + j) - (o' + i)" using that(3) by (subst mod_eq_dvd_iff_nat [symmetric]) simp_all
    then have "n \<le> j - i" using less by (auto dest: dvd_imp_le)
    with that less show False by simp
  qed
  from this [of i j] this [of j i] assms show ?thesis by simp
qed

section \<open>Filling without evicting\<close>

definition backfill_write :: "int option list \<Rightarrow> spell_pos \<times> int \<Rightarrow> int option list" where
  "backfill_write slots x =
     (case backfill_slot (fst x) slots (snd x) of Place i home \<Rightarrow> slots[i := Some (snd x)] | _ \<Rightarrow> slots)"

definition usable_in :: "spell_pos \<Rightarrow> int option list \<Rightarrow> nat" where
  "usable_in pos slots = min (usable_magic_slots (sp_stones pos)) (length slots)"

lemma memorised_iff:
  "already_memorised pos slots m \<longleftrightarrow> (\<exists>i < usable_in pos slots. slots ! i = Some m)"
  by (auto simp: already_memorised_def usable_in_def in_set_conv_nth nth_take)

lemma position_SomeD: "position_empty xs = Some i \<Longrightarrow> i < length xs \<and> xs ! i = None"
  by (auto simp: position_empty_def find_Some_iff)

lemma position_None: "position_empty xs = None \<longleftrightarrow> (\<forall>i < length xs. xs ! i \<noteq> None)"
  by (auto simp: position_empty_def find_None_iff)

lemma backfill_cases:
  "backfill_slot pos slots m = Place i home \<Longrightarrow> i < usable_in pos slots \<and> slots ! i = None"
  "backfill_slot pos slots m = NoRoom n \<Longrightarrow> n = usable_in pos slots \<and> (\<forall>i < n. slots ! i \<noteq> None)"
  "backfill_slot pos slots m = AlreadyMemorised \<longleftrightarrow> already_memorised pos slots m"
proof -
  show "backfill_slot pos slots m = AlreadyMemorised \<longleftrightarrow> already_memorised pos slots m"
    by (auto simp: backfill_slot_def Let_def split: option.splits)
  show "i < usable_in pos slots \<and> slots ! i = None" if "backfill_slot pos slots m = Place i home"
  proof -
    have home: "sp_ordinal pos mod usable_in pos slots < usable_in pos slots" if "usable_in pos slots \<noteq> 0"
      using that by simp
    have len: "length (take (usable_in pos slots) slots) = usable_in pos slots" by (simp add: usable_in_def)
    from that show ?thesis
      unfolding backfill_slot_def Let_def usable_in_def [symmetric]
      using home by (auto split: if_splits option.splits dest!: position_SomeD simp: len)
  qed
  show "n = usable_in pos slots \<and> (\<forall>i < n. slots ! i \<noteq> None)" if "backfill_slot pos slots m = NoRoom n"
    using that unfolding backfill_slot_def Let_def usable_in_def [symmetric]
    by (auto simp: position_None split: if_splits option.splits) (simp add: usable_in_def)+
qed

lemma write_length: "length (backfill_write slots x) = length slots"
  by (auto simp: backfill_write_def split: backfill.split)

lemma write_keeps: "i < length slots \<Longrightarrow> slots ! i = Some m \<Longrightarrow> backfill_write slots x ! i = Some m"
proof (cases "backfill_slot (fst x) slots (snd x)")
  case (Place j home)
  assume "i < length slots" "slots ! i = Some m"
  moreover from this have "i \<noteq> j" using backfill_cases(1) [OF Place] by auto
  ultimately show "backfill_write slots x ! i = Some m" using Place by (simp add: backfill_write_def)
qed (simp_all add: backfill_write_def)

text \<open>What a spell gets: a usable slot, or all of them are taken.\<close>

definition served :: "int option list \<Rightarrow> spell_pos \<times> int \<Rightarrow> bool" where
  "served slots x \<longleftrightarrow> already_memorised (fst x) slots (snd x) \<or> (\<forall>i < usable_in (fst x) slots. slots ! i \<noteq> None)"

lemma write_serves: "served (backfill_write slots x) x"
proof (cases "backfill_slot (fst x) slots (snd x)")
  case AlreadyMemorised
  then show ?thesis using backfill_cases(3) [of "fst x" slots "snd x"] by (simp add: served_def backfill_write_def)
next
  case (NoRoom n)
  then show ?thesis using backfill_cases(2) [OF NoRoom] by (simp add: served_def backfill_write_def)
next
  case (Place i home)
  have "i < usable_in (fst x) slots" using backfill_cases(1) [OF Place] by simp
  then have "already_memorised (fst x) (slots[i := Some (snd x)]) (snd x)"
    unfolding memorised_iff by (intro exI [of _ i]) (simp add: usable_in_def)
  with Place show ?thesis by (simp add: served_def backfill_write_def)
qed

lemma served_stays: "served slots y \<Longrightarrow> served (backfill_write slots x) y"
proof -
  assume s: "served slots y"
  have u: "usable_in (fst y) (backfill_write slots x) = usable_in (fst y) slots"
    by (simp add: usable_in_def write_length)
  have le: "usable_in (fst y) slots \<le> length slots" by (simp add: usable_in_def)
  show "served (backfill_write slots x) y"
    using s unfolding served_def memorised_iff u
    by (metis le option.exhaust_sel option.distinct(1) order.strict_trans2 write_keeps)
qed

lemma served_fixed: "served slots x \<Longrightarrow> backfill_write slots x = slots"
  using backfill_cases [of "fst x" slots "snd x"]
  by (auto simp: served_def backfill_write_def split: backfill.split)

lemma backfill_all:
  "length (foldl backfill_write slots xs) = length slots"
  "i < length slots \<Longrightarrow> slots ! i = Some m \<Longrightarrow> foldl backfill_write slots xs ! i = Some m"
  "served slots y \<Longrightarrow> served (foldl backfill_write slots xs) y"
  "x \<in> set xs \<Longrightarrow> served (foldl backfill_write slots xs) x"
proof -
  show "length (foldl backfill_write slots xs) = length slots"
    by (induction xs arbitrary: slots) (simp_all add: write_length)
  show "i < length slots \<Longrightarrow> slots ! i = Some m \<Longrightarrow> foldl backfill_write slots xs ! i = Some m"
    by (induction xs arbitrary: slots) (simp_all add: write_length write_keeps)
  have stay: "served slots y \<Longrightarrow> served (foldl backfill_write slots xs) y" for slots y xs
    by (induction xs arbitrary: slots) (simp_all add: served_stays)
  then show "served slots y \<Longrightarrow> served (foldl backfill_write slots xs) y" .
  show "x \<in> set xs \<Longrightarrow> served (foldl backfill_write slots xs) x"
    by (induction xs arbitrary: slots) (auto intro: stay write_serves)
qed

lemma served_all_fixed: "\<forall>x \<in> set xs. served slots x \<Longrightarrow> foldl backfill_write slots xs = slots"
  by (induction xs) (simp_all add: served_fixed)

section \<open>Castable spells first\<close>

text \<open>The reordering is the stable sort by whether the spell can be cast.\<close>

lemma partition_sort_key:
  "sort_key (\<lambda>x. if P x then (0::nat) else 1) xs = filter P xs @ filter (\<lambda>x. \<not> P x) xs"
proof (rule properties_for_sort_key)
  show "mset (filter P xs @ filter (\<lambda>x. \<not> P x) xs) = mset xs"
    by simp
  show "sorted (map (\<lambda>x. if P x then (0::nat) else 1) (filter P xs @ filter (\<lambda>x. \<not> P x) xs))"
  proof -
    have "map (\<lambda>x. if P x then (0::nat) else 1) (filter P xs) = replicate (length (filter P xs)) 0"
      "map (\<lambda>x. if P x then (0::nat) else 1) (filter (\<lambda>x. \<not> P x) xs) = replicate (length (filter (\<lambda>x. \<not> P x) xs)) 1"
      by (induction xs) simp_all
    then show ?thesis by (simp add: sorted_append)
  qed
  show "filter (\<lambda>y. (if P x then (0::nat) else 1) = (if P y then 0 else 1)) (filter P xs @ filter (\<lambda>x. \<not> P x) xs) =
      filter (\<lambda>y. (if P x then (0::nat) else 1) = (if P y then 0 else 1)) xs" for x
  proof -
    have key: "((0::nat) = (if b then 0 else 1)) = b" "((1::nat) = (if b then 0 else 1)) = (\<not> b)" for b by simp_all
    show ?thesis by (cases "P x") (simp_all add: key del: One_nat_def)
  qed
qed

lemma prefer_castable_sorted:
  "\<not> no_catalyst held \<Longrightarrow>
   prefer_castable batch held = map fst (sort_key (\<lambda>x. if castable held (snd x) then (0::nat) else 1) batch)"
  by (simp add: prefer_castable_def partition_sort_key)

section \<open>One change per interval\<close>

text \<open>Every attempt with its answer is logged.\<close>

definition logged_apply :: "('a \<Rightarrow> 's \<Rightarrow> attempt \<times> 's) \<Rightarrow> 'a \<Rightarrow> 's \<times> ('a \<times> attempt) list \<Rightarrow> attempt \<times> 's \<times> ('a \<times> attempt) list" where
  "logged_apply apply' item sl = (case apply' item (fst sl) of (a, s) \<Rightarrow> (a, s, snd sl @ [(item, a)]))"

definition changes :: "('a \<times> attempt) list \<Rightarrow> nat" where
  "changes log = length (filter (\<lambda>x. snd x = Changed) log)"

lemma logged_apply_at:
  "apply' item s = (a, s1) \<Longrightarrow> logged_apply apply' item (s, log) = (a, s1, log @ [(item, a)])"
  by (simp add: logged_apply_def)

lemma not_ready_keeps:
  "\<not> pacer_ready l now \<Longrightarrow> drain now apply' items (l, s) = (items, l, s)"
  by (induction items) simp_all

lemma drain_log:
  assumes "drain now (logged_apply apply') items (l, s, log) = (rest, l', s', log')"
  shows "\<exists>new. log' = log @ new \<and> changes new \<le> 1 \<and> (changes new = 1 \<longrightarrow> pacer_ready l now \<and> l' = Some now) \<and>
    (changes new = 0 \<longrightarrow> l' = l) \<and> subseq rest items \<and>
    mset items = mset rest + mset (map fst (filter (\<lambda>x. snd x \<noteq> Retry) new))"
  using assms
proof (induction items arbitrary: l s log rest)
  case Nil
  then show ?case by (auto simp: changes_def intro!: exI [of _ "[]"])
next
  case (Cons item items)
  show ?case
  proof (cases "pacer_ready l now")
    case False
    then have "rest = item # items \<and> l' = l \<and> log' = log" using Cons.prems False by (auto simp: not_ready_keeps [OF False])
    then show ?thesis by (auto simp: changes_def intro!: exI [of _ "[]"])
  next
    case True
    obtain a s1 where a: "apply' item s = (a, s1)" by fastforce
    show ?thesis
    proof (cases a)
      case Changed
      have closed: "\<not> pacer_ready (Some now) now" by (simp add: pacer_ready_def INTERVAL_MS_def)
      have "rest = items \<and> l' = Some now \<and> log' = log @ [(item, Changed)]"
        using Cons.prems True a Changed by (simp add: logged_apply_at not_ready_keeps [OF closed])
      then show ?thesis using True by (auto simp: changes_def intro!: exI [of _ "[(item, Changed)]"])
    next
      case Done
      have "drain now (logged_apply apply') items (l, s1, log @ [(item, Done)]) = (rest, l', s', log')"
        using Cons.prems True a Done by (simp add: logged_apply_at)
      from Cons.IH [OF this] obtain new where "log' = log @ [(item, Done)] @ new" "changes new \<le> 1"
        "changes new = 1 \<longrightarrow> pacer_ready l now \<and> l' = Some now" "changes new = 0 \<longrightarrow> l' = l" "subseq rest items"
        "mset items = mset rest + mset (map fst (filter (\<lambda>x. snd x \<noteq> Retry) new))" by auto
      then show ?thesis by (intro exI [of _ "(item, Done) # new"]) (auto simp: changes_def)
    next
      case Retry
      obtain rest' where r: "drain now (logged_apply apply') items (l, s1, log @ [(item, Retry)]) = (rest', l', s', log')"
        "rest = item # rest'"
        using Cons.prems True a Retry by (auto simp: logged_apply_at split: prod.splits)
      from Cons.IH [OF r(1)] obtain new where "log' = log @ [(item, Retry)] @ new" "changes new \<le> 1"
        "changes new = 1 \<longrightarrow> pacer_ready l now \<and> l' = Some now" "changes new = 0 \<longrightarrow> l' = l" "subseq rest' items"
        "mset items = mset rest' + mset (map fst (filter (\<lambda>x. snd x \<noteq> Retry) new))" by auto
      then show ?thesis using r(2) by (intro exI [of _ "(item, Retry) # new"]) (auto simp: changes_def)
    qed
  qed
qed

section \<open>Properties\<close>

text \<open>
  Talismans rotate over the slots the player has earned. A talisman that is not worn yet is sent
  to one of the first usable slots, as many as pouches were received before it plus one, at most four;
  as many consecutive talismans as there are usable slots go to different slots and cover all of them.
\<close>

theorem talismans_rotate:
  assumes "n = usable_accessory_slots pouches" and "\<And>k. Some (talisman k) \<notin> set (take n slots)"
  shows "(\<lambda>k. slot_for_accessory \<lparr>tp_ordinal = first + k, tp_pouches = pouches\<rparr> slots (talisman k)) ` {..<n} =
      Some ` set (take n ACCESSORY_SLOTS) \<and>
    inj_on (\<lambda>k. slot_for_accessory \<lparr>tp_ordinal = first + k, tp_pouches = pouches\<rparr> slots (talisman k)) {..<n} \<and>
    n = min (pouches + 1) 4"
proof -
  have n: "1 \<le> n" "n \<le> 4" using assms(1) usable_accessory_range by simp_all
  have slot: "slot_for_accessory \<lparr>tp_ordinal = first + k, tp_pouches = pouches\<rparr> slots (talisman k) =
      Some (ACCESSORY_SLOTS ! ((first + k) mod n))" for k
    using assms(2) [of k] by (simp add: slot_for_accessory_def Let_def assms(1) [symmetric])
  have dist: "distinct ACCESSORY_SLOTS" "length ACCESSORY_SLOTS = 4" by (simp_all add: ACCESSORY_SLOTS_def)
  have lt: "(first + k) mod n < n" for k using n by simp
  have inj: "inj_on (\<lambda>k. Some (ACCESSORY_SLOTS ! ((first + k) mod n))) {..<n}"
  proof (rule inj_onI)
    fix i j
    assume ij: "i \<in> {..<n}" "j \<in> {..<n}"
      "Some (ACCESSORY_SLOTS ! ((first + i) mod n)) = Some (ACCESSORY_SLOTS ! ((first + j) mod n))"
    have "(first + i) mod n < length ACCESSORY_SLOTS" "(first + j) mod n < length ACCESSORY_SLOTS"
      using lt [of i] lt [of j] n dist(2) by linarith+
    then have "(first + i) mod n = (first + j) mod n"
      using ij(3) nth_eq_iff_index_eq [OF dist(1)] by simp
    with ij(1,2) show "i = j" by (auto intro: rotation_inj)
  qed
  have "(\<lambda>k. Some (ACCESSORY_SLOTS ! ((first + k) mod n))) ` {..<n} = Some ` set (take n ACCESSORY_SLOTS)"
  proof (rule card_subset_eq)
    show "(\<lambda>k. Some (ACCESSORY_SLOTS ! ((first + k) mod n))) ` {..<n} \<subseteq> Some ` set (take n ACCESSORY_SLOTS)"
    proof -
      have "ACCESSORY_SLOTS ! ((first + k) mod n) \<in> set (take n ACCESSORY_SLOTS)" for k
        unfolding in_set_conv_nth using lt [of k] n dist(2) by (intro exI [of _ "(first + k) mod n"]) simp
      then show ?thesis by auto
    qed
    show "card ((\<lambda>k. Some (ACCESSORY_SLOTS ! ((first + k) mod n))) ` {..<n}) = card (Some ` set (take n ACCESSORY_SLOTS))"
      using n dist by (simp add: card_image [OF inj] card_image distinct_card)
  qed simp
  then show ?thesis
    unfolding slot using inj assms(1) by (simp add: usable_accessory_slots_def ACCESSORY_SLOTS_def)
qed

theorem talismans_rotate_witness:
  "(\<lambda>k. slot_for_accessory \<lparr>tp_ordinal = 5 + k, tp_pouches = 1\<rparr> [None, None, None, None] (int k)) ` {..<2} = Some ` {17, 18}"
proof -
  have two: "usable_accessory_slots 1 = 2" by (simp add: usable_accessory_slots_def ACCESSORY_SLOTS_def)
  show ?thesis
    using talismans_rotate [of 2 1 int "[None, None, None, None]" 5] two by (simp add: ACCESSORY_SLOTS_def)
qed

text \<open>
  The backfill never evicts a spell. Running it over any list of owned spells, in order, keeps
  every occupied memory slot as it was; afterwards each of the spells is memorised in a slot it can use,
  or all slots usable for it are taken; and running the list again changes nothing.
\<close>

theorem backfill_never_evicts:
  "(\<forall>i m. i < length slots \<and> slots ! i = Some m \<longrightarrow> foldl backfill_write slots spells ! i = Some m) \<and>
   length (foldl backfill_write slots spells) = length slots \<and>
   (\<forall>x \<in> set spells. already_memorised (fst x) (foldl backfill_write slots spells) (snd x) \<or>
      (\<forall>i < min (usable_magic_slots (sp_stones (fst x))) (length slots). foldl backfill_write slots spells ! i \<noteq> None)) \<and>
   foldl backfill_write (foldl backfill_write slots spells) spells = foldl backfill_write slots spells"
proof -
  have "foldl backfill_write (foldl backfill_write slots spells) spells = foldl backfill_write slots spells"
    by (rule served_all_fixed) (simp add: backfill_all(4))
  moreover have "served (foldl backfill_write slots spells) x" if "x \<in> set spells" for x
    by (rule backfill_all(4) [OF that])
  ultimately show ?thesis
    using backfill_all(1,2) by (auto simp: served_def usable_in_def backfill_all(1))
qed

theorem backfill_never_evicts_witness:
  "foldl backfill_write [Some 1, None, None] [(\<lparr>sp_ordinal = 0, sp_stones = 0\<rparr>, 7), (\<lparr>sp_ordinal = 1, sp_stones = 0\<rparr>, 8)] ! 0 = Some 1"
  using backfill_never_evicts [of "[Some 1, None, None]" "[(\<lparr>sp_ordinal = 0, sp_stones = 0\<rparr>, 7), (\<lparr>sp_ordinal = 1, sp_stones = 0\<rparr>, 8)]"]
  by simp

text \<open>
  The equip queue makes at most one change per interval and loses nothing. A drain changes the
  equipment at most once, and only when half a second has passed since the last change, which it then
  records; what it leaves is a subsequence of what was waiting, and every item that left was changed or
  found done, so a refused item keeps its place.
\<close>

theorem drain_is_paced:
  assumes "drain now (logged_apply apply') items (l, s, []) = (rest, l', s', log)"
  shows "changes log \<le> 1 \<and> (changes log = 1 \<longrightarrow> l' = Some now \<and> (\<forall>last. l = Some last \<longrightarrow> 500 \<le> now - last)) \<and>
    (changes log = 0 \<longrightarrow> l' = l) \<and> subseq rest items \<and>
    mset items = mset rest + mset (map fst (filter (\<lambda>x. snd x \<noteq> Retry) log))"
  using drain_log [OF assms] by (auto simp: pacer_ready_def INTERVAL_MS_def)

theorem drain_is_paced_witness:
  "drain 600 (logged_apply (\<lambda>x s. (if x = 2 then Retry else Changed, s))) [2, 3, 4 :: nat] (Some 100, (), []) =
     ([2, 4], Some 600, (), [(2, Retry), (3, Changed)]) \<and> changes [(2 :: nat, Retry), (3, Changed)] \<le> 1"
proof -
  have d: "drain 600 (logged_apply (\<lambda>x s. (if x = 2 then Retry else Changed, s))) [2, 3, 4 :: nat] (Some 100, (), []) =
     ([2, 4], Some 600, (), [(2, Retry), (3, Changed)])"
    by (simp add: pacer_ready_def INTERVAL_MS_def logged_apply_def)
  from d drain_is_paced [OF d] show ?thesis by blast
qed

end
