(* ===== verification/ErKeyList.thy ===== *)
theory ErKeyList
  imports Prelude
begin

text \<open>
  The window of a walk over the game's key item list, \<open>crates/er-logic/src/key_list_window.rs\<close>, and
  the tally of capped grants, \<open>pot_cap_tally.rs\<close>. The list keeps its entries in place, so its length
  counts live entries and says nothing about where they are.
\<close>

section \<open>The walk bound\<close>

definition KEY_LIST_SANE_CAP :: nat where "KEY_LIST_SANE_CAP = 4096"

datatype walk_bound = Capacity nat | LenFallback nat nat

definition bound_slots :: "walk_bound \<Rightarrow> nat" where
  "bound_slots b = (case b of Capacity c \<Rightarrow> c | LenFallback len capacity \<Rightarrow> len)"

definition walk_bound_of :: "nat \<Rightarrow> nat \<Rightarrow> walk_bound" where
  "walk_bound_of len capacity =
     (if 0 < capacity \<and> capacity \<le> KEY_LIST_SANE_CAP \<and> len \<le> capacity then Capacity capacity
      else LenFallback len capacity)"

definition hidden_beyond_len :: "nat \<Rightarrow> nat \<Rightarrow> nat" where
  "hidden_beyond_len len non_empty_in_len = len - non_empty_in_len"

record beyond_len_entry =
  be_index :: nat
  be_row :: int
  be_category_nibble :: nat
  be_quantity :: nat

fun join_comma :: "string list \<Rightarrow> string" where
  "join_comma [] = []"
| "join_comma [x] = x"
| "join_comma (x # y # zs) = x @ '', '' @ join_comma (y # zs)"

definition format_beyond_len :: "beyond_len_entry list \<Rightarrow> nat \<Rightarrow> string" where
  "format_beyond_len entries cap =
     (if entries = [] then ''NONE''
      else
        let shown = map (\<lambda>e. show_nat (be_index e) @ '':'' @ show_int (be_row e) @ ''/'' @
                       show_nat (be_category_nibble e) @ '' x'' @ show_nat (be_quantity e)) (take cap entries);
            extra = length entries - cap
        in if 0 < extra then ''['' @ join_comma shown @ ''] (+'' @ show_nat extra @ '' more)''
           else ''['' @ join_comma shown @ '']'')"

record key_list_delta =
  kd_len_before :: nat
  kd_len_after :: nat
  kd_non_empty_before :: nat
  kd_non_empty_after :: nat

definition delta_hidden :: "key_list_delta \<Rightarrow> nat \<times> nat" where
  "delta_hidden d = (hidden_beyond_len (kd_len_before d) (kd_non_empty_before d),
                     hidden_beyond_len (kd_len_after d) (kd_non_empty_after d))"

definition key_list_delta_of :: "nat \<times> nat \<Rightarrow> nat \<times> nat \<Rightarrow> key_list_delta option" where
  "key_list_delta_of prev now =
     (if prev = now then None
      else Some \<lparr>kd_len_before = fst prev, kd_len_after = fst now,
                 kd_non_empty_before = snd prev, kd_non_empty_after = snd now\<rparr>)"

definition should_log_epoch :: "nat option \<Rightarrow> nat \<Rightarrow> bool" where
  "should_log_epoch last' now \<longleftrightarrow> last' \<noteq> Some now"

section \<open>The list\<close>

record key_list_view =
  kv_len :: nat
  kv_capacity :: nat
  kv_slots :: "(int \<times> nat) option list"

definition live :: "(int \<times> nat) option list \<Rightarrow> nat" where
  "live slots = length (filter (\<lambda>s. s \<noteq> None) slots)"

text \<open>\<open>resize\<close> cuts or pads.\<close>

definition from_slots :: "nat \<Rightarrow> (int \<times> nat) option list \<Rightarrow> key_list_view" where
  "from_slots capacity slots =
     \<lparr>kv_len = live slots, kv_capacity = capacity,
      kv_slots = take capacity slots @ replicate (capacity - length slots) None\<rparr>"

definition visible :: "key_list_view \<Rightarrow> walk_bound \<Rightarrow> (nat \<times> int) list" where
  "visible v bound =
     List.map_filter (\<lambda>(i, s). map_option (\<lambda>(row, q). (i, row)) s)
       (List.enumerate 0 (take (bound_slots bound) (kv_slots v)))"

definition visible_under_len :: "key_list_view \<Rightarrow> int \<Rightarrow> bool" where
  "visible_under_len v row \<longleftrightarrow> (\<exists>x \<in> set (visible v (LenFallback (kv_len v) (kv_capacity v))). snd x = row)"

definition visible_under_capacity :: "key_list_view \<Rightarrow> int \<Rightarrow> bool" where
  "visible_under_capacity v row \<longleftrightarrow> (\<exists>x \<in> set (visible v (walk_bound_of (kv_len v) (kv_capacity v))). snd x = row)"

definition non_empty_in_len :: "key_list_view \<Rightarrow> nat" where
  "non_empty_in_len v = live (take (kv_len v) (kv_slots v))"

definition beyond_len :: "key_list_view \<Rightarrow> beyond_len_entry list" where
  "beyond_len v =
     List.map_filter (\<lambda>(i, s). map_option (\<lambda>(row, quantity).
         \<lparr>be_index = i, be_row = row, be_category_nibble = 4, be_quantity = quantity\<rparr>) s)
       (List.enumerate (kv_len v) (drop (kv_len v) (kv_slots v)))"

definition find_slot :: "((int \<times> nat) option \<Rightarrow> bool) \<Rightarrow> (int \<times> nat) option list \<Rightarrow> nat option" where
  "find_slot P slots = find (\<lambda>i. P (slots ! i)) [0..<length slots]"

definition remove_row :: "int \<Rightarrow> key_list_view \<Rightarrow> bool \<times> key_list_view" where
  "remove_row row v =
     (case find_slot (\<lambda>s. map_option fst s = Some row) (kv_slots v) of
        Some i \<Rightarrow> (True, v\<lparr>kv_slots := (kv_slots v)[i := None], kv_len := kv_len v - 1\<rparr>)
      | None \<Rightarrow> (False, v))"

definition add_row :: "int \<Rightarrow> nat \<Rightarrow> key_list_view \<Rightarrow> nat option \<times> key_list_view" where
  "add_row row quantity v =
     (case find_slot (\<lambda>s. s = None) (kv_slots v) of
        None \<Rightarrow> (None, v)
      | Some i \<Rightarrow> (Some i, v\<lparr>kv_slots := (kv_slots v)[i := Some (row, quantity)], kv_len := kv_len v + 1\<rparr>))"

section \<open>Capped grants\<close>

definition deliverable_qty :: "int \<Rightarrow> int \<Rightarrow> int \<Rightarrow> int" where
  "deliverable_qty held cap requested =
     (if requested \<le> 0 then requested
      else if max (- (2 ^ 31)) (min (held + requested) (2 ^ 31 - 1)) \<le> cap then requested
      else 0)"

definition MAX_TRACKED_ROWS :: nat where "MAX_TRACKED_ROWS = 8"

record row_tally =
  rt_full_id :: int
  rt_events :: nat
  rt_suppressed :: int

text \<open>The used rows of the table, in order, and the caps that found it full.\<close>

record pot_cap_tally =
  pt_rows :: "row_tally list"
  pt_overflowed :: nat

definition tally_new :: pot_cap_tally where "tally_new = \<lparr>pt_rows = [], pt_overflowed = 0\<rparr>"

definition saturating_i64 :: "int \<Rightarrow> int" where
  "saturating_i64 x = max (- (2 ^ 63)) (min x (2 ^ 63 - 1))"

fun bump_row :: "int \<Rightarrow> int \<Rightarrow> row_tally list \<Rightarrow> row_tally list option" where
  "bump_row full_id suppressed [] = None"
| "bump_row full_id suppressed (r # rs) =
     (if rt_full_id r = full_id
      then Some (r\<lparr>rt_events := min (rt_events r + 1) (2 ^ 32 - 1),
                   rt_suppressed := saturating_i64 (rt_suppressed r + suppressed)\<rparr> # rs)
      else map_option (Cons r) (bump_row full_id suppressed rs))"

definition tally_record :: "int \<Rightarrow> int \<Rightarrow> int \<Rightarrow> pot_cap_tally \<Rightarrow> pot_cap_tally" where
  "tally_record full_id requested allowed t =
     (if requested \<le> allowed then t
      else
        let suppressed = requested - max allowed 0
        in case bump_row full_id suppressed (pt_rows t) of
             Some rows \<Rightarrow> t\<lparr>pt_rows := rows\<rparr>
           | None \<Rightarrow>
               if length (pt_rows t) = MAX_TRACKED_ROWS
               then t\<lparr>pt_overflowed := min (pt_overflowed t + 1) (2 ^ 32 - 1)\<rparr>
               else t\<lparr>pt_rows := pt_rows t @ [\<lparr>rt_full_id = full_id, rt_events = 1, rt_suppressed = suppressed\<rparr>]\<rparr>)"

definition tally_is_empty :: "pot_cap_tally \<Rightarrow> bool" where
  "tally_is_empty t \<longleftrightarrow> pt_rows t = [] \<and> pt_overflowed t = 0"

section \<open>What a walk sees\<close>

lemma live_append [simp]: "live (xs @ ys) = live xs + live ys"
  by (simp add: live_def)

lemma live_replicate [simp]: "live (replicate n None) = 0"
  by (induction n) (simp_all add: live_def)

lemma live_le: "live xs \<le> length xs"
  by (simp add: live_def)

lemma live_update:
  "i < length xs \<Longrightarrow> live (xs[i := s]) + of_bool (xs ! i \<noteq> None) = live xs + of_bool (s \<noteq> None)"
proof -
  assume i: "i < length xs"
  have u: "xs[i := s] = take i xs @ s # drop (Suc i) xs" by (rule upd_conv_take_nth_drop [OF i])
  have x: "live xs = live (take i xs @ xs ! i # drop (Suc i) xs)" by (simp add: id_take_nth_drop [OF i, symmetric])
  show ?thesis unfolding u x by (simp add: live_def)
qed

lemma find_slot_SomeD: "find_slot P xs = Some i \<Longrightarrow> i < length xs \<and> P (xs ! i)"
  by (auto simp: find_slot_def find_Some_iff)

lemma find_slot_None: "find_slot P xs = None \<longleftrightarrow> (\<forall>i < length xs. \<not> P (xs ! i))"
  by (auto simp: find_slot_def find_None_iff)

lemma map_filter_length:
  "length (List.map_filter (\<lambda>(i, s). map_option (f i) s) (List.enumerate k xs)) = live xs"
  by (induction xs arbitrary: k) (auto simp: live_def List.map_filter_simps split: option.splits)

lemma visible_rows:
  "(\<exists>x \<in> set (visible v b). snd x = row) \<longleftrightarrow> (\<exists>q. Some (row, q) \<in> set (take (bound_slots b) (kv_slots v)))"
proof -
  have "(\<exists>x \<in> set (List.map_filter (\<lambda>(i, s). map_option (\<lambda>(row, q). (i, row)) s) (List.enumerate k xs)). snd x = row) \<longleftrightarrow>
      (\<exists>q. Some (row, q) \<in> set xs)" for k and xs :: "(int \<times> nat) option list"
    by (induction xs arbitrary: k) (auto simp: List.map_filter_simps split: option.splits)
  then show ?thesis by (simp add: visible_def)
qed

text \<open>A list that the game keeps: the length counts the live entries.\<close>

definition counted :: "key_list_view \<Rightarrow> bool" where
  "counted v \<longleftrightarrow> kv_len v = live (kv_slots v) \<and> length (kv_slots v) = kv_capacity v"

datatype list_op = Add int nat | Remove int

definition run_op :: "key_list_view \<Rightarrow> list_op \<Rightarrow> key_list_view" where
  "run_op v op = (case op of Add row q \<Rightarrow> snd (add_row row q v) | Remove row \<Rightarrow> snd (remove_row row v))"

lemma counted_start: "length slots \<le> capacity \<Longrightarrow> counted (from_slots capacity slots)"
  by (simp add: counted_def from_slots_def)

lemma counted_op:
  assumes "counted v"
  shows "counted (run_op v op) \<and> kv_capacity (run_op v op) = kv_capacity v"
proof (cases op)
  case (Add row q)
  show ?thesis
  proof (cases "find_slot (\<lambda>s. s = None) (kv_slots v)")
    case None
    with Add assms show ?thesis by (simp add: run_op_def add_row_def)
  next
    case (Some i)
    with find_slot_SomeD [OF Some] live_update [of i "kv_slots v" "Some (row, q)"] Add assms show ?thesis
      by (simp add: run_op_def add_row_def counted_def)
  qed
next
  case (Remove row)
  show ?thesis
  proof (cases "find_slot (\<lambda>s. map_option fst s = Some row) (kv_slots v)")
    case None
    with Remove assms show ?thesis by (simp add: run_op_def remove_row_def)
  next
    case (Some i)
    then have i: "i < length (kv_slots v)" "kv_slots v ! i \<noteq> None" using find_slot_SomeD [OF Some] by auto
    with live_update [OF i(1), of None] Some Remove assms show ?thesis
      by (simp add: run_op_def remove_row_def counted_def)
  qed
qed

lemma counted_ops: "counted v \<Longrightarrow> counted (foldl run_op v ops) \<and> kv_capacity (foldl run_op v ops) = kv_capacity v"
  by (induction ops arbitrary: v) (simp_all add: counted_op)

text \<open>
  A walk bounded by the capacity finds every held row, a walk bounded by the length may not. For a
  list of sane capacity, after any adds and removes, a row is seen by the capacity walk exactly when it
  is held; the number of live entries the length walk misses is the length minus the live entries it
  sees, which is what the forensics line reports; and a held row it misses is among the entries listed
  beyond the length.
\<close>

theorem capacity_walk_sees_all:
  assumes "length slots \<le> capacity" and "0 < capacity" "capacity \<le> 4096" and "v = foldl run_op (from_slots capacity slots) ops"
  shows "(visible_under_capacity v row \<longleftrightarrow> (\<exists>q. Some (row, q) \<in> set (kv_slots v))) \<and>
    hidden_beyond_len (kv_len v) (non_empty_in_len v) = length (beyond_len v) \<and>
    (visible_under_capacity v row \<and> \<not> visible_under_len v row \<longrightarrow> row \<in> be_row ` set (beyond_len v))"
proof -
  have c: "counted v" "kv_capacity v = capacity"
    using counted_ops [OF counted_start [OF assms(1)], of ops] assms(4) by (simp_all add: from_slots_def)
  then have len: "kv_len v \<le> capacity" "kv_len v = live (kv_slots v)" "length (kv_slots v) = capacity"
    using live_le [of "kv_slots v"] by (simp_all add: counted_def)
  have bound: "walk_bound_of (kv_len v) (kv_capacity v) = Capacity capacity"
    using c len assms(2,3) by (simp add: walk_bound_of_def KEY_LIST_SANE_CAP_def)
  have all: "visible_under_capacity v row \<longleftrightarrow> (\<exists>q. Some (row, q) \<in> set (kv_slots v))"
    unfolding visible_under_capacity_def bound visible_rows by (simp add: bound_slots_def len)
  have parts: "live (kv_slots v) = live (take (kv_len v) (kv_slots v)) + live (drop (kv_len v) (kv_slots v))"
    unfolding live_append [symmetric] by simp
  have hidden: "hidden_beyond_len (kv_len v) (non_empty_in_len v) = length (beyond_len v)"
    using parts len(2) by (simp add: hidden_beyond_len_def non_empty_in_len_def beyond_len_def map_filter_length)
  have beyond: "row \<in> be_row ` set (beyond_len v)" if "Some (row, q) \<in> set (drop (kv_len v) (kv_slots v))" for q
  proof -
    have "row \<in> be_row ` set (List.map_filter (\<lambda>(i, s). map_option (\<lambda>(row, quantity).
         \<lparr>be_index = i, be_row = row, be_category_nibble = 4, be_quantity = quantity\<rparr>) s) (List.enumerate k xs))"
      if "Some (row, q) \<in> set xs" for k and xs :: "(int \<times> nat) option list"
      using that by (induction xs arbitrary: k) (auto simp: List.map_filter_simps split: option.splits)
    with that show ?thesis by (simp add: beyond_len_def)
  qed
  have "visible_under_capacity v row \<and> \<not> visible_under_len v row \<longrightarrow> row \<in> be_row ` set (beyond_len v)"
  proof
    assume h: "visible_under_capacity v row \<and> \<not> visible_under_len v row"
    then obtain q where "Some (row, q) \<in> set (kv_slots v)" using all by auto
    moreover have "Some (row, q) \<notin> set (take (kv_len v) (kv_slots v))"
      using h by (simp add: visible_under_len_def visible_rows bound_slots_def)
    ultimately have "Some (row, q) \<in> set (drop (kv_len v) (kv_slots v))"
      by (metis Un_iff append_take_drop_id set_append)
    then show "row \<in> be_row ` set (beyond_len v)" by (rule beyond)
  qed
  with all hidden show ?thesis by blast
qed

theorem capacity_walk_sees_all_witness:
  "(let v = foldl run_op (from_slots 4 [Some (1, 1), Some (2, 1), Some (3, 1)]) [Remove 1, Remove 2]
    in visible_under_capacity v 3 \<and> \<not> visible_under_len v 3 \<and> length (beyond_len v) = 1)"
proof -
  let ?v = "foldl run_op (from_slots 4 [Some (1, 1), Some (2, 1), Some (3, 1)]) [Remove 1, Remove 2]"
  have c: "?v = \<lparr>kv_len = 1, kv_capacity = 4, kv_slots = [None, None, Some (3, 1), None]\<rparr>" by code_simp
  have "\<not> visible_under_len ?v 3" unfolding c by code_simp
  moreover have "hidden_beyond_len (kv_len ?v) (non_empty_in_len ?v) = 1" unfolding c by code_simp
  moreover have "\<exists>q. Some (3, q) \<in> set (kv_slots ?v)" unfolding c by simp
  ultimately show ?thesis
    using capacity_walk_sees_all [of "[Some (1, 1), Some (2, 1), Some (3, 1)]" 4 ?v "[Remove 1, Remove 2]" 3] by simp
qed

end
