(* ===== verification/Floats.thy ===== *)
theory Floats
  imports Complex_Main "HOL-Library.Log_Nat"
begin

text \<open>
  Floating point arithmetic as the sources use it: every operation gives the exact result rounded to
  the nearest number of the format, ties to even. \<open>fl p\<close> rounds to \<open>p\<close> significant bits, \<open>fl 24\<close>
  for \<open>f32\<close> and \<open>fl 53\<close> for \<open>f64\<close>; the values here stay far inside the range of exponents. An
  \<open>f32\<close> is kept as the rational it stands for.
\<close>

section \<open>Rounding\<close>

text \<open>\<open>round_even\<close> rounds to the nearest integer, ties to the even one.\<close>

definition round_even :: "rat \<Rightarrow> int" where
  "round_even x =
     (let n = \<lfloor>x\<rfloor>; f = x - of_int n
      in if f < 1 / 2 then n else if f > 1 / 2 then n + 1 else if even n then n else n + 1)"

definition pow2 :: "int \<Rightarrow> rat" where
  "pow2 e = (if 0 \<le> e then 2 ^ nat e else 1 / 2 ^ nat (- e))"

text \<open>The exponent of the leading bit of a positive number.\<close>

definition exponent_of :: "rat \<Rightarrow> int" where
  "exponent_of x =
     (case quotient_of x of (n, d) \<Rightarrow>
        let k = bitlen n - bitlen d
        in if pow2 k \<le> x then k else k - 1)"

definition fl_pos :: "nat \<Rightarrow> rat \<Rightarrow> rat" where
  "fl_pos p x = (let u = pow2 (exponent_of x - int p + 1) in of_int (round_even (x / u)) * u)"

definition fl :: "nat \<Rightarrow> rat \<Rightarrow> rat" where
  "fl p x = (if x = 0 then 0 else if 0 < x then fl_pos p x else - fl_pos p (- x))"

text \<open>\<open>round\<close> rounds half away from zero.\<close>

definition round_away :: "rat \<Rightarrow> int" where
  "round_away x = (if 0 \<le> x then \<lfloor>x + 1 / 2\<rfloor> else - \<lfloor>- x + 1 / 2\<rfloor>)"

section \<open>Rounding is monotone\<close>

lemma round_even_bounds: "of_int (round_even x) \<le> x + 1 / 2" "x - 1 / 2 \<le> of_int (round_even x)"
proof -
  define n f where "n = \<lfloor>x\<rfloor>" and "f = x - of_int n"
  have "of_int n \<le> x" "x < of_int n + 1" using floor_correct [of x] by (simp_all add: n_def)
  then have f: "0 \<le> f" "f < 1" and x: "x = of_int n + f" by (simp_all add: f_def)
  show "of_int (round_even x) \<le> x + 1 / 2" "x - 1 / 2 \<le> of_int (round_even x)"
    using f unfolding round_even_def Let_def n_def [symmetric] f_def [symmetric] by (auto simp: x)
qed

lemma round_even_int [simp]: "round_even (of_int n) = n"
  by (simp add: round_even_def)

lemma round_even_mono:
  assumes "x \<le> y"
  shows "round_even x \<le> round_even y"
proof (cases "\<lfloor>x\<rfloor> = \<lfloor>y\<rfloor>")
  case True
  define n where "n = \<lfloor>y\<rfloor>"
  with True assms show ?thesis by (auto simp: round_even_def Let_def)
next
  case False
  then have less: "\<lfloor>x\<rfloor> + 1 \<le> \<lfloor>y\<rfloor>" using floor_mono [OF assms] by linarith
  have "round_even x \<le> \<lfloor>x\<rfloor> + 1" "\<lfloor>y\<rfloor> \<le> round_even y" by (auto simp: round_even_def Let_def)
  with less show ?thesis by linarith
qed

lemma pow2_pos [simp]: "0 < pow2 e"
  by (simp add: pow2_def)

lemma pow2_nonneg [simp]: "0 \<le> pow2 e"
  using pow2_pos [of e] by linarith

lemma pow2_neq [simp]: "pow2 e \<noteq> 0"
  using pow2_pos [of e] by linarith

lemma pow2_powi: "pow2 e = 2 powi e"
  by (cases "0 \<le> e") (simp_all add: pow2_def power_int_def power_one_over inverse_eq_divide)

lemma pow2_add: "pow2 (a + b) = pow2 a * pow2 b"
  by (simp add: pow2_powi power_int_add)

lemma pow2_mono: "a \<le> b \<Longrightarrow> pow2 a \<le> pow2 b"
  by (simp add: pow2_powi power_int_increasing)

lemma pow2_nat: "pow2 (int n) = 2 ^ n"
  by (simp add: pow2_def)

lemma bitlen_positive: "0 < n \<Longrightarrow> 0 < bitlen n"
  using bitlen_nonneg [of n] bitlen_eq_zero_iff [of n] by linarith

lemma pow2_bitlen:
  assumes "0 < n"
  shows "pow2 (bitlen n - 1) \<le> of_int n" "of_int n < pow2 (bitlen n)"
proof -
  have b: "2 ^ nat (bitlen n - 1) \<le> n" "n < 2 ^ nat (bitlen n)" "0 < bitlen n"
    using bitlen_bounds [OF assms] bitlen_positive [OF assms] by auto
  have "(of_int (2 ^ nat (bitlen n - 1)) :: rat) \<le> of_int n" "(of_int n :: rat) < of_int (2 ^ nat (bitlen n))"
    using b(1,2) by (simp_all only: of_int_le_iff of_int_less_iff)
  with b(3) show "pow2 (bitlen n - 1) \<le> of_int n" "of_int n < pow2 (bitlen n)"
    by (simp_all add: pow2_def)
qed

lemma exponent_bounds:
  assumes "0 < x"
  shows "pow2 (exponent_of x) \<le> x" "x < pow2 (exponent_of x + 1)"
proof -
  obtain n d where q: "quotient_of x = (n, d)" by fastforce
  have d: "0 < d" and x: "x = of_int n / of_int d" using quotient_of_denom_pos [OF q] quotient_of_div [OF q] by auto
  have n: "0 < n" using assms d x by (simp add: zero_less_divide_iff)
  note pn = pow2_bitlen [OF n] and pd = pow2_bitlen [OF d]
  let ?k = "bitlen n - bitlen d"
  have lower: "pow2 (?k - 1) \<le> x"
  proof -
    have "pow2 (?k - 1) * of_int d \<le> pow2 (?k - 1) * pow2 (bitlen d)" using pd(2) by (simp add: mult_left_mono)
    also have "\<dots> = pow2 (bitlen n - 1)" by (simp add: pow2_add [symmetric])
    also have "\<dots> \<le> of_int n" by (rule pn(1))
    finally show ?thesis using d by (simp add: x le_divide_eq)
  qed
  have upper: "x < pow2 (?k + 1)"
  proof -
    have "of_int n < pow2 (bitlen n)" by (rule pn(2))
    also have "\<dots> = pow2 (?k + 1) * pow2 (bitlen d - 1)" by (simp add: pow2_add [symmetric])
    also have "\<dots> \<le> pow2 (?k + 1) * of_int d" using pd(1) by (simp add: mult_left_mono)
    finally show ?thesis using d by (simp add: x divide_less_eq)
  qed
  show "pow2 (exponent_of x) \<le> x" "x < pow2 (exponent_of x + 1)"
    using lower upper by (auto simp: exponent_of_def q Let_def)
qed

lemma exponent_mono:
  assumes "0 < x" "x \<le> y"
  shows "exponent_of x \<le> exponent_of y"
proof (rule ccontr)
  assume "\<not> exponent_of x \<le> exponent_of y"
  then have "pow2 (exponent_of y + 1) \<le> pow2 (exponent_of x)" by (intro pow2_mono) simp
  with exponent_bounds [of x] exponent_bounds [of y] assms show False by linarith
qed

lemma fl_pos_bounds:
  assumes "0 < x" "0 < p"
  shows "pow2 (exponent_of x) \<le> fl_pos p x" "fl_pos p x \<le> pow2 (exponent_of x + 1)"
proof -
  let ?e = "exponent_of x" and ?u = "pow2 (exponent_of x - int p + 1)"
  have lo: "pow2 ?e / ?u = of_int (2 ^ (p - 1))"
  proof -
    have "pow2 ?e = pow2 (int (p - 1)) * ?u" using assms(2) by (simp add: pow2_add [symmetric] of_nat_diff)
    then show ?thesis by (simp add: pow2_nat nonzero_divide_eq_eq)
  qed
  have hi: "pow2 (?e + 1) / ?u = of_int (2 ^ p)"
  proof -
    have "pow2 (?e + 1) = pow2 (int p) * ?u" by (simp add: pow2_add [symmetric])
    then show ?thesis by (simp add: pow2_nat nonzero_divide_eq_eq)
  qed
  have "of_int (2 ^ (p - 1)) \<le> x / ?u" using exponent_bounds(1) [OF assms(1)] by (simp only: lo [symmetric] divide_right_mono pow2_nonneg)
  from round_even_mono [OF this] have "of_int (2 ^ (p - 1)) \<le> (of_int (round_even (x / ?u)) :: rat)"
    by (simp only: round_even_int of_int_le_iff)
  then have "of_int (2 ^ (p - 1)) * ?u \<le> fl_pos p x" by (simp add: fl_pos_def Let_def mult_right_mono)
  then show "pow2 ?e \<le> fl_pos p x" unfolding lo [symmetric] by simp
  have "x / ?u \<le> of_int (2 ^ p)" using exponent_bounds(2) [OF assms(1)] by (simp only: hi [symmetric] divide_right_mono pow2_nonneg less_imp_le)
  from round_even_mono [OF this] have "(of_int (round_even (x / ?u)) :: rat) \<le> of_int (2 ^ p)"
    by (simp only: round_even_int of_int_le_iff)
  then have "fl_pos p x \<le> of_int (2 ^ p) * ?u" by (simp add: fl_pos_def Let_def mult_right_mono)
  then show "fl_pos p x \<le> pow2 (?e + 1)"
    unfolding hi [symmetric] by simp
qed

lemma fl_pos_mono:
  assumes "0 < x" "x \<le> y" "0 < p"
  shows "fl_pos p x \<le> fl_pos p y"
proof (cases "exponent_of x = exponent_of y")
  case True
  let ?u = "pow2 (exponent_of y - int p + 1)"
  have "round_even (x / ?u) \<le> round_even (y / ?u)"
    using assms by (intro round_even_mono divide_right_mono) simp_all
  then show ?thesis by (simp add: fl_pos_def Let_def True mult_right_mono)
next
  case False
  then have "exponent_of x + 1 \<le> exponent_of y" using exponent_mono [OF assms(1,2)] by simp
  then have "pow2 (exponent_of x + 1) \<le> pow2 (exponent_of y)" by (rule pow2_mono)
  with fl_pos_bounds [of x p] fl_pos_bounds [of y p] assms show ?thesis by linarith
qed

lemma fl_pos_pos: "0 < x \<Longrightarrow> 0 < p \<Longrightarrow> 0 < fl_pos p x"
  using fl_pos_bounds(1) [of x p] pow2_pos [of "exponent_of x"] by linarith

text \<open>Rounding keeps the order of any two numbers.\<close>

lemma fl_mono:
  assumes "x \<le> y" "0 < p"
  shows "fl p x \<le> fl p y"
  using assms fl_pos_mono [of x y p] fl_pos_mono [of "- y" "- x" p] fl_pos_pos [of y p] fl_pos_pos [of "- x" p]
  by (auto simp: fl_def)

lemma fl_zero [simp]: "fl p 0 = 0"
  by (simp add: fl_def)

lemma fl_nonneg: "0 \<le> x \<Longrightarrow> 0 < p \<Longrightarrow> 0 \<le> fl p x"
  using fl_mono [of 0 x p] by simp

section \<open>Small integers are exact\<close>

lemma exponent_le: "0 < x \<Longrightarrow> x < pow2 (int p) \<Longrightarrow> exponent_of x < int p"
  using exponent_bounds(1) [of x] pow2_mono [of "int p" "exponent_of x"] by (cases "exponent_of x < int p") auto

lemma fl_of_nat:
  assumes "n < 2 ^ p"
  shows "fl p (of_nat n) = of_nat n"
proof (cases "n = 0")
  case False
  let ?x = "of_nat n :: rat"
  have x: "0 < ?x" "1 \<le> ?x" using False by simp_all
  have "(of_nat n :: rat) < of_nat (2 ^ p)" using assms by (simp only: of_nat_less_iff)
  then have "?x < pow2 (int p)" by (simp add: pow2_nat)
  from exponent_le [OF x(1) this] obtain k where k: "int p - 1 - exponent_of ?x = int k"
    using zero_le_imp_eq_int [of "int p - 1 - exponent_of ?x"] by auto
  let ?u = "pow2 (exponent_of ?x - int p + 1)"
  have "exponent_of ?x - int p + 1 = - int k" using k by simp
  then have u: "?u = 1 / 2 ^ k" by (cases "k = 0") (simp_all add: pow2_def)
  have "?x / ?u = of_int (int n * 2 ^ k)" by (simp add: u)
  then have "round_even (?x / ?u) = int n * 2 ^ k" by (simp only: round_even_int)
  then show ?thesis using x by (simp add: fl_def fl_pos_def Let_def u)
qed simp

lemma fl_one [simp]: "0 < p \<Longrightarrow> fl p 1 = 1"
  using fl_of_nat [of 1 p] one_less_power [of "2 :: nat" p] by simp

text \<open>The relative error of one rounding.\<close>

lemma fl_pos_error:
  assumes "0 < x" "0 < p"
  shows "\<bar>fl_pos p x - x\<bar> \<le> x / 2 ^ p"
proof -
  let ?u = "pow2 (exponent_of x - int p + 1)"
  have u: "0 < ?u" by simp
  let ?r = "of_int (round_even (x / ?u)) :: rat"
  have "\<bar>?r - x / ?u\<bar> \<le> 1 / 2" using round_even_bounds [of "x / ?u"] by linarith
  then have "\<bar>?r - x / ?u\<bar> * ?u \<le> 1 / 2 * ?u" using u by (intro mult_right_mono) simp_all
  moreover have "\<bar>?r - x / ?u\<bar> * ?u = \<bar>(?r - x / ?u) * ?u\<bar>" using u by (simp add: abs_mult)
  moreover have "(?r - x / ?u) * ?u = fl_pos p x - x" using u by (simp add: fl_pos_def Let_def left_diff_distrib)
  ultimately have "\<bar>fl_pos p x - x\<bar> \<le> ?u / 2" by simp
  also have "?u / 2 = pow2 (exponent_of x) / 2 ^ p"
  proof -
    have "?u * 2 ^ p = pow2 (exponent_of x + 1)" by (simp add: pow2_nat [symmetric] pow2_add [symmetric])
    also have "\<dots> = pow2 (exponent_of x) * 2" by (simp add: pow2_add pow2_def [of 1])
    finally show ?thesis by (simp add: field_simps)
  qed
  also have "\<dots> \<le> x / 2 ^ p" using exponent_bounds(1) [OF assms(1)] by (simp add: divide_right_mono)
  finally show ?thesis .
qed

lemma fl_error: "0 \<le> x \<Longrightarrow> 0 < p \<Longrightarrow> \<bar>fl p x - x\<bar> \<le> x / 2 ^ p"
  using fl_pos_error [of x p] by (auto simp: fl_def)

lemma round_away_mono: "x \<le> y \<Longrightarrow> round_away x \<le> round_away y"
  unfolding round_away_def by (auto intro!: floor_mono) linarith

lemma round_away_of_int [simp]: "round_away (of_int n) = n"
  by (simp add: round_away_def floor_unique)

lemma round_away_of_nat [simp]: "round_away (of_nat n) = int n"
  using round_away_of_int [of "int n"] by simp

lemma round_away_near:
  assumes "\<bar>x - of_nat n\<bar> < 1 / 2"
  shows "round_away x = int n"
proof -
  have b: "of_nat n - 1 / 2 < x" "x < of_nat n + 1 / 2" using assms by linarith+
  show ?thesis
  proof (cases "0 \<le> x")
    case True
    with b show ?thesis by (simp add: round_away_def) (intro floor_unique; simp)
  next
    case False
    then have "n = 0" using b by (cases n) simp_all
    with b False show ?thesis by (simp add: round_away_def) (intro floor_unique; simp)
  qed
qed

end
