(* ===== verification/ErScaleTables.thy ===== *)
theory ErScaleTables
  imports ErUpgrades Floats
begin

text \<open>
  The tables of \<open>er-logic/src/scaling.rs\<close>, \<open>native_tiers.rs\<close> and \<open>area_tiers.rs\<close>: the ladder of enemy
  strength, the band rows beside it, the rows that weaken an enemy, and the strengths the game declares for
  enemies and for ground. A literal of type \<open>f32\<close> is the decimal number rounded to 24 bits.
\<close>

section \<open>Literals and tables\<close>

definition f32 :: "rat \<Rightarrow> rat" where "f32 x = fl 24 x"

definition f64 :: "rat \<Rightarrow> rat" where "f64 x = fl 53 x"

record scaling_tier =
  st_speffect_id :: int
  st_hp :: rat
  st_attack :: rat
  st_defense :: rat

text \<open>\<open>SCALING_TIERS\<close>.\<close>

definition TIER_ROWS :: "(int \<times> rat \<times> rat \<times> rat) list" where
  "TIER_ROWS = [
   (7010, 1141 / 1000, 1096703 / 1000000, 1013 / 1000),
   (7020, 1281 / 1000, 1202198 / 1000000, 1026 / 1000),
   (7030, 1656 / 1000, 1494506 / 1000000, 1039 / 1000),
   (7040, 1813 / 1000, 1494506 / 1000000, 1053 / 1000),
   (7050, 1953 / 1000, 169011 / 100000, 1066 / 1000),
   (7060, 2266 / 1000, 1758242 / 1000000, 1079 / 1000),
   (7070, 2406 / 1000, 1830769 / 1000000, 1093 / 1000), (7080, 2688 / 1000, 2, 1106 / 1000),
   (7090, 325 / 100, 2279121 / 1000000, 1119 / 1000),
   (7100, 3703 / 1000, 2472527 / 1000000, 1133 / 1000),
   (7110, 4125 / 1000, 2672528 / 1000000, 1146 / 1000),
   (7120, 4844 / 1000, 3243956 / 1000000, 1159 / 1000),
   (7130, 5484 / 1000, 3243956 / 1000000, 1172 / 1000),
   (7140, 6563 / 1000, 352967 / 100000, 1186 / 1000), (7150, 6688 / 1000, 3584615 / 1000000, 12 / 10),
   (7160, 6875 / 1000, 363956 / 100000, 12 / 10), (7170, 7047 / 1000, 3745055 / 1000000, 1217 / 1000),
   (7180, 7203 / 1000, 3795605 / 1000000, 122 / 100),
   (7190, 7328 / 1000, 3795605 / 1000000, 123 / 100),
   (7200, 7422 / 1000, 3795605 / 1000000, 1232 / 1000)]"

definition SCALING_TIERS :: "scaling_tier list" where
  "SCALING_TIERS =
     map (\<lambda>(i, h, a, d). \<lparr>st_speffect_id = i, st_hp = f32 h, st_attack = f32 a, st_defense = f32 d\<rparr>) TIER_ROWS"

definition NUM_TIERS :: nat where "NUM_TIERS = length SCALING_TIERS"

text \<open>\<open>BAND_TIERS\<close>: a second family of strength rows, with the hit point rate of each.\<close>

definition BAND_TIERS :: "(int \<times> rat) list" where
  "BAND_TIERS = map (\<lambda>(i, h). (i, f32 h)) [
   (7400, 3434 / 1000), (7410, 3122 / 1000), (7420, 2857 / 1000), (7430, 2355 / 1000),
   (7440, 2146 / 1000), (7450, 2099 / 1000), (7460, 1845 / 1000), (7470, 1523 / 1000),
   (7480, 1479 / 1000), (7490, 1461 / 1000), (7500, 1296 / 1000), (7510, 1253 / 1000),
   (7520, 1264 / 1000), (7530, 1191 / 1000), (7540, 1008 / 1000), (7550, 1001 / 1000),
   (7560, 1015 / 1000), (7570, 1001 / 1000), (7580, 1015 / 1000), (7590, 1015 / 1000),
   (7600, 1015 / 1000), (7610, 1015 / 1000), (7620, 1015 / 1000), (7630, 1015 / 1000),
   (7640, 1015 / 1000), (7650, 1015 / 1000), (7660, 1015 / 1000), (7670, 1015 / 1000),
   (7680, 1015 / 1000), (20007400, 10981221 / 10000000), (20007410, 10839258 / 10000000),
   (20007420, 10779487 / 10000000), (20007430, 10781562 / 10000000), (20007440, 10782156 / 10000000),
   (20007450, 10768288 / 10000000), (20007460, 10770154 / 10000000), (20007470, 10771002 / 10000000),
   (20007480, 10693364 / 10000000), (20007490, 10541972 / 10000000), (20007500, 10456709 / 10000000),
   (20007510, 10388143 / 10000000), (20007520, 10313383 / 10000000), (20007530, 10206945 / 10000000),
   (20007540, 1017251 / 1000000), (20007550, 101 / 100), (20007600, 10981221 / 10000000),
   (20007610, 10839258 / 10000000), (20007620, 10779487 / 10000000), (20007630, 10781562 / 10000000),
   (20007640, 10782156 / 10000000), (20007650, 10768288 / 10000000), (20007660, 10770154 / 10000000),
   (20007670, 10771002 / 10000000), (20007680, 10693364 / 10000000), (20007690, 10541972 / 10000000),
   (20007700, 10456709 / 10000000), (20007710, 10388143 / 10000000), (20007720, 10313383 / 10000000),
   (20007730, 10206945 / 10000000), (20007740, 1017251 / 1000000), (20007750, 101 / 100)]"

text \<open>\<open>DOWNSTATE_IDS\<close> and \<open>DOWN_STATES\<close>: sets of rows that weaken an enemy, strongest attack first.\<close>

definition DOWNSTATE_IDS :: "int list" where
  "DOWNSTATE_IDS = [20018002, 20018004, 20018008, 20018027]"

record down_state =
  ds_ids :: "int list"
  ds_attack :: rat
  ds_hp :: rat

definition DOWN_STATES :: "down_state list" where
  "DOWN_STATES = map (\<lambda>(i, a, h). \<lparr>ds_ids = i, ds_attack = f32 a, ds_hp = f32 h\<rparr>) [
   ([20018008], 7 / 10, 1), ([20018004, 20018008], 7 / 10, 25 / 100),
   ([20018004, 20018027], 45 / 100, 75 / 100), ([20018004, 20018008, 20018027], 315 / 1000, 75 / 100),
   ([20018002], 3 / 10, 1), ([20018002, 20018004], 3 / 10, 25 / 100),
   ([20018002, 20018008], 21 / 100, 1), ([20018002, 20018004, 20018008], 21 / 100, 25 / 100),
   ([20018002, 20018004, 20018027], 135 / 1000, 75 / 100),
   ([20018002, 20018004, 20018008, 20018027], 945 / 10000, 75 / 100)]"

text \<open>\<open>NATIVE_TIERS\<close>: the strength of an enemy, read off the runes it pays, by \<open>npc_param_id\<close>.\<close>

definition NATIVE_TIERS :: "(int \<times> nat) list" where
  "NATIVE_TIERS = [
   (1, 2), (100, 2), (540, 2), (541, 2), (542, 2), (1000, 2), (9999, 2), (20100000, 16),
   (20101000, 16), (21109000, 19), (25009000, 16), (30100214, 8), (31709000, 16), (31710000, 19),
   (31809000, 16), (32000000, 9), (32008900, 9), (32009000, 9), (32009100, 9), (32009200, 9),
   (32009300, 9), (32009400, 9), (32009500, 9), (32009600, 9), (32009700, 9), (32009800, 9),
   (32009900, 9), (32009910, 9), (32100000, 0), (32108900, 0), (32109000, 0), (32109010, 0),
   (32109100, 0), (32109300, 0), (32109400, 0), (32109500, 0), (32109600, 0), (32109700, 0),
   (32109800, 0), (32109900, 0), (34510100, 12), (34510179, 12), (36651000, 6), (41109100, 2),
   (41809000, 2), (43000006, 0), (43111306, 0), (43114006, 0), (60010010, 0), (60010012, 0),
   (60010014, 0), (60010020, 0), (60010022, 0), (60010030, 0), (60010032, 0), (60010033, 0),
   (60010040, 0), (60010042, 0), (60010050, 0), (60010052, 0), (60010064, 0), (60010065, 0),
   (60100010, 0), (60100012, 0), (60100020, 0), (60100022, 0), (60100030, 0), (60100032, 0),
   (60100033, 0), (60100042, 0), (60100050, 0), (60100052, 0), (60100064, 0), (60100065, 0),
   (60310010, 0), (60310012, 0), (60310020, 0), (60310022, 1), (60310030, 0), (60310032, 0),
   (60310033, 0), (60310042, 1), (60310052, 2), (60400010, 0), (60400012, 0), (60400020, 0),
   (60400022, 0), (60400030, 0), (60400033, 0), (60400050, 0), (60500010, 0), (60500012, 0),
   (60500022, 0), (60500030, 0), (60500064, 0), (60501010, 0), (60501030, 0), (60600010, 0),
   (60600012, 0), (60600020, 0), (60600030, 0), (60600032, 0), (60600033, 0), (60600040, 0),
   (60600042, 0), (60600050, 0), (60600052, 0), (60600064, 0), (60600065, 0), (60601010, 0),
   (60601040, 0), (60601042, 0), (60602010, 0), (60602042, 0), (60602052, 0), (60603030, 0),
   (60604030, 0), (60605030, 0), (60700010, 0), (60700012, 0), (60700020, 0), (60700022, 0),
   (60700040, 0), (60700042, 0), (60800010, 0), (60800012, 0), (60800020, 0), (60800030, 0),
   (60800032, 0), (60800033, 0), (60800040, 0), (60800052, 0), (60800064, 0), (60810010, 0),
   (60810012, 0), (60810020, 0), (60810030, 0), (60810033, 0), (60810040, 0), (60810042, 0),
   (60810052, 0), (60820040, 0), (60900010, 0), (60900012, 0), (60900020, 0), (60900022, 0),
   (60900030, 0), (60900033, 0), (60900040, 0), (60900042, 0), (60900064, 0), (60910020, 2),
   (60911022, 6), (61000010, 0), (61000012, 0), (61000020, 0), (61000022, 0), (61000030, 0),
   (61000032, 0), (61000033, 0), (61000042, 0), (61000050, 0), (61000052, 0), (61000064, 0),
   (61000065, 0), (89990000, 2), (90010000, 2), (90010010, 19), (90010020, 1), (90010030, 2),
   (90010031, 2), (90010040, 0), (90010041, 0), (90080000, 6), (90081000, 6), (90082000, 6),
   (90083000, 6), (90084000, 6), (90090000, 2), (90510000, 6), (92200100, 6), (523000000, 12),
   (523000038, 12), (523000138, 12), (523010000, 9), (523010010, 9), (523010020, 9), (523010168, 12),
   (523020000, 9), (523030000, 9), (523040000, 9), (523050000, 9), (523060000, 9), (523070120, 12),
   (523070220, 12), (523080000, 9), (523090010, 12), (523090020, 12), (523090030, 12), (523090032, 12),
   (523090038, 12), (523090110, 12), (523090132, 12), (523090210, 12), (523090310, 12), (523100000, 9),
   (523100010, 9), (523100012, 9), (523100020, 9), (523100035, 9), (523100120, 9), (523100220, 9),
   (523110000, 12), (523110012, 12), (523110020, 12), (523110112, 12), (523110120, 12),
   (523120012, 15), (523120040, 15), (523120124, 15), (523120140, 15), (523120240, 15), (523130000, 9),
   (523130020, 9), (523130030, 9), (523130038, 9), (523130130, 9), (523130138, 9), (523140020, 12),
   (523140038, 12), (523140079, 12), (523140120, 12), (523140179, 12), (523140220, 12),
   (523160000, 15), (523160012, 15), (523160020, 15), (523160024, 15), (523180000, 12),
   (523180010, 12), (523180020, 12), (523180050, 12), (523180079, 12), (523180130, 12),
   (523180210, 12), (523180230, 12), (523180330, 12), (523190010, 12), (523190065, 12),
   (523190066, 12), (523190079, 12), (523190110, 12), (523200000, 9), (523200010, 9), (523200079, 9),
   (523200179, 9), (523200279, 9), (523210000, 9), (523210010, 9), (523210014, 9), (523210110, 9),
   (523220000, 16), (523220066, 16), (523220079, 16), (523220179, 16), (523220266, 16),
   (523230000, 19), (523230020, 19), (523230035, 19), (523230079, 19), (523230135, 19),
   (523230179, 19), (523240000, 19), (523240079, 19), (523240179, 19), (523250000, 12),
   (523250014, 12), (523250050, 12), (523250079, 12), (523250114, 12), (523250166, 12),
   (523260000, 16), (523260010, 16), (523260038, 16), (523260070, 16), (523290000, 12),
   (523290040, 12), (523310000, 12), (523310020, 12), (523310033, 12), (523310133, 12), (523320000, 9),
   (523320038, 9), (523330000, 9), (523330020, 9), (523340000, 16), (523340014, 16), (523340020, 16),
   (523340079, 16), (523340120, 16), (523340179, 16), (523340214, 16), (523350000, 9), (523350010, 9),
   (523350052, 9), (523350068, 9), (523350079, 9), (523370000, 7), (523370034, 7), (523370134, 7),
   (523390000, 12), (523390079, 12), (523420000, 12), (523440000, 9), (523440040, 9), (523480000, 16),
   (523480030, 16), (523480040, 16), (523480050, 16), (523480056, 16), (523480130, 16),
   (523480140, 16), (523480230, 16), (523480256, 16), (523480340, 16), (523480440, 16), (523500000, 7),
   (523500032, 7), (523510000, 12), (523510030, 12), (523510034, 12), (523510050, 12), (523510070, 12),
   (523510079, 12), (523510130, 12), (523520000, 19), (523520028, 19), (523521000, 19),
   (523521028, 19), (523540000, 12), (523550000, 12), (523550040, 12), (523560000, 12),
   (523570000, 12), (523580000, 12), (523590000, 19), (523590024, 19), (523610000, 12),
   (523620000, 12), (523630000, 12), (523630040, 12), (523640000, 12), (523650000, 12),
   (523680000, 16), (523680062, 16), (523680065, 16), (523690000, 12), (523720000, 19),
   (523720030, 19), (523820050, 19), (523830050, 19), (524030000, 12), (524060000, 16),
   (524140000, 19), (524150000, 19), (524160000, 19), (524170000, 19), (524180000, 19),
   (524190000, 19), (524210000, 19), (524210001, 19), (524220000, 19), (524220001, 19),
   (524230000, 19), (524250000, 19), (524250001, 19), (524250002, 19), (524270000, 19),
   (524280000, 19), (524290000, 19), (524310000, 19), (524700000, 9), (526000000, 19), (526050000, 16),
   (526060000, 16), (526100000, 16)]"

text \<open>\<open>GETSOUL_BANDS\<close>: below which payout an enemy counts as which rung.\<close>

definition GETSOUL_BANDS :: "(rat \<times> nat) list" where
  "GETSOUL_BANDS = map (\<lambda>(u, t). (f32 u, t)) [
   (5748 / 100, 0), (82012 / 1000, 1), (119373 / 1000, 2), (155724 / 1000, 5), (245235 / 1000, 6),
   (332671 / 1000, 7), (439067 / 1000, 8), (550155 / 1000, 9), (662474 / 1000, 10), (79884 / 100, 11),
   (1022169 / 1000, 12), (1412371 / 1000, 14), (1783386 / 1000, 15), (2101119 / 1000, 16)]"

definition TOP_BAND_INDEX :: nat where "TOP_BAND_INDEX = 19"

text \<open>\<open>AREA_EXCLUDED\<close>: enemies the strength of the ground says nothing about.\<close>

definition AREA_EXCLUDED :: "int list" where
  "AREA_EXCLUDED = [
   10000100, 10004000, 20100000, 20101000, 20107500, 20108500, 20109000, 20109140, 20300000, 20300100,
   20310000, 20310100, 20500000, 20500100, 20501000, 20501100, 20600000, 20600079, 21600000, 21601000,
   21700000, 21700079, 21701000, 21800000, 21801000, 21803000, 21809000, 31709000, 32000000, 32020000,
   33209000, 34510100, 34510179, 36650000, 36651000, 36660000, 36701200, 36708000, 36709000, 37100000,
   37200000, 37301000, 39509000, 41109000, 41109100, 43009200, 44909000, 44909040, 44909100, 44909132,
   44909200, 44919000, 44919320, 46040000, 53300000, 57109000, 57109100, 59100000, 60910000, 60910020,
   62109000, 62910100, 90000000, 90000100, 90000200, 500010000, 500020079, 503260034, 503300020,
   503390079, 503490054, 506010010, 506010040, 506030012, 506030020, 506030050, 506030052, 506030066,
   506080079, 523010000, 523010010, 523010020, 523010068, 523010110, 523010168, 523040000, 523040020,
   523040050, 523070000, 523070020, 523070120, 523070220, 523070320, 523090000, 523090010, 523090020,
   523090030, 523090032, 523090038, 523090110, 523090132, 523090210, 523090310, 523090410, 523100000,
   523100010, 523100012, 523100020, 523100035, 523100112, 523100120, 523100220, 523110000, 523110012,
   523110020, 523110112, 523110120, 523120000, 523120012, 523120024, 523120040, 523120124, 523120140,
   523120240, 523120340, 523130138, 523140000, 523140020, 523140038, 523140079, 523140120, 523140179,
   523140220, 523160000, 523160010, 523160012, 523160020, 523160024, 523160124, 523180000, 523180010,
   523180020, 523180030, 523180050, 523180079, 523180110, 523180130, 523180210, 523180230, 523180330,
   523190000, 523190010, 523190065, 523190066, 523190079, 523190110, 523190179, 523220000, 523220066,
   523220079, 523220166, 523220179, 523220266, 523220366, 523230000, 523230020, 523230033, 523230035,
   523230079, 523230135, 523230179, 523230279, 523240000, 523240070, 523240079, 523240179, 523250000,
   523250014, 523250050, 523250066, 523250079, 523250114, 523250166, 523250214, 523260000, 523260010,
   523260038, 523260070, 523270000, 523270030, 523270130, 523290000, 523290040, 523290066, 523310000,
   523310020, 523310033, 523310133, 523330000, 523330020, 523330024, 523340000, 523340014, 523340020,
   523340079, 523340114, 523340120, 523340179, 523340214, 523350000, 523350010, 523350052, 523350068,
   523350079, 523360000, 523360012, 523380000, 523380016, 523390000, 523390079, 523400000, 523400020,
   523420000, 523420024, 523430000, 523440000, 523440026, 523440040, 523450000, 523450010, 523460000,
   523460030, 523470000, 523470050, 523480000, 523480030, 523480040, 523480050, 523480056, 523480130,
   523480140, 523480156, 523480230, 523480240, 523480256, 523480340, 523480440, 523490000, 523490040,
   523490140, 523490240, 523490340, 523510000, 523510030, 523510034, 523510050, 523510070, 523510079,
   523510130, 523510170, 523530000, 523530032, 523530040, 523530052, 523550000, 523550040, 523550050,
   523560000, 523560020, 523600000, 523600034, 523610000, 523610066, 523630000, 523630020, 523630040,
   523640000, 523640020, 523650000, 523650020, 523670000, 523670050, 523690000, 523700000, 523710000,
   523730000, 523730040, 523740000, 523740040, 523750000, 523750040, 523760000, 523760930, 523770000,
   523770068, 523800000, 523800034, 523820000, 523820050, 523830000, 523830050, 523840000, 523840038,
   523850000, 523870000, 523870056, 523880000, 523880056, 523890000, 523890056, 523900000, 523900056,
   523910000, 523910030, 524030000, 524070000, 524070001, 524140000, 524160000, 524170000, 524240000,
   524250000, 524250001, 524250002, 524700000, 526100000, 526100052, 526100965, 533030100, 533040100,
   533090000, 533090040, 533110000, 533110012, 533120000, 533120024, 533121000, 533121040, 533160000,
   533160024, 533160124, 533180000, 533180030, 533181000, 533181010, 533181020, 533181070, 533181110,
   533190000, 533190020, 533190065, 533190120, 533230000, 533230034, 533230035, 533250000, 533250014,
   533260000, 533260034, 533260072, 533290000, 533290040, 533310000, 533310026, 533340000, 533340014,
   533340020, 533340070, 533350000, 533350068, 533440000, 533440026, 533440033, 533440040, 533450000,
   533450010, 533480000, 533480056, 533481000, 533481026, 533481030, 533481033, 533481050, 533550000,
   533550040, 533630000, 533630040, 533870000, 533870056, 533880000, 533880056, 533890000, 533890056,
   533900000, 533900040, 533900056, 534031000, 534090000, 534140000, 534160000, 534170000, 534170088,
   534180000, 534181000, 534190000, 534200000, 534250000, 534260000, 534700000, 543030200, 543110000,
   543110020, 543260000, 543260072, 543270000, 543270030, 543270130, 543390000, 543390079, 543430000,
   543430010, 543430052, 543480000, 543480040, 543690000, 543690010, 543850000, 543850079, 544070000,
   544090000, 544160000, 544170000, 544180000, 544190000, 544250000, 544700000, 544710000, 599999999]"

text \<open>\<open>AREA_TIERS\<close>: the strength declared for the ground of each bucket of the map.\<close>

definition AREA_TIERS :: "(int \<times> nat) list" where
  "AREA_TIERS = [
   (10000, 2), (11000, 9), (11050, 14), (12010, 10), (12020, 8), (12030, 10), (12050, 16), (12070, 8),
   (13000, 13), (14000, 5), (15000, 18), (16000, 10), (18000, 5), (20000, 1), (20010, 14), (21000, 8),
   (21010, 10), (21020, 8), (22000, 8), (25000, 14), (30000, 1), (30010, 1), (30020, 0), (30030, 5),
   (30040, 0), (30050, 5), (30060, 5), (30070, 8), (30080, 7), (30090, 8), (30100, 8), (30110, 0),
   (30120, 7), (30130, 8), (30140, 6), (30150, 6), (30160, 14), (30170, 11), (30180, 11), (30190, 15),
   (30200, 15), (31010, 1), (31020, 1), (31030, 0), (31040, 5), (31050, 5), (31060, 5), (31070, 8),
   (31090, 8), (31100, 14), (31110, 6), (31120, 15), (31150, 0), (31170, 0), (31180, 7), (31190, 7),
   (31200, 6), (31210, 6), (31220, 11), (32000, 1), (32010, 0), (32020, 5), (32040, 7), (32050, 7),
   (32070, 6), (32080, 6), (32110, 15), (34110, 9), (34120, 8), (34140, 11), (35000, 12), (39200, 6),
   (40000, 3), (40010, 6), (40020, 9), (41000, 0), (41010, 5), (41020, 6), (42000, 3), (42010, 5),
   (42020, 5), (42030, 6), (43000, 5), (43010, 3), (61000, 0), (61010, 0), (61020, 1), (62000, 5),
   (62010, 5), (62020, 12), (63000, 7), (63010, 8), (63020, 8), (64000, 6), (64010, 6), (64020, 14),
   (65000, 11), (65010, 11), (65020, 11), (65030, 15), (68000, 0), (68100, 3), (68200, 5), (68300, 4),
   (68400, 6), (68410, 6), (68500, 14), (68600, 13), (69000, 5), (69010, 6), (69020, 5), (69030, 5),
   (69300, 11), (69400, 11), (69410, 11)]"

section \<open>Lookups\<close>

text \<open>
  \<open>binary_search_by_key\<close> on a table with strictly ascending keys answers the one entry with the key; the
  lemmas below show that the three tables searched that way are ascending.
\<close>

definition table_search :: "(int \<times> nat) list \<Rightarrow> int \<Rightarrow> nat option" where
  "table_search t k = map_of t k"

fun ascending :: "int list \<Rightarrow> bool" where
  "ascending (x # y # zs) \<longleftrightarrow> x < y \<and> ascending (y # zs)"
| "ascending _ \<longleftrightarrow> True"

lemma ascending_sorted: "ascending xs \<Longrightarrow> sorted_wrt (<) xs"
  by (induction xs rule: ascending.induct) (auto intro: less_trans)

lemma native_ascending: "ascending (map fst NATIVE_TIERS)"
  by (simp add: NATIVE_TIERS_def)

lemma area_ascending: "ascending (map fst AREA_TIERS)"
  by (simp add: AREA_TIERS_def)

lemma excluded_ascending: "ascending AREA_EXCLUDED"
  by (simp add: AREA_EXCLUDED_def)

lemma native_bound: "list_all (\<lambda>x. snd x < 20) NATIVE_TIERS"
  by (simp add: NATIVE_TIERS_def)

lemma area_bound: "list_all (\<lambda>x. snd x < 20) AREA_TIERS"
  by (simp add: AREA_TIERS_def)

lemma bands_bound: "list_all (\<lambda>x. snd x < 20) GETSOUL_BANDS"
  by (simp add: GETSOUL_BANDS_def)

lemma table_search_bound:
  assumes "list_all (\<lambda>x. snd x < b) t" "table_search t k = Some v"
  shows "v < b"
  using assms map_of_SomeD [of t k v] by (auto simp: table_search_def list_all_iff)

section \<open>The ladder\<close>

lemma num_tiers [simp]: "NUM_TIERS = 20"
  by (simp add: NUM_TIERS_def SCALING_TIERS_def TIER_ROWS_def)

lemma length_tiers [simp]: "length SCALING_TIERS = 20"
  using num_tiers by (simp only: NUM_TIERS_def)

lemma tier_ids: "map st_speffect_id SCALING_TIERS = map (\<lambda>n. 7010 + 10 * int n) [0..<20]"
  by (simp add: SCALING_TIERS_def TIER_ROWS_def upt_rec)

text \<open>Two literals that differ by a millionth are still in that order as \<open>f32\<close>.\<close>

lemma f32_less:
  assumes "0 < x" "1000001 * x \<le> 1000000 * y"
  shows "f32 x < f32 y"
proof -
  have y: "0 < y" using assms by linarith
  have "\<bar>fl 24 x - x\<bar> \<le> x / 16777216" using fl_error [of x 24] assms by simp
  moreover have "\<bar>fl 24 y - y\<bar> \<le> y / 16777216" using fl_error [of y 24] y by simp
  ultimately show ?thesis using assms y unfolding f32_def by linarith
qed

lemma f32_mono: "x \<le> y \<Longrightarrow> f32 x \<le> f32 y"
  by (simp add: f32_def fl_mono)

lemma f32_pos: "0 < x \<Longrightarrow> 0 < f32 x"
  by (simp add: f32_def fl_def fl_pos_pos)

fun stepping :: "rat list \<Rightarrow> bool" where
  "stepping (x # y # zs) \<longleftrightarrow> 0 < x \<and> 1000001 * x \<le> 1000000 * y \<and> stepping (y # zs)"
| "stepping [x] \<longleftrightarrow> 0 < x"
| "stepping [] \<longleftrightarrow> True"

lemma stepping_sorted: "stepping xs \<Longrightarrow> sorted_wrt (<) (map f32 xs) \<and> (\<forall>x \<in> set xs. 0 < x)"
proof (induction xs rule: stepping.induct)
  case (1 x y zs)
  then show ?case using f32_less [of x y] by (auto intro: less_trans)
qed simp_all

lemma tier_hps: "map st_hp SCALING_TIERS = map f32 (map (\<lambda>(i, h, a, d). h) TIER_ROWS)"
  by (auto simp: SCALING_TIERS_def)

lemma tier_attacks: "map st_attack SCALING_TIERS = map f32 (map (\<lambda>(i, h, a, d). a) TIER_ROWS)"
  by (auto simp: SCALING_TIERS_def)

lemma hp_stepping: "stepping (map (\<lambda>(i, h, a, d). h) TIER_ROWS)"
  by (simp add: TIER_ROWS_def)

text \<open>Hit points grow strictly along the ladder, attack never shrinks.\<close>

lemma tier_hp_sorted: "sorted_wrt (<) (map st_hp SCALING_TIERS)"
  using stepping_sorted [OF hp_stepping] by (simp only: tier_hps)

lemma tier_hp_less: "i < j \<Longrightarrow> j < 20 \<Longrightarrow> st_hp (SCALING_TIERS ! i) < st_hp (SCALING_TIERS ! j)"
  using sorted_wrt_nth_less [OF tier_hp_sorted, of i j] by simp

lemma tier_hp_le: "i \<le> j \<Longrightarrow> j < 20 \<Longrightarrow> st_hp (SCALING_TIERS ! i) \<le> st_hp (SCALING_TIERS ! j)"
  using tier_hp_less [of i j] by (cases "i = j") auto

lemma tier_hp_pos:
  assumes "i < 20"
  shows "0 < st_hp (SCALING_TIERS ! i)"
proof -
  have "\<forall>h \<in> set (map st_hp SCALING_TIERS). 0 < h"
    using stepping_sorted [OF hp_stepping] by (auto simp: tier_hps intro!: f32_pos)
  with assms show ?thesis by simp
qed

lemma tier_attack_sorted: "sorted (map st_attack SCALING_TIERS)"
  by (simp add: tier_attacks TIER_ROWS_def f32_mono)

lemma tier_id: "i < 20 \<Longrightarrow> st_speffect_id (SCALING_TIERS ! i) = 7010 + 10 * int i"
  using arg_cong [OF tier_ids, of "\<lambda>l. l ! i"] by simp

end
