(* ===== verification/ErScaling.thy ===== *)
theory ErScaling
  imports ErScaleTables
begin

text \<open>
  The decisions of \<open>er-logic/src/scaling.rs\<close> about one enemy: which of the effects it carries say how
  strong the game made it (the ladder, the band rows, our own down states), how strong the ground it stands
  on is, and whether the sweep replaces, applies, weakens, clears or leaves it. Arithmetic on \<open>f32\<close> rounds
  after every operation.
\<close>

section \<open>The operator's override\<close>

datatype runtime_override = Seed | Off | ForcedTier nat

definition trim :: "string \<Rightarrow> string" where
  "trim s = rev (dropWhile is_white (rev (dropWhile is_white s)))"

definition ascii_lower :: "char \<Rightarrow> char" where
  "ascii_lower c = (if 65 \<le> (of_char c :: nat) \<and> (of_char c :: nat) \<le> 90 then char_of ((of_char c :: nat) + 32) else c)"

definition eq_ignore_case :: "string \<Rightarrow> string \<Rightarrow> bool" where
  "eq_ignore_case s t \<longleftrightarrow> map ascii_lower s = map ascii_lower t"

definition parse_runtime_override :: "string \<Rightarrow> runtime_override option" where
  "parse_runtime_override input =
     (let s = trim input
      in if eq_ignore_case s ''seed'' \<or> eq_ignore_case s ''auto'' then Some Seed
         else if eq_ignore_case s ''off'' \<or> eq_ignore_case s ''pause'' then Some Off
         else case parse_u64 s of
                None \<Rightarrow> None
              | Some tier \<Rightarrow> if tier < NUM_TIERS then Some (ForcedTier tier) else None)"

section \<open>The effects a character carries\<close>

definition in_scaling_range :: "int \<Rightarrow> bool" where
  "in_scaling_range i \<longleftrightarrow> 7000 \<le> i \<and> i < 8000"

definition in_dlc_range :: "int \<Rightarrow> bool" where
  "in_dlc_range i \<longleftrightarrow> 20007000 \<le> i \<and> i < 20008000"

definition is_scaling_speffect :: "int \<Rightarrow> bool" where
  "is_scaling_speffect i \<longleftrightarrow> in_scaling_range i \<or> in_dlc_range i"

definition is_band_rung :: "int \<Rightarrow> bool" where
  "is_band_rung i \<longleftrightarrow> list_ex (\<lambda>x. fst x = i) BAND_TIERS"

definition is_ladder_rung :: "int \<Rightarrow> bool" where
  "is_ladder_rung i \<longleftrightarrow> (in_dlc_range i \<and> \<not> is_band_rung i) \<or> list_ex (\<lambda>t. st_speffect_id t = i) SCALING_TIERS"

definition is_downstate_id :: "int \<Rightarrow> bool" where
  "is_downstate_id i \<longleftrightarrow> i \<in> set DOWNSTATE_IDS"

datatype scaling_kind = Ladder | OtherInRange | Downstate

definition kind_of :: "int \<Rightarrow> scaling_kind option" where
  "kind_of i =
     (if is_ladder_rung i then Some Ladder
      else if is_downstate_id i then Some Downstate
      else if is_scaling_speffect i then Some OtherInRange
      else None)"

definition position :: "('a \<Rightarrow> bool) \<Rightarrow> 'a list \<Rightarrow> nat option" where
  "position P xs = find (\<lambda>i. P (xs ! i)) [0..<length xs]"

text \<open>A band row counts as the lowest rung with at least its hit points.\<close>

definition band_native_tier :: "int \<Rightarrow> nat option" where
  "band_native_tier i =
     (case find (\<lambda>x. fst x = i) BAND_TIERS of
        None \<Rightarrow> None
      | Some (_, hp) \<Rightarrow>
          Some (case position (\<lambda>t. hp \<le> st_hp t) SCALING_TIERS of Some t \<Rightarrow> t | None \<Rightarrow> NUM_TIERS - 1))"

definition skip_unrunged_at_floor :: "bool \<Rightarrow> nat \<Rightarrow> bool" where
  "skip_unrunged_at_floor carried_ladder_rung target_tier \<longleftrightarrow> \<not> carried_ladder_rung \<and> target_tier = 0"

definition ladder_tier :: "int \<Rightarrow> nat option" where
  "ladder_tier i = position (\<lambda>t. st_speffect_id t = i) SCALING_TIERS"

definition is_scaling_with_downstates :: "int \<Rightarrow> bool" where
  "is_scaling_with_downstates i \<longleftrightarrow> is_scaling_speffect i \<or> is_downstate_id i"

fun partition_carried :: "int list \<Rightarrow> int list \<times> int list" where
  "partition_carried [] = ([], [])"
| "partition_carried (i # rest) =
     (case partition_carried rest of (scaling, other) \<Rightarrow>
        if is_scaling_with_downstates i then (i # scaling, other) else (scaling, i # other))"

definition settled_on_target :: "int list \<Rightarrow> int \<Rightarrow> bool" where
  "settled_on_target carried target \<longleftrightarrow> carried \<noteq> [] \<and> list_all (\<lambda>i. i = target) carried"

definition settled_on_downstate :: "int list \<Rightarrow> down_state \<Rightarrow> bool" where
  "settled_on_downstate carried state \<longleftrightarrow>
     length carried = length (ds_ids state) \<and> list_all (\<lambda>i. i \<in> set carried) (ds_ids state)"

section \<open>How strong the ground is\<close>

definition MIN_AREA_SAMPLE :: w32 where "MIN_AREA_SAMPLE = 8"

fun first_above :: "w32 \<Rightarrow> w32 \<Rightarrow> nat \<Rightarrow> w32 list \<Rightarrow> nat option" where
  "first_above half seen idx [] = None"
| "first_above half seen idx (n # ns) = (if half < seen + n then Some idx else first_above half (seen + n) (Suc idx) ns)"

definition area_tier_from_histogram :: "w32 list \<Rightarrow> nat option" where
  "area_tier_from_histogram hist =
     (let total = sum_list hist
      in if total < MIN_AREA_SAMPLE then None else first_above (total div 2) 0 0 hist)"

definition baked_area_tier :: "int \<Rightarrow> nat option" where
  "baked_area_tier region = table_search AREA_TIERS region"

datatype area_source = Baked | Live | Latched | Unknown

definition resolve_area_tier :: "nat option \<Rightarrow> nat option \<Rightarrow> nat option \<Rightarrow> nat option \<times> area_source" where
  "resolve_area_tier baked fresh latched =
     (case baked of Some t \<Rightarrow> (Some t, Baked)
      | None \<Rightarrow> (case fresh of Some t \<Rightarrow> (Some t, Live)
                | None \<Rightarrow> (case latched of Some t \<Rightarrow> (Some t, Latched) | None \<Rightarrow> (None, Unknown))))"

record area_anchor =
  aa_region :: "int option"
  aa_tier :: "nat option"

definition anchor_new :: area_anchor where
  "anchor_new = \<lparr>aa_region = None, aa_tier = None\<rparr>"

definition anchor_resolve :: "int \<Rightarrow> nat option \<Rightarrow> area_anchor \<Rightarrow> nat option \<times> area_anchor" where
  "anchor_resolve region fresh a =
     (let a1 = (if aa_region a \<noteq> Some region then \<lparr>aa_region = Some region, aa_tier = None\<rparr> else a);
          a2 = (if fresh \<noteq> None then a1\<lparr>aa_tier := fresh\<rparr> else a1)
      in (aa_tier a2, a2))"

definition is_latched :: "nat option \<Rightarrow> area_anchor \<Rightarrow> bool" where
  "is_latched fresh a \<longleftrightarrow> fresh = None \<and> aa_tier a \<noteq> None"

definition anchor_forget :: "area_anchor \<Rightarrow> area_anchor" where
  "anchor_forget a = \<lparr>aa_region = None, aa_tier = None\<rparr>"

section \<open>Weakening\<close>

definition DOWN_DEADBAND :: rat where "DOWN_DEADBAND = f32 (90 / 100)"
definition DOWN_TOLERANCE :: rat where "DOWN_TOLERANCE = f32 (2 / 100)"

text \<open>\<open>fold(NEG_INFINITY, f32::max)\<close>: \<open>None\<close> stands for the infinity.\<close>

definition fold_max :: "rat list \<Rightarrow> rat option" where
  "fold_max xs = foldl (\<lambda>m x. case m of None \<Rightarrow> Some x | Some y \<Rightarrow> Some (max y x)) None xs"

text \<open>\<open>min_by\<close> keeps the first of the least.\<close>

fun min_by :: "('a \<Rightarrow> 'a \<Rightarrow> ordering) \<Rightarrow> 'a option \<Rightarrow> 'a list \<Rightarrow> 'a option" where
  "min_by c best [] = best"
| "min_by c best (x # xs) =
     min_by c (case best of None \<Rightarrow> Some x | Some b \<Rightarrow> (if c b x = Greater then Some x else Some b)) xs"

definition hp_gap :: "rat \<Rightarrow> down_state \<Rightarrow> rat" where
  "hp_gap want_hp s = \<bar>f32 (ds_hp s - want_hp)\<bar>"

definition closer :: "rat \<Rightarrow> down_state \<Rightarrow> down_state \<Rightarrow> ordering" where
  "closer want_hp a b =
     then_with (cmp (hp_gap want_hp a) (hp_gap want_hp b)) (cmp (length (ds_ids a)) (length (ds_ids b)))"

definition attack_step :: "nat \<Rightarrow> nat \<Rightarrow> rat" where
  "attack_step native target = f32 (st_attack (SCALING_TIERS ! target) / st_attack (SCALING_TIERS ! native))"

definition attack_limit :: "rat \<Rightarrow> rat" where
  "attack_limit want = f32 (want * f32 (1 + DOWN_TOLERANCE))"

definition down_state_for :: "nat \<Rightarrow> nat \<Rightarrow> down_state option" where
  "down_state_for native target =
     (if native \<le> target then None
      else if NUM_TIERS \<le> native \<or> NUM_TIERS \<le> target then None
      else
        let want_attack = attack_step native target
        in if DOWN_DEADBAND < want_attack then None
           else
             let want_hp = f32 (st_hp (SCALING_TIERS ! target) / st_hp (SCALING_TIERS ! native));
                 attack = (case fold_max (filter (\<lambda>a. a \<le> attack_limit want_attack) (map ds_attack DOWN_STATES)) of
                             Some a \<Rightarrow> a | None \<Rightarrow> ds_attack (last DOWN_STATES))
             in min_by (closer want_hp) None (filter (\<lambda>s. ds_attack s = attack) DOWN_STATES))"

section \<open>What to do with one enemy\<close>

datatype scale_action = Replace | Apply | Down down_state | KeepDown | ClearDown | NoTouch

definition native_tier :: "int \<Rightarrow> nat option" where
  "native_tier npc = table_search NATIVE_TIERS npc"

definition area_may_vouch_for :: "int \<Rightarrow> bool" where
  "area_may_vouch_for npc \<longleftrightarrow> \<not> List.member AREA_EXCLUDED npc"

definition presumed_native_tier :: "int \<Rightarrow> nat option \<Rightarrow> nat option" where
  "presumed_native_tier npc area =
     (case native_tier npc of Some t \<Rightarrow> Some t | None \<Rightarrow> if area_may_vouch_for npc then area else None)"

definition presumed_native_tier_down :: "int \<Rightarrow> nat option \<Rightarrow> nat option" where
  "presumed_native_tier_down npc area = (case native_tier npc of Some t \<Rightarrow> Some t | None \<Rightarrow> area)"

definition placed_by_area :: "int \<Rightarrow> nat option \<Rightarrow> bool" where
  "placed_by_area npc area \<longleftrightarrow> native_tier npc = None \<and> area \<noteq> None \<and> area_may_vouch_for npc"

definition placed_by_area_down :: "int \<Rightarrow> nat option \<Rightarrow> bool" where
  "placed_by_area_down npc area \<longleftrightarrow> native_tier npc = None \<and> area \<noteq> None"

definition stronger_than :: "nat \<Rightarrow> nat option \<Rightarrow> bool" where
  "stronger_than target up = (case up of Some native \<Rightarrow> native < target | None \<Rightarrow> False)"

definition scale_action_for :: "bool \<Rightarrow> bool \<Rightarrow> int \<Rightarrow> nat \<Rightarrow> nat option \<Rightarrow> scale_action" where
  "scale_action_for carried_ladder_rung carried_downstate npc target_tier area_tier =
     (if carried_ladder_rung then Replace
      else if stronger_than target_tier (presumed_native_tier npc area_tier) then Apply
      else case presumed_native_tier_down npc area_tier of
             Some native \<Rightarrow>
               if target_tier < native then
                 (case down_state_for native target_tier of
                    Some state \<Rightarrow> Down state
                  | None \<Rightarrow> if carried_downstate then ClearDown else NoTouch)
               else if carried_downstate then ClearDown else NoTouch
           | None \<Rightarrow> if carried_downstate then KeepDown else NoTouch)"

definition speffect_id_for_tier :: "nat \<Rightarrow> int" where
  "speffect_id_for_tier tier = st_speffect_id (SCALING_TIERS ! min tier (NUM_TIERS - 1))"

definition tier_rates :: "nat \<Rightarrow> scaling_tier" where
  "tier_rates tier = SCALING_TIERS ! min tier (NUM_TIERS - 1)"

section \<open>The median of the histogram\<close>

lemma first_above_spec:
  assumes "unat seen + sum_list (map unat hist) < 2 ^ 32" "seen \<le> half"
  shows "(first_above half seen idx hist = None \<longleftrightarrow> unat seen + sum_list (map unat hist) \<le> unat half) \<and>
    (\<forall>m. first_above half seen idx hist = Some m \<longrightarrow> idx \<le> m \<and> m - idx < length hist \<and>
       unat seen + sum_list (map unat (take (m - idx) hist)) \<le> unat half \<and>
       unat half < unat seen + sum_list (map unat (take (Suc m - idx) hist)))"
  using assms
proof (induction half seen idx hist rule: first_above.induct)
  case (1 half seen idx)
  then show ?case by (simp add: word_le_nat_alt)
next
  case (2 half seen idx n ns)
  have u: "unat (seen + n) = unat seen + unat n" using "2.prems"(1) by (intro unat_add_lem [THEN iffD1]) simp
  show ?case
  proof (cases "half < seen + n")
    case True
    then show ?thesis using "2.prems" u by (auto simp: word_less_nat_alt word_le_nat_alt Suc_diff_le)
  next
    case False
    with "2.IH" [OF False] "2.prems" u have IH:
      "(first_above half (seen + n) (Suc idx) ns = None \<longleftrightarrow> unat seen + unat n + sum_list (map unat ns) \<le> unat half)"
      "\<And>m. first_above half (seen + n) (Suc idx) ns = Some m \<Longrightarrow> Suc idx \<le> m \<and> m - Suc idx < length ns \<and>
         unat seen + unat n + sum_list (map unat (take (m - Suc idx) ns)) \<le> unat half \<and>
         unat half < unat seen + unat n + sum_list (map unat (take (Suc m - Suc idx) ns))"
      by (simp_all add: add.assoc not_less)
    have step: "take (m - idx) (n # ns) = n # take (m - Suc idx) ns" "take (Suc m - idx) (n # ns) = n # take (Suc m - Suc idx) ns"
      if "Suc idx \<le> m" for m using that by (simp_all add: take_Cons' Suc_diff_le)
    show ?thesis
    proof (intro conjI allI impI)
      show "first_above half seen idx (n # ns) = None \<longleftrightarrow> unat seen + sum_list (map unat (n # ns)) \<le> unat half"
        using False IH(1) by (simp add: add.assoc)
      fix m assume "first_above half seen idx (n # ns) = Some m"
      then have "first_above half (seen + n) (Suc idx) ns = Some m" using False by simp
      from IH(2) [OF this] show "idx \<le> m" "m - idx < length (n # ns)"
        "unat seen + sum_list (map unat (take (m - idx) (n # ns))) \<le> unat half"
        "unat half < unat seen + sum_list (map unat (take (Suc m - idx) (n # ns)))"
        using step [of m] by (auto simp: add.assoc)
    qed
  qed
qed

lemma unat_sum_list: "sum_list (map unat hist) < 2 ^ 32 \<Longrightarrow> unat (sum_list (hist :: w32 list)) = sum_list (map unat hist)"
proof (induction hist)
  case (Cons n ns)
  then have "unat (n + sum_list ns) = unat n + unat (sum_list ns)" by (intro unat_add_lem [THEN iffD1]) simp
  with Cons show ?case by simp
qed simp

text \<open>
  The strength of an area is the median of what the game declared there. While the counts do not
  overflow, a histogram of fewer than eight enemies gives no answer, and any other gives the rung of its
  median enemy: at most half of the enemies are below that rung, and more than half are not above it.
\<close>

theorem area_tier_is_median:
  assumes "sum_list (map unat hist) < 2 ^ 32"
  shows "(area_tier_from_histogram hist = None \<longleftrightarrow> sum_list (map unat hist) < 8) \<and>
    (\<forall>m. area_tier_from_histogram hist = Some m \<longrightarrow> m < length hist \<and>
       2 * sum_list (map unat (take m hist)) \<le> sum_list (map unat hist) \<and>
       sum_list (map unat hist) < 2 * sum_list (map unat (take (Suc m) hist)))"
proof -
  let ?t = "sum_list hist" and ?n = "sum_list (map unat hist)"
  have t: "unat ?t = ?n" by (rule unat_sum_list [OF assms])
  have half: "unat (?t div 2) = ?n div 2" by (simp add: unat_div t)
  have spec: "(first_above (?t div 2) 0 0 hist = None \<longleftrightarrow> ?n \<le> ?n div 2) \<and>
    (\<forall>m. first_above (?t div 2) 0 0 hist = Some m \<longrightarrow> m < length hist \<and>
       sum_list (map unat (take m hist)) \<le> ?n div 2 \<and> ?n div 2 < sum_list (map unat (take (Suc m) hist)))"
    using first_above_spec [of 0 hist "?t div 2" 0] assms half by simp
  have less: "?t < MIN_AREA_SAMPLE \<longleftrightarrow> ?n < 8" by (simp add: word_less_nat_alt t MIN_AREA_SAMPLE_def)
  show ?thesis
  proof (cases "?n < 8")
    case True
    with less show ?thesis by (simp add: area_tier_from_histogram_def Let_def)
  next
    case False
    then have "area_tier_from_histogram hist = first_above (?t div 2) 0 0 hist"
      using less by (simp add: area_tier_from_histogram_def Let_def)
    with spec False show ?thesis by auto
  qed
qed

theorem area_tier_is_median_witness:
  "area_tier_from_histogram [2, 0, 3, 4, 1] = Some 3 \<and> 2 * (2 + 0 + 3) \<le> (10 :: nat)"
proof -
  have "area_tier_from_histogram [2, 0, 3, 4, 1] = Some 3" by code_simp
  with area_tier_is_median [of "[2, 0, 3, 4, 1]"] show ?thesis by simp
qed

section \<open>The state that weakens\<close>

lemma foldl_max: "foldl (\<lambda>m x. case m of None \<Rightarrow> Some x | Some y \<Rightarrow> Some (max y x)) (Some (y :: rat)) xs =
    Some (Max (insert y (set xs)))"
proof (induction xs arbitrary: y)
  case (Cons x xs)
  show ?case by (cases "xs = []") (simp_all add: Cons max.assoc max.commute max.left_commute)
qed simp

lemma fold_max_eq: "fold_max xs = (if xs = [] then None else Some (Max (set xs)))"
  by (cases xs) (simp_all add: fold_max_def foldl_max del: foldl_Cons, simp add: foldl_max)

lemma min_by_least:
  assumes trans: "\<And>x y z. c x y = Greater \<Longrightarrow> c x z \<noteq> Greater \<Longrightarrow> c y z \<noteq> Greater" and refl: "\<And>x. c x x \<noteq> Greater"
  shows "(\<forall>b. best = Some b \<longrightarrow> (\<exists>r. min_by c best xs = Some r \<and> c r b \<noteq> Greater \<and> (\<forall>y. c b y \<noteq> Greater \<longrightarrow> c r y \<noteq> Greater) \<and>
      r \<in> insert b (set xs) \<and> (\<forall>x \<in> set xs. c r x \<noteq> Greater)))"
proof (induction xs arbitrary: best)
  case Nil
  then show ?case by (auto simp: refl)
next
  case (Cons x xs)
  show ?case
  proof (intro allI impI)
    fix b assume b: "best = Some b"
    let ?n = "if c b x = Greater then x else b"
    from Cons.IH [of "Some ?n"] obtain r where r: "min_by c (Some ?n) xs = Some r" "c r ?n \<noteq> Greater"
      "\<forall>y. c ?n y \<noteq> Greater \<longrightarrow> c r y \<noteq> Greater" "r \<in> insert ?n (set xs)" "\<forall>x \<in> set xs. c r x \<noteq> Greater" by blast
    have "min_by c best (x # xs) = Some r" using r(1) by (simp add: b if_distrib [of Some])
    moreover have "c ?n b \<noteq> Greater" "c ?n x \<noteq> Greater" "\<And>y. c b y \<noteq> Greater \<Longrightarrow> c ?n y \<noteq> Greater"
      using trans [of b x b] trans [of b x] refl by (auto split: if_splits)
    ultimately show "\<exists>r. min_by c best (x # xs) = Some r \<and> c r b \<noteq> Greater \<and> (\<forall>y. c b y \<noteq> Greater \<longrightarrow> c r y \<noteq> Greater) \<and>
      r \<in> insert b (set (x # xs)) \<and> (\<forall>y \<in> set (x # xs). c r y \<noteq> Greater)"
      using r by (auto split: if_splits)
  qed
qed

lemma min_by_None:
  assumes "\<And>x y z. c x y = Greater \<Longrightarrow> c x z \<noteq> Greater \<Longrightarrow> c y z \<noteq> Greater" "\<And>x. c x x \<noteq> Greater" "xs \<noteq> []"
  shows "\<exists>r. min_by c None xs = Some r \<and> r \<in> set xs \<and> (\<forall>x \<in> set xs. c r x \<noteq> Greater)"
proof (cases xs)
  case (Cons x ys)
  have "\<exists>r. min_by c (Some x) ys = Some r \<and> c r x \<noteq> Greater \<and> (\<forall>y. c x y \<noteq> Greater \<longrightarrow> c r y \<noteq> Greater) \<and>
      r \<in> insert x (set ys) \<and> (\<forall>y \<in> set ys. c r y \<noteq> Greater)"
    by (rule min_by_least [where best = "Some x", rule_format]) (use assms in blast)+
  then show ?thesis by (auto simp: Cons)
qed (simp add: assms(3))

lemma closer_greater:
  "closer w a b = Greater \<longleftrightarrow>
     hp_gap w b < hp_gap w a \<or> (hp_gap w b = hp_gap w a \<and> length (ds_ids b) < length (ds_ids a))"
  by (auto simp: closer_def then_with_def cmp_def split: ordering.splits)

lemma tier_attack_range: "i < 20 \<Longrightarrow> 1 \<le> st_attack (SCALING_TIERS ! i) \<and> st_attack (SCALING_TIERS ! i) \<le> 4"
proof -
  have rows: "\<forall>x \<in> set (map (\<lambda>(i, h, a, d). a) TIER_ROWS). 1 \<le> x \<and> x \<le> 4" by (simp add: TIER_ROWS_def)
  have "f32 1 = 1" "f32 4 = 4" using fl_of_nat [of 1 24] fl_of_nat [of 4 24] by (simp_all add: f32_def)
  with rows f32_mono have "\<forall>x \<in> set (map st_attack SCALING_TIERS). 1 \<le> x \<and> x \<le> 4"
    unfolding tier_attacks by (metis (no_types, lifting) imageE set_map)
  then show "i < 20 \<Longrightarrow> ?thesis" by simp
qed

lemma attack_step_ge: "target < 20 \<Longrightarrow> native < 20 \<Longrightarrow> 1 / 4 \<le> attack_step native target"
proof -
  assume t: "target < 20" "native < 20"
  have q: "f32 (1 / 4) = 1 / 4" unfolding f32_def by code_simp
  have "1 / 4 \<le> st_attack (SCALING_TIERS ! target) / st_attack (SCALING_TIERS ! native)"
    using tier_attack_range [OF t(1)] tier_attack_range [OF t(2)] by (simp add: le_divide_eq)
  from f32_mono [OF this] show ?thesis by (simp add: attack_step_def q)
qed

lemma attack_limit_ge: "1 / 4 \<le> want \<Longrightarrow> 1 / 4 \<le> attack_limit want"
proof -
  assume w: "1 / 4 \<le> want"
  have q: "f32 (1 / 4) = 1 / 4" "f32 1 = 1" unfolding f32_def by code_simp+
  have "0 \<le> DOWN_TOLERANCE" using f32_pos [of "2 / 100"] by (simp add: DOWN_TOLERANCE_def)
  then have "1 \<le> f32 (1 + DOWN_TOLERANCE)" using f32_mono [of 1 "1 + DOWN_TOLERANCE"] q(2) by simp
  then have "1 / 4 * 1 \<le> want * f32 (1 + DOWN_TOLERANCE)" using w by (intro mult_mono) simp_all
  from f32_mono [OF this] show ?thesis by (simp add: attack_limit_def q)
qed

lemma weak_state_exists: "\<exists>s \<in> set DOWN_STATES. ds_attack s \<le> 1 / 4"
proof -
  have q: "f32 (1 / 4) = 1 / 4" unfolding f32_def by code_simp
  have "f32 (945 / 10000) \<le> 1 / 4" using f32_mono [of "945 / 10000" "1 / 4"] by (simp add: q)
  then show ?thesis by (auto simp: DOWN_STATES_def)
qed

lemma down_state_spec:
  "(down_state_for native target = None \<longleftrightarrow> native \<le> target \<or> 20 \<le> native \<or> DOWN_DEADBAND < attack_step native target) \<and>
   (\<forall>s. down_state_for native target = Some s \<longrightarrow> s \<in> set DOWN_STATES \<and>
      ds_attack s \<le> attack_limit (attack_step native target) \<and>
      (\<forall>s' \<in> set DOWN_STATES. ds_attack s' \<le> attack_limit (attack_step native target) \<longrightarrow> ds_attack s' \<le> ds_attack s))"
proof (cases "native \<le> target \<or> 20 \<le> native \<or> DOWN_DEADBAND < attack_step native target")
  case True
  then have "down_state_for native target = None" by (auto simp: down_state_for_def Let_def)
  with True show ?thesis by simp
next
  case False
  then have lt: "target < native" "native < 20" "target < 20" by auto
  let ?lim = "attack_limit (attack_step native target)"
  let ?ok = "filter (\<lambda>a. a \<le> ?lim) (map ds_attack DOWN_STATES)"
  let ?w = "f32 (st_hp (SCALING_TIERS ! target) / st_hp (SCALING_TIERS ! native))"
  have "1 / 4 \<le> ?lim" by (intro attack_limit_ge attack_step_ge lt)
  with weak_state_exists obtain s0 where "s0 \<in> set DOWN_STATES" "ds_attack s0 \<le> ?lim" by force
  then have ne: "?ok \<noteq> []" by (auto simp: filter_empty_conv)
  define attack where "attack = Max (set ?ok)"
  have max: "attack \<in> set ?ok" "\<forall>a \<in> set ?ok. a \<le> attack"
    unfolding attack_def using ne by (auto intro!: Max_in simp del: set_filter)
  have eq: "down_state_for native target = min_by (closer ?w) None (filter (\<lambda>s. ds_attack s = attack) DOWN_STATES)"
    using False lt ne by (simp add: down_state_for_def Let_def fold_max_eq attack_def)
  have "filter (\<lambda>s. ds_attack s = attack) DOWN_STATES \<noteq> []" using max(1) by (auto simp: filter_empty_conv)
  then have "\<exists>r. min_by (closer ?w) None (filter (\<lambda>s. ds_attack s = attack) DOWN_STATES) = Some r \<and>
      r \<in> set (filter (\<lambda>s. ds_attack s = attack) DOWN_STATES) \<and>
      (\<forall>x \<in> set (filter (\<lambda>s. ds_attack s = attack) DOWN_STATES). closer ?w r x \<noteq> Greater)"
    by (intro min_by_None) (auto simp: closer_greater)
  then obtain r where r: "down_state_for native target = Some r" "r \<in> set DOWN_STATES" "ds_attack r = attack"
    unfolding eq by auto
  with False max show ?thesis by auto
qed

section \<open>Evidence before action\<close>

text \<open>
  C31: The sweep acts only on evidence. An enemy that carries a ladder rung is always brought to the
  target's. Without one it is raised only when the strength it is known for, or that of ground allowed to
  speak for it, lies below the target; it is weakened only when that strength lies above, by a state whose
  attack is the largest that stays within the tolerance of the step between the two tiers; and a state
  the sweep applied earlier is kept exactly while nothing is known, never left behind otherwise.
\<close>

theorem sweep_acts_on_evidence:
  "(rung \<longrightarrow> scale_action_for rung down npc target area = Replace) \<and>
   (\<not> rung \<longrightarrow> (scale_action_for rung down npc target area = Apply \<longleftrightarrow>
      (\<exists>n. (native_tier npc = Some n \<or> (native_tier npc = None \<and> area_may_vouch_for npc \<and> area = Some n)) \<and> n < target)) \<and>
    (\<forall>s. scale_action_for rung down npc target area = Down s \<longrightarrow>
      (\<exists>n. presumed_native_tier_down npc area = Some n \<and> target < n \<and> n < 20 \<and> s \<in> set DOWN_STATES \<and>
         ds_attack s \<le> attack_limit (attack_step n target) \<and>
         (\<forall>s' \<in> set DOWN_STATES. ds_attack s' \<le> attack_limit (attack_step n target) \<longrightarrow> ds_attack s' \<le> ds_attack s))) \<and>
    (scale_action_for rung down npc target area = KeepDown \<longleftrightarrow> down \<and> native_tier npc = None \<and> area = None) \<and>
    (down \<longrightarrow> scale_action_for rung down npc target area \<noteq> NoTouch) \<and>
    (\<not> down \<longrightarrow> scale_action_for rung down npc target area \<noteq> ClearDown))"
proof (cases rung)
  case True
  then show ?thesis by (simp add: scale_action_for_def)
next
  case False
  have down: "\<exists>n. presumed_native_tier_down npc area = Some n \<and> target < n \<and> n < 20 \<and> s \<in> set DOWN_STATES \<and>
         ds_attack s \<le> attack_limit (attack_step n target) \<and>
         (\<forall>s' \<in> set DOWN_STATES. ds_attack s' \<le> attack_limit (attack_step n target) \<longrightarrow> ds_attack s' \<le> ds_attack s)"
    if act: "scale_action_for False down npc target area = Down s" for s
  proof -
    from act obtain n where n: "presumed_native_tier_down npc area = Some n" "target < n" "down_state_for n target = Some s"
      by (auto simp: scale_action_for_def split: if_splits option.splits)
    moreover have "n < 20" using n(3) down_state_spec [of n target] by fastforce
    ultimately show ?thesis using down_state_spec [of n target] by blast
  qed
  have rest: "(scale_action_for False down npc target area = Apply \<longleftrightarrow>
      (\<exists>n. (native_tier npc = Some n \<or> (native_tier npc = None \<and> area_may_vouch_for npc \<and> area = Some n)) \<and> n < target))"
    "scale_action_for False down npc target area = KeepDown \<longleftrightarrow> down \<and> native_tier npc = None \<and> area = None"
    "down \<Longrightarrow> scale_action_for False down npc target area \<noteq> NoTouch"
    "\<not> down \<Longrightarrow> scale_action_for False down npc target area \<noteq> ClearDown"
    by (auto simp: scale_action_for_def stronger_than_def presumed_native_tier_def presumed_native_tier_down_def
      split: option.splits)
  from False down rest show ?thesis by simp
qed

theorem sweep_acts_on_evidence_witness:
  "scale_action_for True False 1 5 None = Replace \<and> scale_action_for False True 0 5 None = KeepDown"
proof -
  have n: "native_tier 0 = None" by code_simp
  from sweep_acts_on_evidence [of True False 1 5 None] have "scale_action_for True False 1 5 None = Replace" by simp
  moreover from sweep_acts_on_evidence [of False True 0 5 None] n have "scale_action_for False True 0 5 None = KeepDown" by simp
  ultimately show ?thesis by simp
qed

end
