(* ===== verification/ErTargets.thy ===== *)
theory ErTargets
  imports ErScaling
begin

text \<open>
  Where the target of a region comes from in \<open>er-logic/src/scaling.rs\<close>: the sphere targets of the seed
  mapped to rungs of the ladder, the floor and ceiling given as multipliers, the offset for co-op, the
  rune payouts that follow a target, and the notice shown on entering a region. The \<open>HashMap\<close> of targets
  is a partial map; a multiplier that is not a number does not occur.
\<close>

section \<open>Configuration\<close>

datatype scaling_basis = Geographic | Sphere

record scaling_config =
  sc_basis :: scaling_basis
  sc_floor_tier :: nat
  sc_region_targets :: "int \<rightharpoonup> int"
  sc_region_ranges :: "(int \<times> int \<times> int) list"
  sc_max_target :: int
  sc_dlc_blessing_floors :: "(int \<times> int \<times> int) list"
  sc_dlc_buckets :: "int list"
  sc_ceiling_tier :: nat

definition ceiling_tier_from_multiplier :: "rat \<Rightarrow> nat" where
  "ceiling_tier_from_multiplier ceil_mult =
     (case find (\<lambda>i. st_hp (SCALING_TIERS ! i) \<le> ceil_mult) (rev [0..<NUM_TIERS]) of Some i \<Rightarrow> i | None \<Rightarrow> 0)"

definition floor_tier_from_multiplier :: "rat \<Rightarrow> nat" where
  "floor_tier_from_multiplier floor_mult =
     (case position (\<lambda>t. floor_mult \<le> st_hp t) SCALING_TIERS of Some i \<Rightarrow> i | None \<Rightarrow> NUM_TIERS - 1)"

section \<open>Targets\<close>

definition clamp_rat :: "rat \<Rightarrow> rat \<Rightarrow> rat \<Rightarrow> rat" where
  "clamp_rat lo hi x = (if x < lo then lo else if hi < x then hi else x)"

definition target_fraction :: "int \<Rightarrow> int \<Rightarrow> rat" where
  "target_fraction target max_target =
     clamp_rat 0 1 (f32 (f32 (of_int (max target 0)) / f32 (of_int max_target)))"

definition tier_for_target :: "int \<Rightarrow> int \<Rightarrow> nat \<Rightarrow> nat \<Rightarrow> nat" where
  "tier_for_target target max_target floor_tier ceiling_tier =
     (let c = min ceiling_tier (NUM_TIERS - 1); f = min floor_tier c
      in if max_target \<le> 0 then f
         else
           let tier = f + nat (round_away (f32 (target_fraction target max_target * f32 (of_nat (c - f)))))
           in min (max tier f) c)"

definition find_range :: "int \<Rightarrow> (int \<times> int \<times> int) list \<Rightarrow> int option" where
  "find_range region ranges =
     map_option (\<lambda>(lo, hi, v). v) (find (\<lambda>(lo, hi, v). lo \<le> region \<and> region \<le> hi) ranges)"

definition tier_for_region :: "scaling_config \<Rightarrow> int \<Rightarrow> nat option" where
  "tier_for_region cfg region =
     (case sc_region_targets cfg region of
        Some target \<Rightarrow> Some (tier_for_target target (sc_max_target cfg) (sc_floor_tier cfg) (sc_ceiling_tier cfg))
      | None \<Rightarrow>
          (case find_range region (sc_region_ranges cfg) of
             Some target \<Rightarrow> Some (tier_for_target target (sc_max_target cfg) (sc_floor_tier cfg) (sc_ceiling_tier cfg))
           | None \<Rightarrow> None))"

definition is_dlc_bucket :: "scaling_config \<Rightarrow> int \<Rightarrow> bool" where
  "is_dlc_bucket cfg region \<longleftrightarrow> region \<in> set (sc_dlc_buckets cfg)"

definition blessing_floor_for_region :: "(int \<times> int \<times> int) list \<Rightarrow> int \<Rightarrow> int option" where
  "blessing_floor_for_region ranges region = find_range region ranges"

definition raw_target_for_region :: "scaling_config \<Rightarrow> int \<Rightarrow> int option" where
  "raw_target_for_region cfg region =
     (case sc_region_targets cfg region of Some t \<Rightarrow> Some t | None \<Rightarrow> find_range region (sc_region_ranges cfg))"

definition coop_tier_bump :: "nat \<Rightarrow> nat \<Rightarrow> nat \<Rightarrow> nat \<Rightarrow> nat" where
  "coop_tier_bump base_tier extra_players per_player num_tiers =
     (if per_player = 0 \<or> extra_players = 0 \<or> num_tiers = 0 then base_tier
      else
        let top = 2 ^ 64 - 1
        in min (min (base_tier + min (extra_players * per_player) top) top) (num_tiers - 1))"

section \<open>Rune payouts\<close>

definition rune_reward_native_tier :: "nat \<Rightarrow> nat option" where
  "rune_reward_native_tier reward =
     (if reward = 0 then None
      else Some (case find (\<lambda>(upper, _). f32 (of_nat reward) < upper) GETSOUL_BANDS of
                   Some (_, tier) \<Rightarrow> tier | None \<Rightarrow> TOP_BAND_INDEX))"

definition scaled_payout :: "nat \<Rightarrow> rat \<Rightarrow> rat \<Rightarrow> rat" where
  "scaled_payout reward target_hp native_hp = f64 (f64 (f64 (of_nat reward) * target_hp) / native_hp)"

definition scale_rune_reward :: "nat \<Rightarrow> nat \<Rightarrow> nat" where
  "scale_rune_reward reward target_tier =
     (case rune_reward_native_tier reward of
        None \<Rightarrow> 0
      | Some native \<Rightarrow>
          nat (min (max (round_away (scaled_payout reward (st_hp (tier_rates target_tier)) (st_hp (tier_rates native)))) 1)
                   (2 ^ 32 - 1)))"

section \<open>The notice on entering a region\<close>

datatype region_scaling = Known nat | Unscaled

definition region_scaling_of :: "int option \<Rightarrow> int \<Rightarrow> nat \<Rightarrow> nat \<Rightarrow> region_scaling" where
  "region_scaling_of target max_target floor_tier ceiling_tier =
     (case target of Some t \<Rightarrow> Known (tier_for_target t max_target floor_tier ceiling_tier) | None \<Rightarrow> Unscaled)"

definition tier_multiplier :: "nat \<Rightarrow> rat" where
  "tier_multiplier tier = st_hp (SCALING_TIERS ! min tier (NUM_TIERS - 1))"

text \<open>\<open>{:.2}\<close> of a number that is not negative.\<close>

definition show_fixed2 :: "rat \<Rightarrow> string" where
  "show_fixed2 x =
     (let c = nat (round_even (100 * x))
      in show_nat (c div 100) @ ''.'' @ [digit_char (c mod 100 div 10), digit_char (c mod 10)])"

definition region_scaling_toast :: "string \<Rightarrow> region_scaling \<Rightarrow> nat \<Rightarrow> nat \<Rightarrow> string" where
  "region_scaling_toast region scaling floor_tier ceiling_tier =
     (let c = min ceiling_tier (NUM_TIERS - 1); f = min floor_tier c; span = c - f
      in case scaling of
           Known tier \<Rightarrow>
             if span = 0 then region @ '' - enemy scaling '' @ show_fixed2 (tier_multiplier tier) @ ''x (the only tier this seed)''
             else region @ '' - enemy scaling '' @ show_fixed2 (tier_multiplier tier) @ ''x (tier '' @
                  show_nat (min (max tier f) c - f) @ '' of '' @ show_nat span @ '')''
         | Unscaled \<Rightarrow> region @ '' - enemy scaling not set for this area; enemies here are unchanged'')"

definition region_scaling_line :: "string option \<Rightarrow> region_scaling \<Rightarrow> nat \<Rightarrow> nat \<Rightarrow> string" where
  "region_scaling_line name scaling floor_tier ceiling_tier =
     (case name of
        Some n \<Rightarrow> region_scaling_toast n scaling floor_tier ceiling_tier
      | None \<Rightarrow> ''This spot is not part of a scaled region; enemies here are unchanged'')"

text \<open>The announcements made so far.\<close>

definition ledger_on_region :: "scaling_config \<Rightarrow> int \<Rightarrow> string option \<Rightarrow> string list \<Rightarrow> string option \<times> string list" where
  "ledger_on_region cfg bucket name announced =
     (case name of
        None \<Rightarrow> (None, announced)
      | Some n \<Rightarrow>
          let scaling = region_scaling_of (raw_target_for_region cfg bucket) (sc_max_target cfg)
                          (sc_floor_tier cfg) (sc_ceiling_tier cfg);
              msg = region_scaling_toast n scaling (sc_floor_tier cfg) (sc_ceiling_tier cfg)
          in if msg \<in> set announced then (None, announced) else (Some msg, announced @ [msg]))"

section \<open>Rounded fractions\<close>

lemma f32_small [simp]: "f32 0 = 0" "f32 1 = 1"
  by (simp_all add: f32_def)

lemma f32_of_nat: "n < 2 ^ 24 \<Longrightarrow> f32 (of_nat n) = of_nat n"
  by (simp add: f32_def fl_of_nat)

lemma f32_nonneg: "0 \<le> x \<Longrightarrow> 0 \<le> f32 x"
  using f32_mono [of 0 x] by simp

lemma clamp_mono: "x \<le> y \<Longrightarrow> lo \<le> hi \<Longrightarrow> clamp_rat lo hi x \<le> clamp_rat lo hi y"
  by (simp add: clamp_rat_def)

lemma fraction_range: "0 \<le> target_fraction t m \<and> target_fraction t m \<le> 1"
  by (simp add: target_fraction_def clamp_rat_def)

lemma fraction_mono:
  assumes "t \<le> t'" "0 < m"
  shows "target_fraction t m \<le> target_fraction t' m"
proof -
  have m: "0 < f32 (of_int m)" using assms(2) by (intro f32_pos) simp
  have "(of_int (max t 0) :: rat) \<le> of_int (max t' 0)" using assms(1) by (simp only: of_int_le_iff max.mono order_refl)
  then have "f32 (of_int (max t 0)) / f32 (of_int m) \<le> f32 (of_int (max t' 0)) / f32 (of_int m)"
    using m by (intro divide_right_mono f32_mono) simp_all
  then show ?thesis unfolding target_fraction_def by (intro clamp_mono f32_mono) simp_all
qed

lemma fraction_ends:
  assumes "0 < m"
  shows "t \<le> 0 \<Longrightarrow> target_fraction t m = 0" "m \<le> t \<Longrightarrow> target_fraction t m = 1"
proof -
  show "t \<le> 0 \<Longrightarrow> target_fraction t m = 0" by (simp add: target_fraction_def clamp_rat_def)
  assume le: "m \<le> t"
  have m: "0 < f32 (of_int m)" using assms by (intro f32_pos) simp
  have "f32 (of_int m) \<le> f32 (of_int (max t 0))" using le by (intro f32_mono) (simp only: of_int_le_iff)
  then have "1 \<le> f32 (of_int (max t 0)) / f32 (of_int m)" using m by (simp add: le_divide_eq)
  from f32_mono [OF this] show "target_fraction t m = 1" by (auto simp: target_fraction_def clamp_rat_def)
qed

definition tier_offset :: "int \<Rightarrow> int \<Rightarrow> nat \<Rightarrow> nat" where
  "tier_offset t m k = nat (round_away (f32 (target_fraction t m * f32 (of_nat k))))"

lemma tier_offset_mono: "t \<le> t' \<Longrightarrow> 0 < m \<Longrightarrow> tier_offset t m k \<le> tier_offset t' m k"
  unfolding tier_offset_def by (intro nat_mono round_away_mono f32_mono mult_right_mono fraction_mono f32_nonneg) simp_all

lemma tier_offset_ends:
  assumes "0 < m" "k < 2 ^ 24"
  shows "t \<le> 0 \<Longrightarrow> tier_offset t m k = 0" "m \<le> t \<Longrightarrow> tier_offset t m k = k"
  using assms fraction_ends [OF assms(1), of t] round_away_of_int [of 0]
  by (simp_all add: tier_offset_def f32_of_nat)

text \<open>
  C34: Sphere targets map onto the seed's rungs in order. Whatever floor and ceiling the seed names, the
  tier of a target lies between the effective floor and ceiling, both on the ladder; a deeper target never
  gets a lower tier; a target at or below zero gets the floor, the deepest target of the seed and anything
  beyond get the ceiling, and without a deepest target everything gets the floor, in the 32-bit arithmetic
  of the code.
\<close>

theorem targets_map_in_order:
  assumes "c = min ceiling_tier 19" and "f = min floor_tier c"
  shows "f \<le> tier_for_target t m floor_tier ceiling_tier \<and> tier_for_target t m floor_tier ceiling_tier \<le> c \<and> c < NUM_TIERS \<and>
    (t \<le> t' \<longrightarrow> tier_for_target t m floor_tier ceiling_tier \<le> tier_for_target t' m floor_tier ceiling_tier) \<and>
    (t \<le> 0 \<longrightarrow> tier_for_target t m floor_tier ceiling_tier = f) \<and>
    (0 < m \<and> m \<le> t \<longrightarrow> tier_for_target t m floor_tier ceiling_tier = c) \<and>
    (m \<le> 0 \<longrightarrow> tier_for_target t m floor_tier ceiling_tier = f)"
proof -
  have fc: "f \<le> c" unfolding assms(2) by (rule min.cobounded2)
  have c19: "c \<le> 19" unfolding assms(1) by (rule min.cobounded2)
  show ?thesis
  proof (cases "0 < m")
    case True
    have T: "tier_for_target u m floor_tier ceiling_tier = min (max (f + tier_offset u m (c - f)) f) c" for u
      using True by (simp add: tier_for_target_def tier_offset_def Let_def assms del: of_nat_diff)
    have k: "c - f < 2 ^ 24" using c19 by simp
    have "t \<le> t' \<Longrightarrow> min (max (f + tier_offset t m (c - f)) f) c \<le> min (max (f + tier_offset t' m (c - f)) f) c"
      using tier_offset_mono [OF _ True, of t t' "c - f"] by simp
    with True fc c19 tier_offset_ends [OF True k] show ?thesis by (simp add: T)
  next
    case False
    then have "tier_for_target u m floor_tier ceiling_tier = f" for u using assms by (simp add: tier_for_target_def Let_def)
    with False fc c19 show ?thesis by simp
  qed
qed

theorem targets_map_in_order_witness:
  "tier_for_target 7 7 2 19 = 19 \<and> tier_for_target 0 7 2 19 = 2 \<and> tier_for_target 3 7 2 19 \<le> tier_for_target 5 7 2 19"
  using targets_map_in_order [of 19 19 2 2 7 7 7] targets_map_in_order [of 19 19 2 2 0 7 7]
    targets_map_in_order [of 19 19 2 2 3 7 5] by simp

section \<open>Payouts follow the target\<close>

lemma reward_native_bound: "rune_reward_native_tier reward = Some t \<Longrightarrow> t < 20"
proof -
  have "snd x < 20" if "find P GETSOUL_BANDS = Some x" for P x
    using that bands_bound by (auto simp: list_all_iff find_Some_iff)
  then show "rune_reward_native_tier reward = Some t \<Longrightarrow> t < 20"
    by (fastforce simp: rune_reward_native_tier_def TOP_BAND_INDEX_def split: if_splits option.splits)
qed

lemma f64_mono: "x \<le> y \<Longrightarrow> f64 x \<le> f64 y"
  by (simp add: f64_def fl_mono)

lemma f64_of_nat: "n < 2 ^ 53 \<Longrightarrow> f64 (of_nat n) = of_nat n"
  by (simp add: f64_def fl_of_nat)

lemma f64_nonneg: "0 \<le> x \<Longrightarrow> 0 \<le> f64 x"
  by (simp add: f64_def fl_nonneg)

lemma f64_error: "0 \<le> x \<Longrightarrow> \<bar>f64 x - x\<bar> \<le> x / 9007199254740992"
  using fl_error [of x 53] by (simp add: f64_def)

lemma payout_mono:
  assumes "h \<le> h'" "0 < n"
  shows "scaled_payout r h n \<le> scaled_payout r h' n"
  unfolding scaled_payout_def using assms
  by (intro f64_mono divide_right_mono mult_left_mono f64_nonneg) simp_all

lemma two_roundings:
  assumes "\<bar>q - r\<bar> \<le> r / 9007199254740992" "\<bar>p - q\<bar> \<le> q / 9007199254740992" "0 \<le> r" "r < (4294967296 :: rat)"
  shows "\<bar>p - r\<bar> < 1 / 2"
  using assms by linarith

lemma payout_at_home:
  assumes "r < 2 ^ 32" "0 < h"
  shows "round_away (scaled_payout r h h) = int r"
proof (rule round_away_near)
  let ?r = "of_nat r :: rat"
  have r: "0 \<le> ?r" "?r < 4294967296" using assms(1) of_nat_less_iff [of r "2 ^ 32", where 'a = rat] by simp_all
  have R: "f64 ?r = ?r" using assms(1) by (intro f64_of_nat) simp
  let ?q = "f64 (?r * h) / h"
  have "\<bar>f64 (?r * h) - ?r * h\<bar> \<le> ?r * h / 9007199254740992" using r assms(2) by (intro f64_error) simp
  then have "\<bar>f64 (?r * h) - ?r * h\<bar> / h \<le> ?r * h / 9007199254740992 / h"
    using assms(2) by (intro divide_right_mono) simp_all
  moreover have "\<bar>f64 (?r * h) - ?r * h\<bar> / h = \<bar>?q - ?r\<bar>"
  proof -
    have "(f64 (?r * h) - ?r * h) / h = ?q - ?r" using assms(2) by (simp add: diff_divide_distrib)
    then show ?thesis using assms(2) by (metis abs_div_pos)
  qed
  ultimately have q: "\<bar>?q - ?r\<bar> \<le> ?r / 9007199254740992" using assms(2) by simp
  have "0 \<le> ?q" using r assms(2) by (intro divide_nonneg_pos f64_nonneg) simp_all
  then have "\<bar>f64 ?q - ?q\<bar> \<le> ?q / 9007199254740992" by (rule f64_error)
  with q r show "\<bar>scaled_payout r h h - ?r\<bar> < 1 / 2"
    unfolding scaled_payout_def R by (intro two_roundings)
qed

text \<open>
  Rune payouts follow the tier. An enemy that pays nothing still pays nothing; any other pays between
  one rune and the largest 32-bit number; brought to a higher tier it never pays less; and brought to the
  tier its payout already stands for it pays exactly what it paid, in the 64-bit arithmetic of the code.
\<close>

theorem payouts_follow_the_tier:
  assumes "reward < 2 ^ 32"
  shows "scale_rune_reward 0 t = 0 \<and>
    (0 < reward \<longrightarrow> 1 \<le> scale_rune_reward reward t \<and> scale_rune_reward reward t < 2 ^ 32) \<and>
    (t \<le> t' \<longrightarrow> scale_rune_reward reward t \<le> scale_rune_reward reward t') \<and>
    (rune_reward_native_tier reward = Some n \<longrightarrow> scale_rune_reward reward n = reward)"
proof (intro conjI impI)
  show "scale_rune_reward 0 t = 0" by (simp add: scale_rune_reward_def rune_reward_native_tier_def)
  show "1 \<le> scale_rune_reward reward t" "scale_rune_reward reward t < 2 ^ 32" if "0 < reward"
    using that by (auto simp: scale_rune_reward_def rune_reward_native_tier_def nat_less_iff le_nat_iff)
  show "scale_rune_reward reward t \<le> scale_rune_reward reward t'" if "t \<le> t'"
  proof (cases "rune_reward_native_tier reward")
    case (Some n)
    have "st_hp (tier_rates t) \<le> st_hp (tier_rates t')" using that by (simp add: tier_rates_def tier_hp_le)
    moreover have "0 < st_hp (tier_rates n)" by (simp add: tier_rates_def tier_hp_pos)
    ultimately show ?thesis
      using round_away_mono [OF payout_mono [of "st_hp (tier_rates t)" "st_hp (tier_rates t')" "st_hp (tier_rates n)" reward]]
      by (simp add: scale_rune_reward_def Some nat_mono)
  qed (simp add: scale_rune_reward_def)
  show "scale_rune_reward reward n = reward" if n: "rune_reward_native_tier reward = Some n"
  proof -
    have pos: "0 < reward" using n by (auto simp: rune_reward_native_tier_def split: if_splits)
    have "0 < st_hp (tier_rates n)" by (simp add: tier_rates_def tier_hp_pos)
    from payout_at_home [OF assms this] pos assms show ?thesis by (simp add: scale_rune_reward_def n)
  qed
qed

theorem payouts_follow_the_tier_witness:
  "scale_rune_reward 50 0 = 50 \<and> scale_rune_reward 50 3 \<le> scale_rune_reward 50 7 \<and> 1 \<le> scale_rune_reward 50 3"
proof -
  have "f32 50 = 50" using f32_of_nat [of 50] by simp
  moreover have "50 < f32 (5748 / 100)"
    using f32_less [of 50 "5748 / 100"] \<open>f32 50 = 50\<close> by simp
  ultimately have n: "rune_reward_native_tier 50 = Some 0" by (simp add: rune_reward_native_tier_def GETSOUL_BANDS_def)
  show ?thesis using payouts_follow_the_tier [of 50 0 0 0] payouts_follow_the_tier [of 50 3 7 0] n by simp
qed

section \<open>Multipliers\<close>

text \<open>
  The floor is the lowest rung at or above its multiplier and the ceiling the highest at or below its own,
  so a range of multipliers that contains a rung gives a range of tiers that is not empty.
\<close>

lemma floor_tier_spec:
  "floor_tier_from_multiplier x < 20 \<and> (\<forall>i < floor_tier_from_multiplier x. st_hp (SCALING_TIERS ! i) < x) \<and>
   (x \<le> st_hp (SCALING_TIERS ! 19) \<longrightarrow> x \<le> st_hp (SCALING_TIERS ! floor_tier_from_multiplier x))"
proof (cases "position (\<lambda>t. x \<le> st_hp t) SCALING_TIERS")
  case None
  then have "\<forall>i < 20. st_hp (SCALING_TIERS ! i) < x" by (auto simp: position_def find_None_iff not_le)
  with None show ?thesis by (auto simp: floor_tier_from_multiplier_def)
next
  case (Some i)
  then have "i < 20 \<and> x \<le> st_hp (SCALING_TIERS ! i) \<and> (\<forall>j < i. st_hp (SCALING_TIERS ! j) < x)"
    by (auto simp: position_def find_Some_iff not_le)
  with Some show ?thesis by (simp add: floor_tier_from_multiplier_def)
qed

end
