(* ===== verification/ErSweep.thy ===== *)
theory ErSweep
  imports ErTargets
begin

text \<open>
  The enemy sweep of \<open>eldenring-archipelago/src/scaling.rs\<close> with the pure parts it keeps in \<open>er-logic\<close>
  (\<open>scaling_settle.rs\<close>, \<open>rescale_watch.rs\<close>, \<open>id_sample.rs\<close>): when a sweep may run, what it measures, what
  it does to each character and how it backs off. The game's own effect list is behind \<open>effect_engine\<close>,
  the two calls the code makes on it; a character is the record of the fields the sweep reads. Log lines
  are left out, and with them the sample rows that only they print. Counters do not overflow.
\<close>

section \<open>When the sweep may run\<close>

record settle_policy =
  pol_settle_ms :: nat
  pol_stable_ms :: nat
  pol_legacy :: bool

definition SHIPPING :: settle_policy where
  "SHIPPING = \<lparr>pol_settle_ms = 2500, pol_stable_ms = 1500, pol_legacy = False\<rparr>"

record sweep_gate =
  sg_transition_at :: "nat option"
  sg_region :: "int option"
  sg_region_changed_at :: "nat option"
  sg_flaps :: nat

definition gate_new :: sweep_gate where
  "gate_new = \<lparr>sg_transition_at = None, sg_region = None, sg_region_changed_at = None, sg_flaps = 0\<rparr>"

definition on_transition :: "nat \<Rightarrow> sweep_gate \<Rightarrow> sweep_gate" where
  "on_transition now g = g\<lparr>sg_transition_at := Some now, sg_flaps := 0\<rparr>"

definition on_region :: "int \<Rightarrow> nat \<Rightarrow> settle_policy \<Rightarrow> sweep_gate \<Rightarrow> bool \<times> sweep_gate" where
  "on_region region now pol g =
     (if sg_region g = Some region then (False, g)
      else
        (True, g\<lparr>sg_region := Some region, sg_region_changed_at := Some now,
                 sg_flaps := (if sg_region g = None then sg_flaps g else min (sg_flaps g + 1) (2 ^ 32 - 1)),
                 sg_transition_at := (if pol_legacy pol then Some now else sg_transition_at g)\<rparr>))"

definition elapsed_ok :: "nat option \<Rightarrow> nat \<Rightarrow> nat \<Rightarrow> bool" where
  "elapsed_ok since now ms = (case since of Some t \<Rightarrow> ms \<le> now - t | None \<Rightarrow> True)"

definition sweep_allowed :: "nat \<Rightarrow> settle_policy \<Rightarrow> sweep_gate \<Rightarrow> bool" where
  "sweep_allowed now pol g \<longleftrightarrow>
     elapsed_ok (sg_transition_at g) now (pol_settle_ms pol) \<and>
     (pol_legacy pol \<or> elapsed_ok (sg_region_changed_at g) now (pol_stable_ms pol))"

definition sweep_blocked_by_death :: "int \<Rightarrow> bool" where
  "sweep_blocked_by_death player_hp \<longleftrightarrow> lists_unsafe_to_touch player_hp"

section \<open>Whether a write took\<close>

definition SETTLE_GRACE_MS :: nat where "SETTLE_GRACE_MS = 1000"
definition STALE_VERDICT_MS :: nat where "STALE_VERDICT_MS = 30000"
definition WATCH_CAP :: nat where "WATCH_CAP = 512"

datatype verdict = Recomputed nat | StaleUnloaded nat int | StaleLoaded nat int

definition is_anomaly :: "verdict \<Rightarrow> bool" where
  "is_anomaly v = (case v of StaleLoaded _ _ \<Rightarrow> True | _ \<Rightarrow> False)"

record pending_write =
  pw_key :: nat
  pw_npc :: int
  pw_max_hp_before :: int
  pw_applied_ms :: nat
  pw_reported :: bool

record rescale_watch =
  rw_pending :: "pending_write list"
  rw_dropped :: nat

definition watch_new :: rescale_watch where
  "watch_new = \<lparr>rw_pending = [], rw_dropped = 0\<rparr>"

definition note_applied :: "nat \<Rightarrow> int \<Rightarrow> int \<Rightarrow> nat \<Rightarrow> rescale_watch \<Rightarrow> rescale_watch" where
  "note_applied key npc max_hp_before now w =
     (let p = \<lparr>pw_key = key, pw_npc = npc, pw_max_hp_before = max_hp_before, pw_applied_ms = now, pw_reported = False\<rparr>
      in case position (\<lambda>p. pw_key p = key) (rw_pending w) of
           Some i \<Rightarrow> w\<lparr>rw_pending := (rw_pending w)[i := p]\<rparr>
         | None \<Rightarrow>
             let w1 = (if WATCH_CAP \<le> length (rw_pending w)
                       then w\<lparr>rw_pending := tl (rw_pending w), rw_dropped := min (rw_dropped w + 1) (2 ^ 32 - 1)\<rparr>
                       else w)
             in w1\<lparr>rw_pending := rw_pending w1 @ [p]\<rparr>)"

definition watch_poll :: "nat \<Rightarrow> int \<Rightarrow> bool \<Rightarrow> nat \<Rightarrow> rescale_watch \<Rightarrow> verdict option \<times> rescale_watch" where
  "watch_poll key max_hp_now loaded now w =
     (case position (\<lambda>p. pw_key p = key) (rw_pending w) of
        None \<Rightarrow> (None, w)
      | Some i \<Rightarrow>
          let p = rw_pending w ! i; after = now - pw_applied_ms p
          in if max_hp_now \<noteq> pw_max_hp_before p
             then (Some (Recomputed after), w\<lparr>rw_pending := take i (rw_pending w) @ drop (Suc i) (rw_pending w)\<rparr>)
             else if after < SETTLE_GRACE_MS then (None, w)
             else if pw_reported p then (None, w)
             else
               (Some (if loaded then StaleLoaded after (pw_max_hp_before p) else StaleUnloaded after (pw_max_hp_before p)),
                w\<lparr>rw_pending := (rw_pending w)[i := p\<lparr>pw_reported := True\<rparr>]\<rparr>))"

definition outstanding :: "rescale_watch \<Rightarrow> nat \<times> nat" where
  "outstanding w = (length (rw_pending w), rw_dropped w)"

definition long_stale :: "nat \<Rightarrow> rescale_watch \<Rightarrow> int list" where
  "long_stale now w = map pw_npc (filter (\<lambda>p. STALE_VERDICT_MS \<le> now - pw_applied_ms p) (rw_pending w))"

section \<open>What a sweep counts\<close>

record id_sample =
  is_kept :: "int list"
  is_seen :: "int list"
  is_cap :: nat

definition sample_new :: "nat \<Rightarrow> id_sample" where
  "sample_new cap = \<lparr>is_kept = [], is_seen = [], is_cap = cap\<rparr>"

definition sample_note :: "int \<Rightarrow> id_sample \<Rightarrow> id_sample" where
  "sample_note i s =
     (if i \<in> set (is_seen s) then s
      else s\<lparr>is_seen := i # is_seen s,
             is_kept := (if length (is_kept s) < is_cap s then is_kept s @ [i] else is_kept s)\<rparr>)"

definition sample_distinct :: "id_sample \<Rightarrow> nat" where
  "sample_distinct s = length (is_seen s)"

definition sample_withheld :: "id_sample \<Rightarrow> nat" where
  "sample_withheld s = length (is_seen s) - length (is_kept s)"

definition UNRUNGED_ID_CAP :: nat where "UNRUNGED_ID_CAP = 12"

record sweep_tally =
  ta_scaled :: nat
  ta_scaled_unloaded :: nat
  ta_scaled_down :: nat
  ta_settled_down :: nat
  ta_kept_down :: nat
  ta_area_down :: nat
  ta_area_down_ids :: id_sample
  ta_cleared_down :: nat
  ta_unrunged :: nat
  ta_left_vanilla :: nat
  ta_left_vanilla_ids :: id_sample
  ta_scaled_by_native :: nat
  ta_recomputed :: nat
  ta_recompute_failed :: nat
  ta_recompute_failed_ids :: id_sample
  ta_other_in_range :: nat
  ta_unrunged_ids :: id_sample
  ta_band_only :: nat
  ta_band_and_rung :: nat
  ta_rung_band_pairs :: "(int \<times> int) list"
  ta_band_vs_table :: "(nat \<times> nat) list"
  ta_area_hist :: "w32 list"
  ta_area_moved :: nat
  ta_area_moved_ids :: id_sample
  ta_residue :: nat
  ta_other_ids :: id_sample

definition tally_zero :: sweep_tally where
  "tally_zero = (let s = sample_new UNRUNGED_ID_CAP in
     \<lparr>ta_scaled = 0, ta_scaled_unloaded = 0, ta_scaled_down = 0, ta_settled_down = 0, ta_kept_down = 0, ta_area_down = 0,
      ta_area_down_ids = s, ta_cleared_down = 0, ta_unrunged = 0, ta_left_vanilla = 0, ta_left_vanilla_ids = s,
      ta_scaled_by_native = 0, ta_recomputed = 0, ta_recompute_failed = 0, ta_recompute_failed_ids = s,
      ta_other_in_range = 0, ta_unrunged_ids = s, ta_band_only = 0, ta_band_and_rung = 0, ta_rung_band_pairs = [],
      ta_band_vs_table = [], ta_area_hist = replicate NUM_TIERS 0, ta_area_moved = 0, ta_area_moved_ids = s,
      ta_residue = 0, ta_other_ids = s\<rparr>)"

definition note_unrunged :: "int \<Rightarrow> sweep_tally \<Rightarrow> sweep_tally" where
  "note_unrunged npc t = t\<lparr>ta_unrunged := ta_unrunged t + 1, ta_unrunged_ids := sample_note npc (ta_unrunged_ids t)\<rparr>"

definition note_pair :: "nat \<Rightarrow> nat \<Rightarrow> sweep_tally \<Rightarrow> sweep_tally" where
  "note_pair band table t =
     (if length (ta_band_vs_table t) < UNRUNGED_ID_CAP then t\<lparr>ta_band_vs_table := ta_band_vs_table t @ [(band, table)]\<rparr> else t)"

definition note_rung_band :: "int \<Rightarrow> int \<Rightarrow> sweep_tally \<Rightarrow> sweep_tally" where
  "note_rung_band rung band t =
     (if length (ta_rung_band_pairs t) < UNRUNGED_ID_CAP \<and> (rung, band) \<notin> set (ta_rung_band_pairs t)
      then t\<lparr>ta_rung_band_pairs := ta_rung_band_pairs t @ [(rung, band)]\<rparr> else t)"

definition note_area_down :: "int \<Rightarrow> sweep_tally \<Rightarrow> sweep_tally" where
  "note_area_down npc t =
     t\<lparr>ta_area_down := min (ta_area_down t + 1) (2 ^ 32 - 1), ta_area_down_ids := sample_note npc (ta_area_down_ids t)\<rparr>"

definition note_area_moved :: "int \<Rightarrow> sweep_tally \<Rightarrow> sweep_tally" where
  "note_area_moved npc t =
     t\<lparr>ta_area_moved := min (ta_area_moved t + 1) (2 ^ 32 - 1), ta_area_moved_ids := sample_note npc (ta_area_moved_ids t)\<rparr>"

definition saturating_inc :: "w32 \<Rightarrow> w32" where
  "saturating_inc x = (if x = - 1 then x else x + 1)"

definition note_area_sample :: "int \<Rightarrow> sweep_tally \<Rightarrow> sweep_tally" where
  "note_area_sample rung t =
     (case ladder_tier rung of
        Some i \<Rightarrow> t\<lparr>ta_area_hist := (ta_area_hist t)[i := saturating_inc (ta_area_hist t ! i)]\<rparr>
      | None \<Rightarrow> t)"

definition note_other :: "int \<Rightarrow> sweep_tally \<Rightarrow> sweep_tally" where
  "note_other i t = t\<lparr>ta_other_ids := sample_note i (ta_other_ids t)\<rparr>"

section \<open>One character\<close>

record character =
  ch_key :: nat
  ch_is_player :: bool
  ch_npc :: int
  ch_effects :: "int list"
  ch_max_hp :: int
  ch_unloaded :: bool

text \<open>\<open>remove_speffect\<close> and \<open>apply_speffect\<close> of the game, on the list of effect ids.\<close>

record effect_engine =
  ee_remove :: "int \<Rightarrow> int list \<Rightarrow> int list"
  ee_apply :: "int \<Rightarrow> int list \<Rightarrow> int list"

record sweep_ctx =
  cx_target :: int
  cx_target_tier :: nat
  cx_area_tier :: "nat option"
  cx_now :: nat

fun sample_effects :: "int list \<Rightarrow> int option \<times> bool \<Rightarrow> int option \<times> bool" where
  "sample_effects [] acc = acc"
| "sample_effects (i # rest) (rung, has_band) =
     sample_effects rest
       (if \<not> is_scaling_speffect i then (rung, has_band)
        else case kind_of i of
          Some Ladder \<Rightarrow> (Some i, has_band)
        | Some OtherInRange \<Rightarrow> (rung, has_band \<or> band_native_tier i \<noteq> None)
        | _ \<Rightarrow> (rung, has_band))"

definition area_sample_one :: "character \<Rightarrow> sweep_tally \<Rightarrow> sweep_tally" where
  "area_sample_one c t =
     (if ch_is_player c then t
      else case sample_effects (ch_effects c) (None, False) of
             (Some r, True) \<Rightarrow> note_area_sample r t
           | _ \<Rightarrow> t)"

definition poll_recompute :: "character \<Rightarrow> nat \<Rightarrow> rescale_watch \<times> sweep_tally \<Rightarrow> rescale_watch \<times> sweep_tally" where
  "poll_recompute c now = (\<lambda>(w, t).
     case watch_poll (ch_key c) (ch_max_hp c) (\<not> ch_unloaded c) now w of
       (None, w1) \<Rightarrow> (w1, t)
     | (Some v, w1) \<Rightarrow>
         (w1, case v of
                Recomputed _ \<Rightarrow> t\<lparr>ta_recomputed := min (ta_recomputed t + 1) (2 ^ 32 - 1)\<rparr>
              | _ \<Rightarrow> if is_anomaly v
                     then t\<lparr>ta_recompute_failed := min (ta_recompute_failed t + 1) (2 ^ 32 - 1),
                            ta_recompute_failed_ids := sample_note (ch_npc c) (ta_recompute_failed_ids t)\<rparr>
                     else t))"

record carried_scan =
  cs_ladder :: bool
  cs_down :: bool
  cs_other :: bool
  cs_band_tier :: "nat option"
  cs_rung_id :: "int option"
  cs_band_id :: "int option"

definition scan_empty :: carried_scan where
  "scan_empty = \<lparr>cs_ladder = False, cs_down = False, cs_other = False, cs_band_tier = None, cs_rung_id = None, cs_band_id = None\<rparr>"

definition scan_id :: "int \<Rightarrow> carried_scan \<times> sweep_tally \<Rightarrow> carried_scan \<times> sweep_tally" where
  "scan_id i = (\<lambda>(s, t).
     case kind_of i of
       Some Ladder \<Rightarrow> (s\<lparr>cs_ladder := True, cs_rung_id := Some i\<rparr>, t)
     | Some Downstate \<Rightarrow> (s\<lparr>cs_down := True\<rparr>, t)
     | Some OtherInRange \<Rightarrow>
         (case band_native_tier i of
            None \<Rightarrow> s\<lparr>cs_other := True\<rparr>
          | Some b \<Rightarrow>
              s\<lparr>cs_other := True,
                cs_band_id := (case cs_band_tier s of None \<Rightarrow> Some i | Some cur \<Rightarrow> if cur < b then Some i else cs_band_id s),
                cs_band_tier := Some (case cs_band_tier s of None \<Rightarrow> b | Some cur \<Rightarrow> max cur b)\<rparr>,
          note_other i t)
     | None \<Rightarrow> (s, t))"

definition census :: "character \<Rightarrow> carried_scan \<Rightarrow> sweep_tally \<Rightarrow> sweep_tally" where
  "census c s t =
     (let t1 = (if cs_other s then t\<lparr>ta_other_in_range := ta_other_in_range t + 1\<rparr> else t);
          t2 = (case cs_band_tier s of
                  None \<Rightarrow> t1
                | Some band \<Rightarrow>
                    let t3 = (if cs_ladder s then
                                let t4 = t1\<lparr>ta_band_and_rung := ta_band_and_rung t1 + 1\<rparr>
                                in case (cs_rung_id s, cs_band_id s) of
                                     (Some r, Some b) \<Rightarrow> note_rung_band r b t4
                                   | _ \<Rightarrow> t4
                              else t1\<lparr>ta_band_only := ta_band_only t1 + 1\<rparr>)
                    in case native_tier (ch_npc c) of Some table \<Rightarrow> note_pair band table t3 | None \<Rightarrow> t3)
      in if cs_ladder s then t2 else note_unrunged (ch_npc c) t2)"

definition remove_all :: "effect_engine \<Rightarrow> int list \<Rightarrow> int list \<Rightarrow> int list" where
  "remove_all eng ids effects = foldl (\<lambda>e i. ee_remove eng i e) effects ids"

definition apply_all :: "effect_engine \<Rightarrow> int list \<Rightarrow> int list \<Rightarrow> int list" where
  "apply_all eng ids effects = foldl (\<lambda>e i. ee_apply eng i e) effects ids"

definition write_target :: "effect_engine \<Rightarrow> sweep_ctx \<Rightarrow> int list \<Rightarrow> character \<Rightarrow> rescale_watch \<Rightarrow> sweep_tally \<Rightarrow>
    character \<times> rescale_watch \<times> sweep_tally" where
  "write_target eng cx stale c w t =
     (c\<lparr>ch_effects := ee_apply eng (cx_target cx) (remove_all eng stale (ch_effects c))\<rparr>,
      note_applied (ch_key c) (ch_npc c) (ch_max_hp c) (cx_now cx) w,
      t\<lparr>ta_scaled := ta_scaled t + 1,
        ta_scaled_unloaded := (if ch_unloaded c then ta_scaled_unloaded t + 1 else ta_scaled_unloaded t)\<rparr>)"

definition scale_one :: "effect_engine \<Rightarrow> sweep_ctx \<Rightarrow> character \<Rightarrow> rescale_watch \<times> sweep_tally \<Rightarrow>
    character \<times> rescale_watch \<times> sweep_tally" where
  "scale_one eng cx c = (\<lambda>(w0, t0).
     if ch_is_player c then (c, w0, t0)
     else
       let stale = filter is_scaling_with_downstates (ch_effects c);
           (w, t1) = poll_recompute c (cx_now cx) (w0, t0)
       in if settled_on_target stale (cx_target cx) then (c, w, t1)
          else
            let t2 = (if cx_target cx \<in> set stale
                      then fold note_other (filter (\<lambda>i. i \<noteq> cx_target cx) stale) (t1\<lparr>ta_residue := ta_residue t1 + 1\<rparr>)
                      else t1);
                (s, t3) = fold scan_id stale (scan_empty, t2);
                t = census c s t3
            in case scale_action_for (cs_ladder s) (cs_down s) (ch_npc c) (cx_target_tier cx) (cx_area_tier cx) of
                 NoTouch \<Rightarrow>
                   (c, w, t\<lparr>ta_left_vanilla := ta_left_vanilla t + 1,
                            ta_left_vanilla_ids := sample_note (ch_npc c) (ta_left_vanilla_ids t)\<rparr>)
               | KeepDown \<Rightarrow> (c, w, t\<lparr>ta_kept_down := ta_kept_down t + 1\<rparr>)
               | ClearDown \<Rightarrow>
                   (c\<lparr>ch_effects := remove_all eng stale (ch_effects c)\<rparr>, w, t\<lparr>ta_cleared_down := ta_cleared_down t + 1\<rparr>)
               | Down state \<Rightarrow>
                   if settled_on_downstate stale state then (c, w, t\<lparr>ta_settled_down := ta_settled_down t + 1\<rparr>)
                   else
                     (c\<lparr>ch_effects := apply_all eng (ds_ids state) (remove_all eng stale (ch_effects c))\<rparr>, w,
                      let t5 = t\<lparr>ta_scaled_down := ta_scaled_down t + 1\<rparr>
                      in if placed_by_area_down (ch_npc c) (cx_area_tier cx) then note_area_down (ch_npc c) t5 else t5)
               | Apply \<Rightarrow>
                   let t6 = t\<lparr>ta_scaled_by_native := ta_scaled_by_native t + 1\<rparr>
                   in write_target eng cx stale c w
                        (if placed_by_area (ch_npc c) (cx_area_tier cx) then note_area_moved (ch_npc c) t6 else t6)
               | Replace \<Rightarrow> write_target eng cx stale c w t)"

text \<open>A loop over a set of characters; phantoms take part only when they are hostile.\<close>

fun scale_each :: "effect_engine \<Rightarrow> sweep_ctx \<Rightarrow> character list \<Rightarrow> rescale_watch \<times> sweep_tally \<Rightarrow>
    character list \<times> rescale_watch \<times> sweep_tally" where
  "scale_each eng cx [] p = ([], p)"
| "scale_each eng cx (c # cs) p =
     (let (c1, p1) = scale_one eng cx c p; (cs1, p2) = scale_each eng cx cs p1 in (c1 # cs1, p2))"

datatype chr_type = Duelist | GrayPhantom | BloodyFinger | Recusant | FesteringBloodyFinger | BloodyFingerNpc
  | RecusantNpc | OtherType nat

definition is_hostile_phantom :: "chr_type \<Rightarrow> bool" where
  "is_hostile_phantom t = (case t of OtherType _ \<Rightarrow> False | _ \<Rightarrow> True)"

fun scale_phantoms :: "effect_engine \<Rightarrow> sweep_ctx \<Rightarrow> (chr_type \<times> character) list \<Rightarrow> rescale_watch \<times> sweep_tally \<Rightarrow>
    (chr_type \<times> character) list \<times> rescale_watch \<times> sweep_tally" where
  "scale_phantoms eng cx [] p = ([], p)"
| "scale_phantoms eng cx ((ty, c) # cs) p =
     (let (c1, p1) = (if is_hostile_phantom ty then scale_one eng cx c p else (c, p));
          (cs1, p2) = scale_phantoms eng cx cs p1
      in ((ty, c1) # cs1, p2))"

section \<open>A sweep\<close>

text \<open>
  The two passes over the population: what the ground is worth is measured before anything is changed.
\<close>

record sweep_result =
  sr_anchor :: area_anchor
  sr_watch :: rescale_watch
  sr_enemies :: "character list"
  sr_phantoms :: "(chr_type \<times> character) list"
  sr_tally :: sweep_tally

definition sweep_pass :: "effect_engine \<Rightarrow> int \<Rightarrow> int \<Rightarrow> nat \<Rightarrow> nat \<Rightarrow> area_anchor \<Rightarrow> rescale_watch \<Rightarrow>
    character list \<Rightarrow> (chr_type \<times> character) list \<Rightarrow> sweep_result" where
  "sweep_pass eng region target target_tier now anchor watch enemies phantoms =
     (let t1 = fold area_sample_one enemies tally_zero;
          fresh = area_tier_from_histogram (ta_area_hist t1);
          (latched, anchor1) = anchor_resolve region fresh anchor;
          (area_tier, source) = resolve_area_tier (baked_area_tier region) fresh latched;
          cx = \<lparr>cx_target = target, cx_target_tier = target_tier, cx_area_tier = area_tier, cx_now = now\<rparr>;
          (enemies1, w1, t2) = scale_each eng cx enemies (watch, t1);
          (phantoms1, w2, t3) = scale_phantoms eng cx phantoms (w1, t2)
      in \<lparr>sr_anchor = anchor1, sr_watch = w2, sr_enemies = enemies1, sr_phantoms = phantoms1, sr_tally = t3\<rparr>)"

section \<open>The tick\<close>

definition THROTTLE :: nat where "THROTTLE = 30"
definition MAX_INTERVAL :: nat where "MAX_INTERVAL = 240"

text \<open>The population as pairs of an entry's pointer and load status.\<close>

definition fold_fingerprint :: "(w64 \<times> w64) list \<Rightarrow> w64" where
  "fold_fingerprint slots =
     (let k = 0x517cc1b727220a95;
          h = foldl (\<lambda>h (bits, status). ((h * k XOR bits) * k) XOR status) 0xcbf29ce484222325 slots
      in h XOR of_nat (length slots))"

definition next_interval :: "bool \<Rightarrow> nat \<Rightarrow> nat" where
  "next_interval converged prev = (if converged then min (min (prev * 2) (2 ^ 32 - 1)) MAX_INTERVAL else THROTTLE)"

record sweep_state =
  ss_override :: runtime_override
  ss_config :: "scaling_config option"
  ss_coop_difficulty :: nat
  ss_tick :: w32
  ss_gate :: sweep_gate
  ss_last_sweep :: "w32 option"
  ss_interval :: nat
  ss_fingerprint :: w64
  ss_anchor :: area_anchor
  ss_watch :: rescale_watch
  ss_announced :: "string list"

text \<open>
  What a tick reads of the world: the clock, the player (\<open>None\<close> while there is no world or no player), the
  bucket of the region, the co-op partners present, the name the baked table gives the region, the slots
  of the population and the characters in it.
\<close>

record tick_input =
  ti_now :: nat
  ti_player_hp :: "int option"
  ti_region :: int
  ti_partners :: nat
  ti_region_name :: "string option"
  ti_slots :: "(w64 \<times> w64) list"
  ti_enemies :: "character list"
  ti_phantoms :: "(chr_type \<times> character) list"

definition due :: "w32 \<Rightarrow> nat \<Rightarrow> w32 option \<Rightarrow> bool" where
  "due tick_no interval prev = (case prev of Some t \<Rightarrow> interval \<le> unat (tick_no - t) | None \<Rightarrow> True)"

definition may_sweep :: "w32 \<Rightarrow> w64 \<Rightarrow> sweep_state \<Rightarrow> bool" where
  "may_sweep tick_no fp st \<longleftrightarrow>
     due tick_no (max (ss_interval st) THROTTLE) (ss_last_sweep st) \<or>
     (due tick_no THROTTLE (ss_last_sweep st) \<and> fp \<noteq> ss_fingerprint st)"

text \<open>The tier aimed at, with the notice owed for entering the region; \<open>None\<close> for a region the seed does not scale.\<close>

definition choose_target :: "tick_input \<Rightarrow> sweep_state \<Rightarrow> (nat \<times> string option \<times> string list) option" where
  "choose_target i st =
     (case ss_override st of
        ForcedTier tier \<Rightarrow> Some (tier, None, ss_announced st)
      | _ \<Rightarrow>
          (case ss_config st of
             None \<Rightarrow> None
           | Some cfg \<Rightarrow>
               (case tier_for_region cfg (ti_region i) of
                  None \<Rightarrow> None
                | Some tier \<Rightarrow>
                    let extra = (if 0 < ss_coop_difficulty st then ti_partners i else 0);
                        (toast, announced) = ledger_on_region cfg (ti_region i) (ti_region_name i) (ss_announced st)
                    in Some (coop_tier_bump tier extra (ss_coop_difficulty st) NUM_TIERS, toast, announced))))"

definition finish_sweep :: "w64 \<Rightarrow> sweep_result \<Rightarrow> sweep_state \<Rightarrow> sweep_state" where
  "finish_sweep fp r st =
     (let converged = (ta_scaled (sr_tally r) = 0 \<and> ta_scaled_down (sr_tally r) = 0 \<and> ta_cleared_down (sr_tally r) = 0 \<and>
                       fp = ss_fingerprint st)
      in st\<lparr>ss_anchor := sr_anchor r, ss_watch := sr_watch r, ss_fingerprint := fp,
            ss_interval := next_interval converged (ss_interval st)\<rparr>)"

definition scaling_tick :: "effect_engine \<Rightarrow> tick_input \<Rightarrow> sweep_state \<Rightarrow>
    (string option \<times> sweep_result option) \<times> sweep_state" where
  "scaling_tick eng i st =
     (if ss_override st = Off \<or> (ss_config st = None \<and> ss_override st = Seed) then ((None, None), st)
      else
        let tick_no = ss_tick st; st1 = st\<lparr>ss_tick := tick_no + 1\<rparr>
        in case ti_player_hp i of
             None \<Rightarrow> ((None, None), st1)
           | Some hp \<Rightarrow>
               if sweep_blocked_by_death hp then ((None, None), st1)
               else
                 let (changed, gate) = on_region (ti_region i) (ti_now i) SHIPPING (ss_gate st1);
                     st2 = st1\<lparr>ss_gate := gate\<rparr>
                 in if \<not> sweep_allowed (ti_now i) SHIPPING gate then ((None, None), st2)
                    else
                      let st3 = (if changed then st2\<lparr>ss_interval := THROTTLE\<rparr> else st2);
                          fp = fold_fingerprint (ti_slots i)
                      in if \<not> may_sweep tick_no fp st3 then ((None, None), st3)
                         else
                           let st4 = st3\<lparr>ss_last_sweep := Some tick_no\<rparr>
                           in case choose_target i st4 of
                                None \<Rightarrow> ((None, None), st4)
                              | Some (tier, toast, announced) \<Rightarrow>
                                  let r = sweep_pass eng (ti_region i) (speffect_id_for_tier tier) tier (ti_now i)
                                            (ss_anchor st4) (ss_watch st4) (ti_enemies i) (ti_phantoms i)
                                  in ((toast, Some r), finish_sweep fp r (st4\<lparr>ss_announced := announced\<rparr>)))"

text \<open>The events outside a tick: a load edge, a warp, a new configuration, the operator's command.\<close>

definition notify_transition :: "nat \<Rightarrow> sweep_state \<Rightarrow> sweep_state" where
  "notify_transition now st = st\<lparr>ss_gate := on_transition now (ss_gate st), ss_watch := watch_new\<rparr>"

definition notify_grace_warp :: "sweep_state \<Rightarrow> sweep_state" where
  "notify_grace_warp st = st\<lparr>ss_announced := []\<rparr>"

definition configure :: "scaling_config option \<Rightarrow> nat \<Rightarrow> sweep_state \<Rightarrow> sweep_state" where
  "configure cfg coop st =
     st\<lparr>ss_override := Seed, ss_config := cfg, ss_coop_difficulty := coop, ss_announced := [], ss_anchor := anchor_forget (ss_anchor st)\<rparr>"

definition runtime_override_command :: "string option \<Rightarrow> sweep_state \<Rightarrow> sweep_state" where
  "runtime_override_command arg st =
     (case arg of
        None \<Rightarrow> st
      | Some a \<Rightarrow>
          if trim a = [] then st
          else case parse_runtime_override (trim a) of
                 None \<Rightarrow> st
               | Some ov \<Rightarrow> st\<lparr>ss_override := ov, ss_last_sweep := None, ss_announced := []\<rparr>)"

end
