(* ===== verification/ErSweepClaims.thy ===== *)
theory ErSweepClaims
  imports ErSweep
begin

text \<open>
  What the enemy sweep guarantees: one sweep brings every character to a state the next one leaves alone,
  the effects that are not the sweep's survive it, and no sweep runs in a world that has just changed.
\<close>

section \<open>Kinds of effects\<close>

lemma tier_id_mem: "list_ex (\<lambda>t. st_speffect_id t = i) SCALING_TIERS \<longleftrightarrow> (\<exists>n < 20. i = 7010 + 10 * int n)"
  by (auto simp: list_ex_length tier_id)

lemma target_facts:
  "kind_of (speffect_id_for_tier t) = Some Ladder" "is_scaling_speffect (speffect_id_for_tier t)"
  "is_scaling_with_downstates (speffect_id_for_tier t)"
proof -
  define n where "n = min t 19"
  have id: "speffect_id_for_tier t = 7010 + 10 * int n" "n < 20" by (simp_all add: speffect_id_for_tier_def tier_id n_def)
  then show "is_scaling_speffect (speffect_id_for_tier t)" by (simp add: is_scaling_speffect_def in_scaling_range_def)
  then show "is_scaling_with_downstates (speffect_id_for_tier t)" by (simp add: is_scaling_with_downstates_def)
  show "kind_of (speffect_id_for_tier t) = Some Ladder" using id by (auto simp: kind_of_def is_ladder_rung_def tier_id_mem)
qed

lemma downstate_facts:
  assumes "i \<in> set DOWNSTATE_IDS"
  shows "kind_of i = Some Downstate" "is_scaling_with_downstates i" "\<not> is_scaling_speffect i"
proof -
  have r: "20018002 \<le> i" using assms by (auto simp: DOWNSTATE_IDS_def)
  then have "\<not> is_ladder_rung i" by (auto simp: is_ladder_rung_def in_dlc_range_def tier_id_mem)
  then show "kind_of i = Some Downstate" using assms by (simp add: kind_of_def is_downstate_id_def)
  show "is_scaling_with_downstates i" using assms by (simp add: is_scaling_with_downstates_def is_downstate_id_def)
  show "\<not> is_scaling_speffect i" using r by (simp add: is_scaling_speffect_def in_scaling_range_def in_dlc_range_def)
qed

lemma down_states_ids:
  "s \<in> set DOWN_STATES \<Longrightarrow> distinct (ds_ids s) \<and> ds_ids s \<noteq> [] \<and> set (ds_ids s) \<subseteq> set DOWNSTATE_IDS"
  by (auto simp: DOWN_STATES_def DOWNSTATE_IDS_def)

section \<open>The engine's list of effects\<close>

text \<open>What the sweep relies on: removing takes every entry of an id, applying a missing one adds an entry.\<close>

definition engine_ok :: "effect_engine \<Rightarrow> bool" where
  "engine_ok eng \<longleftrightarrow>
     (\<forall>i xs. mset (ee_remove eng i xs) = filter_mset (\<lambda>x. x \<noteq> i) (mset xs)) \<and>
     (\<forall>i xs. i \<notin> set xs \<longrightarrow> mset (ee_apply eng i xs) = add_mset i (mset xs))"

definition list_engine :: effect_engine where
  "list_engine = \<lparr>ee_remove = \<lambda>i. filter (\<lambda>x. x \<noteq> i), ee_apply = \<lambda>i xs. if i \<in> set xs then xs else xs @ [i]\<rparr>"

lemma list_engine_ok: "engine_ok list_engine"
  by (simp add: engine_ok_def list_engine_def)

lemma engine_remove: "engine_ok eng \<Longrightarrow> mset (ee_remove eng i xs) = filter_mset (\<lambda>x. x \<noteq> i) (mset xs)"
  by (simp add: engine_ok_def)

lemma engine_apply: "engine_ok eng \<Longrightarrow> i \<notin> set xs \<Longrightarrow> mset (ee_apply eng i xs) = add_mset i (mset xs)"
  by (simp add: engine_ok_def)

lemma mset_remove_all:
  assumes "engine_ok eng"
  shows "mset (remove_all eng ids xs) = filter_mset (\<lambda>x. x \<notin> set ids) (mset xs)"
  unfolding remove_all_def
proof (induction ids arbitrary: xs)
  case (Cons i ids)
  have "mset (foldl (\<lambda>e i. ee_remove eng i e) (ee_remove eng i xs) ids) =
      filter_mset (\<lambda>x. x \<notin> set ids) (filter_mset (\<lambda>x. x \<noteq> i) (mset xs))"
    by (simp add: Cons engine_remove [OF assms])
  then show ?case by (simp add: filter_filter_mset conj_commute)
qed simp

lemma mset_apply_all:
  assumes "engine_ok eng"
  shows "distinct ids \<Longrightarrow> set ids \<inter> set xs = {} \<Longrightarrow> mset (apply_all eng ids xs) = mset xs + mset ids"
  unfolding apply_all_def
proof (induction ids arbitrary: xs)
  case (Cons i ids)
  have m: "mset (ee_apply eng i xs) = add_mset i (mset xs)" using Cons.prems by (intro engine_apply [OF assms]) simp
  then have "set (ee_apply eng i xs) = insert i (set xs)" by (metis set_mset_add_mset_insert set_mset_mset)
  then have "set ids \<inter> set (ee_apply eng i xs) = {}" using Cons.prems by auto
  with Cons m show ?case by simp
qed simp

section \<open>What a sweep does to one character\<close>

definition carried :: "character \<Rightarrow> int list" where
  "carried c = filter is_scaling_with_downstates (ch_effects c)"

definition decision :: "sweep_ctx \<Rightarrow> character \<Rightarrow> scale_action" where
  "decision cx c =
     scale_action_for (\<exists>i \<in> set (carried c). kind_of i = Some Ladder) (\<exists>i \<in> set (carried c). kind_of i = Some Downstate)
       (ch_npc c) (cx_target_tier cx) (cx_area_tier cx)"

definition quiet :: "sweep_ctx \<Rightarrow> character \<Rightarrow> bool" where
  "quiet cx c \<longleftrightarrow> ch_is_player c \<or> settled_on_target (carried c) (cx_target cx) \<or>
     decision cx c \<in> {NoTouch, KeepDown} \<or> (\<exists>s. decision cx c = Down s \<and> settled_on_downstate (carried c) s)"

definition swept :: "effect_engine \<Rightarrow> sweep_ctx \<Rightarrow> character \<Rightarrow> character" where
  "swept eng cx c =
     (if quiet cx c then c
      else let cleared = remove_all eng (carried c) (ch_effects c)
           in c\<lparr>ch_effects := (case decision cx c of Down s \<Rightarrow> apply_all eng (ds_ids s) cleared | ClearDown \<Rightarrow> cleared
                                 | _ \<Rightarrow> ee_apply eng (cx_target cx) cleared)\<rparr>)"

definition writes :: "sweep_tally \<Rightarrow> nat" where
  "writes t = ta_scaled t + ta_scaled_down t + ta_cleared_down t"

lemma scan_flags:
  "cs_ladder (fst (fold scan_id xs p)) = (cs_ladder (fst p) \<or> (\<exists>i \<in> set xs. kind_of i = Some Ladder))"
  "cs_down (fst (fold scan_id xs p)) = (cs_down (fst p) \<or> (\<exists>i \<in> set xs. kind_of i = Some Downstate))"
  "writes (snd (fold scan_id xs p)) = writes (snd p)"
  by (induction xs arbitrary: p)
    (auto simp: scan_id_def writes_def note_other_def split: prod.splits option.splits scaling_kind.splits)

lemma note_writes [simp]:
  "writes (fold note_other xs t) = writes t" "writes (note_unrunged n t) = writes t" "writes (note_pair band table t) = writes t"
  "writes (note_rung_band r b t) = writes t" "writes (note_area_down n t) = writes t" "writes (note_area_moved n t) = writes t"
  by (induction xs arbitrary: t)
    (simp_all add: writes_def note_other_def note_unrunged_def note_pair_def note_rung_band_def note_area_down_def note_area_moved_def)

lemma update_writes [simp]:
  "writes (t\<lparr>ta_other_in_range := a\<rparr>) = writes t" "writes (t\<lparr>ta_band_and_rung := a\<rparr>) = writes t"
  "writes (t\<lparr>ta_band_only := a\<rparr>) = writes t" "writes (t\<lparr>ta_residue := a\<rparr>) = writes t"
  "writes (t\<lparr>ta_scaled_by_native := a\<rparr>) = writes t" "writes (t\<lparr>ta_settled_down := a\<rparr>) = writes t"
  "writes (t\<lparr>ta_kept_down := a\<rparr>) = writes t" "writes (t\<lparr>ta_left_vanilla := a, ta_left_vanilla_ids := l\<rparr>) = writes t"
  "writes (t\<lparr>ta_recomputed := a\<rparr>) = writes t" "writes (t\<lparr>ta_recompute_failed := a, ta_recompute_failed_ids := l\<rparr>) = writes t"
  "writes (t\<lparr>ta_scaled_down := Suc (ta_scaled_down t)\<rparr>) = Suc (writes t)"
  "writes (t\<lparr>ta_cleared_down := Suc (ta_cleared_down t)\<rparr>) = Suc (writes t)"
  by (simp_all add: writes_def)

lemma write_target_parts [simp]:
  "fst (write_target eng cx stale c w t) = c\<lparr>ch_effects := ee_apply eng (cx_target cx) (remove_all eng stale (ch_effects c))\<rparr>"
  "writes (snd (snd (write_target eng cx stale c w t))) = Suc (writes t)"
  by (simp_all add: write_target_def writes_def)

lemma census_writes [simp]: "writes (census c s t) = writes t"
  by (simp add: census_def Let_def split: option.splits)

lemma poll_writes: "writes (snd (poll_recompute c now p)) = writes (snd p)"
  by (auto simp: poll_recompute_def is_anomaly_def split: prod.splits option.splits verdict.splits)

lemma scale_one_swept:
  "fst (scale_one eng cx c p) = swept eng cx c \<and>
   writes (snd (snd (scale_one eng cx c p))) = writes (snd p) + (if quiet cx c then 0 else 1)"
proof (cases "ch_is_player c")
  case True
  then show ?thesis by (auto simp: scale_one_def quiet_def swept_def split: prod.splits)
next
  case np: False
  obtain w0 t0 where p: "p = (w0, t0)" by fastforce
  obtain w t1 where poll: "poll_recompute c (cx_now cx) (w0, t0) = (w, t1)" by fastforce
  have w1: "writes t1 = writes t0" using poll_writes [of c "cx_now cx" "(w0, t0)"] poll by simp
  show ?thesis
  proof (cases "settled_on_target (carried c) (cx_target cx)")
    case True
    then show ?thesis using np w1 by (simp add: scale_one_def p poll Let_def carried_def quiet_def swept_def)
  next
    case ns: False
    define t2 where "t2 = (if cx_target cx \<in> set (carried c)
        then fold note_other (filter (\<lambda>i. i \<noteq> cx_target cx) (carried c)) (t1\<lparr>ta_residue := ta_residue t1 + 1\<rparr>) else t1)"
    obtain s t3 where scan: "fold scan_id (carried c) (scan_empty, t2) = (s, t3)" by fastforce
    have flags: "cs_ladder s = (\<exists>i \<in> set (carried c). kind_of i = Some Ladder)"
      "cs_down s = (\<exists>i \<in> set (carried c). kind_of i = Some Downstate)"
      using scan_flags(1,2) [of "carried c" "(scan_empty, t2)"] by (simp_all only: scan fst_conv) (simp_all add: scan_empty_def)
    have "writes t2 = writes t0" by (simp add: t2_def w1)
    then have w3: "writes t3 = writes t0" using scan_flags(3) [of "carried c" "(scan_empty, t2)"] by (simp add: scan)
    have act: "scale_action_for (cs_ladder s) (cs_down s) (ch_npc c) (cx_target_tier cx) (cx_area_tier cx) = decision cx c"
      by (simp add: decision_def flags)
    note unfold = scale_one_def p poll Let_def carried_def [symmetric] np ns t2_def [symmetric] scan act
    show ?thesis
      by (cases "decision cx c")
        (auto simp: unfold quiet_def swept_def w3)
  qed
qed

section \<open>One sweep is enough\<close>

lemma mset_carried: "mset (carried c) = filter_mset is_scaling_with_downstates (mset (ch_effects c))"
  by (simp add: carried_def mset_filter)

lemma cleared_effects:
  assumes "engine_ok eng"
  shows "mset (remove_all eng (carried c) (ch_effects c)) = filter_mset (\<lambda>x. \<not> is_scaling_with_downstates x) (mset (ch_effects c))"
  unfolding mset_remove_all [OF assms] by (rule filter_mset_cong) (auto simp: carried_def)

lemma singleton_mset: "mset xs = {#x#} \<Longrightarrow> xs = [x]"
  by simp

text \<open>Another sweep's answer for a character that carries nothing but a down state, or nothing at all.\<close>

lemma down_state_in: "down_state_for n t = Some s \<Longrightarrow> s \<in> set DOWN_STATES"
  using down_state_spec [of n t] by blast

lemma decide_again:
  "scale_action_for l d npc t a = Down s \<Longrightarrow> \<not> l \<and> scale_action_for False True npc t a = Down s \<and> s \<in> set DOWN_STATES"
  "scale_action_for l d npc t a = ClearDown \<Longrightarrow> scale_action_for False False npc t a = NoTouch"
  by (auto simp: scale_action_for_def dest: down_state_in split: if_splits option.splits)

lemma swept_carried:
  assumes eng: "engine_ok eng" and target: "cx_target cx = speffect_id_for_tier tier" and loud: "\<not> quiet cx c"
  shows "(case decision cx c of
      Down s \<Rightarrow> mset (carried (swept eng cx c)) = mset (ds_ids s)
    | ClearDown \<Rightarrow> carried (swept eng cx c) = []
    | _ \<Rightarrow> carried (swept eng cx c) = [cx_target cx]) \<and>
    filter_mset (\<lambda>x. \<not> is_scaling_with_downstates x) (mset (ch_effects (swept eng cx c))) =
    filter_mset (\<lambda>x. \<not> is_scaling_with_downstates x) (mset (ch_effects c))"
proof -
  let ?S = is_scaling_with_downstates
  let ?cl = "remove_all eng (carried c) (ch_effects c)"
  have cl: "mset ?cl = filter_mset (\<lambda>x. \<not> ?S x) (mset (ch_effects c))" by (rule cleared_effects [OF eng])
  then have none: "\<forall>x \<in> set ?cl. \<not> ?S x" by (metis (no_types, lifting) filter_mset_eq_conv mem_Collect_eq set_mset_filter set_mset_mset)
  have clean: "filter_mset ?S (mset ?cl) = {#}"
    "filter_mset (\<lambda>x. \<not> ?S x) (mset ?cl) = filter_mset (\<lambda>x. \<not> ?S x) (mset (ch_effects c))"
    unfolding cl by (simp_all add: filter_filter_mset)
  have T: "?S (cx_target cx)" unfolding target by (rule target_facts(3))
  then have tgt: "mset (ee_apply eng (cx_target cx) ?cl) = add_mset (cx_target cx) (mset ?cl)"
    using none by (intro engine_apply [OF eng]) auto
  show ?thesis
  proof (cases "decision cx c")
    case (Down s)
    then have s: "s \<in> set DOWN_STATES" using decide_again(1) by (auto simp: decision_def)
    then have ids: "distinct (ds_ids s)" "\<forall>i \<in> set (ds_ids s). ?S i"
      using down_states_ids [OF s] downstate_facts(2) by auto
    then have "mset (apply_all eng (ds_ids s) ?cl) = mset ?cl + mset (ds_ids s)"
      using none by (intro mset_apply_all [OF eng]) auto
    moreover have "filter_mset ?S (mset (ds_ids s)) = mset (ds_ids s)" "filter_mset (\<lambda>x. \<not> ?S x) (mset (ds_ids s)) = {#}"
      using ids(2) by (simp_all flip: mset_filter add: filter_id_conv filter_empty_conv)
    ultimately show ?thesis using Down loud clean by (simp add: swept_def mset_carried)
  next
    case ClearDown
    then have e: "ch_effects (swept eng cx c) = ?cl" using loud by (simp add: swept_def)
    have "carried (swept eng cx c) = []" unfolding carried_def [of "swept eng cx c"] e filter_empty_conv using none by blast
    then show ?thesis using ClearDown clean(2) by (simp add: e)
  next
    case Replace
    then have "ch_effects (swept eng cx c) = ee_apply eng (cx_target cx) ?cl" using loud by (simp add: swept_def)
    with Replace clean tgt T show ?thesis using mset_carried [of "swept eng cx c"] by (simp add: singleton_mset)
  next
    case Apply
    then have "ch_effects (swept eng cx c) = ee_apply eng (cx_target cx) ?cl" using loud by (simp add: swept_def)
    with Apply clean tgt T show ?thesis using mset_carried [of "swept eng cx c"] by (simp add: singleton_mset)
  qed (use loud in \<open>auto simp: quiet_def\<close>)
qed

lemma swept_frame [simp]:
  "ch_is_player (swept eng cx c) = ch_is_player c" "ch_npc (swept eng cx c) = ch_npc c"
  by (simp_all add: swept_def Let_def)

lemma swept_quiet:
  assumes "engine_ok eng" "cx_target cx = speffect_id_for_tier tier"
  shows "quiet cx (swept eng cx c)"
proof (cases "quiet cx c")
  case False
  note C = swept_carried [OF assms False]
  show ?thesis
  proof (cases "decision cx c")
    case (Down s)
    note again = decide_again(1) [OF Down [unfolded decision_def]]
    then have ids: "ds_ids s \<noteq> []" "\<forall>i \<in> set (ds_ids s). kind_of i = Some Downstate"
      using down_states_ids downstate_facts(1) by blast+
    have m: "mset (carried (swept eng cx c)) = mset (ds_ids s)" using C Down by simp
    then have S: "set (carried (swept eng cx c)) = set (ds_ids s)" "length (carried (swept eng cx c)) = length (ds_ids s)"
      by (rule mset_eq_setD, rule mset_eq_length)
    have "hd (ds_ids s) \<in> set (ds_ids s)" using ids(1) by simp
    then have "\<not> (\<exists>i \<in> set (carried (swept eng cx c)). kind_of i = Some Ladder)"
      "\<exists>i \<in> set (carried (swept eng cx c)). kind_of i = Some Downstate"
      using ids(2) unfolding S(1) by force+
    then have "decision cx (swept eng cx c) = Down s" using again by (simp add: decision_def)
    then show ?thesis using S by (auto simp: quiet_def settled_on_downstate_def list_all_iff)
  next
    case ClearDown
    then have "carried (swept eng cx c) = []" using C by simp
    then have "decision cx (swept eng cx c) = NoTouch"
      using decide_again(2) [OF ClearDown [unfolded decision_def]] by (simp add: decision_def)
    then show ?thesis by (simp add: quiet_def)
  qed (use C False in \<open>auto simp: quiet_def settled_on_target_def\<close>)
qed (simp add: swept_def)

lemma quiet_swept: "quiet cx c \<Longrightarrow> swept eng cx c = c"
  by (simp add: swept_def)

lemma scale_each_swept:
  "fst (scale_each eng cx cs p) = map (swept eng cx) cs \<and>
   writes (snd (snd (scale_each eng cx cs p))) = writes (snd p) + length (filter (\<lambda>c. \<not> quiet cx c) cs)"
proof (induction cs arbitrary: p)
  case (Cons c cs)
  obtain c1 p1 where one: "scale_one eng cx c p = (c1, p1)" by (cases "scale_one eng cx c p")
  with scale_one_swept [of eng cx c p] Cons.IH [of p1] show ?case by (auto simp: Let_def split: prod.splits)
qed simp

lemma scale_phantoms_swept:
  "fst (scale_phantoms eng cx cs p) = map (\<lambda>x. (fst x, if is_hostile_phantom (fst x) then swept eng cx (snd x) else snd x)) cs \<and>
   writes (snd (snd (scale_phantoms eng cx cs p))) =
     writes (snd p) + length (filter (\<lambda>x. is_hostile_phantom (fst x) \<and> \<not> quiet cx (snd x)) cs)"
proof (induction cs arbitrary: p)
  case (Cons x cs)
  obtain ty c where x: "x = (ty, c)" by fastforce
  obtain c1 p1 where one: "scale_one eng cx c p = (c1, p1)" by (cases "scale_one eng cx c p")
  show ?case
    using scale_one_swept [of eng cx c p] Cons.IH [of p1] Cons.IH [of p] by (auto simp: x one Let_def split: prod.splits)
qed simp

section \<open>A swept population tells nothing about the ground\<close>

lemma sample_effects_sound:
  "(fst (sample_effects xs acc) \<noteq> None \<longrightarrow> fst acc \<noteq> None \<or> (\<exists>i \<in> set xs. is_scaling_speffect i \<and> kind_of i = Some Ladder)) \<and>
   (snd (sample_effects xs acc) \<longrightarrow> snd acc \<or> (\<exists>i \<in> set xs. is_scaling_speffect i \<and> kind_of i = Some OtherInRange))"
proof (induction xs acc rule: sample_effects.induct)
  case (2 i rest rung has_band)
  then show ?case by (auto split: if_splits option.splits scaling_kind.splits)
qed simp

lemma quiet_not_sampled:
  assumes "quiet cx c" "cx_target cx = speffect_id_for_tier tier"
  shows "area_sample_one c t = t"
proof (cases "ch_is_player c")
  case False
  let ?r = "sample_effects (ch_effects c) (None, False)"
  have carried: "i \<in> set (carried c)" if "i \<in> set (ch_effects c)" "is_scaling_speffect i" for i
    using that by (simp add: carried_def is_scaling_with_downstates_def)
  have "\<not> (fst ?r \<noteq> None \<and> snd ?r)"
  proof
    assume "fst ?r \<noteq> None \<and> snd ?r"
    then obtain i j where i: "i \<in> set (carried c)" "kind_of i = Some Ladder" and j: "j \<in> set (carried c)" "kind_of j = Some OtherInRange"
      using sample_effects_sound [of "ch_effects c" "(None, False)"] carried by auto
    have "\<not> settled_on_target (carried c) (cx_target cx)"
      using j target_facts(1) [of tier] by (auto simp: settled_on_target_def list_all_iff assms(2))
    moreover have "decision cx c = Replace" using i by (auto simp: decision_def scale_action_for_def)
    ultimately show False using assms(1) False by (simp add: quiet_def)
  qed
  then show ?thesis by (auto simp: area_sample_one_def split: prod.splits option.splits bool.splits)
qed (simp add: area_sample_one_def)

lemma sample_all_quiet:
  "\<forall>c \<in> set cs. quiet cx c \<Longrightarrow> cx_target cx = speffect_id_for_tier tier \<Longrightarrow> fold area_sample_one cs t = t"
  by (induction cs arbitrary: t) (auto simp: quiet_not_sampled [of cx])

lemma empty_histogram: "area_tier_from_histogram (ta_area_hist tally_zero) = None"
  by (simp add: tally_zero_def Let_def area_tier_from_histogram_def MIN_AREA_SAMPLE_def sum_list_replicate)

lemma resolve_again:
  assumes "anchor_resolve region fresh anchor = (latched, anchor1)"
  shows "anchor_resolve region None anchor1 = (latched, anchor1)"
    "fst (resolve_area_tier baked None latched) = fst (resolve_area_tier baked fresh latched)"
  using assms by (auto simp: anchor_resolve_def resolve_area_tier_def Let_def split: if_splits option.splits)


definition pass_ctx :: "int \<Rightarrow> int \<Rightarrow> nat \<Rightarrow> nat \<Rightarrow> area_anchor \<Rightarrow> character list \<Rightarrow> sweep_ctx" where
  "pass_ctx region target tier now anchor enemies =
     (let fresh = area_tier_from_histogram (ta_area_hist (fold area_sample_one enemies tally_zero))
      in \<lparr>cx_target = target, cx_target_tier = tier,
          cx_area_tier = fst (resolve_area_tier (baked_area_tier region) fresh (fst (anchor_resolve region fresh anchor))),
          cx_now = now\<rparr>)"

lemma area_sample_writes: "writes (fold area_sample_one cs t) = writes t"
  by (induction cs arbitrary: t)
    (auto simp: area_sample_one_def note_area_sample_def writes_def split: prod.splits option.splits bool.splits)

lemma sweep_pass_swept:
  fixes enemies :: "character list"
  defines "cx region target tier now anchor \<equiv> pass_ctx region target tier now anchor enemies"
  shows "sr_enemies (sweep_pass eng region target tier now anchor watch enemies phantoms) =
      map (swept eng (cx region target tier now anchor)) enemies"
    "sr_phantoms (sweep_pass eng region target tier now anchor watch enemies phantoms) =
      map (\<lambda>x. (fst x, if is_hostile_phantom (fst x) then swept eng (cx region target tier now anchor) (snd x) else snd x)) phantoms"
    "sr_anchor (sweep_pass eng region target tier now anchor watch enemies phantoms) =
      snd (anchor_resolve region (area_tier_from_histogram (ta_area_hist (fold area_sample_one enemies tally_zero))) anchor)"
    "writes (sr_tally (sweep_pass eng region target tier now anchor watch enemies phantoms)) =
      length (filter (\<lambda>c. \<not> quiet (cx region target tier now anchor) c) enemies) +
      length (filter (\<lambda>x. is_hostile_phantom (fst x) \<and> \<not> quiet (cx region target tier now anchor) (snd x)) phantoms)"
proof -
  let ?t1 = "fold area_sample_one enemies tally_zero" and ?cx = "cx region target tier now anchor"
  obtain latched a1 where an: "anchor_resolve region (area_tier_from_histogram (ta_area_hist ?t1)) anchor = (latched, a1)"
    by (cases "anchor_resolve region (area_tier_from_histogram (ta_area_hist ?t1)) anchor")
  obtain area src where ar: "resolve_area_tier (baked_area_tier region) (area_tier_from_histogram (ta_area_hist ?t1)) latched = (area, src)"
    by (cases "resolve_area_tier (baked_area_tier region) (area_tier_from_histogram (ta_area_hist ?t1)) latched")
  have cx: "\<lparr>cx_target = target, cx_target_tier = tier, cx_area_tier = area, cx_now = now\<rparr> = ?cx"
    by (simp add: cx_def pass_ctx_def Let_def an ar)
  obtain e1 w1 t2 where e: "scale_each eng ?cx enemies (watch, ?t1) = (e1, w1, t2)" by (cases "scale_each eng ?cx enemies (watch, ?t1)")
  obtain p1 w2 t3 where ph: "scale_phantoms eng ?cx phantoms (w1, t2) = (p1, w2, t3)" by (cases "scale_phantoms eng ?cx phantoms (w1, t2)")
  have zero: "writes ?t1 = 0" unfolding area_sample_writes by (simp add: writes_def tally_zero_def Let_def)
  note step = scale_each_swept [of eng ?cx enemies "(watch, ?t1)", unfolded e, simplified]
    scale_phantoms_swept [of eng ?cx phantoms "(w1, t2)", unfolded ph, simplified]
  have pass: "sweep_pass eng region target tier now anchor watch enemies phantoms =
      \<lparr>sr_anchor = a1, sr_watch = w2, sr_enemies = e1, sr_phantoms = p1, sr_tally = t3\<rparr>"
    by (simp add: sweep_pass_def Let_def an ar cx e ph)
  show "sr_enemies (sweep_pass eng region target tier now anchor watch enemies phantoms) = map (swept eng ?cx) enemies"
    "sr_phantoms (sweep_pass eng region target tier now anchor watch enemies phantoms) =
      map (\<lambda>x. (fst x, if is_hostile_phantom (fst x) then swept eng ?cx (snd x) else snd x)) phantoms"
    "sr_anchor (sweep_pass eng region target tier now anchor watch enemies phantoms) =
      snd (anchor_resolve region (area_tier_from_histogram (ta_area_hist ?t1)) anchor)"
    "writes (sr_tally (sweep_pass eng region target tier now anchor watch enemies phantoms)) =
      length (filter (\<lambda>c. \<not> quiet ?cx c) enemies) +
      length (filter (\<lambda>x. is_hostile_phantom (fst x) \<and> \<not> quiet ?cx (snd x)) phantoms)"
    using step zero by (simp_all add: pass an)
qed

text \<open>\<open>quiet\<close> and \<open>swept\<close> do not look at the clock.\<close>

lemma quiet_clock: "quiet (cx\<lparr>cx_now := n\<rparr>) c = quiet cx c"
  by (simp add: quiet_def decision_def)

text \<open>
  C12: A sweep settles a population. Over any game engine whose remove takes every entry of an id and
  whose apply adds a missing one, sweep the same population twice for the same region and tier, whatever
  the clock and the outstanding writes: the second sweep changes no character and counts no write, so the
  sweeps back off; the reading of the ground, taken from effects the first sweep strips, stays the one the
  first sweep acted on; and every effect that is not the sweep's own survives.
\<close>

theorem sweep_settles:
  assumes "engine_ok eng"
    and "r1 = sweep_pass eng region (speffect_id_for_tier tier) tier now anchor watch enemies phantoms"
    and "r2 = sweep_pass eng region (speffect_id_for_tier tier) tier now' (sr_anchor r1) watch' (sr_enemies r1) (sr_phantoms r1)"
  shows "sr_enemies r2 = sr_enemies r1 \<and> sr_phantoms r2 = sr_phantoms r1 \<and> sr_anchor r2 = sr_anchor r1 \<and>
    ta_scaled (sr_tally r2) = 0 \<and> ta_scaled_down (sr_tally r2) = 0 \<and> ta_cleared_down (sr_tally r2) = 0 \<and>
    length (sr_enemies r1) = length enemies \<and>
    (\<forall>k < length enemies.
       filter_mset (\<lambda>x. \<not> is_scaling_with_downstates x) (mset (ch_effects (sr_enemies r1 ! k))) =
       filter_mset (\<lambda>x. \<not> is_scaling_with_downstates x) (mset (ch_effects (enemies ! k))))"
proof -
  let ?T = "speffect_id_for_tier tier"
  let ?cx = "pass_ctx region ?T tier now anchor enemies"
  have target: "cx_target ?cx = ?T" by (simp add: pass_ctx_def Let_def)
  note P1 = sweep_pass_swept [of eng region ?T tier now anchor watch enemies phantoms, folded assms(2)]
  have q: "quiet ?cx (swept eng ?cx c)" for c by (rule swept_quiet [OF assms(1) target])
  have sample: "fold area_sample_one (sr_enemies r1) tally_zero = tally_zero"
    by (rule sample_all_quiet [OF _ target]) (simp add: P1(1) q)
  let ?fresh = "area_tier_from_histogram (ta_area_hist (fold area_sample_one enemies tally_zero))"
  obtain latched a1 where an: "anchor_resolve region ?fresh anchor = (latched, a1)"
    by (cases "anchor_resolve region ?fresh anchor")
  note again = resolve_again [OF an]
  have anchor2: "sr_anchor r1 = a1" by (simp add: P1(3) an)
  have "pass_ctx region ?T tier now' (sr_anchor r1) (sr_enemies r1) = ?cx\<lparr>cx_now := now'\<rparr>"
    by (simp add: pass_ctx_def Let_def sample empty_histogram anchor2 an again(1) again(2) [of "baked_area_tier region"])
  note P2 = sweep_pass_swept [of eng region ?T tier now' "sr_anchor r1" watch' "sr_enemies r1" "sr_phantoms r1",
    folded assms(3), unfolded this]
  have q2: "quiet (?cx\<lparr>cx_now := now'\<rparr>) (swept eng ?cx c)" for c by (simp only: quiet_clock q)
  have "sr_enemies r2 = sr_enemies r1" unfolding P2(1) P1(1) by (simp add: quiet_swept [OF q2])
  moreover have "sr_phantoms r2 = sr_phantoms r1" unfolding P2(2) P1(2) by (auto simp: quiet_swept [OF q2])
  moreover have "sr_anchor r2 = sr_anchor r1" by (simp add: P2(3) sample empty_histogram anchor2 again(1))
  moreover have "writes (sr_tally r2) = 0"
    unfolding P2(4) P1(1,2) by (auto simp: filter_empty_conv q2)
  moreover have "filter_mset (\<lambda>x. \<not> is_scaling_with_downstates x) (mset (ch_effects (swept eng ?cx c))) =
      filter_mset (\<lambda>x. \<not> is_scaling_with_downstates x) (mset (ch_effects c))" for c
    using swept_carried [OF assms(1) target, of c] by (cases "quiet ?cx c") (simp_all add: quiet_swept)
  ultimately show ?thesis by (simp add: P1(1) writes_def)
qed

definition demo_enemy :: character where
  "demo_enemy = \<lparr>ch_key = 1, ch_is_player = False, ch_npc = 5, ch_effects = [42, 7010, 7900], ch_max_hp = 100, ch_unloaded = False\<rparr>"

theorem sweep_settles_witness:
  "(let r1 = sweep_pass list_engine 60000 (speffect_id_for_tier 5) 5 0 anchor_new watch_new [demo_enemy] [];
        r2 = sweep_pass list_engine 60000 (speffect_id_for_tier 5) 5 9 (sr_anchor r1) (sr_watch r1) (sr_enemies r1) (sr_phantoms r1)
    in ch_effects (sr_enemies r1 ! 0) = [42, 7060] \<and> sr_enemies r2 = sr_enemies r1 \<and> ta_scaled (sr_tally r2) = 0)"
proof -
  let ?r1 = "sweep_pass list_engine 60000 (speffect_id_for_tier 5) 5 0 anchor_new watch_new [demo_enemy] []"
  have t: "speffect_id_for_tier 5 = 7060" by (simp add: speffect_id_for_tier_def tier_id)
  have scaling: "is_scaling_with_downstates 7010" "is_scaling_with_downstates 7900" "\<not> is_scaling_with_downstates 42"
    by (simp_all add: is_scaling_with_downstates_def is_scaling_speffect_def in_scaling_range_def in_dlc_range_def
      is_downstate_id_def DOWNSTATE_IDS_def)
  have k: "kind_of 7010 = Some Ladder" using target_facts(1) [of 0] by (simp add: speffect_id_for_tier_def tier_id)
  have c: "carried demo_enemy = [7010, 7900]" by (simp add: carried_def demo_enemy_def scaling)
  have d: "decision cx demo_enemy = Replace" for cx by (simp add: decision_def c k scale_action_for_def)
  have "cx_target cx = 7060 \<Longrightarrow> ch_effects (swept list_engine cx demo_enemy) = [42, 7060]" for cx
    by (simp add: swept_def quiet_def c d settled_on_target_def Let_def)
      (simp add: demo_enemy_def remove_all_def list_engine_def)
  then have "ch_effects (sr_enemies ?r1 ! 0) = [42, 7060]"
    by (simp add: sweep_pass_swept(1) pass_ctx_def Let_def t)
  then show ?thesis
    using sweep_settles [OF list_engine_ok refl refl, of 60000 5 9 0 anchor_new watch_new "[demo_enemy]" "[]" "sr_watch ?r1"]
    unfolding Let_def by blast
qed

section \<open>No sweep in a world that just changed\<close>

text \<open>What the gate is told: load edges, and the region of every tick.\<close>

datatype gate_event = Transition nat | Region int nat

definition gate_step :: "settle_policy \<Rightarrow> sweep_gate \<Rightarrow> gate_event \<Rightarrow> sweep_gate" where
  "gate_step pol g e = (case e of Transition t \<Rightarrow> on_transition t g | Region r t \<Rightarrow> snd (on_region r t pol g))"

definition event_time :: "gate_event \<Rightarrow> nat" where
  "event_time e = (case e of Transition t \<Rightarrow> t | Region r t \<Rightarrow> t)"

definition gate_inv :: "gate_event list \<Rightarrow> sweep_gate \<Rightarrow> bool" where
  "gate_inv evs g \<longleftrightarrow>
     (\<forall>t. Transition t \<in> set evs \<longrightarrow> (\<exists>u. sg_transition_at g = Some u \<and> t \<le> u)) \<and>
     (\<forall>r t. Region r t \<in> set evs \<longrightarrow> (\<exists>q u. sg_region g = Some q \<and> sg_region_changed_at g = Some u \<and> (r = q \<or> t \<le> u))) \<and>
     (\<forall>u. sg_transition_at g = Some u \<longrightarrow> Transition u \<in> set evs) \<and>
     (\<forall>u. sg_region_changed_at g = Some u \<longrightarrow> (\<exists>r. Region r u \<in> set evs)) \<and>
     (sg_region g \<noteq> None \<longrightarrow> sg_region_changed_at g \<noteq> None)"

lemma gate_step_inv:
  assumes inv: "gate_inv evs g" and late: "\<And>x. x \<in> set evs \<Longrightarrow> event_time x \<le> event_time e" and "\<not> pol_legacy pol"
  shows "gate_inv (evs @ [e]) (gate_step pol g e)"
proof (cases e)
  case (Transition t)
  have "u \<le> t" if "Transition u \<in> set evs" for u using late [OF that] by (simp add: Transition event_time_def)
  moreover have "gate_step pol g e = g\<lparr>sg_transition_at := Some t, sg_flaps := 0\<rparr>"
    by (simp add: Transition gate_step_def on_transition_def)
  ultimately show ?thesis using inv by (auto simp: gate_inv_def Transition)
next
  case (Region r t)
  have old: "u \<le> t" if "Region q u \<in> set evs" for q u using late [OF that] by (simp add: Region event_time_def)
  show ?thesis
  proof (cases "sg_region g = Some r")
    case True
    have step: "gate_step pol g e = g" by (simp add: Region gate_step_def on_region_def True)
    obtain u where "sg_region_changed_at g = Some u" using inv True by (auto simp: gate_inv_def)
    with inv True show ?thesis unfolding gate_inv_def step by (auto simp: Region)
  next
    case False
    have "sg_transition_at (gate_step pol g e) = sg_transition_at g" "sg_region (gate_step pol g e) = Some r"
      "sg_region_changed_at (gate_step pol g e) = Some t"
      using False assms(3) by (simp_all add: Region gate_step_def on_region_def)
    with inv old show ?thesis unfolding gate_inv_def by (auto simp: Region)
  qed
qed

lemma gate_history_inv:
  assumes "\<not> pol_legacy pol"
  shows "sorted (map event_time evs) \<Longrightarrow> gate_inv evs (foldl (gate_step pol) gate_new evs)"
proof (induction evs rule: rev_induct)
  case Nil
  then show ?case by (simp add: gate_inv_def gate_new_def)
next
  case (snoc e evs)
  then show ?case using gate_step_inv [of evs "foldl (gate_step pol) gate_new evs" e pol] assms
    by (simp add: sorted_append)
qed

text \<open>
  C33: The sweep waits for the world to settle. Over any history of load edges and observed regions, a
  sweep is allowed only when the last load edge is at least two and a half seconds old and every region
  observed in the last second and a half is the present one; and when nothing at all happened for two and
  a half seconds it is allowed, so the gate cannot stay shut.
\<close>

theorem sweep_waits_for_the_world:
  assumes "sorted (map event_time evs)" and "g = foldl (gate_step SHIPPING) gate_new evs"
  shows "(sweep_allowed now SHIPPING g \<longrightarrow>
      (\<forall>t. Transition t \<in> set evs \<longrightarrow> t + 2500 \<le> now) \<and>
      (\<forall>r t. Region r t \<in> set evs \<and> now < t + 1500 \<longrightarrow> sg_region g = Some r)) \<and>
    ((\<forall>e \<in> set evs. event_time e + 2500 \<le> now) \<longrightarrow> sweep_allowed now SHIPPING g)"
proof -
  have inv: "gate_inv evs g" unfolding assms(2) by (rule gate_history_inv [OF _ assms(1)]) (simp add: SHIPPING_def)
  have allowed: "sweep_allowed now SHIPPING g \<longleftrightarrow>
      (\<forall>u. sg_transition_at g = Some u \<longrightarrow> u + 2500 \<le> now) \<and> (\<forall>u. sg_region_changed_at g = Some u \<longrightarrow> u + 1500 \<le> now)"
    by (auto simp: sweep_allowed_def elapsed_ok_def SHIPPING_def split: option.splits)
  show ?thesis
  proof (intro conjI impI allI; (elim conjE)?)
    fix t assume a: "sweep_allowed now SHIPPING g" "Transition t \<in> set evs"
    then obtain u where u: "sg_transition_at g = Some u" "t \<le> u" using inv unfolding gate_inv_def by blast
    with a(1) allowed have "u + 2500 \<le> now" by simp
    with u(2) show "t + 2500 \<le> now" by linarith
  next
    fix r t assume a: "sweep_allowed now SHIPPING g" "Region r t \<in> set evs" "now < t + 1500"
    then obtain q u where u: "sg_region g = Some q" "sg_region_changed_at g = Some u" "r = q \<or> t \<le> u"
      using inv unfolding gate_inv_def by blast
    with a(1) allowed have "u + 1500 \<le> now" by simp
    with a(3) u show "sg_region g = Some r" by auto
  next
    assume old: "\<forall>e \<in> set evs. event_time e + 2500 \<le> now"
    have "u + 2500 \<le> now" if "sg_transition_at g = Some u" for u
    proof -
      have "Transition u \<in> set evs" using inv that by (simp add: gate_inv_def)
      with old show ?thesis by (force simp: event_time_def)
    qed
    moreover have "u + 1500 \<le> now" if ch: "sg_region_changed_at g = Some u" for u
    proof -
      obtain r where "Region r u \<in> set evs" using inv ch by (auto simp: gate_inv_def)
      with old show ?thesis by (force simp: event_time_def)
    qed
    ultimately show "sweep_allowed now SHIPPING g" by (simp add: allowed)
  qed
qed

theorem sweep_waits_for_the_world_witness:
  "(let g = foldl (gate_step SHIPPING) gate_new [Transition 100, Region 7 200, Region 7 2000]
    in sweep_allowed 5000 SHIPPING g \<and> \<not> sweep_allowed 2000 SHIPPING g)"
proof -
  let ?evs = "[Transition 100, Region 7 200, Region 7 2000]"
  have s: "sorted (map event_time ?evs)" by (simp add: event_time_def)
  from sweep_waits_for_the_world [OF s refl, of 5000] sweep_waits_for_the_world [OF s refl, of 2000]
  show ?thesis unfolding Let_def by (auto simp: event_time_def)
qed

end
