(* ===== verification/ErRegionLocks.thy ===== *)
theory ErRegionLocks
  imports Prelude
begin

text \<open>
  Region locks of the Elden Ring client (\<open>crates/er-logic/src/region_lock.rs\<close>, the baked table of
  \<open>region_locks.rs\<close> and the notice of \<open>goal_approach.rs\<close>): which ground is sealed, the
  natural keys that open it, the once-per-visit latch, the countdown before a kick, what the player is
  told, and the lock configuration derived for a seed that speaks no region key. Integers of width 32
  are held as \<open>int\<close> and \<open>nat\<close> with the conversions of the code written out; a
  \<open>HashMap\<close> is the list of its entries in some iteration order.
\<close>

section \<open>The baked table\<close>

record baked_region_lock =
  bk_region :: string
  bk_lock_item :: string
  bk_open_flag :: "nat option"
  bk_play_regions :: "int list"

definition RAW_PLAY_REGION_BUCKETS :: "(int \<times> int) list" where
  "RAW_PLAY_REGION_BUCKETS = [(6101010, 10000)]"

definition REGION_LOCKS :: "baked_region_lock list" where
  "REGION_LOCKS =
    [
     \<lparr>bk_region = ''Abyssal'', bk_lock_item = ''Abyssal Lock'', bk_open_flag = Some 76860,
       bk_play_regions = [68600]\<rparr>,
     \<lparr>bk_region = ''Ainsel River'', bk_lock_item = ''Ainsel River Lock'', bk_open_flag = Some 71211,
       bk_play_regions = [12010]\<rparr>,
     \<lparr>bk_region = ''Altus'', bk_lock_item = ''Altus Lock'', bk_open_flag = Some 76301,
       bk_play_regions = [30070, 30080, 30100, 30120, 30130, 31180, 31190, 32040, 32050, 34120, 63000, 63010]\<rparr>,
     \<lparr>bk_region = ''Ancient Ruins'', bk_lock_item = ''Ancient Ruins Lock'', bk_open_flag = Some 76940,
       bk_play_regions = [69400, 69410]\<rparr>,
     \<lparr>bk_region = ''Ashen Capital'', bk_lock_item = ''Ashen Capital Lock'', bk_open_flag = Some 71123,
       bk_play_regions = [11050, 19000]\<rparr>,
     \<lparr>bk_region = ''Belurat'', bk_lock_item = ''Belurat Lock'', bk_open_flag = Some 72001,
       bk_play_regions = [20000]\<rparr>,
     \<lparr>bk_region = ''Caelid'', bk_lock_item = ''Caelid Lock'', bk_open_flag = Some 73207,
       bk_play_regions = [30140, 30150, 30160, 31100, 31110, 31200, 31210, 32070, 32080, 34130, 64000, 64010, 64020]\<rparr>,
     \<lparr>bk_region = ''Cerulean'', bk_lock_item = ''Cerulean Lock'', bk_open_flag = Some 76831,
       bk_play_regions = [22000, 41020, 68300, 68400]\<rparr>,
     \<lparr>bk_region = ''Consecrated Snowfield'', bk_lock_item = ''Consecrated Snowfield Lock'', bk_open_flag = Some 76550,
       bk_play_regions = [30190, 30200, 31120, 32110, 65030]\<rparr>,
     \<lparr>bk_region = ''Deeproot Depths'', bk_lock_item = ''Deeproot Depths Lock'', bk_open_flag = Some 71231,
       bk_play_regions = [12030]\<rparr>,
     \<lparr>bk_region = ''Enir Ilim'', bk_lock_item = ''Enir Ilim Lock'', bk_open_flag = Some 72012,
       bk_play_regions = [20010]\<rparr>,
     \<lparr>bk_region = ''Ensis'', bk_lock_item = ''Ensis Lock'', bk_open_flag = Some 76821,
       bk_play_regions = [68200]\<rparr>,
     \<lparr>bk_region = ''Farum Azula'', bk_lock_item = ''Farum Azula Lock'', bk_open_flag = Some 71303,
       bk_play_regions = [13000]\<rparr>,
     \<lparr>bk_region = ''Gravesite'', bk_lock_item = ''Gravesite Lock'', bk_open_flag = Some 76800,
       bk_play_regions = [40000, 41000, 42000, 43000, 43010, 68000, 68100]\<rparr>,
     \<lparr>bk_region = ''Haligtree'', bk_lock_item = ''Haligtree Lock'', bk_open_flag = Some 71501,
       bk_play_regions = [15000]\<rparr>,
     \<lparr>bk_region = ''Jagged Peak'', bk_lock_item = ''Jagged Peak Lock'', bk_open_flag = Some 76840,
       bk_play_regions = [68410, 68500]\<rparr>,
     \<lparr>bk_region = ''Leyndell'', bk_lock_item = ''Leyndell Lock'', bk_open_flag = Some 76980,
       bk_play_regions = [11000, 34140, 35000]\<rparr>,
     \<lparr>bk_region = ''Limgrave'', bk_lock_item = ''Limgrave Lock'', bk_open_flag = Some 73100,
       bk_play_regions = [30020, 30040, 30110, 31000, 31030, 31150, 31170, 32010, 61000, 61010]\<rparr>,
     \<lparr>bk_region = ''Liurnia'', bk_lock_item = ''Liurnia Lock'', bk_open_flag = Some 73202,
       bk_play_regions = [30030, 30050, 30060, 31040, 31050, 31060, 32020, 34110, 39200, 62000, 62010, 62020]\<rparr>,
     \<lparr>bk_region = ''Mohgwyn'', bk_lock_item = ''Mohgwyn Lock'', bk_open_flag = Some 71251,
       bk_play_regions = [12050]\<rparr>,
     \<lparr>bk_region = ''Mountaintops of the Giants'', bk_lock_item = ''Mountaintops of the Giants Lock'', bk_open_flag = Some 73017,
       bk_play_regions = [30170, 30180, 31220, 65000, 65010, 65020]\<rparr>,
     \<lparr>bk_region = ''Mt. Gelmir'', bk_lock_item = ''Mt. Gelmir Lock'', bk_open_flag = Some 76350,
       bk_play_regions = [16000, 30090, 31070, 31090, 63020]\<rparr>,
     \<lparr>bk_region = ''Rauh Base'', bk_lock_item = ''Rauh Base Lock'', bk_open_flag = Some 76912,
       bk_play_regions = [40010, 42030, 69010]\<rparr>,
     \<lparr>bk_region = ''Raya Lucaria Academy'', bk_lock_item = ''Raya Lucaria Academy Lock'', bk_open_flag = Some 76981,
       bk_play_regions = [14000]\<rparr>,
     \<lparr>bk_region = ''Scadu Altus'', bk_lock_item = ''Scadu Altus Lock'', bk_open_flag = Some 76900,
       bk_play_regions = [40020, 41010, 42020, 69000, 69020, 69030]\<rparr>,
     \<lparr>bk_region = ''Shadow Keep'', bk_lock_item = ''Shadow Keep Lock'', bk_open_flag = Some 76935,
       bk_play_regions = [21000, 21010, 21020, 69300]\<rparr>,
     \<lparr>bk_region = ''Siofra River'', bk_lock_item = ''Siofra River Lock'', bk_open_flag = Some 71222,
       bk_play_regions = [12020, 12070]\<rparr>,
     \<lparr>bk_region = ''Stormveil'', bk_lock_item = ''Stormveil Lock'', bk_open_flag = Some 71003,
       bk_play_regions = [10000, 34100]\<rparr>,
     \<lparr>bk_region = ''Weeping'', bk_lock_item = ''Weeping Lock'', bk_open_flag = Some 73102,
       bk_play_regions = [30000, 30010, 31010, 31020, 32000, 61020]\<rparr>
    ]"

definition by_lock_item :: "string \<Rightarrow> baked_region_lock option" where
  "by_lock_item name = List.find (\<lambda>r. bk_lock_item r = name) REGION_LOCKS"

lemma by_lock_itemD: "by_lock_item n = Some r \<Longrightarrow> r \<in> set REGION_LOCKS \<and> bk_lock_item r = n"
  by (auto simp: by_lock_item_def find_Some_iff)

text \<open>\<open>x as i32\<close> of a \<open>u32\<close>.\<close>

definition as_i32 :: "nat \<Rightarrow> int" where
  "as_i32 n = (if n mod 2 ^ 32 < 2 ^ 31 then int (n mod 2 ^ 32) else int (n mod 2 ^ 32) - 2 ^ 32)"

lemma as_u32_as_i32: "n < 2 ^ 32 \<Longrightarrow> as_u32 (as_i32 n) = n"
  by (auto simp: as_u32_def as_i32_def)

section \<open>The Leyndell gate\<close>

datatype leyndell_tracker_gate = LockOnly | RuneCount nat | LegacySeal

fun accessible :: "leyndell_tracker_gate \<Rightarrow> bool \<Rightarrow> nat \<Rightarrow> bool \<Rightarrow> bool" where
  "accessible LockOnly altus_open runes seal_open = True"
| "accessible (RuneCount required) altus_open runes seal_open = (altus_open \<and> required \<le> runes)"
| "accessible LegacySeal altus_open runes seal_open = (altus_open \<and> seal_open)"

datatype leyndell_gate_flag_action = Unmanaged | HoldClosed | OpenGate

definition gate_flag_action :: "nat \<Rightarrow> nat \<Rightarrow> leyndell_gate_flag_action" where
  "gate_flag_action runes_required ap_received_runes =
     (if runes_required = 0 then Unmanaged
      else if ap_received_runes < runes_required then HoldClosed
      else OpenGate)"

definition leyndell_gate_status :: "string \<Rightarrow> bool \<Rightarrow> nat \<Rightarrow> nat \<Rightarrow> string option" where
  "leyndell_gate_status lock_item lock_held runes_required runes_held =
     (if runes_required = 0 \<or> lock_item = [] then None
      else
        let lock = (if lock_held then ''held'' else ''missing'');
            state = (if lock_held \<and> runes_required \<le> runes_held then ''open'' else ''closed'')
        in Some (''Leyndell gate: '' @ lock_item @ '' '' @ lock @ ''; Great Runes '' @ show_nat runes_held
                 @ ''/'' @ show_nat runes_required @ '' -- '' @ state
                 @ ''; no grace warp, enter from Altus''))"

section \<open>Sealed ground\<close>

text \<open>
  A play region folds to its five-digit bucket; the exact raw ids of the table are resolved first.
  \<open>pr / 100\<close> is only reached for a positive \<open>pr\<close>, where it is \<open>div\<close>.
\<close>

definition play_region_bucket :: "int \<Rightarrow> int" where
  "play_region_bucket pr =
     (case List.find (\<lambda>x. fst x = pr) RAW_PLAY_REGION_BUCKETS of
        Some x \<Rightarrow> snd x
      | None \<Rightarrow> if 1000000 \<le> pr then pr div 100 else pr)"

type_synonym lock_range = "int \<times> int \<times> int"

definition covers :: "int \<Rightarrow> lock_range \<Rightarrow> bool" where
  "covers sub e = (case e of (lo, hi, flag) \<Rightarrow> lo \<le> sub \<and> sub \<le> hi)"

definition range_flag :: "lock_range \<Rightarrow> nat" where
  "range_flag e = as_u32 (snd (snd e))"

definition kick_decision :: "int \<Rightarrow> lock_range list \<Rightarrow> nat \<Rightarrow> (nat \<Rightarrow> bool) \<Rightarrow> bool" where
  "kick_decision pr area_lock_flags random_start_done_flag get_flag =
     (let sub = play_region_bucket pr;
          locked = list_ex (\<lambda>e. covers sub e \<and> \<not> get_flag (range_flag e)) area_lock_flags
      in if \<not> locked then False
         else random_start_done_flag = 0 \<or> get_flag random_start_done_flag)"

text \<open>The clauses of a natural key: all items, all flags, and enough distinct names of a set.\<close>

record nk_clause =
  nk_items :: "string list"
  nk_flags :: "nat list"
  nk_count_items :: "string list"
  nk_count :: nat

definition clause_holds :: "(string \<Rightarrow> bool) \<Rightarrow> (nat \<Rightarrow> bool) \<Rightarrow> nk_clause \<Rightarrow> bool" where
  "clause_holds received get_flag cl \<longleftrightarrow>
     list_all received (nk_items cl) \<and> list_all get_flag (nk_flags cl)
     \<and> nk_count cl \<le> length (remdups (filter received (nk_count_items cl)))"

definition natural_key_fired :: "nk_clause list \<Rightarrow> (string \<Rightarrow> bool) \<Rightarrow> (nat \<Rightarrow> bool) \<Rightarrow> bool" where
  "natural_key_fired clauses received get_flag = list_ex (clause_holds received get_flag) clauses"

text \<open>A natural key never closes again: more receipts and more flags keep a clause satisfied.\<close>

lemma clause_holds_mono:
  assumes "clause_holds r f cl" "\<And>x. r x \<Longrightarrow> r' x" "\<And>x. f x \<Longrightarrow> f' x"
  shows "clause_holds r' f' cl"
proof -
  have "card (set (filter r (nk_count_items cl))) \<le> card (set (filter r' (nk_count_items cl)))"
    using assms(2) by (intro card_mono) auto
  then show ?thesis
    using assms by (auto simp: clause_holds_def list_all_iff length_remdups_card_conv)
qed

lemma natural_key_fired_mono:
  "natural_key_fired cs r f \<Longrightarrow> (\<And>x. r x \<Longrightarrow> r' x) \<Longrightarrow> (\<And>x. f x \<Longrightarrow> f' x) \<Longrightarrow>
   natural_key_fired cs r' f'"
  unfolding natural_key_fired_def list_ex_iff by (blast intro: clause_holds_mono)

text \<open>\<open>EnforcementLatch::fire\<close>: true on the rising edge only.\<close>

definition latch_fire :: "bool \<Rightarrow> bool \<Rightarrow> bool \<times> bool" where
  "latch_fire active armed = (if active then (\<not> armed, True) else (False, False))"

definition region_bloom_settled :: "nat \<Rightarrow> nat list \<Rightarrow> (nat \<Rightarrow> bool) \<Rightarrow> bool" where
  "region_bloom_settled open_flag flags get_flag \<longleftrightarrow> get_flag open_flag \<and> list_all get_flag flags"

section \<open>What the player is told\<close>

record vanilla_gate =
  vg_region :: string
  vg_key :: string
  vg_note :: string
  vg_opens :: string

definition VANILLA_GATED_REGIONS :: "vanilla_gate list" where
  "VANILLA_GATED_REGIONS =
     [\<lparr>vg_region = ''Leyndell'', vg_key = ''Great Runes'',
        vg_note = ''The Great Runes open the game's own seal here, not the region Lock.'',
        vg_opens = ''the Great Runes open it''\<rparr>,
      \<lparr>vg_region = ''Raya Lucaria Academy'', vg_key = ''Academy Glintstone Key'',
        vg_note = ''The Academy Glintstone Key opens the game's own seal here, not the region Lock.'',
        vg_opens = ''the Academy Glintstone Key opens it''\<rparr>]"

definition vanilla_gate_of :: "string \<Rightarrow> vanilla_gate option" where
  "vanilla_gate_of region = List.find (\<lambda>g. vg_region g = region) VANILLA_GATED_REGIONS"

definition region_of_lock_item :: "string \<Rightarrow> string" where
  "region_of_lock_item lock_item =
     (case strip_suffix '' Lock'' lock_item of Some r \<Rightarrow> r | None \<Rightarrow> lock_item)"

text \<open>\<open>Iterator::min\<close> on names.\<close>

definition min_name :: "string list \<Rightarrow> string option" where
  "min_name ns = (case ns of [] \<Rightarrow> None | n # rest \<Rightarrow> Some (fold min rest n))"

lemma min_name_Min: "ns \<noteq> [] \<Longrightarrow> min_name ns = Some (Min (set ns))"
  by (cases ns) (simp_all add: min_name_def Min.set_eq_fold [symmetric])

lemma min_name_set: "set ns = set ns' \<Longrightarrow> min_name ns = min_name ns'"
  by (cases "ns = []"; cases "ns' = []") (simp_all add: min_name_Min)

definition sealed_lock_item :: "int \<Rightarrow> lock_range list \<Rightarrow> (string \<times> nat) list \<Rightarrow> string option" where
  "sealed_lock_item pr area_lock_flags region_open_flags =
     (let sub = play_region_bucket pr;
          named = (case List.find (covers sub) area_lock_flags of
                     Some e \<Rightarrow> min_name (map fst (filter (\<lambda>x. snd x = range_flag e) region_open_flags))
                   | None \<Rightarrow> None)
      in case named of
           Some name \<Rightarrow> Some name
         | None \<Rightarrow> map_option bk_lock_item
                    (List.find (\<lambda>r. sub \<in> set (bk_play_regions r)) REGION_LOCKS))"

lemma sealed_lock_item_order_independent:
  "set m = set m' \<Longrightarrow> sealed_lock_item pr rs m = sealed_lock_item pr rs m'"
proof -
  assume "set m = set m'"
  then have "\<And>e. min_name (map fst (filter (\<lambda>x. snd x = range_flag e) m)) =
      min_name (map fst (filter (\<lambda>x. snd x = range_flag e) m'))"
    by (intro min_name_set) auto
  then show ?thesis
    by (cases "List.find (covers (play_region_bucket pr)) rs") (simp_all add: sealed_lock_item_def Let_def)
qed

datatype sealed_outcome = WarpedToHub | KickFallback

primrec outcome_tail :: "sealed_outcome \<Rightarrow> string" where
  "outcome_tail WarpedToHub = ''Returning to Roundtable Hold.''"
| "outcome_tail KickFallback = ''Kicked out.''"

definition quoted :: "string \<Rightarrow> string" where
  "quoted s = [CHR 0x22] @ s @ [CHR 0x22]"

definition sealed_region_message :: "int \<Rightarrow> string option \<Rightarrow> sealed_outcome \<Rightarrow> string" where
  "sealed_region_message pr lock_item outcome =
     (let tail = outcome_tail outcome
      in case lock_item of
           None \<Rightarrow> ''SEALED REGION (area '' @ show_int pr
                     @ ''). Come back once you receive this region's Lock. '' @ tail
         | Some lock \<Rightarrow>
             let region = region_of_lock_item lock
             in (case vanilla_gate_of region of
                   Some g \<Rightarrow> ''SEALED REGION: '' @ region @ ''. Come back once you receive '' @ quoted lock
                              @ ''. '' @ vg_note g @ '' '' @ tail
                 | None \<Rightarrow> ''SEALED REGION: '' @ region @ ''. Come back once you receive '' @ quoted lock
                              @ ''. '' @ tail))"

definition region_unlocked_message :: "string \<Rightarrow> bool \<Rightarrow> string" where
  "region_unlocked_message region bundle_withheld =
     (if \<not> bundle_withheld then ''Region unlocked: '' @ region
      else case vanilla_gate_of region of
        Some g \<Rightarrow> ''Region unlocked: '' @ region @ '' -- walk in, '' @ vg_opens g @ '' (no grace warp)''
      | None \<Rightarrow> ''Region unlocked: '' @ region @ '' -- walk in, no grace warp'')"

text \<open>The notice at the goal arena (\<open>goal_approach.rs\<close>).\<close>

definition outstanding_locks :: "string list \<Rightarrow> (string \<Rightarrow> bool) \<Rightarrow> nat" where
  "outstanding_locks item_goals has_item =
     length (filter (\<lambda>n. \<not> has_item n) (filter (\<lambda>n. ends_with n '' Lock'') item_goals))"

definition approach_warning :: "nat \<Rightarrow> string option" where
  "approach_warning outstanding =
     (if outstanding = 0 then None
      else Some (show_nat outstanding
                 @ '' Region Lock(s) outstanding -- the ending will not count yet.''))"

definition approach_poll :: "bool \<Rightarrow> string list \<Rightarrow> (string \<Rightarrow> bool) \<Rightarrow> bool \<Rightarrow> string option \<times> bool" where
  "approach_poll in_goal_arena item_goals has_item latch =
     (let outstanding = outstanding_locks item_goals has_item;
          (fired, latch1) = latch_fire (in_goal_arena \<and> 0 < outstanding) latch
      in (if \<not> fired then None else approach_warning outstanding, latch1))"

lemma approach_poll_says:
  "fst (approach_poll arena goals has latch) \<noteq> None \<longleftrightarrow>
   arena \<and> 0 < outstanding_locks goals has \<and> \<not> latch"
  by (auto simp: approach_poll_def latch_fire_def approach_warning_def Let_def)

section \<open>The countdown\<close>

definition DEFAULT_KICK_GRACE_MS :: nat where "DEFAULT_KICK_GRACE_MS = 10000"

datatype kick_action = Quiet | Warn string nat string | Kick string

definition banner :: "kick_action \<Rightarrow> string option" where
  "banner a = (case a of
     Warn region secs_left lock_name \<Rightarrow>
       Some (''The seal of '' @ region @ '' repels you... '' @ show_nat secs_left @ ''s'')
   | _ \<Rightarrow> None)"

record kick_countdown =
  kc_grace_ms :: nat
  kc_armed_at :: "nat option"
  kc_kicked :: bool

definition with_grace_ms :: "nat \<Rightarrow> kick_countdown" where
  "with_grace_ms g = \<lparr>kc_grace_ms = g, kc_armed_at = None, kc_kicked = False\<rparr>"

definition countdown_new :: kick_countdown where
  "countdown_new = with_grace_ms DEFAULT_KICK_GRACE_MS"

definition countdown_is_armed :: "kick_countdown \<Rightarrow> bool" where
  "countdown_is_armed c \<longleftrightarrow> kc_armed_at c \<noteq> None \<and> \<not> kc_kicked c"

text \<open>\<open>div_ceil(1000) as u32\<close>.\<close>

definition secs_left_of :: "nat \<Rightarrow> nat" where
  "secs_left_of remaining = ((remaining + 999) div 1000) mod 2 ^ 32"

definition countdown_update ::
  "nat \<Rightarrow> bool \<Rightarrow> string \<Rightarrow> string \<Rightarrow> kick_countdown \<Rightarrow> kick_action \<times> kick_countdown" where
  "countdown_update now_ms currently_in_sealed region_name lock_name c =
     (if \<not> currently_in_sealed then (Quiet, c\<lparr>kc_armed_at := None, kc_kicked := False\<rparr>)
      else if kc_kicked c then (Quiet, c)
      else
        let started = (case kc_armed_at c of Some t \<Rightarrow> t | None \<Rightarrow> now_ms);
            c1 = c\<lparr>kc_armed_at := Some started\<rparr>;
            elapsed = now_ms - started
        in if kc_grace_ms c \<le> elapsed then (Kick region_name, c1\<lparr>kc_kicked := True\<rparr>)
           else (Warn region_name (secs_left_of (kc_grace_ms c - elapsed)) lock_name, c1))"

text \<open>Ticks of the countdown: the clock, the hard gate's verdict and the names for the banner.\<close>

record kick_tick =
  kt_now :: nat
  kt_sealed :: bool
  kt_region :: string
  kt_lock :: string

definition countdown_tick :: "kick_tick \<Rightarrow> kick_countdown \<Rightarrow> kick_action \<times> kick_countdown" where
  "countdown_tick t c = countdown_update (kt_now t) (kt_sealed t) (kt_region t) (kt_lock t) c"

fun countdown_run :: "kick_tick list \<Rightarrow> kick_countdown \<Rightarrow> kick_action list" where
  "countdown_run [] c = []"
| "countdown_run (t # ts) c = (case countdown_tick t c of (a, c1) \<Rightarrow> a # countdown_run ts c1)"

fun countdown_after :: "kick_tick list \<Rightarrow> kick_countdown \<Rightarrow> kick_countdown" where
  "countdown_after [] c = c"
| "countdown_after (t # ts) c = countdown_after ts (snd (countdown_tick t c))"

lemma countdown_run_append:
  "countdown_run (ts @ us) c = countdown_run ts c @ countdown_run us (countdown_after ts c)"
  by (induction ts arbitrary: c) (simp_all split: prod.split)

lemma length_countdown_run [simp]: "length (countdown_run ts c) = length ts"
  by (induction ts arbitrary: c) (simp_all split: prod.split)

lemma countdown_after_append: "countdown_after (ts @ us) c = countdown_after us (countdown_after ts c)"
  by (induction ts arbitrary: c) simp_all

lemma countdown_tick_grace: "kc_grace_ms (snd (countdown_tick t c)) = kc_grace_ms c"
  by (simp add: countdown_tick_def countdown_update_def Let_def)

lemma countdown_after_grace: "kc_grace_ms (countdown_after ts c) = kc_grace_ms c"
  by (induction ts arbitrary: c) (simp_all add: countdown_tick_grace)

text \<open>Leaving the region forgets everything but the grace.\<close>

lemma countdown_after_open:
  assumes "ts = [] \<or> \<not> kt_sealed (List.last ts)"
  shows "countdown_after ts (with_grace_ms g) = with_grace_ms g"
proof (cases ts rule: rev_cases)
  case (snoc us t)
  moreover have "kc_grace_ms (countdown_after us (with_grace_ms g)) = g"
    by (simp add: countdown_after_grace) (simp add: with_grace_ms_def)
  ultimately show ?thesis
    using assms
    by (cases "countdown_after us (with_grace_ms g)")
       (simp add: countdown_after_append countdown_tick_def countdown_update_def with_grace_ms_def)
qed simp

definition grace_over :: "nat \<Rightarrow> nat \<Rightarrow> kick_tick \<Rightarrow> bool" where
  "grace_over g started t \<longleftrightarrow> g \<le> kt_now t - started"

definition warning_of :: "nat \<Rightarrow> nat \<Rightarrow> kick_tick \<Rightarrow> kick_action" where
  "warning_of g started t = Warn (kt_region t) (secs_left_of (g - (kt_now t - started))) (kt_lock t)"

lemma countdown_kicked_quiet:
  "list_all kt_sealed ts \<Longrightarrow> kc_kicked c \<Longrightarrow> i < length ts \<Longrightarrow> countdown_run ts c ! i = Quiet"
proof (induction ts arbitrary: i)
  case (Cons t ts)
  then show ?case by (cases i) (simp_all add: countdown_tick_def countdown_update_def)
qed simp

lemma countdown_armed_run:
  assumes "list_all kt_sealed ts" "kc_armed_at c = Some t0" "\<not> kc_kicked c" "kc_grace_ms c = g"
    and "i < length ts"
  shows "countdown_run ts c ! i =
           (if \<exists>j < i. grace_over g t0 (ts ! j) then Quiet
            else if grace_over g t0 (ts ! i) then Kick (kt_region (ts ! i))
            else warning_of g t0 (ts ! i))"
  using assms
proof (induction ts arbitrary: c i)
  case (Cons t ts)
  show ?case
  proof (cases i)
    case 0
    then show ?thesis
      using Cons.prems
      by (simp add: countdown_tick_def countdown_update_def grace_over_def warning_of_def)
  next
    case (Suc i')
    have shift: "(\<exists>j < Suc i'. grace_over g t0 ((t # ts) ! j)) \<longleftrightarrow>
        grace_over g t0 t \<or> (\<exists>j < i'. grace_over g t0 (ts ! j))"
      by (auto simp: less_Suc_eq_0_disj)
    let ?c = "c\<lparr>kc_armed_at := Some t0\<rparr>"
    show ?thesis
    proof (cases "grace_over g t0 t")
      case True
      then have "countdown_run (t # ts) c ! i = countdown_run ts (?c\<lparr>kc_kicked := True\<rparr>) ! i'"
        using Cons.prems Suc by (simp add: countdown_tick_def countdown_update_def grace_over_def)
      then show ?thesis
        using countdown_kicked_quiet [of ts "?c\<lparr>kc_kicked := True\<rparr>" i'] Cons.prems Suc True shift by simp
    next
      case False
      then have "countdown_run (t # ts) c ! i = countdown_run ts ?c ! i'"
        using Cons.prems Suc by (simp add: countdown_tick_def countdown_update_def grace_over_def)
      then show ?thesis
        using Cons.IH [of ?c i'] Cons.prems Suc False by (simp only: shift) auto
    qed
  qed
qed simp

lemma countdown_visit:
  assumes "list_all kt_sealed ts" "i < length ts"
  shows "countdown_run ts (with_grace_ms g) ! i =
           (if \<exists>j < i. grace_over g (kt_now (ts ! 0)) (ts ! j) then Quiet
            else if grace_over g (kt_now (ts ! 0)) (ts ! i) then Kick (kt_region (ts ! i))
            else warning_of g (kt_now (ts ! 0)) (ts ! i))"
proof -
  obtain t us where ts: "ts = t # us" using assms(2) by (cases ts) auto
  then have now0: "kt_now (ts ! 0) = kt_now t" by simp
  have "countdown_run ts (with_grace_ms g) = countdown_run ts ((with_grace_ms g)\<lparr>kc_armed_at := Some (kt_now t)\<rparr>)"
    (is "?l = ?r")
    using assms(1) by (simp add: ts countdown_tick_def countdown_update_def with_grace_ms_def Let_def)
  then have "?l ! i = ?r ! i" by (rule arg_cong)
  also have "?r ! i =
           (if \<exists>j < i. grace_over g (kt_now t) (ts ! j) then Quiet
            else if grace_over g (kt_now t) (ts ! i) then Kick (kt_region (ts ! i))
            else warning_of g (kt_now t) (ts ! i))"
    by (rule countdown_armed_run) (use assms in \<open>simp_all add: with_grace_ms_def\<close>)
  finally show ?thesis unfolding now0 .
qed

lemma secs_left_bounds:
  assumes "0 < r" "r \<le> g" "g \<le> 1000 * (2 ^ 32 - 1)"
  shows "1 \<le> secs_left_of r \<and> r \<le> 1000 * secs_left_of r \<and> secs_left_of r \<le> (g + 999) div 1000"
proof -
  have "(r + 999) div 1000 < 2 ^ 32" using assms by (simp add: less_mult_imp_div_less)
  then have e: "secs_left_of r = (r + 999) div 1000" by (simp add: secs_left_of_def)
  show ?thesis unfolding e using assms(1,2) by (auto intro: div_le_mono)
qed

text \<open>
  C35: The countdown gives a sealed visit its whole grace and kicks once. For a visit (a run of ticks
  whose verdict is sealed, behind the start or a tick outside), the action of each tick is exactly: a
  warning naming the region, with the rounded-up seconds left, while the grace runs; one kick on the
  first tick at which the grace has elapsed since the visit began; nothing afterwards, however long
  the player stays. The seconds shown never reach zero before the kick and never exceed the grace.
  Ticks outside do nothing.
\<close>

theorem countdown_kicks_once_per_visit:
  assumes "pre = [] \<or> \<not> kt_sealed (List.last pre)" "list_all kt_sealed visit" "i < length visit"
    and "g \<le> 1000 * (2 ^ 32 - 1)"
  shows "countdown_run (pre @ visit @ post) (with_grace_ms g) ! (length pre + i) =
           (if \<exists>j < i. grace_over g (kt_now (visit ! 0)) (visit ! j) then Quiet
            else if grace_over g (kt_now (visit ! 0)) (visit ! i) then Kick (kt_region (visit ! i))
            else warning_of g (kt_now (visit ! 0)) (visit ! i))
         \<and> (\<not> grace_over g (kt_now (visit ! 0)) (visit ! i) \<longrightarrow>
              (let left = g - (kt_now (visit ! i) - kt_now (visit ! 0)); secs = secs_left_of left
               in 1 \<le> secs \<and> left \<le> 1000 * secs \<and> secs \<le> (g + 999) div 1000))
         \<and> (\<forall>t c. \<not> kt_sealed t \<longrightarrow> fst (countdown_tick t c) = Quiet)"
proof -
  have "countdown_run (pre @ visit @ post) (with_grace_ms g) ! (length pre + i) =
      countdown_run visit (with_grace_ms g) ! i"
    using countdown_after_open [OF assms(1)] assms(3)
    by (simp add: countdown_run_append nth_append)
  moreover have "\<not> grace_over g (kt_now (visit ! 0)) (visit ! i) \<Longrightarrow>
      0 < g - (kt_now (visit ! i) - kt_now (visit ! 0))"
    by (simp add: grace_over_def)
  ultimately show ?thesis
    using countdown_visit [OF assms(2,3), of g] secs_left_bounds [OF _ _ assms(4)]
    by (simp add: Let_def countdown_tick_def countdown_update_def)
qed

lemma countdown_kicks_once_per_visit_witness:
  "(let t = (\<lambda>now sealed. \<lparr>kt_now = now, kt_sealed = sealed, kt_region = ''Caelid'', kt_lock = ''Caelid Lock''\<rparr>);
        visit = [t 5000 True, t 14001 True, t 15000 True, t 15016 True]
    in countdown_run ([t 0 False] @ visit @ [t 16000 False, t 17000 True]) countdown_new =
         [Quiet, Warn ''Caelid'' 10 ''Caelid Lock'', Warn ''Caelid'' 1 ''Caelid Lock'', Kick ''Caelid'', Quiet,
          Quiet, Warn ''Caelid'' 10 ''Caelid Lock'']
       \<and> countdown_run ([t 0 False] @ visit @ []) countdown_new ! (length [t 0 False] + 2) = Kick ''Caelid'')"
proof -
  define t where "t = (\<lambda>now sealed. \<lparr>kt_now = now, kt_sealed = sealed, kt_region = ''Caelid'', kt_lock = ''Caelid Lock''\<rparr>)"
  let ?visit = "[t 5000 True, t 14001 True, t 15000 True, t 15016 True]"
  have n: "(\<exists>j < 2. P j) \<longleftrightarrow> P 0 \<or> P 1" for P :: "nat \<Rightarrow> bool"
    by (auto simp: numeral_2_eq_2 less_Suc_eq)
  have "countdown_run ([t 0 False] @ ?visit @ []) countdown_new ! (length [t 0 False] + 2) = Kick ''Caelid''"
    using countdown_kicks_once_per_visit [of "[t 0 False]" ?visit 2 10000 "[]"]
    by (simp del: countdown_run.simps
        add: t_def countdown_new_def DEFAULT_KICK_GRACE_MS_def grace_over_def n)
  moreover have "countdown_run ([t 0 False] @ ?visit @ [t 16000 False, t 17000 True]) countdown_new =
         [Quiet, Warn ''Caelid'' 10 ''Caelid Lock'', Warn ''Caelid'' 1 ''Caelid Lock'', Kick ''Caelid'', Quiet,
          Quiet, Warn ''Caelid'' 10 ''Caelid Lock'']"
    by (simp add: t_def countdown_tick_def countdown_update_def countdown_new_def with_grace_ms_def
        DEFAULT_KICK_GRACE_MS_def secs_left_of_def)
  ultimately show ?thesis by (simp add: Let_def t_def)
qed

section \<open>The derived configuration of a foreign seed\<close>

record derived_locks =
  dl_open_flags :: "(string \<times> nat) list"
  dl_ranges :: "lock_range list"
  dl_unknown :: "string list"
  dl_ungateable :: "string list"

definition derived_default :: derived_locks where
  "derived_default = \<lparr>dl_open_flags = [], dl_ranges = [], dl_unknown = [], dl_ungateable = []\<rparr>"

definition derived_is_empty :: "derived_locks \<Rightarrow> bool" where
  "derived_is_empty d \<longleftrightarrow> dl_open_flags d = []"

definition derive_name :: "string \<Rightarrow> derived_locks \<Rightarrow> derived_locks" where
  "derive_name name d =
     (case by_lock_item name of
        Some r \<Rightarrow>
          (case bk_open_flag r of
             Some flag \<Rightarrow>
               d\<lparr>dl_open_flags := dl_open_flags d @ [(name, flag)],
                 dl_ranges := dl_ranges d @ map (\<lambda>pid. (pid, pid, as_i32 flag)) (bk_play_regions r)\<rparr>
           | None \<Rightarrow> d\<lparr>dl_ungateable := dl_ungateable d @ [name]\<rparr>)
      | None \<Rightarrow> d\<lparr>dl_unknown := dl_unknown d @ [name]\<rparr>)"

definition derive_region_locks :: "string list \<Rightarrow> derived_locks" where
  "derive_region_locks seed_item_names =
     fold derive_name (remdups_adj (sort (filter (\<lambda>n. ends_with n '' Lock'') seed_item_names)))
       derived_default"

definition fallback_armed :: "derived_locks \<Rightarrow> (string \<Rightarrow> bool) \<Rightarrow> bool" where
  "fallback_armed d received = list_ex (\<lambda>x. received (fst x)) (dl_open_flags d)"

lemma remdups_adj_sort_unique:
  fixes xs ys :: "'a::linorder list"
  assumes "set xs = set ys"
  shows "remdups_adj (sort xs) = remdups_adj (sort ys)"
proof -
  have d: "\<And>zs :: 'a list. sorted zs \<Longrightarrow> distinct (remdups_adj zs)"
    subgoal for zs by (induction zs rule: remdups_adj.induct) auto
    done
  show ?thesis
    using assms by (intro sorted_distinct_set_unique d) (simp_all add: sorted_remdups_adj)
qed

text \<open>The same names in another order, or repeated, give the same configuration.\<close>

lemma derive_order_independent:
  "set ns = set ns' \<Longrightarrow> derive_region_locks ns = derive_region_locks ns'"
  unfolding derive_region_locks_def
  by (rule arg_cong [where f = "\<lambda>ns. fold derive_name ns derived_default"], rule remdups_adj_sort_unique) auto

text \<open>What one name contributes, and what the whole derivation holds.\<close>

definition gates :: "string \<Rightarrow> baked_region_lock \<Rightarrow> nat \<Rightarrow> bool" where
  "gates n r f \<longleftrightarrow> by_lock_item n = Some r \<and> bk_open_flag r = Some f"

lemma derive_name_flags:
  "set (dl_open_flags (derive_name n d)) = set (dl_open_flags d) \<union> {(n, f) | r f. gates n r f}"
  "set (dl_ranges (derive_name n d)) =
     set (dl_ranges d) \<union> {(p, p, as_i32 f) | r f p. gates n r f \<and> p \<in> set (bk_play_regions r)}"
  by (auto simp: derive_name_def gates_def split: option.splits)

lemma fold_derive_flags:
  "set (dl_open_flags (fold derive_name ns d)) =
     set (dl_open_flags d) \<union> {(n, f) | n r f. n \<in> set ns \<and> gates n r f}"
  "set (dl_ranges (fold derive_name ns d)) =
     set (dl_ranges d) \<union> {(p, p, as_i32 f) | n r f p. n \<in> set ns \<and> gates n r f \<and> p \<in> set (bk_play_regions r)}"
  by (induction ns arbitrary: d) (auto simp: derive_name_flags)

lemma derived_flags:
  "set (dl_open_flags (derive_region_locks ns)) =
     {(n, f) | n r f. n \<in> set ns \<and> ends_with n '' Lock'' \<and> gates n r f}"
  "set (dl_ranges (derive_region_locks ns)) =
     {(p, p, as_i32 f) | n r f p. n \<in> set ns \<and> ends_with n '' Lock'' \<and> gates n r f
                                  \<and> p \<in> set (bk_play_regions r)}"
  by (auto simp: derive_region_locks_def fold_derive_flags derived_default_def)

text \<open>Every baked region has its flag and ground, no bucket belongs to two of them.\<close>

lemma baked_table_sound:
  "list_all (\<lambda>r. bk_open_flag r \<noteq> None \<and> bk_play_regions r \<noteq> []
      \<and> bk_lock_item r = bk_region r @ '' Lock'') REGION_LOCKS"
  "distinct (concat (map bk_play_regions REGION_LOCKS))"
  "distinct (map bk_lock_item REGION_LOCKS)"
  "distinct (map bk_open_flag REGION_LOCKS)"
  by (simp_all add: REGION_LOCKS_def)

lemma fallback_armed_iff:
  "fallback_armed (derive_region_locks ns) received \<longleftrightarrow>
     (\<exists>n r f. n \<in> set ns \<and> ends_with n '' Lock'' \<and> gates n r f \<and> received n)"
proof -
  have "fallback_armed (derive_region_locks ns) received \<longleftrightarrow>
      (\<exists>x \<in> set (dl_open_flags (derive_region_locks ns)). received (fst x))"
    by (simp add: fallback_armed_def list_ex_iff)
  then show ?thesis by (auto simp: derived_flags)
qed

end
