(* ===== verification/ErRegions.thy ===== *)
theory ErRegions
  imports ErRegionLocks GoalGate
begin

text \<open>
  The per-tick drivers of the region locks (\<open>crates/eldenring-archipelago/src/region.rs\<close>, over
  the flag accessors of \<open>flags.rs\<close> and the counter of \<open>er-logic/src/attunement.rs\<close>): the kick
  out of a sealed region, the random-start trigger, the reconciliation of received locks, grace items,
  grace attunement, natural keys, and the baked fallback of a seed without region keys. The running game
  is an abstract state behind the calls the client makes. What the log prints is left out; what
  the player is shown is kept.
\<close>

section \<open>The game\<close>

text \<open>
  \<open>io_flags\<close> are \<open>get_event_flag\<close> and \<open>try_set_event_flag\<close>; \<open>io_play_region\<close> is
  \<open>play_region_id\<close>; a warp answers \<open>Ok\<close> or an error text.
\<close>

record 'g region_io =
  io_flags :: "'g flag_io"
  io_play_region :: "'g \<Rightarrow> int option"
  io_respec_busy :: "'g \<Rightarrow> bool"
  io_warp_to_grace :: "nat \<Rightarrow> 'g \<Rightarrow> (string + unit) \<times> 'g"
  io_kill_local_player :: "'g \<Rightarrow> bool \<times> 'g"
  io_warp_resolves :: "nat \<Rightarrow> 'g \<Rightarrow> bool"

definition flag_on :: "'g region_io \<Rightarrow> 'g \<Rightarrow> nat \<Rightarrow> bool" where
  "flag_on io g f = io_get (io_flags io) g f"

definition try_set_flag :: "'g region_io \<Rightarrow> nat \<Rightarrow> bool \<Rightarrow> 'g \<Rightarrow> bool \<times> 'g" where
  "try_set_flag io f on g = io_try_set (io_flags io) f on g"

definition set_flag :: "'g region_io \<Rightarrow> nat \<Rightarrow> bool \<Rightarrow> 'g \<Rightarrow> 'g" where
  "set_flag io f on g = snd (try_set_flag io f on g)"

definition game_in_world :: "'g region_io \<Rightarrow> 'g \<Rightarrow> bool" where
  "game_in_world io g \<longleftrightarrow> io_play_region io g \<noteq> None"

definition set_flags :: "'g region_io \<Rightarrow> nat list \<Rightarrow> 'g \<Rightarrow> 'g" where
  "set_flags io fs g = fold (\<lambda>f. set_flag io f True) fs g"

text \<open>
  The flag manager: down (menu, load) it reads every flag as clear and refuses a write; up it keeps
  what is written and touches no other flag, nor the player's region.
\<close>

locale event_flags =
  fixes io :: "'g region_io" and up :: "'g \<Rightarrow> bool"
  assumes get_down: "\<not> up g \<Longrightarrow> \<not> io_get (io_flags io) g f"
    and set_down: "\<not> up g \<Longrightarrow> io_try_set (io_flags io) f on g = (False, g)"
    and set_up: "up g \<Longrightarrow> fst (io_try_set (io_flags io) f on g)"
    and up_set: "up (snd (io_try_set (io_flags io) f on g)) = up g"
    and get_set: "up g \<Longrightarrow>
        io_get (io_flags io) (snd (io_try_set (io_flags io) f on g)) f' = (if f' = f then on else io_get (io_flags io) g f')"
    and region_set: "io_play_region io (snd (io_try_set (io_flags io) f on g)) = io_play_region io g"
begin

lemma up_set_flag [simp]: "up (set_flag io f on g) = up g"
  by (simp add: set_flag_def try_set_flag_def up_set)

lemma flag_on_set: "up g \<Longrightarrow> flag_on io (set_flag io f on g) f' = (if f' = f then on else flag_on io g f')"
  by (simp add: set_flag_def try_set_flag_def flag_on_def get_set)

lemma set_flag_down: "\<not> up g \<Longrightarrow> set_flag io f on g = g"
  by (simp add: set_flag_def try_set_flag_def set_down)

lemma flag_on_down: "\<not> up g \<Longrightarrow> \<not> flag_on io g f"
  by (simp add: flag_on_def get_down)

lemma region_set_flag [simp]: "io_play_region io (set_flag io f on g) = io_play_region io g"
  by (simp add: set_flag_def try_set_flag_def region_set)

lemma set_flags_simps [simp]: "set_flags io [] g = g" "set_flags io (f # fs) g = set_flags io fs (set_flag io f True g)"
  by (simp_all add: set_flags_def)

lemma up_set_flags [simp]: "up (set_flags io fs g) = up g"
  by (induction fs arbitrary: g) simp_all

lemma region_set_flags [simp]: "io_play_region io (set_flags io fs g) = io_play_region io g"
  by (induction fs arbitrary: g) simp_all

lemma flag_on_set_flags: "up g \<Longrightarrow> flag_on io (set_flags io fs g) f \<longleftrightarrow> f \<in> set fs \<or> flag_on io g f"
  by (induction fs arbitrary: g) (auto simp: flag_on_set)

lemma set_flags_down: "\<not> up g \<Longrightarrow> set_flags io fs g = g"
  by (induction fs arbitrary: g) (simp_all add: set_flag_down)

end

text \<open>The contract of the goal gate's writer follows from this one.\<close>

sublocale event_flags \<subseteq> gate: keeping_flags "io_flags io"
proof
  show "io_get (io_flags io) (snd (io_try_set (io_flags io) f' True g)) f"
    if "io_get (io_flags io) g f" for g f f'
    using that by (metis get_down get_set)
qed

text \<open>
  The client's own flag functions over the manager: \<open>None\<close> before it is resolved. The rest of this
  game: the player's region, a warp to the hub that always succeeds.
\<close>

record er_world =
  w_flags :: "(nat \<Rightarrow> bool) option"
  w_region :: "int option"
  w_warps :: "nat list"

definition get_event_flag :: "er_world \<Rightarrow> nat \<Rightarrow> bool" where
  "get_event_flag w f = (case w_flags w of Some m \<Rightarrow> m f | None \<Rightarrow> False)"

definition try_set_event_flag :: "nat \<Rightarrow> bool \<Rightarrow> er_world \<Rightarrow> bool \<times> er_world" where
  "try_set_event_flag f on w =
     (case w_flags w of Some m \<Rightarrow> (True, w\<lparr>w_flags := Some (m(f := on))\<rparr>) | None \<Rightarrow> (False, w))"

definition world_io :: "er_world region_io" where
  "world_io =
     \<lparr>io_flags = \<lparr>io_get = get_event_flag, io_try_set = try_set_event_flag\<rparr>,
       io_play_region = w_region, io_respec_busy = (\<lambda>_. False),
       io_warp_to_grace = (\<lambda>t w. (Inr (), w\<lparr>w_warps := t # w_warps w\<rparr>)),
       io_kill_local_player = (\<lambda>w. (True, w)), io_warp_resolves = (\<lambda>_ _. True)\<rparr>"

definition manager_up :: "er_world \<Rightarrow> bool" where
  "manager_up w \<longleftrightarrow> w_flags w \<noteq> None"

interpretation man: event_flags world_io manager_up
  by unfold_locales
    (auto simp: world_io_def manager_up_def get_event_flag_def try_set_event_flag_def split: option.splits)

section \<open>Configuration\<close>

record grace_gate =
  gg_threshold :: nat
  gg_members :: "nat list"
  gg_bloom :: "nat list"

record region_config =
  rc_area_locks :: "lock_range list"
  rc_start_done :: nat
  rc_start_warp :: nat
  rc_start_area :: int
  rc_start_grace :: nat
  rc_open_flags :: "(string \<times> nat) list"
  rc_reveals :: "(string \<times> nat list) list"
  rc_graces :: "(string \<times> nat list) list"
  rc_attunement :: "(string \<times> grace_gate) list"
  rc_grace_items :: "(string \<times> nat) list"
  rc_natural_keys :: "(string \<times> nk_clause list) list"
  rc_leyndell_runes :: nat
  rc_tracker_gate :: leyndell_tracker_gate
  rc_grants :: "(string \<times> int list) list"
  rc_fallback :: "derived_locks option"

definition config_default :: region_config where
  "config_default =
     \<lparr>rc_area_locks = [], rc_start_done = 0, rc_start_warp = 0, rc_start_area = 0, rc_start_grace = 0,
       rc_open_flags = [], rc_reveals = [], rc_graces = [], rc_attunement = [], rc_grace_items = [],
       rc_natural_keys = [], rc_leyndell_runes = 0, rc_tracker_gate = LockOnly, rc_grants = [],
       rc_fallback = None\<rparr>"

definition got_list :: "(string \<times> 'a list) list \<Rightarrow> string \<Rightarrow> 'a list" where
  "got_list m k = (case map_of m k of Some xs \<Rightarrow> xs | None \<Rightarrow> [])"

section \<open>The kick\<close>

definition KICK_FLAG :: nat where "KICK_FLAG = 76970"
definition ROUNDTABLE_GRACE_ID :: nat where "ROUNDTABLE_GRACE_ID = 11102950"

text \<open>\<open>KICK_LATCH\<close> and \<open>KICK_WATCH_LAST_PR\<close>.\<close>

record kick_state =
  ks_latch :: bool
  ks_last_pr :: int

definition kick_state_init :: kick_state where
  "kick_state_init = \<lparr>ks_latch = False, ks_last_pr = - (2 ^ 31)\<rparr>"

definition tick_kick ::
  "'g region_io \<Rightarrow> region_config \<Rightarrow> 'g \<times> kick_state \<Rightarrow> string option \<times> 'g \<times> kick_state" where
  "tick_kick io cfg s =
     (case s of (g, k) \<Rightarrow>
       if io_respec_busy io g then (None, g, k)
       else case io_play_region io g of
         None \<Rightarrow> (None, g, k)
       | Some pr \<Rightarrow>
           let kick = kick_decision pr (rc_area_locks cfg) (rc_start_done cfg) (flag_on io g);
               (fired, latch) = latch_fire kick (ks_latch k);
               k1 = k\<lparr>ks_latch := latch, ks_last_pr := pr\<rparr>
           in if \<not> fired then (None, g, k1)
              else
                let g1 = set_flag io KICK_FLAG True g;
                    lock_item = sealed_lock_item pr (rc_area_locks cfg) (rc_open_flags cfg)
                in (case io_warp_to_grace io ROUNDTABLE_GRACE_ID g1 of
                      (Inr _, g2) \<Rightarrow> (Some (sealed_region_message pr lock_item WarpedToHub), g2, k1)
                    | (Inl e, g2) \<Rightarrow>
                        (Some (sealed_region_message pr lock_item KickFallback),
                         snd (io_kill_local_player io g2), k1)))"

section \<open>The random start\<close>

definition WARP_SETTLE_NS :: nat where "WARP_SETTLE_NS = 5 * 10 ^ 9"

text \<open>\<open>START_LATCHED\<close> and \<open>WARP_WORLD_SETTLE\<close>; the clock counts nanoseconds.\<close>

record start_state =
  st_latched :: bool
  st_settle :: "nat option"

definition tick_random_start_warp ::
  "'g region_io \<Rightarrow> region_config \<Rightarrow> nat \<Rightarrow> 'g \<times> start_state \<Rightarrow> string option \<times> 'g \<times> start_state" where
  "tick_random_start_warp io cfg now s =
     (case s of (g, st) \<Rightarrow>
       if rc_start_warp cfg = 0 \<or> rc_start_area cfg = 0 \<or> rc_start_done cfg = 0 then (None, g, st)
       else if flag_on io g (rc_start_done cfg) then (None, g, st)
       else if st_latched st then (None, g, st)
       else case io_play_region io g of
         None \<Rightarrow> (None, g, st)
       | Some raw \<Rightarrow>
           let pr = play_region_bucket raw
           in if \<not> game_in_world io g then (None, g, st\<lparr>st_settle := None\<rparr>)
              else
                let entered = (case st_settle st of Some t \<Rightarrow> t | None \<Rightarrow> now);
                    st1 = st\<lparr>st_settle := Some entered\<rparr>
                in if now - entered < WARP_SETTLE_NS then (None, g, st1)
                   else
                     let g1 = set_flag io (rc_start_done cfg) True g;
                         g2 = set_flag io (rc_start_warp cfg) True g1
                     in if \<not> flag_on io g2 (rc_start_done cfg) \<or> \<not> flag_on io g2 (rc_start_warp cfg)
                        then (None, g2, st1)
                        else
                          let st2 = st1\<lparr>st_latched := True\<rparr>
                          in if pr \<noteq> rc_start_area cfg
                             then (Some ''Region-lock enforcement armed.'', g2, st2)
                             else
                               let target = (if rc_start_grace cfg \<noteq> 0 then rc_start_grace cfg
                                             else ROUNDTABLE_GRACE_ID)
                               in (case io_warp_to_grace io target g2 of
                                     (Inr _, g3) \<Rightarrow> (Some ''Warping to your start region...'', g3, st2)
                                   | (Inl e, g3) \<Rightarrow>
                                       (Some ''Auto-warp failed -- travel to your start region manually.'',
                                        g3, st2)))"

section \<open>Opening regions\<close>

text \<open>True only on the honest edge: the open flag was clear before and reads set after.\<close>

definition open_on_received_name :: "'g region_io \<Rightarrow> region_config \<Rightarrow> string \<Rightarrow> 'g \<Rightarrow> bool \<times> 'g" where
  "open_on_received_name io cfg name g =
     (let (opened, g1) =
            (case map_of (rc_open_flags cfg) name of
               Some f \<Rightarrow>
                 let already = flag_on io g f;
                     g' = set_flag io f True g
                 in (\<not> already \<and> flag_on io g' f, g')
             | None \<Rightarrow> (False, g));
          g2 = set_flags io (got_list (rc_reveals cfg) name) g1;
          g3 = set_flags io (got_list (rc_graces cfg) name) g2
      in (opened, g3))"

definition first_open_grants :: "'g region_io \<Rightarrow> region_config \<Rightarrow> string \<Rightarrow> 'g \<Rightarrow> int list" where
  "first_open_grants io cfg name g =
     (case (map_of (rc_grants cfg) name, map_of (rc_open_flags cfg) name) of
        (Some ids, Some f) \<Rightarrow> if \<not> flag_on io g f then ids else []
      | _ \<Rightarrow> [])"

definition reconcile_open_flag ::
  "'g region_io \<Rightarrow> region_config \<Rightarrow> (string \<Rightarrow> bool) \<Rightarrow> string \<times> nat \<Rightarrow> 'g \<Rightarrow> 'g" where
  "reconcile_open_flag io cfg received e g =
     (if \<not> received (fst e) \<or> flag_on io g (snd e) then g
      else snd (open_on_received_name io cfg (fst e) g))"

definition relight :: "'g region_io \<Rightarrow> nat \<Rightarrow> 'g \<Rightarrow> 'g" where
  "relight io f g = (if \<not> flag_on io g f then set_flag io f True g else g)"

definition reconcile_graces ::
  "'g region_io \<Rightarrow> (string \<Rightarrow> bool) \<Rightarrow> string \<times> nat list \<Rightarrow> 'g \<Rightarrow> 'g" where
  "reconcile_graces io received e g =
     (if \<not> received (fst e) then g else fold (relight io) (snd e) g)"

definition tick_reconcile_received_locks ::
  "'g region_io \<Rightarrow> region_config \<Rightarrow> (string \<Rightarrow> bool) \<Rightarrow> 'g \<Rightarrow> 'g" where
  "tick_reconcile_received_locks io cfg received g =
     (if \<not> game_in_world io g then g
      else fold (reconcile_graces io received) (rc_graces cfg)
             (fold (reconcile_open_flag io cfg received) (rc_open_flags cfg) g))"

definition bloom_flags :: "region_config \<Rightarrow> string \<Rightarrow> nat list" where
  "bloom_flags cfg name = got_list (rc_graces cfg) name @ got_list (rc_reveals cfg) name"

definition natural_key_one ::
  "'g region_io \<Rightarrow> region_config \<Rightarrow> (string \<Rightarrow> bool) \<Rightarrow> string \<times> nk_clause list \<Rightarrow> 'g \<Rightarrow> 'g" where
  "natural_key_one io cfg received e g =
     (case map_of (rc_open_flags cfg) (fst e) of
        None \<Rightarrow> g
      | Some open_flag \<Rightarrow>
          if region_bloom_settled open_flag (bloom_flags cfg (fst e)) (flag_on io g) then g
          else if \<not> natural_key_fired (snd e) received (flag_on io g) then g
          else set_flags io (got_list (rc_reveals cfg) (fst e))
                 (set_flag io open_flag True (set_flags io (got_list (rc_graces cfg) (fst e)) g)))"

definition tick_natural_key_triggers ::
  "'g region_io \<Rightarrow> region_config \<Rightarrow> (string \<Rightarrow> bool) \<Rightarrow> 'g \<Rightarrow> 'g" where
  "tick_natural_key_triggers io cfg received g =
     fold (natural_key_one io cfg received) (rc_natural_keys cfg) g"

definition grace_item_one ::
  "'g region_io \<Rightarrow> (string \<Rightarrow> bool) \<Rightarrow> string \<times> nat \<Rightarrow> string list \<times> 'g \<Rightarrow> string list \<times> 'g" where
  "grace_item_one io received e s =
     (case s of (lit, g) \<Rightarrow>
       if received (fst e) \<and> \<not> flag_on io g (snd e)
       then (case try_set_flag io (snd e) True g of
               (ok, g1) \<Rightarrow> (if ok then lit @ [fst e] else lit, g1))
       else (lit, g))"

definition tick_grace_items ::
  "'g region_io \<Rightarrow> region_config \<Rightarrow> (string \<Rightarrow> bool) \<Rightarrow> 'g \<Rightarrow> string list \<times> 'g" where
  "tick_grace_items io cfg received g = fold (grace_item_one io received) (rc_grace_items cfg) ([], g)"

text \<open>\<open>attunement.rs\<close>.\<close>

definition attuned_count :: "nat list \<Rightarrow> (nat \<Rightarrow> bool) \<Rightarrow> nat" where
  "attuned_count members checked = length (filter checked (remdups members))"

definition newly_attuned :: "bool \<Rightarrow> bool \<Rightarrow> bool" where
  "newly_attuned prev now \<longleftrightarrow> \<not> prev \<and> now"

definition bloom_one :: "'g region_io \<Rightarrow> nat \<Rightarrow> nat \<times> 'g \<Rightarrow> nat \<times> 'g" where
  "bloom_one io f s =
     (case s of (lit, g) \<Rightarrow>
       if \<not> flag_on io g f
       then (case try_set_flag io f True g of (ok, g1) \<Rightarrow> (if ok then lit + 1 else lit, g1))
       else (lit, g))"

definition attune_one :: "'g region_io \<Rightarrow> string \<times> grace_gate \<Rightarrow> string list \<times> 'g \<Rightarrow> string list \<times> 'g" where
  "attune_one io e s =
     (case s of (bloomed, g) \<Rightarrow>
       if attuned_count (gg_members (snd e)) (flag_on io g) < gg_threshold (snd e) then (bloomed, g)
       else (case fold (bloom_one io) (gg_bloom (snd e)) (0, g) of
               (lit, g1) \<Rightarrow> (if 0 < lit then bloomed @ [fst e] else bloomed, g1)))"

definition tick_grace_attunement :: "'g region_io \<Rightarrow> region_config \<Rightarrow> 'g \<Rightarrow> string list \<times> 'g" where
  "tick_grace_attunement io cfg g = fold (attune_one io) (rc_attunement cfg) ([], g)"

definition announce_once :: "string \<Rightarrow> string list \<Rightarrow> bool \<times> string list" where
  "announce_once name announced = (if name \<in> set announced then (False, announced) else (True, name # announced))"

text \<open>The notice at the goal arena.\<close>

definition tick_goal_approach ::
  "'g region_io \<Rightarrow> region_config \<Rightarrow> nat \<Rightarrow> string list \<Rightarrow> (string \<Rightarrow> bool) \<Rightarrow> 'g \<Rightarrow> bool \<Rightarrow> string option \<times> bool" where
  "tick_goal_approach io cfg want goals has_item g latch =
     (if want = 0 then (None, latch)
      else case io_play_region io g of
        None \<Rightarrow> (None, latch)
      | Some pr \<Rightarrow>
          let sub = play_region_bucket pr;
              in_arena = list_ex (\<lambda>e. covers sub e \<and> range_flag e = want) (rc_area_locks cfg)
          in approach_poll in_arena goals has_item latch)"

section \<open>The baked fallback\<close>

definition prepare_baked_fallback :: "string list \<Rightarrow> region_config \<Rightarrow> region_config" where
  "prepare_baked_fallback seed_item_names cfg =
     (let d = derive_region_locks seed_item_names
      in if derived_is_empty d then cfg else cfg\<lparr>rc_fallback := Some d\<rparr>)"

text \<open>\<open>entry(name).or_insert(flag)\<close>.\<close>

definition or_insert :: "string \<times> nat \<Rightarrow> (string \<times> nat) list \<Rightarrow> (string \<times> nat) list" where
  "or_insert e m = (if map_of m (fst e) = None then m @ [e] else m)"

definition tick_baked_fallback :: "(string \<Rightarrow> bool) \<Rightarrow> region_config \<Rightarrow> bool \<times> region_config" where
  "tick_baked_fallback received cfg =
     (case rc_fallback cfg of
        None \<Rightarrow> (False, cfg)
      | Some d \<Rightarrow>
          if \<not> fallback_armed d received then (False, cfg)
          else (True, cfg\<lparr>rc_fallback := None,
                          rc_open_flags := fold or_insert (dl_open_flags d) (rc_open_flags cfg),
                          rc_area_locks := rc_area_locks cfg @ dl_ranges d\<rparr>))"

end
