(* ===== verification/ErRegionClaims.thy ===== *)
theory ErRegionClaims
  imports ErRegions
begin

text \<open>
  What the drivers of the region locks guarantee over a session: a player is only ever moved out of
  ground that is sealed, once per visit; received locks end up open and nothing else is opened; a seed
  that speaks no region key enforces nothing before one of its own locks arrives.
\<close>

section \<open>Kicks\<close>

text \<open>
  A session is a list of ticks and of changes the game makes to its own state. The trace has one entry
  per tick: the verdict of the hard gate (none when the tick could not look) and what was announced.
\<close>

datatype 'g kick_event = Kick_Tick | World "'g \<Rightarrow> 'g"

definition kick_seen :: "'g region_io \<Rightarrow> region_config \<Rightarrow> 'g \<Rightarrow> bool option" where
  "kick_seen io cfg g =
     (if io_respec_busy io g then None
      else map_option (\<lambda>pr. kick_decision pr (rc_area_locks cfg) (rc_start_done cfg) (flag_on io g))
             (io_play_region io g))"

fun kick_trace ::
  "'g region_io \<Rightarrow> region_config \<Rightarrow> 'g kick_event list \<Rightarrow> 'g \<times> kick_state \<Rightarrow> (bool option \<times> string option) list" where
  "kick_trace io cfg [] s = []"
| "kick_trace io cfg (World f # es) s = kick_trace io cfg es (f (fst s), snd s)"
| "kick_trace io cfg (Kick_Tick # es) s =
     (case tick_kick io cfg s of
        (msg, s1) \<Rightarrow> (kick_seen io cfg (fst s), msg) # kick_trace io cfg es s1)"

definition next_latch :: "bool option \<Rightarrow> bool \<Rightarrow> bool" where
  "next_latch v l = (case v of None \<Rightarrow> l | Some b \<Rightarrow> b)"

lemma tick_kick_cases:
  "(fst (tick_kick io cfg (g, k)) \<noteq> None) = (kick_seen io cfg g = Some True \<and> \<not> ks_latch k)"
  "ks_latch (snd (snd (tick_kick io cfg (g, k)))) = next_latch (kick_seen io cfg g) (ks_latch k)"
  by (auto simp: tick_kick_def kick_seen_def latch_fire_def next_latch_def Let_def
      split: option.splits prod.splits sum.splits)

lemma tick_kick_silent_keeps:
  "fst (tick_kick io cfg (g, k)) = None \<Longrightarrow> fst (snd (tick_kick io cfg (g, k))) = g"
  by (auto simp: tick_kick_def latch_fire_def Let_def split: option.splits prod.splits sum.splits if_splits)

text \<open>The trace as the latch sees it.\<close>

fun latched_trace :: "bool \<Rightarrow> (bool option \<times> string option) list \<Rightarrow> bool" where
  "latched_trace l [] = True"
| "latched_trace l ((v, m) # tr) \<longleftrightarrow> (m \<noteq> None \<longleftrightarrow> v = Some True \<and> \<not> l) \<and> latched_trace (next_latch v l) tr"

lemma kick_trace_latched: "latched_trace (ks_latch (snd s)) (kick_trace io cfg es s)"
proof (induction io cfg es s rule: kick_trace.induct)
  case (3 io cfg es s)
  obtain g k where s: "s = (g, k)" by fastforce
  obtain msg g1 k1 where t: "tick_kick io cfg (g, k) = (msg, g1, k1)"
    by (cases "tick_kick io cfg (g, k)")
  show ?case
    using tick_kick_cases [of io cfg g k] 3 s t by simp
qed simp_all

fun latch_after :: "bool \<Rightarrow> (bool option \<times> string option) list \<Rightarrow> bool" where
  "latch_after l [] = l"
| "latch_after l (x # tr) = latch_after (next_latch (fst x) l) tr"

lemma latched_trace_append:
  "latched_trace l (xs @ ys) \<longleftrightarrow> latched_trace l xs \<and> latched_trace (latch_after l xs) ys"
  by (induction l xs rule: latched_trace.induct) auto

lemma latch_after_append: "latch_after l (xs @ ys) = latch_after (latch_after l xs) ys"
  by (induction xs arbitrary: l) simp_all

lemma latch_stays_up: "Some False \<notin> fst ` set tr \<Longrightarrow> latch_after True tr"
  by (induction tr) (auto simp: next_latch_def split: option.splits)

lemma latch_stays_down: "Some True \<notin> fst ` set tr \<Longrightarrow> \<not> latch_after False tr"
  by (induction tr) (auto simp: next_latch_def split: option.splits)

text \<open>
  C13: A kick is justified, happens once per visit, and is not missed. A tick moves or kills the
  player, raises the kick flag or says so only when the respec menu is shut, the player's region is
  covered by a range whose open flag is clear, and the random start is over; otherwise the game is left
  as it is. Over every session, whatever the game does in between, two kicks have between them a tick
  that saw the player on open ground; and the first tick that sees the player sealed, since the start or
  since open ground, kicks.
\<close>

theorem kicks_are_justified:
  assumes "kick_trace io cfg es (g0, kick_state_init) = tr"
  shows "(let (msg, g1, k1) = tick_kick io cfg (g, k)
          in msg = None \<and> g1 = g
             \<or> (\<not> io_respec_busy io g \<and>
                (\<exists>pr e. io_play_region io g = Some pr \<and> e \<in> set (rc_area_locks cfg)
                   \<and> covers (play_region_bucket pr) e \<and> \<not> flag_on io g (range_flag e)
                   \<and> (rc_start_done cfg = 0 \<or> flag_on io g (rc_start_done cfg)))))
         \<and> (\<forall>xs v m ys v' m' zs. tr = xs @ (v, Some m) # ys @ (v', Some m') # zs \<longrightarrow> Some False \<in> fst ` set ys)
         \<and> (\<forall>us vs m zs. tr = us @ vs @ (Some True, m) # zs \<and> Some True \<notin> fst ` set vs
                \<and> (us = [] \<or> fst (List.last us) = Some False) \<longrightarrow> m \<noteq> None)"
proof (intro conjI allI impI)
  obtain msg g1 k1 where t: "tick_kick io cfg (g, k) = (msg, g1, k1)" by (cases "tick_kick io cfg (g, k)")
  show "let (msg, g1, k1) = tick_kick io cfg (g, k)
        in msg = None \<and> g1 = g
           \<or> (\<not> io_respec_busy io g \<and>
              (\<exists>pr e. io_play_region io g = Some pr \<and> e \<in> set (rc_area_locks cfg)
                 \<and> covers (play_region_bucket pr) e \<and> \<not> flag_on io g (range_flag e)
                 \<and> (rc_start_done cfg = 0 \<or> flag_on io g (rc_start_done cfg))))"
    using tick_kick_silent_keeps [of io cfg g k] tick_kick_cases(1) [of io cfg g k] t
    by (auto simp: kick_seen_def kick_decision_def list_ex_iff Let_def split: if_splits)
next
  have tr: "latched_trace False tr"
    using kick_trace_latched [of "(g0, kick_state_init)" io cfg es] assms by (simp add: kick_state_init_def)
  show "Some False \<in> fst ` set ys" if "tr = xs @ (v, Some m) # ys @ (v', Some m') # zs" for xs v m ys v' m' zs
  proof (rule ccontr)
    assume none: "Some False \<notin> fst ` set ys"
    have "latched_trace (latch_after False xs) ((v, Some m) # ys @ (v', Some m') # zs)"
      using tr unfolding that latched_trace_append by blast
    then have "\<not> latch_after True ys"
      by (auto simp: latched_trace_append next_latch_def)
    with latch_stays_up [OF none] show False by simp
  qed
  show "m \<noteq> None"
    if "tr = us @ vs @ (Some True, m) # zs \<and> Some True \<notin> fst ` set vs \<and> (us = [] \<or> fst (List.last us) = Some False)"
    for us vs m zs
  proof -
    have "\<not> latch_after False us"
      using that by (cases us rule: rev_cases) (auto simp: latch_after_append next_latch_def)
    then have "\<not> latch_after False (us @ vs)"
      using latch_stays_down [of vs] that by (simp add: latch_after_append)
    moreover have "latched_trace (latch_after False (us @ vs)) ((Some True, m) # zs)"
      using tr that by (simp add: latched_trace_append latch_after_append)
    ultimately show ?thesis by simp
  qed
qed

definition sealed_caelid :: region_config where
  "sealed_caelid = config_default\<lparr>rc_area_locks := [(64000, 64020, 73207)], rc_open_flags := [(''Caelid Lock'', 73207)]\<rparr>"

definition world_at :: "int \<Rightarrow> er_world" where
  "world_at pr = \<lparr>w_flags = Some (\<lambda>_. False), w_region = Some pr, w_warps = []\<rparr>"

lemma kicks_are_justified_witness:
  "(let es = [Kick_Tick, World (\<lambda>w. w\<lparr>w_region := Some 6400001\<rparr>), Kick_Tick, Kick_Tick,
             World (\<lambda>w. w\<lparr>w_region := Some 1110000\<rparr>), Kick_Tick,
             World (\<lambda>w. w\<lparr>w_region := Some 6402003\<rparr>), Kick_Tick];
        tr = kick_trace world_io sealed_caelid es (world_at 61000, kick_state_init)
    in map (\<lambda>x. (fst x, snd x \<noteq> None)) tr =
         [(Some False, False), (Some True, True), (Some True, False), (Some False, False), (Some True, True)]
       \<and> Some False \<in> fst ` set [(Some True, None), (Some False, None)]
       \<and> (\<forall>xs v m ys v' m' zs. tr = xs @ (v, Some m) # ys @ (v', Some m') # zs \<longrightarrow> Some False \<in> fst ` set ys))"
proof -
  let ?es = "[Kick_Tick, World (\<lambda>w. w\<lparr>w_region := Some 6400001\<rparr>), Kick_Tick, Kick_Tick,
             World (\<lambda>w. w\<lparr>w_region := Some 1110000\<rparr>), Kick_Tick,
             World (\<lambda>w. w\<lparr>w_region := Some 6402003\<rparr>), Kick_Tick]"
  have "map (\<lambda>x. (fst x, snd x \<noteq> None)) (kick_trace world_io sealed_caelid ?es (world_at 61000, kick_state_init)) =
         [(Some False, False), (Some True, True), (Some True, False), (Some False, False), (Some True, True)]"
    by (simp add: tick_kick_def kick_seen_def kick_decision_def world_io_def sealed_caelid_def config_default_def
        world_at_def kick_state_init_def play_region_bucket_def RAW_PLAY_REGION_BUCKETS_def covers_def range_flag_def
        as_u32_def flag_on_def get_event_flag_def latch_fire_def set_flag_def try_set_flag_def try_set_event_flag_def
        KICK_FLAG_def Let_def)
  then show ?thesis
    using kicks_are_justified 
      [where io = world_io and cfg = sealed_caelid and es = ?es and ?g0.0 = "world_at 61000", OF refl]
    by (simp add: Let_def)
qed

section \<open>Received locks\<close>

definition apparatus :: "region_config \<Rightarrow> string \<Rightarrow> nat set" where
  "apparatus cfg name =
     set_option (map_of (rc_open_flags cfg) name) \<union> set (got_list (rc_reveals cfg) name)
     \<union> set (got_list (rc_graces cfg) name)"

context event_flags
begin

text \<open>A step that only ever turns flags of \<open>F\<close> on.\<close>

definition raises :: "nat set \<Rightarrow> ('g \<Rightarrow> 'g) \<Rightarrow> bool" where
  "raises F h \<longleftrightarrow>
     (\<forall>g. up g \<longrightarrow> up (h g) \<and> io_play_region io (h g) = io_play_region io g
        \<and> (\<forall>f. flag_on io g f \<longrightarrow> flag_on io (h g) f)
        \<and> (\<forall>f. flag_on io (h g) f \<longrightarrow> flag_on io g f \<or> f \<in> F))"

lemma raises_up: "raises F h \<Longrightarrow> up g \<Longrightarrow> up (h g)"
  by (simp add: raises_def)

lemma raises_region: "raises F h \<Longrightarrow> up g \<Longrightarrow> io_play_region io (h g) = io_play_region io g"
  by (simp add: raises_def)

lemma raises_keeps: "raises F h \<Longrightarrow> up g \<Longrightarrow> flag_on io g f \<Longrightarrow> flag_on io (h g) f"
  by (simp add: raises_def)

lemma raises_only: "raises F h \<Longrightarrow> up g \<Longrightarrow> flag_on io (h g) f \<Longrightarrow> flag_on io g f \<or> f \<in> F"
  by (simp add: raises_def)

lemma raises_mono: "raises F h \<Longrightarrow> F \<subseteq> F' \<Longrightarrow> raises F' h"
  unfolding raises_def by blast

lemma raises_fold: "(\<And>e. e \<in> set es \<Longrightarrow> raises F (h e)) \<Longrightarrow> raises F (fold h es)"
proof (induction es)
  case Nil
  then show ?case by (simp add: raises_def)
next
  case (Cons e es)
  then have "raises F (h e)" "raises F (fold h es)" by simp_all
  then show ?case unfolding raises_def by (simp add: comp_def) blast
qed

text \<open>What one element's step establishes survives the rest of the fold.\<close>

lemma fold_reaches:
  assumes "\<And>e. e \<in> set es \<Longrightarrow> raises F (h e)" "e \<in> set es" "\<And>g. up g \<Longrightarrow> flag_on io (h e g) f" "up g"
  shows "flag_on io (fold h es g) f"
proof -
  obtain xs ys where es: "es = xs @ e # ys" using assms(2) by (meson split_list)
  have "raises F (fold h xs)" "raises F (h e)" "raises F (fold h ys)"
    using assms(1) by (auto simp: es intro: raises_fold)
  with assms(3,4) show ?thesis by (simp add: es raises_keeps raises_up)
qed

lemma open_on_received_raises: "raises (apparatus cfg name) (\<lambda>g. snd (open_on_received_name io cfg name g))"
  by (auto simp: raises_def open_on_received_name_def apparatus_def flag_on_set_flags flag_on_set Let_def
      split: option.splits)

lemma open_on_received_sets:
  "up g \<Longrightarrow> map_of (rc_open_flags cfg) name = Some f \<Longrightarrow>
   flag_on io (snd (open_on_received_name io cfg name g)) f"
  by (simp add: open_on_received_name_def flag_on_set_flags flag_on_set Let_def)

lemma open_on_received_edge:
  "fst (open_on_received_name io cfg name g) \<longleftrightarrow>
     up g \<and> (\<exists>f. map_of (rc_open_flags cfg) name = Some f \<and> \<not> flag_on io g f)"
  by (cases "up g")
     (auto simp: open_on_received_name_def Let_def flag_on_set flag_on_down split: option.split)

lemma relight_raises: "raises {f} (relight io f)"
  by (auto simp: raises_def relight_def flag_on_set)

lemma relight_sets: "up g \<Longrightarrow> flag_on io (relight io f g) f"
  by (simp add: relight_def flag_on_set)

lemma fold_relight_raises: "raises (set fs) (fold (relight io) fs)"
  by (rule raises_fold) (auto intro: raises_mono [OF relight_raises])

lemma fold_relight_sets: "up g \<Longrightarrow> f \<in> set fs \<Longrightarrow> flag_on io (fold (relight io) fs g) f"
  by (rule fold_reaches [of fs "set fs"]) (auto intro: raises_mono [OF relight_raises] relight_sets)

lemma fold_relight_id: "\<forall>f \<in> set fs. flag_on io g f \<Longrightarrow> fold (relight io) fs g = g"
  by (induction fs) (simp_all add: relight_def)

definition received_apparatus :: "region_config \<Rightarrow> (string \<Rightarrow> bool) \<Rightarrow> nat set" where
  "received_apparatus cfg received = {f. \<exists>n. received n \<and> f \<in> apparatus cfg n}"

lemma reconcile_open_raises: "raises (received_apparatus cfg received) (reconcile_open_flag io cfg received e)"
proof (cases "received (fst e)")
  case True
  then have "apparatus cfg (fst e) \<subseteq> received_apparatus cfg received"
    by (auto simp: received_apparatus_def)
  from raises_mono [OF open_on_received_raises this] show ?thesis
    by (simp add: raises_def reconcile_open_flag_def)
qed (simp add: raises_def reconcile_open_flag_def)

lemma reconcile_open_sets:
  "up g \<Longrightarrow> received (fst e) \<Longrightarrow> map_of (rc_open_flags cfg) (fst e) = Some (snd e) \<Longrightarrow>
   flag_on io (reconcile_open_flag io cfg received e g) (snd e)"
  by (simp add: reconcile_open_flag_def open_on_received_sets)

lemma reconcile_graces_raises:
  assumes "e \<in> set (rc_graces cfg)" "distinct (map fst (rc_graces cfg))"
  shows "raises (received_apparatus cfg received) (reconcile_graces io received e)"
proof (cases "received (fst e)")
  case True
  have "map_of (rc_graces cfg) (fst e) = Some (snd e)" using assms by simp
  with True have "set (snd e) \<subseteq> received_apparatus cfg received"
    by (auto simp: received_apparatus_def apparatus_def got_list_def)
  from raises_mono [OF fold_relight_raises this] True show ?thesis
    by (simp add: raises_def reconcile_graces_def)
qed (simp add: raises_def reconcile_graces_def)

lemma reconcile_graces_sets:
  "up g \<Longrightarrow> received (fst e) \<Longrightarrow> f \<in> set (snd e) \<Longrightarrow> flag_on io (reconcile_graces io received e g) f"
  by (simp add: reconcile_graces_def fold_relight_sets)

lemma open_on_received_down: "\<not> up g \<Longrightarrow> snd (open_on_received_name io cfg n g) = g"
  by (simp add: open_on_received_name_def set_flag_down set_flags_down Let_def split: option.split)

lemma reconcile_down:
  assumes "\<not> up g"
  shows "tick_reconcile_received_locks io cfg received g = g"
proof -
  have r: "fold (relight io) fs g = g" for fs
    using assms by (induction fs) (simp_all add: relight_def set_flag_down)
  have "fold (reconcile_open_flag io cfg received) es g = g" for es
    using assms by (induction es) (simp_all add: reconcile_open_flag_def open_on_received_down)
  moreover have "fold (reconcile_graces io received) es g = g" for es
    by (induction es) (simp_all add: reconcile_graces_def r)
  ultimately show ?thesis by (simp add: tick_reconcile_received_locks_def)
qed

definition locks_applied :: "region_config \<Rightarrow> (string \<Rightarrow> bool) \<Rightarrow> 'g \<Rightarrow> bool" where
  "locks_applied cfg received g \<longleftrightarrow>
     (\<forall>(n, f) \<in> set (rc_open_flags cfg). received n \<longrightarrow> flag_on io g f)
     \<and> (\<forall>(n, fs) \<in> set (rc_graces cfg). received n \<longrightarrow> (\<forall>f \<in> set fs. flag_on io g f))"

lemma reconcile_applied_id:
  assumes "locks_applied cfg received g"
  shows "tick_reconcile_received_locks io cfg received g = g"
proof -
  have "fold (reconcile_open_flag io cfg received) es g = g" if "set es \<subseteq> set (rc_open_flags cfg)" for es
    using that assms by (induction es) (auto simp: reconcile_open_flag_def locks_applied_def)
  moreover have "reconcile_graces io received e g = g" if "e \<in> set (rc_graces cfg)" for e
    using that assms by (cases e) (auto simp: reconcile_graces_def locks_applied_def intro!: fold_relight_id)
  then have "fold (reconcile_graces io received) es g = g" if "set es \<subseteq> set (rc_graces cfg)" for es
    using that by (induction es) auto
  ultimately show ?thesis by (simp add: tick_reconcile_received_locks_def)
qed

lemma reconcile_raises:
  assumes "distinct (map fst (rc_graces cfg))"
  shows "raises (received_apparatus cfg received)
      (\<lambda>g. fold (reconcile_graces io received) (rc_graces cfg)
             (fold (reconcile_open_flag io cfg received) (rc_open_flags cfg) g))"
proof -
  have "raises (received_apparatus cfg received) (fold (reconcile_open_flag io cfg received) (rc_open_flags cfg))"
    by (rule raises_fold) (rule reconcile_open_raises)
  moreover have "raises (received_apparatus cfg received) (fold (reconcile_graces io received) (rc_graces cfg))"
    by (rule raises_fold) (rule reconcile_graces_raises [OF _ assms])
  ultimately show ?thesis unfolding raises_def by simp blast
qed

lemma reconcile_applies:
  assumes "distinct (map fst (rc_graces cfg))" "distinct (map fst (rc_open_flags cfg))"
    and "up g" "game_in_world io g"
  shows "locks_applied cfg received (tick_reconcile_received_locks io cfg received g)"
proof -
  let ?o = "fold (reconcile_open_flag io cfg received) (rc_open_flags cfg)"
  let ?r = "fold (reconcile_graces io received) (rc_graces cfg)"
  have ro: "raises (received_apparatus cfg received) ?o" by (rule raises_fold) (rule reconcile_open_raises)
  have rr: "raises (received_apparatus cfg received) ?r"
    by (rule raises_fold) (rule reconcile_graces_raises [OF _ assms(1)])
  have "flag_on io (?o g) f" if "(n, f) \<in> set (rc_open_flags cfg)" "received n" for n f
    by (rule fold_reaches [OF reconcile_open_raises that(1)])
       (use that assms(2,3) in \<open>simp_all add: reconcile_open_sets [where e = "(n, f)", simplified]\<close>)
  then have "flag_on io (?r (?o g)) f" if "(n, f) \<in> set (rc_open_flags cfg)" "received n" for n f
    using that assms(3) by (blast intro: raises_keeps [OF rr] raises_up [OF ro])
  moreover have "flag_on io (?r (?o g)) f"
    if "(n, fs) \<in> set (rc_graces cfg)" "received n" "f \<in> set fs" for n f fs
    by (rule fold_reaches [OF reconcile_graces_raises [OF _ assms(1)] that(1)])
       (use that raises_up [OF ro assms(3)] in \<open>simp_all add: reconcile_graces_sets [where e = "(n, fs)", simplified]\<close>)
  ultimately show ?thesis
    using assms(4) by (auto simp: locks_applied_def tick_reconcile_received_locks_def)
qed

end

text \<open>
  C11: A received lock ends up open, whatever was lost on the way, and nothing else is opened. In
  world with the flag manager up, one reconciling tick leaves the open flag and every grace of every
  received lock set, clears nothing, raises no flag outside the apparatus of received locks, and a
  second tick changes nothing; at the menu, or with the manager down, the tick changes nothing.
  The unlock is announced exactly when the receipt opens a region that was shut.
\<close>

theorem received_locks_reopen:
  assumes "event_flags io up" "distinct (map fst (rc_open_flags cfg))" "distinct (map fst (rc_graces cfg))"
  shows "(let g' = tick_reconcile_received_locks io cfg received g
          in (if game_in_world io g \<and> up g
              then (\<forall>(n, f) \<in> set (rc_open_flags cfg). received n \<longrightarrow> flag_on io g' f)
                   \<and> (\<forall>(n, fs) \<in> set (rc_graces cfg). received n \<longrightarrow> (\<forall>f \<in> set fs. flag_on io g' f))
                   \<and> (\<forall>f. flag_on io g f \<longrightarrow> flag_on io g' f)
                   \<and> (\<forall>f. flag_on io g' f \<longrightarrow> flag_on io g f \<or> (\<exists>n. received n \<and> f \<in> apparatus cfg n))
                   \<and> tick_reconcile_received_locks io cfg received g' = g'
              else g' = g))
         \<and> (fst (open_on_received_name io cfg name g) \<longleftrightarrow>
              up g \<and> (\<exists>f. map_of (rc_open_flags cfg) name = Some f \<and> \<not> flag_on io g f))"
proof -
  note ev = assms(1)
  let ?g' = "tick_reconcile_received_locks io cfg received g"
  have edge: "fst (open_on_received_name io cfg name g) \<longleftrightarrow>
      up g \<and> (\<exists>f. map_of (rc_open_flags cfg) name = Some f \<and> \<not> flag_on io g f)"
    by (rule event_flags.open_on_received_edge [OF ev])
  show ?thesis
  proof (cases "game_in_world io g \<and> up g")
    case True
    have applied: "event_flags.locks_applied io cfg received ?g'"
      using event_flags.reconcile_applies [OF ev assms(3,2)] True by simp
    have "event_flags.raises io up (event_flags.received_apparatus cfg received)
        (\<lambda>g. fold (reconcile_graces io received) (rc_graces cfg)
             (fold (reconcile_open_flag io cfg received) (rc_open_flags cfg) g))"
      by (rule event_flags.reconcile_raises [OF ev assms(3)])
    then have "(\<forall>f. flag_on io g f \<longrightarrow> flag_on io ?g' f) \<and>
        (\<forall>f. flag_on io ?g' f \<longrightarrow> flag_on io g f \<or> (\<exists>n. received n \<and> f \<in> apparatus cfg n))"
      using True
      by (simp add: event_flags.raises_def [OF ev] event_flags.received_apparatus_def [OF ev]
          tick_reconcile_received_locks_def)
    with edge True applied event_flags.reconcile_applied_id [OF ev applied] show ?thesis
      by (simp add: Let_def event_flags.locks_applied_def [OF ev])
  next
    case False
    then have "?g' = g"
      using event_flags.reconcile_down [OF ev, of g cfg received]
      by (auto simp: tick_reconcile_received_locks_def)
    with edge False show ?thesis by (auto simp: Let_def)
  qed
qed

definition two_locks :: region_config where
  "two_locks = config_default
     \<lparr>rc_open_flags := [(''Caelid Lock'', 73207), (''Altus Lock'', 76301)],
      rc_reveals := [(''Caelid Lock'', [62040])],
      rc_graces := [(''Caelid Lock'', [73207, 76400]), (''Altus Lock'', [76302]), (''Ghostflame Torch'', [76700])]\<rparr>"

lemma received_locks_reopen_witness:
  "(let g = world_at 61000;
        received = (\<lambda>n. n \<in> {''Caelid Lock'', ''Ghostflame Torch''});
        g' = tick_reconcile_received_locks world_io two_locks received g
    in game_in_world world_io g \<and> manager_up g
       \<and> flag_on world_io g' 73207 \<and> flag_on world_io g' 76400 \<and> flag_on world_io g' 76700
       \<and> \<not> flag_on world_io g' 76301 \<and> \<not> flag_on world_io g' 76302
       \<and> tick_reconcile_received_locks world_io two_locks received g' = g'
       \<and> fst (open_on_received_name world_io two_locks ''Caelid Lock'' g))"
proof -
  let ?g = "world_at 61000"
  let ?r = "\<lambda>n. n \<in> {''Caelid Lock'', ''Ghostflame Torch''}"
  have c: "distinct (map fst (rc_open_flags two_locks))" "distinct (map fst (rc_graces two_locks))"
    by (simp_all add: two_locks_def)
  have a: "apparatus two_locks n =
      (if n = ''Caelid Lock'' then {73207, 62040, 76400} else if n = ''Altus Lock'' then {76301, 76302}
       else if n = ''Ghostflame Torch'' then {76700} else {})" for n
    by (auto simp: apparatus_def two_locks_def config_default_def got_list_def)
  have up: "game_in_world world_io ?g" "manager_up ?g" "\<And>f. \<not> flag_on world_io ?g f"
    by (simp_all add: world_at_def game_in_world_def world_io_def manager_up_def flag_on_def get_event_flag_def)
  define g' where "g' = tick_reconcile_received_locks world_io two_locks ?r ?g"
  have t: "(\<forall>(n, f) \<in> set (rc_open_flags two_locks). ?r n \<longrightarrow> flag_on world_io g' f)
      \<and> (\<forall>(n, fs) \<in> set (rc_graces two_locks). ?r n \<longrightarrow> (\<forall>f \<in> set fs. flag_on world_io g' f))
      \<and> (\<forall>f. flag_on world_io g' f \<longrightarrow> flag_on world_io ?g f \<or> (\<exists>n. ?r n \<and> f \<in> apparatus two_locks n))
      \<and> tick_reconcile_received_locks world_io two_locks ?r g' = g'
      \<and> (fst (open_on_received_name world_io two_locks ''Caelid Lock'' ?g) \<longleftrightarrow>
           manager_up ?g \<and> (\<exists>f. map_of (rc_open_flags two_locks) ''Caelid Lock'' = Some f \<and> \<not> flag_on world_io ?g f))"
    using received_locks_reopen [OF man.event_flags_axioms c, where received = ?r and g = ?g and name = "''Caelid Lock''"]
    unfolding Let_def g'_def [symmetric] using up(1,2) by (simp only: simp_thms if_True) blast
  have o: "set (rc_open_flags two_locks) = {(''Caelid Lock'', 73207), (''Altus Lock'', 76301)}"
    "map_of (rc_open_flags two_locks) ''Caelid Lock'' = Some 73207"
    "set (rc_graces two_locks) = {(''Caelid Lock'', [73207, 76400]), (''Altus Lock'', [76302]), (''Ghostflame Torch'', [76700])}"
    by (simp_all add: two_locks_def)
  have set: "flag_on world_io g' 73207 \<and> flag_on world_io g' 76400 \<and> flag_on world_io g' 76700"
    using t unfolding o by simp
  have on: "f \<in> apparatus two_locks ''Caelid Lock'' \<union> apparatus two_locks ''Ghostflame Torch''"
    if "flag_on world_io g' f" for f
    using t up(3) that by blast
  have "\<not> flag_on world_io g' 76301 \<and> \<not> flag_on world_io g' 76302"
    using on [of 76301] on [of 76302] by (auto simp: a)
  moreover have "fst (open_on_received_name world_io two_locks ''Caelid Lock'' ?g)"
    using t up(2,3) o(2) by simp
  ultimately show ?thesis
    using t up(1,2) set unfolding Let_def g'_def [symmetric] by (simp only: simp_thms)
qed

section \<open>The fallback of a seed without region keys\<close>

definition fallback_run :: "(string \<Rightarrow> bool) list \<Rightarrow> region_config \<Rightarrow> region_config" where
  "fallback_run rs cfg = fold (\<lambda>r c. snd (tick_baked_fallback r c)) rs cfg"

lemma fold_or_insert:
  "map_of (fold or_insert es m) n = (case map_of m n of Some f \<Rightarrow> Some f | None \<Rightarrow> map_of es n)"
proof (induction es arbitrary: m)
  case (Cons e es)
  have "map_of (or_insert e m) n =
      (case map_of m n of Some f \<Rightarrow> Some f | None \<Rightarrow> if fst e = n then Some (snd e) else None)"
    by (cases e) (auto simp: or_insert_def map_add_def split: option.split)
  with Cons.IH [of "or_insert e m"] show ?case by (cases e) (auto split: option.split)
qed (simp split: option.split)

lemma fallback_run_armed: "rc_fallback c = None \<Longrightarrow> fallback_run rs c = c"
  by (induction rs) (simp_all add: fallback_run_def tick_baked_fallback_def)

lemma fallback_run_prepared:
  assumes "rc_fallback c = Some d"
  shows "fallback_run rs c =
    (if list_ex (fallback_armed d) rs
     then c\<lparr>rc_fallback := None, rc_open_flags := fold or_insert (dl_open_flags d) (rc_open_flags c),
            rc_area_locks := rc_area_locks c @ dl_ranges d\<rparr>
     else c)"
proof (induction rs)
  case (Cons r rs)
  have step: "fallback_run (r # rs) c = fallback_run rs (snd (tick_baked_fallback r c))"
    by (simp add: fallback_run_def)
  show ?case
  proof (cases "fallback_armed d r")
    case True
    then show ?thesis
      unfolding step using assms by (simp add: tick_baked_fallback_def fallback_run_armed)
  next
    case False
    then show ?thesis
      unfolding step using assms Cons.IH by (simp add: tick_baked_fallback_def)
  qed
qed (simp add: fallback_run_def)

lemma derived_map_of:
  "map_of (dl_open_flags (derive_region_locks ns)) n = Some f \<longleftrightarrow>
     n \<in> set ns \<and> ends_with n '' Lock'' \<and> (\<exists>r. gates n r f)"
proof
  assume "map_of (dl_open_flags (derive_region_locks ns)) n = Some f"
  then have "(n, f) \<in> set (dl_open_flags (derive_region_locks ns))" by (rule map_of_SomeD)
  then show "n \<in> set ns \<and> ends_with n '' Lock'' \<and> (\<exists>r. gates n r f)" by (auto simp: derived_flags)
next
  assume h: "n \<in> set ns \<and> ends_with n '' Lock'' \<and> (\<exists>r. gates n r f)"
  then have "(n, f) \<in> set (dl_open_flags (derive_region_locks ns))" by (auto simp: derived_flags)
  then obtain f' where m: "map_of (dl_open_flags (derive_region_locks ns)) n = Some f'"
    by (cases "map_of (dl_open_flags (derive_region_locks ns)) n") (auto simp: map_of_eq_None_iff image_iff)
  then have "(n, f') \<in> set (dl_open_flags (derive_region_locks ns))" by (rule map_of_SomeD)
  then show "map_of (dl_open_flags (derive_region_locks ns)) n = Some f"
    using h m by (auto simp: derived_flags gates_def)
qed

lemma gates_small: "gates n r f \<Longrightarrow> f < 2 ^ 32"
proof -
  have "list_all (\<lambda>r. case bk_open_flag r of Some f \<Rightarrow> f < 2 ^ 32 | None \<Rightarrow> True) REGION_LOCKS"
    by (simp add: REGION_LOCKS_def)
  then show "gates n r f \<Longrightarrow> f < 2 ^ 32"
    by (auto simp: gates_def list_all_iff dest!: by_lock_itemD split: option.splits)
qed

text \<open>The ground the fallback watches.\<close>

lemma derived_kick:
  "kick_decision pr (dl_ranges (derive_region_locks ns)) start get \<longleftrightarrow>
     (start = 0 \<or> get start) \<and>
     (\<exists>n r f. n \<in> set ns \<and> ends_with n '' Lock'' \<and> gates n r f
        \<and> play_region_bucket pr \<in> set (bk_play_regions r) \<and> \<not> get f)"
proof -
  have e: "(\<exists>e \<in> set (dl_ranges (derive_region_locks ns)). covers b e \<and> \<not> get (range_flag e)) \<longleftrightarrow>
      (\<exists>n r f. n \<in> set ns \<and> ends_with n '' Lock'' \<and> gates n r f \<and> b \<in> set (bk_play_regions r) \<and> \<not> get f)" for b
  proof
    assume "\<exists>e \<in> set (dl_ranges (derive_region_locks ns)). covers b e \<and> \<not> get (range_flag e)"
    then obtain n r f p where h: "n \<in> set ns" "ends_with n '' Lock''" "gates n r f" "p \<in> set (bk_play_regions r)"
      "covers b (p, p, as_i32 f)" "\<not> get (range_flag (p, p, as_i32 f))"
      by (auto simp: derived_flags)
    then have "p = b" "range_flag (p, p, as_i32 f) = f"
      using gates_small [OF h(3)] by (simp_all add: covers_def range_flag_def as_u32_as_i32)
    with h show "\<exists>n r f. n \<in> set ns \<and> ends_with n '' Lock'' \<and> gates n r f \<and> b \<in> set (bk_play_regions r) \<and> \<not> get f"
      by auto
  next
    assume "\<exists>n r f. n \<in> set ns \<and> ends_with n '' Lock'' \<and> gates n r f \<and> b \<in> set (bk_play_regions r) \<and> \<not> get f"
    then obtain n r f where h: "n \<in> set ns" "ends_with n '' Lock''" "gates n r f" "b \<in> set (bk_play_regions r)"
      "\<not> get f" by blast
    then have "(b, b, as_i32 f) \<in> set (dl_ranges (derive_region_locks ns))" by (auto simp: derived_flags)
    moreover have "covers b (b, b, as_i32 f) \<and> \<not> get (range_flag (b, b, as_i32 f))"
      using h gates_small [OF h(3)] by (simp add: covers_def range_flag_def as_u32_as_i32)
    ultimately show "\<exists>e \<in> set (dl_ranges (derive_region_locks ns)). covers b e \<and> \<not> get (range_flag e)" by blast
  qed
  show ?thesis unfolding kick_decision_def Let_def list_ex_iff e by auto
qed

text \<open>A lock of the seed that the baked table can gate.\<close>

definition seed_lock :: "string list \<Rightarrow> string \<Rightarrow> baked_region_lock \<Rightarrow> nat \<Rightarrow> bool" where
  "seed_lock names n r f \<longleftrightarrow> n \<in> set names \<and> ends_with n '' Lock'' \<and> gates n r f"

text \<open>
  C30: A seed that speaks no region key enforces nothing until it proves it placed locks. From the
  empty configuration, prepared with the names of its item table and ticked over any sequence of receipt
  sets: as long as none of them holds a lock of the seed that the baked table knows, no ground kicks, for
  every region and every flag state, and no lock item opens anything. Once one does, the kick watches
  exactly the baked ground of the seed's own locks, each until its own flag is set and behind the start
  guard, and each lock opens its own flag. The order and repetition of the names is irrelevant.
\<close>

theorem fallback_needs_receipt:
  assumes "rc_area_locks cfg = []" "rc_open_flags cfg = []" "rc_fallback cfg = None"
  shows "(let c = fallback_run rs (prepare_baked_fallback names cfg);
              armed = (\<exists>received \<in> set rs. \<exists>n r f. seed_lock names n r f \<and> received n)
          in (kick_decision pr (rc_area_locks c) (rc_start_done c) get \<longleftrightarrow>
                armed \<and> (rc_start_done cfg = 0 \<or> get (rc_start_done cfg)) \<and>
                (\<exists>n r f. seed_lock names n r f \<and> play_region_bucket pr \<in> set (bk_play_regions r) \<and> \<not> get f))
             \<and> (map_of (rc_open_flags c) n = Some f \<longleftrightarrow> armed \<and> (\<exists>r. seed_lock names n r f))
             \<and> (set names = set names' \<longrightarrow> c = fallback_run rs (prepare_baked_fallback names' cfg)))"
proof -
  let ?d = "derive_region_locks names"
  have armed: "list_ex (fallback_armed ?d) rs \<longleftrightarrow>
      (\<exists>received \<in> set rs. \<exists>n r f. seed_lock names n r f \<and> received n)"
    by (auto simp: list_ex_iff fallback_armed_iff seed_lock_def)
  have run: "fallback_run rs (prepare_baked_fallback names cfg) =
      (if list_ex (fallback_armed ?d) rs
       then cfg\<lparr>rc_fallback := None, rc_open_flags := fold or_insert (dl_open_flags ?d) [], rc_area_locks := dl_ranges ?d\<rparr>
       else prepare_baked_fallback names cfg)"
    using assms
    by (auto simp: prepare_baked_fallback_def fallback_run_armed fallback_run_prepared Let_def
        derived_is_empty_def fallback_armed_def list_ex_iff)
  have prep: "rc_area_locks (prepare_baked_fallback names cfg) = []"
    "rc_open_flags (prepare_baked_fallback names cfg) = []"
    "rc_start_done (prepare_baked_fallback names cfg) = rc_start_done cfg"
    using assms by (simp_all add: prepare_baked_fallback_def Let_def)
  have order: "set names = set names' \<Longrightarrow> prepare_baked_fallback names cfg = prepare_baked_fallback names' cfg"
    using derive_order_independent [of names names'] by (simp add: prepare_baked_fallback_def)
  let ?c = "fallback_run rs (prepare_baked_fallback names cfg)"
  let ?armed = "\<exists>received \<in> set rs. \<exists>n r f. seed_lock names n r f \<and> received n"
  have "kick_decision pr (rc_area_locks ?c) (rc_start_done ?c) get \<longleftrightarrow>
      ?armed \<and> (rc_start_done cfg = 0 \<or> get (rc_start_done cfg)) \<and>
      (\<exists>n r f. seed_lock names n r f \<and> play_region_bucket pr \<in> set (bk_play_regions r) \<and> \<not> get f)"
  proof (cases "list_ex (fallback_armed ?d) rs")
    case True
    with armed have "?armed" by simp
    with True show ?thesis unfolding run by (simp add: derived_kick seed_lock_def conj_assoc)
  next
    case False
    with armed have "\<not> ?armed" by simp
    with False prep show ?thesis unfolding run by (simp add: kick_decision_def)
  qed
  moreover have "map_of (rc_open_flags ?c) n = Some f \<longleftrightarrow> ?armed \<and> (\<exists>r. seed_lock names n r f)"
  proof (cases "list_ex (fallback_armed ?d) rs")
    case True
    with armed have "?armed" by simp
    with True show ?thesis unfolding run by (simp add: fold_or_insert derived_map_of seed_lock_def)
  next
    case False
    with armed have "\<not> ?armed" by simp
    with False prep show ?thesis unfolding run by simp
  qed
  ultimately show ?thesis using order by (simp add: Let_def)
qed

lemma fallback_needs_receipt_witness:
  "(let names = [''Uchigatana'', ''Caelid Lock'', ''Zzz Lock'', ''Altus Lock''];
        run = (\<lambda>rs. fallback_run rs (prepare_baked_fallback names config_default));
        kicks = (\<lambda>rs pr. kick_decision pr (rc_area_locks (run rs)) 0 (\<lambda>f. f = 73207))
    in \<not> kicks [\<lambda>n. n = ''Uchigatana'', \<lambda>n. n = ''Zzz Lock''] 6300001
       \<and> kicks [\<lambda>n. n = ''Uchigatana'', \<lambda>n. n = ''Caelid Lock''] 6300001
       \<and> \<not> kicks [\<lambda>n. n = ''Uchigatana'', \<lambda>n. n = ''Caelid Lock''] 64000
       \<and> \<not> kicks [\<lambda>n. n = ''Uchigatana'', \<lambda>n. n = ''Caelid Lock''] 61000)"
proof -
  let ?names = "[''Uchigatana'', ''Caelid Lock'', ''Zzz Lock'', ''Altus Lock'']"
  define caelid where "caelid = \<lparr>bk_region = ''Caelid'', bk_lock_item = ''Caelid Lock'', bk_open_flag = Some 73207, bk_play_regions =
      [30140, 30150, 30160, 31100, 31110, 31200, 31210, 32070, 32080, 34130, 64000, 64010, 64020]\<rparr>"
  define altus where "altus = \<lparr>bk_region = ''Altus'', bk_lock_item = ''Altus Lock'', bk_open_flag = Some 76301, bk_play_regions =
      [30070, 30080, 30100, 30120, 30130, 31180, 31190, 32040, 32050, 34120, 63000, 63010]\<rparr>"
  have bl: "by_lock_item ''Caelid Lock'' = Some caelid" "by_lock_item ''Altus Lock'' = Some altus"
    "by_lock_item ''Zzz Lock'' = None"
    by (simp_all add: by_lock_item_def REGION_LOCKS_def caelid_def altus_def)
  have bf: "bk_open_flag caelid = Some 73207" "bk_open_flag altus = Some 76301"
    by (simp_all add: caelid_def altus_def)
  have ew: "\<not> ends_with ''Uchigatana'' '' Lock''" "ends_with ''Caelid Lock'' '' Lock''"
    "ends_with ''Altus Lock'' '' Lock''" "ends_with ''Zzz Lock'' '' Lock''"
    by (simp_all add: ends_with_def strip_suffix_def)
  have lk: "seed_lock ?names n r f \<longleftrightarrow>
      (n = ''Caelid Lock'' \<and> r = caelid \<and> f = 73207) \<or>
      (n = ''Altus Lock'' \<and> r = altus \<and> f = 76301)" for n r f
    unfolding seed_lock_def gates_def
    by (cases "n = ''Caelid Lock''"; cases "n = ''Altus Lock''"; cases "n = ''Zzz Lock''"; cases "n = ''Uchigatana''";
        simp add: bl ew; metis bf option.inject)
  have b: "play_region_bucket 6300001 = 63000" "play_region_bucket 64000 = 64000" "play_region_bucket 61000 = 61000"
    by (simp_all add: play_region_bucket_def RAW_PLAY_REGION_BUCKETS_def)
  have k: "kick_decision pr (rc_area_locks (fallback_run rs (prepare_baked_fallback ?names config_default))) 0 get \<longleftrightarrow>
      (\<exists>received \<in> set rs. received ''Caelid Lock'' \<or> received ''Altus Lock'') \<and>
      (play_region_bucket pr \<in> set (bk_play_regions caelid) \<and> \<not> get 73207 \<or>
       play_region_bucket pr \<in> set (bk_play_regions altus) \<and> \<not> get 76301)" for rs pr get
  proof -
    have d: "rc_start_done (fallback_run rs (prepare_baked_fallback ?names config_default)) = 0"
      by (simp add: prepare_baked_fallback_def Let_def config_default_def fallback_run_armed fallback_run_prepared)
    have e: "rc_area_locks config_default = []" "rc_open_flags config_default = []" "rc_fallback config_default = None"
      "rc_start_done config_default = 0"
      by (simp_all add: config_default_def)
    show ?thesis
      using fallback_needs_receipt [OF e(1,2,3), where rs = rs and names = ?names and get = get and pr = pr]
      by (auto simp: Let_def lk d e)
  qed
  show ?thesis by (simp add: k b Let_def caelid_def altus_def)
qed

end
