(* ===== verification/ErCapital.thy ===== *)
theory ErCapital
  imports ErRegions
begin

text \<open>
  The capital reconciler (\<open>crates/er-logic/src/capital.rs\<close>, \<open>capital_guard.rs\<close>, and
  \<open>tick_capital\<close>, \<open>capital_warp_intercept\<close> of
  \<open>crates/eldenring-archipelago/src/region.rs\<close>): which of the two capitals the map selector
  flag asks for, the guard against burning the world from a position, the writes that bring the
  three flags in line, and the two drivers. The parsed configuration is given; log lines are left out.
\<close>

section \<open>Configuration and decisions\<close>

record capital_config =
  cc_burn_flag :: nat
  cc_burn_done_flag :: nat
  cc_ashen :: "int list"
  cc_royal :: "int list"
  cc_release_rows :: "(nat \<times> nat \<times> nat) list"
  cc_world_burn_flag :: "nat option"
  cc_pre_burn_flag :: "nat option"

record capital_state =
  cs_burn :: bool
  cs_world_burn :: "bool option"
  cs_pre_burn :: "bool option"

record capital_writes =
  cw_burn :: "bool option"
  cw_world_burn :: "bool option"
  cw_pre_burn :: "bool option"

definition no_writes :: capital_writes where
  "no_writes = \<lparr>cw_burn = None, cw_world_burn = None, cw_pre_burn = None\<rparr>"

definition reconcile_state :: "bool \<Rightarrow> bool option \<Rightarrow> capital_state \<Rightarrow> capital_writes" where
  "reconcile_state burn_done desired current =
     (case (if burn_done then desired else None) of
        None \<Rightarrow> no_writes
      | Some want \<Rightarrow>
          \<lparr>cw_burn = (if cs_burn current \<noteq> want then Some want else None),
           cw_world_burn = (case cs_world_burn current of
                              Some value \<Rightarrow> if value \<noteq> want then Some want else None
                            | None \<Rightarrow> None),
           cw_pre_burn = (if want \<and> cs_pre_burn current = Some True then Some False else None)\<rparr>)"

definition capital_flag_state :: "capital_config \<Rightarrow> int \<Rightarrow> bool option" where
  "capital_flag_state c play_region =
     (let b = play_region_bucket play_region
      in if b \<in> set (cc_ashen c) then Some True else Some False)"

definition warp_target_bucket :: "nat \<Rightarrow> int option" where
  "warp_target_bucket target =
     (if \<not> (10000000 \<le> target \<and> target < 100000000) then None
      else Some (int (target div 10000 * 10)))"

definition capital_flag_state_for_warp_target :: "capital_config \<Rightarrow> nat \<Rightarrow> bool \<Rightarrow> bool option" where
  "capital_flag_state_for_warp_target c target resolvable =
     (if target = 0 \<or> \<not> resolvable then None
      else Some (case warp_target_bucket target of
                   Some bucket \<Rightarrow> bucket \<in> set (cc_ashen c)
                 | None \<Rightarrow> False))"

section \<open>Declines\<close>

datatype decline = NotArmed | Unresolvable | AlreadyCorrect bool | ContradictedOn

datatype capital_decision = Write bool | Declined decline

definition decision_write :: "capital_decision \<Rightarrow> bool option" where
  "decision_write d = (case d of Write w \<Rightarrow> Some w | Declined _ \<Rightarrow> None)"

definition capital_decide :: "bool \<Rightarrow> bool option \<Rightarrow> bool \<Rightarrow> capital_decision" where
  "capital_decide burn_done desired current =
     (if \<not> burn_done then Declined NotArmed
      else case desired of
        Some want \<Rightarrow> if want \<noteq> current then Write want else Declined (AlreadyCorrect want)
      | None \<Rightarrow> Declined Unresolvable)"

definition decide_from_position :: "bool \<Rightarrow> bool option \<Rightarrow> bool \<Rightarrow> bool option \<Rightarrow> capital_decision" where
  "decide_from_position burn_done desired current world_burnt =
     (if capital_decide burn_done desired current = Write True \<and> world_burnt = Some False
      then Declined ContradictedOn
      else capital_decide burn_done desired current)"

definition reconcile_write :: "bool \<Rightarrow> bool option \<Rightarrow> bool \<Rightarrow> bool option" where
  "reconcile_write burn_done desired current = decision_write (capital_decide burn_done desired current)"

definition desired_across_warp ::
  "int option \<Rightarrow> int option \<Rightarrow> bool \<Rightarrow> bool option \<Rightarrow> bool option \<times> bool" where
  "desired_across_warp source_region current_region warp_desired position_desired =
     (if source_region = current_region then (Some warp_desired, True) else (position_desired, False))"

text \<open>\<open>DeclineLatch\<close>: a decline is stated once per change.\<close>

definition latch_admit :: "decline \<Rightarrow> decline option \<Rightarrow> decline option \<times> decline option" where
  "latch_admit d latched = (if latched = Some d then (None, latched) else (Some d, Some d))"

section \<open>The drivers\<close>

text \<open>\<open>CAPITAL\<close>, \<open>CAPITAL_ARMED_LOGGED\<close>, \<open>CAPITAL_DECLINE\<close> and \<open>CAPITAL_PENDING_WARP\<close>.\<close>

record capital_statics =
  cap_config :: "capital_config option"
  cap_armed_logged :: bool
  cap_decline :: "decline option"
  cap_pending :: "(int option \<times> bool) option"

definition configure_capital :: "capital_config option \<Rightarrow> capital_statics \<Rightarrow> capital_statics" where
  "configure_capital cfg s = s\<lparr>cap_armed_logged := False, cap_pending := None, cap_config := cfg\<rparr>"

definition capital_state_of :: "'g region_io \<Rightarrow> capital_config \<Rightarrow> 'g \<Rightarrow> capital_state" where
  "capital_state_of io c g =
     \<lparr>cs_burn = flag_on io g (cc_burn_flag c),
      cs_world_burn = map_option (flag_on io g) (cc_world_burn_flag c),
      cs_pre_burn = map_option (flag_on io g) (cc_pre_burn_flag c)\<rparr>"

definition write_opt :: "'g region_io \<Rightarrow> nat option \<Rightarrow> bool option \<Rightarrow> 'g \<Rightarrow> 'g" where
  "write_opt io flag value g =
     (case (flag, value) of (Some f, Some v) \<Rightarrow> set_flag io f v g | _ \<Rightarrow> g)"

definition reads_back :: "'g region_io \<Rightarrow> nat option \<Rightarrow> bool option \<Rightarrow> 'g \<Rightarrow> bool" where
  "reads_back io flag value g =
     (case (flag, value) of (Some f, Some v) \<Rightarrow> flag_on io g f = v | _ \<Rightarrow> True)"

definition apply_capital_writes :: "'g region_io \<Rightarrow> capital_config \<Rightarrow> capital_writes \<Rightarrow> 'g \<Rightarrow> bool \<times> 'g" where
  "apply_capital_writes io c w g =
     (let g1 = write_opt io (cc_pre_burn_flag c) (cw_pre_burn w) g;
          g2 = write_opt io (cc_world_burn_flag c) (cw_world_burn w) g1;
          g3 = write_opt io (Some (cc_burn_flag c)) (cw_burn w) g2
      in (reads_back io (cc_pre_burn_flag c) (cw_pre_burn w) g3
          \<and> reads_back io (cc_world_burn_flag c) (cw_world_burn w) g3
          \<and> reads_back io (Some (cc_burn_flag c)) (cw_burn w) g3, g3))"

definition guarded_desired :: "capital_decision \<Rightarrow> bool option" where
  "guarded_desired d = (case d of Write want \<Rightarrow> Some want | Declined (AlreadyCorrect want) \<Rightarrow> Some want | _ \<Rightarrow> None)"

definition pending_desired ::
  "int option \<Rightarrow> bool option \<Rightarrow> (int option \<times> bool) option \<Rightarrow> (bool option \<times> bool) \<times> (int option \<times> bool) option" where
  "pending_desired play_region position_desired pending =
     (case pending of
        Some (source, warp_desired) \<Rightarrow>
          (case desired_across_warp source play_region warp_desired position_desired of
             (desired, keep) \<Rightarrow> ((desired, keep), if keep then pending else None))
      | None \<Rightarrow> ((position_desired, False), None))"

definition tick_capital :: "'g region_io \<Rightarrow> 'g \<times> capital_statics \<Rightarrow> 'g \<times> capital_statics" where
  "tick_capital io s =
     (case s of (g, st) \<Rightarrow>
       (case cap_config st of
          None \<Rightarrow> (g, st)
        | Some c \<Rightarrow>
            if \<not> game_in_world io g then (g, st)
            else
              let armed = flag_on io g (cc_burn_done_flag c)
              in if \<not> armed then (g, st)
                 else
                   let st1 = st\<lparr>cap_armed_logged := True\<rparr>;
                       play_region = io_play_region io g;
                       position_desired = Option.bind play_region (capital_flag_state c);
                       ((desired, explicit_warp_target), pending) =
                         pending_desired play_region position_desired (cap_pending st);
                       st2 = st1\<lparr>cap_pending := pending\<rparr>;
                       current = capital_state_of io c g;
                       decision = (if explicit_warp_target then capital_decide armed desired (cs_burn current)
                                   else decide_from_position armed desired (cs_burn current) (cs_world_burn current));
                       writes = reconcile_state armed (guarded_desired decision) current
                   in if writes \<noteq> no_writes
                      then (snd (apply_capital_writes io c writes g), st2\<lparr>cap_decline := None\<rparr>)
                      else (case decision of
                              Declined d \<Rightarrow> (g, st2\<lparr>cap_decline := snd (latch_admit d (cap_decline st2))\<rparr>)
                            | Write _ \<Rightarrow> (g, st2))))"

text \<open>The intercept; \<open>None\<close> is the \<open>unreachable!\<close> of the source.\<close>

definition capital_warp_intercept ::
  "'g region_io \<Rightarrow> nat \<Rightarrow> 'g \<times> capital_statics \<Rightarrow> ('g \<times> capital_statics) option" where
  "capital_warp_intercept io warp_target s =
     (case s of (g, st) \<Rightarrow>
       (case cap_config st of
          None \<Rightarrow> Some (g, st)
        | Some c \<Rightarrow>
            let armed = flag_on io g (cc_burn_done_flag c);
                resolvable = io_warp_resolves io warp_target g;
                desired = capital_flag_state_for_warp_target c warp_target resolvable;
                current = capital_state_of io c g;
                st1 = (case desired of
                         Some want \<Rightarrow> st\<lparr>cap_pending := Some (io_play_region io g, want)\<rparr>
                       | None \<Rightarrow> st);
                writes = reconcile_state armed desired current
            in if writes \<noteq> no_writes then Some (snd (apply_capital_writes io c writes g), st1)
               else (case capital_decide armed desired (cs_burn current) of
                       Declined d \<Rightarrow> Some (g, st1)
                     | Write _ \<Rightarrow> None)))"

section \<open>What the writes do\<close>

lemma reconcile_none_iff:
  "reconcile_state armed desired current = no_writes \<longleftrightarrow>
     (armed \<longrightarrow> (case desired of
        None \<Rightarrow> True
      | Some want \<Rightarrow> cs_burn current = want \<and> (\<forall>v. cs_world_burn current = Some v \<longrightarrow> v = want)
                     \<and> (want \<longrightarrow> cs_pre_burn current \<noteq> Some True)))"
  by (auto simp: reconcile_state_def no_writes_def split: option.splits if_splits)

text \<open>The intercept never reaches its \<open>unreachable!\<close>.\<close>

lemma intercept_total: "capital_warp_intercept io t s \<noteq> None"
proof (cases s)
  case (Pair g st)
  have "reconcile_state armed desired current = no_writes \<Longrightarrow>
      \<exists>d. capital_decide armed desired (cs_burn current) = Declined d" for armed desired current
    by (auto simp: reconcile_none_iff capital_decide_def split: option.splits)
  then show ?thesis
    using Pair
    by (force simp: capital_warp_intercept_def Let_def split: option.splits capital_decision.splits)
qed

lemma reconcile_write_agrees:
  "cw_burn (reconcile_state armed desired current) = reconcile_write armed desired (cs_burn current)"
  by (auto simp: reconcile_state_def no_writes_def reconcile_write_def decision_write_def capital_decide_def
      split: option.splits)

definition distinct_flags :: "capital_config \<Rightarrow> bool" where
  "distinct_flags c \<longleftrightarrow>
     distinct ([cc_burn_flag c, cc_burn_done_flag c] @ (case cc_world_burn_flag c of Some f \<Rightarrow> [f] | None \<Rightarrow> [])
               @ (case cc_pre_burn_flag c of Some f \<Rightarrow> [f] | None \<Rightarrow> []))"

text \<open>The three flags agree with the wanted capital.\<close>

definition capital_is :: "'g region_io \<Rightarrow> capital_config \<Rightarrow> bool \<Rightarrow> 'g \<Rightarrow> bool" where
  "capital_is io c want g \<longleftrightarrow>
     flag_on io g (cc_burn_flag c) = want
     \<and> (\<forall>f. cc_world_burn_flag c = Some f \<longrightarrow> flag_on io g f = want)
     \<and> (want \<longrightarrow> (\<forall>f. cc_pre_burn_flag c = Some f \<longrightarrow> \<not> flag_on io g f))"

definition capital_flags :: "capital_config \<Rightarrow> nat set" where
  "capital_flags c = {cc_burn_flag c} \<union> set_option (cc_world_burn_flag c) \<union> set_option (cc_pre_burn_flag c)"

lemma reconcile_none_capital:
  "reconcile_state True (Some want) (capital_state_of io c g) = no_writes \<longleftrightarrow> capital_is io c want g"
  by (auto simp: reconcile_none_iff capital_is_def capital_state_of_def)

context event_flags
begin

lemma apply_writes_converges:
  assumes "up g" "distinct_flags c"
  shows "capital_is io c want (snd (apply_capital_writes io c (reconcile_state True (Some want) (capital_state_of io c g)) g))"
    "fst (apply_capital_writes io c (reconcile_state True (Some want) (capital_state_of io c g)) g)"
  using assms
  by (auto simp: capital_is_def apply_capital_writes_def reconcile_state_def capital_state_of_def write_opt_def
      reads_back_def distinct_flags_def flag_on_set Let_def split: option.splits)

lemma apply_writes_frame:
  assumes "up g"
  shows "up (snd (apply_capital_writes io c w g))"
    "io_play_region io (snd (apply_capital_writes io c w g)) = io_play_region io g"
    "f \<notin> capital_flags c \<Longrightarrow> flag_on io (snd (apply_capital_writes io c w g)) f = flag_on io g f"
  using assms
  by (auto simp: apply_capital_writes_def write_opt_def capital_flags_def flag_on_set Let_def split: option.splits)

end

end
