(* ===== verification/ErCapitalClaims.thy ===== *)
theory ErCapitalClaims
  imports ErCapital
begin

text \<open>
  What the capital reconciler guarantees: it brings the flags to the capital the player stands in, in
  one tick, and then rests; it follows the target of a warp until the player has left; and it never
  burns the world because of where the player happens to stand.
\<close>

definition in_ashen :: "capital_config \<Rightarrow> int \<Rightarrow> bool" where
  "in_ashen c pr \<longleftrightarrow> play_region_bucket pr \<in> set (cc_ashen c)"

definition ashen_target :: "capital_config \<Rightarrow> nat \<Rightarrow> bool" where
  "ashen_target c t \<longleftrightarrow> (\<exists>b. warp_target_bucket t = Some b \<and> b \<in> set (cc_ashen c))"

lemma flag_state_in_ashen: "capital_flag_state c pr = Some (in_ashen c pr)"
  by (simp add: capital_flag_state_def in_ashen_def Let_def)

lemma target_state: "capital_flag_state_for_warp_target c t ok = (if t = 0 \<or> \<not> ok then None else Some (ashen_target c t))"
  by (auto simp: capital_flag_state_for_warp_target_def ashen_target_def split: option.split)

section \<open>One tick\<close>

text \<open>The capital a tick works towards, and whether a pending warp asked for it.\<close>

definition tick_desired :: "capital_config \<Rightarrow> int \<Rightarrow> (int option \<times> bool) option \<Rightarrow> bool \<times> bool" where
  "tick_desired c pr pending =
     (case pending of
        Some (source, want) \<Rightarrow> if source = Some pr then (want, True) else (in_ashen c pr, False)
      | None \<Rightarrow> (in_ashen c pr, False))"

definition kept_pending :: "int \<Rightarrow> (int option \<times> bool) option \<Rightarrow> (int option \<times> bool) option" where
  "kept_pending pr pending =
     (case pending of Some (source, want) \<Rightarrow> if source = Some pr then pending else None | None \<Rightarrow> None)"

lemma pending_desired_eq:
  "pending_desired (Some pr) (capital_flag_state c pr) pending =
     ((Some (fst (tick_desired c pr pending)), snd (tick_desired c pr pending)), kept_pending pr pending)"
  by (auto simp: pending_desired_def desired_across_warp_def flag_state_in_ashen tick_desired_def kept_pending_def
      split: option.split)

text \<open>The position contradicts a readable world-burn flag.\<close>

definition refused :: "'g region_io \<Rightarrow> capital_config \<Rightarrow> bool \<times> bool \<Rightarrow> 'g \<Rightarrow> bool" where
  "refused io c d g \<longleftrightarrow>
     d = (True, False) \<and> \<not> flag_on io g (cc_burn_flag c)
     \<and> (\<exists>f. cc_world_burn_flag c = Some f \<and> \<not> flag_on io g f)"

lemma decision_guarded:
  "guarded_desired
     (if snd d then capital_decide True (Some (fst d)) (flag_on io g (cc_burn_flag c))
      else decide_from_position True (Some (fst d)) (flag_on io g (cc_burn_flag c))
             (map_option (flag_on io g) (cc_world_burn_flag c))) =
   (if refused io c d g then None else Some (fst d))"
  by (cases d) (auto simp: guarded_desired_def capital_decide_def decide_from_position_def refused_def)

lemma tick_capital_game:
  assumes "cap_config st = Some c" "io_play_region io g = Some pr"
  shows "fst (tick_capital io (g, st)) =
    (let d = tick_desired c pr (cap_pending st)
     in if \<not> flag_on io g (cc_burn_done_flag c) \<or> refused io c d g then g
        else let w = reconcile_state True (Some (fst d)) (capital_state_of io c g)
             in if w = no_writes then g else snd (apply_capital_writes io c w g))"
proof (cases "flag_on io g (cc_burn_done_flag c)")
  case True
  obtain want ex where d: "tick_desired c pr (cap_pending st) = (want, ex)" by fastforce
  have none: "reconcile_state True None cur = no_writes" for cur by (simp add: reconcile_state_def)
  note D = decision_guarded [of "(want, ex)" io g c]
  show ?thesis
  proof (cases ex)
    case e: True
    show ?thesis
      using assms True D
      by (auto simp: tick_capital_def game_in_world_def pending_desired_eq Let_def capital_state_of_def d e none
          split: capital_decision.splits)
  next
    case e: False
    show ?thesis
      using assms True D
      by (auto simp: tick_capital_def game_in_world_def pending_desired_eq Let_def capital_state_of_def d e none
          split: capital_decision.splits)
  qed
qed (use assms in \<open>simp add: tick_capital_def game_in_world_def Let_def\<close>)

lemma tick_capital_statics:
  assumes "cap_config st = Some c" "io_play_region io g = Some pr" "flag_on io g (cc_burn_done_flag c)"
  shows "cap_config (snd (tick_capital io (g, st))) = Some c"
    "cap_pending (snd (tick_capital io (g, st))) = kept_pending pr (cap_pending st)"
  using assms
  by (auto simp: tick_capital_def game_in_world_def pending_desired_eq Let_def split: capital_decision.splits)

lemma tick_capital_unarmed:
  "cap_config st = Some c \<Longrightarrow> \<not> (game_in_world io g \<and> flag_on io g (cc_burn_done_flag c)) \<Longrightarrow>
   tick_capital io (g, st) = (g, st)"
  by (auto simp: tick_capital_def Let_def)

lemma tick_capital_writes:
  assumes "cap_config st = Some c"
  shows "fst (tick_capital io (g, st)) = g \<or> (\<exists>w. fst (tick_capital io (g, st)) = snd (apply_capital_writes io c w g))"
proof (cases "io_play_region io g")
  case None
  then show ?thesis using tick_capital_unarmed [OF assms, of io g] by (simp add: game_in_world_def)
next
  case (Some pr)
  show ?thesis unfolding tick_capital_game [OF assms Some] Let_def by auto
qed

lemma intercept_armed:
  assumes "cap_config st = Some c" "flag_on io g (cc_burn_done_flag c)" "t \<noteq> 0" "io_warp_resolves io t g"
  shows "capital_warp_intercept io t (g, st) =
    (let w = reconcile_state True (Some (ashen_target c t)) (capital_state_of io c g)
     in Some (if w = no_writes then g else snd (apply_capital_writes io c w g),
              st\<lparr>cap_pending := Some (io_play_region io g, ashen_target c t)\<rparr>))"
  using assms intercept_total [of io t "(g, st)"]
  by (auto simp: capital_warp_intercept_def target_state Let_def split: capital_decision.splits)

context event_flags
begin

lemma writes_reach:
  fixes want :: bool
  assumes "up g" "distinct_flags c"
  defines "w \<equiv> reconcile_state True (Some want) (capital_state_of io c g)"
  shows "capital_is io c want (if w = no_writes then g else snd (apply_capital_writes io c w g))"
proof (cases "w = no_writes")
  case True
  then show ?thesis unfolding w_def by (simp add: reconcile_none_capital)
next
  case False
  then show ?thesis using apply_writes_converges(1) [OF assms(1,2)] unfolding w_def by simp
qed

lemma done_flag_framed: "distinct_flags c \<Longrightarrow> cc_burn_done_flag c \<notin> capital_flags c"
  by (auto simp: distinct_flags_def capital_flags_def split: option.splits)

lemma settled_tick:
  assumes "cap_config st = Some c" "io_play_region io g = Some pr" "capital_is io c (fst (tick_desired c pr (cap_pending st))) g"
  shows "fst (tick_capital io (g, st)) = g"
  using assms(3) reconcile_none_capital [of "fst (tick_desired c pr (cap_pending st))" io c g]
  by (simp add: tick_capital_game [OF assms(1,2)] Let_def)

lemma tick_capital_converges:
  assumes "up g" "distinct_flags c" "cap_config st = Some c" "flag_on io g (cc_burn_done_flag c)"
    and "io_play_region io g = Some pr" "\<not> refused io c (tick_desired c pr (cap_pending st)) g"
  shows "capital_is io c (fst (tick_desired c pr (cap_pending st))) (fst (tick_capital io (g, st)))"
  using writes_reach [OF assms(1,2)] assms(4,6)
  by (simp add: tick_capital_game [OF assms(3,5)] Let_def)

lemma tick_capital_frame:
  assumes "up g" "cap_config st = Some c"
  shows "f \<notin> capital_flags c \<Longrightarrow> flag_on io (fst (tick_capital io (g, st))) f = flag_on io g f"
    "up (fst (tick_capital io (g, st)))"
    "io_play_region io (fst (tick_capital io (g, st))) = io_play_region io g"
  using tick_capital_writes [OF assms(2), of io g] apply_writes_frame [OF assms(1)] assms(1)
  by auto

end

text \<open>
  C28: The capital follows the player and then rests. Once the burn is done, with the flag manager up
  and no warp pending from this region, one tick leaves the map selector and the world-burn flag equal to
  whether the player stands in the Ashen capital, and the pre-burn flag clear there; no flag but these
  three is touched, and the next tick changes nothing. The only exception is the guard: on Ashen ground
  with the selector off and a readable, clear world-burn flag, the tick writes nothing at all.
\<close>

theorem capital_converges:
  assumes "event_flags io up" "up g" "distinct_flags c" "cap_config st = Some c"
    and "flag_on io g (cc_burn_done_flag c)" "io_play_region io g = Some pr"
    and "\<forall>want. cap_pending st \<noteq> Some (Some pr, want)"
  shows "(case tick_capital io (g, st) of (g', st') \<Rightarrow>
            (if in_ashen c pr \<and> \<not> flag_on io g (cc_burn_flag c)
                \<and> (\<exists>f. cc_world_burn_flag c = Some f \<and> \<not> flag_on io g f)
             then g' = g
             else capital_is io c (in_ashen c pr) g')
            \<and> (\<forall>f. f \<notin> capital_flags c \<longrightarrow> flag_on io g' f = flag_on io g f)
            \<and> fst (tick_capital io (g', st')) = g')"
proof -
  obtain g' st' where t: "tick_capital io (g, st) = (g', st')" by fastforce
  have d: "tick_desired c pr (cap_pending st) = (in_ashen c pr, False)"
    using assms(7) by (auto simp: tick_desired_def split: option.split)
  have st': "cap_config st' = Some c" "cap_pending st' = None"
    using tick_capital_statics [OF assms(4,6,5)] assms(7) by (auto simp: t kept_pending_def split: option.splits)
  have d': "tick_desired c pr (cap_pending st') = (in_ashen c pr, False)"
    by (simp add: st' tick_desired_def)
  have frame: "\<And>f. f \<notin> capital_flags c \<Longrightarrow> flag_on io g' f = flag_on io g f" "io_play_region io g' = Some pr"
    using event_flags.tick_capital_frame [OF assms(1,2,4)] assms(6) by (simp_all add: t)
  show ?thesis
  proof (cases "refused io c (in_ashen c pr, False) g")
    case True
    then have "g' = g"
      using tick_capital_game [OF assms(4,6)] by (simp add: t d Let_def)
    moreover have "fst (tick_capital io (g', st')) = g'"
      using True tick_capital_game [OF st'(1) assms(6)] by (simp add: \<open>g' = g\<close> d' Let_def)
    ultimately show ?thesis using True by (auto simp: t refused_def)
  next
    case False
    then have c: "capital_is io c (in_ashen c pr) g'"
      using event_flags.tick_capital_converges [OF assms(1-6)] by (simp add: d t)
    then have "fst (tick_capital io (g', st')) = g'"
      using event_flags.settled_tick [OF assms(1) st'(1) frame(2)] by (simp add: d')
    with c False frame(1) show ?thesis by (auto simp: t refused_def)
  qed
qed

definition leyndell :: capital_config where
  "leyndell = \<lparr>cc_burn_flag = 9116, cc_burn_done_flag = 118, cc_ashen = [11050, 19000], cc_royal = [11000],
               cc_release_rows = [], cc_world_burn_flag = Some 300, cc_pre_burn_flag = Some 302\<rparr>"

definition statics_of :: "capital_config option \<Rightarrow> capital_statics" where
  "statics_of cfg = configure_capital cfg \<lparr>cap_config = None, cap_armed_logged = True, cap_decline = None, cap_pending = None\<rparr>"

definition capital_world :: "nat list \<Rightarrow> int \<Rightarrow> er_world" where
  "capital_world on pr = \<lparr>w_flags = Some (\<lambda>f. f \<in> set on), w_region = Some pr, w_warps = []\<rparr>"

lemma capital_world_simps:
  "manager_up (capital_world on pr)" "io_play_region world_io (capital_world on pr) = Some pr"
  "flag_on world_io (capital_world on pr) f \<longleftrightarrow> f \<in> set on"
  by (simp_all add: manager_up_def capital_world_def world_io_def flag_on_def get_event_flag_def)

lemma statics_of_simps:
  "cap_config (statics_of cfg) = cfg" "cap_pending (statics_of cfg) = None"
  by (simp_all add: statics_of_def configure_capital_def)

lemma leyndell_simps:
  "distinct_flags leyndell" "cc_burn_flag leyndell = 9116" "cc_burn_done_flag leyndell = 118"
  "cc_world_burn_flag leyndell = Some 300" "cc_pre_burn_flag leyndell = Some 302"
  by (simp_all add: leyndell_def distinct_flags_def)

lemma leyndell_ground:
  "in_ashen leyndell 1105091" "\<not> in_ashen leyndell 1100010" "ashen_target leyndell 11051954"
  "\<not> ashen_target leyndell 11001954"
  by (simp_all add: in_ashen_def leyndell_def play_region_bucket_def RAW_PLAY_REGION_BUCKETS_def
      ashen_target_def warp_target_bucket_def)

lemma capital_converges_witness:
  "(let tick = (\<lambda>on pr. fst (tick_capital world_io (capital_world on pr, statics_of (Some leyndell))))
    in capital_is world_io leyndell False (tick [118, 9116, 300] 1100010)
       \<and> capital_is world_io leyndell True (tick [118, 300, 302] 1105091)
       \<and> tick [118, 302] 1105091 = capital_world [118, 302] 1105091)"
proof -
  have "capital_is world_io leyndell False
      (fst (tick_capital world_io (capital_world [118, 9116, 300] 1100010, statics_of (Some leyndell))))"
    using capital_converges [OF man.event_flags_axioms capital_world_simps(1) leyndell_simps(1) statics_of_simps(1),
        of "[118, 9116, 300]" 1100010 1100010]
    by (auto simp: capital_world_simps statics_of_simps leyndell_simps leyndell_ground)
  moreover have "capital_is world_io leyndell True
      (fst (tick_capital world_io (capital_world [118, 300, 302] 1105091, statics_of (Some leyndell))))"
    using capital_converges [OF man.event_flags_axioms capital_world_simps(1) leyndell_simps(1) statics_of_simps(1),
        of "[118, 300, 302]" 1105091 1105091]
    by (auto simp: capital_world_simps statics_of_simps leyndell_simps leyndell_ground)
  moreover have "fst (tick_capital world_io (capital_world [118, 302] 1105091, statics_of (Some leyndell)))
      = capital_world [118, 302] 1105091"
    using capital_converges [OF man.event_flags_axioms capital_world_simps(1) leyndell_simps(1) statics_of_simps(1),
        of "[118, 302]" 1105091 1105091]
    by (auto simp: capital_world_simps statics_of_simps leyndell_simps leyndell_ground)
  ultimately show ?thesis by (simp add: Let_def)
qed

section \<open>A warp\<close>

text \<open>
  C29: The target of a warp decides, and a stale position cannot undo it. Once the burn is done and
  the flag manager is up, the intercept of a resolvable target leaves the three flags at the capital that
  target encodes, changes no other flag, never reaches its \<open>unreachable!\<close>, and is stable: any
  number of ticks at the region the player warps from leave the game exactly as the intercept left it.
\<close>

theorem warp_target_wins:
  assumes "event_flags io up" "up g" "distinct_flags c" "cap_config st = Some c"
    and "flag_on io g (cc_burn_done_flag c)" "t \<noteq> 0" "io_warp_resolves io t g"
  shows "\<exists>g' st'. capital_warp_intercept io t (g, st) = Some (g', st')
           \<and> capital_is io c (ashen_target c t) g'
           \<and> (\<forall>f. f \<notin> capital_flags c \<longrightarrow> flag_on io g' f = flag_on io g f)
           \<and> (\<forall>n. fst ((tick_capital io ^^ n) (g', st')) = g')"
proof -
  define w where "w = reconcile_state True (Some (ashen_target c t)) (capital_state_of io c g)"
  define g' where "g' = (if w = no_writes then g else snd (apply_capital_writes io c w g))"
  define st' where "st' = st\<lparr>cap_pending := Some (io_play_region io g, ashen_target c t)\<rparr>"
  have i: "capital_warp_intercept io t (g, st) = Some (g', st')"
    using intercept_armed [OF assms(4-7)] by (simp add: Let_def w_def g'_def st'_def)
  have cap: "capital_is io c (ashen_target c t) g'"
    unfolding w_def g'_def by (rule event_flags.writes_reach [OF assms(1-3)])
  have frame: "\<And>f. f \<notin> capital_flags c \<Longrightarrow> flag_on io g' f = flag_on io g f"
    "io_play_region io g' = io_play_region io g"
    using event_flags.apply_writes_frame [OF assms(1,2)] by (simp_all add: g'_def)
  have armed: "flag_on io g' (cc_burn_done_flag c)"
    using frame(1) event_flags.done_flag_framed [OF assms(1,3)] assms(5) by simp
  have "fst ((tick_capital io ^^ n) (g', st')) = g'
      \<and> cap_config (snd ((tick_capital io ^^ n) (g', st'))) = Some c
      \<and> cap_pending (snd ((tick_capital io ^^ n) (g', st'))) = Some (io_play_region io g, ashen_target c t)" for n
  proof (induction n)
    case 0
    then show ?case by (simp add: st'_def assms(4))
  next
    case (Suc n)
    obtain st1 where s: "(tick_capital io ^^ n) (g', st') = (g', st1)"
      "cap_config st1 = Some c" "cap_pending st1 = Some (io_play_region io g, ashen_target c t)"
      using Suc.IH by (cases "(tick_capital io ^^ n) (g', st')") auto
    show ?case
    proof (cases "io_play_region io g")
      case None
      then show ?thesis
        using tick_capital_unarmed [OF s(2), of io g'] s frame(2) by (simp add: game_in_world_def)
    next
      case (Some pr)
      then have d: "tick_desired c pr (cap_pending st1) = (ashen_target c t, True)"
        by (simp add: s tick_desired_def)
      show ?thesis
        using event_flags.settled_tick [OF assms(1) s(2), of g' pr] cap frame(2) Some d
          tick_capital_statics [OF s(2) _ armed, of pr] s
        by (simp add: kept_pending_def)
    qed
  qed
  then show ?thesis using i cap frame(1) by blast
qed

lemma warp_target_wins_witness:
  "(\<exists>g' st'. capital_warp_intercept world_io 11001954 (capital_world [118, 300, 9116] 1105091, statics_of (Some leyndell))
       = Some (g', st') \<and> capital_is world_io leyndell False g' \<and> fst ((tick_capital world_io ^^ 60) (g', st')) = g')
   \<and> (\<exists>g' st'. capital_warp_intercept world_io 11051954 (capital_world [118] 1100010, statics_of (Some leyndell))
       = Some (g', st') \<and> capital_is world_io leyndell True g' \<and> fst ((tick_capital world_io ^^ 60) (g', st')) = g')"
proof -
  have r: "io_warp_resolves world_io t g" for t g by (simp add: world_io_def)
  have "cc_burn_done_flag leyndell \<in> set [118, 300, 9116]" "cc_burn_done_flag leyndell \<in> set [118]"
    by (simp_all add: leyndell_simps)
  note w = warp_target_wins [OF man.event_flags_axioms capital_world_simps(1) leyndell_simps(1) statics_of_simps(1),
      unfolded capital_world_simps(3), OF this(1) _ r, of 11001954 1105091]
    warp_target_wins [OF man.event_flags_axioms capital_world_simps(1) leyndell_simps(1) statics_of_simps(1),
      unfolded capital_world_simps(3), OF this(2) _ r, of 11051954 1100010]
  have "ashen_target leyndell 11001954 = False" "ashen_target leyndell 11051954 = True"
    by (simp_all add: leyndell_ground)
  with w show ?thesis by (metis zero_neq_numeral)
qed

section \<open>Sessions\<close>

datatype 'g capital_event = Cap_Tick | Cap_Warp nat | Cap_World "'g \<Rightarrow> 'g"

fun capital_step :: "'g region_io \<Rightarrow> 'g capital_event \<Rightarrow> 'g \<times> capital_statics \<Rightarrow> ('g \<times> capital_statics) option" where
  "capital_step io Cap_Tick s = Some (tick_capital io s)"
| "capital_step io (Cap_Warp t) s = capital_warp_intercept io t s"
| "capital_step io (Cap_World f) s = Some (f (fst s), snd s)"

fun capital_run :: "'g region_io \<Rightarrow> 'g capital_event list \<Rightarrow> 'g \<times> capital_statics \<Rightarrow> ('g \<times> capital_statics) option" where
  "capital_run io [] s = Some s"
| "capital_run io (e # es) s = Option.bind (capital_step io e s) (capital_run io es)"

text \<open>No warp to an Ashen target is pending.\<close>

definition no_ashen_intent :: "capital_config \<Rightarrow> capital_statics \<Rightarrow> bool" where
  "no_ashen_intent c st \<longleftrightarrow> cap_config st = Some c \<and> (\<forall>src. cap_pending st \<noteq> Some (src, True))"

lemma tick_keeps_intent: "no_ashen_intent c st \<Longrightarrow> no_ashen_intent c (snd (tick_capital io (g, st)))"
proof -
  assume h: "no_ashen_intent c st"
  then have cfg: "cap_config st = Some c" by (simp add: no_ashen_intent_def)
  show ?thesis
  proof (cases "io_play_region io g = None \<or> \<not> flag_on io g (cc_burn_done_flag c)")
    case True
    then show ?thesis using tick_capital_unarmed [OF cfg, of io g] h by (auto simp: game_in_world_def)
  next
    case False
    then obtain pr where "io_play_region io g = Some pr" "flag_on io g (cc_burn_done_flag c)" by auto
    with tick_capital_statics [OF cfg this] h show ?thesis
      by (auto simp: no_ashen_intent_def kept_pending_def split: option.splits if_splits)
  qed
qed

lemma intercept_keeps_intent:
  "no_ashen_intent c st \<Longrightarrow> \<not> ashen_target c t \<Longrightarrow> capital_warp_intercept io t (g, st) = Some (g', st') \<Longrightarrow>
   no_ashen_intent c st'"
  by (auto simp: capital_warp_intercept_def no_ashen_intent_def target_state Let_def
      split: if_splits capital_decision.splits)

lemma run_keeps_intent:
  assumes "no_ashen_intent c (snd s)" "\<forall>t. Cap_Warp t \<in> set es \<longrightarrow> \<not> ashen_target c t"
  shows "\<exists>g st. capital_run io es s = Some (g, st) \<and> no_ashen_intent c st"
  using assms
proof (induction es arbitrary: s)
  case Nil
  then show ?case by (cases s) simp
next
  case (Cons e es)
  obtain g st where s: "s = (g, st)" by fastforce
  have "\<exists>g1 st1. capital_step io e s = Some (g1, st1) \<and> no_ashen_intent c st1"
  proof (cases e)
    case Cap_Tick
    then show ?thesis using tick_keeps_intent [of c st io g] Cons.prems(1) by (cases "tick_capital io (g, st)") (simp add: s)
  next
    case (Cap_Warp t)
    obtain g1 st1 where "capital_warp_intercept io t (g, st) = Some (g1, st1)"
      using intercept_total [of io t "(g, st)"] by auto
    with Cap_Warp Cons.prems s show ?thesis by (auto intro: intercept_keeps_intent)
  next
    case (Cap_World f)
    with Cons.prems s show ?thesis by simp
  qed
  then obtain g1 st1 where "capital_step io e s = Some (g1, st1)" "no_ashen_intent c st1" by blast
  with Cons.IH [of "(g1, st1)"] Cons.prems(2) show ?case by simp
qed

lemma burn_needs_corroboration:
  assumes ev: "event_flags io up" and d: "distinct_flags c" and n: "no_ashen_intent c st"
    and on: "flag_on io (fst (tick_capital io (g, st))) (cc_burn_flag c)" and off: "\<not> flag_on io g (cc_burn_flag c)"
  shows "flag_on io g (cc_burn_done_flag c) \<and> (\<exists>pr. io_play_region io g = Some pr \<and> in_ashen c pr)
     \<and> (\<forall>f. cc_world_burn_flag c = Some f \<longrightarrow> flag_on io g f)"
proof -
  have cfg: "cap_config st = Some c" using n by (simp add: no_ashen_intent_def)
  have armed: "game_in_world io g \<and> flag_on io g (cc_burn_done_flag c)"
    using tick_capital_unarmed [OF cfg, of io g] on off by (metis fst_conv)
  then obtain pr where pr: "io_play_region io g = Some pr" by (auto simp: game_in_world_def)
  have up: "up g" using event_flags.flag_on_down [OF ev] armed by blast
  let ?d = "tick_desired c pr (cap_pending st)"
  have r: "\<not> refused io c ?d g"
    using on off armed by (auto simp: tick_capital_game [OF cfg pr] Let_def)
  have "capital_is io c (fst ?d) (fst (tick_capital io (g, st)))"
    using event_flags.tick_capital_converges [OF ev up d cfg _ pr r] armed by simp
  then have "fst ?d" using on by (simp add: capital_is_def)
  then have "?d = (True, False) \<and> in_ashen c pr"
    using n by (auto simp: tick_desired_def no_ashen_intent_def split: option.splits if_splits)
  then show ?thesis using r off armed pr by (auto simp: refused_def)
qed

text \<open>
  C10: Standing somewhere never burns the world. Over every session of ticks, intercepted warps and
  changes the game makes by itself, from a fresh configuration, in which no warp targeted the Ashen
  capital, no intercept fails, and a tick that turns the map selector on does so only behind the
  burn-done latch, on Ashen ground, and with the world-burn flag (where the seed names one) already set.
\<close>

theorem capital_never_burns_by_position:
  assumes "event_flags io up" "distinct_flags c"
    and "\<forall>t. Cap_Warp t \<in> set es \<longrightarrow> \<not> ashen_target c t"
  shows "\<exists>g st. capital_run io es (g0, configure_capital (Some c) st0) = Some (g, st) \<and>
           (flag_on io (fst (tick_capital io (g, st))) (cc_burn_flag c) \<and> \<not> flag_on io g (cc_burn_flag c) \<longrightarrow>
              flag_on io g (cc_burn_done_flag c) \<and> (\<exists>pr. io_play_region io g = Some pr \<and> in_ashen c pr)
              \<and> (\<forall>f. cc_world_burn_flag c = Some f \<longrightarrow> flag_on io g f))"
proof -
  have "no_ashen_intent c (configure_capital (Some c) st0)"
    by (simp add: no_ashen_intent_def configure_capital_def)
  then obtain g st where r: "capital_run io es (g0, configure_capital (Some c) st0) = Some (g, st)"
    and n: "no_ashen_intent c st"
    using run_keeps_intent [of c "(g0, configure_capital (Some c) st0)" es io] assms(3) by auto
  show ?thesis
    using r burn_needs_corroboration [OF assms(1,2) n] by blast
qed

lemma capital_never_burns_by_position_witness:
  "(let es = [Cap_Tick, Cap_Warp 11001954, Cap_Tick, Cap_World (\<lambda>_. capital_world [118] 1105091), Cap_Tick];
        s0 = (capital_world [118] 1100010, statics_of (Some leyndell))
    in \<exists>g st. capital_run world_io es s0 = Some (g, st)
         \<and> \<not> (flag_on world_io (fst (tick_capital world_io (capital_world [118] 1105091, statics_of (Some leyndell)))) 9116)
         \<and> (flag_on world_io (fst (tick_capital world_io (g, st))) 9116 \<and> \<not> flag_on world_io g 9116 \<longrightarrow>
              flag_on world_io g 300))"
proof -
  let ?es = "[Cap_Tick, Cap_Warp 11001954, Cap_Tick, Cap_World (\<lambda>_. capital_world [118] 1105091), Cap_Tick]"
  have no: "\<forall>t. Cap_Warp t \<in> set ?es \<longrightarrow> \<not> ashen_target leyndell t"
    by (auto simp: leyndell_ground)
  have "\<not> flag_on world_io (fst (tick_capital world_io (capital_world [118] 1105091, statics_of (Some leyndell)))) 9116"
    using capital_never_burns_by_position [OF man.event_flags_axioms leyndell_simps(1), of "[]" "capital_world [118] 1105091"
        "\<lparr>cap_config = None, cap_armed_logged = True, cap_decline = None, cap_pending = None\<rparr>"]
    by (simp add: leyndell_simps capital_world_simps statics_of_def [symmetric])
  then show ?thesis
    using capital_never_burns_by_position [OF man.event_flags_axioms leyndell_simps(1) no, of "capital_world [118] 1100010"
        "\<lparr>cap_config = None, cap_armed_logged = True, cap_decline = None, cap_pending = None\<rparr>"]
    by (auto simp: leyndell_simps Let_def statics_of_def [symmetric] simp del: capital_run.simps)
qed

end
