(* ===== verification/SeedIds.thy ===== *)
theory SeedIds
  imports Prelude
begin

text \<open>
  The registry of seed ids read by the crash reporter (\<open>crates/shared/src/seed_ids.rs\<close>): a fixed
  open-addressed table of 64-bit slots that hold a generation and an id, cleared in constant time by a
  new generation. The statics are a record; an array is a function of the index, always masked below
  the capacity. Accesses are modelled one after the other, so a compare-and-exchange succeeds.
\<close>

unbundle bit_operations_syntax

type_synonym w32 = "32 word"
type_synonym w64 = "64 word"

definition SRC_ENEMY_DROP_ROLL :: w32 where "SRC_ENEMY_DROP_ROLL = 1"
definition SRC_SHOP :: w32 where "SRC_SHOP = 2"
definition SRC_MINE_MATERIAL_ROLL :: w32 where "SRC_MINE_MATERIAL_ROLL = 4"

definition CAP :: nat where "CAP = 8192"
definition CAP_MASK :: nat where "CAP_MASK = 8191"

record registry =
  sl :: "nat \<Rightarrow> w64"
  sr :: "nat \<Rightarrow> w32"
  gen :: w32
  inserted :: nat
  dropped :: nat

definition registry_init :: registry where
  "registry_init = \<lparr>sl = (\<lambda>_. 0), sr = (\<lambda>_. 0), gen = 1, inserted = 0, dropped = 0\<rparr>"

definition home :: "w32 \<Rightarrow> nat" where
  "home full_id = unat (drop_bit 19 (full_id * 0x9E3779B1)) AND CAP_MASK"

definition slot_word :: "w32 \<Rightarrow> w32 \<Rightarrow> w64" where
  "slot_word g full_id = push_bit 32 (ucast g) OR ucast full_id"

fun record_probe :: "nat \<Rightarrow> nat \<Rightarrow> w64 \<Rightarrow> w32 \<Rightarrow> registry \<Rightarrow> registry" where
  "record_probe 0 h want src s = s\<lparr>dropped := dropped s + 1\<rparr>"
| "record_probe (Suc n) h want src s =
     (let cur = sl s h
      in if cur = want then s\<lparr>sr := (sr s)(h := sr s h OR src)\<rparr>
         else if drop_bit 32 cur \<noteq> ucast (gen s)
         then s\<lparr>sl := (sl s)(h := want), sr := (sr s)(h := src), inserted := inserted s + 1\<rparr>
         else record_probe n ((h + 1) AND CAP_MASK) want src s)"

definition record_id :: "w32 \<Rightarrow> w32 \<Rightarrow> registry \<Rightarrow> registry" where
  "record_id full_id src s =
     (if full_id = 0 \<or> src = 0 then s
      else record_probe CAP (home full_id) (slot_word (gen s) full_id) src s)"

fun lookup_probe :: "nat \<Rightarrow> nat \<Rightarrow> w64 \<Rightarrow> registry \<Rightarrow> w32 option" where
  "lookup_probe 0 h want s = None"
| "lookup_probe (Suc n) h want s =
     (let cur = sl s h
      in if cur = want then Some (sr s h)
         else if cur = 0 then None
         else lookup_probe n ((h + 1) AND CAP_MASK) want s)"

definition lookup_id :: "w32 \<Rightarrow> registry \<Rightarrow> w32 option" where
  "lookup_id full_id s =
     (if full_id = 0 then None
      else lookup_probe CAP (home full_id) (slot_word (gen s) full_id) s)"

definition clear_ids :: "registry \<Rightarrow> registry" where
  "clear_ids s = s\<lparr>gen := gen s + 1, inserted := 0, dropped := 0\<rparr>"

definition registered :: "registry \<Rightarrow> nat" where
  "registered s = inserted s"

section \<open>Reading a value\<close>

definition decode_band :: "w32 \<Rightarrow> (string \<times> w32) option" where
  "decode_band low32 =
     (let row = low32 AND 0x0FFFFFFF; band = low32 AND 0xF0000000
      in if row = 0 then None
         else if band = 0x10000000 then Some (''protector'', row)
         else if band = 0x20000000 then Some (''accessory'', row)
         else if band = 0x40000000 then Some (''goods'', row)
         else if band = 0x80000000 then Some (''gem/ash-of-war'', row)
         else None)"

definition src_names :: "w32 \<Rightarrow> string" where
  "src_names src =
     (let names = (if src AND SRC_ENEMY_DROP_ROLL \<noteq> 0 then [''enemyDropRoll''] else [])
                  @ (if src AND SRC_SHOP \<noteq> 0 then [''shop (shopPreviewGoods/shopInfiniteStock)''] else [])
                  @ (if src AND SRC_MINE_MATERIAL_ROLL \<noteq> 0 then [''mineMaterialRoll''] else [])
      in if names = [] then ''unknown bits '' @ show_hex0x (unat src) else str_join '' + '' names)"

text \<open>\<open>format!("{:#010x}")\<close>: at least eight digits.\<close>

definition hex_010 :: "w32 \<Rightarrow> string" where
  "hex_010 x = (let d = show_hex (unat x) in ''0x'' @ replicate (8 - length d) (CHR ''0'') @ d)"

definition newline :: string where "newline = [CHR 0x0A]"

definition annotate_value :: "string \<Rightarrow> w64 \<Rightarrow> registry \<Rightarrow> string option" where
  "annotate_value what value s =
     (let low = ucast value :: w32; band = decode_band low; hit = lookup_id low s;
          start = ''seed-ids: '' @ what @ '' low half '' @ hex_010 low
      in case band of
           Some (cat, row) \<Rightarrow>
             (case hit of
                Some src \<Rightarrow>
                  Some (start @ '' = '' @ cat @ '' FullID row '' @ show_nat (unat row)
                        @ ''; PRESENT in this seed's tables: '' @ src_names src
                        @ '' -- an id OUR writers handle sitting inside a pointer-shaped value is the #351 shape''
                        @ newline)
              | None \<Rightarrow>
                  Some (start @ '' = '' @ cat @ '' FullID row '' @ show_nat (unat row)
                        @ ''; not in any table this seed recorded (a band match alone is NOT evidence -- 1/16 of all u32s are in a band)''
                        @ newline))
         | None \<Rightarrow>
             (case hit of
                Some src \<Rightarrow>
                  Some (start @ '' is not in a FullID band but MATCHES a recorded id: '' @ src_names src @ newline)
              | None \<Rightarrow> None))"

definition annotate_fault :: "w64 \<Rightarrow> registry \<Rightarrow> string" where
  "annotate_fault addr s =
     (if registered s = 0
      then ''seed-ids: no seed ids recorded this session (never connected, or the seed's enemyDropRoll/shop tables were all empty)''
           @ newline
      else
        (case annotate_value ''fault target'' addr s of
           Some line \<Rightarrow> line
         | None \<Rightarrow> ''seed-ids: fault target low half '' @ hex_010 (ucast addr) @ '' is not id-shaped; ''
                   @ show_nat (registered s) @ '' id(s) registered'' @ newline)
        @ (if dropped s \<noteq> 0
           then ''seed-ids: WARNING -- the registry FILLED and dropped '' @ show_nat (dropped s)
                @ '' id(s); a miss above can be a false miss'' @ newline
           else []))"

fun annotate_registers_loop :: "(string \<times> w64) list \<Rightarrow> w32 list \<Rightarrow> registry \<Rightarrow> string" where
  "annotate_registers_loop [] seen s = []"
| "annotate_registers_loop ((name, v) # regs) seen s =
     (if ucast v \<in> set seen then annotate_registers_loop regs seen s
      else case annotate_value (''register '' @ name) v s of
        Some line \<Rightarrow> line @ annotate_registers_loop regs (ucast v # seen) s
      | None \<Rightarrow> annotate_registers_loop regs seen s)"

definition annotate_registers :: "(string \<times> w64) list \<Rightarrow> registry \<Rightarrow> string" where
  "annotate_registers regs s = annotate_registers_loop regs [] s"

section \<open>Slots and probes\<close>

lemma mask_mod: "(n :: nat) AND CAP_MASK = n mod CAP"
proof -
  have "n AND mask 13 = n mod 2 ^ 13"
    by (simp only: take_bit_eq_mask [symmetric] take_bit_nat_def)
  moreover have "mask 13 = (8191 :: nat)" by (simp add: mask_eq_exp_minus_1)
  ultimately show ?thesis by (simp add: CAP_MASK_def CAP_def)
qed

lemma cap_pos: "0 < CAP" by (simp add: CAP_def)

lemma home_less: "home x < CAP"
  by (simp add: home_def mask_mod cap_pos)

lemma slot_word_gen: "drop_bit 32 (slot_word g x) = (ucast g :: w64)"
  by (rule bit_word_eqI) (auto simp: slot_word_def bit_simps dest: bit_imp_le_length)

lemma slot_word_inj: "slot_word g x = slot_word g y \<Longrightarrow> x = y"
proof (rule bit_word_eqI)
  fix n
  assume e: "slot_word g x = slot_word g y" and n: "n < LENGTH(32)"
  have "bit (slot_word g z) n = bit z n" for z
    using n by (simp add: slot_word_def bit_simps)
  with e show "bit x n = bit y n" by metis
qed

text \<open>The \<open>i\<close>-th slot probed for an id.\<close>

definition probe :: "w32 \<Rightarrow> nat \<Rightarrow> nat" where
  "probe x i = (home x + i) mod CAP"

lemma probe_Suc: "(probe x i + 1) AND CAP_MASK = probe x (Suc i)"
  by (simp add: probe_def mask_mod mod_Suc_eq)

lemma probe_0: "probe x 0 = home x"
  by (simp add: probe_def home_less)

lemma probe_less: "probe x i < CAP"
  by (simp add: probe_def cap_pos)

lemma probe_surj: "h < CAP \<Longrightarrow> \<exists>i < CAP. probe x i = h"
proof (cases "home x \<le> h")
  case True
  then show "h < CAP \<Longrightarrow> ?thesis"
    by (intro exI [of _ "h - home x"]) (simp add: probe_def)
next
  case False
  then show "h < CAP \<Longrightarrow> ?thesis"
    using home_less [of x] by (intro exI [of _ "h + CAP - home x"]) (simp add: probe_def)
qed

lemma probe_inj: "i < CAP \<Longrightarrow> j < CAP \<Longrightarrow> probe x i = probe x j \<Longrightarrow> i = j"
proof -
  have "i = j" if "i \<le> j" "j < CAP" "probe x i = probe x j" for i j
  proof -
    from that(3) have "CAP dvd (home x + j) - (home x + i)"
      unfolding probe_def by (metis mod_eq_dvd_iff_nat add_le_mono that(1) le_refl)
    then have "CAP dvd j - i" by simp
    with that(1,2) show ?thesis by (metis diff_is_0_eq' dvd_imp_le le_antisym less_imp_diff_less not_le zero_less_diff diff_self_eq_0)
  qed
  then show "i < CAP \<Longrightarrow> j < CAP \<Longrightarrow> probe x i = probe x j \<Longrightarrow> i = j"
    by (metis nat_le_linear)
qed

section \<open>The invariant\<close>

definition current :: "registry \<Rightarrow> nat \<Rightarrow> bool" where
  "current s h \<longleftrightarrow> drop_bit 32 (sl s h) = (ucast (gen s) :: w64)"

definition holds :: "registry \<Rightarrow> w32 \<Rightarrow> nat \<Rightarrow> bool" where
  "holds s x h \<longleftrightarrow> h < CAP \<and> sl s h = slot_word (gen s) x"

text \<open>The first slot of an id's path that is free or holds it, after \<open>i\<close> slots of others.\<close>

definition others_upto :: "registry \<Rightarrow> w32 \<Rightarrow> nat \<Rightarrow> bool" where
  "others_upto s x i \<longleftrightarrow> (\<forall>j < i. current s (probe x j) \<and> sl s (probe x j) \<noteq> slot_word (gen s) x)"

definition table_ok :: "registry \<Rightarrow> bool" where
  "table_ok s \<longleftrightarrow>
     gen s \<noteq> 0
     \<and> (\<forall>h < CAP. current s h \<longrightarrow> (\<exists>x. x \<noteq> 0 \<and> holds s x h))
     \<and> (\<forall>x i. i < CAP \<and> holds s x (probe x i) \<longrightarrow> others_upto s x i)
     \<and> inserted s = card {h. h < CAP \<and> current s h}
     \<and> (dropped s \<noteq> 0 \<longrightarrow> (\<forall>h < CAP. current s h))"

lemma holds_current: "holds s x h \<Longrightarrow> current s h"
  by (simp add: holds_def current_def slot_word_gen)

lemma ucast_inj: "(ucast (a :: w32) :: w64) = ucast b \<longleftrightarrow> a = b"
proof
  assume e: "(ucast a :: w64) = ucast b"
  show "a = b"
  proof (rule bit_word_eqI)
    fix n
    assume "n < LENGTH(32)"
    then have "bit (ucast c :: w64) n = bit c n" for c :: w32 by (simp add: bit_simps)
    with e show "bit a n = bit b n" by metis
  qed
qed simp

lemma zero_not_current: "gen s \<noteq> 0 \<Longrightarrow> sl s h = 0 \<Longrightarrow> \<not> current s h"
  using ucast_inj [of 0 "gen s"] by (simp add: current_def)

lemma holds_unique:
  assumes "table_ok s" "holds s x h" "holds s x h'"
  shows "h = h'"
proof -
  obtain i j where i: "i < CAP" "probe x i = h" "j < CAP" "probe x j = h'"
    using assms(2,3) probe_surj unfolding holds_def by metis
  then have "others_upto s x i" "others_upto s x j" using assms by (auto simp: table_ok_def)
  then have "\<not> j < i" "\<not> i < j"
    using assms(2,3) i by (auto simp: others_upto_def holds_def)
  then show ?thesis using i by simp
qed

definition found :: "registry \<Rightarrow> w32 \<Rightarrow> w32 option" where
  "found s x = (if x \<noteq> 0 \<and> (\<exists>h. holds s x h) then Some (sr s (THE h. holds s x h)) else None)"

lemma found_Some: "table_ok s \<Longrightarrow> x \<noteq> 0 \<Longrightarrow> holds s x h \<Longrightarrow> found s x = Some (sr s h)"
proof -
  assume a: "table_ok s" "x \<noteq> 0" "holds s x h"
  then have "(THE h. holds s x h) = h" using holds_unique by blast
  with a show ?thesis by (auto simp: found_def)
qed

lemma found_None: "(\<And>h. \<not> holds s x h) \<Longrightarrow> found s x = None"
  by (simp add: found_def)

lemma not_held_past_gap:
  assumes "table_ok s" "\<not> current s (probe x i)" "\<forall>j < i. sl s (probe x j) \<noteq> slot_word (gen s) x"
  shows "\<not> holds s x h"
proof
  assume h: "holds s x h"
  then obtain k where k: "k < CAP" "probe x k = h" using probe_surj by (auto simp: holds_def)
  with h assms(1) have "others_upto s x k" by (auto simp: table_ok_def)
  then have "\<not> i < k" using assms(2) by (auto simp: others_upto_def)
  moreover have "\<not> k < i" using assms(3) h k by (auto simp: holds_def)
  ultimately have "k = i" by simp
  then show False using h k assms(2) holds_current by simp
qed

lemma lookup_probe_found:
  assumes "table_ok s" "x \<noteq> 0" "\<forall>j < i. sl s (probe x j) \<noteq> slot_word (gen s) x" "n + i = CAP"
  shows "lookup_probe n (probe x i) (slot_word (gen s) x) s = found s x"
  using assms(3,4)
proof (induction n arbitrary: i)
  case 0
  have "\<not> holds s x h" for h
    using probe_surj [of h x] 0 by (auto simp: holds_def)
  then show ?case by (simp add: found_None)
next
  case (Suc n)
  have g: "gen s \<noteq> 0" using assms(1) by (simp add: table_ok_def)
  consider "sl s (probe x i) = slot_word (gen s) x" | "sl s (probe x i) \<noteq> slot_word (gen s) x" "sl s (probe x i) = 0"
    | "sl s (probe x i) \<noteq> slot_word (gen s) x" "sl s (probe x i) \<noteq> 0" by blast
  then show ?case
  proof cases
    case 1
    then have "holds s x (probe x i)" by (simp add: holds_def probe_less)
    then show ?thesis using 1 found_Some [OF assms(1,2)] by simp
  next
    case 2
    then have "\<not> holds s x h" for h
      using not_held_past_gap [OF assms(1) zero_not_current [OF g 2(2)] Suc.prems(1)] by simp
    then show ?thesis using 2 by (simp add: found_None)
  next
    case 3
    then have "\<forall>j < Suc i. sl s (probe x j) \<noteq> slot_word (gen s) x"
      using Suc.prems(1) by (auto simp: less_Suc_eq)
    then show ?thesis using Suc.IH [of "Suc i"] Suc.prems(2) 3 by (simp add: Let_def probe_Suc [simplified])
  qed
qed

lemma lookup_found: "table_ok s \<Longrightarrow> lookup_id x s = found s x"
  using lookup_probe_found [of s x 0 CAP]
  by (auto simp: lookup_id_def probe_0 found_def)

text \<open>What recording does to the table, by where its probe stops.\<close>

definition touched :: "registry \<Rightarrow> nat \<Rightarrow> w32 \<Rightarrow> registry" where
  "touched s h src = s\<lparr>sr := (sr s)(h := sr s h OR src)\<rparr>"

definition claimed :: "registry \<Rightarrow> nat \<Rightarrow> w32 \<Rightarrow> w32 \<Rightarrow> registry" where
  "claimed s h x src =
     s\<lparr>sl := (sl s)(h := slot_word (gen s) x), sr := (sr s)(h := src), inserted := inserted s + 1\<rparr>"

lemma record_probe_cases:
  assumes "others_upto s x i" "n + i = CAP"
  shows "(\<exists>k < CAP. others_upto s x k \<and> holds s x (probe x k)
            \<and> record_probe n (probe x i) (slot_word (gen s) x) src s = touched s (probe x k) src)
       \<or> (\<exists>k < CAP. others_upto s x k \<and> \<not> current s (probe x k)
            \<and> record_probe n (probe x i) (slot_word (gen s) x) src s = claimed s (probe x k) x src)
       \<or> (others_upto s x CAP
            \<and> record_probe n (probe x i) (slot_word (gen s) x) src s = s\<lparr>dropped := dropped s + 1\<rparr>)"
  using assms
proof (induction n arbitrary: i)
  case 0
  then show ?case by simp
next
  case (Suc n)
  have less: "i < CAP" using Suc.prems(2) by simp
  consider (hit) "sl s (probe x i) = slot_word (gen s) x"
    | (free) "sl s (probe x i) \<noteq> slot_word (gen s) x" "\<not> current s (probe x i)"
    | (other) "sl s (probe x i) \<noteq> slot_word (gen s) x" "current s (probe x i)" by blast
  then show ?case
  proof cases
    case hit
    then show ?thesis
      using less Suc.prems(1) by (intro disjI1) (auto simp: holds_def probe_less touched_def intro!: exI [of _ i])
  next
    case free
    then show ?thesis
      using less Suc.prems(1)
      by (intro disjI2 disjI1) (auto simp: current_def claimed_def Let_def intro!: exI [of _ i])
  next
    case other
    then have "others_upto s x (Suc i)" using Suc.prems(1) by (auto simp: others_upto_def less_Suc_eq)
    moreover have "record_probe (Suc n) (probe x i) (slot_word (gen s) x) src s =
        record_probe n (probe x (Suc i)) (slot_word (gen s) x) src s"
      using other by (simp add: Let_def current_def probe_Suc [simplified])
    ultimately show ?thesis using Suc.IH [of "Suc i"] Suc.prems(2) by simp
  qed
qed

section \<open>Every operation keeps the invariant\<close>

lemma touched_frame [simp]:
  "sl (touched s h src) = sl s" "gen (touched s h src) = gen s" "dropped (touched s h src) = dropped s"
  "inserted (touched s h src) = inserted s" "sr (touched s h src) = (sr s)(h := sr s h OR src)"
  by (simp_all add: touched_def)

lemma same_table:
  assumes "sl t = sl s" "gen t = gen s"
  shows "current t h = current s h" "holds t x h = holds s x h" "others_upto t x i = others_upto s x i"
  using assms by (simp_all add: current_def holds_def others_upto_def)

lemma table_ok_touched: "table_ok s \<Longrightarrow> table_ok (touched s h src)"
  by (simp add: table_ok_def same_table [OF touched_frame(1,2)])

lemma found_touched:
  assumes "table_ok s" "x \<noteq> 0" "holds s x h"
  shows "found (touched s h src) y = (if y = x then Some (sr s h OR src) else found s y)"
proof (cases "y \<noteq> 0 \<and> (\<exists>h'. holds s y h')")
  case True
  then obtain h' where h': "holds s y h'" "y \<noteq> 0" by blast
  then have "h' = h \<longleftrightarrow> y = x"
    using assms holds_unique slot_word_inj by (metis holds_def)
  moreover have "found (touched s h src) y = Some (sr (touched s h src) h')"
    by (rule found_Some) (use h' in \<open>simp_all add: table_ok_touched [OF assms(1)] same_table [OF touched_frame(1,2)]\<close>)
  ultimately show ?thesis
    using found_Some [OF assms(1) h'(2,1)] by auto
next
  case False
  moreover from this have "y \<noteq> x" using assms by blast
  ultimately show ?thesis by (auto simp: found_def same_table [OF touched_frame(1,2)])
qed

lemma claimed_frame [simp]:
  "gen (claimed s h x src) = gen s" "dropped (claimed s h x src) = dropped s"
  "sl (claimed s h x src) = (sl s)(h := slot_word (gen s) x)" "sr (claimed s h x src) = (sr s)(h := src)"
  "inserted (claimed s h x src) = inserted s + 1"
  by (simp_all add: claimed_def)

lemma current_claimed: "current (claimed s h x src) h' \<longleftrightarrow> h' = h \<or> current s h'"
  by (simp add: current_def slot_word_gen)

lemma holds_claimed:
  "h < CAP \<Longrightarrow> holds (claimed s h x src) y h' \<longleftrightarrow> (if h' = h then y = x else holds s y h')"
  using slot_word_inj by (auto simp: holds_def)

lemma others_claimed: "others_upto s y i \<Longrightarrow> \<not> current s h \<Longrightarrow> others_upto (claimed s h x src) y i"
  by (auto simp: others_upto_def current_claimed)

lemma table_ok_claimed:
  assumes ok: "table_ok s" "x \<noteq> 0" and k: "k < CAP" "others_upto s x k" "\<not> current s (probe x k)"
  shows "table_ok (claimed s (probe x k) x src)"
proof -
  let ?h = "probe x k" let ?t = "claimed s ?h x src"
  have hc: "?h < CAP" by (rule probe_less)
  have "\<exists>z. z \<noteq> 0 \<and> holds ?t z h" if "h < CAP" "current ?t h" for h
    using that ok by (cases "h = ?h") (auto simp: holds_claimed [OF hc] current_claimed table_ok_def)
  moreover have "others_upto ?t y i" if i: "i < CAP" "holds ?t y (probe y i)" for y i
  proof (cases "probe y i = ?h")
    case True
    then have "y = x" using i by (simp add: holds_claimed [OF hc])
    moreover from this True have "i = k" using probe_inj i k by blast
    ultimately show ?thesis using others_claimed k by blast
  next
    case False
    then have "others_upto s y i" using i ok by (auto simp: holds_claimed [OF hc] table_ok_def)
    then show ?thesis using others_claimed k by blast
  qed
  moreover have "{h. h < CAP \<and> current ?t h} = insert ?h {h. h < CAP \<and> current s h}"
    using hc by (auto simp: current_claimed)
  then have "inserted ?t = card {h. h < CAP \<and> current ?t h}"
    using ok k by (simp add: table_ok_def)
  moreover have "dropped s = 0" using ok k hc by (auto simp: table_ok_def)
  ultimately show ?thesis using ok by (simp add: table_ok_def)
qed

lemma not_held_at_gap:
  "table_ok s \<Longrightarrow> others_upto s x k \<Longrightarrow> \<not> current s (probe x k) \<Longrightarrow> \<not> holds s x h"
  using not_held_past_gap [of s x k h] by (simp add: others_upto_def)

lemma found_claimed:
  assumes ok: "table_ok s" "x \<noteq> 0" and k: "k < CAP" "others_upto s x k" "\<not> current s (probe x k)"
  shows "found (claimed s (probe x k) x src) y = (if y = x then Some src else found s y)"
proof (cases "y = x")
  case True
  have "holds (claimed s (probe x k) x src) x (probe x k)" by (simp add: holds_claimed probe_less)
  then show ?thesis using found_Some [OF table_ok_claimed [OF assms] ok(2)] True by simp
next
  case False
  have eq: "holds (claimed s (probe x k) x src) y h \<longleftrightarrow> holds s y h" for h
    using False k(3) holds_current by (auto simp: holds_claimed probe_less)
  show ?thesis
  proof (cases "y \<noteq> 0 \<and> (\<exists>h. holds s y h)")
    case True
    then obtain h where h: "holds s y h" "y \<noteq> 0" by blast
    then have "h \<noteq> probe x k" using holds_current k(3) by blast
    moreover have "found (claimed s (probe x k) x src) y = Some (sr (claimed s (probe x k) x src) h)"
      by (rule found_Some) (use h eq table_ok_claimed [OF assms] in simp_all)
    ultimately show ?thesis
      using found_Some [OF ok(1) h(2,1)] False by simp
  qed (use False eq in \<open>auto simp: found_def\<close>)
qed

lemma full_when_dropped: "others_upto s x CAP \<Longrightarrow> h < CAP \<Longrightarrow> current s h \<and> \<not> holds s x h"
  using probe_surj [of h x] by (auto simp: others_upto_def holds_def)

lemma table_ok_dropped:
  "table_ok s \<Longrightarrow> others_upto s x CAP \<Longrightarrow> table_ok (s\<lparr>dropped := dropped s + 1\<rparr>)"
  using full_when_dropped [of s x]
  by (simp add: table_ok_def same_table [of "s\<lparr>dropped := Suc (dropped s)\<rparr>" s])

lemma found_same: "sl t = sl s \<Longrightarrow> gen t = gen s \<Longrightarrow> sr t = sr s \<Longrightarrow> found t y = found s y"
proof -
  assume a: "sl t = sl s" "gen t = gen s" "sr t = sr s"
  have "holds t y = holds s y" by (rule ext) (rule same_table(2) [OF a(1,2)])
  with a(3) show ?thesis by (simp add: found_def)
qed

text \<open>The ids in the table, one per current slot.\<close>

definition ids_in :: "registry \<Rightarrow> w32 set" where
  "ids_in s = {x. found s x \<noteq> None}"

lemma ids_in_iff: "x \<in> ids_in s \<longleftrightarrow> x \<noteq> 0 \<and> (\<exists>h. holds s x h)"
  by (simp add: ids_in_def found_def)

lemma inserted_ids: "table_ok s \<Longrightarrow> inserted s = card (ids_in s)"
proof -
  assume ok: "table_ok s"
  have "bij_betw (\<lambda>x. THE h. holds s x h) (ids_in s) {h. h < CAP \<and> current s h}"
  proof (rule bij_betw_imageI)
    have the: "(THE h. holds s x h) = h" if "holds s x h" for x h
      using that holds_unique [OF ok] by blast
    show "inj_on (\<lambda>x. THE h. holds s x h) (ids_in s)"
      by (rule inj_onI) (use the in \<open>auto simp: ids_in_iff holds_def dest: slot_word_inj\<close>)
    show "(\<lambda>x. THE h. holds s x h) ` ids_in s = {h. h < CAP \<and> current s h}"
    proof
      show "(\<lambda>x. THE h. holds s x h) ` ids_in s \<subseteq> {h. h < CAP \<and> current s h}"
        using the by (auto simp: ids_in_iff holds_current) (auto simp: holds_def)
      show "{h. h < CAP \<and> current s h} \<subseteq> (\<lambda>x. THE h. holds s x h) ` ids_in s"
      proof
        fix h
        assume "h \<in> {h. h < CAP \<and> current s h}"
        then obtain x where "x \<noteq> 0" "holds s x h" using ok by (auto simp: table_ok_def)
        then show "h \<in> (\<lambda>x. THE h. holds s x h) ` ids_in s"
          using the [of x h] by (auto simp: ids_in_iff intro!: image_eqI [of _ _ x])
      qed
    qed
  qed
  then show ?thesis using ok bij_betw_same_card by (fastforce simp: table_ok_def)
qed

section \<open>The registry as a map\<close>

text \<open>What the registry stands for: the source bits of each id of the current seed.\<close>

definition spec_record :: "w32 \<Rightarrow> w32 \<Rightarrow> (w32 \<rightharpoonup> w32) \<Rightarrow> (w32 \<rightharpoonup> w32)" where
  "spec_record x src m =
     (if x = 0 \<or> src = 0 then m else m(x \<mapsto> (case m x of None \<Rightarrow> src | Some b \<Rightarrow> b OR src)))"

datatype seed_op = Record_Id w32 w32 | Clear_Ids

fun seed_step :: "seed_op \<Rightarrow> registry \<Rightarrow> registry" where
  "seed_step (Record_Id x src) s = record_id x src s"
| "seed_step Clear_Ids s = clear_ids s"

fun spec_step :: "seed_op \<Rightarrow> (w32 \<rightharpoonup> w32) \<Rightarrow> (w32 \<rightharpoonup> w32)" where
  "spec_step (Record_Id x src) m = spec_record x src m"
| "spec_step Clear_Ids m = Map.empty"

definition gens_past :: "registry \<Rightarrow> bool" where
  "gens_past s \<longleftrightarrow> (\<forall>h. unat (drop_bit 32 (sl s h)) \<le> unat (gen s))"

definition stands_for :: "registry \<Rightarrow> (w32 \<rightharpoonup> w32) \<Rightarrow> bool" where
  "stands_for s m \<longleftrightarrow>
     finite (dom m) \<and> (\<forall>x b. found s x = Some b \<longrightarrow> m x = Some b)
     \<and> (dropped s = 0 \<longrightarrow> found s = m) \<and> (dropped s \<noteq> 0 \<longrightarrow> CAP < card (dom m))"

lemma stands_forD:
  assumes "stands_for s m"
  shows "finite (dom m)" "found s x = Some b \<Longrightarrow> m x = Some b" "dropped s = 0 \<Longrightarrow> found s = m"
    "dropped s \<noteq> 0 \<Longrightarrow> CAP < card (dom m)"
  using assms unfolding stands_for_def by blast+

lemma stands_forI:
  "finite (dom m) \<Longrightarrow> (\<And>x b. found s x = Some b \<Longrightarrow> m x = Some b) \<Longrightarrow> (dropped s = 0 \<Longrightarrow> found s = m) \<Longrightarrow>
   (dropped s \<noteq> 0 \<Longrightarrow> CAP < card (dom m)) \<Longrightarrow> stands_for s m"
  unfolding stands_for_def by blast

lemma unat_ucast_gen: "unat (ucast (g :: w32) :: w64) = unat g"
  using unsigned_less [of g, where ?'a = nat] by (simp add: unsigned_ucast_eq take_bit_nat_eq_self_iff)

lemma init_ok: "table_ok registry_init" "gens_past registry_init" "stands_for registry_init Map.empty"
proof -
  have g: "(ucast (1 :: w32) :: w64) \<noteq> 0" using ucast_inj [of 1 0] by simp
  then have n: "\<not> current registry_init h" for h by (simp add: current_def registry_init_def)
  then show "table_ok registry_init"
    using holds_current by (fastforce simp: table_ok_def registry_init_def)
  have "found registry_init x = None" for x using n holds_current by (intro found_None) blast
  then show "stands_for registry_init Map.empty" by (auto simp: stands_for_def registry_init_def)
  show "gens_past registry_init" by (simp add: gens_past_def registry_init_def)
qed

lemma clear_ok:
  assumes "gens_past s" "unat (gen s) + 1 < 2 ^ 32"
  shows "table_ok (clear_ids s)" "gens_past (clear_ids s)" "stands_for (clear_ids s) Map.empty"
    "unat (gen (clear_ids s)) = unat (gen s) + 1"
proof -
  show g: "unat (gen (clear_ids s)) = unat (gen s) + 1"
    using assms(2) by (simp add: clear_ids_def unat_word_ariths)
  have n: "\<not> current (clear_ids s) h" for h
  proof
    assume "current (clear_ids s) h"
    then have "unat (drop_bit 32 (sl s h)) = unat (gen (clear_ids s))"
      by (simp add: current_def clear_ids_def unat_ucast_gen)
    moreover have "unat (drop_bit 32 (sl s h)) \<le> unat (gen s)" using assms(1) by (simp add: gens_past_def)
    ultimately show False using g by simp
  qed
  have "gen (clear_ids s) \<noteq> 0"
  proof
    assume "gen (clear_ids s) = 0"
    then show False using g by simp
  qed
  with n show "table_ok (clear_ids s)"
    using holds_current by (fastforce simp: table_ok_def clear_ids_def)
  have "found (clear_ids s) x = None" for x using n holds_current by (intro found_None) blast
  then show "stands_for (clear_ids s) Map.empty" by (auto simp: stands_for_def clear_ids_def)
  show "gens_past (clear_ids s)"
    using assms(1) g by (auto simp: gens_past_def clear_ids_def intro: le_trans)
qed

lemma spec_record_dom:
  "finite (dom m) \<Longrightarrow> finite (dom (spec_record x src m)) \<and> card (dom m) \<le> card (dom (spec_record x src m))"
  by (auto simp: spec_record_def intro!: card_mono)

text \<open>The same binding added on both sides.\<close>

lemma stands_for_update:
  assumes "stands_for s m" "finite (dom m') \<and> card (dom m) \<le> card (dom m')"
    and f: "\<And>y. found t y = (if y = x then v else found s y)" and m': "\<And>y. m' y = (if y = x then v else m y)"
    and "dropped t = dropped s"
  shows "stands_for t m'"
proof (rule stands_forI)
  show "finite (dom m')" using assms(2) by simp
  show "m' y = Some b" if "found t y = Some b" for y b
  proof (cases "y = x")
    case False
    then have "found s y = Some b" using that f by simp
    from stands_forD(2) [OF assms(1) this] False show ?thesis using m' by simp
  qed (use that f m' in simp)
  show "found t = m'" if "dropped t = 0"
  proof
    show "found t y = m' y" for y
      using stands_forD(3) [OF assms(1)] that assms(5) f [of y] m' [of y] by simp
  qed
  show "CAP < card (dom m')" if "dropped t \<noteq> 0"
    using stands_forD(4) [OF assms(1)] that assms(2,5) by simp
qed

lemma record_ok:
  assumes ok: "table_ok s" and past: "gens_past s" and st: "stands_for s m"
  shows "table_ok (record_id x src s) \<and> gens_past (record_id x src s) \<and> gen (record_id x src s) = gen s
    \<and> stands_for (record_id x src s) (spec_record x src m)"
proof (cases "x = 0 \<or> src = 0")
  case True
  then show ?thesis using assms by (simp add: record_id_def spec_record_def)
next
  case False
  then have x: "x \<noteq> 0" and m': "spec_record x src m = m(x \<mapsto> (case m x of None \<Rightarrow> src | Some b \<Rightarrow> b OR src))"
    and r: "record_id x src s = record_probe CAP (probe x 0) (slot_word (gen s) x) src s"
    by (simp_all add: spec_record_def record_id_def probe_0)
  have fin: "finite (dom m)" by (rule stands_forD(1) [OF st])
  note grow = spec_record_dom [OF fin, of x src]
  consider (hit) k where "holds s x (probe x k)" "record_id x src s = touched s (probe x k) src"
    | (free) k where "k < CAP" "others_upto s x k" "\<not> current s (probe x k)"
        "record_id x src s = claimed s (probe x k) x src"
    | (full) "others_upto s x CAP" "record_id x src s = s\<lparr>dropped := dropped s + 1\<rparr>"
    using record_probe_cases [of s x 0 CAP src] r by (auto simp: others_upto_def)
  then show ?thesis
  proof cases
    case hit
    let ?t = "touched s (probe x k) src"
    have b: "found s x = Some (sr s (probe x k))" by (rule found_Some [OF ok x hit(1)])
    then have mx: "m x = Some (sr s (probe x k))" by (rule stands_forD(2) [OF st])
    have f: "found ?t y = (if y = x then Some (sr s (probe x k) OR src) else found s y)" for y
      by (rule found_touched [OF ok x hit(1)])
    have sp: "spec_record x src m y = (if y = x then Some (sr s (probe x k) OR src) else m y)" for y
      by (simp add: m' mx)
    have "stands_for ?t (spec_record x src m)"
      by (rule stands_for_update [OF st grow f sp]) simp_all
    then show ?thesis
      using table_ok_touched [OF ok] past hit(2) by (simp add: gens_past_def)
  next
    case free
    let ?t = "claimed s (probe x k) x src"
    have d: "dropped s = 0" using ok free probe_less [of x k] by (auto simp: table_ok_def)
    have "found s x = None" using not_held_at_gap [OF ok free(2,3)] by (intro found_None) blast
    then have mx: "m x = None" using stands_forD(3) [OF st d] by simp
    have f: "found ?t y = (if y = x then Some src else found s y)" for y
      by (rule found_claimed [OF ok x free(1-3)])
    have sp: "spec_record x src m y = (if y = x then Some src else m y)" for y
      by (simp add: m' mx)
    have "stands_for ?t (spec_record x src m)"
      by (rule stands_for_update [OF st grow f sp]) simp_all
    moreover have "gens_past ?t"
      using past by (simp add: gens_past_def slot_word_gen unat_ucast_gen)
    ultimately show ?thesis
      using table_ok_claimed [OF ok x free(1-3)] free(4) by simp
  next
    case full
    let ?t = "s\<lparr>dropped := dropped s + 1\<rparr>"
    have f: "found ?t y = found s y" for y by (rule found_same) simp_all
    have none: "found s x = None" using full_when_dropped [OF full(1)] by (intro found_None) (auto simp: holds_def)
    have "{h. h < CAP \<and> current s h} = {..< CAP}" using full_when_dropped [OF full(1)] by auto
    then have "card (ids_in s) = CAP" using inserted_ids [OF ok] ok by (simp add: table_ok_def)
    moreover have "insert x (ids_in s) \<subseteq> dom (spec_record x src m)"
      using stands_forD(2) [OF st] by (auto simp: ids_in_def m')
    moreover have "x \<notin> ids_in s" "finite (ids_in s)"
      using none \<open>card (ids_in s) = CAP\<close> cap_pos card.infinite by (force simp: ids_in_def)+
    ultimately have "CAP < card (dom (spec_record x src m))"
      using card_mono [of "dom (spec_record x src m)" "insert x (ids_in s)"] grow by simp
    moreover have "spec_record x src m y = Some b" if "found s y = Some b" for y b
      using stands_forD(2) [OF st that] that none by (cases "y = x") (simp_all add: m')
    ultimately have "stands_for ?t (spec_record x src m)"
      using grow f by (intro stands_forI) simp_all
    then show ?thesis
      using table_ok_dropped [OF ok full(1)] past full(2) by (simp add: gens_past_def)
  qed
qed

definition clears :: "seed_op list \<Rightarrow> nat" where
  "clears ops = length (filter (\<lambda>q. q = Clear_Ids) ops)"

lemma run_ok:
  assumes "table_ok s" "gens_past s" "stands_for s m" "unat (gen s) + clears ops < 2 ^ 32"
  shows "table_ok (fold seed_step ops s) \<and> stands_for (fold seed_step ops s) (fold spec_step ops m)"
  using assms
proof (induction ops arbitrary: s m)
  case (Cons q ops)
  show ?case
  proof (cases q)
    case (Record_Id x src)
    then show ?thesis
      using record_ok [OF Cons.prems(1-3), of x src] Cons.prems(4)
        Cons.IH [of "record_id x src s" "spec_record x src m"]
      by (simp add: clears_def)
  next
    case Clear_Ids
    then have "unat (gen s) + 1 < 2 ^ 32" using Cons.prems(4) by (simp add: clears_def)
    from clear_ok [OF Cons.prems(2) this] Clear_Ids Cons.prems(4) show ?thesis
      by (simp add: clears_def Cons.IH)
  qed
qed simp

text \<open>
  C32: The registry is the map of the current seed. After any sequence of records and clears, with fewer
  than \<open>2^32 - 1\<close> clears, a lookup that answers is right: the id was recorded since the last clear and
  the bits are exactly those of its records. While nothing was dropped, every lookup agrees with the map
  and the count is its size; and nothing is dropped unless more distinct ids were recorded than the
  table has slots. No entry of an earlier seed is ever seen, although a clear writes no slot.
\<close>

theorem registry_refines_map:
  assumes "clears ops < 2 ^ 32 - 1"
  shows "(let s = fold seed_step ops registry_init; m = fold spec_step ops Map.empty
          in (\<forall>x b. lookup_id x s = Some b \<longrightarrow> m x = Some b)
             \<and> (dropped s = 0 \<longrightarrow> (\<forall>x. lookup_id x s = m x) \<and> registered s = card (dom m))
             \<and> (card (dom m) \<le> CAP \<longrightarrow> dropped s = 0))"
proof -
  have "unat (gen registry_init) + clears ops < 2 ^ 32" using assms by (simp add: registry_init_def)
  from run_ok [OF init_ok this]
  have ok: "table_ok (fold seed_step ops registry_init)"
    and st: "stands_for (fold seed_step ops registry_init) (fold spec_step ops Map.empty)" by auto
  have "ids_in (fold seed_step ops registry_init) = dom (fold spec_step ops Map.empty)"
    if "dropped (fold seed_step ops registry_init) = 0"
    using stands_forD(3) [OF st that] by (auto simp: ids_in_def dom_def)
  then show ?thesis
    unfolding Let_def registered_def inserted_ids [OF ok] lookup_found [OF ok]
    using stands_forD(2-4) [OF st] by (metis linorder_not_less)
qed

lemma registry_refines_map_witness:
  "(let ops = [Record_Id 0x40002775 SRC_ENEMY_DROP_ROLL, Record_Id 0x40000001 SRC_SHOP, Clear_Ids,
              Record_Id 0x40002775 SRC_ENEMY_DROP_ROLL, Record_Id 0x40002775 SRC_SHOP];
        s = fold seed_step ops registry_init
    in lookup_id 0x40002775 s = Some 3 \<and> lookup_id 0x40000001 s = None \<and> registered s = 1 \<and> dropped s = 0)"
proof -
  let ?ops = "[Record_Id 0x40002775 SRC_ENEMY_DROP_ROLL, Record_Id 0x40000001 SRC_SHOP, Clear_Ids,
              Record_Id 0x40002775 SRC_ENEMY_DROP_ROLL, Record_Id 0x40002775 SRC_SHOP]"
  have m: "fold spec_step ?ops Map.empty = [0x40002775 \<mapsto> 3]"
    by (simp add: spec_record_def SRC_ENEMY_DROP_ROLL_def SRC_SHOP_def)
  have c: "clears ?ops < 2 ^ 32 - 1" by (simp add: clears_def)
  show ?thesis
    using registry_refines_map [OF c] unfolding m by (auto simp: Let_def CAP_def simp del: fold_simps)
qed

end
