(* ===== verification/Spec2Isabelle.thy ===== *)
theory Spec2Isabelle
  imports Prelude BTree Semver Codec ReconDesired ReconOrder ReconTick ReconMock ReconLedger ReconSession
    ReconStall ReconConverge ReconGates BbLedger BbCursor BbStore Receive LockHints Traps TrapDelivery
    DeathLink GoalGate BbBackend BbPlan BbDeath BbLoop BbSustain BbLocations BbItems BbRescue BbFrame
    BbLanes BbGrants BbOperator BbSession BbWatch BbOutcomes NativeGrant NativeSafety NativeReplay
    NativeEngine NativeRuns NativeClaims ErUpgrades ErEquip ErKeyList
    Floats ErScaleTables ErScaling ErTargets ErSweep ErSweepClaims
    ErRegionLocks ErRegions ErRegionClaims ErCapital ErCapitalClaims SeedIds
begin

text \<open>
  Verification of the Archipelago clients for FromSoftware games.

  \<^bold>\<open>The program.\<close> The repository connects running games (Elden Ring, Bloodborne, Dark Souls 3,
  Sekiro) to an Archipelago multiworld server: the server sends an indexed stream of items, the
  client applies each of them to the game exactly once, whatever reconnects, reloads and crashes
  happen in between, and reports checks and deaths back. The decisions live in crates that can be
  compiled without a game (\<open>er-logic\<close>, \<open>er-codec\<close>, \<open>er-semver\<close>, parts of
  \<open>bb-archipelago\<close>); the DLL crates read and write game memory and call them every tick. This
  development translates the decisions; the game appears as a record of the functions the code calls
  (\<open>game_io\<close>, \<open>net_hook\<close>, \<open>death_hook\<close>, \<open>flag_io\<close>, \<open>region_io\<close>, \<open>backend\<close>) or as a record of the
  values it reads and writes.

  \<^bold>\<open>Theories and sources.\<close>

  \<^item> \<open>Prelude\<close>: orderings, ASCII byte strings and the string and number primitives of the
    standard library, integer conversions, list lemmas. \<open>BTree\<close>: \<open>BTreeMap\<close> and \<open>BTreeSet\<close>
    as key-sorted entry lists (a type with invariant, \<open>instantiation equal\<close>), and a locale for
    what the proofs need of a map, interpreted on it.
  \<^item> \<open>Semver\<close>: \<open>crates/er-semver/src/lib.rs\<close>. \<open>parse_semver\<close>, \<open>compare_semver\<close>,
    \<open>version_satisfies\<close>; a panic of the code is the value \<open>None\<close>.
  \<^item> \<open>Codec\<close>: \<open>crates/er-codec/src/lib.rs\<close>. Item categories and full ids on 32-bit words, the
    64-bit location id, the row reader.
  \<^item> \<open>ReconDesired\<close>: \<open>DesiredState::build\<close> of \<open>crates/er-logic/src/reconcile.rs\<close> and
    its data, one definition per loop body. \<open>ReconOrder\<close> compares two arrival orders.
  \<^item> \<open>ReconTick\<close>: the same file's \<open>diff\<close>, stability gates, \<open>Reconciler\<close> state and
    \<open>tick_with_classes\<close> with both passes, \<open>tick\<close>, \<open>run_to_fixpoint\<close>; \<open>ReconMock\<close>:
    its \<open>MockGame\<close>. \<open>ReconSafety\<close>, \<open>ReconLedger\<close>, \<open>ReconSession\<close>,
    \<open>ReconStall\<close>, \<open>ReconConverge\<close> and \<open>ReconGates\<close> hold the lemmas over them.
  \<^item> \<open>BbLedger\<close>: \<open>SlotLedger\<close> of \<open>crates/bb-archipelago/src/ledger.rs\<close> and the items of
    \<open>feed.rs\<close>; \<open>BbCursor\<close>: its reachable states; \<open>BbStore\<close>: the file operations of
    \<open>ReceiveLedger\<close>, a save being an inductive relation with an interruption between any two of
    its steps and in the middle of each write.
  \<^item> The Bloodborne client loop, \<open>crates/bb-archipelago/src/client_loop.rs\<close>: \<open>BbBackend\<close>
    (\<open>backend.rs\<close>: the trait as a record of functions, the mock), \<open>BbPlan\<close>
    (\<open>feed.rs\<close>, \<open>upgrades.rs\<close>, the data of \<open>config.rs\<close>), \<open>BbDeath\<close> (the local
    death detector), \<open>BbLoop\<close> (the loop's state, its state and error passing, context binding,
    watermark reconciliation, DeathLink, victory), \<open>BbSustain\<close> (the bonus lane),
    \<open>BbLocations\<close> (check polling), \<open>BbItems\<close> (\<open>poll_items\<close> and its stages),
    \<open>BbRescue\<close> (the operator's commands and recipes). \<open>BbFrame\<close>, \<open>BbLanes\<close>,
    \<open>BbGrants\<close> and \<open>BbOperator\<close> derive what every operation keeps from laws about its
    parts; \<open>BbSession\<close> runs whole sessions; \<open>BbWatch\<close> and \<open>BbOutcomes\<close> hold the
    properties of check polling and of single operations.
  \<^item> The native delivery path, \<open>crates/bb-archipelago/src/native/\<close>: \<open>NativeGrant\<close> (\<open>delivery.rs\<close>:
    \<open>GrantSession\<close> with every branch of a poll over a guest behind the record \<open>runtime\<close>;
    \<open>descriptor.rs\<close>, the data of \<open>contract.rs\<close>), \<open>NativeEngine\<close> (\<open>engine.rs\<close>,
    \<open>diagnostics.rs\<close>, the grant calls of \<open>backend.rs\<close>). \<open>NativeSafety\<close>, \<open>NativeReplay\<close> and
    \<open>NativeRuns\<close> hold the lemmas about single polls, replays after a crash and runs of the engine,
    \<open>NativeClaims\<close> the properties.
  \<^item> \<open>Receive\<close>: \<open>receive.rs\<close>, \<open>receive_cursor.rs\<close> and \<open>progressive.rs\<close> of
    \<open>er-logic\<close>. \<open>LockHints\<close>: \<open>lock_hint_economy.rs\<close>.
  \<^item> \<open>Traps\<close>: the names, constructor, parser and refusal classifier of \<open>traps.rs\<close>;
    \<open>TrapDelivery\<close>: \<open>TrapQueue\<close> and the client's \<open>enqueue_by_item_name\<close> and
    \<open>poll_pending\<close> (\<open>crates/eldenring-archipelago/src/traps.rs\<close>).
  \<^item> \<open>DeathLink\<close>: \<open>deathlink.rs\<close> and the default methods of \<open>hook.rs\<close> in
    \<open>er-logic\<close>, and the live \<open>drive_kill\<close> of
    \<open>crates/eldenring-archipelago/src/deathlink.rs\<close>. \<open>GoalGate\<close>: \<open>goal_gate.rs\<close> and
    \<open>tick_goal_gate\<close> of \<open>crates/eldenring-archipelago/src/region.rs\<close>.
  \<^item> Items of Elden Ring, in \<open>crates/er-logic/src/\<close>: \<open>ErUpgrades\<close> (\<open>upgrades.rs\<close>,
    \<open>death_guard.rs\<close>, \<open>upgrade_cost.rs\<close>), \<open>ErEquip\<close> (\<open>auto_equip.rs\<close>, \<open>spell_equip.rs\<close>,
    \<open>physick.rs\<close>, \<open>equip_queue.rs\<close>), \<open>ErKeyList\<close> (\<open>key_list_window.rs\<close>,
    \<open>pot_cap_tally.rs\<close>).
  \<^item> Enemy scaling: \<open>Floats\<close> (rounding of \<open>f32\<close> and \<open>f64\<close>), \<open>ErScaleTables\<close> (the tables of
    \<open>scaling.rs\<close>, \<open>native_tiers.rs\<close> and \<open>area_tiers.rs\<close>), \<open>ErScaling\<close> (the decisions about one
    enemy and its ground), \<open>ErTargets\<close> (targets, payouts, notices), \<open>ErSweep\<close>
    (\<open>crates/eldenring-archipelago/src/scaling.rs\<close> with \<open>scaling_settle.rs\<close>, \<open>rescale_watch.rs\<close> and
    \<open>id_sample.rs\<close>: both passes of a sweep, its gate, its back-off and the tick), \<open>ErSweepClaims\<close>.
  \<^item> Region locks: \<open>ErRegionLocks\<close> (\<open>er-logic/src/region_lock.rs\<close>, \<open>region_locks.rs\<close>,
    \<open>goal_approach.rs\<close>: the decisions, latches, countdown, messages and the derived configuration),
    \<open>ErRegions\<close> (the drivers of \<open>crates/eldenring-archipelago/src/region.rs\<close> over the accessors of
    \<open>flags.rs\<close>), \<open>ErRegionClaims\<close>; the capital reconciler: \<open>ErCapital\<close>
    (\<open>er-logic/src/capital.rs\<close>, \<open>capital_guard.rs\<close>, \<open>tick_capital\<close> and
    \<open>capital_warp_intercept\<close> of \<open>region.rs\<close>), \<open>ErCapitalClaims\<close>.
  \<^item> \<open>SeedIds\<close>: \<open>crates/shared/src/seed_ids.rs\<close>, the table of the seed's item ids that the
    crash reporter reads: \<open>record\<close>, \<open>lookup\<close>, \<open>clear\<close> and the annotation texts.

  \<^bold>\<open>How the parts interact.\<close> The receive path splits the stream: an item is dispatched to the
  progressive tables and pushed for a grant, each behind a watermark. For Elden Ring the received
  items are the input of \<open>build\<close>, which gives a desired state; every tick observes the game,
  computes the difference and applies it within a budget, first the idempotent classes, then the
  ledger behind its own watermark. For Bloodborne the client loop polls three lanes against one
  ledger file: the received items (plan, observe the baseline, save, grant, save, equip,
  acknowledge, save), the bonus of each sent check, and the operator's grants; every lane validates
  the loaded character first, compares the save's watermark with the cursor, and withdraws or parks
  what cannot be delivered. Traps and DeathLink kills wait in queues and latches
  until the player can receive them. The goal gate, the region locks and the hints read what is held. A Bloodborne grant goes through the
  delivery engine, which validates the request, keeps one tag in flight and polls the grant machine; the
  machine waits for the guest, calls a native function at most a few times and judges the result by
  what it reads back. In Elden Ring a received weapon is raised and its id enqueued for equipping, a
  paced queue; the enemy sweep reads the region's target, measures the ground, then brings each
  character's effects to the target. The region drivers share the flag store: a received lock raises the
  flags of its region, which is what the kick reads; a kick is a warp, and every warp is intercepted by
  the capital reconciler, which the tick then leaves alone until the player has arrived.

  \<^bold>\<open>What the lemmas show.\<close>

  \<^item> Reconciler: over a session the ledger actions are the entries between the watermarks, each once
    and in order (C1); from any observation of a ready game the fixpoint loop reaches
    every goal (C6); a tick applies only desired goals that are missing
    (C16); a grant the game never shows is tried three times
    (C20); what is desired (C17), and that the
    arrival order matters for it (C38) only in the companion flags of a good
    that two items name with different ones. Budgets, what the mock game receives and the (re)starts are lemmas.
  \<^item> Bloodborne ledger: nothing is delivered twice (C8) or lost
    (C18), what a load finds after an interrupted save (C9). The outcomes of a watermark
    comparison and the bounded retry are lemmas.
  \<^item> Bloodborne client loop: every ledger of every session is consistent (C2),
    every grant follows its saved plan (C3), a reported check was debounced under one
    character (C7), a refused grant parks and the stream goes on
    (C22), a planned weapon
    has the descriptors of its level or is refused (C40), the equip fold equals its reference
    (C27), deaths are debounced (C26).
  \<^item> Native delivery: a verdict stands (C4), the game takes at most
    one call of a replayed grant per start, and the held stack gets the quantity at most once
    (C5), an arrived one is recovered (C15), native calls are
    bounded (C14), success needs evidence (C23), verification
    ends (C24) and valid requests are taken (C25).
  \<^item> Receive path: one grant per item (C19); lemmas: no double grant through two
    paths, tiers by receipt, one claim per trap. DeathLink kills cost no runes
    while the game data can be read (C21); trap names round trip (C36); the goal gate opens
    on its conditions and its latch is honest (C37).
  \<^item> Elden Ring items: that the backfill never evicts, the levels of received weapons, the paced queue
    and the walk over the key items are lemmas.
  \<^item> Enemy scaling: one sweep settles a population (C12) and waits for the world
    (C33), acts only on evidence (C31), and maps targets
    in order (C34); payouts and the reading of the ground are lemmas.
  \<^item> Region locks: a kick is justified, once per visit and not missed (C13), received locks
    end up open and nothing else (C11), a foreign seed enforces nothing before a receipt
    (C30), the countdown gives its whole grace (C35).
    Capital: it follows the player and rests (C28), a warp's target wins over a stale
    position (C29), a position alone never burns the world
    (C10).
  \<^item> Seed ids: the hash table refines the map of the current seed (C32), for fewer than
    \<open>2^32 - 1\<close> clears, after which the generation counter wraps.
  \<^item> Versions (C39); the comparison as an order on keys is a lemma.
  \<^item> Lemmas without a number prove behaviour the comments do not describe: a failed save that is not undone
    in memory, a rescue recipe that repairs nothing, a startup withdrawal under the wrong tag, the save
    that overwrites the only good backup, the grant doubled through the storage box, the rune payments
    counted though nothing was written, the panic of the version gate, the adopted cursor that
    redelivers, the early converged report, the companion flags that depend on the order, the overdue
    clock that restarts with every refusal, the detector armed by one reading.

  \<^bold>\<open>Interfaces.\<close> Laws a caller relies on are locales, each interpreted on the model's own provider:
  the map laws on \<open>btree_map\<close>; \<open>logging_game\<close>, \<open>blind_game\<close> and \<open>lawful_game\<close> (a
  grant is logged; a grant is refused silently; writes read back and do not interfere) on the mock
  game with its switches; \<open>claiming_hook\<close> on the progressive state; \<open>keeping_flags\<close> and its
  extension \<open>sticking_flags\<close> on the flag table; \<open>event_flags\<close> (a flag manager that is down or keeps
  exactly what is written), which gives \<open>keeping_flags\<close>, on the client's own accessors. For the client loop \<open>lane_frame\<close> and its
  extension \<open>operator_frame\<close> state what a relation between two states of the loop has to satisfy
  (quiet calls, committed slot changes, the acknowledgement, a grant that matches a saved row) and
  derive that every operation keeps it; they are interpreted on the loop over any backend with the
  three relations of the session properties.

  \<^bold>\<open>Bounds and fuel.\<close> \<open>run_to_fixpoint\<close> has the code's own iteration limit; C6
  needs it above the number of goals and shows that one tick more than that number is enough. The retry
  loop has the code's six attempts. Sessions, replays, runs of the engine and histories of the gate are
  finite lists of events of any length, or inductive relations. The game of the replays answers every call
  as it likes (applied, refused, taken elsewhere) and the player may change the stack at any time; the laws
  assumed of it are that a refusal answers the empty slot and that the empty slot has no record. Rust integers are words where their
  wrap-around matters (\<open>Codec\<close>, histograms, tick numbers, fingerprints), otherwise numbers with
  saturation and range checks written out; clocks and counters that only grow are unbounded. Floating
  point values are rationals rounded after every operation; none leaves the range of normal numbers.

  \<^bold>\<open>Not modelled.\<close> Reading and writing game memory, sockets, JSON, log lines and user interfaces; the
  effect of a trap on the game, which is an input of the poll; the game's list of effects, which is a
  record of two functions; tests; of the client loop the diagnosis, status, listing and export texts;
  of the scaling, region and capital code the reading of slot data. Not reached are region sync, save
  state, the shop release rows of the capital, the connection state of \<open>archipelago-rs\<close>, the shared crate's crash, configuration and log helpers, and
  the hooks of the DLL clients, which mostly move values between the game and the parts above.
\<close>

end
